(* ===== verification/Js_Map.thy ===== *)
theory Js_Map
  imports Prelude
begin

text \<open>
  JavaScript's insertion-ordered collections: a \<open>Map\<close> (or a plain object used as one) is an
  association list whose order is that of first insertion, a \<open>Set\<close> a list without duplicates.
  Setting a key that is present keeps its position. Reading is \<open>map_of\<close>.
\<close>

fun js_set :: "'k \<Rightarrow> 'v \<Rightarrow> ('k \<times> 'v) list \<Rightarrow> ('k \<times> 'v) list" where
  "js_set k v [] = [(k, v)]"
| "js_set k v ((k', v') # m) = (if k' = k then (k, v) # m else (k', v') # js_set k v m)"

definition js_map_new :: "('k \<times> 'v) list \<Rightarrow> ('k \<times> 'v) list" where
  "js_map_new kvs = fold (\<lambda>(k, v). js_set k v) kvs []"

definition js_map_delete :: "'k \<Rightarrow> ('k \<times> 'v) list \<Rightarrow> ('k \<times> 'v) list" where
  "js_map_delete k m = filter (\<lambda>kv. fst kv \<noteq> k) m"

definition js_add :: "'a \<Rightarrow> 'a list \<Rightarrow> 'a list" where
  "js_add x s = (if x \<in> set s then s else s @ [x])"

definition js_set_new :: "'a list \<Rightarrow> 'a list" where
  "js_set_new xs = fold js_add xs []"

lemma map_of_js_set [simp]: "map_of (js_set k v m) = (map_of m)(k \<mapsto> v)"
  by (induction m) (auto simp: fun_upd_twist)

lemma keys_js_set: "map fst (js_set k v m) = (if k \<in> fst ` set m then map fst m else map fst m @ [k])"
  by (induction k v m rule: js_set.induct) simp_all

lemma set_keys_js_set [simp]: "fst ` set (js_set k v m) = insert k (fst ` set m)"
  by (induction k v m rule: js_set.induct) (simp_all add: insert_commute)

lemma distinct_js_set [simp]: "distinct (map fst m) \<Longrightarrow> distinct (map fst (js_set k v m))"
  by (auto simp: keys_js_set)

lemma map_of_fold_js_set:
  "map_of (fold (\<lambda>(k, v). js_set k v) kvs m) = map_of m ++ map_of (rev kvs)"
  by (induction kvs arbitrary: m) (auto simp: map_add_upd_left map_add_def fun_eq_iff split: option.splits)

lemma map_of_js_map_new [simp]: "map_of (js_map_new kvs) = map_of (rev kvs)"
  by (simp add: js_map_new_def map_of_fold_js_set)

lemma distinct_js_map_new [simp]: "distinct (map fst (js_map_new kvs))"
proof -
  have "distinct (map fst m) \<Longrightarrow> distinct (map fst (fold (\<lambda>(k, v). js_set k v) kvs m))" for m
    by (induction kvs arbitrary: m) auto
  then show ?thesis by (simp add: js_map_new_def)
qed

text \<open>Two ordered maps with the same key order and the same contents are the same list.\<close>

lemma js_map_eqI:
  assumes "map fst m = map fst m'" "map_of m = map_of m'" "distinct (map fst m)"
  shows "m = m'"
proof -
  have "snd (m ! i) = snd (m' ! i)" if "i < length m" for i
  proof -
    have l: "length m = length m'" using assms(1) by (metis length_map)
    then have f: "fst (m ! i) = fst (m' ! i)" using assms(1) that by (metis nth_map)
    have "map_of m (fst (m ! i)) = Some (snd (m ! i))"
      using assms(3) that by (simp add: map_of_eq_Some_iff)
    moreover have "map_of m' (fst (m' ! i)) = Some (snd (m' ! i))"
      using assms(1,3) that l by (metis map_of_eq_Some_iff nth_mem prod.collapse)
    ultimately show ?thesis using f assms(2) by simp
  qed
  moreover have "length m = length m'" using arg_cong [OF assms(1), of length] by simp
  ultimately have "map snd m = map snd m'" by (intro nth_equalityI) simp_all
  with assms(1) show ?thesis by (metis zip_map_fst_snd)
qed

lemma map_of_js_delete [simp]: "map_of (js_map_delete k m) = (map_of m)(k := None)"
  by (induction m) (auto simp: js_map_delete_def)

lemma set_js_add [simp]: "set (js_add x s) = insert x (set s)"
  by (auto simp: js_add_def)

lemma distinct_js_add [simp]: "distinct (js_add x s) \<longleftrightarrow> distinct s"
  by (auto simp: js_add_def)

lemma set_fold_js_add [simp]: "set (fold js_add xs s) = set s \<union> set xs"
  by (induction xs arbitrary: s) auto

lemma distinct_fold_js_add [simp]: "distinct (fold js_add xs s) \<longleftrightarrow> distinct s"
  by (induction xs arbitrary: s) auto

lemma js_set_new_props [simp]: "set (js_set_new xs) = set xs" "distinct (js_set_new xs)"
  by (simp_all add: js_set_new_def)

lemma js_set_fresh: "k \<notin> fst ` set m \<Longrightarrow> js_set k v m = m @ [(k, v)]"
  by (induction k v m rule: js_set.induct) auto

text \<open>Reading the entries of a map back gives the map.\<close>

lemma js_map_new_distinct:
  assumes "distinct (map fst m)"
  shows "js_map_new m = m"
proof -
  have "distinct (map fst (acc @ m)) \<Longrightarrow> fold (\<lambda>(k, v). js_set k v) m acc = acc @ m" for acc
    by (induction m arbitrary: acc) (auto simp: js_set_fresh image_iff)
  from this [of "[]"] assms show ?thesis by (simp add: js_map_new_def)
qed

end
