(* ===== verification/Trust_Index.thy ===== *)
theory Trust_Index
  imports Js_Map
begin

text \<open>
  Which pre-upgrade trust records belong to which account on a shared device,
  \<open>packages/crypto/src/trust-index.ts\<close>. A \<open>TrustIndex\<close> is an object from trust-state ids to
  the legacy ids an account recorded.
\<close>

type_synonym TrustIndex = "(string \<times> string list) list"

definition index_get :: "TrustIndex \<Rightarrow> string \<Rightarrow> string list" where
  "index_get index trustId = (case map_of index trustId of None \<Rightarrow> [] | Some ids \<Rightarrow> ids)"

definition recordLegacyIds :: "TrustIndex \<Rightarrow> string \<Rightarrow> string option list \<Rightarrow> TrustIndex" where
  "recordLegacyIds index trustId ids =
     (let known = js_set_new (index_get index trustId);
          known' = fold (\<lambda>i known. case i of None \<Rightarrow> known | Some x \<Rightarrow> if x = '''' then known else js_add x known)
                     ids known
      in js_set trustId known' index)"

definition ownLegacyKeys :: "TrustIndex \<Rightarrow> string \<Rightarrow> string list \<Rightarrow> string \<Rightarrow> string list" where
  "ownLegacyKeys index trustId keys key_prefix =
     (let mine = js_set_new (index_get index trustId);
          others = js_set_new (concat (map snd (filter (\<lambda>e. fst e \<noteq> trustId) index)))
      in filter (\<lambda>key. if \<not> startsWith key key_prefix then False
                        else let i = drop (length key_prefix) key in i \<in> set mine \<and> i \<notin> set others) keys)"

section \<open>Lemmas\<close>

text \<open>The legacy ids an account has recorded.\<close>

definition recorded :: "TrustIndex \<Rightarrow> string \<Rightarrow> string set" where
  "recorded index t = set (index_get index t)"

definition index_ok :: "TrustIndex \<Rightarrow> bool" where
  "index_ok index \<longleftrightarrow> distinct (map fst index)"

lemma set_record_fold:
  "set (fold (\<lambda>i known. case i of None \<Rightarrow> known | Some x \<Rightarrow> if x = '''' then known else js_add x known) ids known) =
     set known \<union> {x. Some x \<in> set ids \<and> x \<noteq> ''''}"
  by (induction ids arbitrary: known) (auto split: option.splits)

lemma index_ok_record: "index_ok index \<Longrightarrow> index_ok (recordLegacyIds index t ids)"
  by (simp add: index_ok_def recordLegacyIds_def Let_def)

lemma recorded_recordLegacyIds:
  "recorded (recordLegacyIds index t ids) t' =
     recorded index t' \<union> (if t' = t then {x. Some x \<in> set ids \<and> x \<noteq> ''''} else {})"
  by (auto simp: recorded_def recordLegacyIds_def Let_def index_get_def set_record_fold)

lemma others_recorded:
  assumes "index_ok index"
  shows "set (concat (map snd (filter (\<lambda>e. fst e \<noteq> t) index))) = (\<Union>t' \<in> - {t}. recorded index t')"
proof -
  have "x \<in> recorded index t' \<longleftrightarrow> (\<exists>ids. (t', ids) \<in> set index \<and> x \<in> set ids)" for x t'
    using assms by (auto simp: recorded_def index_get_def index_ok_def split: option.splits
        dest: map_of_SomeD weak_map_of_SomeI)
  then show ?thesis by fastforce
qed

lemma ownLegacyKeys_iff:
  assumes "index_ok index"
  shows "key \<in> set (ownLegacyKeys index t keys p) \<longleftrightarrow>
    key \<in> set keys \<and> (\<exists>i. key = p @ i \<and> i \<in> recorded index t \<and> (\<forall>t'. t' \<noteq> t \<longrightarrow> i \<notin> recorded index t'))"
proof -
  have "startsWith key p \<longleftrightarrow> (\<exists>i. key = p @ i)" by (auto simp: startsWith_def prefix_def)
  then show ?thesis
    using others_recorded [OF assms, of t]
    by (auto simp: ownLegacyKeys_def Let_def recorded_def)
qed

text \<open>
  On a shared device a legacy trust record is taken over by at most one account, and only by one
  that recorded its id: the keys \<open>ownLegacyKeys\<close> gives two different accounts are disjoint, and an
  id that a second account records later is no longer given to the first.
\<close>

theorem legacy_keys_never_shared:
  assumes "index_ok index" "t \<noteq> t'"
  shows "set (ownLegacyKeys index t keys p) \<inter> set (ownLegacyKeys index t' keys p) = {} \<and>
    (\<forall>key \<in> set (ownLegacyKeys index t keys p). \<exists>i. key = p @ i \<and> i \<in> recorded index t \<and>
       (i \<noteq> '''' \<longrightarrow> key \<notin> set (ownLegacyKeys (recordLegacyIds index t' [Some i]) t keys p)))"
proof -
  have "key \<notin> set (ownLegacyKeys (recordLegacyIds index t' [Some i]) t keys p)" if "key = p @ i" "i \<noteq> ''''" for key i
    unfolding ownLegacyKeys_iff [OF index_ok_record [OF assms(1)]] using that assms(2)
    by (auto simp: recorded_recordLegacyIds)
  then show ?thesis
    using assms by (auto simp: ownLegacyKeys_iff)
qed

theorem legacy_keys_never_shared_witness:
  "set (ownLegacyKeys [(''a'', [''v1'', ''v2'']), (''b'', [''v2''])] ''a'' [''rev:v1'', ''rev:v2''] ''rev:'') \<inter>
   set (ownLegacyKeys [(''a'', [''v1'', ''v2'']), (''b'', [''v2''])] ''b'' [''rev:v1'', ''rev:v2''] ''rev:'') = {} \<and>
   ownLegacyKeys [(''a'', [''v1'', ''v2'']), (''b'', [''v2''])] ''a'' [''rev:v1'', ''rev:v2''] ''rev:'' = [''rev:v1'']"
proof
  show "set (ownLegacyKeys [(''a'', [''v1'', ''v2'']), (''b'', [''v2''])] ''a'' [''rev:v1'', ''rev:v2''] ''rev:'') \<inter>
   set (ownLegacyKeys [(''a'', [''v1'', ''v2'']), (''b'', [''v2''])] ''b'' [''rev:v1'', ''rev:v2''] ''rev:'') = {}"
    using legacy_keys_never_shared [of "[(''a'', [''v1'', ''v2'']), (''b'', [''v2''])]" "''a''" "''b''"]
    by (simp add: index_ok_def)
  show "ownLegacyKeys [(''a'', [''v1'', ''v2'']), (''b'', [''v2''])] ''a'' [''rev:v1'', ''rev:v2''] ''rev:'' = [''rev:v1'']"
    by code_simp
qed

end
