(* ===== verification/Encoding.thy ===== *)
theory Encoding
  imports Prelude
begin

text \<open>
  Byte-level encodings shared by the client crypto: big-endian integers, UTF-8
  (\<open>TextEncoder\<close>), hexadecimal, UUIDs, and base64 in both alphabets. \<open>btoa\<close> and
  \<open>atob\<close> follow the HTML standard (forgiving-base64 decode); \<open>toBase64\<close>,
  \<open>fromBase64\<close>, \<open>bytesToB64u\<close> and \<open>b64uToBytes\<close> are the source's own wrappers.
  The group of lemmas shows that every encoder has its decoder as left inverse.
\<close>

section \<open>Bytes and characters\<close>

definition byte_of_char :: "char \<Rightarrow> byte" where
  "byte_of_char c = of_nat (code c)"

definition char_of_byte :: "byte \<Rightarrow> char" where
  "char_of_byte b = chr (unat b)"

lemma unat_byte_less [simp]: "unat (b :: byte) < 256"
  using unsigned_less [of b] by simp

lemma unat_of_nat_byte [simp]: "unat (of_nat n :: byte) = n mod 256"
  by (simp add: unat_of_nat)

lemma of_nat_byte_mod: "(of_nat (n mod 256) :: byte) = of_nat n"
  by (rule word_unat_eq_iff [THEN iffD2]) simp

lemma unat_byte_of_char [simp]: "unat (byte_of_char c) = code c"
  by (simp add: byte_of_char_def)

lemma code_char_of_byte [simp]: "code (char_of_byte b) = unat b"
  by (simp add: char_of_byte_def)

lemma byte_of_char_of_byte [simp]: "byte_of_char (char_of_byte b) = b"
  by (simp add: byte_of_char_def)

lemma char_of_byte_of_char [simp]: "char_of_byte (byte_of_char c) = c"
  by (simp add: char_of_byte_def)

section \<open>Big-endian integers\<close>

fun be_bytes :: "nat \<Rightarrow> nat \<Rightarrow> bytes" where
  "be_bytes 0 v = []"
| "be_bytes (Suc n) v = be_bytes n (v div 256) @ [of_nat v]"

definition be_val :: "bytes \<Rightarrow> nat" where
  "be_val bs = foldl (\<lambda>acc b. acc * 256 + unat b) 0 bs"

lemma length_be_bytes [simp]: "length (be_bytes n v) = n"
  by (induction n arbitrary: v) auto

lemma be_val_Nil [simp]: "be_val [] = 0"
  by (simp add: be_val_def)

lemma be_val_snoc [simp]: "be_val (bs @ [b]) = be_val bs * 256 + unat b"
  by (simp add: be_val_def)

lemma be_val_bytes [codec_simps]: "be_val (be_bytes n v) = v mod 256 ^ n"
proof (induction n arbitrary: v)
  case (Suc n)
  have "v mod (256 * 256 ^ n) = 256 * (v div 256 mod 256 ^ n) + v mod 256"
    by (simp add: mod_mult2_eq)
  with Suc show ?case by simp
qed simp

lemma be_val_less: "be_val bs < 256 ^ length bs"
proof (induction bs rule: rev_induct)
  case (snoc b bs)
  have "be_val bs * 256 + unat b < (be_val bs + 1) * 256" using unat_byte_less [of b] by simp
  also have "\<dots> \<le> 256 ^ length bs * 256" using snoc by (intro mult_right_mono) auto
  finally show ?case by simp
qed simp

lemma be_bytes_val [codec_simps]: "be_bytes (length bs) (be_val bs) = bs"
proof (induction bs rule: rev_induct)
  case (snoc b bs)
  have "(of_nat (be_val bs * 256 + unat b) :: byte) = b"
    by (subst of_nat_byte_mod [symmetric]) simp
  moreover have "(be_val bs * 256 + unat b) div 256 = be_val bs"
    using unat_byte_less [of b] by simp
  ultimately show ?case using snoc by simp
qed simp

lemma be_bytes_inj [codec_inj]:
  "v < 256 ^ n \<Longrightarrow> w < 256 ^ n \<Longrightarrow> be_bytes n v = be_bytes n w \<longleftrightarrow> v = w"
  by (metis be_val_bytes mod_less)

section \<open>UTF-8\<close>

definition utf8_char :: "char \<Rightarrow> bytes" where
  "utf8_char c =
     (let n = code c in
      if n < 128 then [of_nat n] else [of_nat (192 + n div 64), of_nat (128 + n mod 64)])"

definition utf8_encode :: "string \<Rightarrow> bytes" where
  "utf8_encode s = concat (map utf8_char s)"

text \<open>\<open>None\<close>: the bytes are not the UTF-8 form of a text in the modelled range.\<close>

fun utf8_decode :: "bytes \<Rightarrow> string option" where
  "utf8_decode [] = Some []"
| "utf8_decode (b # bs) =
     (if unat b < 128 then map_option (\<lambda>s. chr (unat b) # s) (utf8_decode bs)
      else case bs of
        [] \<Rightarrow> None
      | d # ds \<Rightarrow>
          if unat b \<in> {194, 195} \<and> 128 \<le> unat d \<and> unat d < 192
          then map_option (\<lambda>s. chr ((unat b - 192) * 64 + (unat d - 128)) # s) (utf8_decode ds)
          else None)"

lemma utf8_encode_simps [codec_simps]:
  "utf8_encode [] = []"
  "utf8_encode (c # s) = utf8_char c @ utf8_encode s"
  "utf8_encode (s @ t) = utf8_encode s @ utf8_encode t"
  by (simp_all add: utf8_encode_def)

lemma utf8_decode_char: "utf8_decode (utf8_char c @ bs) = map_option (\<lambda>s. c # s) (utf8_decode bs)"
proof (cases "code c < 128")
  case True
  then show ?thesis by (simp add: utf8_char_def Let_def)
next
  case False
  have lt: "code c < 256" by (rule code_less)
  have d: "code c div 64 = 2 \<or> code c div 64 = 3" using False lt by linarith
  define x y :: byte where "x = of_nat (192 + code c div 64)" and "y = of_nat (128 + code c mod 64)"
  have x: "unat x = 192 + code c div 64" and y: "unat y = 128 + code c mod 64"
    unfolding x_def y_def unat_of_nat_byte using d by auto
  have c: "utf8_char c = [x, y]"
    using False by (simp add: utf8_char_def Let_def x_def y_def)
  have "code c div 64 * 64 + code c mod 64 = code c" by simp
  then have e: "chr ((unat x - 192) * 64 + (unat y - 128)) = c"
    unfolding x y by (simp only: add_diff_cancel_left' chr_code)
  have "unat x \<in> {194, 195}" "\<not> unat x < 128" "128 \<le> unat y" "unat y < 192"
    using d by (auto simp: x y)
  with e show ?thesis by (simp add: c)
qed

lemma utf8_decode_encode [codec_simps]: "utf8_decode (utf8_encode s) = Some s"
  by (induction s) (simp_all add: utf8_encode_simps utf8_decode_char del: utf8_decode.simps(2))

lemma utf8_encode_inj [codec_inj]: "utf8_encode s = utf8_encode t \<longleftrightarrow> s = t"
  by (metis option.inject utf8_decode_encode)

definition is_ascii :: "string \<Rightarrow> bool" where
  "is_ascii s = list_all (\<lambda>c. code c < 128) s"

lemma utf8_encode_ascii: "is_ascii s \<Longrightarrow> utf8_encode s = map byte_of_char s"
  by (induction s) (auto simp: is_ascii_def utf8_encode_simps utf8_char_def byte_of_char_def)

section \<open>Hexadecimal and UUIDs\<close>

definition hex_digit :: "nat \<Rightarrow> char" where
  "hex_digit n = chr (if n < 10 then 48 + n else 87 + n)"

definition hex_val :: "char \<Rightarrow> nat option" where
  "hex_val c =
     (let n = code c in
      if 48 \<le> n \<and> n \<le> 57 then Some (n - 48)
      else if 97 \<le> n \<and> n \<le> 102 then Some (n - 87)
      else if 65 \<le> n \<and> n \<le> 70 then Some (n - 55)
      else None)"

text \<open>\<open>b.toString(16).padStart(2, "0")\<close>.\<close>

definition byte_hex :: "byte \<Rightarrow> string" where
  "byte_hex b = [hex_digit (unat b div 16), hex_digit (unat b mod 16)]"

definition bytesToHex :: "bytes \<Rightarrow> string" where
  "bytesToHex bs = concat (map byte_hex bs)"

text \<open>\<open>parseInt\<close> of consecutive two-digit groups; \<open>None\<close> when a group is not two hex digits.\<close>

fun hex_pairs :: "string \<Rightarrow> bytes option" where
  "hex_pairs [] = Some []"
| "hex_pairs [c] = None"
| "hex_pairs (c # d # s) =
     (case (hex_val c, hex_val d) of
        (Some x, Some y) \<Rightarrow> map_option (\<lambda>bs. of_nat (x * 16 + y) # bs) (hex_pairs s)
      | _ \<Rightarrow> None)"

lemma hex_val_less: "hex_val c = Some x \<Longrightarrow> x < 16"
  by (auto simp: hex_val_def Let_def split: if_splits)

lemma hex_val_digit [simp]: "n < 16 \<Longrightarrow> hex_val (hex_digit n) = Some n"
  by (auto simp: hex_val_def hex_digit_def Let_def)

lemma bytesToHex_simps [codec_simps]:
  "bytesToHex [] = []" "bytesToHex (b # bs) = byte_hex b @ bytesToHex bs"
  by (simp_all add: bytesToHex_def)

lemma hex_pairs_bytesToHex [codec_simps]: "hex_pairs (bytesToHex bs) = Some bs"
proof (induction bs)
  case (Cons b bs)
  have "unat b div 16 < 16" using unat_byte_less [of b] by linarith
  moreover have "unat b div 16 * 16 + unat b mod 16 = unat b" by simp
  ultimately show ?case using Cons by (simp add: bytesToHex_simps byte_hex_def)
qed (simp add: bytesToHex_simps)

lemma length_bytesToHex [simp]: "length (bytesToHex bs) = 2 * length bs"
  by (induction bs) (simp_all add: bytesToHex_simps byte_hex_def)

lemma bytesToHex_inj [codec_inj]: "bytesToHex a = bytesToHex b \<longleftrightarrow> a = b"
  by (metis hex_pairs_bytesToHex option.inject)

text \<open>
  \<open>uuidBytes\<close>: dashes are dropped and the rest must be 32 hexadecimal digits of either case.
\<close>

definition uuidBytes :: "string \<Rightarrow> bytes option" where
  "uuidBytes uuid =
     (let hex = filter (\<lambda>c. c \<noteq> CHR ''-'') uuid in
      if length hex = 32 \<and> list_all (\<lambda>c. hex_val c \<noteq> None) hex then hex_pairs hex else None)"

lemma hex_pairs_length: "hex_pairs s = Some bs \<Longrightarrow> length s = 2 * length bs"
  by (induction s arbitrary: bs rule: hex_pairs.induct) (auto split: option.splits)

lemma uuidBytes_length: "uuidBytes u = Some bs \<Longrightarrow> length bs = 16"
  by (auto simp: uuidBytes_def Let_def dest: hex_pairs_length split: if_splits)

section \<open>Base64\<close>

definition b64_char :: "nat \<Rightarrow> char" where
  "b64_char n =
     (if n < 26 then chr (65 + n) else if n < 52 then chr (71 + n)
      else if n < 62 then chr (n - 4) else if n = 62 then CHR ''+'' else CHR ''/'')"

definition b64_val :: "char \<Rightarrow> nat option" where
  "b64_val c =
     (let n = code c in
      if 65 \<le> n \<and> n \<le> 90 then Some (n - 65)
      else if 97 \<le> n \<and> n \<le> 122 then Some (n - 71)
      else if 48 \<le> n \<and> n \<le> 57 then Some (n + 4)
      else if c = CHR ''+'' then Some 62
      else if c = CHR ''/'' then Some 63
      else None)"

fun b64_sextets :: "nat list \<Rightarrow> nat list" where
  "b64_sextets [] = []"
| "b64_sextets [a] = [a div 4, a mod 4 * 16]"
| "b64_sextets [a, b] = [a div 4, a mod 4 * 16 + b div 16, b mod 16 * 4]"
| "b64_sextets (a # b # c # r) =
     a div 4 # (a mod 4 * 16 + b div 16) # (b mod 16 * 4 + c div 64) # c mod 64 # b64_sextets r"

fun b64_octets :: "nat list \<Rightarrow> nat list" where
  "b64_octets [] = []"
| "b64_octets [a] = []"
| "b64_octets [a, b] = [a * 4 + b div 16]"
| "b64_octets [a, b, c] = [a * 4 + b div 16, b mod 16 * 16 + c div 4]"
| "b64_octets (a # b # c # d # r) =
     (a * 4 + b div 16) # (b mod 16 * 16 + c div 4) # (c mod 4 * 64 + d) # b64_octets r"

definition b64_pad :: "nat \<Rightarrow> string" where
  "b64_pad n = replicate ((3 - n mod 3) mod 3) (CHR ''='')"

text \<open>Every character of a modelled string is below 256, so \<open>btoa\<close> never throws here.\<close>

definition btoa :: "string \<Rightarrow> string" where
  "btoa s = map b64_char (b64_sextets (map of_char s)) @ b64_pad (length s)"

definition ascii_space :: "char \<Rightarrow> bool" where
  "ascii_space c = (code c \<in> {9, 10, 12, 13, 32})"

definition strip_eq_end :: "string \<Rightarrow> string" where
  "strip_eq_end r =
     (case r of
        a # b # t \<Rightarrow> if a = CHR ''='' then (if b = CHR ''='' then t else b # t) else r
      | [a] \<Rightarrow> if a = CHR ''='' then [] else r
      | [] \<Rightarrow> [])"

text \<open>\<open>None\<close> is the \<open>InvalidCharacterError\<close> the browser throws.\<close>

definition atob :: "string \<Rightarrow> string option" where
  "atob s =
     (let t = filter (\<lambda>c. \<not> ascii_space c) s;
          u = (if length t mod 4 = 0 then rev (strip_eq_end (rev t)) else t)
      in if length u mod 4 = 1 \<or> \<not> list_all (\<lambda>c. b64_val c \<noteq> None) u then None
         else Some (map chr (b64_octets (map (\<lambda>c. the (b64_val c)) u))))"

definition toBase64 :: "bytes \<Rightarrow> string" where
  "toBase64 bs = btoa (map char_of_byte bs)"

definition fromBase64 :: "string \<Rightarrow> bytes option" where
  "fromBase64 b64 = map_option (map byte_of_char) (atob b64)"

lemma b64_val_char [simp]: "n < 64 \<Longrightarrow> b64_val (b64_char n) = Some n"
  by (auto simp: b64_val_def b64_char_def Let_def)

lemma b64_sextets_less: "list_all (\<lambda>a. a < 256) xs \<Longrightarrow> list_all (\<lambda>n. n < 64) (b64_sextets xs)"
  by (induction xs rule: b64_sextets.induct) auto

lemma b64_group:
  fixes a b c :: nat
  assumes "b < 256" and "c < 256"
  shows "a div 4 * 4 + (a mod 4 * 16 + b div 16) div 16 = a"
    and "(a mod 4 * 16 + b div 16) mod 16 * 16 + (b mod 16 * 4 + c div 64) div 4 = b"
    and "(b mod 16 * 4 + c div 64) mod 4 * 64 + c mod 64 = c"
proof -
  have b: "b div 16 < 16" and c: "c div 64 < 4" using assms by linarith+
  have "(a mod 4 * 16 + b div 16) div 16 = a mod 4"
    using b by simp
  then show "a div 4 * 4 + (a mod 4 * 16 + b div 16) div 16 = a" by simp
  have "(a mod 4 * 16 + b div 16) mod 16 = b div 16"
    using b by simp
  moreover have "(b mod 16 * 4 + c div 64) div 4 = b mod 16"
    using c by simp
  ultimately show "(a mod 4 * 16 + b div 16) mod 16 * 16 + (b mod 16 * 4 + c div 64) div 4 = b"
    by simp
  have "(b mod 16 * 4 + c div 64) mod 4 = c div 64"
    using c by simp
  then show "(b mod 16 * 4 + c div 64) mod 4 * 64 + c mod 64 = c" by simp
qed

lemma b64_octets_sextets [codec_simps]:
  "list_all (\<lambda>a. a < 256) xs \<Longrightarrow> b64_octets (b64_sextets xs) = xs"
proof (induction xs rule: b64_sextets.induct)
  case (2 a)
  then show ?case using b64_group(1) [where a = a and b = 0 and c = 0] by simp
next
  case (3 a b)
  then show ?case using b64_group(1,2) [where a = a and b = b and c = 0] by simp
next
  case (4 a b c r)
  then show ?case using b64_group(1,2) [where a = a and b = b and c = c] b64_group(3) [where b = b and c = c] by simp
qed simp

lemma length_b64_sextets: "length (b64_sextets xs) + (3 - length xs mod 3) mod 3 = 4 * ((length xs + 2) div 3)"
proof (induction xs rule: b64_sextets.induct)
  case (4 a b c r)
  have "length (a # b # c # r) mod 3 = length r mod 3" by simp
  moreover have "(length (a # b # c # r) + 2) div 3 = Suc ((length r + 2) div 3)" by simp
  ultimately show ?case using 4 by simp
qed auto

lemma length_b64_sextets_mod: "length (b64_sextets xs) mod 4 \<noteq> 1"
  by (induction xs rule: b64_sextets.induct) auto

lemma b64_char_props:
  "n < 64 \<Longrightarrow> \<not> ascii_space (b64_char n)"
  "n < 64 \<Longrightarrow> b64_char n \<noteq> CHR ''=''"
proof -
  assume n: "n < 64"
  then have "b64_val (b64_char n) = Some n" by simp
  moreover have "\<not> (b64_val c \<noteq> None \<and> ascii_space c)" "b64_val (CHR ''='') = None" for c
    by (auto simp: b64_val_def ascii_space_def Let_def split: if_splits)
  ultimately show "\<not> ascii_space (b64_char n)" "b64_char n \<noteq> CHR ''=''" by force+
qed

lemma strip_eq_end_rev:
  assumes "\<forall>c \<in> set u. c \<noteq> CHR ''=''" and "k < 3"
  shows "rev (strip_eq_end (rev (u @ replicate k (CHR ''='')))) = u"
proof -
  have "strip_eq_end (replicate k (CHR ''='') @ r) = r" if "\<forall>c \<in> set r. c \<noteq> CHR ''=''" for r
  proof -
    consider "k = 0" | "k = 1" | "k = 2" using assms(2) by linarith
    then show ?thesis
    proof cases
      case 1
      with that show ?thesis by (cases r) (auto simp: strip_eq_end_def split: list.split)
    next
      case 2
      with that show ?thesis by (cases r) (auto simp: strip_eq_end_def)
    next
      case 3
      with that show ?thesis by (simp add: strip_eq_end_def numeral_2_eq_2)
    qed
  qed
  from this [of "rev u"] assms(1) show ?thesis by simp
qed

text \<open>The text \<open>btoa\<close> produces from the octets \<open>xs\<close>, with any legal amount of padding left.\<close>

lemma atob_sextets:
  assumes x: "list_all (\<lambda>a. a < 256) xs"
    and pad: "pad = (3 - length xs mod 3) mod 3 \<or> pad = 0 \<and> length xs mod 3 \<noteq> 0"
  shows "atob (map b64_char (b64_sextets xs) @ replicate pad (CHR ''='')) = Some (map chr xs)"
proof -
  let ?u = "map b64_char (b64_sextets xs)"
  have less: "\<forall>n \<in> set (b64_sextets xs). n < 64"
    using b64_sextets_less [OF x] by (simp add: list_all_iff)
  have f: "filter (\<lambda>c. \<not> ascii_space c) (?u @ replicate pad (CHR ''='')) = ?u @ replicate pad (CHR ''='')"
    using less by (auto simp: filter_id_conv b64_char_props) (simp add: ascii_space_def)
  have ne: "\<forall>c \<in> set ?u. c \<noteq> CHR ''=''" using less by (auto simp: b64_char_props)
  have len: "length (b64_sextets xs) + (3 - length xs mod 3) mod 3 = 4 * ((length xs + 2) div 3)"
    by (rule length_b64_sextets)
  have u: "(if length (?u @ replicate pad (CHR ''='')) mod 4 = 0
        then rev (strip_eq_end (rev (?u @ replicate pad (CHR ''='')))) else ?u @ replicate pad (CHR ''='')) = ?u"
  proof (cases "pad = (3 - length xs mod 3) mod 3")
    case True
    then show ?thesis using strip_eq_end_rev [OF ne, of pad] by (simp add: len)
  next
    case False
    then show ?thesis
      using pad strip_eq_end_rev [OF ne, of 0] by simp
  qed
  have m: "map (\<lambda>c. the (b64_val c)) ?u = b64_sextets xs"
    using less by (simp add: map_idI)
  have "list_all (\<lambda>c. b64_val c \<noteq> None) ?u" using less by (simp add: list_all_iff)
  then show ?thesis
    unfolding atob_def Let_def f u m
    using b64_octets_sextets [OF x] length_b64_sextets_mod [of xs] by simp
qed

lemma atob_btoa [codec_simps]: "atob (btoa s) = Some s"
proof -
  have "list_all (\<lambda>a. a < 256) (map code s)" by (simp add: list_all_iff)
  from atob_sextets [OF this, of "(3 - length s mod 3) mod 3"] show ?thesis
    by (simp add: btoa_def b64_pad_def comp_def)
qed

lemma fromBase64_toBase64 [codec_simps, simp]: "fromBase64 (toBase64 bs) = Some bs"
  by (simp add: fromBase64_def toBase64_def atob_btoa comp_def)

lemma toBase64_inj [codec_inj, simp]: "toBase64 a = toBase64 b \<longleftrightarrow> a = b"
  by (metis fromBase64_toBase64 option.inject)

section \<open>URL-safe base64\<close>

definition b64_to_url_char :: "char \<Rightarrow> char" where
  "b64_to_url_char c = (if c = CHR ''+'' then CHR ''-'' else if c = CHR ''/'' then CHR ''_'' else c)"

definition b64_from_url_char :: "char \<Rightarrow> char" where
  "b64_from_url_char c = (if c = CHR ''-'' then CHR ''+'' else if c = CHR ''_'' then CHR ''/'' else c)"

text \<open>\<open>btoa(s).replace(/\+/g, "-").replace(/\//g, "_").replace(/=+$/, "")\<close>.\<close>

definition bytesToB64u :: "bytes \<Rightarrow> string" where
  "bytesToB64u bs =
     rev (dropWhile (\<lambda>c. c = CHR ''='') (rev (map b64_to_url_char (btoa (map char_of_byte bs)))))"

text \<open>The padding \<open>(4 - length % 4) % 4\<close> is put back before \<open>atob\<close>.\<close>

definition b64uToBytes :: "string \<Rightarrow> bytes option" where
  "b64uToBytes b64u =
     (let b64 = map b64_from_url_char b64u;
          padded = b64 @ replicate ((4 - length b64 mod 4) mod 4) (CHR ''='')
      in map_option (map byte_of_char) (atob padded))"

lemma dropWhile_replicate_append:
  "P c \<Longrightarrow> dropWhile P (replicate k c @ xs) = dropWhile P xs"
  by (induction k) auto

lemma dropWhile_none: "\<forall>c \<in> set xs. \<not> P c \<Longrightarrow> dropWhile P xs = xs"
  by (cases xs) auto

lemma bytesToB64u_sextets:
  "bytesToB64u bs = map b64_to_url_char (map b64_char (b64_sextets (map unat bs)))"
proof -
  let ?v = "map b64_to_url_char (map b64_char (b64_sextets (map unat bs)))"
  have "list_all (\<lambda>n. n < 64) (b64_sextets (map unat bs))"
    by (rule b64_sextets_less) (simp add: list_all_iff)
  then have "\<forall>c \<in> set ?v. c \<noteq> CHR ''=''"
    by (fastforce simp: list_all_iff b64_to_url_char_def dest: b64_char_props(2))
  then have d: "dropWhile (\<lambda>c. c = CHR ''='') (rev ?v) = rev ?v"
    by (intro dropWhile_none) simp
  have b: "map b64_to_url_char (btoa (map char_of_byte bs)) =
      ?v @ replicate ((3 - length bs mod 3) mod 3) (CHR ''='')"
    by (simp add: btoa_def b64_pad_def comp_def b64_to_url_char_def)
  show ?thesis
    unfolding bytesToB64u_def b
    by (simp only: rev_append rev_replicate dropWhile_replicate_append d rev_rev_ident)
qed

lemma b64_pad_arith:
  fixes n k :: nat
  assumes "(n + k) mod 4 = 0" and "k < 3"
  shows "(4 - n mod 4) mod 4 = k"
proof -
  consider "k = 0" | "k = 1" | "k = 2" using assms(2) by linarith
  then show ?thesis
  proof cases
    case 1
    with assms(1) show ?thesis by simp
  next
    case 2
    with assms(1) have "n mod 4 = 3" by presburger
    with 2 show ?thesis by simp
  next
    case 3
    with assms(1) have "n mod 4 = 2" by presburger
    with 3 show ?thesis by simp
  qed
qed

lemma b64uToBytes_bytesToB64u [codec_simps]: "b64uToBytes (bytesToB64u bs) = Some bs"
proof -
  let ?xs = "map unat bs"
  let ?n = "length (b64_sextets ?xs)"
  have x: "list_all (\<lambda>a. a < 256) ?xs" by (simp add: list_all_iff)
  have "b64_from_url_char (b64_to_url_char c) = c" if "c \<noteq> CHR ''-''" "c \<noteq> CHR ''_''" for c
    using that by (simp add: b64_to_url_char_def b64_from_url_char_def)
  moreover have "b64_char n \<noteq> CHR ''-'' \<and> b64_char n \<noteq> CHR ''_''" if "n < 64" for n
  proof -
    have "b64_val (CHR ''-'') = None" "b64_val (CHR ''_'') = None"
      by (simp_all add: b64_val_def)
    with b64_val_char [OF that] show ?thesis by force
  qed
  ultimately have "\<forall>n \<in> set (b64_sextets ?xs). b64_from_url_char (b64_to_url_char (b64_char n)) = b64_char n"
    using b64_sextets_less [OF x] by (simp add: list_all_iff)
  then have u: "map b64_from_url_char (bytesToB64u bs) = map b64_char (b64_sextets ?xs)"
    by (simp add: bytesToB64u_sextets)
  have "(?n + (3 - length ?xs mod 3) mod 3) mod 4 = 0"
    unfolding length_b64_sextets by simp
  moreover have "(3 - length ?xs mod 3) mod 3 < 3" by simp
  ultimately have p: "(4 - ?n mod 4) mod 4 = (3 - length ?xs mod 3) mod 3"
    by (rule b64_pad_arith)
  have "atob (map b64_char (b64_sextets ?xs) @ replicate ((3 - length ?xs mod 3) mod 3) (CHR ''='')) =
      Some (map chr ?xs)"
    by (rule atob_sextets [OF x]) simp
  then show ?thesis
    unfolding b64uToBytes_def Let_def u length_map p by (simp add: byte_of_char_def comp_def)
qed

lemma bytesToB64u_inj [codec_inj]: "bytesToB64u a = bytesToB64u b \<longleftrightarrow> a = b"
  by (metis b64uToBytes_bytesToB64u option.inject)

end
