(* ===== verification/Json.thy ===== *)
theory Json
  imports Encoding
begin

text \<open>
  The JSON values the clients build with \<open>JSON.stringify\<close> and read with
  \<open>JSON.parse\<close>: the printer with ECMAScript's string escapes, a recursive-descent parser,
  and the theorem that parsing what was printed gives the value back. Numbers are integers
  (no field of the vault types is fractional); a number literal with a fraction or an exponent,
  and an escape that denotes a code point above 255, lie outside the model and parse to
  \<open>None\<close> like a syntax error. An object is the list of its members as written; of two members
  with one name the later one counts, as in JavaScript.

  The parser carries fuel to be structurally recursive. \<open>json_parse\<close> starts it with one unit
  more than the text is long: every nested value consumes at least one character, so the fuel
  never runs out before the text does.
\<close>

datatype json =
    JNull
  | JBool bool
  | JNum int
  | JStr string
  | JArr "json list"
  | JObj "(string \<times> json) list"

section \<open>Printing\<close>

definition QUOTE :: char where "QUOTE = CHR 0x22"
definition BACKSLASH :: char where "BACKSLASH = CHR 0x5C"

definition json_esc :: "char \<Rightarrow> string" where
  "json_esc c =
     (if c = QUOTE then [BACKSLASH, QUOTE]
      else if c = BACKSLASH then [BACKSLASH, BACKSLASH]
      else if code c = 8 then [BACKSLASH, CHR ''b'']
      else if code c = 9 then [BACKSLASH, CHR ''t'']
      else if code c = 10 then [BACKSLASH, CHR ''n'']
      else if code c = 12 then [BACKSLASH, CHR ''f'']
      else if code c = 13 then [BACKSLASH, CHR ''r'']
      else if code c < 32 then [BACKSLASH, CHR ''u'', CHR ''0'', CHR ''0''] @ byte_hex (byte_of_char c)
      else [c])"

definition json_print_string :: "string \<Rightarrow> string" where
  "json_print_string s = QUOTE # concat (map json_esc s) @ [QUOTE]"

fun json_print :: "json \<Rightarrow> string"
  and json_print_elems :: "json list \<Rightarrow> string"
  and json_print_members :: "(string \<times> json) list \<Rightarrow> string"
where
  "json_print JNull = ''null''"
| "json_print (JBool b) = (if b then ''true'' else ''false'')"
| "json_print (JNum i) = int_to_string i"
| "json_print (JStr s) = json_print_string s"
| "json_print (JArr xs) = CHR ''['' # json_print_elems xs @ '']''"
| "json_print (JObj ms) = CHR ''{'' # json_print_members ms @ ''}''"
| "json_print_elems [] = []"
| "json_print_elems (x # xs) =
     json_print x @ (if xs = [] then [] else CHR '','' # json_print_elems xs)"
| "json_print_members [] = []"
| "json_print_members (m # ms) =
     json_print_string (fst m) @ CHR '':'' # json_print (snd m) @
       (if ms = [] then [] else CHR '','' # json_print_members ms)"

section \<open>Parsing\<close>

definition json_ws :: "char \<Rightarrow> bool" where
  "json_ws c = (code c \<in> {9, 10, 13, 32})"

definition skip_ws :: "string \<Rightarrow> string" where
  "skip_ws s = dropWhile json_ws s"

definition json_simple_esc :: "char \<Rightarrow> char option" where
  "json_simple_esc e =
     (if e \<in> {QUOTE, BACKSLASH, CHR ''/''} then Some e
      else if e = CHR ''b'' then Some (chr 8)
      else if e = CHR ''t'' then Some (chr 9)
      else if e = CHR ''n'' then Some (chr 10)
      else if e = CHR ''f'' then Some (chr 12)
      else if e = CHR ''r'' then Some (chr 13)
      else None)"

text \<open>The characters after the opening quote, up to and including the closing one.\<close>

fun json_string_body :: "string \<Rightarrow> (string \<times> string) option" where
  "json_string_body [] = None"
| "json_string_body (c # s) =
     (if c = QUOTE then Some ([], s)
      else if c = BACKSLASH then
        (case s of
           [] \<Rightarrow> None
         | e # t \<Rightarrow>
             if e = CHR ''u'' then
               (case t of
                  h1 # h2 # h3 # h4 # r \<Rightarrow>
                    (case (hex_val h1, hex_val h2, hex_val h3, hex_val h4) of
                       (Some 0, Some 0, Some x, Some y) \<Rightarrow>
                         map_option (\<lambda>(u, v). (chr (x * 16 + y) # u, v)) (json_string_body r)
                     | _ \<Rightarrow> None)
                | _ \<Rightarrow> None)
             else (case json_simple_esc e of
                     None \<Rightarrow> None
                   | Some d \<Rightarrow> map_option (\<lambda>(u, v). (d # u, v)) (json_string_body t)))
      else if code c < 32 then None
      else map_option (\<lambda>(u, v). (c # u, v)) (json_string_body s))"

definition digits_val :: "string \<Rightarrow> nat" where
  "digits_val ds = foldl (\<lambda>a c. a * 10 + (code c - 48)) 0 ds"

text \<open>JSON integers have no leading zeros; a following fraction or exponent is refused.\<close>

definition json_nat :: "string \<Rightarrow> (nat \<times> string) option" where
  "json_nat s =
     (let ds = takeWhile is_digit_char s; r = dropWhile is_digit_char s in
      if ds = [] \<or> length ds > 1 \<and> hd ds = CHR ''0''
         \<or> r \<noteq> [] \<and> hd r \<in> {CHR ''.'', CHR ''e'', CHR ''E''}
      then None else Some (digits_val ds, r))"

definition json_number :: "string \<Rightarrow> (int \<times> string) option" where
  "json_number s =
     (case s of
        c # t \<Rightarrow> if c = CHR ''-'' then map_option (\<lambda>(n, r). (- int n, r)) (json_nat t)
                else map_option (\<lambda>(n, r). (int n, r)) (json_nat s)
      | [] \<Rightarrow> None)"

definition json_lit :: "string \<Rightarrow> json \<Rightarrow> string \<Rightarrow> (json \<times> string) option" where
  "json_lit w j s = (if prefix w s then Some (j, drop (length w) s) else None)"

fun json_value :: "nat \<Rightarrow> string \<Rightarrow> (json \<times> string) option"
  and json_elems :: "nat \<Rightarrow> string \<Rightarrow> (json list \<times> string) option"
  and json_members :: "nat \<Rightarrow> string \<Rightarrow> ((string \<times> json) list \<times> string) option"
where
  "json_value 0 s = None"
| "json_value (Suc n) s =
     (case skip_ws s of
        [] \<Rightarrow> None
      | c # t \<Rightarrow>
          if c = QUOTE then map_option (\<lambda>(u, r). (JStr u, r)) (json_string_body t)
          else if c = CHR ''['' then
            (case skip_ws t of
               d # r \<Rightarrow> if d = CHR '']'' then Some (JArr [], r)
                       else map_option (\<lambda>(xs, q). (JArr xs, q)) (json_elems n t)
             | [] \<Rightarrow> None)
          else if c = CHR ''{'' then
            (case skip_ws t of
               d # r \<Rightarrow> if d = CHR ''}'' then Some (JObj [], r)
                       else map_option (\<lambda>(ms, q). (JObj ms, q)) (json_members n t)
             | [] \<Rightarrow> None)
          else if c = CHR ''n'' then json_lit ''null'' JNull (c # t)
          else if c = CHR ''t'' then json_lit ''true'' (JBool True) (c # t)
          else if c = CHR ''f'' then json_lit ''false'' (JBool False) (c # t)
          else map_option (\<lambda>(i, r). (JNum i, r)) (json_number (c # t)))"
| "json_elems 0 s = None"
| "json_elems (Suc n) s =
     (case json_value n s of
        None \<Rightarrow> None
      | Some (x, r) \<Rightarrow>
          (case skip_ws r of
             c # q \<Rightarrow> if c = CHR '','' then map_option (\<lambda>(xs, z). (x # xs, z)) (json_elems n q)
                     else if c = CHR '']'' then Some ([x], q) else None
           | [] \<Rightarrow> None))"
| "json_members 0 s = None"
| "json_members (Suc n) s =
     (case skip_ws s of
        c # t \<Rightarrow>
          if c \<noteq> QUOTE then None
          else (case json_string_body t of
                  None \<Rightarrow> None
                | Some (k, r) \<Rightarrow>
                    (case skip_ws r of
                       d # q \<Rightarrow>
                         if d \<noteq> CHR '':'' then None
                         else (case json_value n q of
                                 None \<Rightarrow> None
                               | Some (v, p) \<Rightarrow>
                                   (case skip_ws p of
                                      e # z \<Rightarrow>
                                        if e = CHR '','' then
                                          map_option (\<lambda>(ms, y). ((k, v) # ms, y)) (json_members n z)
                                        else if e = CHR ''}'' then Some ([(k, v)], z) else None
                                    | [] \<Rightarrow> None))
                     | [] \<Rightarrow> None))
      | [] \<Rightarrow> None)"

definition json_parse :: "string \<Rightarrow> json option" where
  "json_parse s =
     (case json_value (length s + 1) s of
        Some (j, r) \<Rightarrow> if skip_ws r = [] then Some j else None
      | None \<Rightarrow> None)"

text \<open>Property access on a parsed value; the later of two equal names counts.\<close>

definition json_get :: "json \<Rightarrow> string \<Rightarrow> json option" where
  "json_get j k = (case j of JObj ms \<Rightarrow> map_of (rev ms) k | _ \<Rightarrow> None)"

section \<open>Parsing what was printed\<close>

lemma json_chars_distinct [simp]:
  "QUOTE \<noteq> BACKSLASH" "BACKSLASH \<noteq> QUOTE" "CHR ''u'' \<noteq> QUOTE"
  "code QUOTE = 34" "code BACKSLASH = 92"
  by (simp_all add: QUOTE_def BACKSLASH_def)

lemma json_string_body_esc:
  "json_string_body (json_esc c @ t) = map_option (\<lambda>(u, v). (c # u, v)) (json_string_body t)"
proof -
  consider "c = QUOTE \<or> c = BACKSLASH" | "code c \<in> {8, 9, 10, 12, 13}"
    | "code c < 32" "code c \<notin> {8, 9, 10, 12, 13}"
    | "\<not> code c < 32" "c \<noteq> QUOTE" "c \<noteq> BACKSLASH" by fastforce
  then show ?thesis
  proof cases
    case 1
    then show ?thesis by (auto simp: json_esc_def json_simple_esc_def QUOTE_def BACKSLASH_def)
  next
    case 2
    then have "c \<in> {chr 8, chr 9, chr 10, chr 12, chr 13}"
      by (metis chr_code insertE insertI1 insertI2 singletonD)
    then show ?thesis by (auto simp: json_esc_def json_simple_esc_def QUOTE_def BACKSLASH_def)
  next
    case 3
    have ne: "c \<noteq> QUOTE" "c \<noteq> BACKSLASH" using 3(1) by auto
    have esc: "json_esc c = [BACKSLASH, CHR ''u'', CHR ''0'', CHR ''0'',
        hex_digit (code c div 16), hex_digit (code c mod 16)]"
      using 3 ne by (simp add: json_esc_def byte_hex_def)
    have "hex_val (CHR ''0'') = Some 0" by (simp add: hex_val_def)
    moreover have "hex_val (hex_digit (code c div 16)) = Some (code c div 16)"
      "hex_val (hex_digit (code c mod 16)) = Some (code c mod 16)"
      using 3(1) by auto
    moreover have "chr (code c div 16 * 16 + code c mod 16) = c" by simp
    ultimately show ?thesis unfolding esc by simp
  next
    case 4
    then show ?thesis by (simp add: json_esc_def)
  qed
qed

lemma json_string_body_print:
  "json_string_body (concat (map json_esc s) @ QUOTE # r) = Some (s, r)"
  by (induction s) (simp_all add: json_string_body_esc del: json_string_body.simps(2), simp)

lemma digit_char_val: "d < 10 \<Longrightarrow> code (digit_char d) - 48 = d"
  by (simp add: digit_char_def)

lemma digits_val_snoc: "digits_val (ds @ [c]) = digits_val ds * 10 + (code c - 48)"
  by (simp add: digits_val_def)

lemma digits_val_nat_to_string: "digits_val (nat_to_string n) = n"
proof (induction n rule: nat_to_string.induct)
  case (1 n)
  show ?case
  proof (cases "n < 10")
    case True
    then show ?thesis by (simp add: nat_to_string_small digits_val_def digit_char_val)
  next
    case False
    then show ?thesis using 1 by (simp add: nat_to_string_step digits_val_snoc digit_char_val)
  qed
qed

lemma nat_to_string_no_leading_zero:
  "0 < n \<Longrightarrow> hd (nat_to_string n) \<noteq> CHR ''0''"
proof (induction n rule: nat_to_string.induct)
  case (1 n)
  show ?case
  proof (cases "n < 10")
    case True
    then have "code (digit_char n) \<noteq> code (CHR ''0'')"
      using 1 by (simp add: digit_char_def)
    then show ?thesis using True by (auto simp: nat_to_string_small)
  next
    case False
    then show ?thesis using 1 by (simp add: nat_to_string_step)
  qed
qed

definition json_follow :: "string \<Rightarrow> bool" where
  "json_follow r = (r = [] \<or> hd r \<in> {CHR '','', CHR '']'', CHR ''}''})"

lemma json_nat_print:
  assumes "json_follow r"
  shows "json_nat (nat_to_string n @ r) = Some (n, r)"
proof -
  have r: "takeWhile is_digit_char r = []" "dropWhile is_digit_char r = r"
    using assms by (cases r; auto simp: json_follow_def is_digit_char_def)+
  have d: "takeWhile is_digit_char (nat_to_string n @ r) = nat_to_string n"
    "dropWhile is_digit_char (nat_to_string n @ r) = r"
    using nat_to_string_digits [of n] r by (simp_all add: takeWhile_append2 dropWhile_append2)
  have z: "\<not> (length (nat_to_string n) > 1 \<and> hd (nat_to_string n) = CHR ''0'')"
    using nat_to_string_no_leading_zero [of n] by (cases "n = 0") (auto simp: nat_to_string_small)
  show ?thesis
    using assms z by (auto simp: json_nat_def Let_def d digits_val_nat_to_string json_follow_def)
qed

lemma hd_nat_to_string_digit: "is_digit_char (hd (nat_to_string n))"
  using nat_to_string_digits [of n] by simp

lemma json_number_print:
  assumes "json_follow r"
  shows "json_number (int_to_string i @ r) = Some (i, r)"
proof (cases "i < 0")
  case True
  then show ?thesis by (simp add: json_number_def int_to_string_def json_nat_print [OF assms])
next
  case False
  obtain c t where ct: "nat_to_string (nat i) = c # t" by (cases "nat_to_string (nat i)") auto
  then have "is_digit_char c" using hd_nat_to_string_digit [of "nat i"] by simp
  then have "c \<noteq> CHR ''-''" by (auto simp: is_digit_char_def)
  with False ct json_nat_print [OF assms, of "nat i"] show ?thesis
    by (simp add: json_number_def int_to_string_def)
qed

text \<open>The fuel a printed value needs, and that its length covers it.\<close>

fun jneed :: "json \<Rightarrow> nat"
  and jneed_elems :: "json list \<Rightarrow> nat"
  and jneed_members :: "(string \<times> json) list \<Rightarrow> nat"
where
  "jneed JNull = 1" | "jneed (JBool b) = 1" | "jneed (JNum i) = 1" | "jneed (JStr s) = 1"
| "jneed (JArr xs) = Suc (jneed_elems xs)"
| "jneed (JObj ms) = Suc (jneed_members ms)"
| "jneed_elems [] = 0"
| "jneed_elems (x # xs) = Suc (max (jneed x) (jneed_elems xs))"
| "jneed_members [] = 0"
| "jneed_members (m # ms) = Suc (max (jneed (snd m)) (jneed_members ms))"

lemma int_to_string_length: "0 < length (int_to_string i)"
  by (simp add: int_to_string_def)

lemma jneed_length:
  "jneed j \<le> length (json_print j)"
  "jneed_elems xs \<le> length (json_print_elems xs) + 1"
  "jneed_members ms \<le> length (json_print_members ms) + 1"
  by (induction j and xs and ms rule: json_print_json_print_elems_json_print_members.induct)
     (use int_to_string_length in \<open>auto simp: json_print_string_def Suc_le_eq\<close>)

lemma json_print_head:
  "\<exists>c t. json_print j = c # t \<and> \<not> json_ws c \<and> c \<noteq> CHR '']'' \<and> c \<noteq> CHR ''}''"
proof (cases j)
  case (JNum i)
  obtain c t where "nat_to_string (nat i) = c # t" by (cases "nat_to_string (nat i)") auto
  moreover from this have "is_digit_char c" using hd_nat_to_string_digit [of "nat i"] by simp
  ultimately show ?thesis
    using JNum by (auto simp: int_to_string_def json_ws_def is_digit_char_def)
qed (auto simp: json_ws_def json_print_string_def QUOTE_def)

lemma skip_ws_nonws [simp]: "\<not> json_ws c \<Longrightarrow> skip_ws (c # t) = c # t"
  by (simp add: skip_ws_def)

lemma skip_ws_print: "skip_ws (json_print j @ r) = json_print j @ r"
  using json_print_head [of j] by auto

lemma json_ws_punct [simp]:
  "\<not> json_ws (CHR '','')" "\<not> json_ws (CHR '']'')" "\<not> json_ws (CHR ''}'')" "\<not> json_ws (CHR '':'')"
  "\<not> json_ws QUOTE" "\<not> json_ws (CHR ''['')" "\<not> json_ws (CHR ''{'')"
  by (simp_all add: json_ws_def QUOTE_def)

lemma json_follow_punct [simp]:
  "json_follow []" "json_follow (CHR '','' # r)" "json_follow (CHR '']'' # r)" "json_follow (CHR ''}'' # r)"
  by (simp_all add: json_follow_def)

lemma json_value_num:
  assumes "json_follow r"
  shows "json_value (Suc n) (int_to_string i @ r) = Some (JNum i, r)"
proof -
  obtain c t where ct: "int_to_string i @ r = c # t"
    using int_to_string_length [of i] by (cases "int_to_string i") auto
  obtain d where d: "hd (int_to_string i) = d" by simp
  then have "c = d" using ct int_to_string_length [of i] by (cases "int_to_string i") auto
  moreover have "d = CHR ''-'' \<or> is_digit_char d"
    using d hd_nat_to_string_digit [of "nat i"] by (auto simp: int_to_string_def split: if_splits)
  ultimately have "\<not> json_ws c" "c \<noteq> QUOTE" "c \<notin> {CHR ''['', CHR ''{'', CHR ''n'', CHR ''t'', CHR ''f''}"
    by (auto simp: json_ws_def is_digit_char_def QUOTE_def)
  with json_number_print [OF assms, of i] show ?thesis by (simp add: ct)
qed

lemma json_value_print:
  "jneed j \<le> n \<Longrightarrow> json_follow r \<Longrightarrow> json_value n (json_print j @ r) = Some (j, r)"
  "jneed_elems xs \<le> n \<Longrightarrow> xs \<noteq> [] \<Longrightarrow> json_elems n (json_print_elems xs @ CHR '']'' # r) = Some (xs, r)"
  "jneed_members ms \<le> n \<Longrightarrow> ms \<noteq> [] \<Longrightarrow> json_members n (json_print_members ms @ CHR ''}'' # r) = Some (ms, r)"
proof (induction j and xs and ms arbitrary: n r and n r and n r
    rule: json_print_json_print_elems_json_print_members.induct)
  case (3 i)
  then show ?case by (cases n) (auto simp: json_value_num simp del: json_value.simps)
next
  case (4 s)
  then show ?case
    by (cases n) (auto simp: json_print_string_def json_string_body_print)
next
  case (5 xs)
  then obtain m where m: "n = Suc m" "jneed_elems xs \<le> m" by (cases n) auto
  show ?case
  proof (cases xs)
    case Nil
    then show ?thesis using m by (simp add: QUOTE_def)
  next
    case (Cons x ys)
    obtain c t where "json_print x = c # t" "\<not> json_ws c" "c \<noteq> CHR '']''"
      using json_print_head [of x] by auto
    then show ?thesis
      using m Cons "5.IH" [of m r] by (simp add: QUOTE_def)
  qed
next
  case (6 ms)
  then obtain m where m: "n = Suc m" "jneed_members ms \<le> m" by (cases n) auto
  show ?case
  proof (cases ms)
    case Nil
    then show ?thesis using m by (simp add: QUOTE_def)
  next
    case (Cons x ys)
    then obtain t where t: "json_print_members ms @ CHR ''}'' # r = QUOTE # t"
      by (simp add: json_print_string_def)
    have "QUOTE \<noteq> CHR ''}''" "CHR ''{'' \<noteq> QUOTE" by (simp_all add: QUOTE_def)
    with m t "6.IH" [of m r] Cons show ?thesis by auto
  qed
next
  case (8 x xs)
  then obtain m where m: "n = Suc m" "jneed x \<le> m" "jneed_elems xs \<le> m" by (cases n) auto
  show ?case
  proof (cases "xs = []")
    case True
    then show ?thesis using m "8.IH"(1) [of m "CHR '']'' # r"] by simp
  next
    case False
    then show ?thesis
      using m "8.IH"(1) [of m "CHR '','' # json_print_elems xs @ CHR '']'' # r"] "8.IH"(2) [of m r]
      by simp
  qed
next
  case (10 x ms)
  then obtain m where m: "n = Suc m" "jneed (snd x) \<le> m" "jneed_members ms \<le> m" by (cases n) auto
  show ?case
  proof (cases "ms = []")
    case True
    then show ?thesis
      using m "10.IH"(1) [of m "CHR ''}'' # r"]
      by (simp add: json_print_string_def json_string_body_print)
  next
    case False
    then show ?thesis
      using m "10.IH"(1) [of m "CHR '','' # json_print_members ms @ CHR ''}'' # r"] "10.IH"(2) [of m r]
      by (simp add: json_print_string_def json_string_body_print)
  qed
qed (auto simp: json_lit_def QUOTE_def json_ws_def Suc_le_eq elim: less_natE)

lemma json_parse_print [codec_simps]: "json_parse (json_print j) = Some j"
proof -
  have "jneed j \<le> length (json_print j) + 1" using jneed_length(1) [of j] by simp
  from json_value_print(1) [OF this, of "[]"] show ?thesis
    by (simp add: json_parse_def skip_ws_def)
qed

lemma json_print_inj [codec_inj]: "json_print a = json_print b \<longleftrightarrow> a = b"
  by (metis json_parse_print option.inject)

end
