(* ===== verification/Vault_Types.thy ===== *)
theory Vault_Types
  imports Json
begin

text \<open>
  The vault and sync data types of \<open>packages/types/src/vault.ts\<close> and
  \<open>packages/types/src/sync.ts\<close>. An optional or nullable field is an \<open>option\<close>. A
  \<open>VaultItemType\<close> is a string at run time (the label of a row comes from the server unchecked),
  so it is a string here too, with the five values of the union listed in
  \<open>vaultItemTypes\<close>. \<open>item_to_json\<close> is the value \<open>JSON.stringify\<close> is given for an item
  (absent fields are left out) and \<open>item_of_json\<close> reads one back, with the theorem that the two
  are inverse; where the source casts a parsed value without looking at it, \<open>item_of_json\<close>
  gives \<open>None\<close> for a value that does not have the shape its type promises.
\<close>

type_synonym VaultItemType = string

definition vaultItemTypes :: "VaultItemType list" where
  "vaultItemTypes = [''login'', ''note'', ''card'', ''identity'', ''ssh_key'']"

datatype FieldType = Text | Hidden | Boolean

record CustomField =
  cf_name :: string
  cf_value :: string
  cf_fieldType :: FieldType

record PasskeyCredential =
  pk_credentialIdB64u :: string
  pk_rpId :: string
  pk_userHandleB64u :: string
  pk_userName :: string
  pk_privateKeyPkcs8B64 :: string
  pk_signCount :: int
  pk_createdAt :: string

record LoginItem =
  login_name :: string
  login_tags :: "string list option"
  login_username :: string
  login_password :: string
  login_urls :: "string list"
  login_totp :: "string option"
  login_notes :: "string option"
  login_customFields :: "CustomField list"
  login_passkey :: "PasskeyCredential option"

record NoteItem =
  note_name :: string
  note_tags :: "string list option"
  note_content :: string

record CardItem =
  card_name :: string
  card_tags :: "string list option"
  card_cardholderName :: string
  card_number :: string
  card_expMonth :: string
  card_expYear :: string
  card_cvv :: string
  card_notes :: "string option"

record IdentityItem =
  ident_name :: string
  ident_tags :: "string list option"
  ident_firstName :: string
  ident_lastName :: string
  ident_email :: string
  ident_phone :: string
  ident_address :: string
  ident_city :: string
  ident_country :: string
  ident_notes :: "string option"

record SshKeyItem =
  ssh_name :: string
  ssh_tags :: "string list option"
  ssh_privateKey :: string
  ssh_publicKey :: "string option"
  ssh_passphrase :: "string option"
  ssh_comment :: "string option"
  ssh_notes :: "string option"
  ssh_useInAgent :: "bool option"

datatype VaultItemPlaintext =
    Login LoginItem
  | Note NoteItem
  | Card CardItem
  | Identity IdentityItem
  | SshKey SshKeyItem

fun plain_type :: "VaultItemPlaintext \<Rightarrow> VaultItemType" where
  "plain_type (Login _) = ''login''"
| "plain_type (Note _) = ''note''"
| "plain_type (Card _) = ''card''"
| "plain_type (Identity _) = ''identity''"
| "plain_type (SshKey _) = ''ssh_key''"

fun plain_name :: "VaultItemPlaintext \<Rightarrow> string" where
  "plain_name (Login p) = login_name p"
| "plain_name (Note p) = note_name p"
| "plain_name (Card p) = card_name p"
| "plain_name (Identity p) = ident_name p"
| "plain_name (SshKey p) = ssh_name p"

fun plain_tags :: "VaultItemPlaintext \<Rightarrow> string list option" where
  "plain_tags (Login p) = login_tags p"
| "plain_tags (Note p) = note_tags p"
| "plain_tags (Card p) = card_tags p"
| "plain_tags (Identity p) = ident_tags p"
| "plain_tags (SshKey p) = ssh_tags p"

record EncryptedVaultItem =
  ev_id :: string
  ev_vaultId :: string
  ev_userId :: string
  ev_orgId :: "string option"
  ev_itemType :: VaultItemType
  ev_blob :: string
  ev_blobIv :: string
  ev_blobMac :: string
  ev_version :: int
  ev_deletedAt :: "string option"
  ev_createdAt :: string
  ev_updatedAt :: string

section \<open>Sync types\<close>

type_synonym VectorClock = "(string \<times> int) list"

datatype SyncEventType = Upsert | Delete

record SyncEvent =
  se_id :: string
  se_userId :: string
  se_deviceId :: string
  se_sequenceNumber :: int
  se_eventType :: SyncEventType
  se_itemId :: string
  se_encryptedDelta :: "string option"
  se_deltaIv :: "string option"
  se_createdAt :: string

record SyncCheckpoint =
  sc_deviceId :: string
  sc_lastSyncedSequence :: int

section \<open>Items as JSON values\<close>

definition jopt :: "string \<Rightarrow> ('a \<Rightarrow> json) \<Rightarrow> 'a option \<Rightarrow> (string \<times> json) list" where
  "jopt k f x = (case x of None \<Rightarrow> [] | Some v \<Rightarrow> [(k, f v)])"

definition jstrs :: "string list \<Rightarrow> json" where
  "jstrs xs = JArr (map JStr xs)"

fun fieldType_string :: "FieldType \<Rightarrow> string" where
  "fieldType_string Text = ''text''"
| "fieldType_string Hidden = ''hidden''"
| "fieldType_string Boolean = ''boolean''"

definition customField_json :: "CustomField \<Rightarrow> json" where
  "customField_json f =
     JObj [(''name'', JStr (cf_name f)), (''value'', JStr (cf_value f)),
           (''fieldType'', JStr (fieldType_string (cf_fieldType f)))]"

definition passkey_json :: "PasskeyCredential \<Rightarrow> json" where
  "passkey_json p =
     JObj [(''credentialIdB64u'', JStr (pk_credentialIdB64u p)), (''rpId'', JStr (pk_rpId p)),
           (''userHandleB64u'', JStr (pk_userHandleB64u p)), (''userName'', JStr (pk_userName p)),
           (''privateKeyPkcs8B64'', JStr (pk_privateKeyPkcs8B64 p)),
           (''signCount'', JNum (pk_signCount p)), (''createdAt'', JStr (pk_createdAt p))]"

fun item_to_json :: "VaultItemPlaintext \<Rightarrow> json" where
  "item_to_json (Login p) =
     JObj ([(''type'', JStr ''login''), (''name'', JStr (login_name p))] @
       jopt ''tags'' jstrs (login_tags p) @
       [(''username'', JStr (login_username p)), (''password'', JStr (login_password p)),
        (''urls'', jstrs (login_urls p))] @
       jopt ''totp'' JStr (login_totp p) @ jopt ''notes'' JStr (login_notes p) @
       [(''customFields'', JArr (map customField_json (login_customFields p)))] @
       jopt ''passkey'' passkey_json (login_passkey p))"
| "item_to_json (Note p) =
     JObj ([(''type'', JStr ''note''), (''name'', JStr (note_name p))] @
       jopt ''tags'' jstrs (note_tags p) @ [(''content'', JStr (note_content p))])"
| "item_to_json (Card p) =
     JObj ([(''type'', JStr ''card''), (''name'', JStr (card_name p))] @
       jopt ''tags'' jstrs (card_tags p) @
       [(''cardholderName'', JStr (card_cardholderName p)), (''number'', JStr (card_number p)),
        (''expMonth'', JStr (card_expMonth p)), (''expYear'', JStr (card_expYear p)),
        (''cvv'', JStr (card_cvv p))] @ jopt ''notes'' JStr (card_notes p))"
| "item_to_json (Identity p) =
     JObj ([(''type'', JStr ''identity''), (''name'', JStr (ident_name p))] @
       jopt ''tags'' jstrs (ident_tags p) @
       [(''firstName'', JStr (ident_firstName p)), (''lastName'', JStr (ident_lastName p)),
        (''email'', JStr (ident_email p)), (''phone'', JStr (ident_phone p)),
        (''address'', JStr (ident_address p)), (''city'', JStr (ident_city p)),
        (''country'', JStr (ident_country p))] @ jopt ''notes'' JStr (ident_notes p))"
| "item_to_json (SshKey p) =
     JObj ([(''type'', JStr ''ssh_key''), (''name'', JStr (ssh_name p))] @
       jopt ''tags'' jstrs (ssh_tags p) @ [(''privateKey'', JStr (ssh_privateKey p))] @
       jopt ''publicKey'' JStr (ssh_publicKey p) @ jopt ''passphrase'' JStr (ssh_passphrase p) @
       jopt ''comment'' JStr (ssh_comment p) @ jopt ''notes'' JStr (ssh_notes p) @
       jopt ''useInAgent'' JBool (ssh_useInAgent p))"

subsection \<open>Reading an item back\<close>

fun jget_str :: "json \<Rightarrow> string option" where
  "jget_str (JStr s) = Some s" | "jget_str _ = None"

fun jget_int :: "json \<Rightarrow> int option" where
  "jget_int (JNum i) = Some i" | "jget_int _ = None"

fun jget_bool :: "json \<Rightarrow> bool option" where
  "jget_bool (JBool b) = Some b" | "jget_bool _ = None"

fun omap :: "('a \<Rightarrow> 'b option) \<Rightarrow> 'a list \<Rightarrow> 'b list option" where
  "omap f [] = Some []"
| "omap f (x # xs) =
     (case f x of None \<Rightarrow> None | Some y \<Rightarrow> map_option (\<lambda>ys. y # ys) (omap f xs))"

fun jget_list :: "(json \<Rightarrow> 'a option) \<Rightarrow> json \<Rightarrow> 'a list option" where
  "jget_list f (JArr xs) = omap f xs" | "jget_list f _ = None"

definition jfield :: "json \<Rightarrow> string \<Rightarrow> (json \<Rightarrow> 'a option) \<Rightarrow> 'a option" where
  "jfield j k f = (case json_get j k of None \<Rightarrow> None | Some v \<Rightarrow> f v)"

text \<open>An optional field: absent is fine, present must have the right shape.\<close>

definition jfield_opt :: "json \<Rightarrow> string \<Rightarrow> (json \<Rightarrow> 'a option) \<Rightarrow> 'a option option" where
  "jfield_opt j k f = (case json_get j k of None \<Rightarrow> Some None | Some v \<Rightarrow> map_option Some (f v))"

definition jstr :: "json \<Rightarrow> string \<Rightarrow> string option" where
  "jstr j k = jfield j k jget_str"

definition jstr_opt :: "json \<Rightarrow> string \<Rightarrow> string option option" where
  "jstr_opt j k = jfield_opt j k jget_str"

definition fieldType_of_string :: "string \<Rightarrow> FieldType option" where
  "fieldType_of_string s =
     (if s = ''text'' then Some Text else if s = ''hidden'' then Some Hidden
      else if s = ''boolean'' then Some Boolean else None)"

definition customField_of_json :: "json \<Rightarrow> CustomField option" where
  "customField_of_json j =
     (case (jstr j ''name'', jstr j ''value'', Option.bind (jstr j ''fieldType'') fieldType_of_string) of
        (Some n, Some v, Some t) \<Rightarrow> Some \<lparr>cf_name = n, cf_value = v, cf_fieldType = t\<rparr>
      | _ \<Rightarrow> None)"

definition passkey_of_json :: "json \<Rightarrow> PasskeyCredential option" where
  "passkey_of_json j =
     (case (jstr j ''credentialIdB64u'', jstr j ''rpId'', jstr j ''userHandleB64u'', jstr j ''userName'',
            jstr j ''privateKeyPkcs8B64'', jfield j ''signCount'' jget_int, jstr j ''createdAt'') of
        (Some a, Some b, Some c, Some d, Some e, Some f, Some g) \<Rightarrow>
          Some \<lparr>pk_credentialIdB64u = a, pk_rpId = b, pk_userHandleB64u = c, pk_userName = d,
                pk_privateKeyPkcs8B64 = e, pk_signCount = f, pk_createdAt = g\<rparr>
      | _ \<Rightarrow> None)"

definition login_of_json :: "json \<Rightarrow> LoginItem option" where
  "login_of_json j =
     (case (jstr j ''name'', jfield_opt j ''tags'' (jget_list jget_str), jstr j ''username'',
            jstr j ''password'', jfield j ''urls'' (jget_list jget_str), jstr_opt j ''totp'',
            jstr_opt j ''notes'', jfield j ''customFields'' (jget_list customField_of_json),
            jfield_opt j ''passkey'' passkey_of_json) of
        (Some n, Some tg, Some u, Some p, Some us, Some tp, Some nt, Some cf, Some pk) \<Rightarrow>
          Some \<lparr>login_name = n, login_tags = tg, login_username = u, login_password = p,
                login_urls = us, login_totp = tp, login_notes = nt, login_customFields = cf,
                login_passkey = pk\<rparr>
      | _ \<Rightarrow> None)"

definition note_of_json :: "json \<Rightarrow> NoteItem option" where
  "note_of_json j =
     (case (jstr j ''name'', jfield_opt j ''tags'' (jget_list jget_str), jstr j ''content'') of
        (Some n, Some tg, Some c) \<Rightarrow> Some \<lparr>note_name = n, note_tags = tg, note_content = c\<rparr>
      | _ \<Rightarrow> None)"

definition card_of_json :: "json \<Rightarrow> CardItem option" where
  "card_of_json j =
     (case (jstr j ''name'', jfield_opt j ''tags'' (jget_list jget_str), jstr j ''cardholderName'',
            jstr j ''number'', jstr j ''expMonth'', jstr j ''expYear'', jstr j ''cvv'', jstr_opt j ''notes'') of
        (Some n, Some tg, Some ch, Some nu, Some em, Some ey, Some cv, Some nt) \<Rightarrow>
          Some \<lparr>card_name = n, card_tags = tg, card_cardholderName = ch, card_number = nu,
                card_expMonth = em, card_expYear = ey, card_cvv = cv, card_notes = nt\<rparr>
      | _ \<Rightarrow> None)"

definition identity_of_json :: "json \<Rightarrow> IdentityItem option" where
  "identity_of_json j =
     (case (jstr j ''name'', jfield_opt j ''tags'' (jget_list jget_str), jstr j ''firstName'',
            jstr j ''lastName'', jstr j ''email'', jstr j ''phone'', jstr j ''address'', jstr j ''city'',
            jstr j ''country'', jstr_opt j ''notes'') of
        (Some n, Some tg, Some fn, Some ln, Some em, Some ph, Some ad, Some ci, Some co, Some nt) \<Rightarrow>
          Some \<lparr>ident_name = n, ident_tags = tg, ident_firstName = fn, ident_lastName = ln,
                ident_email = em, ident_phone = ph, ident_address = ad, ident_city = ci,
                ident_country = co, ident_notes = nt\<rparr>
      | _ \<Rightarrow> None)"

definition sshKey_of_json :: "json \<Rightarrow> SshKeyItem option" where
  "sshKey_of_json j =
     (case (jstr j ''name'', jfield_opt j ''tags'' (jget_list jget_str), jstr j ''privateKey'',
            jstr_opt j ''publicKey'', jstr_opt j ''passphrase'', jstr_opt j ''comment'',
            jstr_opt j ''notes'', jfield_opt j ''useInAgent'' jget_bool) of
        (Some n, Some tg, Some pr, Some pu, Some pa, Some co, Some nt, Some ag) \<Rightarrow>
          Some \<lparr>ssh_name = n, ssh_tags = tg, ssh_privateKey = pr, ssh_publicKey = pu,
                ssh_passphrase = pa, ssh_comment = co, ssh_notes = nt, ssh_useInAgent = ag\<rparr>
      | _ \<Rightarrow> None)"

definition item_of_json :: "json \<Rightarrow> VaultItemPlaintext option" where
  "item_of_json j =
     (case jstr j ''type'' of
        None \<Rightarrow> None
      | Some t \<Rightarrow>
          if t = ''login'' then map_option Login (login_of_json j)
          else if t = ''note'' then map_option Note (note_of_json j)
          else if t = ''card'' then map_option Card (card_of_json j)
          else if t = ''identity'' then map_option Identity (identity_of_json j)
          else if t = ''ssh_key'' then map_option SshKey (sshKey_of_json j)
          else None)"

lemma omap_map: "(\<And>x. x \<in> set xs \<Longrightarrow> f (g x) = Some x) \<Longrightarrow> omap f (map g xs) = Some xs"
  by (induction xs) auto

lemma jget_list_strs [simp]: "jget_list jget_str (jstrs xs) = Some xs"
  by (simp add: jstrs_def omap_map)

lemma customField_roundtrip [simp]: "customField_of_json (customField_json f) = Some f"
  by (cases "cf_fieldType f")
     (simp_all add: customField_of_json_def customField_json_def jstr_def jfield_def json_get_def
        fieldType_of_string_def)

lemma passkey_roundtrip [simp]: "passkey_of_json (passkey_json p) = Some p"
  by (simp add: passkey_of_json_def passkey_json_def jstr_def jfield_def json_get_def)

lemma map_of_jopt: "map_of (jopt k f x) = (\<lambda>q. if q = k then map_option f x else None)"
  by (cases x) (simp_all add: jopt_def fun_eq_iff)

lemma rev_jopt: "rev (jopt k f x) = jopt k f x"
  by (cases x) (simp_all add: jopt_def)

lemma read_optional:
  "(\<And>y. f (g y) = Some y) \<Longrightarrow> (case map_option g x of None \<Rightarrow> Some None | Some v \<Rightarrow> map_option Some (f v)) = Some x"
  by (cases x) simp_all

lemmas jread_defs = jstr_def jstr_opt_def jfield_def jfield_opt_def json_get_def map_of_jopt rev_jopt map_add_def read_optional

lemma login_roundtrip: "login_of_json (item_to_json (Login p)) = Some p"
  by (cases "login_tags p"; cases "login_totp p"; cases "login_notes p"; cases "login_passkey p")
     (simp_all add: login_of_json_def jread_defs omap_map)

lemma note_roundtrip: "note_of_json (item_to_json (Note p)) = Some p"
  by (cases "note_tags p") (simp_all add: note_of_json_def jread_defs)

lemma card_roundtrip: "card_of_json (item_to_json (Card p)) = Some p"
  by (cases "card_tags p"; cases "card_notes p") (simp_all add: card_of_json_def jread_defs)

lemma identity_roundtrip: "identity_of_json (item_to_json (Identity p)) = Some p"
  by (cases "ident_tags p"; cases "ident_notes p") (simp_all add: identity_of_json_def jread_defs)

lemma sshKey_roundtrip: "sshKey_of_json (item_to_json (SshKey p)) = Some p"
  by (cases "ssh_tags p"; cases "ssh_publicKey p"; cases "ssh_passphrase p"; cases "ssh_comment p"; cases "ssh_notes p";
      cases "ssh_useInAgent p")
     (simp_all add: sshKey_of_json_def jread_defs)

lemma item_to_json_type: "json_get (item_to_json p) ''type'' = Some (JStr (plain_type p))"
  by (cases p) (simp_all add: json_get_def rev_jopt map_of_jopt map_add_def)

lemma item_of_to_json [simp]: "item_of_json (item_to_json p) = Some p"
proof -
  have "jstr (item_to_json p) ''type'' = Some (plain_type p)"
    using item_to_json_type [of p] by (simp add: jstr_def jfield_def)
  then show ?thesis
    by (cases p)
       (simp_all add: item_of_json_def login_roundtrip note_roundtrip card_roundtrip
          identity_roundtrip sshKey_roundtrip del: item_to_json.simps)
qed

end
