(* ===== verification/Sync_Engine.thy ===== *)
theory Sync_Engine
  imports Vault_Types Js_Map "HOL-Library.List_Lexorder" "HOL-Library.Char_ord" "HOL-Library.Multiset"
begin

text \<open>
  The merge engine for vault sync, \<open>packages/crypto/src/sync-engine.ts\<close>: last-write-wins per
  item by sequence number, with ties broken by tombstone and device id, and the vector clock.
  Strings are compared as JavaScript compares them, by character codes.
\<close>

definition isMostRecent :: "SyncEvent \<Rightarrow> SyncEvent \<Rightarrow> bool" where
  "isMostRecent a b =
     (if se_sequenceNumber a \<noteq> se_sequenceNumber b then se_sequenceNumber a > se_sequenceNumber b
      else if se_eventType a = Delete \<and> se_eventType b \<noteq> Delete then True
      else if se_eventType b = Delete \<and> se_eventType a \<noteq> Delete then False
      else se_deviceId a > se_deviceId b)"

record MergeResult =
  mr_items :: "EncryptedVaultItem list"
  mr_newClock :: VectorClock

definition latest_step :: "SyncEvent \<Rightarrow> (string \<times> SyncEvent) list \<Rightarrow> (string \<times> SyncEvent) list" where
  "latest_step event latestEvent =
     (case map_of latestEvent (se_itemId event) of
        None \<Rightarrow> js_set (se_itemId event) event latestEvent
      | Some existing \<Rightarrow>
          if isMostRecent event existing then js_set (se_itemId event) event latestEvent else latestEvent)"

definition apply_winner ::
  "string \<times> SyncEvent \<Rightarrow> (string \<times> EncryptedVaultItem) list \<Rightarrow> (string \<times> EncryptedVaultItem) list" where
  "apply_winner ie itemMap =
     (case ie of (itemId, event) \<Rightarrow>
        if se_eventType event = Delete then
          (case map_of itemMap itemId of
             None \<Rightarrow> itemMap
           | Some item \<Rightarrow> js_set itemId (item\<lparr>ev_deletedAt := Some (se_createdAt event)\<rparr>) itemMap)
        else itemMap)"

definition clock_step :: "SyncEvent \<Rightarrow> VectorClock \<Rightarrow> VectorClock" where
  "clock_step event newClock =
     (let current = (case map_of newClock (se_deviceId event) of None \<Rightarrow> -1 | Some n \<Rightarrow> n) in
      if se_sequenceNumber event > current then js_set (se_deviceId event) (se_sequenceNumber event) newClock
      else newClock)"

definition applySyncEvents :: "EncryptedVaultItem list \<Rightarrow> SyncEvent list \<Rightarrow> VectorClock \<Rightarrow> MergeResult" where
  "applySyncEvents local events currentClock =
     (let itemMap = js_map_new (map (\<lambda>i. (ev_id i, i)) local);
          latestEvent = fold latest_step events [];
          itemMap' = fold apply_winner latestEvent itemMap;
          newClock = fold clock_step events currentClock
      in \<lparr>mr_items = map snd itemMap', mr_newClock = newClock\<rparr>)"

definition buildSyncCheckpoints :: "VectorClock \<Rightarrow> SyncCheckpoint list" where
  "buildSyncCheckpoints clock =
     map (\<lambda>(deviceId, lastSyncedSequence).
            \<lparr>sc_deviceId = deviceId, sc_lastSyncedSequence = lastSyncedSequence\<rparr>) clock"

section \<open>The order of events\<close>

text \<open>\<open>isMostRecent\<close> compares sequence number, then tombstone, then device id.\<close>

definition event_key :: "SyncEvent \<Rightarrow> int \<times> bool \<times> string" where
  "event_key e = (se_sequenceNumber e, se_eventType e = Delete, se_deviceId e)"

fun key_less :: "int \<times> bool \<times> string \<Rightarrow> int \<times> bool \<times> string \<Rightarrow> bool" where
  "key_less (s, d, v) (s', d', v') \<longleftrightarrow> s < s' \<or> s = s' \<and> (\<not> d \<and> d' \<or> d = d' \<and> v < v')"

lemma isMostRecent_key: "isMostRecent a b \<longleftrightarrow> key_less (event_key b) (event_key a)"
  by (auto simp: isMostRecent_def event_key_def)

lemma key_less_total: "key_less x y \<or> x = y \<or> key_less y x"
  by (cases x; cases y) auto

lemma key_less_trans: "key_less x y \<Longrightarrow> key_less y z \<Longrightarrow> key_less x z"
  by (cases x; cases y; cases z) auto

lemma key_less_irrefl [simp]: "\<not> key_less x x"
  by (cases x) auto

text \<open>A sync log is well formed when events that tie in every respect are the same event.\<close>

definition log_ok :: "SyncEvent set \<Rightarrow> bool" where
  "log_ok E \<longleftrightarrow> (\<forall>a \<in> E. \<forall>b \<in> E. se_itemId a = se_itemId b \<and> event_key a = event_key b \<longrightarrow> a = b)"

text \<open>The winner of an item among a set of events: no event of the item is more recent.\<close>

definition is_winner :: "SyncEvent set \<Rightarrow> string \<Rightarrow> SyncEvent \<Rightarrow> bool" where
  "is_winner E i w \<longleftrightarrow> w \<in> E \<and> se_itemId w = i \<and> (\<forall>e \<in> E. se_itemId e = i \<longrightarrow> \<not> isMostRecent e w)"

lemma is_winner_unique:
  assumes "log_ok E" "is_winner E i w" "is_winner E i w'"
  shows "w = w'"
proof -
  have "event_key w = event_key w'"
    using assms(2,3) key_less_total [of "event_key w" "event_key w'"] by (auto simp: is_winner_def isMostRecent_key)
  then show ?thesis using assms by (simp add: log_ok_def is_winner_def)
qed

lemma latest_step_map:
  "map_of (latest_step e m) i =
     (if se_itemId e = i \<and> (\<forall>x. map_of m i = Some x \<longrightarrow> isMostRecent e x) then Some e else map_of m i)"
  by (auto simp: latest_step_def split: option.splits)

text \<open>A table of latest events holds the winner of every item that has an event.\<close>

definition tracks :: "SyncEvent set \<Rightarrow> (string \<times> SyncEvent) list \<Rightarrow> bool" where
  "tracks E m \<longleftrightarrow> (\<forall>i. (\<forall>w. map_of m i = Some w \<longrightarrow> is_winner E i w) \<and>
     (map_of m i = None \<longrightarrow> (\<forall>e \<in> E. se_itemId e \<noteq> i)))"

lemma tracks_step:
  assumes "tracks E m"
  shows "tracks (insert e E) (latest_step e m)"
proof -
  have "is_winner (insert e E) i w" if "map_of (latest_step e m) i = Some w" for i w
  proof (cases "map_of m i")
    case None
    then show ?thesis using assms that
      by (auto simp: tracks_def latest_step_map is_winner_def isMostRecent_key split: if_splits)
  next
    case (Some x)
    then have "is_winner E i x" using assms by (simp add: tracks_def)
    then show ?thesis using Some that
      by (auto simp: latest_step_map is_winner_def isMostRecent_key split: if_splits dest: key_less_trans)
  qed
  then show ?thesis using assms by (auto simp: tracks_def latest_step_map)
qed

lemma tracks_fold: "tracks E m \<Longrightarrow> tracks (E \<union> set es) (fold latest_step es m)"
proof (induction es arbitrary: E m)
  case (Cons e es)
  then show ?case using Cons.IH [OF tracks_step, of E m e] by simp
qed simp

lemma tracks_latest: "tracks (set es) (fold latest_step es [])"
  using tracks_fold [of "{}" "[]" es] by (simp add: tracks_def)

lemma latest_iff_winner:
  assumes "log_ok (set es)"
  shows "map_of (fold latest_step es []) i = Some w \<longleftrightarrow> is_winner (set es) i w"
proof
  show "map_of (fold latest_step es []) i = Some w \<Longrightarrow> is_winner (set es) i w"
    using tracks_latest [of es] unfolding tracks_def by blast
  assume w: "is_winner (set es) i w"
  then obtain x where x: "map_of (fold latest_step es []) i = Some x"
    using tracks_latest [of es] unfolding tracks_def is_winner_def by fastforce
  then have "is_winner (set es) i x" using tracks_latest [of es] unfolding tracks_def by blast
  with x w show "map_of (fold latest_step es []) i = Some w" using is_winner_unique [OF assms] by blast
qed

lemma distinct_latest: "distinct (map fst m) \<Longrightarrow> distinct (map fst (fold latest_step es m))"
  by (induction es arbitrary: m) (auto simp: latest_step_def split: option.splits)

section \<open>The merged items\<close>

definition tombstone :: "SyncEvent option \<Rightarrow> EncryptedVaultItem \<Rightarrow> EncryptedVaultItem" where
  "tombstone w item = (case w of
     Some e \<Rightarrow> if se_eventType e = Delete then item\<lparr>ev_deletedAt := Some (se_createdAt e)\<rparr> else item
   | None \<Rightarrow> item)"

lemma apply_winner_keys [simp]: "map fst (apply_winner ie m) = map fst m"
  by (auto simp: apply_winner_def keys_js_set split: prod.splits option.splits dest: map_of_SomeD)
     (metis domIff dom_map_of_conv_image_fst option.distinct(1))

lemma apply_winner_map:
  "map_of (apply_winner (j, e) m) i = (if i = j then map_option (tombstone (Some e)) (map_of m i) else map_of m i)"
  by (auto simp: apply_winner_def tombstone_def split: option.splits)

lemma fold_apply_winner_keys [simp]: "map fst (fold apply_winner ws m) = map fst m"
  by (induction ws arbitrary: m) auto

lemma fold_apply_winner_map:
  "distinct (map fst ws) \<Longrightarrow>
   map_of (fold apply_winner ws m) i = map_option (tombstone (map_of ws i)) (map_of m i)"
proof (induction ws arbitrary: m)
  case Nil
  then show ?case by (cases "map_of m i") (simp_all add: tombstone_def)
next
  case (Cons w ws)
  obtain j e where w: "w = (j, e)" by (cases w)
  with Cons.prems have "map_of ws j = None" by (auto simp: map_of_eq_None_iff)
  then show ?case using Cons w
    by (cases "map_of m i") (auto simp: apply_winner_map tombstone_def)
qed

text \<open>A local item set has one row per id.\<close>

definition local_ok :: "EncryptedVaultItem list \<Rightarrow> bool" where
  "local_ok items \<longleftrightarrow> distinct (map ev_id items)"

lemma merged_items:
  assumes "local_ok local" "log_ok (set events)"
  shows "mr_items (applySyncEvents local events clock) =
     map (\<lambda>item. tombstone (map_of (fold latest_step events []) (ev_id item)) item) local"
proof -
  let ?m = "map (\<lambda>i. (ev_id i, i)) local" and ?w = "fold latest_step events []"
  have d: "distinct (map fst ?m)" using assms(1) by (simp add: local_ok_def comp_def)
  have "fold apply_winner ?w ?m = map (\<lambda>i. (ev_id i, tombstone (map_of ?w (ev_id i)) i)) local" (is "_ = ?r")
  proof (rule js_map_eqI)
    show "map fst (fold apply_winner ?w ?m) = map fst ?r" by (simp add: comp_def)
    show "distinct (map fst (fold apply_winner ?w ?m))" using d by simp
    have dw: "distinct (map fst ?w)" using distinct_latest [of "[]"] by simp
    have "map_of ?r i = map_option (tombstone (map_of ?w i)) (map_of ?m i)" for i
      by (induction local) auto
    then show "map_of (fold apply_winner ?w ?m) = map_of ?r"
      by (simp add: fun_eq_iff fold_apply_winner_map [OF dw])
  qed
  then show ?thesis by (simp add: applySyncEvents_def Let_def js_map_new_distinct [OF d] comp_def)
qed

section \<open>The vector clock\<close>

definition clock_at :: "VectorClock \<Rightarrow> string \<Rightarrow> int" where
  "clock_at c d = (case map_of c d of None \<Rightarrow> -1 | Some n \<Rightarrow> n)"

lemma clock_step_at:
  "clock_at (clock_step e c) d =
     (if se_deviceId e = d then max (clock_at c d) (se_sequenceNumber e) else clock_at c d)"
  by (auto simp: clock_step_def clock_at_def Let_def max_def)

lemma Max_insert_max:
  "finite S \<Longrightarrow> Max (insert (max a b) S) = Max (insert a (insert (b::int) S))"
  by (cases "S = {}") (auto simp: max.assoc)

lemma fold_clock_at:
  "clock_at (fold clock_step es c) d =
     Max (insert (clock_at c d) (se_sequenceNumber ` {e \<in> set es. se_deviceId e = d}))"
proof (induction es arbitrary: c)
  case Nil
  then show ?case by simp
next
  case (Cons e es)
  let ?S = "se_sequenceNumber ` {x \<in> set es. se_deviceId x = d}"
  have fin: "finite ?S" by simp
  have "{x \<in> set (e # es). se_deviceId x = d} =
      (if se_deviceId e = d then insert e {x \<in> set es. se_deviceId x = d} else {x \<in> set es. se_deviceId x = d})"
    by auto
  then have "insert (clock_at c d) (se_sequenceNumber ` {x \<in> set (e # es). se_deviceId x = d}) =
      (if se_deviceId e = d then insert (clock_at c d) (insert (se_sequenceNumber e) ?S) else insert (clock_at c d) ?S)"
    by (auto simp: image_iff)
  then show ?case
    by (cases "se_deviceId e = d") (simp_all only: fold.simps comp_apply Cons clock_step_at Max_insert_max [OF fin] if_True if_False simp_thms)
qed

section \<open>Theorems\<close>

lemma latest_set_eq:
  assumes "log_ok (set es)" "set es = set es'"
  shows "map_of (fold latest_step es []) i = map_of (fold latest_step es' []) i"
proof -
  have "map_of (fold latest_step es []) i = Some w \<longleftrightarrow> map_of (fold latest_step es' []) i = Some w" for w
    using latest_iff_winner [of es i w] latest_iff_winner [of es' i w] assms by simp
  then show ?thesis by (metis not_Some_eq)
qed

text \<open>
  A delete does not win over a later upsert of the same item: only at the same sequence number does
  the tombstone have priority.
\<close>

lemma later_upsert_beats_delete:
  assumes "se_sequenceNumber d < se_sequenceNumber u" "se_eventType d = Delete" "se_eventType u = Upsert"
    "se_itemId d = ev_id item" "se_itemId u = ev_id item"
  shows "mr_items (applySyncEvents [item] [u, d] clock) = [item]"
proof -
  have "u \<noteq> d" using assms(1) by auto
  then have "mr_items (applySyncEvents [item] [u, d] clock) =
      map (\<lambda>i. tombstone (map_of (fold latest_step [u, d] []) (ev_id i)) i) [item]"
    using assms(1) by (intro merged_items) (auto simp: local_ok_def log_ok_def event_key_def)
  then show ?thesis using assms by (simp add: latest_step_def isMostRecent_def tombstone_def)
qed

text \<open>
  C10. Sync converges: merging the same set of events in any order, with any repetitions, gives the
  same items in the same order and the same clock reading for every device.
\<close>

theorem sync_order_independent:
  assumes "local_ok local" "log_ok (set events)" "set events = set events'"
  shows "mr_items (applySyncEvents local events clock) = mr_items (applySyncEvents local events' clock) \<and>
    (\<forall>d. clock_at (mr_newClock (applySyncEvents local events clock)) d =
         clock_at (mr_newClock (applySyncEvents local events' clock)) d)"
proof -
  have "log_ok (set events')" using assms by simp
  then have "mr_items (applySyncEvents local events clock) = mr_items (applySyncEvents local events' clock)"
    using assms by (simp add: merged_items latest_set_eq [OF assms(2,3)])
  moreover have "clock_at (fold clock_step events clock) d = clock_at (fold clock_step events' clock) d" for d
    using assms(3) by (simp add: fold_clock_at)
  ultimately show ?thesis by (simp add: applySyncEvents_def Let_def)
qed

definition demo_item :: "string \<Rightarrow> EncryptedVaultItem" where
  "demo_item i = \<lparr>ev_id = i, ev_vaultId = ''v'', ev_userId = ''u'', ev_orgId = None, ev_itemType = ''note'',
     ev_blob = '''', ev_blobIv = '''', ev_blobMac = '''', ev_version = 1, ev_deletedAt = None,
     ev_createdAt = ''t0'', ev_updatedAt = ''t0''\<rparr>"

definition demo_event :: "int \<Rightarrow> SyncEventType \<Rightarrow> string \<Rightarrow> string \<Rightarrow> SyncEvent" where
  "demo_event n t i d = \<lparr>se_id = ''e'', se_userId = ''u'', se_deviceId = d, se_sequenceNumber = n,
     se_eventType = t, se_itemId = i, se_encryptedDelta = None, se_deltaIv = None, se_createdAt = ''t1''\<rparr>"

theorem sync_order_independent_witness:
  "mr_items (applySyncEvents [demo_item ''i''] [demo_event 1 Upsert ''i'' ''a'', demo_event 1 Delete ''i'' ''b''] []) =
   mr_items (applySyncEvents [demo_item ''i''] [demo_event 1 Delete ''i'' ''b'', demo_event 1 Upsert ''i'' ''a''] [])"
  using sync_order_independent [of "[demo_item ''i'']"
      "[demo_event 1 Upsert ''i'' ''a'', demo_event 1 Delete ''i'' ''b'']"
      "[demo_event 1 Delete ''i'' ''b'', demo_event 1 Upsert ''i'' ''a'']" "[]"]
  by (auto simp: local_ok_def log_ok_def demo_event_def event_key_def)

text \<open>
  What a merge does to a row: rows keep their order and everything but \<open>deletedAt\<close>, and a row
  is marked deleted, with the time of the event, exactly when the most recent event of its item is a
  delete; otherwise it is untouched.
\<close>

theorem merge_follows_most_recent:
  assumes "local_ok local" "log_ok (set events)" "n < length local"
  shows "length (mr_items (applySyncEvents local events clock)) = length local \<and>
    (case mr_items (applySyncEvents local events clock) ! n of row \<Rightarrow>
       (\<forall>w. is_winner (set events) (ev_id (local ! n)) w \<longrightarrow>
          row = (if se_eventType w = Delete then (local ! n)\<lparr>ev_deletedAt := Some (se_createdAt w)\<rparr> else local ! n)) \<and>
       ((\<forall>e \<in> set events. se_itemId e \<noteq> ev_id (local ! n)) \<longrightarrow> row = local ! n))"
proof -
  let ?m = "fold latest_step events []" and ?i = "ev_id (local ! n)"
  have row: "mr_items (applySyncEvents local events clock) ! n = tombstone (map_of ?m ?i) (local ! n)"
    using assms by (simp add: merged_items)
  have "map_of ?m ?i = None" if "\<forall>e \<in> set events. se_itemId e \<noteq> ?i"
    using that latest_iff_winner [OF assms(2), of ?i] by (cases "map_of ?m ?i") (auto simp: is_winner_def)
  moreover have "map_of ?m ?i = Some w" if "is_winner (set events) ?i w" for w
    using that latest_iff_winner [OF assms(2)] by blast
  ultimately show ?thesis
    using assms by (simp add: row) (auto simp: merged_items tombstone_def)
qed

theorem merge_follows_most_recent_witness:
  "mr_items (applySyncEvents [demo_item ''i''] [demo_event 1 Upsert ''i'' ''a'', demo_event 1 Delete ''i'' ''b''] []) ! 0 =
     demo_item ''i''\<lparr>ev_deletedAt := Some ''t1''\<rparr>"
proof -
  have w: "is_winner (set [demo_event 1 Upsert ''i'' ''a'', demo_event 1 Delete ''i'' ''b'']) ''i'' (demo_event 1 Delete ''i'' ''b'')"
    by (auto simp: is_winner_def isMostRecent_def demo_event_def)
  have ok: "local_ok [demo_item ''i'']" "log_ok (set [demo_event 1 Upsert ''i'' ''a'', demo_event 1 Delete ''i'' ''b''])"
    by (auto simp: local_ok_def log_ok_def demo_event_def event_key_def)
  have id: "ev_id (demo_item ''i'') = ''i''" by (simp add: demo_item_def)
  show ?thesis
    using merge_follows_most_recent [OF ok, of 0 "[]"] w by (auto simp: id demo_event_def)
qed

text \<open>
  The vector clock never goes back: after a merge each device reads the largest of its old
  reading and the sequence numbers of its events, and merging the same events again changes no
  reading; the checkpoints sent to the server are exactly the entries of the clock.
\<close>

theorem vector_clock_is_pointwise_max:
  "clock_at (mr_newClock (applySyncEvents local events clock)) d =
     Max (insert (clock_at clock d) (se_sequenceNumber ` {e \<in> set events. se_deviceId e = d})) \<and>
   clock_at (mr_newClock (applySyncEvents local' events (mr_newClock (applySyncEvents local events clock)))) d =
     clock_at (mr_newClock (applySyncEvents local events clock)) d \<and>
   map (\<lambda>c. (sc_deviceId c, sc_lastSyncedSequence c)) (buildSyncCheckpoints clock) = clock"
proof -
  let ?S = "se_sequenceNumber ` {e \<in> set events. se_deviceId e = d}"
  have "Max (insert (Max (insert (clock_at clock d) ?S)) ?S) = Max (insert (clock_at clock d) ?S)"
    by (intro Max_eqI) (auto intro: Max_ge)
  then have "clock_at (fold clock_step events (fold clock_step events clock)) d = clock_at (fold clock_step events clock) d"
    by (simp add: fold_clock_at)
  moreover have "map (\<lambda>c. (sc_deviceId c, sc_lastSyncedSequence c)) (buildSyncCheckpoints clock) = clock"
    by (simp add: buildSyncCheckpoints_def comp_def case_prod_beta)
  ultimately show ?thesis by (simp add: applySyncEvents_def Let_def fold_clock_at [of events clock])
qed

end
