(* ===== verification/Api_Types.thy ===== *)
theory Api_Types
  imports Vault_Types
begin

text \<open>
  The request and response types of \<open>packages/types/src/api.ts\<close> that the modelled clients
  build or read, and the errors the clients throw. A field the source marks optional or nullable is an
  \<open>option\<close>. Numbers are integers.

  \<open>js_error\<close> has one constructor per error class of the sources with the data the class keeps;
  \<open>JsError\<close> is a plain \<open>Error\<close> with its message, \<open>TypeError\<close> what the language
  throws for a property of \<open>null\<close>, \<open>SyntaxError\<close> what \<open>JSON.parse\<close> throws and
  \<open>DOMException\<close> what the platform (WebCrypto, \<open>atob\<close>, fetch) throws. Dashes in
  messages are written as ASCII.
\<close>

section \<open>Passwords and sign-in\<close>

record KdfParams =
  kp_type :: string
  kp_memoryKib :: int
  kp_iterations :: int
  kp_parallelism :: int

definition DEFAULT_KDF_PARAMS :: KdfParams where
  "DEFAULT_KDF_PARAMS =
     \<lparr>kp_type = ''argon2id'', kp_memoryKib = 65536, kp_iterations = 3, kp_parallelism = 4\<rparr>"

record OpaqueRegisterStartRequest =
  ors_emailHash :: string
  ors_registrationRequest :: string

record OpaqueRegisterFinishRequest =
  orf_emailHash :: string
  orf_registrationRecord :: string
  orf_kdfParams :: KdfParams
  orf_protectedSymmetricKey :: string
  orf_protectedSymmetricKeyIv :: string
  orf_publicKey :: "string option"
  orf_protectedPrivateKey :: "string option"
  orf_protectedPrivateKeyIv :: "string option"

datatype ProofPurpose = PurposeAccountKey | PurposeIdentityKey

record PasswordProofStartRequest =
  pps_emailHash :: string
  pps_startLoginRequest :: string
  pps_purpose :: ProofPurpose

record PasswordProofStartResponse =
  ppr_proofId :: string
  ppr_loginResponse :: string
  ppr_kdfParams :: KdfParams

record PasswordProof =
  pp_proofId :: string
  pp_finishLoginRequest :: string

record UpgradeStartRequest =
  us_emailHash :: string
  us_clientPublicA :: string
  us_registrationRequest :: string

record UpgradeStartResponse =
  ur_upgradeId :: string
  ur_serverPublicB :: string
  ur_srpSalt :: string
  ur_kdfParams :: KdfParams
  ur_registrationResponse :: string

record UpgradeFinishRequest =
  uf_upgradeId :: string
  uf_clientProofM1 :: string
  uf_registrationRecord :: string
  uf_wrappedAccountKey :: string
  uf_wrappedAccountKeyIv :: string
  uf_protectedPrivateKey :: "string option"
  uf_protectedPrivateKeyIv :: "string option"

record OpaqueLoginStartRequest =
  ols_emailHash :: string
  ols_startLoginRequest :: string

record OpaqueLoginStartResponse =
  olr_loginId :: string
  olr_loginResponse :: string
  olr_kdfParams :: KdfParams

record OpaqueLoginFinishRequest =
  olf_loginId :: string
  olf_finishLoginRequest :: string
  olf_deviceId :: "string option"

record LoginResponse =
  lr_sessionToken :: string
  lr_userId :: string
  lr_defaultVaultId :: string
  lr_protectedSymmetricKey :: string
  lr_protectedSymmetricKeyIv :: string
  lr_protectedPrivateKey :: "string option"
  lr_protectedPrivateKeyIv :: "string option"
  lr_wrappedAccountKey :: "string option"
  lr_wrappedAccountKeyIv :: "string option"

record SetAccountKeyRequest =
  sak_proof :: PasswordProof
  sak_wrappedAccountKey :: string
  sak_wrappedAccountKeyIv :: string
  sak_protectedPrivateKey :: "string option"
  sak_protectedPrivateKeyIv :: "string option"

record SrpInitRequest =
  si_emailHash :: string
  si_clientPublicA :: string

record SrpInitResponse =
  sr_sessionId :: string
  sr_serverPublicB :: string
  sr_srpSalt :: string
  sr_kdfParams :: KdfParams

record SrpVerifyRequest =
  sv_sessionId :: string
  sv_clientProofM1 :: string
  sv_deviceId :: "string option"

record SrpVerifyResponse = LoginResponse +
  sv_serverProofM2 :: string

section \<open>Password change and recovery\<close>

record PasswordChangeStartRequest =
  pcs_emailHash :: string
  pcs_startLoginRequest :: string
  pcs_registrationRequest :: string

record PasswordChangeStartResponse =
  pcr_changeId :: string
  pcr_loginResponse :: string
  pcr_kdfParams :: KdfParams
  pcr_registrationResponse :: string
  pcr_wrappedAccountKey :: string
  pcr_wrappedAccountKeyIv :: string

record PasswordChangeFinishRequest =
  pcf_changeId :: string
  pcf_finishLoginRequest :: string
  pcf_registrationRecord :: string
  pcf_wrappedAccountKey :: string
  pcf_wrappedAccountKeyIv :: string

record SetRecoveryRequest =
  srq_recoveryAuthKey :: string
  srq_recoveryBlob :: string
  srq_recoveryBlobIv :: string

record RecoveryInitRequest =
  ri_emailHash :: string
  ri_recoveryAuthKey :: string

record RecoveryInitResponse =
  rr_recoveryToken :: string
  rr_recoveryBlob :: string
  rr_recoveryBlobIv :: string
  rr_protectedPrivateKey :: "string option"
  rr_protectedPrivateKeyIv :: "string option"
  rr_items :: "EncryptedVaultItem list"

record ReencryptedItem =
  re_id :: string
  re_blob :: string
  re_blobIv :: string
  re_blobMac :: string

record RecoveryOpaqueStartRequest =
  ro_recoveryToken :: string
  ro_emailHash :: string
  ro_registrationRequest :: string

record RecoveryCompleteRequest =
  rc_recoveryToken :: string
  rc_registrationRecord :: string
  rc_protectedSymmetricKey :: string
  rc_protectedSymmetricKeyIv :: string
  rc_protectedPrivateKey :: "string option"
  rc_protectedPrivateKeyIv :: "string option"
  rc_wrappedAccountKey :: string
  rc_wrappedAccountKeyIv :: string
  rc_recoveryAuthKey :: string
  rc_recoveryBlob :: string
  rc_recoveryBlobIv :: string

section \<open>Organizations\<close>

text \<open>
  Roles are strings at run time: what a server puts there is not checked before it is compared.
\<close>

type_synonym OrgRole = string

definition orgRoles :: "OrgRole list" where
  "orgRoles = [''owner'', ''admin'', ''member'']"

datatype OrgMemberStatus = StatusPending | StatusActive

record KeyBundle =
  kb_userId :: string
  kb_publicKey :: string
  kb_identityPublicKey :: "string option"
  kb_publicKeySignature :: "string option"

record OrgMember =
  om_userId :: string
  om_role :: OrgRole
  om_status :: OrgMemberStatus
  om_joinedAt :: "string option"
  om_publicKey :: "string option"
  om_identityPublicKey :: "string option"
  om_publicKeySignature :: "string option"

record WrapLink =
  wl_recipientUserId :: string
  wl_role :: OrgRole
  wl_encryptedOrgKey :: string
  wl_wrapSignature :: "string option"
  wl_keyEpoch :: "int option"
  wl_signerUserId :: string
  wl_signer :: KeyBundle

record RewrapWrap =
  rw_userId :: string
  rw_encryptedOrgKey :: string
  rw_wrapSignature :: string
  rw_keyEpoch :: int

record RotateKeyRequest =
  rk_newEpoch :: int
  rk_removeUserId :: "string option"
  rk_wraps :: "RewrapWrap list"
  rk_items :: "ReencryptedItem list"
  rk_deleteItemIds :: "string list option"

record SetIdentityRequest =
  sid_identityPublicKey :: string
  sid_publicKeySignature :: string
  sid_proof :: "PasswordProof option"

section \<open>Errors\<close>

datatype js_error =
    JsError string
  | TypeError
  | SyntaxError
  | DOMException
  | LegacyItemRejectedError string
  | ItemRollbackError string int int
  | AccountKeyError string
  | WeakKdfParamsError
  | IncorrectPasswordError
  | PinnedKeyChangedError string
  | UnverifiableKeyError string string
  | UntrustedOrgKeyError string
  | UnconfirmedSignersError "(KeyBundle \<times> string) list"
  | UnconfirmedMembersError "string list"
  | RotationSetIncompleteError "string list" "string list"
  | UndecryptableItemsError "string list"
  | OwnKeyMismatchError string
  | ApiError string int
  | ConflictError int

type_synonym 'a js = "js_error + 'a"

end
