(* ===== verification/Web_Crypto.thy ===== *)
theory Web_Crypto
  imports Api_Types
begin

text \<open>
  The platform and library primitives the sources call (WebCrypto's \<open>crypto.subtle\<close>,
  \<open>@noble/hashes\<close>, \<open>@noble/curves\<close>) as a record of functions that the model takes as a
  parameter, the checks \<open>crypto.subtle\<close> makes on a \<open>CryptoKey\<close>, and the first layer built
  on them: \<open>packages/crypto/src/aes-gcm.ts\<close> and the \<open>EncryptedBlob\<close> of
  \<open>packages/crypto/src/types.ts\<close>.

  What the code relies on is stated by the predicates \<open>aead_correct\<close>,
  \<open>aead_authentic\<close>, \<open>aead_binds\<close> and others, which the theorems take as hypotheses;
  \<open>demo_crypto\<close> is a concrete (and of course insecure) instance that satisfies all of them.
  A random value is an explicit argument of the operation that draws it. Zeroing a buffer after its
  last use is not modelled.
\<close>

section \<open>Primitives\<close>

record crypto =
  aes_gcm_encrypt :: "bytes \<Rightarrow> bytes \<Rightarrow> bytes \<Rightarrow> bytes \<Rightarrow> bytes"
  aes_gcm_decrypt :: "bytes \<Rightarrow> bytes \<Rightarrow> bytes \<Rightarrow> bytes \<Rightarrow> bytes option"
  hmac_digest :: "string \<Rightarrow> bytes \<Rightarrow> bytes \<Rightarrow> bytes"
  sha256 :: "bytes \<Rightarrow> bytes"
  sha512 :: "bytes \<Rightarrow> bytes"
  hkdf_sha256 :: "bytes \<Rightarrow> bytes \<Rightarrow> bytes \<Rightarrow> nat \<Rightarrow> bytes"
  argon2id :: "bytes \<Rightarrow> bytes \<Rightarrow> int \<Rightarrow> int \<Rightarrow> int \<Rightarrow> nat \<Rightarrow> bytes option"
  ed25519_getPublicKey :: "bytes \<Rightarrow> bytes"
  ed25519_sign :: "bytes \<Rightarrow> bytes \<Rightarrow> bytes"
  ed25519_verify :: "bytes \<Rightarrow> bytes \<Rightarrow> bytes \<Rightarrow> bool option"
  rsa_oaep_encrypt :: "bytes \<Rightarrow> bytes \<Rightarrow> bytes \<Rightarrow> bytes option"
  rsa_oaep_decrypt :: "bytes \<Rightarrow> bytes \<Rightarrow> bytes option"
  rsa_spki_valid :: "bytes \<Rightarrow> bool"
  rsa_spki_of_pkcs8 :: "bytes \<Rightarrow> bytes option"

text \<open>
  The arguments are, in order: AES-GCM key, iv, additional data, message; HMAC hash name, key,
  message; HKDF input key, salt, info, length; Argon2id password, salt, t, m, p, length (\<open>None\<close>
  when the library rejects the parameters); Ed25519 sign message, secret key; verify signature,
  message, public key (\<open>None\<close> when it throws on a malformed input); RSA-OAEP encrypt SPKI,
  randomness, message; decrypt PKCS8, ciphertext; whether \<open>importKey("spki")\<close> accepts its input;
  the public key of a PKCS8 private key (\<open>None\<close> when it does not parse).
\<close>

section \<open>What the code relies on\<close>

definition aead_correct :: "crypto \<Rightarrow> bool" where
  "aead_correct C \<longleftrightarrow>
     (\<forall>k iv aad m. aes_gcm_decrypt C k iv aad (aes_gcm_encrypt C k iv aad m) = Some m)"

text \<open>Decryption accepts nothing but what encryption under the same parameters produces.\<close>

definition aead_authentic :: "crypto \<Rightarrow> bool" where
  "aead_authentic C \<longleftrightarrow>
     (\<forall>k iv aad c m. aes_gcm_decrypt C k iv aad c = Some m \<longrightarrow> c = aes_gcm_encrypt C k iv aad m)"

text \<open>A ciphertext made for one additional-data string is refused under every other one.\<close>

definition aead_binds :: "crypto \<Rightarrow> bool" where
  "aead_binds C \<longleftrightarrow>
     (\<forall>k iv aad iv' aad' m. aad \<noteq> aad' \<longrightarrow>
        aes_gcm_decrypt C k iv' aad' (aes_gcm_encrypt C k iv aad m) = None)"

text \<open>A tag is appended to the ciphertext.\<close>

definition aead_expands :: "crypto \<Rightarrow> bool" where
  "aead_expands C \<longleftrightarrow> (\<forall>k iv aad m. length m < length (aes_gcm_encrypt C k iv aad m))"

definition hkdf_lengths :: "crypto \<Rightarrow> bool" where
  "hkdf_lengths C \<longleftrightarrow> (\<forall>ikm salt info n. length (hkdf_sha256 C ikm salt info n) = n)"

definition sha256_lengths :: "crypto \<Rightarrow> bool" where
  "sha256_lengths C \<longleftrightarrow> (\<forall>m. length (sha256 C m) = 32)"

definition sha512_lengths :: "crypto \<Rightarrow> bool" where
  "sha512_lengths C \<longleftrightarrow> (\<forall>m. length (sha512 C m) = 64)"

lemma aead_correctD:
  "aead_correct C \<Longrightarrow> aes_gcm_decrypt C k iv aad (aes_gcm_encrypt C k iv aad m) = Some m"
  by (simp add: aead_correct_def)

lemma aead_bindsD:
  "aead_binds C \<Longrightarrow> aad \<noteq> aad' \<Longrightarrow> aes_gcm_decrypt C k iv' aad' (aes_gcm_encrypt C k iv aad m) = None"
  by (simp add: aead_binds_def)

lemma aead_authenticD:
  "aead_authentic C \<Longrightarrow> aes_gcm_decrypt C k iv aad c = Some m \<Longrightarrow> c = aes_gcm_encrypt C k iv aad m"
  by (simp add: aead_authentic_def)

section \<open>Keys of \<open>crypto.subtle\<close>\<close>

datatype KeyAlgorithm = AesGcm | Hmac string | RsaOaep

datatype KeyUsage = UseEncrypt | UseDecrypt | UseSign | UseVerify

text \<open>\<open>ck_material\<close> is the raw key, or the SPKI or PKCS8 encoding of an RSA key.\<close>

record CryptoKey =
  ck_algorithm :: KeyAlgorithm
  ck_material :: bytes
  ck_extractable :: bool
  ck_usages :: "KeyUsage list"

definition ck_allows :: "CryptoKey \<Rightarrow> KeyAlgorithm \<Rightarrow> KeyUsage \<Rightarrow> bool" where
  "ck_allows k a u \<longleftrightarrow> ck_algorithm k = a \<and> u \<in> set (ck_usages k)"

definition subtle_importRawAes :: "bytes \<Rightarrow> bool \<Rightarrow> KeyUsage list \<Rightarrow> CryptoKey js" where
  "subtle_importRawAes raw ext us =
     (if length raw \<in> {16, 24, 32}
      then Inr \<lparr>ck_algorithm = AesGcm, ck_material = raw, ck_extractable = ext, ck_usages = us\<rparr>
      else Inl DOMException)"

definition subtle_importRawHmac :: "string \<Rightarrow> bytes \<Rightarrow> KeyUsage list \<Rightarrow> CryptoKey js" where
  "subtle_importRawHmac h raw us =
     (if raw \<noteq> []
      then Inr \<lparr>ck_algorithm = Hmac h, ck_material = raw, ck_extractable = False, ck_usages = us\<rparr>
      else Inl DOMException)"

definition subtle_exportRaw :: "CryptoKey \<Rightarrow> bytes js" where
  "subtle_exportRaw k =
     (if ck_extractable k \<and> ck_algorithm k = AesGcm then Inr (ck_material k) else Inl DOMException)"

definition subtle_encrypt :: "crypto \<Rightarrow> bytes \<Rightarrow> bytes \<Rightarrow> CryptoKey \<Rightarrow> bytes \<Rightarrow> bytes js" where
  "subtle_encrypt C iv aad k m =
     (if ck_allows k AesGcm UseEncrypt then Inr (aes_gcm_encrypt C (ck_material k) iv aad m)
      else Inl DOMException)"

definition subtle_decrypt :: "crypto \<Rightarrow> bytes \<Rightarrow> bytes \<Rightarrow> CryptoKey \<Rightarrow> bytes \<Rightarrow> bytes js" where
  "subtle_decrypt C iv aad k c =
     (if ck_allows k AesGcm UseDecrypt
      then of_option DOMException (aes_gcm_decrypt C (ck_material k) iv aad c)
      else Inl DOMException)"

definition subtle_sign :: "crypto \<Rightarrow> string \<Rightarrow> CryptoKey \<Rightarrow> bytes \<Rightarrow> bytes js" where
  "subtle_sign C h k m =
     (if ck_allows k (Hmac h) UseSign then Inr (hmac_digest C h (ck_material k) m)
      else Inl DOMException)"

definition subtle_verify :: "crypto \<Rightarrow> string \<Rightarrow> CryptoKey \<Rightarrow> bytes \<Rightarrow> bytes \<Rightarrow> bool js" where
  "subtle_verify C h k mac m =
     (if ck_allows k (Hmac h) UseVerify then Inr (mac = hmac_digest C h (ck_material k) m)
      else Inl DOMException)"

lemmas subtle_defs = subtle_encrypt_def subtle_decrypt_def subtle_sign_def subtle_verify_def
  subtle_importRawAes_def subtle_importRawHmac_def subtle_exportRaw_def

text \<open>A key that can seal and open vault items, and one that can make and check MACs.\<close>

definition aes_key_ok :: "CryptoKey \<Rightarrow> bool" where
  "aes_key_ok k \<longleftrightarrow> ck_allows k AesGcm UseEncrypt \<and> ck_allows k AesGcm UseDecrypt"

definition mac_key_ok :: "CryptoKey \<Rightarrow> bool" where
  "mac_key_ok k \<longleftrightarrow> ck_allows k (Hmac ''SHA-256'') UseSign \<and> ck_allows k (Hmac ''SHA-256'') UseVerify"

lemma subtle_decrypt_encrypt:
  "aead_correct C \<Longrightarrow> aes_key_ok k \<Longrightarrow> subtle_encrypt C iv aad k m = Inr c \<Longrightarrow>
   subtle_decrypt C iv aad k c = Inr m"
  by (auto simp: subtle_defs aes_key_ok_def aead_correctD)

lemma subtle_decrypt_Inr_iff:
  "subtle_decrypt C iv aad k c = Inr m \<longleftrightarrow>
     ck_allows k AesGcm UseDecrypt \<and> aes_gcm_decrypt C (ck_material k) iv aad c = Some m"
  by (simp add: subtle_decrypt_def)

lemma subtle_decrypt_other_aad:
  "aead_binds C \<Longrightarrow> aad \<noteq> aad' \<Longrightarrow>
   subtle_decrypt C iv' aad' k (aes_gcm_encrypt C (ck_material k) iv aad m) = Inl DOMException"
  by (simp add: subtle_decrypt_def aead_bindsD)

lemma importRawAes_key:
  "subtle_importRawAes raw ext us = Inr k \<longleftrightarrow>
     length raw \<in> {16, 24, 32} \<and>
     k = \<lparr>ck_algorithm = AesGcm, ck_material = raw, ck_extractable = ext, ck_usages = us\<rparr>"
  by (auto simp: subtle_importRawAes_def)

text \<open>\<open>buf.set(src, off)\<close> on a byte array: a range error when the source does not fit.\<close>

definition ta_set :: "bytes \<Rightarrow> bytes \<Rightarrow> nat \<Rightarrow> bytes js" where
  "ta_set buf src off =
     (if off + length src > length buf then Inl (JsError ''offset is out of bounds'')
      else Inr (take off buf @ src @ drop (off + length src) buf))"

definition ta_new :: "nat \<Rightarrow> bytes" where
  "ta_new n = replicate n 0"

definition ta_slice :: "nat \<Rightarrow> nat \<Rightarrow> bytes \<Rightarrow> bytes" where
  "ta_slice a b bs = take (b - a) (drop a bs)"

section \<open>\<open>aes-gcm.ts\<close>\<close>

record EncryptedBlob =
  eb_blob :: string
  eb_blobIv :: string
  eb_blobMac :: string

text \<open>The requests that carry one.\<close>

record CreateVaultItemRequest =
  cv_id :: "string option"
  cv_itemType :: string
  cv_blob :: EncryptedBlob

record UpdateVaultItemRequest =
  uv_blob :: EncryptedBlob
  uv_version :: int

definition json_bytes :: "json \<Rightarrow> bytes" where
  "json_bytes j = utf8_encode (json_print j)"

definition json_of_bytes :: "bytes \<Rightarrow> json js" where
  "json_of_bytes bs = rbind (of_option SyntaxError (utf8_decode bs))
     (\<lambda>s. of_option SyntaxError (json_parse s))"

definition fromBase64_js :: "string \<Rightarrow> bytes js" where
  "fromBase64_js s = of_option DOMException (fromBase64 s)"

lemma json_of_bytes_json_bytes [codec_simps, simp]: "json_of_bytes (json_bytes j) = Inr j"
  by (simp add: json_of_bytes_def json_bytes_def codec_simps)

lemma json_bytes_inj [codec_inj, simp]: "json_bytes a = json_bytes b \<longleftrightarrow> a = b"
  by (simp add: json_bytes_def codec_inj)

lemma fromBase64_js_toBase64 [codec_simps, simp]: "fromBase64_js (toBase64 bs) = Inr bs"
  by (simp add: fromBase64_js_def)

definition encryptItem ::
  "crypto \<Rightarrow> bytes \<Rightarrow> json \<Rightarrow> CryptoKey \<Rightarrow> CryptoKey \<Rightarrow> EncryptedBlob js" where
  "encryptItem C iv plaintext vaultEncKey vaultMacKey =
     rbind (subtle_encrypt C iv [] vaultEncKey (json_bytes plaintext)) (\<lambda>ciphertext.
     rbind (subtle_sign C ''SHA-256'' vaultMacKey (iv @ ciphertext)) (\<lambda>mac.
     Inr \<lparr>eb_blob = toBase64 ciphertext, eb_blobIv = toBase64 iv, eb_blobMac = toBase64 mac\<rparr>))"

definition decryptItem :: "crypto \<Rightarrow> EncryptedBlob \<Rightarrow> CryptoKey \<Rightarrow> CryptoKey \<Rightarrow> json js" where
  "decryptItem C encrypted vaultEncKey vaultMacKey =
     rbind (fromBase64_js (eb_blobIv encrypted)) (\<lambda>iv.
     rbind (fromBase64_js (eb_blob encrypted)) (\<lambda>ciphertext.
     rbind (fromBase64_js (eb_blobMac encrypted)) (\<lambda>mac.
     rbind (subtle_verify C ''SHA-256'' vaultMacKey mac (iv @ ciphertext)) (\<lambda>valid.
     if \<not> valid then
       Inl (JsError ''MAC verification failed - vault item may have been tampered with'')
     else
     rbind (subtle_decrypt C iv [] vaultEncKey ciphertext) (\<lambda>plaintext.
     json_of_bytes plaintext)))))"

definition encryptBytes :: "crypto \<Rightarrow> bytes \<Rightarrow> bytes \<Rightarrow> CryptoKey \<Rightarrow> EncryptedBlob js" where
  "encryptBytes C iv plaintext key =
     rbind (subtle_encrypt C iv [] key plaintext) (\<lambda>ciphertext.
     Inr \<lparr>eb_blob = toBase64 ciphertext, eb_blobIv = toBase64 iv, eb_blobMac = ''''\<rparr>)"

definition decryptBytes :: "crypto \<Rightarrow> EncryptedBlob \<Rightarrow> CryptoKey \<Rightarrow> bytes js" where
  "decryptBytes C encrypted key =
     rbind (fromBase64_js (eb_blobIv encrypted)) (\<lambda>iv.
     rbind (fromBase64_js (eb_blob encrypted)) (\<lambda>ciphertext.
     subtle_decrypt C iv [] key ciphertext))"

lemma decryptItem_encryptItem:
  assumes "aead_correct C" "aes_key_ok ek" "mac_key_ok mk" "encryptItem C iv p ek mk = Inr b"
  shows "decryptItem C b ek mk = Inr p"
  using assms
  by (auto simp: encryptItem_def decryptItem_def subtle_defs aes_key_ok_def mac_key_ok_def aead_correctD)

lemma encryptItem_succeeds:
  "aes_key_ok ek \<Longrightarrow> mac_key_ok mk \<Longrightarrow> \<exists>b. encryptItem C iv p ek mk = Inr b"
  by (simp add: encryptItem_def subtle_defs aes_key_ok_def mac_key_ok_def)

lemma encryptBytes_succeeds:
  "aes_key_ok k \<Longrightarrow> encryptBytes C iv m k =
     Inr \<lparr>eb_blob = toBase64 (aes_gcm_encrypt C (ck_material k) iv [] m), eb_blobIv = toBase64 iv, eb_blobMac = ''''\<rparr>"
  by (simp add: encryptBytes_def subtle_defs aes_key_ok_def)

lemma decryptBytes_encryptBytes:
  assumes "aead_correct C" "ck_allows k AesGcm UseDecrypt" "encryptBytes C iv m k' = Inr b"
    "ck_material k' = ck_material k"
  shows "decryptBytes C b k = Inr m"
  using assms by (auto simp: encryptBytes_def decryptBytes_def subtle_defs rbind_eq_Inr aead_correctD
    split: if_splits)

text \<open>
  What the HMAC buys for a v1 blob: an accepted blob carries the MAC of exactly the ciphertext it is
  opened from.
\<close>

lemma decryptItem_authentic:
  assumes "aead_authentic C" "decryptItem C b ek mk = Inr p"
  shows "\<exists>iv c m. fromBase64 (eb_blobIv b) = Some iv \<and> fromBase64 (eb_blob b) = Some c \<and>
           fromBase64 (eb_blobMac b) = Some (hmac_digest C ''SHA-256'' (ck_material mk) (iv @ c)) \<and>
           c = aes_gcm_encrypt C (ck_material ek) iv [] m \<and> json_of_bytes m = Inr p"
  using assms
  by (auto simp: decryptItem_def subtle_defs rbind_eq_Inr fromBase64_js_def split: if_splits
      dest!: aead_authenticD)

section \<open>A concrete instance of the primitives\<close>

text \<open>
  \<open>frame\<close> is a prefix-free encoding, so that a ciphertext that starts with the frames of its
  parameters determines them. The instance is for evaluating the model and for showing that the
  hypotheses above can be met.
\<close>

definition frame :: "bytes \<Rightarrow> bytes" where
  "frame bs = concat (map (\<lambda>b. [1, b]) bs) @ [0]"

fun strip_prefix :: "'a list \<Rightarrow> 'a list \<Rightarrow> 'a list option" where
  "strip_prefix [] ys = Some ys"
| "strip_prefix (x # xs) [] = None"
| "strip_prefix (x # xs) (y # ys) = (if x = y then strip_prefix xs ys else None)"

lemma strip_prefix_iff: "strip_prefix xs ys = Some zs \<longleftrightarrow> ys = xs @ zs"
  by (induction xs ys rule: strip_prefix.induct) auto

lemma frame_simps [simp]: "frame [] = [0]" "frame (b # bs) = 1 # b # frame bs"
  by (simp_all add: frame_def)

lemma frame_prefix_free: "frame a @ x = frame b @ y \<longleftrightarrow> a = b \<and> x = y"
proof (induction a arbitrary: b)
  case Nil
  then show ?case by (cases b) auto
next
  case (Cons c a)
  then show ?case by (cases b) auto
qed

definition pad_to :: "nat \<Rightarrow> bytes \<Rightarrow> bytes" where
  "pad_to n bs = take n (bs @ replicate n 0)"

definition demo_crypto :: crypto where
  "demo_crypto = \<lparr>
     aes_gcm_encrypt = (\<lambda>k iv aad m. frame k @ frame iv @ frame aad @ m),
     aes_gcm_decrypt = (\<lambda>k iv aad c. strip_prefix (frame k @ frame iv @ frame aad) c),
     hmac_digest = (\<lambda>h k m. frame k @ m),
     sha256 = pad_to 32,
     sha512 = pad_to 64,
     hkdf_sha256 = (\<lambda>ikm salt info n. pad_to n (rev info @ ikm @ salt)),
     argon2id = (\<lambda>p s t m l n. if t < 1 \<or> l < 1 then None else Some (pad_to n (p @ s))),
     ed25519_getPublicKey = pad_to 32,
     ed25519_sign = (\<lambda>m sk. frame (pad_to 32 sk) @ m),
     ed25519_verify = (\<lambda>s m pk. Some (s = frame pk @ m)),
     rsa_oaep_encrypt = (\<lambda>pk r m. Some (frame pk @ m)),
     rsa_oaep_decrypt = (\<lambda>sk c. strip_prefix (frame sk) c),
     rsa_spki_valid = (\<lambda>pk. True),
     rsa_spki_of_pkcs8 = (\<lambda>sk. Some sk)\<rparr>"

lemma demo_aead_correct: "aead_correct demo_crypto"
  by (simp add: aead_correct_def demo_crypto_def strip_prefix_iff)

lemma demo_aead_authentic: "aead_authentic demo_crypto"
  by (simp add: aead_authentic_def demo_crypto_def strip_prefix_iff)

lemma demo_aead_expands: "aead_expands demo_crypto"
  by (simp add: aead_expands_def demo_crypto_def frame_def)

lemma demo_aead_binds: "aead_binds demo_crypto"
proof -
  have "strip_prefix (frame k @ frame iv' @ frame aad') (frame k @ frame iv @ frame aad @ m) = None"
    if "aad \<noteq> aad'" for k iv iv' aad aad' m
  proof (cases "strip_prefix (frame k @ frame iv' @ frame aad') (frame k @ frame iv @ frame aad @ m)")
    case (Some z)
    then show ?thesis using that by (auto simp: strip_prefix_iff frame_prefix_free)
  qed simp
  then show ?thesis by (simp add: aead_binds_def demo_crypto_def)
qed

lemma length_pad_to [simp]: "length (pad_to n bs) = n"
  by (simp add: pad_to_def)

lemma demo_lengths:
  "hkdf_lengths demo_crypto" "sha256_lengths demo_crypto" "sha512_lengths demo_crypto"
  by (simp_all add: hkdf_lengths_def sha256_lengths_def sha512_lengths_def demo_crypto_def)

definition demo_aes_key :: "byte \<Rightarrow> CryptoKey" where
  "demo_aes_key b = \<lparr>ck_algorithm = AesGcm, ck_material = replicate 32 b, ck_extractable = False,
     ck_usages = [UseEncrypt, UseDecrypt]\<rparr>"

definition demo_mac_key :: "byte \<Rightarrow> CryptoKey" where
  "demo_mac_key b = \<lparr>ck_algorithm = Hmac ''SHA-256'', ck_material = replicate 32 b,
     ck_extractable = False, ck_usages = [UseSign, UseVerify]\<rparr>"

lemma demo_keys_ok [simp]: "aes_key_ok (demo_aes_key b)" "mac_key_ok (demo_mac_key b)"
  by (simp_all add: aes_key_ok_def mac_key_ok_def ck_allows_def demo_aes_key_def demo_mac_key_def)

end
