(* ===== verification/Kdf.thy ===== *)
theory Kdf
  imports Web_Crypto
begin

text \<open>
  Key derivation, \<open>packages/crypto/src/kdf.ts\<close>: the master key from the password (Argon2id with
  a salt made from the email), the subkeys stretched from it (HKDF) and the email hash the server
  knows an account by.
\<close>

definition deriveMasterKey :: "crypto \<Rightarrow> string \<Rightarrow> string \<Rightarrow> KdfParams \<Rightarrow> bytes js" where
  "deriveMasterKey C masterPassword email params =
     (let salt = sha256 C (utf8_encode (''nopass-v1-kdf:'' @ toLowerCase email)) in
      of_option (JsError ''argon2id'')
        (argon2id C (utf8_encode masterPassword) salt
           (kp_iterations params) (kp_memoryKib params) (kp_parallelism params) 32))"

record DerivedKeys =
  dk_stretchedMasterKey :: CryptoKey
  dk_vaultEncKey :: CryptoKey
  dk_vaultMacKey :: CryptoKey

definition hkdf_subkey :: "crypto \<Rightarrow> bytes \<Rightarrow> string \<Rightarrow> string \<Rightarrow> bytes" where
  "hkdf_subkey C masterKey email info =
     hkdf_sha256 C masterKey (utf8_encode (toLowerCase email)) (utf8_encode info) 32"

definition stretchMasterKey :: "crypto \<Rightarrow> bytes \<Rightarrow> string \<Rightarrow> DerivedKeys js" where
  "stretchMasterKey C masterKey email =
     (let smkBytes = hkdf_subkey C masterKey email ''nopass-v1-smk'';
          encKeyBytes = hkdf_subkey C masterKey email ''nopass-v1-enc'';
          macKeyBytes = hkdf_subkey C masterKey email ''nopass-v1-mac'' in
      rbind (subtle_importRawAes smkBytes False [UseEncrypt, UseDecrypt]) (\<lambda>stretchedMasterKey.
      rbind (subtle_importRawAes encKeyBytes False [UseEncrypt, UseDecrypt]) (\<lambda>vaultEncKey.
      rbind (subtle_importRawHmac ''SHA-256'' macKeyBytes [UseSign, UseVerify]) (\<lambda>vaultMacKey.
      Inr \<lparr>dk_stretchedMasterKey = stretchedMasterKey, dk_vaultEncKey = vaultEncKey,
            dk_vaultMacKey = vaultMacKey\<rparr>))))"

definition stretchMasterKeyRaw :: "crypto \<Rightarrow> bytes \<Rightarrow> string \<Rightarrow> bytes \<times> bytes" where
  "stretchMasterKeyRaw C masterKey email =
     (hkdf_subkey C masterKey email ''nopass-v1-enc'', hkdf_subkey C masterKey email ''nopass-v1-mac'')"

record RawSubkeys =
  rs_smkBytes :: bytes
  rs_encKeyBytes :: bytes
  rs_macKeyBytes :: bytes

definition stretchMasterKeyAllRaw :: "crypto \<Rightarrow> bytes \<Rightarrow> string \<Rightarrow> RawSubkeys" where
  "stretchMasterKeyAllRaw C masterKey email =
     \<lparr>rs_smkBytes = hkdf_subkey C masterKey email ''nopass-v1-smk'',
      rs_encKeyBytes = hkdf_subkey C masterKey email ''nopass-v1-enc'',
      rs_macKeyBytes = hkdf_subkey C masterKey email ''nopass-v1-mac''\<rparr>"

definition computeEmailHash :: "crypto \<Rightarrow> string \<Rightarrow> string" where
  "computeEmailHash C email =
     bytesToHex (sha256 C (utf8_encode (''nopass-v1-email:'' @ toLowerCase email)))"

section \<open>Lemmas\<close>

text \<open>Every derivation sees the email only in lower case.\<close>

lemma deriveMasterKey_case: "deriveMasterKey C pw (toLowerCase email) ps = deriveMasterKey C pw email ps"
  by (simp add: deriveMasterKey_def)

lemma computeEmailHash_case: "computeEmailHash C (toLowerCase email) = computeEmailHash C email"
  by (simp add: computeEmailHash_def)

lemma hkdf_subkey_case [simp]: "hkdf_subkey C mk (toLowerCase email) info = hkdf_subkey C mk email info"
  by (simp add: hkdf_subkey_def)

lemma length_hkdf_subkey: "hkdf_lengths C \<Longrightarrow> length (hkdf_subkey C mk email info) = 32"
  by (simp add: hkdf_subkey_def hkdf_lengths_def)

lemma stretchMasterKey_keys:
  assumes "hkdf_lengths C"
  shows "\<exists>ks. stretchMasterKey C mk email = Inr ks \<and>
    aes_key_ok (dk_stretchedMasterKey ks) \<and> aes_key_ok (dk_vaultEncKey ks) \<and> mac_key_ok (dk_vaultMacKey ks) \<and>
    ck_material (dk_stretchedMasterKey ks) = rs_smkBytes (stretchMasterKeyAllRaw C mk email) \<and>
    (ck_material (dk_vaultEncKey ks), ck_material (dk_vaultMacKey ks)) = stretchMasterKeyRaw C mk email"
proof -
  have "length (hkdf_subkey C mk email i) = 32" for i using assms by (rule length_hkdf_subkey)
  moreover from this have "hkdf_subkey C mk email i \<noteq> []" for i by (metis length_0_conv numeral_eq_iff zero_neq_numeral)
  ultimately show ?thesis
    by (simp add: stretchMasterKey_def Let_def subtle_defs aes_key_ok_def mac_key_ok_def ck_allows_def
        stretchMasterKeyRaw_def stretchMasterKeyAllRaw_def)
qed

end
