(* ===== verification/Recovery.thy ===== *)
theory Recovery
  imports Kdf
begin

text \<open>
  The recovery kit, \<open>packages/crypto/src/recovery.ts\<close>: the recovery code (160 random bits in
  Crockford base32, produced with a 32-bit accumulator), its normalization, the keys derived from it
  and the wrapping of the vault subkeys.
\<close>

unbundle bit_operations_syntax

definition RECOVERY_KDF_PARAMS :: KdfParams where
  "RECOVERY_KDF_PARAMS =
     \<lparr>kp_type = ''argon2id'', kp_memoryKib = 65536, kp_iterations = 3, kp_parallelism = 4\<rparr>"

definition ALPHABET :: string where
  "ALPHABET = ''0123456789ABCDEFGHJKMNPQRSTVWXYZ''"

section \<open>Recovery codes\<close>

text \<open>
  \<open>acc\<close> is JavaScript's 32-bit integer: \<open>(acc << 8) | byte\<close> drops the high bits, and
  \<open>acc >>> bits\<close> is the unsigned shift.
\<close>

fun code_emit :: "nat \<Rightarrow> 32 word \<Rightarrow> string \<Rightarrow> nat \<times> string" where
  "code_emit bits acc out =
     (if bits \<ge> 5 then
        code_emit (bits - 5) acc (out @ [ALPHABET ! unat (drop_bit (bits - 5) acc AND 31)])
      else (bits, out))"

declare code_emit.simps [simp del]

fun code_bytes :: "32 word \<Rightarrow> nat \<Rightarrow> string \<Rightarrow> bytes \<Rightarrow> string" where
  "code_bytes acc bits out [] = out"
| "code_bytes acc bits out (b # bs) =
     (let acc' = push_bit 8 acc OR ucast b;
          (bits', out') = code_emit (bits + 8) acc' out
      in code_bytes acc' bits' out' bs)"

text \<open>\<open>match(/.{4}/g)\<close>: consecutive groups of four, a shorter rest is dropped.\<close>

fun groups4 :: "string \<Rightarrow> string list" where
  "groups4 (a # b # c # d # s) = [a, b, c, d] # groups4 s"
| "groups4 _ = []"

definition generateRecoveryCode :: "bytes \<Rightarrow> string" where
  "generateRecoveryCode bytes = js_join ''-'' (groups4 (code_bytes 0 0 [] bytes))"

definition replace_char :: "(char \<Rightarrow> bool) \<Rightarrow> char \<Rightarrow> string \<Rightarrow> string" where
  "replace_char p d s = map (\<lambda>c. if p c then d else c) s"

definition normalizeRecoveryCode :: "string \<Rightarrow> string" where
  "normalizeRecoveryCode c =
     replace_char (\<lambda>x. x = CHR ''U'') CHR ''V''
       (replace_char (\<lambda>x. x = CHR ''I'' \<or> x = CHR ''L'') CHR ''1''
         (replace_char (\<lambda>x. x = CHR ''O'') CHR ''0''
           (filter (\<lambda>x. \<not> (js_space x \<or> x = CHR ''-'')) (toUpperCase c))))"

section \<open>Keys\<close>

record RecoveryKeys =
  rk_authKeyB64 :: string
  rk_wrapKey :: CryptoKey

definition deriveRecoveryKeys :: "crypto \<Rightarrow> string \<Rightarrow> string \<Rightarrow> KdfParams \<Rightarrow> RecoveryKeys js" where
  "deriveRecoveryKeys C recoveryCode email params =
     (let normalized = normalizeRecoveryCode recoveryCode;
          salt = sha256 C (utf8_encode (''nopass-v1-recovery:'' @ toLowerCase email)) in
      rbind (of_option (JsError ''argon2id'')
               (argon2id C (utf8_encode normalized) salt
                  (kp_iterations params) (kp_memoryKib params) (kp_parallelism params) 32)) (\<lambda>recoveryKey.
      let authBytes = hkdf_subkey C recoveryKey email ''nopass-v1-recovery-auth'';
          wrapBytes = hkdf_subkey C recoveryKey email ''nopass-v1-recovery-wrap'' in
      rbind (subtle_importRawAes wrapBytes False [UseEncrypt, UseDecrypt]) (\<lambda>wrapKey.
      Inr \<lparr>rk_authKeyB64 = toBase64 authBytes, rk_wrapKey = wrapKey\<rparr>)))"

text \<open>\<open>VaultSubkeys\<close> has the three fields of \<open>RawSubkeys\<close>.\<close>

definition wrapVaultSubkeys :: "crypto \<Rightarrow> bytes \<Rightarrow> RawSubkeys \<Rightarrow> CryptoKey \<Rightarrow> EncryptedBlob js" where
  "wrapVaultSubkeys C iv subkeys wrapKey =
     rbind (ta_set (ta_new 96) (rs_smkBytes subkeys) 0) (\<lambda>c0.
     rbind (ta_set c0 (rs_encKeyBytes subkeys) 32) (\<lambda>c1.
     rbind (ta_set c1 (rs_macKeyBytes subkeys) 64) (\<lambda>c2.
     encryptBytes C iv c2 wrapKey)))"

definition unwrapVaultSubkeys :: "crypto \<Rightarrow> EncryptedBlob \<Rightarrow> CryptoKey \<Rightarrow> RawSubkeys js" where
  "unwrapVaultSubkeys C blob wrapKey =
     rbind (decryptBytes C blob wrapKey) (\<lambda>bs.
     if length bs \<noteq> 96 then Inl (JsError ''recovery blob has unexpected length'')
     else Inr \<lparr>rs_smkBytes = ta_slice 0 32 bs, rs_encKeyBytes = ta_slice 32 64 bs,
               rs_macKeyBytes = ta_slice 64 96 bs\<rparr>)"

section \<open>The code is the base-32 numeral of its bytes\<close>

fun b32_digits :: "nat \<Rightarrow> nat \<Rightarrow> nat list" where
  "b32_digits 0 v = []"
| "b32_digits (Suc n) v = b32_digits n (v div 32) @ [v mod 32]"

definition b32_char :: "nat \<Rightarrow> char" where
  "b32_char d = ALPHABET ! d"

lemma b32_digits_less: "\<forall>d \<in> set (b32_digits n v). d < 32"
  by (induction n arbitrary: v) auto

lemma length_b32_digits [simp]: "length (b32_digits n v) = n"
  by (induction n arbitrary: v) auto

lemma b32_digits_inj:
  "v < 32 ^ n \<Longrightarrow> w < 32 ^ n \<Longrightarrow> b32_digits n v = b32_digits n w \<Longrightarrow> v = w"
proof (induction n arbitrary: v w)
  case (Suc n)
  then have "v div 32 = w div 32" "v mod 32 = w mod 32"
    by (auto simp: less_mult_imp_div_less mult.commute)
  then show ?case by (metis mult_div_mod_eq)
qed simp

lemma alphabet_length: "length ALPHABET = 32"
  by (simp add: ALPHABET_def)

lemma alphabet_distinct: "distinct ALPHABET"
  by (simp add: ALPHABET_def)

lemma b32_char_inj: "a < 32 \<Longrightarrow> b < 32 \<Longrightarrow> b32_char a = b32_char b \<longleftrightarrow> a = b"
  by (simp add: b32_char_def nth_eq_iff_index_eq [OF alphabet_distinct] alphabet_length)

lemma b32_char_in: "d < 32 \<Longrightarrow> b32_char d \<in> set ALPHABET"
  by (simp add: b32_char_def alphabet_length)

lemma map_b32_inj:
  assumes "\<forall>d \<in> set xs. d < 32" "\<forall>d \<in> set ys. d < 32" "map b32_char xs = map b32_char ys"
  shows "xs = ys"
proof (rule map_inj_on [OF assms(3)])
  show "inj_on b32_char (set xs \<union> set ys)" using assms(1,2) by (auto intro!: inj_onI simp: b32_char_inj)
qed

lemma acc_step:
  "unat (push_bit 8 (acc :: 32 word) OR ucast (b :: byte)) = (unat acc * 256 + unat b) mod 2 ^ 32"
proof -
  have disj: "push_bit 8 acc AND ucast b = 0"
    by (rule bit_word_eqI) (auto simp: bit_simps dest: bit_imp_le_length)
  have "push_bit 8 acc OR ucast b = push_bit 8 acc + ucast b"
    by (simp add: disj disjunctive_add_eq_or)
  then have "push_bit 8 acc OR ucast b = (of_nat (unat acc * 256 + unat b) :: 32 word)"
    by (simp add: push_bit_eq_mult mult.commute unsigned_ucast_eq)
  then have "unat (push_bit 8 acc OR ucast b) = unat (of_nat (unat acc * 256 + unat b) :: 32 word)"
    by (rule arg_cong)
  then show ?thesis by (simp only: unat_of_nat) simp
qed

lemma digit_of_acc:
  assumes "unat (acc :: 32 word) = V mod 2 ^ 32" "k + 5 \<le> 32"
  shows "unat (drop_bit k acc AND 31) = (V div 2 ^ k) mod 32"
proof -
  have "drop_bit k acc AND 31 = take_bit 5 (drop_bit k acc)"
    by (simp add: take_bit_eq_mask mask_numeral)
  then have "unat (drop_bit k acc AND 31) = take_bit 5 (drop_bit k (take_bit 32 (unat acc)))"
    by (simp add: unsigned_take_bit_eq unsigned_drop_bit_eq)
  also have "\<dots> = take_bit 5 (drop_bit k (unat acc))"
    using assms(2) by (simp add: drop_bit_take_bit)
  also have "\<dots> = take_bit 5 (drop_bit k (take_bit 32 V))"
    using assms(1) by (simp add: take_bit_eq_mod)
  also have "\<dots> = take_bit 5 (drop_bit k V)"
    using assms(2) by (simp add: drop_bit_take_bit)
  finally show ?thesis by (simp add: take_bit_eq_mod drop_bit_eq_div)
qed

lemma code_emit_digits:
  assumes "unat acc = V mod 2 ^ 32" "bits \<le> 32" "out = map b32_char (b32_digits n (V div 2 ^ bits))"
  shows "code_emit bits acc out =
    (bits mod 5, map b32_char (b32_digits (n + bits div 5) (V div 2 ^ (bits mod 5))))"
  using assms
proof (induction bits acc out arbitrary: n rule: code_emit.induct)
  case (1 bits acc out)
  show ?case
  proof (cases "bits \<ge> 5")
    case True
    have d: "unat (drop_bit (bits - 5) acc AND 31) = (V div 2 ^ (bits - 5)) mod 32"
      using True "1.prems" by (intro digit_of_acc) auto
    have "V div 2 ^ (bits - 5) div 32 = V div 2 ^ bits"
    proof -
      have "(2::nat) ^ bits = 2 ^ (bits - 5) * 2 ^ 5" using True by (metis le_add_diff_inverse2 power_add)
      then show ?thesis by (simp add: div_mult2_eq)
    qed
    then have "out @ [ALPHABET ! unat (drop_bit (bits - 5) acc AND 31)] =
        map b32_char (b32_digits (Suc n) (V div 2 ^ (bits - 5)))"
      using "1.prems"(3) d by (simp add: b32_char_def)
    then have "code_emit (bits - 5) acc (out @ [ALPHABET ! unat (drop_bit (bits - 5) acc AND 31)]) =
        ((bits - 5) mod 5, map b32_char (b32_digits (Suc n + (bits - 5) div 5) (V div 2 ^ ((bits - 5) mod 5))))"
      using "1.IH" [OF True "1.prems"(1), of "Suc n"] "1.prems"(2) by simp
    moreover have "(bits - 5) mod 5 = bits mod 5" "Suc n + (bits - 5) div 5 = n + bits div 5"
      using True by (simp_all add: le_mod_geq le_div_geq)
    ultimately show ?thesis using True by (simp only: code_emit.simps [of bits] if_True)
  next
    case False
    then show ?thesis using "1.prems" by (subst code_emit.simps) simp
  qed
qed

lemma be_val_Cons_acc: "be_val (bs @ [b]) = be_val bs * 256 + unat b"
  by simp

lemma code_bytes_digits:
  assumes "unat acc = be_val seen mod 2 ^ 32" "bits < 5" "8 * length seen = 5 * n + bits"
    "out = map b32_char (b32_digits n (be_val seen div 2 ^ bits))"
  shows "\<exists>m r. code_bytes acc bits out bs = map b32_char (b32_digits m (be_val (seen @ bs) div 2 ^ r)) \<and>
     r < 5 \<and> 8 * length (seen @ bs) = 5 * m + r"
  using assms
proof (induction bs arbitrary: acc bits out seen n)
  case Nil
  then show ?case by auto
next
  case (Cons b bs)
  let ?acc = "push_bit 8 acc OR ucast b" and ?V = "be_val (seen @ [b])"
  have a: "unat ?acc = ?V mod 2 ^ 32"
    unfolding acc_step Cons.prems(1) be_val_snoc by (metis mod_add_left_eq mod_mult_left_eq)
  have "?V div 2 ^ (bits + 8) = be_val seen div 2 ^ bits"
  proof -
    have "?V div 256 = be_val seen" by simp
    moreover have "?V div 2 ^ (bits + 8) = ?V div 256 div 2 ^ bits"
      by (simp only: div_mult2_eq [symmetric]) (simp add: power_add mult.commute)
    ultimately show ?thesis by simp
  qed
  with Cons.prems have out: "out = map b32_char (b32_digits n (?V div 2 ^ (bits + 8)))" by simp
  have e: "code_emit (bits + 8) ?acc out =
      ((bits + 8) mod 5, map b32_char (b32_digits (n + (bits + 8) div 5) (?V div 2 ^ ((bits + 8) mod 5))))"
    using Cons.prems(2) by (intro code_emit_digits [OF a _ out]) simp
  have "8 * length (seen @ [b]) = 5 * (n + (bits + 8) div 5) + (bits + 8) mod 5"
    using Cons.prems(3) by simp
  from Cons.IH [OF a _ this refl] show ?case by (simp add: e Let_def)
qed

lemma code_bytes_b32:
  assumes "length bs = 20"
  shows "code_bytes 0 0 [] bs = map b32_char (b32_digits 32 (be_val bs))"
proof -
  obtain m r where "code_bytes 0 0 [] bs = map b32_char (b32_digits m (be_val bs div 2 ^ r))" "r < 5"
      "8 * length bs = 5 * m + r"
    using code_bytes_digits [of 0 "[]" 0 0 "[]" bs] by auto
  moreover from this assms have "m = 32" "r = 0" by presburger+
  ultimately show ?thesis by simp
qed

section \<open>Shape and normalization\<close>

lemma groups4_digits:
  "length s = 4 * n \<Longrightarrow> length (groups4 s) = n \<and> (\<forall>g \<in> set (groups4 s). length g = 4) \<and> concat (groups4 s) = s"
proof (induction s arbitrary: n rule: groups4.induct)
  case (1 a b c d s)
  then obtain m where "n = Suc m" by (cases n) auto
  then show ?case using 1 by auto
qed (auto, presburger+)

lemma filter_js_join:
  "\<forall>g \<in> set gs. \<forall>c \<in> set g. P c \<Longrightarrow> \<not> P d \<Longrightarrow> filter P (js_join [d] gs) = concat gs"
  by (induction "[d]" gs rule: js_join.induct) (auto simp: filter_id_conv)

lemma length_js_join: "length (js_join sep gs) = length (concat gs) + length sep * (length gs - 1)"
  by (induction sep gs rule: js_join.induct) auto

text \<open>What a character of the alphabet looks like to the normalization.\<close>

lemma alphabet_char:
  assumes "c \<in> set ALPHABET"
  shows "js_upper_char c = [c]" "js_upper_char (js_lower_char c) = [c]" "\<not> js_space c" "c \<noteq> CHR ''-''"
    "c \<noteq> CHR ''O''" "c \<noteq> CHR ''I''" "c \<noteq> CHR ''L''" "c \<noteq> CHR ''U''"
proof -
  have "list_all (\<lambda>c. js_upper_char c = [c] \<and> js_upper_char (js_lower_char c) = [c] \<and> \<not> js_space c \<and> c \<noteq> CHR ''-'' \<and>
    c \<noteq> CHR ''O'' \<and> c \<noteq> CHR ''I'' \<and> c \<noteq> CHR ''L'' \<and> c \<noteq> CHR ''U'') ALPHABET"
    by code_simp
  with assms show "js_upper_char c = [c]" "js_upper_char (js_lower_char c) = [c]" "\<not> js_space c" "c \<noteq> CHR ''-''"
    "c \<noteq> CHR ''O''" "c \<noteq> CHR ''I''" "c \<noteq> CHR ''L''" "c \<noteq> CHR ''U''"
    by (auto simp: list_all_iff)
qed

definition code_alphabet :: "char set" where
  "code_alphabet = insert CHR ''-'' (set ALPHABET)"

lemma toUpperCase_code: "set s \<subseteq> code_alphabet \<Longrightarrow> toUpperCase s = s \<and> toUpperCase (toLowerCase s) = s"
proof (induction s)
  case (Cons c s)
  have "js_upper_char CHR ''-'' = ''-''" "js_upper_char (js_lower_char CHR ''-'') = ''-''" by code_simp+
  then show ?case
    using Cons alphabet_char(1,2) [of c]
    by (auto simp: toUpperCase_def toLowerCase_def code_alphabet_def)
qed (simp add: toUpperCase_def toLowerCase_def)

lemma normalize_code:
  assumes "set s \<subseteq> code_alphabet"
  shows "normalizeRecoveryCode s = filter (\<lambda>c. c \<noteq> CHR ''-'') s"
    "normalizeRecoveryCode (toLowerCase s) = filter (\<lambda>c. c \<noteq> CHR ''-'') s"
proof -
  have "filter (\<lambda>x. \<not> (js_space x \<or> x = CHR ''-'')) s = filter (\<lambda>c. c \<noteq> CHR ''-'') s"
    using assms alphabet_char(3) by (intro filter_cong) (auto simp: code_alphabet_def)
  moreover have "replace_char p d t = t" if "\<forall>c \<in> set ALPHABET. \<not> p c" "set t \<subseteq> set ALPHABET" for p d t
    using that by (induction t) (auto simp: replace_char_def)
  moreover have "set (filter (\<lambda>c. c \<noteq> CHR ''-'') s) \<subseteq> set ALPHABET"
    using assms by (auto simp: code_alphabet_def)
  moreover have "\<forall>c \<in> set ALPHABET. \<not> c = CHR ''O''" "\<forall>c \<in> set ALPHABET. \<not> (c = CHR ''I'' \<or> c = CHR ''L'')"
    "\<forall>c \<in> set ALPHABET. \<not> c = CHR ''U''" using alphabet_char by blast+
  ultimately show "normalizeRecoveryCode s = filter (\<lambda>c. c \<noteq> CHR ''-'') s"
    "normalizeRecoveryCode (toLowerCase s) = filter (\<lambda>c. c \<noteq> CHR ''-'') s"
    using toUpperCase_code [OF assms] by (simp_all add: normalizeRecoveryCode_def)
qed

lemma generated_code:
  assumes "length bs = 20"
  defines "ds \<equiv> map b32_char (b32_digits 32 (be_val bs))"
  shows "generateRecoveryCode bs = js_join ''-'' (groups4 ds)" "set ds \<subseteq> set ALPHABET"
    "length (groups4 ds) = 8" "\<forall>g \<in> set (groups4 ds). length g = 4" "concat (groups4 ds) = ds"
    "set (generateRecoveryCode bs) \<subseteq> code_alphabet" "filter (\<lambda>c. c \<noteq> CHR ''-'') (generateRecoveryCode bs) = ds"
proof -
  show g: "generateRecoveryCode bs = js_join ''-'' (groups4 ds)"
    by (simp add: generateRecoveryCode_def code_bytes_b32 [OF assms(1)] ds_def)
  show s: "set ds \<subseteq> set ALPHABET" using b32_digits_less by (auto simp: ds_def intro!: b32_char_in)
  have "length ds = 4 * 8" by (simp add: ds_def)
  note gr = groups4_digits [OF this]
  then show "length (groups4 ds) = 8" "\<forall>g \<in> set (groups4 ds). length g = 4" and c: "concat (groups4 ds) = ds"
    by auto
  have al: "\<forall>g \<in> set (groups4 ds). \<forall>c \<in> set g. c \<in> set ALPHABET"
    using s c by (metis UN_I set_concat subset_iff)
  have "set (js_join ''-'' gs) \<subseteq> insert CHR ''-'' (\<Union>(set ` set gs))" for gs
    by (induction "''-''" gs rule: js_join.induct) auto
  with al show "set (generateRecoveryCode bs) \<subseteq> code_alphabet"
    unfolding g code_alphabet_def by fastforce
  show "filter (\<lambda>c. c \<noteq> CHR ''-'') (generateRecoveryCode bs) = ds"
    unfolding g using al alphabet_char(4) c by (subst filter_js_join) auto
qed

lemma be_val_bound20: "length bs = 20 \<Longrightarrow> be_val bs < 32 ^ 32"
  using be_val_less [of bs] by simp

lemma code_determines_bytes:
  assumes "length bs = 20" "length bs' = 20"
    "filter (\<lambda>c. c \<noteq> CHR ''-'') (generateRecoveryCode bs) = filter (\<lambda>c. c \<noteq> CHR ''-'') (generateRecoveryCode bs')"
  shows "bs = bs'"
proof -
  have "map b32_char (b32_digits 32 (be_val bs)) = map b32_char (b32_digits 32 (be_val bs'))"
    using assms generated_code(7) by metis
  then have "b32_digits 32 (be_val bs) = b32_digits 32 (be_val bs')"
    by (intro map_b32_inj) (simp_all add: b32_digits_less)
  then have "be_val bs = be_val bs'" using b32_digits_inj be_val_bound20 assms(1,2) by blast
  then show ?thesis using be_bytes_val assms(1,2) by metis
qed

lemma length_filter_js_join_dash:
  "length (js_join ''-'' gs) = length (concat gs) + (length gs - 1)"
  by (simp add: length_js_join)

section \<open>Wrapping\<close>

definition subkeys_ok :: "RawSubkeys \<Rightarrow> bool" where
  "subkeys_ok k \<longleftrightarrow> length (rs_smkBytes k) = 32 \<and> length (rs_encKeyBytes k) = 32 \<and> length (rs_macKeyBytes k) = 32"

lemma wrapVaultSubkeys_eq:
  assumes "subkeys_ok k"
  shows "wrapVaultSubkeys C iv k wk = encryptBytes C iv (rs_smkBytes k @ rs_encKeyBytes k @ rs_macKeyBytes k) wk"
  using assms by (simp add: wrapVaultSubkeys_def ta_set_def ta_new_def subkeys_ok_def)

lemma unwrap_wrapVaultSubkeys:
  assumes "aead_correct C" "ck_allows wk AesGcm UseDecrypt" "subkeys_ok k" "wrapVaultSubkeys C iv k wk = Inr b"
  shows "unwrapVaultSubkeys C b wk = Inr k"
proof -
  have "decryptBytes C b wk = Inr (rs_smkBytes k @ rs_encKeyBytes k @ rs_macKeyBytes k)"
    using assms wrapVaultSubkeys_eq [OF assms(3)] by (auto intro: decryptBytes_encryptBytes)
  then show ?thesis using assms(3) by (simp add: unwrapVaultSubkeys_def ta_slice_def subkeys_ok_def)
qed

lemma unwrapVaultSubkeys_ok: "unwrapVaultSubkeys C b wk = Inr k \<Longrightarrow> subkeys_ok k"
  by (auto simp: unwrapVaultSubkeys_def rbind_eq_Inr subkeys_ok_def ta_slice_def split: if_splits)

lemma deriveRecoveryKeys_code:
  "normalizeRecoveryCode c = normalizeRecoveryCode c' \<Longrightarrow>
   deriveRecoveryKeys C c email ps = deriveRecoveryKeys C c' email ps"
  by (simp add: deriveRecoveryKeys_def)

lemma deriveRecoveryKeys_typed:
  assumes "length bs = 20"
  shows "deriveRecoveryKeys C (toLowerCase (generateRecoveryCode bs)) (toLowerCase email) ps =
    deriveRecoveryKeys C (generateRecoveryCode bs) email ps"
proof -
  have "normalizeRecoveryCode (toLowerCase (generateRecoveryCode bs)) = normalizeRecoveryCode (generateRecoveryCode bs)"
    using normalize_code generated_code(6) [OF assms] by simp
  then show ?thesis by (simp add: deriveRecoveryKeys_def)
qed

lemma deriveRecoveryKeys_wrapKey:
  assumes "deriveRecoveryKeys C c email ps = Inr ks"
  shows "aes_key_ok (rk_wrapKey ks)"
  using assms by (auto simp: deriveRecoveryKeys_def Let_def rbind_eq_Inr importRawAes_key aes_key_ok_def ck_allows_def)

section \<open>Theorems\<close>

text \<open>
  A recovery code made from 20 random bytes is eight groups of four characters of the alphabet
  joined by dashes, and loses nothing of its 160 bits although the accumulator has only 32: two codes
  that normalize to the same text come from the same bytes. Typing it in lower case makes no
  difference to the keys derived from it.
\<close>

theorem recovery_code_faithful:
  assumes "length bs = 20" "length bs' = 20"
  shows "(\<exists>gs. generateRecoveryCode bs = js_join ''-'' gs \<and> length gs = 8 \<and>
            (\<forall>g \<in> set gs. length g = 4 \<and> set g \<subseteq> set ALPHABET)) \<and>
    (normalizeRecoveryCode (generateRecoveryCode bs) = normalizeRecoveryCode (generateRecoveryCode bs') \<longrightarrow> bs = bs') \<and>
    deriveRecoveryKeys C (toLowerCase (generateRecoveryCode bs)) email ps =
      deriveRecoveryKeys C (generateRecoveryCode bs) email ps"
proof (intro conjI)
  let ?ds = "map b32_char (b32_digits 32 (be_val bs))"
  note g = generated_code [OF assms(1)]
  have "\<forall>g \<in> set (groups4 ?ds). set g \<subseteq> set ALPHABET" using g(2,5) by (metis UN_upper order_trans set_concat)
  then show "\<exists>gs. generateRecoveryCode bs = js_join ''-'' gs \<and> length gs = 8 \<and>
            (\<forall>g \<in> set gs. length g = 4 \<and> set g \<subseteq> set ALPHABET)"
    using g(1,3,4) by blast
  show "normalizeRecoveryCode (generateRecoveryCode bs) = normalizeRecoveryCode (generateRecoveryCode bs') \<longrightarrow> bs = bs'"
    using normalize_code(1) generated_code(6) code_determines_bytes assms by metis
  show "deriveRecoveryKeys C (toLowerCase (generateRecoveryCode bs)) email ps =
      deriveRecoveryKeys C (generateRecoveryCode bs) email ps"
    using normalize_code [OF g(6)] by (intro deriveRecoveryKeys_code) simp
qed

theorem recovery_code_faithful_witness:
  "normalizeRecoveryCode (generateRecoveryCode (replicate 20 7)) \<noteq>
   normalizeRecoveryCode (generateRecoveryCode (replicate 20 8))"
  using recovery_code_faithful [of "replicate 20 7" "replicate 20 8"] by auto

text \<open>
  The recovery blob opens, with the keys derived again from the same code (in either letter case)
  and email, to exactly the three subkeys it was made from; and whatever unwrapping returns has three
  keys of 32 bytes.
\<close>

theorem recovery_kit_roundtrip:
  assumes "aead_correct C" "subkeys_ok k" "length bs = 20"
    and "deriveRecoveryKeys C (generateRecoveryCode bs) email ps = Inr ks" "wrapVaultSubkeys C iv k (rk_wrapKey ks) = Inr b"
    and "deriveRecoveryKeys C (toLowerCase (generateRecoveryCode bs)) (toLowerCase email) ps = Inr ks'"
  shows "unwrapVaultSubkeys C b (rk_wrapKey ks') = Inr k \<and>
    (\<forall>b' k'. unwrapVaultSubkeys C b' (rk_wrapKey ks') = Inr k' \<longrightarrow> subkeys_ok k')"
proof -
  have "ks' = ks" using assms(4,6) deriveRecoveryKeys_typed [OF assms(3)] by simp
  moreover have "ck_allows (rk_wrapKey ks) AesGcm UseDecrypt"
    using deriveRecoveryKeys_wrapKey [OF assms(4)] by (simp add: aes_key_ok_def)
  ultimately show ?thesis
    using unwrap_wrapVaultSubkeys [OF assms(1) _ assms(2,5)] unwrapVaultSubkeys_ok by blast
qed

definition demo_subkeys :: RawSubkeys where
  "demo_subkeys = \<lparr>rs_smkBytes = replicate 32 1, rs_encKeyBytes = replicate 32 2, rs_macKeyBytes = replicate 32 3\<rparr>"

lemma demo_deriveRecoveryKeys: "\<exists>ks. deriveRecoveryKeys demo_crypto c email RECOVERY_KDF_PARAMS = Inr ks"
  by (simp add: deriveRecoveryKeys_def Let_def demo_crypto_def RECOVERY_KDF_PARAMS_def hkdf_subkey_def subtle_importRawAes_def)

theorem recovery_kit_roundtrip_witness:
  "\<exists>ks b. deriveRecoveryKeys demo_crypto (generateRecoveryCode (replicate 20 7)) ''A@b'' RECOVERY_KDF_PARAMS = Inr ks \<and>
     wrapVaultSubkeys demo_crypto (replicate 12 0) demo_subkeys (rk_wrapKey ks) = Inr b \<and>
     unwrapVaultSubkeys demo_crypto b (rk_wrapKey ks) = Inr demo_subkeys"
proof -
  let ?c = "generateRecoveryCode (replicate 20 7)"
  obtain ks where ks: "deriveRecoveryKeys demo_crypto ?c ''A@b'' RECOVERY_KDF_PARAMS = Inr ks"
    using demo_deriveRecoveryKeys by blast
  obtain ks' where ks': "deriveRecoveryKeys demo_crypto (toLowerCase ?c) (toLowerCase ''A@b'') RECOVERY_KDF_PARAMS = Inr ks'"
    using demo_deriveRecoveryKeys by blast
  have sk: "subkeys_ok demo_subkeys" by (simp add: subkeys_ok_def demo_subkeys_def)
  obtain b where b: "wrapVaultSubkeys demo_crypto (replicate 12 0) demo_subkeys (rk_wrapKey ks) = Inr b"
    using deriveRecoveryKeys_wrapKey [OF ks] by (simp add: wrapVaultSubkeys_eq [OF sk] encryptBytes_succeeds)
  have "unwrapVaultSubkeys demo_crypto b (rk_wrapKey ks') = Inr demo_subkeys"
    using recovery_kit_roundtrip [OF demo_aead_correct sk _ ks b ks'] by simp
  moreover have "rk_wrapKey ks' = rk_wrapKey ks"
    using ks ks' deriveRecoveryKeys_typed [of "replicate 20 7"] by simp
  ultimately show ?thesis using ks b by auto
qed

end
