(* ===== verification/Account_State.thy ===== *)
theory Account_State
  imports Web_Crypto Js_Map
begin

text \<open>
  What a device remembers of an account, \<open>packages/crypto/src/account-state.ts\<close>: the
  \<open>AccountStateStore\<close> interface with its in-memory, key-value (localStorage) and extension
  (\<open>apps/extension/src/lib/account-state.ts\<close>) implementations, and the floor under
  server-supplied KDF parameters.

  A remembered state is whatever JSON value was stored, as in the source; the clients look at the
  truth of its \<open>opaque\<close> and \<open>accountKey\<close> properties. The locale \<open>account_state_store\<close> is the
  contract the login code relies on, and each implementation interprets it.
\<close>

section \<open>States and patches\<close>

record AccountState =
  as_opaque :: "bool option"
  as_accountKey :: "bool option"

datatype AccountFlag = FlagOpaque | FlagAccountKey

fun flag_name :: "AccountFlag \<Rightarrow> string" where
  "flag_name FlagOpaque = ''opaque''"
| "flag_name FlagAccountKey = ''accountKey''"

fun patch_flag :: "AccountState \<Rightarrow> AccountFlag \<Rightarrow> bool option" where
  "patch_flag p FlagOpaque = as_opaque p"
| "patch_flag p FlagAccountKey = as_accountKey p"

definition patch_fields :: "AccountState \<Rightarrow> (string \<times> json) list" where
  "patch_fields p = jopt ''opaque'' JBool (as_opaque p) @ jopt ''accountKey'' JBool (as_accountKey p)"

text \<open>Object spread \<open>{...j}\<close> and \<open>{...j, ...patch}\<close>; truth of a value and of a property.\<close>

fun js_spread :: "json \<Rightarrow> (string \<times> json) list" where
  "js_spread (JObj ms) = js_map_new ms"
| "js_spread (JArr xs) = map (\<lambda>i. (nat_to_string i, xs ! i)) [0..<length xs]"
| "js_spread (JStr s) = map (\<lambda>i. (nat_to_string i, JStr [s ! i])) [0..<length s]"
| "js_spread _ = []"

definition merge_patch :: "json \<Rightarrow> AccountState \<Rightarrow> json" where
  "merge_patch current p = JObj (fold (\<lambda>(k, v). js_set k v) (patch_fields p) (js_spread current))"

fun js_truthy :: "json \<Rightarrow> bool" where
  "js_truthy JNull = False"
| "js_truthy (JBool b) = b"
| "js_truthy (JNum n) = (n \<noteq> 0)"
| "js_truthy (JStr s) = (s \<noteq> '''')"
| "js_truthy _ = True"

definition flag_of :: "json \<Rightarrow> AccountFlag \<Rightarrow> bool" where
  "flag_of j f = (case json_get j (flag_name f) of None \<Rightarrow> False | Some v \<Rightarrow> js_truthy v)"

definition read_flag :: "json \<Rightarrow> AccountFlag \<Rightarrow> bool js" where
  "read_flag j f = (if j = JNull then Inl TypeError else Inr (flag_of j f))"

lemma map_of_rev_distinct: "distinct (map fst m) \<Longrightarrow> map_of (rev m) = map_of m"
  by (metis map_fst_zip_take map_of_inject_set distinct_rev map_of_eq_Some_iff rev_map set_rev)

lemma nat_to_string_not_name: "nat_to_string i \<noteq> flag_name f"
proof -
  have "is_digit_char (hd (nat_to_string i))" by (rule hd_nat_to_string_digit)
  moreover have "\<not> is_digit_char (hd (flag_name f))" by (cases f) (simp_all add: is_digit_char_def)
  ultimately show ?thesis by metis
qed

lemma nat_to_string_inj: "nat_to_string i = nat_to_string j \<longleftrightarrow> i = j"
  by (metis digits_val_nat_to_string)

lemma map_of_js_spread: "map_of (js_spread j) (flag_name f) = json_get j (flag_name f)"
  by (cases j) (auto simp: json_get_def map_of_eq_None_iff nat_to_string_not_name
      dest: nat_to_string_not_name [THEN notE, OF sym])

lemma distinct_js_spread: "distinct (map fst (js_spread j))"
proof (cases j)
  case (JObj ms)
  then show ?thesis by simp
qed (simp_all add: comp_def distinct_map inj_on_def nat_to_string_inj)

lemma flag_of_merge_patch:
  "flag_of (merge_patch j p) f = (case patch_flag p f of Some b \<Rightarrow> b | None \<Rightarrow> flag_of j f)"
proof -
  have d: "distinct (map fst m) \<Longrightarrow> distinct (map fst (fold (\<lambda>(k, v). js_set k v) kvs m))"
    for m :: "(string \<times> json) list" and kvs
    by (induction kvs arbitrary: m) auto
  have "json_get (merge_patch j p) (flag_name f) =
      map_of (fold (\<lambda>(k, v). js_set k v) (patch_fields p) (js_spread j)) (flag_name f)"
    by (simp add: merge_patch_def json_get_def map_of_rev_distinct d distinct_js_spread)
  also have "\<dots> = (case patch_flag p f of Some b \<Rightarrow> Some (JBool b) | None \<Rightarrow> json_get j (flag_name f))"
    by (cases f; cases "as_opaque p"; cases "as_accountKey p")
      (auto simp: map_of_fold_js_set patch_fields_def jopt_def map_add_def
        map_of_js_spread [where f = FlagOpaque, simplified] map_of_js_spread [where f = FlagAccountKey, simplified])
  finally show ?thesis by (auto simp: flag_of_def split: option.splits)
qed

section \<open>The interface\<close>

record 'w AccountStateStore =
  store_get :: "string \<Rightarrow> ('w, js_error, json) io"
  store_update :: "string \<Rightarrow> AccountState \<Rightarrow> ('w, js_error, unit) io"

text \<open>
  \<open>flag w h f\<close> is what the device remembers of account \<open>h\<close> in world \<open>w\<close>. In a world that is
  well formed for the store, reading gives an object with these flags and changes nothing, and an
  update sets the flags of its patch and no others.
\<close>

locale account_state_store =
  fixes store :: "'w AccountStateStore"
    and store_ok :: "'w \<Rightarrow> bool"
    and flag :: "'w \<Rightarrow> string \<Rightarrow> AccountFlag \<Rightarrow> bool"
  assumes get_flags: "store_ok w \<Longrightarrow> \<exists>j. store_get store h w = (Inr j, w) \<and> j \<noteq> JNull \<and> (\<forall>f. flag_of j f = flag w h f)"
    and update_flags: "store_ok w \<Longrightarrow> \<exists>w'. store_update store h p w = (Inr (), w') \<and> store_ok w' \<and>
          (\<forall>h' f. flag w' h' f = (case patch_flag p f of Some b \<Rightarrow> if h' = h then b else flag w h' f | None \<Rightarrow> flag w h' f))"
begin

definition do_updates :: "(string \<times> AccountState) list \<Rightarrow> 'w \<Rightarrow> 'w" where
  "do_updates us w = fold (\<lambda>(h, p) w. snd (store_update store h p w)) us w"

lemma get_reads:
  assumes "store_ok w"
  shows "\<exists>j. store_get store h w = (Inr j, w) \<and> read_flag j f = Inr (flag w h f)"
  using get_flags [OF assms, of h] by (auto simp: read_flag_def)

lemma update_keeps_true:
  assumes "store_ok w" "patch_flag p f \<noteq> Some False" "flag w h' f"
  shows "flag (snd (store_update store h p w)) h' f \<and> store_ok (snd (store_update store h p w))"
proof -
  obtain w' where "store_update store h p w = (Inr (), w')" "store_ok w'"
    and "flag w' h' f = (case patch_flag p f of Some b \<Rightarrow> if h' = h then b else flag w h' f | None \<Rightarrow> flag w h' f)"
    using update_flags [OF assms(1), of h p] by blast
  then show ?thesis using assms(2,3) by (cases "patch_flag p f") auto
qed

lemma update_sets:
  assumes "store_ok w" "patch_flag p f = Some True"
  shows "flag (snd (store_update store h p w)) h f \<and> store_ok (snd (store_update store h p w))"
  using update_flags [OF assms(1), of h p] assms(2) by auto

text \<open>A fact once recorded survives every later update that does not unset it.\<close>

lemma never_forgets:
  assumes "store_ok w" "flag w h f" "\<forall>(h', p) \<in> set us. patch_flag p f \<noteq> Some False"
  shows "flag (do_updates us w) h f \<and> store_ok (do_updates us w)"
  using assms
proof (induction us arbitrary: w)
  case Nil
  then show ?case by (simp add: do_updates_def)
next
  case (Cons a us)
  obtain h' p where a: "a = (h', p)" by (cases a)
  have "flag (snd (store_update store h' p w)) h f \<and> store_ok (snd (store_update store h' p w))"
    using Cons.prems a by (intro update_keeps_true) auto
  then show ?case using Cons.IH [of "snd (store_update store h' p w)"] Cons.prems(3)
    by (simp add: do_updates_def a)
qed

end

section \<open>Implementations\<close>

text \<open>\<open>memoryAccountState\<close>: the world is the \<open>Map\<close> the closure holds.\<close>

type_synonym memory_world = "string \<rightharpoonup> json"

definition memoryAccountState :: "memory_world AccountStateStore" where
  "memoryAccountState = \<lparr>
     store_get = (\<lambda>emailHash states.
       (Inr (JObj (case states emailHash of None \<Rightarrow> [] | Some s \<Rightarrow> js_spread s)), states)),
     store_update = (\<lambda>emailHash patch states.
       (Inr (), states(emailHash \<mapsto> merge_patch (case states emailHash of None \<Rightarrow> JObj [] | Some s \<Rightarrow> s) patch)))\<rparr>"

text \<open>\<open>keyValueAccountState\<close>: the world is the string storage.\<close>

type_synonym storage_world = "string \<rightharpoonup> string"

definition kv_key :: "string \<Rightarrow> string" where
  "kv_key emailHash = ''nopass:account-state:'' @ emailHash"

definition kv_read :: "storage_world \<Rightarrow> string \<Rightarrow> json" where
  "kv_read storage emailHash =
     (case json_parse (case storage (kv_key emailHash) of None \<Rightarrow> ''{}'' | Some s \<Rightarrow> s) of
        None \<Rightarrow> JObj [] | Some j \<Rightarrow> j)"

definition keyValueAccountState :: "storage_world AccountStateStore" where
  "keyValueAccountState = \<lparr>
     store_get = (\<lambda>emailHash storage. (Inr (kv_read storage emailHash), storage)),
     store_update = (\<lambda>emailHash patch storage.
       (Inr (), storage(kv_key emailHash \<mapsto> json_print (merge_patch (kv_read storage emailHash) patch))))\<rparr>"

text \<open>\<open>extensionAccountState\<close>: the world is \<open>chrome.storage.local\<close>, which stores values.\<close>

type_synonym chrome_world = "string \<rightharpoonup> json"

definition ext_key :: "string \<Rightarrow> string" where
  "ext_key emailHash = ''accountState:'' @ emailHash"

definition ext_get :: "chrome_world \<Rightarrow> string \<Rightarrow> json" where
  "ext_get storage emailHash =
     (case storage (ext_key emailHash) of None \<Rightarrow> JObj [] | Some j \<Rightarrow> if j = JNull then JObj [] else j)"

definition extensionAccountState :: "chrome_world AccountStateStore" where
  "extensionAccountState = \<lparr>
     store_get = (\<lambda>emailHash storage. (Inr (ext_get storage emailHash), storage)),
     store_update = (\<lambda>emailHash patch storage.
       (Inr (), storage(ext_key emailHash \<mapsto> merge_patch (ext_get storage emailHash) patch)))\<rparr>"

text \<open>\<open>browserAccountState\<close> is the key-value store on localStorage when there is one.\<close>

definition memory_state :: "memory_world \<Rightarrow> string \<Rightarrow> json" where
  "memory_state states h = (case states h of None \<Rightarrow> JObj [] | Some s \<Rightarrow> s)"

lemma flag_of_spread: "flag_of (JObj (js_spread j)) f = flag_of j f"
  by (simp add: flag_of_def json_get_def [of "JObj _"] map_of_rev_distinct distinct_js_spread map_of_js_spread)

lemma flag_of_empty [simp]: "flag_of (JObj []) f = False"
  by (simp add: flag_of_def json_get_def)

lemma merge_patch_not_null [simp]: "merge_patch j p \<noteq> JNull"
  by (simp add: merge_patch_def)

interpretation memory_store: account_state_store memoryAccountState "\<lambda>_. True" "\<lambda>w h. flag_of (memory_state w h)"
proof
  fix w h and p :: AccountState
  show "\<exists>j. store_get memoryAccountState h w = (Inr j, w) \<and> j \<noteq> JNull \<and> (\<forall>f. flag_of j f = flag_of (memory_state w h) f)"
    by (cases "w h") (auto simp: memoryAccountState_def memory_state_def flag_of_spread)
  show "\<exists>w'. store_update memoryAccountState h p w = (Inr (), w') \<and> True \<and>
          (\<forall>h' f. flag_of (memory_state w' h') f = (case patch_flag p f of
             Some b \<Rightarrow> if h' = h then b else flag_of (memory_state w h') f | None \<Rightarrow> flag_of (memory_state w h') f))"
    by (auto simp: memoryAccountState_def memory_state_def flag_of_merge_patch split: option.splits)
qed

text \<open>A localStorage whose entries are not the text \<open>null\<close>, which the clients would stumble over.\<close>

definition kv_wf :: "storage_world \<Rightarrow> bool" where
  "kv_wf w \<longleftrightarrow> (\<forall>h s. w (kv_key h) = Some s \<longrightarrow> json_parse s \<noteq> Some JNull)"

lemma kv_empty: "json_parse ''{}'' = Some (JObj [])"
  using json_parse_print [of "JObj []"] by simp

lemma kv_read_update:
  "kv_read (w(kv_key h \<mapsto> json_print j)) h' = (if h' = h then j else kv_read w h')"
  by (simp add: kv_read_def kv_key_def json_parse_print)

interpretation keyvalue_store: account_state_store keyValueAccountState kv_wf "\<lambda>w h. flag_of (kv_read w h)"
proof
  fix w h and p :: AccountState
  assume store_ok: "kv_wf w"
  then have "kv_read w h \<noteq> JNull"
    by (auto simp: kv_wf_def kv_read_def kv_empty split: option.splits)
  then show "\<exists>j. store_get keyValueAccountState h w = (Inr j, w) \<and> j \<noteq> JNull \<and> (\<forall>f. flag_of j f = flag_of (kv_read w h) f)"
    by (simp add: keyValueAccountState_def)
  have "kv_wf (w(kv_key h \<mapsto> json_print (merge_patch (kv_read w h) p)))"
    using store_ok by (auto simp: kv_wf_def json_parse_print)
  then show "\<exists>w'. store_update keyValueAccountState h p w = (Inr (), w') \<and> kv_wf w' \<and>
          (\<forall>h' f. flag_of (kv_read w' h') f = (case patch_flag p f of
             Some b \<Rightarrow> if h' = h then b else flag_of (kv_read w h') f | None \<Rightarrow> flag_of (kv_read w h') f))"
    by (auto simp: keyValueAccountState_def kv_read_update flag_of_merge_patch split: option.splits)
qed

interpretation extension_store: account_state_store extensionAccountState "\<lambda>_. True" "\<lambda>w h. flag_of (ext_get w h)"
proof
  fix w h and p :: AccountState
  show "\<exists>j. store_get extensionAccountState h w = (Inr j, w) \<and> j \<noteq> JNull \<and> (\<forall>f. flag_of j f = flag_of (ext_get w h) f)"
    by (auto simp: extensionAccountState_def ext_get_def split: option.splits)
  have "ext_get (w(ext_key h \<mapsto> merge_patch j p)) h' = (if h' = h then merge_patch j p else ext_get w h')" for j h'
    by (simp add: ext_get_def ext_key_def)
  then show "\<exists>w'. store_update extensionAccountState h p w = (Inr (), w') \<and> True \<and>
          (\<forall>h' f. flag_of (ext_get w' h') f = (case patch_flag p f of
             Some b \<Rightarrow> if h' = h then b else flag_of (ext_get w h') f | None \<Rightarrow> flag_of (ext_get w h') f))"
    by (auto simp: extensionAccountState_def flag_of_merge_patch split: option.splits)
qed

section \<open>The KDF floor\<close>

definition assertKdfFloor :: "KdfParams \<Rightarrow> KdfParams js" where
  "assertKdfFloor params =
     (if kp_type params \<noteq> ''argon2id'' \<or>
         kp_memoryKib params < kp_memoryKib DEFAULT_KDF_PARAMS \<or>
         kp_iterations params < kp_iterations DEFAULT_KDF_PARAMS \<or>
         kp_parallelism params < 1
      then Inl WeakKdfParamsError else Inr params)"

definition kdf_strong :: "KdfParams \<Rightarrow> bool" where
  "kdf_strong p \<longleftrightarrow> kp_type p = ''argon2id'' \<and> 65536 \<le> kp_memoryKib p \<and> 3 \<le> kp_iterations p \<and> 1 \<le> kp_parallelism p"

lemma assertKdfFloor_iff: "assertKdfFloor p = (if kdf_strong p then Inr p else Inl WeakKdfParamsError)"
  by (auto simp: assertKdfFloor_def kdf_strong_def DEFAULT_KDF_PARAMS_def)

lemma default_params_strong: "kdf_strong DEFAULT_KDF_PARAMS"
  by (simp add: kdf_strong_def DEFAULT_KDF_PARAMS_def)

end
