(* ===== verification/Srp_Client.thy ===== *)
theory Srp_Client
  imports Web_Crypto "HOL-Library.While_Combinator"
begin

text \<open>
  The SRP-6a client, \<open>packages/crypto/src/srp-client.ts\<close>, and the reference server it must
  interoperate with, \<open>packages/crypto/src/__tests__/support/rust-srp-server.ts\<close> (the formulas of
  the Rust \<open>srp\<close> crate). A \<open>bigint\<close> is an \<open>int\<close>; \<open>%\<close> is the remainder with the sign
  of the dividend. Random bytes are arguments.
\<close>

section \<open>Bytes, hexadecimal and big integers\<close>

definition N_HEX :: string where
  "N_HEX =
    ''AC6BDB41324A9A9BF166DE5E1389582FAF72B6651987EE07FC3192943DB56050'' @
    ''A37329CBB4A099ED8193E0757767A13DD52312AB4B03310DCD7F48A9DA04FD50'' @
    ''E8083969EDB767B0CF6095179A163AB3661A05FBD5FAAAE82918A9962F0B93B8'' @
    ''55F97993EC975EEAA80D740ADBF4FF747359D041D5C33EA71D281E446B14773B'' @
    ''CA97B43A23FB801676BD207A436C6481F1D2B9078717461A5B9D32E688F87748'' @
    ''544523B524B0D57D5EA77A2775D2ECFA032CFBDBF52FB3786160279004E57AE6'' @
    ''AF874E7303CE53299CCC041C7BC308D82A5698F3A8D0C38271AE35F8E9DBFBB6'' @
    ''94B5C803D89F7AE435DE236D525F54759B65E372FCD68EF20FA7111F9E4AFF73''"

definition hex_digit_val :: "char \<Rightarrow> nat" where
  "hex_digit_val c = (case hex_val c of None \<Rightarrow> 0 | Some x \<Rightarrow> x)"

definition hex_nat :: "string \<Rightarrow> nat" where
  "hex_nat s = foldl (\<lambda>a c. a * 16 + hex_digit_val c) 0 s"

text \<open>\<open>BigInt("0x" + hex)\<close>: a syntax error when there is no digit.\<close>

definition bigint_of_hex :: "string \<Rightarrow> int js" where
  "bigint_of_hex hex = (if hex = [] then Inl SyntaxError else Inr (int (hex_nat hex)))"

definition SRP_N :: int where "SRP_N = int (hex_nat N_HEX)"
definition SRP_G :: int where "SRP_G = 2"
definition N_BYTES :: nat where "N_BYTES = length N_HEX div 2"

fun hex_bytes :: "string \<Rightarrow> bytes" where
  "hex_bytes (a # b # s) = of_nat (hex_digit_val a * 16 + hex_digit_val b) # hex_bytes s"
| "hex_bytes _ = []"

definition hexToBytes :: "string \<Rightarrow> bytes" where
  "hexToBytes hex = hex_bytes (if length hex mod 2 \<noteq> 0 then ''0'' @ hex else hex)"

definition hexToBase64 :: "string \<Rightarrow> string" where
  "hexToBase64 hex = toBase64 (hexToBytes hex)"

definition base64ToHex :: "string \<Rightarrow> string js" where
  "base64ToHex b64 = rbind (fromBase64_js b64) (\<lambda>bs. Inr (bytesToHex bs))"

fun nat_to_hex :: "nat \<Rightarrow> string" where
  "nat_to_hex n = (if n < 16 then [hex_digit n] else nat_to_hex (n div 16) @ [hex_digit (n mod 16)])"

declare nat_to_hex.simps [simp del]

definition bigIntToBytes :: "int \<Rightarrow> bytes" where
  "bigIntToBytes n =
     (if n = 0 then [0]
      else let hex = nat_to_hex (nat n) in
           hexToBytes (if length hex mod 2 \<noteq> 0 then ''0'' @ hex else hex))"

definition bytesToBigInt :: "bytes \<Rightarrow> int js" where
  "bytesToBigInt bs = bigint_of_hex (bytesToHex bs)"

definition js_rem :: "int \<Rightarrow> int \<Rightarrow> int" where
  "js_rem a b = (if a < 0 then - ((- a) mod \<bar>b\<bar>) else a mod \<bar>b\<bar>)"

function modPow_loop :: "int \<Rightarrow> int \<Rightarrow> int \<Rightarrow> int \<Rightarrow> int" where
  "modPow_loop result base exp m =
     (if exp > 0 then
        modPow_loop (if exp mod 2 = 1 then js_rem (result * base) m else result)
          (js_rem (base * base) m) (exp div 2) m
      else result)"
  by pat_completeness auto
termination by (relation "measure (\<lambda>(_, _, e, _). nat e)") auto

declare modPow_loop.simps [simp del]

definition modPow :: "int \<Rightarrow> int \<Rightarrow> int \<Rightarrow> int" where
  "modPow base exp m = modPow_loop 1 (js_rem (js_rem base m + m) m) exp m"

section \<open>The client\<close>

definition computeK :: "crypto \<Rightarrow> int js" where
  "computeK C =
     (let nBytes = hexToBytes N_HEX; gBytes = bigIntToBytes SRP_G in
      rbind (ta_set (ta_new N_BYTES) gBytes (N_BYTES - length gBytes)) (\<lambda>padded.
      rbind (ta_set (ta_new (N_BYTES + N_BYTES)) nBytes 0) (\<lambda>input0.
      rbind (ta_set input0 padded N_BYTES) (\<lambda>input.
      bytesToBigInt (sha256 C input)))))"

definition deriveX :: "crypto \<Rightarrow> string \<Rightarrow> string \<Rightarrow> string \<Rightarrow> int js" where
  "deriveX C saltHex identity password =
     (let sBytes = hexToBytes saltHex;
          innerHash = sha256 C (utf8_encode (identity @ '':'' @ password)) in
      bytesToBigInt (sha256 C (sBytes @ innerHash)))"

record SrpRegistrationMaterial =
  srm_srpSalt :: string
  srm_srpVerifier :: string

record SrpPrivateSession =
  sps_public :: string
  sps_secret :: string

record SrpStep1Result =
  s1_clientPublicA :: string
  s1_privateSession :: SrpPrivateSession

record SrpStep2Result =
  s2_clientProofM1 :: string
  s2_sessionKey :: bytes
  s2_verifyServerProof :: "string \<Rightarrow> unit js"

definition generateSrpRegistration :: "crypto \<Rightarrow> bytes \<Rightarrow> string \<Rightarrow> string \<Rightarrow> SrpRegistrationMaterial js" where
  "generateSrpRegistration C saltBytes email masterPassword =
     (let saltHex = bytesToHex saltBytes in
      rbind (deriveX C saltHex email masterPassword) (\<lambda>x.
      let v = modPow SRP_G x SRP_N in
      Inr \<lparr>srm_srpSalt = hexToBase64 saltHex,
           srm_srpVerifier = hexToBase64 (bytesToHex (bigIntToBytes v))\<rparr>))"

definition srpStep1 :: "bytes \<Rightarrow> SrpStep1Result js" where
  "srpStep1 aBytes =
     rbind (bytesToBigInt aBytes) (\<lambda>a.
     let A = modPow SRP_G a SRP_N; aHex = bytesToHex (bigIntToBytes A) in
     Inr \<lparr>s1_clientPublicA = hexToBase64 aHex,
          s1_privateSession = \<lparr>sps_public = aHex, sps_secret = bytesToHex (bigIntToBytes a)\<rparr>\<rparr>)"

text \<open>
  The comparison of the server's proof: \<open>diff\<close> accumulates the differences over the expected
  bytes, a missing byte reading as 0, after a length mismatch set it to 1.
\<close>

definition proof_diff :: "bytes \<Rightarrow> bytes \<Rightarrow> byte" where
  "proof_diff expected server =
     fold (\<lambda>i diff. or diff (xor (expected ! i) (if i < length server then server ! i else 0)))
       [0..<length expected] (if length server \<noteq> length expected then 1 else 0)"

definition verifyServerProof :: "crypto \<Rightarrow> bytes \<Rightarrow> bytes \<Rightarrow> bytes \<Rightarrow> string \<Rightarrow> unit js" where
  "verifyServerProof C aBytes m1Bytes sBytes serverM2B64 =
     (let expectedM2 = sha256 C (aBytes @ m1Bytes @ sBytes) in
      rbind (base64ToHex serverM2B64) (\<lambda>serverM2Hex.
      let serverM2 = hexToBytes serverM2Hex in
      if proof_diff expectedM2 serverM2 \<noteq> 0 then
        Inl (JsError ''Server proof M2 verification failed - mutual auth check'')
      else Inr ()))"

definition srpStep2 ::
  "crypto \<Rightarrow> string \<Rightarrow> string \<Rightarrow> string \<Rightarrow> string \<Rightarrow> SrpPrivateSession \<Rightarrow> SrpStep2Result js" where
  "srpStep2 C email masterPassword srpSaltB64 serverPublicBB64 privateSession =
     rbind (base64ToHex srpSaltB64) (\<lambda>saltHex.
     rbind (base64ToHex serverPublicBB64) (\<lambda>bHex.
     rbind (bytesToBigInt (hexToBytes bHex)) (\<lambda>B.
     rbind (bytesToBigInt (hexToBytes (sps_secret privateSession))) (\<lambda>a.
     rbind (bytesToBigInt (hexToBytes (sps_public privateSession))) (\<lambda>A.
     if js_rem B SRP_N = 0 then Inl (JsError ''Invalid server public ephemeral B'')
     else
     rbind (deriveX C saltHex email masterPassword) (\<lambda>x.
     let aBytes = bigIntToBytes A; bBytes = bigIntToBytes B in
     rbind (bytesToBigInt (sha256 C (aBytes @ bBytes))) (\<lambda>u.
     rbind (computeK C) (\<lambda>k.
     let kgx = js_rem (k * modPow SRP_G x SRP_N) SRP_N;
         base = js_rem (js_rem (B - kgx) SRP_N + SRP_N) SRP_N;
         exp = a + u * x;
         S = modPow base exp SRP_N;
         sBytes = bigIntToBytes S;
         m1Bytes = sha256 C (aBytes @ bBytes @ sBytes) in
     Inr \<lparr>s2_clientProofM1 = hexToBase64 (bytesToHex m1Bytes), s2_sessionKey = sBytes,
          s2_verifyServerProof = verifyServerProof C aBytes m1Bytes sBytes\<rparr>))))))))"

section \<open>The reference server\<close>

definition generateRustServerEphemeral :: "crypto \<Rightarrow> bytes \<Rightarrow> string \<Rightarrow> (string \<times> string) js" where
  "generateRustServerEphemeral C bRaw verifierHex =
     rbind (bigint_of_hex (bytesToHex bRaw)) (\<lambda>b.
     rbind (bigint_of_hex verifierHex) (\<lambda>v.
     rbind (computeK C) (\<lambda>k.
     let B = js_rem (k * v + modPow SRP_G b SRP_N) SRP_N in
     Inr (bytesToHex (bigIntToBytes B), bytesToHex (bigIntToBytes b)))))"

definition computeRustServerS :: "crypto \<Rightarrow> string \<Rightarrow> string \<Rightarrow> string \<Rightarrow> string \<Rightarrow> bytes js" where
  "computeRustServerS C clientPublicAHex serverPublicBHex serverPrivateBHex verifierHex =
     rbind (bigint_of_hex clientPublicAHex) (\<lambda>A.
     rbind (bigint_of_hex serverPublicBHex) (\<lambda>B.
     rbind (bigint_of_hex serverPrivateBHex) (\<lambda>b.
     rbind (bigint_of_hex verifierHex) (\<lambda>v.
     rbind (bigint_of_hex (bytesToHex (sha256 C (bigIntToBytes A @ bigIntToBytes B)))) (\<lambda>u.
     let vu = modPow v u SRP_N; base = js_rem (A * vu) SRP_N; S = modPow base b SRP_N in
     Inr (bigIntToBytes S))))))"

definition rustM1 :: "crypto \<Rightarrow> string \<Rightarrow> string \<Rightarrow> bytes \<Rightarrow> bytes" where
  "rustM1 C aHex bHex sBytes = sha256 C (hexToBytes aHex @ hexToBytes bHex @ sBytes)"

definition rustM2 :: "crypto \<Rightarrow> string \<Rightarrow> bytes \<Rightarrow> bytes \<Rightarrow> bytes" where
  "rustM2 C aHex m1Bytes sBytes = sha256 C (hexToBytes aHex @ m1Bytes @ sBytes)"

section \<open>Hexadecimal round trips\<close>

lemma hex_nat_snoc [simp]: "hex_nat (s @ [c]) = hex_nat s * 16 + hex_digit_val c"
  by (simp add: hex_nat_def)

lemma hex_nat_Nil [simp]: "hex_nat [] = 0"
  by (simp add: hex_nat_def)

lemma hex_digit_val_digit [simp]: "d < 16 \<Longrightarrow> hex_digit_val (hex_digit d) = d"
  by (simp add: hex_digit_val_def)

lemma hex_digit_val_less: "hex_digit_val c < 16"
  by (auto simp: hex_digit_val_def split: option.splits dest: hex_val_less)

lemma nat_to_hex_small: "n < 16 \<Longrightarrow> nat_to_hex n = [hex_digit n]"
  by (simp add: nat_to_hex.simps)

lemma nat_to_hex_step: "\<not> n < 16 \<Longrightarrow> nat_to_hex n = nat_to_hex (n div 16) @ [hex_digit (n mod 16)]"
  by (simp add: nat_to_hex.simps [of n])

lemma hex_nat_nat_to_hex [simp]: "hex_nat (nat_to_hex n) = n"
proof (induction n rule: nat_to_hex.induct)
  case (1 n)
  show ?case
  proof (cases "n < 16")
    case True
    then show ?thesis using hex_nat_snoc [of "[]"] by (simp add: nat_to_hex_small)
  next
    case False
    then show ?thesis using 1 by (simp add: nat_to_hex_step)
  qed
qed

lemma nat_to_hex_nonempty [simp]: "nat_to_hex n \<noteq> []"
  by (subst nat_to_hex.simps) simp

lemma hex_nat_zero_cons: "hex_nat (CHR ''0'' # s) = hex_nat s"
  by (simp add: hex_nat_def hex_digit_val_def hex_val_def)

lemma be_val_hex_bytes: "even (length s) \<Longrightarrow> be_val (hex_bytes s) = hex_nat s"
proof -
  have "foldl (\<lambda>a c. a * 16 + hex_digit_val c) n s = foldl (\<lambda>v b. v * 256 + unat b) n (hex_bytes s)"
    if "even (length s)" for n
    using that
  proof (induction s arbitrary: n rule: hex_bytes.induct)
    case (1 a b s)
    have "hex_digit_val a * 16 + hex_digit_val b < 256"
      using hex_digit_val_less [of a] hex_digit_val_less [of b] by simp
    then have "unat (of_nat (hex_digit_val a * 16 + hex_digit_val b) :: byte) = hex_digit_val a * 16 + hex_digit_val b"
      by (simp only: unat_of_nat_byte mod_less)
    then show ?case using 1 by (simp add: algebra_simps)
  qed auto
  then show "even (length s) \<Longrightarrow> be_val (hex_bytes s) = hex_nat s"
    by (simp add: hex_nat_def be_val_def)
qed

lemma hex_bytes_bytesToHex [simp]: "hex_bytes (bytesToHex bs) = bs"
proof (induction bs)
  case (Cons b bs)
  have "unat b div 16 < 16" by (rule less_mult_imp_div_less) simp
  then show ?case using Cons by (simp add: bytesToHex_simps byte_hex_def)
qed (simp add: bytesToHex_simps)

lemma hexToBytes_bytesToHex [simp]: "hexToBytes (bytesToHex bs) = bs"
  by (simp add: hexToBytes_def)

lemma hex_nat_bytesToHex [simp]: "hex_nat (bytesToHex bs) = be_val bs"
  by (metis be_val_hex_bytes dvd_triv_left hex_bytes_bytesToHex length_bytesToHex)

lemma bytesToHex_Nil_iff: "bytesToHex bs = [] \<longleftrightarrow> bs = []"
  by (metis length_0_conv length_bytesToHex mult_eq_0_iff zero_neq_numeral)

lemma bytesToBigInt_eq: "bs \<noteq> [] \<Longrightarrow> bytesToBigInt bs = Inr (int (be_val bs))"
  by (simp add: bytesToBigInt_def bigint_of_hex_def bytesToHex_Nil_iff)

lemma be_val_bigIntToBytes [simp]: "0 \<le> n \<Longrightarrow> be_val (bigIntToBytes n) = nat n"
proof -
  have "even (length h) \<Longrightarrow> hexToBytes h = hex_bytes h" for h by (simp add: hexToBytes_def)
  then show "0 \<le> n \<Longrightarrow> be_val (bigIntToBytes n) = nat n"
    using be_val_snoc [of "[]" 0]
    by (auto simp: bigIntToBytes_def Let_def be_val_hex_bytes hex_nat_zero_cons odd_iff_mod_2_eq_one)
qed

lemma bigIntToBytes_nonempty [simp]: "bigIntToBytes n \<noteq> []"
proof -
  have "hex_bytes (a # b # s) \<noteq> []" for a b s by simp
  moreover have "nat_to_hex k \<noteq> []" for k by simp
  ultimately show ?thesis
    by (cases "nat_to_hex (nat n)" rule: hex_bytes.cases)
      (auto simp: bigIntToBytes_def Let_def hexToBytes_def)
qed

lemma bytesToBigInt_bigIntToBytes [simp]: "0 \<le> n \<Longrightarrow> bytesToBigInt (bigIntToBytes n) = Inr n"
  by (simp add: bytesToBigInt_eq)

section \<open>Modular exponentiation\<close>

lemma js_rem_nonneg [simp]: "0 \<le> a \<Longrightarrow> 0 < m \<Longrightarrow> js_rem a m = a mod m"
  by (simp add: js_rem_def)

lemma js_rem_wrap: "0 < m \<Longrightarrow> js_rem (js_rem a m + m) m = a mod m"
proof (cases "a < 0")
  case True
  assume m: "0 < m"
  have "0 \<le> - ((- a) mod m) + m" using less_imp_le [OF pos_mod_bound [OF m, of "- a"]] by linarith
  then have "js_rem (js_rem a m + m) m = (- ((- a) mod m) + m) mod m"
    using True m by (simp add: js_rem_def)
  also have "\<dots> = a mod m" using m by (simp add: mod_minus_eq)
  finally show ?thesis .
next
  case False
  assume "0 < m"
  with False show ?thesis by (simp add: js_rem_def)
qed

lemma modPow_loop_eq:
  assumes "1 < m" "0 \<le> r" "r < m" "0 \<le> b" "b < m" "0 \<le> e"
  shows "modPow_loop r b e m = (r * b ^ nat e) mod m"
  using assms
proof (induction r b e m rule: modPow_loop.induct)
  case (1 r b e m)
  show ?case
  proof (cases "0 < e")
    case False
    then show ?thesis using "1.prems" by (subst modPow_loop.simps) simp
  next
    case True
    let ?r = "if e mod 2 = 1 then js_rem (r * b) m else r" and ?b = "js_rem (b * b) m"
    have pos: "0 < m" "0 \<le> r * b" "0 \<le> b * b" using "1.prems" by auto
    have rng: "0 \<le> ?r" "?r < m" "0 \<le> ?b" "?b < m" "0 \<le> e div 2"
      using "1.prems" pos True by auto
    have "modPow_loop r b e m = modPow_loop ?r ?b (e div 2) m"
      using True by (subst modPow_loop.simps) simp
    also have "\<dots> = (?r * ?b ^ nat (e div 2)) mod m"
      by (rule "1.IH" [OF True "1.prems"(1) rng])
    also have "\<dots> = (?r * (b * b) ^ nat (e div 2)) mod m"
      using pos by (simp only: js_rem_nonneg) (metis mod_mult_right_eq power_mod)
    also have "\<dots> = ((if e mod 2 = 1 then r * b else r) * (b * b) ^ nat (e div 2)) mod m"
      using pos by (cases "e mod 2 = 1") (simp_all add: mod_mult_left_eq del: mod_mod_trivial)
    also have "(if e mod 2 = 1 then r * b else r) * (b * b) ^ nat (e div 2) = r * b ^ nat e"
    proof -
      have p: "(b * b) ^ k = b ^ (2 * k)" for k by (simp add: power_mult power2_eq_square)
      have "nat e = 2 * nat (e div 2) + nat (e mod 2)"
        using True by (metis (no_types) add.commute mod_mult_div_eq nat_add_distrib nat_mult_distrib
            nat_numeral pos_imp_zdiv_nonneg_iff pos_mod_sign zero_less_numeral less_imp_le mult_nonneg_nonneg zero_le_numeral)
      then show ?thesis
        by (cases "e mod 2 = 1") (simp_all add: p power_add mult.assoc mult.left_commute)
    qed
    finally show ?thesis .
  qed
qed

lemma modPow_eq:
  assumes "1 < m" "0 \<le> e"
  shows "modPow b e m = b ^ nat e mod m"
proof -
  have "modPow b e m = (1 * (b mod m) ^ nat e) mod m"
    unfolding modPow_def using assms modPow_loop_eq [of m 1 "b mod m" e] by (simp add: js_rem_wrap)
  then show ?thesis by (simp add: power_mod)
qed

lemma N_big10: "10 \<le> SRP_N"
proof -
  have ge: "n \<le> foldl (\<lambda>a c. a * 16 + hex_digit_val c) n s" for n s
  proof (induction s arbitrary: n)
    case (Cons c s)
    have "n \<le> n * 16 + hex_digit_val c" by simp
    also note Cons [of "n * 16 + hex_digit_val c"]
    finally show ?case by simp
  qed simp
  have "hex_nat (CHR ''A'' # s) = foldl (\<lambda>a c. a * 16 + hex_digit_val c) 10 s" for s
    by (simp add: hex_nat_def hex_digit_val_def hex_val_def)
  moreover obtain s where "N_HEX = CHR ''A'' # s" unfolding N_HEX_def append_Cons by blast
  ultimately have "10 \<le> hex_nat N_HEX" using ge [of 10 s] by metis
  then show ?thesis by (simp add: SRP_N_def)
qed

lemma N_big: "1 < SRP_N"
  using N_big10 by linarith

lemma modPow_N: "0 \<le> e \<Longrightarrow> modPow b e SRP_N = b ^ nat e mod SRP_N"
  using N_big by (rule modPow_eq)

lemma modPow_N_range: "0 \<le> e \<Longrightarrow> 0 \<le> modPow b e SRP_N \<and> modPow b e SRP_N < SRP_N"
  using N_big by (simp add: modPow_N)

text \<open>The algebra of SRP: both sides raise to the same power of the generator.\<close>

lemma srp_secret_agree:
  fixes n :: int
  assumes "1 < n" and B: "B = (k * v + g ^ b) mod n" and v: "v = g ^ x mod n"
  shows "((B - (k * v) mod n) mod n) ^ (a + u * x) mod n = (((g ^ a mod n) * (v ^ u mod n)) mod n) ^ b mod n"
proof -
  have "(B - (k * v) mod n) mod n = (g ^ b) mod n"
    unfolding B by (simp add: mod_diff_eq)
  then have "((B - (k * v) mod n) mod n) ^ (a + u * x) mod n = (g ^ b) ^ (a + u * x) mod n"
    by (simp add: power_mod)
  also have "\<dots> = (g ^ a * (g ^ x) ^ u) ^ b mod n"
    by (simp add: power_mult_distrib power_add mult.commute flip: power_mult)
  also have "\<dots> = (((g ^ a mod n) * (v ^ u mod n)) mod n) ^ b mod n"
    unfolding v by (simp add: power_mod mod_mult_eq)
  finally show ?thesis .
qed

section \<open>The server's proof\<close>

lemma fold_or_zero:
  "fold (\<lambda>i d. or d (f i)) xs (d0 :: byte) = 0 \<longleftrightarrow> d0 = 0 \<and> (\<forall>i \<in> set xs. f i = 0)"
  by (induction xs arbitrary: d0) (auto simp: or_eq_0_iff)

lemma proof_diff_zero: "proof_diff e s = 0 \<longleftrightarrow> s = e"
proof
  assume z: "proof_diff e s = 0"
  then have l: "length s = length e" and "\<forall>i < length e. xor (e ! i) (if i < length s then s ! i else 0) = 0"
    unfolding proof_diff_def fold_or_zero by (auto split: if_splits)
  moreover have "x = y" if "xor x y = 0" for x y :: byte
    using arg_cong [OF that, of "xor x"] by (simp flip: xor.assoc)
  ultimately show "s = e" by (intro nth_equalityI) (simp_all, metis)
next
  assume "s = e"
  then show "proof_diff e s = 0" unfolding proof_diff_def fold_or_zero by simp
qed

lemma base64ToHex_toBase64 [simp]: "base64ToHex (toBase64 bs) = Inr (bytesToHex bs)"
  by (simp add: base64ToHex_def)

lemma verifyServerProof_iff:
  "verifyServerProof C a m1 s m2 = Inr () \<longleftrightarrow> fromBase64 m2 = Some (sha256 C (a @ m1 @ s))"
  by (cases "fromBase64 m2") (simp_all add: verifyServerProof_def Let_def base64ToHex_def fromBase64_js_def proof_diff_zero)

section \<open>Agreement with the server\<close>

lemma sha256_nonempty: "sha256_lengths C \<Longrightarrow> sha256 C m \<noteq> []"
  by (metis length_0_conv sha256_lengths_def zero_neq_numeral)

lemma length_hex_bytes: "length (hex_bytes s) = length s div 2"
  by (induction s rule: hex_bytes.induct) auto

lemma length_N: "length N_HEX = 512"
  by (simp add: N_HEX_def)

lemma g_bytes: "bigIntToBytes SRP_G = [2]"
  by code_simp

lemma computeK_Inr:
  assumes "sha256_lengths C"
  shows "\<exists>k \<ge> 0. computeK C = Inr k"
proof -
  have n: "length (hexToBytes N_HEX) = 256" by (simp add: hexToBytes_def length_hex_bytes length_N)
  show ?thesis
    by (simp add: computeK_def Let_def g_bytes ta_set_def ta_new_def N_BYTES_def length_N n
        bytesToBigInt_eq sha256_nonempty [OF assms])
qed

lemma deriveX_Inr:
  assumes "sha256_lengths C"
  shows "\<exists>x \<ge> 0. deriveX C s i p = Inr x"
  by (simp add: deriveX_def Let_def bytesToBigInt_eq sha256_nonempty [OF assms])

lemma hexToBase64_bytesToHex [simp]: "hexToBase64 (bytesToHex bs) = toBase64 bs"
  by (simp add: hexToBase64_def)

lemma bigint_of_hex_bytes: "bs \<noteq> [] \<Longrightarrow> bigint_of_hex (bytesToHex bs) = Inr (int (be_val bs))"
  using bytesToBigInt_eq by (simp add: bytesToBigInt_def)

lemma bigint_of_hex_bigInt [simp]: "0 \<le> n \<Longrightarrow> bigint_of_hex (bytesToHex (bigIntToBytes n)) = Inr n"
  by (simp add: bigint_of_hex_bytes)

text \<open>One run of the protocol: the values both sides compute, for given random bytes.\<close>

definition srp_A :: "bytes \<Rightarrow> int" where
  "srp_A aRaw = modPow SRP_G (int (be_val aRaw)) SRP_N"

lemma srpStep1_eq:
  assumes "aRaw \<noteq> []"
  shows "srpStep1 aRaw = Inr \<lparr>s1_clientPublicA = toBase64 (bigIntToBytes (srp_A aRaw)),
    s1_privateSession = \<lparr>sps_public = bytesToHex (bigIntToBytes (srp_A aRaw)),
      sps_secret = bytesToHex (bigIntToBytes (int (be_val aRaw)))\<rparr>\<rparr>"
  using assms by (simp add: srpStep1_def bytesToBigInt_eq srp_A_def Let_def)

lemma srp_A_range: "0 \<le> srp_A aRaw"
  using modPow_N_range by (simp add: srp_A_def)

lemma srp_run_agrees:
  assumes "sha256_lengths C" "aRaw \<noteq> []" "bRaw \<noteq> []"
    and reg: "generateSrpRegistration C salt email pw = Inr m"
    and s1: "srpStep1 aRaw = Inr st1"
    and eph: "base64ToHex (srm_srpVerifier m) = Inr vHex" "generateRustServerEphemeral C bRaw vHex = Inr (bHex, bSec)"
    and B: "hex_nat bHex \<noteq> 0"
  shows "\<exists>st2 s. srpStep2 C email pw (srm_srpSalt m) (hexToBase64 bHex) (s1_privateSession st1) = Inr st2 \<and>
    computeRustServerS C (sps_public (s1_privateSession st1)) bHex bSec vHex = Inr s \<and> s2_sessionKey st2 = s \<and>
    s2_clientProofM1 st2 = toBase64 (rustM1 C (sps_public (s1_privateSession st1)) bHex s) \<and>
    s2_verifyServerProof st2 (toBase64 (rustM2 C (sps_public (s1_privateSession st1))
      (rustM1 C (sps_public (s1_privateSession st1)) bHex s) s)) = Inr ()"
proof -
  obtain x where x: "0 \<le> x" "deriveX C (bytesToHex salt) email pw = Inr x" using deriveX_Inr [OF assms(1)] by blast
  obtain k where k: "0 \<le> k" "computeK C = Inr k" using computeK_Inr [OF assms(1)] by blast
  let ?a = "int (be_val aRaw)" and ?b = "int (be_val bRaw)" and ?v = "modPow SRP_G x SRP_N"
  define A where "A = srp_A aRaw"
  define BB where "BB = js_rem (k * ?v + modPow SRP_G ?b SRP_N) SRP_N"
  have v: "0 \<le> ?v" using modPow_N_range x by simp
  have m: "m = \<lparr>srm_srpSalt = toBase64 salt, srm_srpVerifier = toBase64 (bigIntToBytes ?v)\<rparr>"
    using reg x by (simp add: generateSrpRegistration_def Let_def)
  have vHex: "vHex = bytesToHex (bigIntToBytes ?v)" using eph(1) m by simp
  have pos: "0 \<le> k * ?v + modPow SRP_G ?b SRP_N" using k v modPow_N_range by (simp add: add_nonneg_nonneg)
  have BBm: "BB = (k * ?v + SRP_G ^ nat ?b) mod SRP_N"
    unfolding BB_def using pos N_big by (simp add: modPow_N mod_simps)
  have BB0: "0 \<le> BB" "BB < SRP_N" using BBm N_big by simp_all
  have e: "bHex = bytesToHex (bigIntToBytes BB)" "bSec = bytesToHex (bigIntToBytes ?b)"
    using eph(2) k v by (simp_all add: generateRustServerEphemeral_def vHex bigint_of_hex_bytes [OF assms(3)] BB_def Let_def)
  have nz: "js_rem BB SRP_N \<noteq> 0" using B BB0 by (simp add: e)
  have A0: "0 \<le> A" unfolding A_def by (rule srp_A_range)
  have st1: "s1_privateSession st1 = \<lparr>sps_public = bytesToHex (bigIntToBytes A), sps_secret = bytesToHex (bigIntToBytes ?a)\<rparr>"
    using s1 srpStep1_eq [OF assms(2)] by (auto simp: A_def)
  let ?u = "int (be_val (sha256 C (bigIntToBytes A @ bigIntToBytes BB)))"
  have u: "bytesToBigInt (sha256 C (bigIntToBytes A @ bigIntToBytes BB)) = Inr ?u"
    by (simp add: bytesToBigInt_eq sha256_nonempty [OF assms(1)])
  let ?kgx = "js_rem (k * ?v) SRP_N"
  let ?S = "modPow (js_rem (js_rem (BB - ?kgx) SRP_N + SRP_N) SRP_N) (?a + ?u * x) SRP_N"
  let ?T = "modPow (js_rem (A * modPow ?v ?u SRP_N) SRP_N) ?b SRP_N"
  have ST: "?S = ?T"
  proof -
    have "?S = ((BB - (k * ?v) mod SRP_N) mod SRP_N) ^ (nat ?a + nat ?u * nat x) mod SRP_N"
      using x k v N_big by (simp add: js_rem_wrap modPow_N [of "?a + ?u * x"] nat_add_distrib nat_mult_distrib)
    also have "\<dots> = (((SRP_G ^ nat ?a mod SRP_N) * (?v ^ nat ?u mod SRP_N)) mod SRP_N) ^ nat ?b mod SRP_N"
      using N_big BBm x by (intro srp_secret_agree) (simp_all add: modPow_N)
    also have "\<dots> = ?T"
      using A0 N_big modPow_N_range by (simp add: modPow_N A_def srp_A_def del: nat_int)
    finally show ?thesis .
  qed
  have c: "srpStep2 C email pw (srm_srpSalt m) (hexToBase64 bHex) (s1_privateSession st1) =
      Inr \<lparr>s2_clientProofM1 = toBase64 (sha256 C (bigIntToBytes A @ bigIntToBytes BB @ bigIntToBytes ?S)),
           s2_sessionKey = bigIntToBytes ?S,
           s2_verifyServerProof = verifyServerProof C (bigIntToBytes A)
             (sha256 C (bigIntToBytes A @ bigIntToBytes BB @ bigIntToBytes ?S)) (bigIntToBytes ?S)\<rparr>"
    using nz A0 BB0 by (simp add: srpStep2_def m e st1 x k u Let_def)
  have s: "computeRustServerS C (sps_public (s1_privateSession st1)) bHex bSec vHex = Inr (bigIntToBytes ?T)"
    using A0 BB0 v u by (simp add: computeRustServerS_def st1 e vHex Let_def bytesToBigInt_def)
  show ?thesis
    using c s ST by (simp add: rustM1_def rustM2_def st1 e verifyServerProof_iff)
qed

section \<open>Theorems\<close>

text \<open>
  The square-and-multiply loop computes the power: for every base, every exponent that is not
  negative and every modulus above 1, \<open>modPow\<close> terminates with the residue of the power.
\<close>

theorem modPow_is_power:
  assumes "1 < m" "0 \<le> e"
  shows "modPow b e m = b ^ nat e mod m"
  using assms by (rule modPow_eq)

theorem modPow_is_power_witness: "modPow (-3) 5 7 = 2 \<and> (-3) ^ nat 5 mod 7 = (2::int)"
  using modPow_is_power [of 7 5 "-3"] by simp

text \<open>The loop as the source writes it, a condition and a body over the three variables.\<close>

definition modPow_body :: "int \<Rightarrow> int \<times> int \<times> int \<Rightarrow> int \<times> int \<times> int" where
  "modPow_body m = (\<lambda>(result, base, exp).
     (if exp mod 2 = 1 then js_rem (result * base) m else result, js_rem (base * base) m, exp div 2))"

definition modPow_while :: "int \<Rightarrow> int \<Rightarrow> int \<Rightarrow> (int \<times> int \<times> int) option" where
  "modPow_while base exp m =
     while_option (\<lambda>(result, base, exp). exp > 0) (modPow_body m) (1, js_rem (js_rem base m + m) m, exp)"

lemma modPow_while_loop:
  assumes "0 \<le> e"
  shows "\<exists>b'. while_option (\<lambda>(result, base, exp). exp > 0) (modPow_body m) (r, b, e) = Some (modPow_loop r b e m, b', 0)"
  using assms
proof (induction r b e m rule: modPow_loop.induct)
  case (1 r b e m)
  show ?case
  proof (cases "0 < e")
    case True
    let ?s = "modPow_body m (r, b, e)"
    have "while_option (\<lambda>(result, base, exp). exp > 0) (modPow_body m) (r, b, e) =
        while_option (\<lambda>(result, base, exp). exp > 0) (modPow_body m) ?s"
      using True by (subst while_option_unfold) simp
    moreover have "modPow_loop r b e m = modPow_loop (fst ?s) (fst (snd ?s)) (e div 2) m"
      using True by (subst modPow_loop.simps) (simp add: modPow_body_def)
    ultimately show ?thesis using "1.IH" [OF True] True by (simp add: modPow_body_def)
  next
    case False
    then have "e = 0" using "1.prems" by simp
    then show ?thesis by (subst while_option_unfold, subst modPow_loop.simps) simp
  qed
qed

lemma modPow_iterations:
  assumes "0 \<le> e" "e < 2 ^ n"
  shows "snd (snd ((modPow_body m ^^ n) (r, b, e))) = 0"
  using assms
proof (induction n arbitrary: r b e)
  case (Suc n)
  then have "0 \<le> e div 2 \<and> e div 2 < 2 ^ n" by auto
  then show ?case using Suc.IH by (simp add: funpow_Suc_right modPow_body_def del: funpow.simps)
qed simp

text \<open>
  C18. The square-and-multiply loop of SRP ends, with the power. For every base, every exponent that is
  not negative and every modulus above 1, the source's while loop terminates with the residue of the
  power (which is what \<open>modPow\<close> returns), after no more passes than the exponent has bits: 256 for
  the client's ephemeral.
\<close>

theorem modPow_terminates:
  assumes "1 < m" "0 \<le> e"
  shows "(\<exists>base'. modPow_while b e m = Some (b ^ nat e mod m, base', 0)) \<and> modPow b e m = b ^ nat e mod m \<and>
    (\<forall>n. e < 2 ^ n \<longrightarrow> snd (snd ((modPow_body m ^^ n) (1, js_rem (js_rem b m + m) m, e))) = 0)"
  using modPow_while_loop [OF assms(2), of m 1 "js_rem (js_rem b m + m) m"] modPow_eq [OF assms] modPow_iterations [OF assms(2)]
  by (auto simp: modPow_while_def modPow_def)

theorem modPow_terminates_witness:
  "\<exists>base'. modPow_while (-3) 5 7 = Some (2, base', 0)"
  using modPow_terminates [of 7 5 "-3"] by simp

text \<open>
  C17. The client interoperates with the server it was written for. For an account registered with
  \<open>generateSrpRegistration\<close>, any random ephemerals and any server value B that is not zero, client and
  server derive the same premaster secret, the client's proof M1 is the one the server expects, and
  the server's proof M2 passes the client's check.
\<close>

theorem srp_client_server_agree:
  assumes "sha256_lengths C" "aRaw \<noteq> []" "bRaw \<noteq> []"
    and "generateSrpRegistration C salt email pw = Inr m" "srpStep1 aRaw = Inr st1"
    and "base64ToHex (srm_srpVerifier m) = Inr vHex" "generateRustServerEphemeral C bRaw vHex = Inr (bHex, bSec)"
    and "hex_nat bHex \<noteq> 0"
  shows "\<exists>st2 s. srpStep2 C email pw (srm_srpSalt m) (hexToBase64 bHex) (s1_privateSession st1) = Inr st2 \<and>
    computeRustServerS C (sps_public (s1_privateSession st1)) bHex bSec vHex = Inr s \<and> s2_sessionKey st2 = s \<and>
    s2_clientProofM1 st2 = toBase64 (rustM1 C (sps_public (s1_privateSession st1)) bHex s) \<and>
    s2_verifyServerProof st2 (toBase64 (rustM2 C (sps_public (s1_privateSession st1))
      (rustM1 C (sps_public (s1_privateSession st1)) bHex s) s)) = Inr ()"
  using assms by (rule srp_run_agrees)

definition zero_hash_crypto :: crypto where
  "zero_hash_crypto = demo_crypto\<lparr>sha256 := (\<lambda>_. replicate 32 0)\<rparr>"

lemma be_val_zeros: "be_val (replicate n 0) = 0"
proof (induction n)
  case (Suc n)
  then show ?case using be_val_snoc [of "replicate n 0" 0] by (simp add: replicate_append_same [symmetric])
qed simp

lemma zero_hash: "sha256_lengths zero_hash_crypto" "computeK zero_hash_crypto = Inr 0" "deriveX zero_hash_crypto s i p = Inr 0"
proof -
  have h: "sha256 zero_hash_crypto m = replicate 32 0" for m by (simp add: zero_hash_crypto_def)
  show l: "sha256_lengths zero_hash_crypto" by (simp add: sha256_lengths_def h)
  have z: "bytesToBigInt (replicate 32 0) = Inr 0" by (simp add: bytesToBigInt_eq be_val_zeros)
  show "deriveX zero_hash_crypto s i p = Inr 0" by (simp add: deriveX_def h z)
  obtain inp where "computeK zero_hash_crypto = bytesToBigInt (sha256 zero_hash_crypto inp)"
  proof -
    have n: "length (hexToBytes N_HEX) = 256" by (simp add: hexToBytes_def length_hex_bytes length_N)
    show ?thesis using that
      by (simp add: computeK_def Let_def g_bytes ta_set_def ta_new_def N_BYTES_def length_N n h)
  qed
  then show "computeK zero_hash_crypto = Inr 0" by (simp add: h z)
qed

theorem srp_client_server_agree_witness:
  "\<exists>m st1 vHex bHex bSec st2 s.
    generateSrpRegistration zero_hash_crypto [9] ''a@b'' ''pw'' = Inr m \<and> srpStep1 [5] = Inr st1 \<and>
    base64ToHex (srm_srpVerifier m) = Inr vHex \<and> generateRustServerEphemeral zero_hash_crypto [1] vHex = Inr (bHex, bSec) \<and>
    srpStep2 zero_hash_crypto ''a@b'' ''pw'' (srm_srpSalt m) (hexToBase64 bHex) (s1_privateSession st1) = Inr st2 \<and>
    computeRustServerS zero_hash_crypto (sps_public (s1_privateSession st1)) bHex bSec vHex = Inr s \<and> s2_sessionKey st2 = s"
proof -
  let ?C = zero_hash_crypto
  have one: "modPow SRP_G 0 SRP_N = 1" using modPow_N [of 0 SRP_G] N_big by simp
  have two: "modPow SRP_G 1 SRP_N = 2" using modPow_N [of 1 SRP_G] N_big10 by (simp add: SRP_G_def)
  define m where "m = \<lparr>srm_srpSalt = toBase64 [9 :: byte], srm_srpVerifier = toBase64 (bigIntToBytes 1)\<rparr>"
  have r: "generateSrpRegistration ?C [9] ''a@b'' ''pw'' = Inr m"
    by (simp add: generateSrpRegistration_def Let_def zero_hash one m_def)
  obtain st1 where s1: "srpStep1 [5] = Inr st1" using srpStep1_eq [of "[5]"] by simp
  have v: "base64ToHex (srm_srpVerifier m) = Inr (bytesToHex (bigIntToBytes 1))" by (simp add: m_def)
  have "be_val [1] = 1" using be_val_snoc [of "[]" 1] by simp
  then have e: "generateRustServerEphemeral ?C [1] (bytesToHex (bigIntToBytes 1)) =
      Inr (bytesToHex (bigIntToBytes 2), bytesToHex (bigIntToBytes 1))"
    using N_big10 by (simp add: generateRustServerEphemeral_def bigint_of_hex_bytes zero_hash two Let_def)
  obtain st2 s where "srpStep2 ?C ''a@b'' ''pw'' (srm_srpSalt m) (hexToBase64 (bytesToHex (bigIntToBytes 2))) (s1_privateSession st1) = Inr st2"
      "computeRustServerS ?C (sps_public (s1_privateSession st1)) (bytesToHex (bigIntToBytes 2)) (bytesToHex (bigIntToBytes 1))
         (bytesToHex (bigIntToBytes 1)) = Inr s" "s2_sessionKey st2 = s"
    using srp_client_server_agree [OF zero_hash(1) _ _ r s1 v e] by auto
  then show ?thesis using r s1 v e by blast
qed

text \<open>
  The client accepts exactly one server proof: \<open>verifyServerProof\<close> returns normally if and only
  if the decoded bytes are \<open>SHA-256(A | M1 | S)\<close>; a proof of another length or with any other byte
  throws.
\<close>

theorem server_proof_exact:
  "verifyServerProof C a m1 s m2 = Inr () \<longleftrightarrow> fromBase64 m2 = Some (sha256 C (a @ m1 @ s))"
  by (rule verifyServerProof_iff)

end
