(* ===== verification/Password_Login.thy ===== *)
theory Password_Login
  imports Kdf Account_State Srp_Client
begin

text \<open>
  Master-password login and password proofs over OPAQUE, with the SRP fallback for accounts created
  before OPAQUE: \<open>packages/crypto/src/password-login.ts\<close>. The OPAQUE client
  (\<open>@serenity-kit/opaque\<close>) and the server are parameters. The world of an operation is a pair:
  the server side, which the API acts on, and the device's own storage, which only the
  \<open>AccountStateStore\<close> acts on; \<open>on_server\<close> and \<open>on_device\<close> place an operation on one side.
\<close>

section \<open>Parameters\<close>

record KeyStretching =
  ks_iterations :: int
  ks_memory :: int
  ks_parallelism :: int

text \<open>The first argument of a start operation is the randomness it draws.\<close>

record opaque_client =
  startLogin :: "bytes \<Rightarrow> string \<Rightarrow> string \<times> string"
  finishLogin :: "string \<Rightarrow> string \<Rightarrow> string \<Rightarrow> KeyStretching \<Rightarrow> string option js"
  startRegistration :: "bytes \<Rightarrow> string \<Rightarrow> string \<times> string"
  finishRegistration :: "string \<Rightarrow> string \<Rightarrow> string \<Rightarrow> KeyStretching \<Rightarrow> string js"

record 'v PasswordAuthApi =
  opaqueLoginStart :: "OpaqueLoginStartRequest \<Rightarrow> ('v, js_error, OpaqueLoginStartResponse) io"
  opaqueLoginFinish :: "OpaqueLoginFinishRequest \<Rightarrow> ('v, js_error, LoginResponse) io"
  srpInit :: "SrpInitRequest \<Rightarrow> ('v, js_error, SrpInitResponse) io"
  srpVerify :: "SrpVerifyRequest \<Rightarrow> ('v, js_error, SrpVerifyResponse) io"

type_synonym 'v proofStart_api =
  "PasswordProofStartRequest \<Rightarrow> string \<Rightarrow> ('v, js_error, PasswordProofStartResponse) io"

definition on_server :: "('v, 'e, 'a) io \<Rightarrow> ('v \<times> 's, 'e, 'a) io" where
  "on_server m = (\<lambda>(v, s). case m v of (r, v') \<Rightarrow> (r, (v', s)))"

definition on_device :: "('s, 'e, 'a) io \<Rightarrow> ('v \<times> 's, 'e, 'a) io" where
  "on_device m = (\<lambda>(v, s). case m s of (r, s') \<Rightarrow> (r, (v, s')))"

lemma on_server_run [io_simps]: "on_server m (v, s) = (case m v of (r, v') \<Rightarrow> (r, (v', s)))"
  by (simp add: on_server_def)

lemma on_device_run [io_simps]: "on_device m (v, s) = (case m s of (r, s') \<Rightarrow> (r, (v, s')))"
  by (simp add: on_device_def)

lemma on_server_eq: "on_server m w = (r, w') \<longleftrightarrow> m (fst w) = (r, fst w') \<and> snd w' = snd w"
  by (cases w; cases w') (auto simp: on_server_def split: prod.splits)

lemma on_device_eq: "on_device m w = (r, w') \<longleftrightarrow> m (snd w) = (r, snd w') \<and> fst w' = fst w"
  by (cases w; cases w') (auto simp: on_device_def split: prod.splits)

section \<open>Operations\<close>

definition keyStretching :: "KdfParams \<Rightarrow> KeyStretching" where
  "keyStretching params =
     \<lparr>ks_iterations = kp_iterations params, ks_memory = kp_memoryKib params,
      ks_parallelism = kp_parallelism params\<rparr>"

definition createOpaqueRegistration ::
  "opaque_client \<Rightarrow> bytes \<Rightarrow> string \<Rightarrow> KdfParams \<Rightarrow> (string \<Rightarrow> ('w, js_error, string) io) \<Rightarrow>
   ('w, js_error, string) io" where
  "createOpaqueRegistration oc rnd password kdfParams start =
     (let (clientRegistrationState, registrationRequest) = startRegistration oc rnd password in
      io_bind (start registrationRequest) (\<lambda>registrationResponse.
      io_bind (io_lift (assertKdfFloor kdfParams)) (\<lambda>params.
      io_lift (finishRegistration oc clientRegistrationState registrationResponse password (keyStretching params)))))"

datatype LoginMethod = MethodOpaque | MethodSrp

record PasswordLoginResult = LoginResponse +
  plr_method :: LoginMethod

definition with_method :: "LoginMethod \<Rightarrow> LoginResponse \<Rightarrow> PasswordLoginResult" where
  "with_method m r = LoginResponse.extend r (PasswordLoginResult.fields m)"

record LoginRandom =
  lrnd_opaque :: bytes
  lrnd_srp :: bytes

record 's PasswordLoginOptions =
  plo_email :: string
  plo_password :: string
  plo_accountState :: "'s AccountStateStore"
  plo_deviceId :: "string option"

definition loginWithPassword ::
  "crypto \<Rightarrow> opaque_client \<Rightarrow> LoginRandom \<Rightarrow> 'v PasswordAuthApi \<Rightarrow> 's PasswordLoginOptions \<Rightarrow>
   ('v \<times> 's, js_error, PasswordLoginResult) io" where
  "loginWithPassword C oc rnd api opts =
     (let email = plo_email opts; password = plo_password opts; accountState = plo_accountState opts;
          emailHash = computeEmailHash C email;
          device = (case plo_deviceId opts of None \<Rightarrow> None | Some d \<Rightarrow> if d = '''' then None else Some d);
          (clientLoginState, startLoginRequest) = startLogin oc (lrnd_opaque rnd) password in
      io_bind (on_server (opaqueLoginStart api
                 \<lparr>ols_emailHash = emailHash, ols_startLoginRequest = startLoginRequest\<rparr>)) (\<lambda>started.
      io_bind (io_lift (assertKdfFloor (olr_kdfParams started))) (\<lambda>params.
      io_bind (io_lift (finishLogin oc clientLoginState (olr_loginResponse started) password (keyStretching params))) (\<lambda>finished.
      case finished of
        Some finishLoginRequest \<Rightarrow>
          io_bind (on_server (opaqueLoginFinish api
                     \<lparr>olf_loginId = olr_loginId started, olf_finishLoginRequest = finishLoginRequest,
                      olf_deviceId = device\<rparr>)) (\<lambda>session.
          io_bind (on_device (store_update accountState emailHash
                     \<lparr>as_opaque = Some True, as_accountKey = None\<rparr>)) (\<lambda>_.
          io_return (with_method MethodOpaque session)))
      | None \<Rightarrow>
          io_bind (on_device (store_get accountState emailHash)) (\<lambda>state.
          io_bind (io_lift (read_flag state FlagOpaque)) (\<lambda>opaque.
          if opaque then io_throw IncorrectPasswordError
          else
          io_bind (io_lift (srpStep1 (lrnd_srp rnd))) (\<lambda>step1.
          io_bind (on_server (srpInit api
                     \<lparr>si_emailHash = emailHash, si_clientPublicA = s1_clientPublicA step1\<rparr>)) (\<lambda>init.
          io_bind (io_lift (srpStep2 C email password (sr_srpSalt init) (sr_serverPublicB init)
                     (s1_privateSession step1))) (\<lambda>step2.
          io_bind (on_server (srpVerify api
                     \<lparr>sv_sessionId = sr_sessionId init, sv_clientProofM1 = s2_clientProofM1 step2,
                      sv_deviceId = device\<rparr>)) (\<lambda>verified.
          io_bind (io_lift (s2_verifyServerProof step2 (sv_serverProofM2 verified))) (\<lambda>_.
          io_return (with_method MethodSrp (LoginResponse.truncate verified)))))))))))))"

definition provePassword ::
  "crypto \<Rightarrow> opaque_client \<Rightarrow> bytes \<Rightarrow> 'v proofStart_api \<Rightarrow> string \<Rightarrow> string \<Rightarrow> string \<Rightarrow> ProofPurpose \<Rightarrow>
   ('v, js_error, PasswordProof) io" where
  "provePassword C oc rnd proofStart email password sessionToken purpose =
     (let (clientLoginState, startLoginRequest) = startLogin oc rnd password in
      io_bind (proofStart \<lparr>pps_emailHash = computeEmailHash C email, pps_startLoginRequest = startLoginRequest,
                 pps_purpose = purpose\<rparr> sessionToken) (\<lambda>started.
      io_bind (io_lift (assertKdfFloor (ppr_kdfParams started))) (\<lambda>params.
      io_bind (io_lift (finishLogin oc clientLoginState (ppr_loginResponse started) password (keyStretching params))) (\<lambda>finished.
      case finished of
        None \<Rightarrow> io_throw IncorrectPasswordError
      | Some finishLoginRequest \<Rightarrow>
          io_return \<lparr>pp_proofId = ppr_proofId started, pp_finishLoginRequest = finishLoginRequest\<rparr>))))"

section \<open>Lemmas\<close>

lemma with_method_simps [simp]:
  "plr_method (with_method m r) = m"
  "lr_wrappedAccountKey (with_method m r) = lr_wrappedAccountKey r"
  "lr_sessionToken (with_method m r) = lr_sessionToken r"
  by (simp_all add: with_method_def LoginResponse.defs PasswordLoginResult.defs)

text \<open>
  Login in three stages: the OPAQUE exchange up to the point where the client knows whether the
  password opened the server's answer; finishing it; and the SRP fallback.
\<close>

definition login_start ::
  "crypto \<Rightarrow> opaque_client \<Rightarrow> LoginRandom \<Rightarrow> 'v PasswordAuthApi \<Rightarrow> 's PasswordLoginOptions \<Rightarrow>
   ('v, js_error, OpaqueLoginStartResponse \<times> string option) io" where
  "login_start C oc rnd api opts =
     (let (st, req) = startLogin oc (lrnd_opaque rnd) (plo_password opts) in
      io_bind (opaqueLoginStart api \<lparr>ols_emailHash = computeEmailHash C (plo_email opts), ols_startLoginRequest = req\<rparr>) (\<lambda>started.
      io_bind (io_lift (assertKdfFloor (olr_kdfParams started))) (\<lambda>params.
      io_bind (io_lift (finishLogin oc st (olr_loginResponse started) (plo_password opts) (keyStretching params))) (\<lambda>fin.
      io_return (started, fin)))))"

lemma login_start_strong:
  assumes "login_start C oc rnd api opts v = (Inr (started, fin), v')"
  shows "kdf_strong (olr_kdfParams started)"
  using assms by (auto simp: login_start_def io_simps assertKdfFloor_iff
      split: prod.splits sum.splits if_splits)

definition login_srp ::
  "crypto \<Rightarrow> LoginRandom \<Rightarrow> 'v PasswordAuthApi \<Rightarrow> 's PasswordLoginOptions \<Rightarrow> ('v, js_error, PasswordLoginResult) io" where
  "login_srp C rnd api opts =
     (let device = (case plo_deviceId opts of None \<Rightarrow> None | Some d \<Rightarrow> if d = '''' then None else Some d) in
      io_bind (io_lift (srpStep1 (lrnd_srp rnd))) (\<lambda>step1.
      io_bind (srpInit api \<lparr>si_emailHash = computeEmailHash C (plo_email opts), si_clientPublicA = s1_clientPublicA step1\<rparr>) (\<lambda>init.
      io_bind (io_lift (srpStep2 C (plo_email opts) (plo_password opts) (sr_srpSalt init) (sr_serverPublicB init)
                 (s1_privateSession step1))) (\<lambda>step2.
      io_bind (srpVerify api \<lparr>sv_sessionId = sr_sessionId init, sv_clientProofM1 = s2_clientProofM1 step2, sv_deviceId = device\<rparr>) (\<lambda>verified.
      io_bind (io_lift (s2_verifyServerProof step2 (sv_serverProofM2 verified))) (\<lambda>_.
      io_return (with_method MethodSrp (LoginResponse.truncate verified))))))))"

lemma login_staged:
  "loginWithPassword C oc rnd api opts (v, s) =
     (case login_start C oc rnd api opts v of
        (Inl e, v') \<Rightarrow> (Inl e, (v', s))
      | (Inr (started, Some fin), v') \<Rightarrow>
          (case opaqueLoginFinish api \<lparr>olf_loginId = olr_loginId started, olf_finishLoginRequest = fin,
                 olf_deviceId = (case plo_deviceId opts of None \<Rightarrow> None | Some d \<Rightarrow> if d = '''' then None else Some d)\<rparr> v' of
             (Inl e, v'') \<Rightarrow> (Inl e, (v'', s))
           | (Inr session, v'') \<Rightarrow>
               (case store_update (plo_accountState opts) (computeEmailHash C (plo_email opts))
                       \<lparr>as_opaque = Some True, as_accountKey = None\<rparr> s of
                  (Inl e, s') \<Rightarrow> (Inl e, (v'', s'))
                | (Inr _, s') \<Rightarrow> (Inr (with_method MethodOpaque session), (v'', s'))))
      | (Inr (started, None), v') \<Rightarrow>
          (case store_get (plo_accountState opts) (computeEmailHash C (plo_email opts)) s of
             (Inl e, s') \<Rightarrow> (Inl e, (v', s'))
           | (Inr state, s') \<Rightarrow>
               (case read_flag state FlagOpaque of
                  Inl e \<Rightarrow> (Inl e, (v', s'))
                | Inr True \<Rightarrow> (Inl IncorrectPasswordError, (v', s'))
                | Inr False \<Rightarrow> (case login_srp C rnd api opts v' of (r, v'') \<Rightarrow> (r, (v'', s'))))))"
  by (simp add: loginWithPassword_def login_start_def login_srp_def io_simps Let_def
      split: prod.splits sum.splits option.splits if_splits bool.splits)

text \<open>What the login code proves from the contract of the store alone.\<close>

context account_state_store
begin

lemma get_flag_run:
  "store_ok s \<Longrightarrow> \<exists>j. store_get store h s = (Inr j, s) \<and> read_flag j f = Inr (flag s h f)"
  by (rule get_reads)

lemma login_refuses_downgrade:
  assumes "store_ok s" "plo_accountState opts = store" "flag s (computeEmailHash C (plo_email opts)) FlagOpaque"
  shows "loginWithPassword C oc rnd (api\<lparr>srpInit := si, srpVerify := sv\<rparr>) opts (v, s) =
      loginWithPassword C oc rnd api opts (v, s)"
    and "loginWithPassword C oc rnd api opts (v, s) = (Inr r, w') \<Longrightarrow> plr_method r = MethodOpaque"
proof -
  obtain j where j: "store_get store (computeEmailHash C (plo_email opts)) s = (Inr j, s)" "read_flag j FlagOpaque = Inr True"
    using get_reads [OF assms(1), of "computeEmailHash C (plo_email opts)" FlagOpaque] assms(3) by auto
  have st: "login_start C oc rnd (api\<lparr>srpInit := si, srpVerify := sv\<rparr>) opts = login_start C oc rnd api opts"
    by (simp add: login_start_def)
  show "loginWithPassword C oc rnd (api\<lparr>srpInit := si, srpVerify := sv\<rparr>) opts (v, s) =
      loginWithPassword C oc rnd api opts (v, s)"
    by (simp add: login_staged st assms(2) j split: prod.splits sum.splits option.splits)
  show "loginWithPassword C oc rnd api opts (v, s) = (Inr r, w') \<Longrightarrow> plr_method r = MethodOpaque"
    by (auto simp: login_staged assms(2) j split: prod.splits sum.splits option.splits)
qed

lemma login_srp_method: "login_srp C rnd api opts v = (Inr r, v') \<Longrightarrow> plr_method r = MethodSrp"
  by (auto simp: login_srp_def io_simps Let_def split: prod.splits sum.splits)

lemma login_remembers:
  assumes "store_ok s" "plo_accountState opts = store"
    "loginWithPassword C oc rnd api opts (v, s) = (Inr r, (v', s'))" "plr_method r = MethodOpaque"
  shows "store_ok s' \<and> flag s' (computeEmailHash C (plo_email opts)) FlagOpaque"
proof -
  let ?h = "computeEmailHash C (plo_email opts)"
  obtain j where j: "store_get store ?h s = (Inr j, s)" "read_flag j FlagOpaque = Inr (flag s ?h FlagOpaque)"
    using get_reads [OF assms(1)] by blast
  have "s' = snd (store_update store ?h \<lparr>as_opaque = Some True, as_accountKey = None\<rparr> s)"
    using assms(2-4) by (auto simp: login_staged j split: prod.splits sum.splits option.splits bool.splits
        dest: login_srp_method)
  then show ?thesis using update_sets [OF assms(1), of _ FlagOpaque ?h] by simp
qed

end

lemma login_success_strong_params:
  assumes "loginWithPassword C oc rnd api opts (v, s) = (Inr r, w')"
  shows "\<exists>started v1. opaqueLoginStart api \<lparr>ols_emailHash = computeEmailHash C (plo_email opts),
      ols_startLoginRequest = snd (startLogin oc (lrnd_opaque rnd) (plo_password opts))\<rparr> v = (Inr started, v1) \<and>
    kdf_strong (olr_kdfParams started)"
  using assms
  by (auto simp: login_staged login_start_def io_simps assertKdfFloor_iff
      split: prod.splits sum.splits if_splits option.splits)

section \<open>Sample parameters\<close>

text \<open>A client that accepts a server answer equal to the password, and a server that knows \<open>pw\<close>.\<close>

definition demo_opaque :: opaque_client where
  "demo_opaque = \<lparr>
     startLogin = (\<lambda>r pw. (pw, ''start'')),
     finishLogin = (\<lambda>st resp pw ks. Inr (if resp = pw then Some ''finish'' else None)),
     startRegistration = (\<lambda>r pw. (pw, ''register'')),
     finishRegistration = (\<lambda>st resp pw ks. Inr (''record:'' @ pw))\<rparr>"

definition demo_login_response :: LoginResponse where
  "demo_login_response = \<lparr>lr_sessionToken = ''t'', lr_userId = ''u'', lr_defaultVaultId = ''v'',
     lr_protectedSymmetricKey = '''', lr_protectedSymmetricKeyIv = '''', lr_protectedPrivateKey = None,
     lr_protectedPrivateKeyIv = None, lr_wrappedAccountKey = None, lr_wrappedAccountKeyIv = None\<rparr>"

definition demo_auth_api :: "unit PasswordAuthApi" where
  "demo_auth_api = \<lparr>
     opaqueLoginStart = (\<lambda>_. io_return \<lparr>olr_loginId = ''l'', olr_loginResponse = ''pw'', olr_kdfParams = DEFAULT_KDF_PARAMS\<rparr>),
     opaqueLoginFinish = (\<lambda>_. io_return demo_login_response),
     srpInit = (\<lambda>_. io_throw DOMException),
     srpVerify = (\<lambda>_. io_throw DOMException)\<rparr>"

definition demo_rnd :: LoginRandom where
  "demo_rnd = \<lparr>lrnd_opaque = [1], lrnd_srp = [2]\<rparr>"

definition demo_opts :: "string \<Rightarrow> memory_world PasswordLoginOptions" where
  "demo_opts pw = \<lparr>plo_email = ''a@b'', plo_password = pw, plo_accountState = memoryAccountState, plo_deviceId = None\<rparr>"

lemma demo_login_start:
  "login_start C demo_opaque rnd demo_auth_api (demo_opts pw) () =
     (Inr (\<lparr>olr_loginId = ''l'', olr_loginResponse = ''pw'', olr_kdfParams = DEFAULT_KDF_PARAMS\<rparr>,
           if pw = ''pw'' then Some ''finish'' else None), ())"
  by (simp add: login_start_def demo_opaque_def demo_auth_api_def demo_opts_def io_simps assertKdfFloor_iff
      default_params_strong)

lemma demo_login:
  "\<exists>s'. loginWithPassword demo_crypto demo_opaque demo_rnd demo_auth_api (demo_opts ''pw'') ((), Map.empty) =
     (Inr (with_method MethodOpaque demo_login_response), ((), s'))"
  by (simp add: login_staged demo_login_start) (simp add: demo_auth_api_def demo_opts_def memoryAccountState_def io_simps)

section \<open>Theorems\<close>





end
