(* ===== verification/Account_Key.thy ===== *)
theory Account_Key
  imports Password_Login
begin

text \<open>
  The password-independent account key, \<open>packages/crypto/src/account-key.ts\<close>: wrapping it under a
  key derived from the master password with the account's email hash as additional data, opening an
  account after login, and the two migrations (SRP accounts to OPAQUE, legacy OPAQUE accounts to the
  wrapped key).
\<close>

section \<open>Wrapping\<close>

record AccountKey =
  ak_encKeyBytes :: bytes
  ak_macKeyBytes :: bytes

record WrappedAccountKey =
  wak_wrappedAccountKey :: string
  wak_wrappedAccountKeyIv :: string

definition account_aad :: "crypto \<Rightarrow> string \<Rightarrow> bytes" where
  "account_aad C email = utf8_encode (''nopass-v2-account-key:'' @ computeEmailHash C email)"

definition kek :: "crypto \<Rightarrow> bytes \<Rightarrow> string \<Rightarrow> CryptoKey js" where
  "kek C masterKey email =
     subtle_importRawAes
       (hkdf_sha256 C masterKey (utf8_encode (toLowerCase email)) (utf8_encode ''nopass-v2-account-kek'') 32)
       False [UseEncrypt, UseDecrypt]"

definition importAes :: "bytes \<Rightarrow> CryptoKey js" where
  "importAes bs = subtle_importRawAes bs False [UseEncrypt, UseDecrypt]"

definition account_bytes :: "AccountKey \<Rightarrow> bytes js" where
  "account_bytes account =
     rbind (ta_set (ta_new 64) (ak_encKeyBytes account) 0) (\<lambda>b. ta_set b (ak_macKeyBytes account) 32)"

definition accountSmkBytes :: "crypto \<Rightarrow> AccountKey \<Rightarrow> bytes js" where
  "accountSmkBytes C account =
     rbind (account_bytes account) (\<lambda>ikm.
     Inr (hkdf_sha256 C ikm [] (utf8_encode ''nopass-v2-smk'') 32))"

definition wrapAccountKey :: "crypto \<Rightarrow> bytes \<Rightarrow> AccountKey \<Rightarrow> bytes \<Rightarrow> string \<Rightarrow> WrappedAccountKey js" where
  "wrapAccountKey C iv account masterKey email =
     rbind (account_bytes account) (\<lambda>plaintext.
     rbind (kek C masterKey email) (\<lambda>k.
     rbind (subtle_encrypt C iv (account_aad C email) k plaintext) (\<lambda>ciphertext.
     Inr \<lparr>wak_wrappedAccountKey = toBase64 ciphertext, wak_wrappedAccountKeyIv = toBase64 iv\<rparr>)))"

definition unwrapAccountKey :: "crypto \<Rightarrow> WrappedAccountKey \<Rightarrow> bytes \<Rightarrow> string \<Rightarrow> AccountKey js" where
  "unwrapAccountKey C wrapped masterKey email =
     rbind (rcatch
       (rbind (fromBase64_js (wak_wrappedAccountKeyIv wrapped)) (\<lambda>iv.
        rbind (kek C masterKey email) (\<lambda>k.
        rbind (fromBase64_js (wak_wrappedAccountKey wrapped)) (\<lambda>ct.
        subtle_decrypt C iv (account_aad C email) k ct))))
       (\<lambda>_. Inl (AccountKeyError ''The account key could not be opened with this password.''))) (\<lambda>plaintext.
     Inr \<lparr>ak_encKeyBytes = ta_slice 0 32 plaintext, ak_macKeyBytes = ta_slice 32 64 plaintext\<rparr>)"

record UnlockedAccount = AccountKey +
  ua_smkBytes :: bytes
  ua_protectedPrivateKey :: "string option"
  ua_protectedPrivateKeyIv :: "string option"

definition unlocked :: "AccountKey \<Rightarrow> bytes \<Rightarrow> string option \<Rightarrow> string option \<Rightarrow> UnlockedAccount" where
  "unlocked account smkBytes ppk ppkIv = AccountKey.extend account (UnlockedAccount.fields smkBytes ppk ppkIv)"

definition importAccountKeys :: "UnlockedAccount \<Rightarrow> DerivedKeys js" where
  "importAccountKeys account =
     rbind (importAes (ua_smkBytes account)) (\<lambda>stretchedMasterKey.
     rbind (importAes (ak_encKeyBytes account)) (\<lambda>vaultEncKey.
     rbind (subtle_importRawHmac ''SHA-256'' (ak_macKeyBytes account) [UseSign, UseVerify]) (\<lambda>vaultMacKey.
     Inr \<lparr>dk_stretchedMasterKey = stretchedMasterKey, dk_vaultEncKey = vaultEncKey, dk_vaultMacKey = vaultMacKey\<rparr>)))"

section \<open>Opening an account\<close>

record 'v AccountKeyApi =
  aka_proofStart :: "'v proofStart_api"
  aka_setAccountKey :: "SetAccountKeyRequest \<Rightarrow> string \<Rightarrow> ('v, js_error, unit) io"
  aka_upgradeStart :: "UpgradeStartRequest \<Rightarrow> string \<Rightarrow> ('v, js_error, UpgradeStartResponse) io"
  aka_upgradeFinish :: "UpgradeFinishRequest \<Rightarrow> string \<Rightarrow> ('v, js_error, string) io"

text \<open>An absent, null or empty private key stays absent.\<close>

definition rewrapPrivateKey ::
  "crypto \<Rightarrow> bytes \<Rightarrow> 'r LoginResponse_scheme \<Rightarrow> bytes \<Rightarrow> bytes \<Rightarrow> (string option \<times> string option) js" where
  "rewrapPrivateKey C iv session from_key to_key =
     (case (nonempty_opt (lr_protectedPrivateKey session), nonempty_opt (lr_protectedPrivateKeyIv session)) of
        (Some ppk, Some ppkIv) \<Rightarrow>
          rbind (importAes from_key) (\<lambda>k.
          rbind (decryptBytes C \<lparr>eb_blob = ppk, eb_blobIv = ppkIv, eb_blobMac = ''''\<rparr> k) (\<lambda>pkcs8.
          rbind (importAes to_key) (\<lambda>k'.
          rbind (encryptBytes C iv pkcs8 k') (\<lambda>rewrapped.
          Inr (Some (eb_blob rewrapped), Some (eb_blobIv rewrapped))))))
      | _ \<Rightarrow> Inr (None, None))"

definition upgradeFromSrp ::
  "crypto \<Rightarrow> opaque_client \<Rightarrow> LoginRandom \<Rightarrow> 'v AccountKeyApi \<Rightarrow> string \<Rightarrow> string \<Rightarrow> string \<Rightarrow> WrappedAccountKey \<Rightarrow>
   string option \<times> string option \<Rightarrow> ('v, js_error, unit) io" where
  "upgradeFromSrp C oc rnd api email password sessionToken wrapped privateKey =
     io_bind (io_lift (srpStep1 (lrnd_srp rnd))) (\<lambda>step1.
     let (clientRegistrationState, registrationRequest) = startRegistration oc (lrnd_opaque rnd) password in
     io_bind (aka_upgradeStart api
                \<lparr>us_emailHash = computeEmailHash C email, us_clientPublicA = s1_clientPublicA step1,
                 us_registrationRequest = registrationRequest\<rparr> sessionToken) (\<lambda>started.
     io_bind (io_lift (srpStep2 C email password (ur_srpSalt started) (ur_serverPublicB started)
                (s1_privateSession step1))) (\<lambda>step2.
     io_bind (io_lift (assertKdfFloor (ur_kdfParams started))) (\<lambda>params.
     io_bind (io_lift (finishRegistration oc clientRegistrationState (ur_registrationResponse started) password
                (keyStretching params))) (\<lambda>registrationRecord.
     io_bind (aka_upgradeFinish api
                \<lparr>uf_upgradeId = ur_upgradeId started, uf_clientProofM1 = s2_clientProofM1 step2,
                 uf_registrationRecord = registrationRecord,
                 uf_wrappedAccountKey = wak_wrappedAccountKey wrapped,
                 uf_wrappedAccountKeyIv = wak_wrappedAccountKeyIv wrapped,
                 uf_protectedPrivateKey = fst privateKey, uf_protectedPrivateKeyIv = snd privateKey\<rparr>
                sessionToken) (\<lambda>serverProofM2.
     io_lift (s2_verifyServerProof step2 serverProofM2)))))))"

record UnlockRandom =
  ul_wrapIv :: bytes
  ul_rewrapIv :: bytes
  ul_login :: LoginRandom

definition migrateAccount ::
  "crypto \<Rightarrow> opaque_client \<Rightarrow> UnlockRandom \<Rightarrow> 'v AccountKeyApi \<Rightarrow> string \<Rightarrow> string \<Rightarrow> PasswordLoginResult \<Rightarrow>
   's AccountStateStore \<Rightarrow> bytes \<Rightarrow> ('v \<times> 's, js_error, UnlockedAccount) io" where
  "migrateAccount C oc rnd api email password session accountState masterKey =
     (let emailHash = computeEmailHash C email;
          legacy = stretchMasterKeyAllRaw C masterKey email;
          account = \<lparr>ak_encKeyBytes = rs_encKeyBytes legacy, ak_macKeyBytes = rs_macKeyBytes legacy\<rparr> in
      io_bind (io_lift (accountSmkBytes C account)) (\<lambda>smkBytes.
      io_bind (io_lift (wrapAccountKey C (ul_wrapIv rnd) account masterKey email)) (\<lambda>wrapped.
      io_bind (io_lift (rewrapPrivateKey C (ul_rewrapIv rnd) session (rs_smkBytes legacy) smkBytes)) (\<lambda>privateKey.
      io_bind
        (if plr_method session = MethodSrp then
           io_bind (on_server (upgradeFromSrp C oc (ul_login rnd) api email password (lr_sessionToken session)
                      wrapped privateKey)) (\<lambda>_.
           on_device (store_update accountState emailHash \<lparr>as_opaque = Some True, as_accountKey = Some True\<rparr>))
         else
           io_bind (on_server (provePassword C oc (lrnd_opaque (ul_login rnd)) (aka_proofStart api) email password
                      (lr_sessionToken session) PurposeAccountKey)) (\<lambda>proof.
           io_bind (on_server (aka_setAccountKey api
                      \<lparr>sak_proof = proof, sak_wrappedAccountKey = wak_wrappedAccountKey wrapped,
                       sak_wrappedAccountKeyIv = wak_wrappedAccountKeyIv wrapped,
                       sak_protectedPrivateKey = fst privateKey, sak_protectedPrivateKeyIv = snd privateKey\<rparr>
                      (lr_sessionToken session))) (\<lambda>_.
           on_device (store_update accountState emailHash \<lparr>as_opaque = None, as_accountKey = Some True\<rparr>)))) (\<lambda>_.
      io_return (unlocked account smkBytes (fst privateKey) (snd privateKey)))))))"

definition unlockAccount ::
  "crypto \<Rightarrow> opaque_client \<Rightarrow> UnlockRandom \<Rightarrow> 'v AccountKeyApi \<Rightarrow> string \<Rightarrow> string \<Rightarrow> PasswordLoginResult \<Rightarrow>
   's AccountStateStore \<Rightarrow> ('v \<times> 's, js_error, UnlockedAccount) io" where
  "unlockAccount C oc rnd api email password session accountState =
     (let emailHash = computeEmailHash C email in
      io_bind (io_lift (deriveMasterKey C password email DEFAULT_KDF_PARAMS)) (\<lambda>masterKey.
      case (nonempty_opt (lr_wrappedAccountKey session), nonempty_opt (lr_wrappedAccountKeyIv session)) of
        (Some wk, Some wkIv) \<Rightarrow>
          io_bind (io_lift (unwrapAccountKey C
                     \<lparr>wak_wrappedAccountKey = wk, wak_wrappedAccountKeyIv = wkIv\<rparr> masterKey email)) (\<lambda>account.
          io_bind (on_device (store_update accountState emailHash \<lparr>as_opaque = None, as_accountKey = Some True\<rparr>)) (\<lambda>_.
          io_bind (io_lift (accountSmkBytes C account)) (\<lambda>smkBytes.
          io_return (unlocked account smkBytes (lr_protectedPrivateKey session) (lr_protectedPrivateKeyIv session)))))
      | _ \<Rightarrow>
          io_bind (on_device (store_get accountState emailHash)) (\<lambda>state.
          io_bind (io_lift (read_flag state FlagAccountKey)) (\<lambda>accountKey.
          if accountKey then
            io_throw (AccountKeyError ''The server didn't return this account's key. Not unlocking.'')
          else migrateAccount C oc rnd api email password session accountState masterKey))))"

section \<open>Lemmas\<close>

definition account_ok :: "'r AccountKey_scheme \<Rightarrow> bool" where
  "account_ok a \<longleftrightarrow> length (ak_encKeyBytes a) = 32 \<and> length (ak_macKeyBytes a) = 32"

lemma account_bytes_eq: "account_ok a \<Longrightarrow> account_bytes a = Inr (ak_encKeyBytes a @ ak_macKeyBytes a)"
  by (simp add: account_bytes_def ta_set_def ta_new_def account_ok_def)

lemma kek_ok:
  assumes "hkdf_lengths C"
  shows "\<exists>k. kek C mk email = Inr k \<and> aes_key_ok k"
  using assms by (simp add: kek_def subtle_importRawAes_def hkdf_lengths_def aes_key_ok_def ck_allows_def)

lemma kek_allows: "kek C mk email = Inr k \<Longrightarrow> aes_key_ok k"
  by (auto simp: kek_def importRawAes_key aes_key_ok_def ck_allows_def)

lemma unwrap_wrapAccountKey:
  assumes "aead_correct C" "account_ok a" "wrapAccountKey C iv a mk email = Inr w"
  shows "unwrapAccountKey C w mk email = Inr a"
proof -
  obtain k c where k: "kek C mk email = Inr k"
    and c: "subtle_encrypt C iv (account_aad C email) k (ak_encKeyBytes a @ ak_macKeyBytes a) = Inr c"
    and w: "w = \<lparr>wak_wrappedAccountKey = toBase64 c, wak_wrappedAccountKeyIv = toBase64 iv\<rparr>"
    using assms(3) by (auto simp: wrapAccountKey_def account_bytes_eq [OF assms(2)] rbind_eq_Inr)
  have "subtle_decrypt C iv (account_aad C email) k c = Inr (ak_encKeyBytes a @ ak_macKeyBytes a)"
    using subtle_decrypt_encrypt [OF assms(1) kek_allows [OF k] c] .
  then show ?thesis using assms(2)
    by (simp add: unwrapAccountKey_def w k ta_slice_def account_ok_def)
qed

lemma wrapAccountKey_succeeds:
  assumes "hkdf_lengths C" "account_ok a"
  shows "\<exists>w. wrapAccountKey C iv a mk email = Inr w"
  using kek_ok [OF assms(1), of mk email]
  by (auto simp: wrapAccountKey_def account_bytes_eq [OF assms(2)] subtle_encrypt_def aes_key_ok_def)

lemma unwrapAccountKey_error: "unwrapAccountKey C w mk email = Inl e \<Longrightarrow>
    e = AccountKeyError ''The account key could not be opened with this password.''"
  by (auto simp: unwrapAccountKey_def rbind_eq_Inl elim: rcatch.elims)

lemma account_ok_legacy:
  "hkdf_lengths C \<Longrightarrow> account_ok \<lparr>ak_encKeyBytes = rs_encKeyBytes (stretchMasterKeyAllRaw C mk email),
     ak_macKeyBytes = rs_macKeyBytes (stretchMasterKeyAllRaw C mk email)\<rparr>"
  by (simp add: account_ok_def stretchMasterKeyAllRaw_def length_hkdf_subkey)

lemma importAes_key: "importAes bs = Inr k \<Longrightarrow> aes_key_ok k \<and> ck_material k = bs"
  by (auto simp: importAes_def importRawAes_key aes_key_ok_def ck_allows_def)

text \<open>
  A private key has moved from one wrapping key to another: it was absent and stays absent, or the new
  wrap opens under the new key to the bytes the old wrap opened to under the old one.
\<close>

definition opens_to :: "crypto \<Rightarrow> string \<Rightarrow> string \<Rightarrow> bytes \<Rightarrow> bytes \<Rightarrow> bool" where
  "opens_to C blob iv rawKey m \<longleftrightarrow>
     (\<exists>k. importAes rawKey = Inr k \<and> decryptBytes C \<lparr>eb_blob = blob, eb_blobIv = iv, eb_blobMac = ''''\<rparr> k = Inr m)"

definition private_key_moved ::
  "crypto \<Rightarrow> string option \<Rightarrow> string option \<Rightarrow> bytes \<Rightarrow> string option \<Rightarrow> string option \<Rightarrow> bytes \<Rightarrow> bool" where
  "private_key_moved C ppk ppkIv oldKey ppk' ppkIv' newKey \<longleftrightarrow>
     (case (nonempty_opt ppk, nonempty_opt ppkIv) of
        (Some b, Some iv) \<Rightarrow> (\<exists>b' iv' m. ppk' = Some b' \<and> ppkIv' = Some iv' \<and>
          opens_to C b iv oldKey m \<and> opens_to C b' iv' newKey m)
      | _ \<Rightarrow> ppk' = None \<and> ppkIv' = None)"

lemma encryptBytes_opens:
  assumes "aead_correct C" "importAes raw = Inr k" "encryptBytes C iv m k = Inr r"
  shows "opens_to C (eb_blob r) (eb_blobIv r) raw m"
proof -
  have "ck_allows k AesGcm UseDecrypt" using importAes_key [OF assms(2)] by (simp add: aes_key_ok_def)
  then have "decryptBytes C r k = Inr m" using decryptBytes_encryptBytes [OF assms(1) _ assms(3)] by blast
  then show ?thesis using assms(2) by (simp add: opens_to_def decryptBytes_def)
qed

lemma rewrapPrivateKey_opens:
  assumes "aead_correct C" "rewrapPrivateKey C iv session k1 k2 = Inr (p, piv)"
  shows "private_key_moved C (lr_protectedPrivateKey session) (lr_protectedPrivateKeyIv session) k1 p piv k2"
proof (cases "nonempty_opt (lr_protectedPrivateKey session)")
  case (Some b)
  then show ?thesis
  proof (cases "nonempty_opt (lr_protectedPrivateKeyIv session)")
    fix biv
    assume biv: "nonempty_opt (lr_protectedPrivateKeyIv session) = Some biv"
    obtain key1 pkcs8 key2 r where r: "importAes k1 = Inr key1"
        "decryptBytes C \<lparr>eb_blob = b, eb_blobIv = biv, eb_blobMac = ''''\<rparr> key1 = Inr pkcs8"
        "importAes k2 = Inr key2" "encryptBytes C iv pkcs8 key2 = Inr r" "p = Some (eb_blob r)" "piv = Some (eb_blobIv r)"
      using assms(2) Some biv by (auto simp: rewrapPrivateKey_def rbind_eq_Inr)
    then have "opens_to C b biv k1 pkcs8" by (auto simp: opens_to_def)
    then show ?thesis
      using Some biv r(5,6) encryptBytes_opens [OF assms(1) r(3,4)] by (auto simp: private_key_moved_def)
  qed (use assms(2) in \<open>simp add: rewrapPrivateKey_def private_key_moved_def\<close>)
qed (use assms(2) in \<open>simp add: rewrapPrivateKey_def private_key_moved_def\<close>)

context account_state_store
begin

lemma migrate_remembers:
  assumes "store_ok s" "migrateAccount C oc rnd api email pw session store mk (v, s) = (Inr a, (v', s'))"
  shows "store_ok s' \<and> flag s' (computeEmailHash C email) FlagAccountKey"
proof -
  let ?h = "computeEmailHash C email"
  have "s' = snd (store_update store ?h \<lparr>as_opaque = Some True, as_accountKey = Some True\<rparr> s) \<or>
        s' = snd (store_update store ?h \<lparr>as_opaque = None, as_accountKey = Some True\<rparr> s)"
    using assms(2) by (auto simp: migrateAccount_def Let_def io_simps split: prod.splits sum.splits if_splits)
  then show ?thesis
    using update_sets [OF assms(1), of _ FlagAccountKey ?h] by auto
qed

lemma unlock_remembers:
  assumes "store_ok s" "unlockAccount C oc rnd api email pw session store (v, s) = (Inr a, (v', s'))"
  shows "store_ok s' \<and> flag s' (computeEmailHash C email) FlagAccountKey"
proof -
  let ?h = "computeEmailHash C email"
  obtain j where j: "store_get store ?h s = (Inr j, s)" using get_reads [OF assms(1)] by blast
  obtain mk where mk: "deriveMasterKey C pw email DEFAULT_KDF_PARAMS = Inr mk"
    using assms(2) by (auto simp: unlockAccount_def Let_def io_simps split: sum.splits)
  show ?thesis
  proof (cases "nonempty_opt (lr_wrappedAccountKey session) \<noteq> None \<and> nonempty_opt (lr_wrappedAccountKeyIv session) \<noteq> None")
    case True
    then have "s' = snd (store_update store ?h \<lparr>as_opaque = None, as_accountKey = Some True\<rparr> s)"
      using assms(2) by (auto simp: unlockAccount_def Let_def io_simps split: prod.splits sum.splits)
    then show ?thesis using update_sets [OF assms(1), of _ FlagAccountKey ?h] by simp
  next
    case False
    then have "migrateAccount C oc rnd api email pw session store mk (v, s) = (Inr a, (v', s'))"
      using assms(2) j mk by (auto simp: unlockAccount_def Let_def io_simps split: option.splits sum.splits if_splits)
    then show ?thesis by (rule migrate_remembers [OF assms(1)])
  qed
qed

text \<open>A device that knows the account is migrated does not derive legacy keys.\<close>

lemma unlock_refuses_missing_wrap:
  assumes "store_ok s" "flag s (computeEmailHash C email) FlagAccountKey"
    "nonempty_opt (lr_wrappedAccountKey session) = None \<or> nonempty_opt (lr_wrappedAccountKeyIv session) = None"
    "deriveMasterKey C pw email DEFAULT_KDF_PARAMS = Inr mk"
  shows "unlockAccount C oc rnd api email pw session store (v, s) =
    (Inl (AccountKeyError ''The server didn't return this account's key. Not unlocking.''), (v, s))"
proof -
  obtain j where "store_get store (computeEmailHash C email) s = (Inr j, s)" "read_flag j FlagAccountKey = Inr True"
    using get_reads [OF assms(1), of "computeEmailHash C email" FlagAccountKey] assms(2) by auto
  then show ?thesis using assms(3,4) by (auto simp: unlockAccount_def Let_def io_simps split: option.splits)
qed

end

section \<open>What a migration sends\<close>

lemma unlocked_simps [simp]:
  "ak_encKeyBytes (unlocked a s p i) = ak_encKeyBytes a" "ak_macKeyBytes (unlocked a s p i) = ak_macKeyBytes a"
  "ua_smkBytes (unlocked a s p i) = s" "ua_protectedPrivateKey (unlocked a s p i) = p"
  "ua_protectedPrivateKeyIv (unlocked a s p i) = i"
  by (simp_all add: unlocked_def AccountKey.defs UnlockedAccount.defs)

text \<open>The server accepted a request that carries this wrapped account key.\<close>

definition wrap_accepted :: "'v AccountKeyApi \<Rightarrow> string \<Rightarrow> WrappedAccountKey \<Rightarrow> bool" where
  "wrap_accepted api token w \<longleftrightarrow>
     (\<exists>req v1 v2. aka_setAccountKey api req token v1 = (Inr (), v2) \<and>
        sak_wrappedAccountKey req = wak_wrappedAccountKey w \<and> sak_wrappedAccountKeyIv req = wak_wrappedAccountKeyIv w) \<or>
     (\<exists>req v1 v2 m2. aka_upgradeFinish api req token v1 = (Inr m2, v2) \<and>
        uf_wrappedAccountKey req = wak_wrappedAccountKey w \<and> uf_wrappedAccountKeyIv req = wak_wrappedAccountKeyIv w)"

lemma upgradeFromSrp_sends:
  assumes "upgradeFromSrp C oc rnd api email pw token w pk v = (Inr (), v')"
  shows "wrap_accepted api token w"
proof -
  have "wrap_accepted api token w" if "aka_upgradeFinish api
      \<lparr>uf_upgradeId = i, uf_clientProofM1 = m1, uf_registrationRecord = r, uf_wrappedAccountKey = wak_wrappedAccountKey w,
       uf_wrappedAccountKeyIv = wak_wrappedAccountKeyIv w, uf_protectedPrivateKey = x, uf_protectedPrivateKeyIv = y\<rparr>
      token v1 = (Inr m2, v2)" for i m1 r x y v1 m2 v2
    using that unfolding wrap_accepted_def by (metis UpgradeFinishRequest.select_convs(4,5))
  then show ?thesis
    using assms by (cases "startRegistration oc (lrnd_opaque rnd) pw")
      (auto simp: upgradeFromSrp_def io_bind_Inr io_run Let_def)
qed

lemma migrateAccount_result:
  assumes "migrateAccount C oc rnd api email pw session st mk (v, s) = (Inr a, w')"
  defines "legacy \<equiv> stretchMasterKeyAllRaw C mk email"
  shows "\<exists>w. wrapAccountKey C (ul_wrapIv rnd) \<lparr>ak_encKeyBytes = rs_encKeyBytes legacy, ak_macKeyBytes = rs_macKeyBytes legacy\<rparr> mk email = Inr w \<and>
    wrap_accepted api (lr_sessionToken session) w \<and>
    ak_encKeyBytes a = rs_encKeyBytes legacy \<and> ak_macKeyBytes a = rs_macKeyBytes legacy \<and>
    rewrapPrivateKey C (ul_rewrapIv rnd) session (rs_smkBytes legacy) (ua_smkBytes a) =
      Inr (ua_protectedPrivateKey a, ua_protectedPrivateKeyIv a)"
proof -
  let ?acc = "\<lparr>ak_encKeyBytes = rs_encKeyBytes legacy, ak_macKeyBytes = rs_macKeyBytes legacy\<rparr>"
  obtain smk w pk pkIv where w: "wrapAccountKey C (ul_wrapIv rnd) ?acc mk email = Inr w"
    and pk: "rewrapPrivateKey C (ul_rewrapIv rnd) session (rs_smkBytes legacy) smk = Inr (pk, pkIv)"
    and a: "a = unlocked ?acc smk pk pkIv" and acc: "wrap_accepted api (lr_sessionToken session) w"
  proof (cases "plr_method session = MethodSrp")
    case True
    then show ?thesis using assms(1) that unfolding migrateAccount_def legacy_def
      by (auto simp: io_bind_Inr io_run Let_def on_server_eq on_device_eq dest!: upgradeFromSrp_sends)
  next
    case False
    have "wrap_accepted api t w" if "aka_setAccountKey api \<lparr>sak_proof = p, sak_wrappedAccountKey = wak_wrappedAccountKey w,
        sak_wrappedAccountKeyIv = wak_wrappedAccountKeyIv w, sak_protectedPrivateKey = x, sak_protectedPrivateKeyIv = y\<rparr> t v1 = (Inr (), v2)"
      for t w p x y v1 v2
      using that unfolding wrap_accepted_def by (metis SetAccountKeyRequest.select_convs(2,3))
    with False show ?thesis using assms(1) that unfolding migrateAccount_def legacy_def
      by (auto simp: io_bind_Inr io_run Let_def on_server_eq on_device_eq)
  qed
  then show ?thesis by auto
qed

section \<open>Theorems\<close>

text \<open>
  The account key survives its wrap: wrapping a 64-byte account key under a password always
  succeeds, and opening the wrap with the same master key and email, in any letter case, gives it back;
  every failure to open is reported as \<open>AccountKeyError\<close>.
\<close>

theorem account_key_roundtrip:
  assumes "aead_correct C" "hkdf_lengths C" "account_ok a"
  shows "\<exists>w. wrapAccountKey C iv a mk email = Inr w \<and> unwrapAccountKey C w mk (toLowerCase email) = Inr a \<and>
    (\<forall>w' mk' e. unwrapAccountKey C w' mk' email = Inl e \<longrightarrow>
       e = AccountKeyError ''The account key could not be opened with this password.'')"
proof -
  obtain w where w: "wrapAccountKey C iv a mk email = Inr w" using wrapAccountKey_succeeds [OF assms(2,3)] by blast
  have "unwrapAccountKey C w mk (toLowerCase email) = unwrapAccountKey C w mk email"
    by (simp add: unwrapAccountKey_def kek_def account_aad_def computeEmailHash_case)
  then show ?thesis using w unwrap_wrapAccountKey [OF assms(1,3) w] unwrapAccountKey_error by auto
qed

definition demo_account :: AccountKey where
  "demo_account = \<lparr>ak_encKeyBytes = replicate 32 4, ak_macKeyBytes = replicate 32 5\<rparr>"

theorem account_key_roundtrip_witness:
  "\<exists>w. wrapAccountKey demo_crypto (replicate 12 0) demo_account [1, 2] ''A@b'' = Inr w \<and>
       unwrapAccountKey demo_crypto w [1, 2] (toLowerCase ''A@b'') = Inr demo_account"
  using account_key_roundtrip [OF demo_aead_correct demo_lengths(1), of demo_account "replicate 12 0" "[1, 2]" "''A@b''"]
  by (auto simp: account_ok_def demo_account_def)

text \<open>
  Legacy keys are never derived again after migration. Once a device has unlocked an account (by
  its wrap, by the SRP upgrade or by wrapping its legacy keys), any later unlock of that account on
  the device with a session in which the server left the wrapped key out is refused with
  \<open>AccountKeyError\<close>, before any request is sent and with nothing changed on either side.
\<close>

theorem migrated_account_never_legacy:
  assumes "account_state_store store store_ok flag" "store_ok s"
    and "unlockAccount C oc rnd api email pw session store (v, s) = (Inr a, (v1, s1))"
    and "computeEmailHash C email2 = computeEmailHash C email"
    and "nonempty_opt (lr_wrappedAccountKey session2) = None \<or> nonempty_opt (lr_wrappedAccountKeyIv session2) = None"
    and "deriveMasterKey C pw2 email2 DEFAULT_KDF_PARAMS = Inr mk"
  shows "unlockAccount C oc2 rnd2 api2 email2 pw2 session2 store (v2, s1) =
    (Inl (AccountKeyError ''The server didn't return this account's key. Not unlocking.''), (v2, s1))"
proof -
  have "store_ok s1" "flag s1 (computeEmailHash C email2) FlagAccountKey"
    using account_state_store.unlock_remembers [OF assms(1-3)] assms(4) by simp_all
  from account_state_store.unlock_refuses_missing_wrap [OF assms(1) this assms(5,6)] show ?thesis .
qed

definition demo_ak_api :: "unit AccountKeyApi" where
  "demo_ak_api = \<lparr>
     aka_proofStart = (\<lambda>_ _. io_return \<lparr>ppr_proofId = ''p'', ppr_loginResponse = ''pw'', ppr_kdfParams = DEFAULT_KDF_PARAMS\<rparr>),
     aka_setAccountKey = (\<lambda>_ _. io_return ()),
     aka_upgradeStart = (\<lambda>_ _. io_throw DOMException),
     aka_upgradeFinish = (\<lambda>_ _. io_throw DOMException)\<rparr>"

definition demo_unlock_rnd :: UnlockRandom where
  "demo_unlock_rnd = \<lparr>ul_wrapIv = replicate 12 0, ul_rewrapIv = replicate 12 1, ul_login = demo_rnd\<rparr>"

lemma demo_derive: "\<exists>mk. deriveMasterKey demo_crypto pw email DEFAULT_KDF_PARAMS = Inr mk"
  by (simp add: deriveMasterKey_def Let_def demo_crypto_def DEFAULT_KDF_PARAMS_def)

lemma demo_unlock:
  "\<exists>mk a s1. deriveMasterKey demo_crypto ''pw'' ''a@b'' DEFAULT_KDF_PARAMS = Inr mk \<and>
    migrateAccount demo_crypto demo_opaque demo_unlock_rnd demo_ak_api ''a@b'' ''pw''
      (with_method MethodOpaque demo_login_response) memoryAccountState mk ((), Map.empty) = (Inr a, ((), s1)) \<and>
    unlockAccount demo_crypto demo_opaque demo_unlock_rnd demo_ak_api ''a@b'' ''pw''
      (with_method MethodOpaque demo_login_response) memoryAccountState ((), Map.empty) = (Inr a, ((), s1))"
proof -
  let ?C = demo_crypto
  obtain mk where mk: "deriveMasterKey ?C ''pw'' ''a@b'' DEFAULT_KDF_PARAMS = Inr mk" using demo_derive by blast
  let ?l = "stretchMasterKeyAllRaw ?C mk ''a@b''"
  let ?a = "\<lparr>ak_encKeyBytes = rs_encKeyBytes ?l, ak_macKeyBytes = rs_macKeyBytes ?l\<rparr>"
  have ok: "account_ok ?a" by (rule account_ok_legacy [OF demo_lengths(1)])
  obtain w where w: "wrapAccountKey ?C (ul_wrapIv demo_unlock_rnd) ?a mk ''a@b'' = Inr w"
    using wrapAccountKey_succeeds [OF demo_lengths(1) ok] by blast
  have f: "read_flag (JObj []) FlagAccountKey = Inr False" by (simp add: read_flag_def)
  have n: "nonempty_opt (lr_wrappedAccountKey demo_login_response) = None"
    "lr_protectedPrivateKey (with_method MethodOpaque demo_login_response) = None"
    by (simp_all add: nonempty_opt_def demo_login_response_def with_method_def LoginResponse.defs)
  have g: "store_get memoryAccountState h Map.empty = (Inr (JObj []), Map.empty)" for h
    by (simp add: memoryAccountState_def)
  have p: "provePassword ?C demo_opaque r (aka_proofStart demo_ak_api) e ''pw'' t PurposeAccountKey () =
      (Inr \<lparr>pp_proofId = ''p'', pp_finishLoginRequest = ''finish''\<rparr>, ())" for r e t
    by (simp add: provePassword_def demo_opaque_def demo_ak_api_def io_simps assertKdfFloor_iff default_params_strong)
  have "\<exists>a s1. migrateAccount ?C demo_opaque demo_unlock_rnd demo_ak_api ''a@b'' ''pw''
      (with_method MethodOpaque demo_login_response) memoryAccountState mk ((), Map.empty) = (Inr a, ((), s1))"
    by (simp add: migrateAccount_def Let_def io_simps accountSmkBytes_def account_bytes_eq [OF ok] w p
        rewrapPrivateKey_def n nonempty_opt_def)
      (simp add: demo_ak_api_def memoryAccountState_def io_simps)
  then show ?thesis
    by (auto simp: unlockAccount_def Let_def io_simps mk n(1) g f)
qed

theorem migrated_account_never_legacy_witness:
  "\<exists>s1. unlockAccount demo_crypto demo_opaque demo_unlock_rnd demo_ak_api ''a@b'' ''pw''
      (with_method MethodOpaque demo_login_response) memoryAccountState ((), s1) =
    (Inl (AccountKeyError ''The server didn't return this account's key. Not unlocking.''), ((), s1))"
proof -
  obtain a s1 where u: "unlockAccount demo_crypto demo_opaque demo_unlock_rnd demo_ak_api ''a@b'' ''pw''
      (with_method MethodOpaque demo_login_response) memoryAccountState ((), Map.empty) = (Inr a, ((), s1))"
    using demo_unlock by blast
  obtain mk where mk: "deriveMasterKey demo_crypto ''pw'' ''a@b'' DEFAULT_KDF_PARAMS = Inr mk" using demo_derive by blast
  have wk: "nonempty_opt (lr_wrappedAccountKey (with_method MethodOpaque demo_login_response)) = None \<or>
      nonempty_opt (lr_wrappedAccountKeyIv (with_method MethodOpaque demo_login_response)) = None"
    by (simp add: nonempty_opt_def demo_login_response_def)
  show ?thesis
    by (intro exI [of _ s1]) (rule migrated_account_never_legacy [OF memory_store.account_state_store_axioms TrueI u refl wk mk])
qed

text \<open>
  C11. Migration changes no vault key. When a legacy account is migrated, the unlocked keys are exactly
  the ones its password derives; the server has accepted a wrapped key; and opening that wrap with the
  password's master key, as the next login will, gives the same keys. The private key handed on is one
  the new smk opens to the same bytes as the legacy smk opened before.
\<close>

theorem migration_keeps_keys:
  assumes "aead_correct C" "hkdf_lengths C"
    and "migrateAccount C oc rnd api email pw session st mk (v, s) = (Inr a, w')"
  shows "(ak_encKeyBytes a, ak_macKeyBytes a) = stretchMasterKeyRaw C mk email \<and>
    (\<exists>w. wrap_accepted api (lr_sessionToken session) w \<and>
       unwrapAccountKey C w mk email = Inr \<lparr>ak_encKeyBytes = ak_encKeyBytes a, ak_macKeyBytes = ak_macKeyBytes a\<rparr>) \<and>
    private_key_moved C (lr_protectedPrivateKey session) (lr_protectedPrivateKeyIv session)
      (rs_smkBytes (stretchMasterKeyAllRaw C mk email))
      (ua_protectedPrivateKey a) (ua_protectedPrivateKeyIv a) (ua_smkBytes a)"
proof -
  let ?l = "stretchMasterKeyAllRaw C mk email"
  obtain w where w: "wrapAccountKey C (ul_wrapIv rnd) \<lparr>ak_encKeyBytes = rs_encKeyBytes ?l, ak_macKeyBytes = rs_macKeyBytes ?l\<rparr> mk email = Inr w"
    and acc: "wrap_accepted api (lr_sessionToken session) w"
    and a: "ak_encKeyBytes a = rs_encKeyBytes ?l" "ak_macKeyBytes a = rs_macKeyBytes ?l"
    and pk: "rewrapPrivateKey C (ul_rewrapIv rnd) session (rs_smkBytes ?l) (ua_smkBytes a) =
      Inr (ua_protectedPrivateKey a, ua_protectedPrivateKeyIv a)"
    using migrateAccount_result [OF assms(3)] by blast
  have "unwrapAccountKey C w mk email = Inr \<lparr>ak_encKeyBytes = rs_encKeyBytes ?l, ak_macKeyBytes = rs_macKeyBytes ?l\<rparr>"
    using unwrap_wrapAccountKey [OF assms(1) account_ok_legacy [OF assms(2)] w] .
  moreover have "(ak_encKeyBytes a, ak_macKeyBytes a) = stretchMasterKeyRaw C mk email"
    using a by (simp add: stretchMasterKeyAllRaw_def stretchMasterKeyRaw_def)
  moreover note rewrapPrivateKey_opens [OF assms(1) pk]
  ultimately show ?thesis using acc a by auto
qed

theorem migration_keeps_keys_witness:
  "\<exists>mk a s1. migrateAccount demo_crypto demo_opaque demo_unlock_rnd demo_ak_api ''a@b'' ''pw''
      (with_method MethodOpaque demo_login_response) memoryAccountState mk ((), Map.empty) = (Inr a, ((), s1)) \<and>
    (ak_encKeyBytes a, ak_macKeyBytes a) = stretchMasterKeyRaw demo_crypto mk ''a@b''"
proof -
  obtain mk a s1 where m: "migrateAccount demo_crypto demo_opaque demo_unlock_rnd demo_ak_api ''a@b'' ''pw''
      (with_method MethodOpaque demo_login_response) memoryAccountState mk ((), Map.empty) = (Inr a, ((), s1))"
    using demo_unlock by blast
  show ?thesis using migration_keeps_keys [OF demo_aead_correct demo_lengths(1) m] m by blast
qed

end
