(* ===== verification/Password_Change.thy ===== *)
theory Password_Change
  imports Account_Key
begin

text \<open>
  Changing the master password, \<open>packages/crypto/src/password-change.ts\<close>: open the account key with
  the current password, wrap it under the new one, register the new password, all in one finish
  request.
\<close>

record 'v PasswordChangeApi =
  passwordChangeStart :: "PasswordChangeStartRequest \<Rightarrow> string \<Rightarrow> ('v, js_error, PasswordChangeStartResponse) io"
  passwordChangeFinish :: "PasswordChangeFinishRequest \<Rightarrow> string \<Rightarrow> ('v, js_error, unit) io"

record PasswordChangeOptions =
  pco_email :: string
  pco_sessionToken :: string
  pco_currentPassword :: string
  pco_newPassword :: string

record ChangeRandom =
  crnd_login :: bytes
  crnd_registration :: bytes
  crnd_wrapIv :: bytes

definition changeMasterPassword ::
  "crypto \<Rightarrow> opaque_client \<Rightarrow> ChangeRandom \<Rightarrow> 'v PasswordChangeApi \<Rightarrow> PasswordChangeOptions \<Rightarrow>
   ('v, js_error, unit) io" where
  "changeMasterPassword C oc rnd api opts =
     (let email = pco_email opts;
          (clientLoginState, startLoginRequest) = startLogin oc (crnd_login rnd) (pco_currentPassword opts);
          (clientRegistrationState, registrationRequest) =
            startRegistration oc (crnd_registration rnd) (pco_newPassword opts) in
      io_bind (passwordChangeStart api
                 \<lparr>pcs_emailHash = computeEmailHash C email, pcs_startLoginRequest = startLoginRequest,
                  pcs_registrationRequest = registrationRequest\<rparr> (pco_sessionToken opts)) (\<lambda>started.
      io_bind (io_lift (assertKdfFloor (pcr_kdfParams started))) (\<lambda>params.
      io_bind (io_lift (finishLogin oc clientLoginState (pcr_loginResponse started) (pco_currentPassword opts)
                 (keyStretching params))) (\<lambda>proof.
      case proof of
        None \<Rightarrow> io_throw IncorrectPasswordError
      | Some finishLoginRequest \<Rightarrow>
          io_bind (io_lift (assertKdfFloor (pcr_kdfParams started))) (\<lambda>params2.
          io_bind (io_lift (finishRegistration oc clientRegistrationState (pcr_registrationResponse started)
                     (pco_newPassword opts) (keyStretching params2))) (\<lambda>registrationRecord.
          io_bind (io_lift (deriveMasterKey C (pco_currentPassword opts) email DEFAULT_KDF_PARAMS)) (\<lambda>oldMaster.
          io_bind (io_lift (deriveMasterKey C (pco_newPassword opts) email DEFAULT_KDF_PARAMS)) (\<lambda>newMaster.
          io_bind (io_lift (unwrapAccountKey C
                     \<lparr>wak_wrappedAccountKey = pcr_wrappedAccountKey started,
                      wak_wrappedAccountKeyIv = pcr_wrappedAccountKeyIv started\<rparr> oldMaster email)) (\<lambda>account.
          io_bind (io_lift (wrapAccountKey C (crnd_wrapIv rnd) account newMaster email)) (\<lambda>rewrapped.
          passwordChangeFinish api
            \<lparr>pcf_changeId = pcr_changeId started, pcf_finishLoginRequest = finishLoginRequest,
             pcf_registrationRecord = registrationRecord,
             pcf_wrappedAccountKey = wak_wrappedAccountKey rewrapped,
             pcf_wrappedAccountKeyIv = wak_wrappedAccountKeyIv rewrapped\<rparr>
            (pco_sessionToken opts)))))))))))"

lemma wrapped_eta [simp]:
  "\<lparr>wak_wrappedAccountKey = wak_wrappedAccountKey w, wak_wrappedAccountKeyIv = wak_wrappedAccountKeyIv w\<rparr> =
     (w :: WrappedAccountKey)"
  by (cases w) simp

text \<open>
  C12. A successful password change changes only the password: the server accepted a finish request
  whose wrapped key opens, with the master key of the new password, to the very account key that the
  served wrap opened to with the master key of the current one, so every item stays readable.
\<close>

theorem password_change_keeps_account_key:
  assumes "aead_correct C"
    and "changeMasterPassword C oc rnd api opts v = (Inr (), v')"
  shows "\<exists>started req oldMaster newMaster account v1.
    passwordChangeStart api \<lparr>pcs_emailHash = computeEmailHash C (pco_email opts),
        pcs_startLoginRequest = snd (startLogin oc (crnd_login rnd) (pco_currentPassword opts)),
        pcs_registrationRequest = snd (startRegistration oc (crnd_registration rnd) (pco_newPassword opts))\<rparr>
      (pco_sessionToken opts) v = (Inr started, v1) \<and> kdf_strong (pcr_kdfParams started) \<and>
    passwordChangeFinish api req (pco_sessionToken opts) v1 = (Inr (), v') \<and>
    deriveMasterKey C (pco_currentPassword opts) (pco_email opts) DEFAULT_KDF_PARAMS = Inr oldMaster \<and>
    deriveMasterKey C (pco_newPassword opts) (pco_email opts) DEFAULT_KDF_PARAMS = Inr newMaster \<and>
    unwrapAccountKey C \<lparr>wak_wrappedAccountKey = pcr_wrappedAccountKey started,
      wak_wrappedAccountKeyIv = pcr_wrappedAccountKeyIv started\<rparr> oldMaster (pco_email opts) = Inr account \<and>
    (account_ok account \<longrightarrow>
      unwrapAccountKey C \<lparr>wak_wrappedAccountKey = pcf_wrappedAccountKey req,
        wak_wrappedAccountKeyIv = pcf_wrappedAccountKeyIv req\<rparr> newMaster (pco_email opts) = Inr account)"
proof -
  obtain ls lq where l: "startLogin oc (crnd_login rnd) (pco_currentPassword opts) = (ls, lq)" by fastforce
  obtain rs rq where r: "startRegistration oc (crnd_registration rnd) (pco_newPassword opts) = (rs, rq)" by fastforce
  obtain started v1 f regRecord om nm acc rw where
    st: "passwordChangeStart api \<lparr>pcs_emailHash = computeEmailHash C (pco_email opts), pcs_startLoginRequest = lq,
        pcs_registrationRequest = rq\<rparr> (pco_sessionToken opts) v = (Inr started, v1)" "kdf_strong (pcr_kdfParams started)"
    and mk: "deriveMasterKey C (pco_currentPassword opts) (pco_email opts) DEFAULT_KDF_PARAMS = Inr om"
      "deriveMasterKey C (pco_newPassword opts) (pco_email opts) DEFAULT_KDF_PARAMS = Inr nm"
    and un: "unwrapAccountKey C \<lparr>wak_wrappedAccountKey = pcr_wrappedAccountKey started,
      wak_wrappedAccountKeyIv = pcr_wrappedAccountKeyIv started\<rparr> om (pco_email opts) = Inr acc"
    and rw: "wrapAccountKey C (crnd_wrapIv rnd) acc nm (pco_email opts) = Inr rw"
    and fin: "passwordChangeFinish api \<lparr>pcf_changeId = pcr_changeId started, pcf_finishLoginRequest = f,
             pcf_registrationRecord = regRecord, pcf_wrappedAccountKey = wak_wrappedAccountKey rw,
             pcf_wrappedAccountKeyIv = wak_wrappedAccountKeyIv rw\<rparr> (pco_sessionToken opts) v1 = (Inr (), v')"
    using assms(2) by (auto simp: changeMasterPassword_def l r Let_def io_bind_Inr io_run assertKdfFloor_iff
        split: option.splits if_splits)
  let ?req = "\<lparr>pcf_changeId = pcr_changeId started, pcf_finishLoginRequest = f,
             pcf_registrationRecord = regRecord, pcf_wrappedAccountKey = wak_wrappedAccountKey rw,
             pcf_wrappedAccountKeyIv = wak_wrappedAccountKeyIv rw\<rparr>"
  have "account_ok acc \<longrightarrow> unwrapAccountKey C \<lparr>wak_wrappedAccountKey = pcf_wrappedAccountKey ?req,
        wak_wrappedAccountKeyIv = pcf_wrappedAccountKeyIv ?req\<rparr> nm (pco_email opts) = Inr acc"
    using unwrap_wrapAccountKey [OF assms(1) _ rw] by simp
  with st mk un fin show ?thesis unfolding l r snd_conv by blast
qed

section \<open>A sample run\<close>

text \<open>A server that keeps the wrap it served and remembers the last finish request.\<close>

definition demo_change_api :: "WrappedAccountKey \<Rightarrow> PasswordChangeFinishRequest option PasswordChangeApi" where
  "demo_change_api w = \<lparr>
     passwordChangeStart = (\<lambda>_ _. io_return \<lparr>pcr_changeId = ''c'', pcr_loginResponse = ''pw'',
        pcr_kdfParams = DEFAULT_KDF_PARAMS, pcr_registrationResponse = ''r'',
        pcr_wrappedAccountKey = wak_wrappedAccountKey w, pcr_wrappedAccountKeyIv = wak_wrappedAccountKeyIv w\<rparr>),
     passwordChangeFinish = (\<lambda>req _ _. (Inr (), Some req))\<rparr>"

definition demo_change_opts :: PasswordChangeOptions where
  "demo_change_opts = \<lparr>pco_email = ''a@b'', pco_sessionToken = ''t'', pco_currentPassword = ''pw'', pco_newPassword = ''new''\<rparr>"

definition demo_change_rnd :: ChangeRandom where
  "demo_change_rnd = \<lparr>crnd_login = [1], crnd_registration = [2], crnd_wrapIv = replicate 12 3\<rparr>"

lemma demo_change:
  "\<exists>w v'. changeMasterPassword demo_crypto demo_opaque demo_change_rnd (demo_change_api w) demo_change_opts None = (Inr (), v')"
proof -
  have ok: "account_ok demo_account" by (simp add: account_ok_def demo_account_def)
  obtain om where om: "deriveMasterKey demo_crypto ''pw'' ''a@b'' DEFAULT_KDF_PARAMS = Inr om" using demo_derive by blast
  obtain nm where nm: "deriveMasterKey demo_crypto ''new'' ''a@b'' DEFAULT_KDF_PARAMS = Inr nm" using demo_derive by blast
  obtain w where w: "wrapAccountKey demo_crypto [] demo_account om ''a@b'' = Inr w"
    using wrapAccountKey_succeeds [OF demo_lengths(1) ok] by blast
  obtain w2 where w2: "wrapAccountKey demo_crypto (replicate 12 3) demo_account nm ''a@b'' = Inr w2"
    using wrapAccountKey_succeeds [OF demo_lengths(1) ok] by blast
  have u: "unwrapAccountKey demo_crypto w om ''a@b'' = Inr demo_account"
    by (rule unwrap_wrapAccountKey [OF demo_aead_correct ok w])
  have "changeMasterPassword demo_crypto demo_opaque demo_change_rnd (demo_change_api w) demo_change_opts None =
      (Inr (), Some \<lparr>pcf_changeId = ''c'', pcf_finishLoginRequest = ''finish'', pcf_registrationRecord = ''record:new'',
        pcf_wrappedAccountKey = wak_wrappedAccountKey w2, pcf_wrappedAccountKeyIv = wak_wrappedAccountKeyIv w2\<rparr>)"
    by (simp add: changeMasterPassword_def demo_opaque_def demo_change_api_def demo_change_opts_def demo_change_rnd_def
        Let_def io_simps assertKdfFloor_iff default_params_strong om nm u w2)
  then show ?thesis by blast
qed

theorem password_change_keeps_account_key_witness:
  "\<exists>w v' req. changeMasterPassword demo_crypto demo_opaque demo_change_rnd (demo_change_api w) demo_change_opts None = (Inr (), v') \<and>
     passwordChangeFinish (demo_change_api w) req ''t'' None = (Inr (), v')"
proof -
  obtain w v' where c: "changeMasterPassword demo_crypto demo_opaque demo_change_rnd (demo_change_api w) demo_change_opts None = (Inr (), v')"
    using demo_change by blast
  obtain req v1 where "passwordChangeFinish (demo_change_api w) req (pco_sessionToken demo_change_opts) v1 = (Inr (), v')"
    using password_change_keeps_account_key [OF demo_aead_correct c] by blast
  then have "passwordChangeFinish (demo_change_api w) req ''t'' None = (Inr (), v')"
    by (simp add: demo_change_api_def)
  with c show ?thesis by blast
qed

end
