(* ===== verification/Account_Recovery.thy ===== *)
theory Account_Recovery
  imports Password_Change Recovery
begin

text \<open>
  Finishing a recovery, \<open>packages/crypto/src/account-recovery.ts\<close>: the keys the kit unwrapped to
  are wrapped under the new password, the RSA private key is re-wrapped under the key derived from
  them, and a replacement kit is made.
\<close>

record 'v RecoveryCompletionApi =
  rca_opaqueStart :: "RecoveryOpaqueStartRequest \<Rightarrow> ('v, js_error, string) io"
  rca_complete :: "RecoveryCompleteRequest \<Rightarrow> ('v, js_error, unit) io"

definition openPrivateKey :: "crypto \<Rightarrow> string \<Rightarrow> string \<Rightarrow> bytes \<Rightarrow> bytes \<Rightarrow> bytes js" where
  "openPrivateKey C ppk ppkIv smk kitSmk =
     (let blob = \<lparr>eb_blob = ppk, eb_blobIv = ppkIv, eb_blobMac = ''''\<rparr> in
      rcatch (rbind (importAes smk) (\<lambda>k. decryptBytes C blob k))
        (\<lambda>_. rbind (importAes kitSmk) (\<lambda>k. decryptBytes C blob k)))"

record RecoveryRandom =
  rrnd_opaque :: bytes
  rrnd_wrapIv :: bytes
  rrnd_keyIv :: bytes
  rrnd_privateIv :: bytes
  rrnd_code :: bytes
  rrnd_kitIv :: bytes

definition completeAccountRecovery ::
  "crypto \<Rightarrow> opaque_client \<Rightarrow> RecoveryRandom \<Rightarrow> 'v RecoveryCompletionApi \<Rightarrow> string \<Rightarrow> string \<Rightarrow>
   RecoveryInitResponse \<Rightarrow> RawSubkeys \<Rightarrow> ('v, js_error, string) io" where
  "completeAccountRecovery C oc rnd api email newPassword init recovered =
     (let account = \<lparr>ak_encKeyBytes = rs_encKeyBytes recovered, ak_macKeyBytes = rs_macKeyBytes recovered\<rparr> in
      io_bind (io_lift (accountSmkBytes C account)) (\<lambda>smkBytes.
      io_bind (io_lift (deriveMasterKey C newPassword email DEFAULT_KDF_PARAMS)) (\<lambda>masterKey.
      io_bind (createOpaqueRegistration oc (rrnd_opaque rnd) newPassword DEFAULT_KDF_PARAMS (\<lambda>registrationRequest.
                 rca_opaqueStart api \<lparr>ro_recoveryToken = rr_recoveryToken init,
                   ro_emailHash = computeEmailHash C email, ro_registrationRequest = registrationRequest\<rparr>)) (\<lambda>registrationRecord.
      io_bind (io_lift (wrapAccountKey C (rrnd_wrapIv rnd) account masterKey email)) (\<lambda>wrapped.
      io_bind (io_lift (importAes smkBytes)) (\<lambda>smk.
      io_bind (io_lift (encryptBytes C (rrnd_keyIv rnd) (ak_encKeyBytes account) smk)) (\<lambda>protectedKey.
      io_bind (io_lift
        (case (nonempty_opt (rr_protectedPrivateKey init), nonempty_opt (rr_protectedPrivateKeyIv init)) of
           (Some ppk, Some ppkIv) \<Rightarrow>
             rbind (openPrivateKey C ppk ppkIv smkBytes (rs_smkBytes recovered)) (\<lambda>pkcs8.
             rbind (encryptBytes C (rrnd_privateIv rnd) pkcs8 smk) (\<lambda>rewrapped.
             Inr (Some (eb_blob rewrapped), Some (eb_blobIv rewrapped))))
         | _ \<Rightarrow> Inr (None, None))) (\<lambda>privateKey.
      let replacementCode = generateRecoveryCode (rrnd_code rnd) in
      io_bind (io_lift (deriveRecoveryKeys C replacementCode email RECOVERY_KDF_PARAMS)) (\<lambda>replacementKeys.
      io_bind (io_lift (wrapVaultSubkeys C (rrnd_kitIv rnd)
                 \<lparr>rs_smkBytes = smkBytes, rs_encKeyBytes = ak_encKeyBytes account, rs_macKeyBytes = ak_macKeyBytes account\<rparr>
                 (rk_wrapKey replacementKeys))) (\<lambda>replacementBlob.
      io_bind (rca_complete api
        \<lparr>rc_recoveryToken = rr_recoveryToken init, rc_registrationRecord = registrationRecord,
         rc_protectedSymmetricKey = eb_blob protectedKey, rc_protectedSymmetricKeyIv = eb_blobIv protectedKey,
         rc_protectedPrivateKey = fst privateKey, rc_protectedPrivateKeyIv = snd privateKey,
         rc_wrappedAccountKey = wak_wrappedAccountKey wrapped, rc_wrappedAccountKeyIv = wak_wrappedAccountKeyIv wrapped,
         rc_recoveryAuthKey = rk_authKeyB64 replacementKeys,
         rc_recoveryBlob = eb_blob replacementBlob, rc_recoveryBlobIv = eb_blobIv replacementBlob\<rparr>) (\<lambda>_.
      io_return replacementCode)))))))))))"

lemma openPrivateKey_cases:
  assumes "openPrivateKey C ppk ppkIv smk kitSmk = Inr m"
  shows "opens_to C ppk ppkIv smk m \<or> opens_to C ppk ppkIv kitSmk m"
proof (cases "rbind (importAes smk) (\<lambda>k. decryptBytes C \<lparr>eb_blob = ppk, eb_blobIv = ppkIv, eb_blobMac = ''''\<rparr> k)")
  case (Inl e)
  then show ?thesis using assms by (auto simp: openPrivateKey_def Let_def opens_to_def rbind_eq_Inr)
next
  case (Inr x)
  then show ?thesis using assms by (auto simp: openPrivateKey_def Let_def opens_to_def rbind_eq_Inr)
qed

text \<open>What the server accepted, spelled out: the state a client finds at its next sign-in or recovery.\<close>

definition recovered_state ::
  "crypto \<Rightarrow> string \<Rightarrow> bytes \<Rightarrow> RawSubkeys \<Rightarrow> string \<Rightarrow> RecoveryCompleteRequest \<Rightarrow> bool" where
  "recovered_state C email masterKey recovered newCode req \<longleftrightarrow>
     (let account = \<lparr>ak_encKeyBytes = rs_encKeyBytes recovered, ak_macKeyBytes = rs_macKeyBytes recovered\<rparr> in
      \<exists>smk ks. accountSmkBytes C account = Inr smk \<and>
        unwrapAccountKey C \<lparr>wak_wrappedAccountKey = rc_wrappedAccountKey req,
          wak_wrappedAccountKeyIv = rc_wrappedAccountKeyIv req\<rparr> masterKey email = Inr account \<and>
        deriveRecoveryKeys C newCode email RECOVERY_KDF_PARAMS = Inr ks \<and> rc_recoveryAuthKey req = rk_authKeyB64 ks \<and>
        unwrapVaultSubkeys C \<lparr>eb_blob = rc_recoveryBlob req, eb_blobIv = rc_recoveryBlobIv req, eb_blobMac = ''''\<rparr> (rk_wrapKey ks) =
          Inr \<lparr>rs_smkBytes = smk, rs_encKeyBytes = rs_encKeyBytes recovered, rs_macKeyBytes = rs_macKeyBytes recovered\<rparr> \<and>
        opens_to C (rc_protectedSymmetricKey req) (rc_protectedSymmetricKeyIv req) smk (rs_encKeyBytes recovered))"

lemma unwrapVaultSubkeys_blob:
  "unwrapVaultSubkeys C \<lparr>eb_blob = eb_blob b, eb_blobIv = eb_blobIv b, eb_blobMac = ''''\<rparr> k = unwrapVaultSubkeys C b k"
  by (simp add: unwrapVaultSubkeys_def decryptBytes_def)

lemma accountSmkBytes_length:
  "hkdf_lengths C \<Longrightarrow> accountSmkBytes C a = Inr smk \<Longrightarrow> length smk = 32"
  by (auto simp: accountSmkBytes_def rbind_eq_Inr hkdf_lengths_def)

text \<open>
  C13. Account recovery hands over everything. When it succeeds, the server has accepted a request from
  which the new password opens exactly the recovered vault keys, the returned replacement code opens a
  new kit with the same vault keys and the smk derived from them, that smk opens the protected
  symmetric key, and a private key that was there opens under it to the bytes that the account's or
  the kit's smk opened before. No item is touched.
\<close>

theorem recovery_restores_account:
  assumes "aead_correct C" "hkdf_lengths C" "subkeys_ok recovered"
    and "completeAccountRecovery C oc rnd api email newPassword init recovered v = (Inr newCode, v')"
  shows "newCode = generateRecoveryCode (rrnd_code rnd) \<and>
    (\<exists>req v1 masterKey smk. rca_complete api req v1 = (Inr (), v') \<and>
      deriveMasterKey C newPassword email DEFAULT_KDF_PARAMS = Inr masterKey \<and>
      accountSmkBytes C \<lparr>ak_encKeyBytes = rs_encKeyBytes recovered, ak_macKeyBytes = rs_macKeyBytes recovered\<rparr> = Inr smk \<and>
      recovered_state C email masterKey recovered newCode req \<and>
      (private_key_moved C (rr_protectedPrivateKey init) (rr_protectedPrivateKeyIv init) smk
         (rc_protectedPrivateKey req) (rc_protectedPrivateKeyIv req) smk \<or>
       private_key_moved C (rr_protectedPrivateKey init) (rr_protectedPrivateKeyIv init) (rs_smkBytes recovered)
         (rc_protectedPrivateKey req) (rc_protectedPrivateKeyIv req) smk))"
proof -
  let ?acc = "\<lparr>ak_encKeyBytes = rs_encKeyBytes recovered, ak_macKeyBytes = rs_macKeyBytes recovered\<rparr>"
  obtain smk mk regRec w key pk pp piv ks rb v1 req where
    smk: "accountSmkBytes C ?acc = Inr smk" and mk: "deriveMasterKey C newPassword email DEFAULT_KDF_PARAMS = Inr mk"
    and w: "wrapAccountKey C (rrnd_wrapIv rnd) ?acc mk email = Inr w"
    and key: "importAes smk = Inr key" "encryptBytes C (rrnd_keyIv rnd) (rs_encKeyBytes recovered) key = Inr pk"
    and pp: "(case (nonempty_opt (rr_protectedPrivateKey init), nonempty_opt (rr_protectedPrivateKeyIv init)) of
           (Some ppk, Some ppkIv) \<Rightarrow>
             rbind (openPrivateKey C ppk ppkIv smk (rs_smkBytes recovered)) (\<lambda>pkcs8.
             rbind (encryptBytes C (rrnd_privateIv rnd) pkcs8 key) (\<lambda>rewrapped.
             Inr (Some (eb_blob rewrapped), Some (eb_blobIv rewrapped))))
         | _ \<Rightarrow> Inr (None, None)) = Inr (pp, piv)"
    and ks: "deriveRecoveryKeys C (generateRecoveryCode (rrnd_code rnd)) email RECOVERY_KDF_PARAMS = Inr ks"
    and rb: "wrapVaultSubkeys C (rrnd_kitIv rnd) \<lparr>rs_smkBytes = smk, rs_encKeyBytes = rs_encKeyBytes recovered,
        rs_macKeyBytes = rs_macKeyBytes recovered\<rparr> (rk_wrapKey ks) = Inr rb"
    and req: "req = \<lparr>rc_recoveryToken = rr_recoveryToken init, rc_registrationRecord = regRec,
         rc_protectedSymmetricKey = eb_blob pk, rc_protectedSymmetricKeyIv = eb_blobIv pk,
         rc_protectedPrivateKey = pp, rc_protectedPrivateKeyIv = piv,
         rc_wrappedAccountKey = wak_wrappedAccountKey w, rc_wrappedAccountKeyIv = wak_wrappedAccountKeyIv w,
         rc_recoveryAuthKey = rk_authKeyB64 ks, rc_recoveryBlob = eb_blob rb, rc_recoveryBlobIv = eb_blobIv rb\<rparr>"
    and c: "rca_complete api req v1 = (Inr (), v')" "newCode = generateRecoveryCode (rrnd_code rnd)"
    using assms(4) by (auto simp: completeAccountRecovery_def Let_def io_bind_Inr io_run)
  have acc: "account_ok ?acc" using assms(3) by (simp add: account_ok_def subkeys_ok_def)
  have sub: "subkeys_ok \<lparr>rs_smkBytes = smk, rs_encKeyBytes = rs_encKeyBytes recovered, rs_macKeyBytes = rs_macKeyBytes recovered\<rparr>"
    using assms(3) accountSmkBytes_length [OF assms(2) smk] by (simp add: subkeys_ok_def)
  have wk: "ck_allows (rk_wrapKey ks) AesGcm UseDecrypt"
    using deriveRecoveryKeys_wrapKey [OF ks] by (simp add: aes_key_ok_def)
  have "recovered_state C email mk recovered newCode req"
    unfolding recovered_state_def Let_def
    using smk unwrap_wrapAccountKey [OF assms(1) acc w] ks unwrap_wrapVaultSubkeys [OF assms(1) wk sub rb]
      encryptBytes_opens [OF assms(1) key]
    by (auto simp: req c(2) unwrapVaultSubkeys_blob)
  moreover have "private_key_moved C (rr_protectedPrivateKey init) (rr_protectedPrivateKeyIv init) smk pp piv smk \<or>
       private_key_moved C (rr_protectedPrivateKey init) (rr_protectedPrivateKeyIv init) (rs_smkBytes recovered) pp piv smk"
    using pp encryptBytes_opens [OF assms(1) key(1)]
    by (auto simp: private_key_moved_def rbind_eq_Inr split: option.splits dest!: openPrivateKey_cases; blast)
  ultimately show ?thesis using c smk mk by (auto simp: req)
qed

section \<open>A sample run\<close>

text \<open>A server that remembers the last completed request.\<close>

definition demo_recovery_api :: "RecoveryCompleteRequest option RecoveryCompletionApi" where
  "demo_recovery_api = \<lparr>rca_opaqueStart = (\<lambda>_. io_return ''r''), rca_complete = (\<lambda>req _. (Inr (), Some req))\<rparr>"

definition demo_recovery_rnd :: RecoveryRandom where
  "demo_recovery_rnd = \<lparr>rrnd_opaque = [1], rrnd_wrapIv = replicate 12 1, rrnd_keyIv = replicate 12 2,
     rrnd_privateIv = replicate 12 3, rrnd_code = replicate 20 7, rrnd_kitIv = replicate 12 4\<rparr>"

definition demo_recovery_init :: RecoveryInitResponse where
  "demo_recovery_init = \<lparr>rr_recoveryToken = ''t'', rr_recoveryBlob = '''', rr_recoveryBlobIv = '''',
     rr_protectedPrivateKey = None, rr_protectedPrivateKeyIv = None, rr_items = []\<rparr>"

lemma demo_recovery:
  "\<exists>v'. completeAccountRecovery demo_crypto demo_opaque demo_recovery_rnd demo_recovery_api ''a@b'' ''new''
     demo_recovery_init demo_subkeys None = (Inr (generateRecoveryCode (replicate 20 7)), Some v')"
proof -
  let ?acc = "\<lparr>ak_encKeyBytes = rs_encKeyBytes demo_subkeys, ak_macKeyBytes = rs_macKeyBytes demo_subkeys\<rparr>"
  have acc: "account_ok ?acc" by (simp add: account_ok_def demo_subkeys_def)
  obtain smk where smk: "accountSmkBytes demo_crypto ?acc = Inr smk"
    by (simp add: accountSmkBytes_def account_bytes_eq [OF acc])
  have len: "length smk = 32" by (rule accountSmkBytes_length [OF demo_lengths(1) smk])
  obtain mk where mk: "deriveMasterKey demo_crypto ''new'' ''a@b'' DEFAULT_KDF_PARAMS = Inr mk" using demo_derive by blast
  obtain w where w: "wrapAccountKey demo_crypto (replicate 12 1) ?acc mk ''a@b'' = Inr w"
    using wrapAccountKey_succeeds [OF demo_lengths(1) acc] by blast
  obtain key where key: "importAes smk = Inr key" using len by (simp add: importAes_def subtle_importRawAes_def)
  then have ok: "aes_key_ok key" using importAes_key by blast
  obtain ks where ks: "deriveRecoveryKeys demo_crypto (generateRecoveryCode (replicate 20 7)) ''a@b'' RECOVERY_KDF_PARAMS = Inr ks"
    using demo_deriveRecoveryKeys by blast
  let ?sub = "\<lparr>rs_smkBytes = smk, rs_encKeyBytes = rs_encKeyBytes demo_subkeys, rs_macKeyBytes = rs_macKeyBytes demo_subkeys\<rparr>"
  have sub: "subkeys_ok ?sub" using len by (simp add: subkeys_ok_def demo_subkeys_def)
  obtain rb where rb: "wrapVaultSubkeys demo_crypto (replicate 12 4) ?sub (rk_wrapKey ks) = Inr rb"
    using deriveRecoveryKeys_wrapKey [OF ks] by (simp add: wrapVaultSubkeys_eq [OF sub] encryptBytes_succeeds)
  show ?thesis
    by (simp add: completeAccountRecovery_def createOpaqueRegistration_def demo_opaque_def demo_recovery_api_def
        demo_recovery_rnd_def demo_recovery_init_def Let_def io_simps smk mk w key ks rb encryptBytes_succeeds [OF ok]
        nonempty_opt_def assertKdfFloor_iff default_params_strong)
qed

theorem recovery_restores_account_witness:
  "\<exists>req mk. recovered_state demo_crypto ''a@b'' mk demo_subkeys (generateRecoveryCode (replicate 20 7)) req \<and>
     completeAccountRecovery demo_crypto demo_opaque demo_recovery_rnd demo_recovery_api ''a@b'' ''new''
       demo_recovery_init demo_subkeys None = (Inr (generateRecoveryCode (replicate 20 7)), Some req)"
proof -
  obtain v' where r: "completeAccountRecovery demo_crypto demo_opaque demo_recovery_rnd demo_recovery_api ''a@b'' ''new''
     demo_recovery_init demo_subkeys None = (Inr (generateRecoveryCode (replicate 20 7)), Some v')"
    using demo_recovery by blast
  have "subkeys_ok demo_subkeys" by (simp add: subkeys_ok_def demo_subkeys_def)
  from recovery_restores_account [OF demo_aead_correct demo_lengths(1) this r]
  obtain req v1 mk where "rca_complete demo_recovery_api req v1 = (Inr (), Some v')"
    "recovered_state demo_crypto ''a@b'' mk demo_subkeys (generateRecoveryCode (replicate 20 7)) req" by blast
  with r show ?thesis by (auto simp: demo_recovery_api_def)
qed

end
