(* ===== verification/Share_Crypto.thy ===== *)
theory Share_Crypto
  imports Web_Crypto Vault_Types
begin

text \<open>
  Item shares, \<open>packages/crypto/src/share-crypto.ts\<close>: a snapshot of one item under a random key
  that travels in the fragment of the share link.
\<close>

record ShareKey =
  sk_key :: CryptoKey
  sk_keyB64url :: string

definition generateShareKey :: "bytes \<Rightarrow> ShareKey js" where
  "generateShareKey raw =
     rbind (subtle_importRawAes raw False [UseEncrypt, UseDecrypt]) (\<lambda>key.
     Inr \<lparr>sk_key = key, sk_keyB64url = bytesToB64u raw\<rparr>)"

definition importShareKey :: "string \<Rightarrow> CryptoKey js" where
  "importShareKey keyB64url =
     rbind (of_option DOMException (b64uToBytes keyB64url)) (\<lambda>raw.
     if length raw \<noteq> 32 then Inl (JsError ''share key has unexpected length'')
     else subtle_importRawAes raw False [UseDecrypt])"

definition encryptSharePayload :: "crypto \<Rightarrow> bytes \<Rightarrow> VaultItemPlaintext \<Rightarrow> CryptoKey \<Rightarrow> EncryptedBlob js" where
  "encryptSharePayload C iv item key = encryptBytes C iv (json_bytes (item_to_json item)) key"

text \<open>The source casts the parsed value; \<open>item_of_json\<close> is the reading of its shape.\<close>

definition decryptSharePayload :: "crypto \<Rightarrow> EncryptedBlob \<Rightarrow> CryptoKey \<Rightarrow> json js" where
  "decryptSharePayload C blob key = rbind (decryptBytes C blob key) json_of_bytes"

text \<open>
  A share link is enough to read the share and nothing but: with the key generated from any 32
  random bytes the item can be encrypted, the key text in the link imports to a key that cannot
  encrypt, and with it the payload opens as exactly the item. A key text of another length is refused.
\<close>

theorem share_link_opens_item:
  assumes "aead_correct C" "length raw = 32"
  shows "\<exists>sk blob key. generateShareKey raw = Inr sk \<and> encryptSharePayload C iv item (sk_key sk) = Inr blob \<and>
      importShareKey (sk_keyB64url sk) = Inr key \<and> \<not> ck_allows key AesGcm UseEncrypt \<and>
      decryptSharePayload C blob key = Inr (item_to_json item) \<and>
      (\<exists>j. decryptSharePayload C blob key = Inr j \<and> item_of_json j = Some item) \<and>
      (\<forall>raw'. length raw' \<noteq> 32 \<longrightarrow> importShareKey (bytesToB64u raw') = Inl (JsError ''share key has unexpected length''))"
  using assms
  by (simp add: generateShareKey_def importShareKey_def encryptSharePayload_def decryptSharePayload_def
      subtle_importRawAes_def encryptBytes_def decryptBytes_def subtle_defs ck_allows_def aead_correctD codec_simps)

definition demo_shared_note :: VaultItemPlaintext where
  "demo_shared_note = Note \<lparr>note_name = ''n'', note_tags = None, note_content = ''secret''\<rparr>"

theorem share_link_opens_item_witness:
  "\<exists>sk blob key. generateShareKey (replicate 32 9) = Inr sk \<and>
     encryptSharePayload demo_crypto (replicate 12 0) demo_shared_note (sk_key sk) = Inr blob \<and>
     importShareKey (sk_keyB64url sk) = Inr key \<and> decryptSharePayload demo_crypto blob key = Inr (item_to_json demo_shared_note)"
  using share_link_opens_item [OF demo_aead_correct, of "replicate 32 9" "replicate 12 0" demo_shared_note] by auto

end
