(* ===== verification/High_Water.thy ===== *)
theory High_Water
  imports Prelude
begin

text \<open>
  The contract of a store of high-water marks: the highest number seen for a key, which recording
  never lowers. \<open>RevisionStore\<close> (item revisions, \<open>item-envelope.ts\<close>) and
  \<open>OrgEpochStore\<close> (organization key epochs, \<open>identity.ts\<close>) are the two such interfaces of the
  sources; the components that implement them interpret this locale. \<open>base\<close> is the mark an
  absent key stands for when a new number is compared with it.
\<close>

definition opt_mark :: "int \<Rightarrow> int option \<Rightarrow> int" where
  "opt_mark base m = (case m of None \<Rightarrow> base | Some x \<Rightarrow> x)"

lemma opt_mark_simps [simp]: "opt_mark b None = b" "opt_mark b (Some x) = x"
  by (simp_all add: opt_mark_def)

text \<open>A mark does not go down: it stays absent, appears, or grows.\<close>

definition mark_le :: "int option \<Rightarrow> int option \<Rightarrow> bool" where
  "mark_le a b = (case a of None \<Rightarrow> True | Some x \<Rightarrow> (case b of None \<Rightarrow> False | Some y \<Rightarrow> x \<le> y))"

lemma mark_le_simps [simp]:
  "mark_le None b" "\<not> mark_le (Some x) None" "mark_le (Some x) (Some y) \<longleftrightarrow> x \<le> y"
  by (simp_all add: mark_le_def)

lemma mark_le_refl [simp]: "mark_le a a"
  by (cases a) auto

lemma mark_le_trans: "mark_le a b \<Longrightarrow> mark_le b c \<Longrightarrow> mark_le a c"
  by (cases a; cases b; cases c) auto

locale high_water =
  fixes get :: "'s \<Rightarrow> 'k \<Rightarrow> int option"
    and record_mark :: "'k \<Rightarrow> int \<Rightarrow> 's \<Rightarrow> 's"
    and base :: int
  assumes get_record:
    "get (record_mark k v s) k' =
       (if k' = k \<and> opt_mark base (get s k) < v then Some v else get s k')"
begin

definition record_all :: "('k \<times> int) list \<Rightarrow> 's \<Rightarrow> 's" where
  "record_all kvs s = fold (\<lambda>(k, v). record_mark k v) kvs s"

lemma get_record_same:
  "opt_mark base (get (record_mark k v s) k) = max (opt_mark base (get s k)) v"
  by (simp add: get_record max_def)

lemma get_record_other: "k' \<noteq> k \<Longrightarrow> get (record_mark k v s) k' = get s k'"
  by (simp add: get_record)

lemma record_never_lowers: "mark_le (get s k') (get (record_mark k v s) k')"
  by (cases "get s k'") (auto simp: get_record)

lemma record_idem: "get (record_mark k v (record_mark k v s)) k' = get (record_mark k v s) k'"
  by (simp add: get_record)

lemma record_commute:
  "get (record_mark k v (record_mark k' v' s)) q = get (record_mark k' v' (record_mark k v s)) q"
  by (auto simp: get_record)

lemma mark_record_all:
  "opt_mark base (get (record_all kvs s) k) =
     foldr max (map snd (filter (\<lambda>kv. fst kv = k) kvs)) (opt_mark base (get s k))"
proof (induction kvs arbitrary: s)
  case Nil
  then show ?case by (simp add: record_all_def)
next
  case (Cons a kvs)
  have fm: "foldr max vs (max b v) = max v (foldr max vs b)" for vs :: "int list" and b v
    by (induction vs) (auto simp: max_def)
  obtain q v where a: "a = (q, v)" by (cases a)
  have "record_all (a # kvs) s = record_all kvs (record_mark q v s)"
    by (simp add: record_all_def a)
  then show ?case
    using Cons [of "record_mark q v s"]
    by (cases "q = k") (simp_all add: a fm get_record_same get_record_other)
qed

text \<open>The final marks do not depend on the order the numbers arrived in.\<close>

lemma record_all_order:
  assumes "set kvs = set kvs'"
  shows "opt_mark base (get (record_all kvs s) k) = opt_mark base (get (record_all kvs' s) k)"
proof -
  have fm: "foldr max vs b = Max (insert b (set vs))" for vs :: "int list" and b
    by (induction vs) (auto simp: insert_commute)
  have "set (map snd (filter (\<lambda>kv. fst kv = k) kvs)) = set (map snd (filter (\<lambda>kv. fst kv = k) kvs'))"
    using assms by auto
  then show ?thesis unfolding mark_record_all fm by simp
qed

lemma record_all_ge:
  assumes "(k, v) \<in> set kvs"
  shows "v \<le> opt_mark base (get (record_all kvs s) k)"
proof -
  have fm: "x \<in> set vs \<Longrightarrow> x \<le> foldr max vs b" for vs :: "int list" and b x
    by (induction vs) auto
  have "v \<in> set (map snd (filter (\<lambda>kv. fst kv = k) kvs))" using assms by force
  then show ?thesis unfolding mark_record_all by (rule fm)
qed

end

end
