(* ===== verification/Item_Envelope.thy ===== *)
theory Item_Envelope
  imports Kdf High_Water Js_Map
begin

text \<open>
  The versioned vault item envelope, \<open>packages/crypto/src/item-envelope.ts\<close>: item bindings and
  their canonical additional data, the v2 format, decryption of both formats against a store of the
  highest revision seen per item, the account's v2-only marker and the upgrade of legacy items.

  A plaintext is a JSON value: the source casts what \<open>JSON.parse\<close> returns without looking at
  it, so what it reads of the value (its \<open>type\<close>) is read here from the JSON too. Revisions are
  integers; \<open>u64be\<close> keeps the source's safe-integer test. A store that changes while an
  operation fails stays changed, so an operation returns its result and the store.
\<close>

section \<open>Bindings and the revision store\<close>

definition FORMAT_V2 :: byte where "FORMAT_V2 = 2"
definition HEADER_LEN :: nat where "HEADER_LEN = 9"
definition AAD_LABEL :: bytes where "AAD_LABEL = utf8_encode ''nopwd-item''"
definition MAX_SAFE_INTEGER :: int where "MAX_SAFE_INTEGER = 9007199254740991"

datatype ItemScope = Personal | Org string

record ItemBinding =
  ib_scope :: ItemScope
  ib_itemId :: string
  ib_itemType :: VaultItemType

record RevisionSnapshot =
  sn_revisions :: "(string \<times> int) list"
  sn_v2Only :: bool

text \<open>\<open>ms_onChange\<close> is the list of snapshots the store has handed to \<open>onChange\<close>, newest first.\<close>

record MemoryRevisionStore =
  ms_revisions :: "(string \<times> int) list"
  ms_legacyClosed :: bool
  ms_onChange :: "RevisionSnapshot list"

definition new_MemoryRevisionStore :: "(string \<times> int) list option \<Rightarrow> bool option \<Rightarrow> MemoryRevisionStore" where
  "new_MemoryRevisionStore revisions v2Only =
     \<lparr>ms_revisions = js_map_new (case revisions of None \<Rightarrow> [] | Some m \<Rightarrow> m),
      ms_legacyClosed = (v2Only = Some True), ms_onChange = []\<rparr>"

definition revs_get :: "MemoryRevisionStore \<Rightarrow> string \<Rightarrow> int option" where
  "revs_get s itemId = map_of (ms_revisions s) itemId"

definition revs_toJSON :: "MemoryRevisionStore \<Rightarrow> RevisionSnapshot" where
  "revs_toJSON s = \<lparr>sn_revisions = ms_revisions s, sn_v2Only = ms_legacyClosed s\<rparr>"

definition revs_notify :: "MemoryRevisionStore \<Rightarrow> MemoryRevisionStore" where
  "revs_notify s = s\<lparr>ms_onChange := revs_toJSON s # ms_onChange s\<rparr>"

definition revs_record :: "string \<Rightarrow> int \<Rightarrow> MemoryRevisionStore \<Rightarrow> MemoryRevisionStore" where
  "revs_record itemId revision s =
     (if revision \<le> (case map_of (ms_revisions s) itemId of None \<Rightarrow> -1 | Some x \<Rightarrow> x) then s
      else revs_notify (s\<lparr>ms_revisions := js_set itemId revision (ms_revisions s)\<rparr>))"

definition revs_v2Only :: "MemoryRevisionStore \<Rightarrow> bool" where
  "revs_v2Only s = ms_legacyClosed s"

definition revs_markV2Only :: "MemoryRevisionStore \<Rightarrow> MemoryRevisionStore" where
  "revs_markV2Only s =
     (if ms_legacyClosed s then s else revs_notify (s\<lparr>ms_legacyClosed := True\<rparr>))"

section \<open>Account-bound identifiers\<close>

definition macLabel :: "crypto \<Rightarrow> CryptoKey \<Rightarrow> string \<Rightarrow> bytes js" where
  "macLabel C vaultMacKey label = subtle_sign C ''SHA-256'' vaultMacKey (utf8_encode label)"

definition trustStateId :: "crypto \<Rightarrow> CryptoKey \<Rightarrow> string js" where
  "trustStateId C vaultMacKey =
     rbind (macLabel C vaultMacKey ''nopwd-trust-state-id-v1'') (\<lambda>mac.
     Inr (bytesToHex (take 16 mac)))"

definition V2_ONLY_LABEL :: string where
  "V2_ONLY_LABEL = ''nopwd-vault-format-v2-only-v1''"

definition v2OnlyMarker :: "crypto \<Rightarrow> CryptoKey \<Rightarrow> string js" where
  "v2OnlyMarker C vaultMacKey =
     rbind (macLabel C vaultMacKey V2_ONLY_LABEL) (\<lambda>mac. Inr (toBase64 mac))"

text \<open>A missing or empty marker changes nothing; a failed check is swallowed as false.\<close>

definition applyV2OnlyMarker ::
  "crypto \<Rightarrow> string option \<Rightarrow> CryptoKey \<Rightarrow> MemoryRevisionStore \<Rightarrow> bool \<times> MemoryRevisionStore" where
  "applyV2OnlyMarker C marker vaultMacKey revisions =
     (case marker of
        None \<Rightarrow> (revs_v2Only revisions, revisions)
      | Some m \<Rightarrow>
          if m = '''' then (revs_v2Only revisions, revisions)
          else
            let ok = (case rbind (fromBase64_js m) (\<lambda>mac.
                        subtle_verify C ''SHA-256'' vaultMacKey mac (utf8_encode V2_ONLY_LABEL))
                      of Inl _ \<Rightarrow> False | Inr b \<Rightarrow> b);
                revisions' = (if ok then revs_markV2Only revisions else revisions)
            in (revs_v2Only revisions', revisions'))"

section \<open>Additional data\<close>

text \<open>An absent, null or empty organization id is the personal scope.\<close>

definition bindingForItem :: "EncryptedVaultItem \<Rightarrow> ItemBinding" where
  "bindingForItem item =
     \<lparr>ib_scope = (case ev_orgId item of None \<Rightarrow> Personal
                    | Some orgId \<Rightarrow> if orgId = '''' then Personal else Org orgId),
      ib_itemId = ev_id item, ib_itemType = ev_itemType item\<rparr>"

definition isLegacyItemBlob :: "EncryptedBlob \<Rightarrow> bool" where
  "isLegacyItemBlob b \<longleftrightarrow> eb_blobMac b \<noteq> ''''"

definition uuidBytes_js :: "string \<Rightarrow> bytes js" where
  "uuidBytes_js uuid = of_option (JsError (''not a UUID: '' @ uuid)) (uuidBytes uuid)"

definition u64be :: "int \<Rightarrow> bytes js" where
  "u64be n =
     (if n > MAX_SAFE_INTEGER \<or> n < 0 then Inl (JsError (''invalid revision: '' @ int_to_string n))
      else Inr (be_bytes 8 (nat n)))"

definition scope_bytes :: "ItemScope \<Rightarrow> bytes js" where
  "scope_bytes sc =
     (case sc of Org orgId \<Rightarrow> rbind (uuidBytes_js orgId) (\<lambda>u. Inr (1 # u))
               | Personal \<Rightarrow> Inr [0])"

definition itemAad :: "ItemBinding \<Rightarrow> int \<Rightarrow> bytes js" where
  "itemAad binding revision =
     (let type = utf8_encode (ib_itemType binding) in
      if length type > 255 then Inl (JsError ''item type too long'')
      else
      rbind (scope_bytes (ib_scope binding)) (\<lambda>scope.
      rbind (uuidBytes_js (ib_itemId binding)) (\<lambda>itemId.
      rbind (u64be revision) (\<lambda>rev.
      Inr (AAD_LABEL @ [0, FORMAT_V2] @ scope @ itemId @ [of_nat (length type)] @ type @ rev)))))"

section \<open>Encryption and decryption\<close>

text \<open>Reading \<open>plaintext.type\<close>: a property of \<open>null\<close> throws, any other value has one or \<open>undefined\<close>.\<close>

definition js_type_of :: "json \<Rightarrow> json option js" where
  "js_type_of j = (if j = JNull then Inl TypeError else Inr (json_get j ''type''))"

text \<open>How a template literal prints the type it reads.\<close>

fun js_show :: "json option \<Rightarrow> string" where
  "js_show None = ''undefined''"
| "js_show (Some (JStr s)) = s"
| "js_show (Some (JObj _)) = ''[object Object]''"
| "js_show (Some j) = json_print j"

definition encryptItemV2 ::
  "crypto \<Rightarrow> bytes \<Rightarrow> json \<Rightarrow> ItemBinding \<Rightarrow> int \<Rightarrow> CryptoKey \<Rightarrow> EncryptedBlob js" where
  "encryptItemV2 C iv plaintext binding revision vaultEncKey =
     rbind (js_type_of plaintext) (\<lambda>t.
     if t \<noteq> Some (JStr (ib_itemType binding)) then
       Inl (JsError (''item type mismatch: plaintext is '' @ js_show t @ '', binding is '' @ ib_itemType binding))
     else
     rbind (itemAad binding revision) (\<lambda>aad.
     rbind (subtle_encrypt C iv aad vaultEncKey (json_bytes plaintext)) (\<lambda>ct.
     rbind (u64be revision) (\<lambda>rev.
     Inr \<lparr>eb_blob = toBase64 (FORMAT_V2 # rev @ ct), eb_blobIv = toBase64 iv, eb_blobMac = ''''\<rparr>))))"

record DecryptedItem =
  di_plaintext :: json
  di_revision :: int
  di_format :: nat

record VaultKeys =
  vk_vaultEncKey :: CryptoKey
  vk_vaultMacKey :: CryptoKey

text \<open>The v2 branch of \<open>decryptVaultItem\<close>.\<close>

definition decryptV2 :: "crypto \<Rightarrow> EncryptedBlob \<Rightarrow> ItemBinding \<Rightarrow> CryptoKey \<Rightarrow> DecryptedItem js" where
  "decryptV2 C encrypted binding vaultEncKey =
     rbind (fromBase64_js (eb_blob encrypted)) (\<lambda>blob.
     if length blob \<le> HEADER_LEN \<or> hd blob \<noteq> FORMAT_V2 then
       Inl (JsError (''vault item '' @ ib_itemId binding @ '' has an unknown envelope format''))
     else
     let rawRevision = be_val (take 8 (drop 1 blob)) in
     if int rawRevision > MAX_SAFE_INTEGER then
       Inl (JsError (''vault item '' @ ib_itemId binding @ '' has an out-of-range revision''))
     else
     rbind (fromBase64_js (eb_blobIv encrypted)) (\<lambda>iv.
     rbind (itemAad binding (int rawRevision)) (\<lambda>aad.
     rbind (rcatch (subtle_decrypt C iv aad vaultEncKey (drop HEADER_LEN blob))
              (\<lambda>_. Inl (JsError (''vault item '' @ ib_itemId binding @
                 '' failed authentication - it may have been tampered with or moved'')))) (\<lambda>pt.
     rbind (json_of_bytes pt) (\<lambda>plaintext.
     Inr \<lparr>di_plaintext = plaintext, di_revision = int rawRevision, di_format = 2\<rparr>)))))"

definition decryptEnvelope ::
  "crypto \<Rightarrow> EncryptedBlob \<Rightarrow> ItemBinding \<Rightarrow> VaultKeys \<Rightarrow> bool \<Rightarrow> DecryptedItem js" where
  "decryptEnvelope C encrypted binding keys v2Only =
     (if isLegacyItemBlob encrypted \<and> v2Only then Inl (LegacyItemRejectedError (ib_itemId binding))
      else if isLegacyItemBlob encrypted then
        rbind (decryptItem C encrypted (vk_vaultEncKey keys) (vk_vaultMacKey keys)) (\<lambda>plaintext.
        Inr \<lparr>di_plaintext = plaintext, di_revision = 0, di_format = 1\<rparr>)
      else decryptV2 C encrypted binding (vk_vaultEncKey keys))"

definition decryptVaultItem ::
  "crypto \<Rightarrow> EncryptedBlob \<Rightarrow> ItemBinding \<Rightarrow> VaultKeys \<Rightarrow> MemoryRevisionStore option \<Rightarrow>
   DecryptedItem js \<times> MemoryRevisionStore option" where
  "decryptVaultItem C encrypted binding keys revisions =
     (case rbind (decryptEnvelope C encrypted binding keys
                    (case revisions of None \<Rightarrow> False | Some s \<Rightarrow> revs_v2Only s)) (\<lambda>result.
           rbind (js_type_of (di_plaintext result)) (\<lambda>t.
           if t \<noteq> Some (JStr (ib_itemType binding)) then
             Inl (JsError (''vault item '' @ ib_itemId binding @ '' type does not match its contents''))
           else Inr result)) of
        Inl e \<Rightarrow> (Inl e, revisions)
      | Inr result \<Rightarrow>
          (case revisions of
             None \<Rightarrow> (Inr result, None)
           | Some s \<Rightarrow>
               (case revs_get s (ib_itemId binding) of
                  Some highest \<Rightarrow>
                    if di_revision result < highest then
                      (Inl (ItemRollbackError (ib_itemId binding) (di_revision result) highest), Some s)
                    else (Inr result, Some (revs_record (ib_itemId binding) (di_revision result) s))
                | None \<Rightarrow> (Inr result, Some (revs_record (ib_itemId binding) (di_revision result) s)))))"

definition encryptVaultItem ::
  "crypto \<Rightarrow> bytes \<Rightarrow> json \<Rightarrow> ItemBinding \<Rightarrow> CryptoKey \<Rightarrow> MemoryRevisionStore option \<Rightarrow> int option \<Rightarrow>
   (EncryptedBlob \<times> int) js" where
  "encryptVaultItem C iv plaintext binding vaultEncKey revisions currentRevision =
     (let known = (case revisions of None \<Rightarrow> 0
                     | Some s \<Rightarrow> (case revs_get s (ib_itemId binding) of None \<Rightarrow> 0 | Some r \<Rightarrow> r));
          current = (case currentRevision of None \<Rightarrow> 0 | Some r \<Rightarrow> r);
          revision = max known current + 1 in
      rbind (encryptItemV2 C iv plaintext binding revision vaultEncKey) (\<lambda>encrypted.
      Inr (encrypted, revision)))"

section \<open>Upgrading legacy items\<close>

definition ev_encrypted :: "EncryptedVaultItem \<Rightarrow> EncryptedBlob" where
  "ev_encrypted i = \<lparr>eb_blob = ev_blob i, eb_blobIv = ev_blobIv i, eb_blobMac = ev_blobMac i\<rparr>"

record UpgradeResult =
  up_upgraded :: nat
  up_failed :: nat
  up_legacyLeft :: nat

text \<open>
  One item of the loop: the value is whether the item was upgraded; the store and the world keep what
  happened before a failure. \<open>iv\<close> is the random iv drawn for the item.
\<close>

definition upgradeOne ::
  "crypto \<Rightarrow> VaultKeys \<Rightarrow> (EncryptedVaultItem \<Rightarrow> EncryptedBlob \<Rightarrow> ('w, js_error, unit) io) \<Rightarrow> bytes \<Rightarrow>
   EncryptedVaultItem \<Rightarrow> MemoryRevisionStore \<Rightarrow> 'w \<Rightarrow> bool \<times> MemoryRevisionStore \<times> 'w" where
  "upgradeOne C keys write iv item revisions w =
     (let binding = bindingForItem item in
      case decryptVaultItem C (ev_encrypted item) binding keys (Some revisions) of
        (Inr current, Some revs1) \<Rightarrow>
          (case encryptVaultItem C iv (di_plaintext current) binding (vk_vaultEncKey keys) (Some revs1)
                  (Some (di_revision current)) of
             Inl _ \<Rightarrow> (False, revs1, w)
           | Inr (encrypted, revision) \<Rightarrow>
               (case write item encrypted w of
                  (Inl _, w') \<Rightarrow> (False, revs1, w')
                | (Inr _, w') \<Rightarrow> (True, revs_record (ev_id item) revision revs1, w')))
      | (_, revs1) \<Rightarrow> (False, (case revs1 of None \<Rightarrow> revisions | Some r \<Rightarrow> r), w))"

fun upgradeLoop ::
  "crypto \<Rightarrow> VaultKeys \<Rightarrow> (EncryptedVaultItem \<Rightarrow> EncryptedBlob \<Rightarrow> ('w, js_error, unit) io) \<Rightarrow>
   (nat \<Rightarrow> bytes) \<Rightarrow> nat \<Rightarrow> EncryptedVaultItem list \<Rightarrow> MemoryRevisionStore \<Rightarrow> 'w \<Rightarrow> nat \<Rightarrow> nat \<Rightarrow>
   (nat \<times> nat) \<times> MemoryRevisionStore \<times> 'w" where
  "upgradeLoop C keys write rng n [] revisions w upgraded failed = ((upgraded, failed), revisions, w)"
| "upgradeLoop C keys write rng n (item # items) revisions w upgraded failed =
     (if \<not> isLegacyItemBlob (ev_encrypted item) then
        upgradeLoop C keys write rng (n + 1) items revisions w upgraded failed
      else
        (case upgradeOne C keys write (rng n) item revisions w of
           (True, revisions', w') \<Rightarrow> upgradeLoop C keys write rng (n + 1) items revisions' w' (upgraded + 1) failed
         | (False, revisions', w') \<Rightarrow> upgradeLoop C keys write rng (n + 1) items revisions' w' upgraded (failed + 1)))"

definition upgradeLegacyItems ::
  "crypto \<Rightarrow> EncryptedVaultItem list \<Rightarrow> VaultKeys \<Rightarrow> MemoryRevisionStore \<Rightarrow>
   (EncryptedVaultItem \<Rightarrow> EncryptedBlob \<Rightarrow> ('w, js_error, unit) io) \<Rightarrow> (nat \<Rightarrow> bytes) \<Rightarrow> 'w \<Rightarrow>
   UpgradeResult \<times> MemoryRevisionStore \<times> 'w" where
  "upgradeLegacyItems C items keys revisions write rng w =
     (case upgradeLoop C keys write rng 0 items revisions w 0 0 of
        ((upgraded, failed), revisions', w') \<Rightarrow>
          (\<lparr>up_upgraded = upgraded, up_failed = failed, up_legacyLeft = failed\<rparr>, revisions', w'))"

section \<open>The revision store keeps high-water marks\<close>

lemma revs_get_record:
  "revs_get (revs_record k v s) k' =
     (if k' = k \<and> opt_mark (-1) (revs_get s k) < v then Some v else revs_get s k')"
  by (auto simp: revs_get_def revs_record_def revs_notify_def opt_mark_def not_le split: option.splits)

interpretation revs: high_water revs_get revs_record "-1"
  by unfold_locales (rule revs_get_record)

lemma revs_record_v2Only [simp]: "revs_v2Only (revs_record k v s) = revs_v2Only s"
  by (simp add: revs_v2Only_def revs_record_def revs_notify_def)

lemma revs_mark_get [simp]: "revs_get (revs_markV2Only s) k = revs_get s k"
  by (simp add: revs_get_def revs_markV2Only_def revs_notify_def)

lemma revs_mark_v2Only [simp]: "revs_v2Only (revs_markV2Only s)"
  by (simp add: revs_v2Only_def revs_markV2Only_def revs_notify_def)

text \<open>A store has persisted its state when the last snapshot it handed out is what it holds.\<close>

definition revs_persisted :: "RevisionSnapshot \<Rightarrow> MemoryRevisionStore \<Rightarrow> bool" where
  "revs_persisted initial s \<longleftrightarrow>
     revs_toJSON s = (case ms_onChange s of [] \<Rightarrow> initial | snap # _ \<Rightarrow> snap)"

lemma revs_persisted_new:
  "revs_persisted (revs_toJSON (new_MemoryRevisionStore r v)) (new_MemoryRevisionStore r v)"
  by (simp add: revs_persisted_def new_MemoryRevisionStore_def)

lemma revs_persisted_ops [intro]:
  assumes "revs_persisted i s"
  shows "revs_persisted i (revs_record k v s)" "revs_persisted i (revs_markV2Only s)"
  using assms
  by (auto simp: revs_persisted_def revs_record_def revs_markV2Only_def revs_notify_def revs_toJSON_def)

section \<open>Additional data\<close>

lemma u64be_Inr: "u64be n = Inr bs \<longleftrightarrow> 0 \<le> n \<and> n \<le> MAX_SAFE_INTEGER \<and> bs = be_bytes 8 (nat n)"
  by (auto simp: u64be_def)

lemma safe_less: "0 \<le> n \<Longrightarrow> n \<le> MAX_SAFE_INTEGER \<Longrightarrow> nat n < 256 ^ 8"
  by (simp add: MAX_SAFE_INTEGER_def)

lemma be_bytes_safe_inj:
  assumes "0 \<le> m" "m \<le> MAX_SAFE_INTEGER" "0 \<le> n" "n \<le> MAX_SAFE_INTEGER" "be_bytes 8 (nat m) = be_bytes 8 (nat n)"
  shows "m = n"
proof -
  have "nat m mod 256 ^ 8 = nat n mod 256 ^ 8" using assms(5) be_val_bytes by metis
  then show ?thesis using assms safe_less by simp
qed

lemma uuidBytes_js_Inr: "uuidBytes_js u = Inr bs \<longleftrightarrow> uuidBytes u = Some bs"
  by (simp add: uuidBytes_js_def)

text \<open>Two bindings name the same row: same scope, same item (as UUIDs), same type label.\<close>

fun same_scope :: "ItemScope \<Rightarrow> ItemScope \<Rightarrow> bool" where
  "same_scope Personal Personal = True"
| "same_scope (Org a) (Org b) = (uuidBytes a = uuidBytes b)"
| "same_scope _ _ = False"

definition same_row :: "ItemBinding \<Rightarrow> ItemBinding \<Rightarrow> bool" where
  "same_row b b' \<longleftrightarrow> same_scope (ib_scope b) (ib_scope b') \<and>
     uuidBytes (ib_itemId b) = uuidBytes (ib_itemId b') \<and> ib_itemType b = ib_itemType b'"

lemma scope_bytes_cases:
  assumes "scope_bytes sc = Inr bs"
  obtains "sc = Personal" "bs = [0]" | orgId u where "sc = Org orgId" "uuidBytes orgId = Some u" "bs = 1 # u" "length u = 16"
  using assms by (cases sc) (auto simp: scope_bytes_def rbind_eq_Inr uuidBytes_js_Inr uuidBytes_length)

lemma scope_bytes_prefix_free:
  assumes "scope_bytes sc = Inr bs" "scope_bytes sc' = Inr bs'" "bs @ x = bs' @ y"
  shows "same_scope sc sc'" "bs = bs'" "x = y"
  using assms by (auto elim!: scope_bytes_cases)

lemma itemAad_Inr:
  "itemAad b r = Inr a \<longleftrightarrow>
     (\<exists>sb ub. length (utf8_encode (ib_itemType b)) \<le> 255 \<and> scope_bytes (ib_scope b) = Inr sb \<and>
        uuidBytes (ib_itemId b) = Some ub \<and> 0 \<le> r \<and> r \<le> MAX_SAFE_INTEGER \<and>
        a = AAD_LABEL @ [0, FORMAT_V2] @ sb @ ub @ [of_nat (length (utf8_encode (ib_itemType b)))] @
            utf8_encode (ib_itemType b) @ be_bytes 8 (nat r))"
  by (auto simp: itemAad_def Let_def rbind_eq_Inr uuidBytes_js_Inr u64be_Inr not_less simp del: be_bytes.simps)

lemma itemAad_inj:
  assumes "itemAad b r = Inr a" "itemAad b' r' = Inr a"
  shows "same_row b b' \<and> r = r'"
proof -
  let ?t = "utf8_encode (ib_itemType b)" and ?t' = "utf8_encode (ib_itemType b')"
  obtain sb ub where b: "length ?t \<le> 255" "scope_bytes (ib_scope b) = Inr sb" "uuidBytes (ib_itemId b) = Some ub"
      "0 \<le> r" "r \<le> MAX_SAFE_INTEGER"
    and a: "a = AAD_LABEL @ [0, FORMAT_V2] @ sb @ ub @ [of_nat (length ?t)] @ ?t @ be_bytes 8 (nat r)"
    using assms(1) unfolding itemAad_Inr by blast
  obtain sb' ub' where b': "length ?t' \<le> 255" "scope_bytes (ib_scope b') = Inr sb'" "uuidBytes (ib_itemId b') = Some ub'"
      "0 \<le> r'" "r' \<le> MAX_SAFE_INTEGER"
    and a': "a = AAD_LABEL @ [0, FORMAT_V2] @ sb' @ ub' @ [of_nat (length ?t')] @ ?t' @ be_bytes 8 (nat r')"
    using assms(2) unfolding itemAad_Inr by blast
  have eq: "sb @ (ub @ [of_nat (length ?t)] @ ?t @ be_bytes 8 (nat r)) =
            sb' @ (ub' @ [of_nat (length ?t')] @ ?t' @ be_bytes 8 (nat r'))"
    using a a' by (simp del: be_bytes.simps)
  note sc = scope_bytes_prefix_free [OF b(2) b'(2) eq]
  have "length ub = length ub'" using b(3) b'(3) uuidBytes_length by metis
  with sc(3) have u: "ub = ub'" and rest: "[of_nat (length ?t)] @ ?t @ be_bytes 8 (nat r) =
      [of_nat (length ?t') :: byte] @ ?t' @ be_bytes 8 (nat r')" by (simp_all del: be_bytes.simps)
  then have "unat (of_nat (length ?t) :: byte) = unat (of_nat (length ?t') :: byte)" by (simp del: be_bytes.simps)
  then have "length ?t = length ?t'" using b(1) b'(1) by simp
  with rest have t: "?t = ?t'" and rv: "be_bytes 8 (nat r) = be_bytes 8 (nat r')" by (simp_all del: be_bytes.simps)
  from rv have "r = r'" using be_bytes_safe_inj b(4,5) b'(4,5) by blast
  with sc(1) u t b(3) b'(3) show ?thesis by (simp add: same_row_def utf8_encode_inj)
qed

lemma itemAad_nonempty: "itemAad b r = Inr a \<Longrightarrow> a \<noteq> []"
  by (auto simp: itemAad_Inr)

section \<open>Envelopes\<close>

lemma encryptItemV2_Inr:
  "encryptItemV2 C iv p b r0 k = Inr e \<longleftrightarrow>
     (\<exists>aad. p \<noteq> JNull \<and> json_get p ''type'' = Some (JStr (ib_itemType b)) \<and> itemAad b r0 = Inr aad \<and>
        ck_allows k AesGcm UseEncrypt \<and>
        e = \<lparr>eb_blob = toBase64 (FORMAT_V2 # be_bytes 8 (nat r0) @
               aes_gcm_encrypt C (ck_material k) iv aad (json_bytes p)),
             eb_blobIv = toBase64 iv, eb_blobMac = ''''\<rparr>)"
  by (auto simp: encryptItemV2_def js_type_of_def rbind_eq_Inr subtle_encrypt_def u64be_Inr itemAad_Inr
      simp del: be_bytes.simps split: if_splits)

lemma rcatch_const_Inr: "rcatch r (\<lambda>_. Inl x) = Inr y \<longleftrightarrow> r = Inr y"
  by (cases r) auto

lemma decryptV2_Inr:
  "decryptV2 C e b k = Inr d \<longleftrightarrow>
     (\<exists>blob iv aad m. fromBase64 (eb_blob e) = Some blob \<and> HEADER_LEN < length blob \<and> hd blob = FORMAT_V2 \<and>
        fromBase64 (eb_blobIv e) = Some iv \<and>
        di_revision d = int (be_val (take 8 (drop 1 blob))) \<and> di_revision d \<le> MAX_SAFE_INTEGER \<and>
        itemAad b (di_revision d) = Inr aad \<and> ck_allows k AesGcm UseDecrypt \<and>
        aes_gcm_decrypt C (ck_material k) iv aad (drop HEADER_LEN blob) = Some m \<and>
        json_of_bytes m = Inr (di_plaintext d) \<and> di_format d = 2)"
  by (cases d) (auto simp: decryptV2_def fromBase64_js_def rbind_eq_Inr Let_def rcatch_const_Inr
      subtle_decrypt_Inr_iff not_le not_less split: if_splits)

lemma decryptV2_encryptItemV2:
  assumes "aead_correct C" "aead_expands C" "aes_key_ok k" "encryptItemV2 C iv p b r0 k = Inr e"
  shows "decryptV2 C e b k = Inr \<lparr>di_plaintext = p, di_revision = r0, di_format = 2\<rparr>"
proof -
  obtain aad where e: "itemAad b r0 = Inr aad" and ee: "e = \<lparr>eb_blob = toBase64 (FORMAT_V2 # be_bytes 8 (nat r0) @
               aes_gcm_encrypt C (ck_material k) iv aad (json_bytes p)),
             eb_blobIv = toBase64 iv, eb_blobMac = ''''\<rparr>"
    using assms(4) unfolding encryptItemV2_Inr by blast
  let ?c = "aes_gcm_encrypt C (ck_material k) iv aad (json_bytes p)"
  have r: "0 \<le> r0" "r0 \<le> MAX_SAFE_INTEGER" using e by (auto simp: itemAad_Inr)
  then have be: "int (be_val (be_bytes 8 (nat r0))) = r0"
    using safe_less by (simp add: be_val_bytes del: be_bytes.simps)
  have "?c \<noteq> []" using assms(2) unfolding aead_expands_def by (metis list.size(3) not_less_zero)
  then show ?thesis
    unfolding decryptV2_Inr using assms(1,3) e r be
    by (simp add: ee HEADER_LEN_def aes_key_ok_def aead_correctD del: be_bytes.simps)
qed

section \<open>Decryption against the store\<close>

lemma decryptVaultItem_store:
  "decryptVaultItem C e b keys (Some s) = (r, rs) \<Longrightarrow>
     (case r of Inl _ \<Rightarrow> rs = Some s
      | Inr d \<Rightarrow> rs = Some (revs_record (ib_itemId b) (di_revision d) s) \<and>
          (\<forall>h. revs_get s (ib_itemId b) = Some h \<longrightarrow> h \<le> di_revision d) \<and>
          decryptEnvelope C e b keys (revs_v2Only s) = Inr d \<and>
          di_plaintext d \<noteq> JNull \<and> json_get (di_plaintext d) ''type'' = Some (JStr (ib_itemType b)))"
  by (auto simp: decryptVaultItem_def js_type_of_def rbind_eq_Inr not_less
      split: sum.splits option.splits if_splits)

lemma decryptVaultItem_Some_Inr:
  assumes "decryptVaultItem C e b keys (Some s) = (Inr d, rs)"
  shows "rs = Some (revs_record (ib_itemId b) (di_revision d) s)"
    "revs_get s (ib_itemId b) = Some h \<Longrightarrow> h \<le> di_revision d"
    "decryptEnvelope C e b keys (revs_v2Only s) = Inr d"
  using decryptVaultItem_store [OF assms] by simp_all

lemma decryptVaultItem_None:
  "decryptVaultItem C e b keys None = (Inr d, rs) \<Longrightarrow> decryptEnvelope C e b keys False = Inr d"
  by (auto simp: decryptVaultItem_def js_type_of_def rbind_eq_Inr split: sum.splits if_splits)

lemma decryptEnvelope_mono:
  "decryptEnvelope C e b keys v = Inr d \<Longrightarrow> decryptEnvelope C e b keys False = Inr d"
  by (auto simp: decryptEnvelope_def split: if_splits)

lemma decryptVaultItem_envelope:
  "decryptVaultItem C e b keys rs = (Inr d, rs') \<Longrightarrow> decryptEnvelope C e b keys False = Inr d"
  by (cases rs) (auto dest: decryptVaultItem_None decryptVaultItem_Some_Inr(3) decryptEnvelope_mono)

lemma decryptEnvelope_revision:
  assumes "decryptEnvelope C e b keys v = Inr d"
  shows "0 \<le> di_revision d" "isLegacyItemBlob e \<Longrightarrow> di_revision d = 0 \<and> di_format d = 1"
    "\<not> isLegacyItemBlob e \<Longrightarrow> di_format d = 2"
  using assms by (auto simp: decryptEnvelope_def rbind_eq_Inr decryptV2_Inr split: if_splits)

lemma encryptItemV2_not_legacy: "encryptItemV2 C iv p b r0 k = Inr e \<Longrightarrow> \<not> isLegacyItemBlob e"
  by (auto simp: encryptItemV2_Inr isLegacyItemBlob_def)

lemma decryptVaultItem_encryptItemV2:
  assumes "aead_correct C" "aead_expands C" "aes_key_ok (vk_vaultEncKey keys)"
    "encryptItemV2 C iv p b r0 (vk_vaultEncKey keys) = Inr e"
  shows "decryptVaultItem C e b keys None = (Inr \<lparr>di_plaintext = p, di_revision = r0, di_format = 2\<rparr>, None)"
    and "(\<forall>h. revs_get s (ib_itemId b) = Some h \<longrightarrow> h \<le> r0) \<Longrightarrow>
      decryptVaultItem C e b keys (Some s) =
        (Inr \<lparr>di_plaintext = p, di_revision = r0, di_format = 2\<rparr>, Some (revs_record (ib_itemId b) r0 s))"
proof -
  have d: "decryptEnvelope C e b keys v = Inr \<lparr>di_plaintext = p, di_revision = r0, di_format = 2\<rparr>" for v
    using assms encryptItemV2_not_legacy [OF assms(4)] decryptV2_encryptItemV2 [OF assms]
    by (simp add: decryptEnvelope_def)
  have t: "js_type_of p = Inr (Some (JStr (ib_itemType b)))"
    using assms(4) by (auto simp: encryptItemV2_Inr js_type_of_def)
  show "decryptVaultItem C e b keys None = (Inr \<lparr>di_plaintext = p, di_revision = r0, di_format = 2\<rparr>, None)"
    by (simp add: decryptVaultItem_def d t)
  assume "\<forall>h. revs_get s (ib_itemId b) = Some h \<longrightarrow> h \<le> r0"
  then show "decryptVaultItem C e b keys (Some s) =
      (Inr \<lparr>di_plaintext = p, di_revision = r0, di_format = 2\<rparr>, Some (revs_record (ib_itemId b) r0 s))"
    by (auto simp: decryptVaultItem_def d t split: option.splits)
qed

lemma decryptVaultItem_persisted:
  assumes "revs_persisted i s" "decryptVaultItem C e b keys (Some s) = (r, Some s')"
  shows "revs_persisted i s'"
  using decryptVaultItem_store [OF assms(2)] assms(1) by (auto split: sum.splits)

text \<open>
  A ciphertext sealed for one row and revision, presented under any header, iv and row, either fails
  or is read as that row at that revision.
\<close>

lemma sealed_only_opens_as_written:
  assumes binds: "aead_binds C"
    and enc: "encryptItemV2 C iv p b r0 (vk_vaultEncKey keys) = Inr e" "fromBase64 (eb_blob e) = Some blob"
    and moved: "eb_blobMac e' = ''''" "fromBase64 (eb_blob e') = Some blob'" "drop HEADER_LEN blob' = drop HEADER_LEN blob"
    and dec: "decryptVaultItem C e' b' keys rs = (Inr d, rs')"
  shows "same_row b b' \<and> di_revision d = r0"
proof -
  obtain aad where aad: "itemAad b r0 = Inr aad" and e: "e = \<lparr>eb_blob = toBase64 (FORMAT_V2 # be_bytes 8 (nat r0) @
               aes_gcm_encrypt C (ck_material (vk_vaultEncKey keys)) iv aad (json_bytes p)),
             eb_blobIv = toBase64 iv, eb_blobMac = ''''\<rparr>"
    using enc(1) unfolding encryptItemV2_Inr by blast
  then have ct: "drop HEADER_LEN blob = aes_gcm_encrypt C (ck_material (vk_vaultEncKey keys)) iv aad (json_bytes p)"
    using enc(2) by (auto simp: HEADER_LEN_def simp del: be_bytes.simps)
  have "decryptV2 C e' b' (vk_vaultEncKey keys) = Inr d"
    using decryptVaultItem_envelope [OF dec] moved(1)
    by (simp add: decryptEnvelope_def isLegacyItemBlob_def)
  then obtain iv' aad' m where aad': "itemAad b' (di_revision d) = Inr aad'"
    and "aes_gcm_decrypt C (ck_material (vk_vaultEncKey keys)) iv' aad' (drop HEADER_LEN blob') = Some m"
    unfolding decryptV2_Inr using moved(2) by auto
  then have "aad = aad'"
    using binds moved(3) ct by (metis aead_bindsD option.distinct(1))
  with aad aad' show ?thesis using itemAad_inj by metis
qed

text \<open>Nor can the ciphertext of a v2 item be passed off as a v1 blob.\<close>

lemma sealed_not_legacy:
  assumes binds: "aead_binds C"
    and aad: "itemAad b r0 = Inr aad"
    and moved: "fromBase64 (eb_blob e') = Some (aes_gcm_encrypt C (ck_material (vk_vaultEncKey keys)) iv aad m)"
    and leg: "isLegacyItemBlob e'"
  shows "\<exists>x. decryptVaultItem C e' b' keys rs = (Inl x, rs)"
proof (cases "fst (decryptVaultItem C e' b' keys rs)")
  case (Inl x)
  then show ?thesis
    by (cases rs) (auto simp: decryptVaultItem_def split: sum.splits option.splits if_splits)
next
  case (Inr d)
  then have "decryptEnvelope C e' b' keys False = Inr d"
    using decryptVaultItem_envelope by (metis prod.collapse)
  then have "\<exists>p. decryptItem C e' (vk_vaultEncKey keys) (vk_vaultMacKey keys) = Inr p"
    using leg by (auto simp: decryptEnvelope_def rbind_eq_Inr split: if_splits)
  then show ?thesis
    using moved aead_bindsD [OF binds itemAad_nonempty [OF aad]]
    by (auto simp: decryptItem_def rbind_eq_Inr fromBase64_js_def subtle_decrypt_def split: if_splits)
qed

section \<open>Writing\<close>

lemma encryptVaultItem_Inr:
  assumes "encryptVaultItem C iv p b k rs cur = Inr (e, r0)"
  shows "encryptItemV2 C iv p b r0 k = Inr e" "cur = None \<Longrightarrow> 1 \<le> r0"
    "rs = Some s \<Longrightarrow> revs_get s (ib_itemId b) = Some h \<Longrightarrow> h < r0" "cur = Some c \<Longrightarrow> c < r0"
  using assms by (auto simp: encryptVaultItem_def Let_def rbind_eq_Inr)

lemma upgradeOne_True:
  assumes "upgradeOne C keys write iv item s w = (True, s', w')"
  obtains d s1 e r0 where
    "decryptVaultItem C (ev_encrypted item) (bindingForItem item) keys (Some s) = (Inr d, Some s1)"
    "encryptVaultItem C iv (di_plaintext d) (bindingForItem item) (vk_vaultEncKey keys) (Some s1)
       (Some (di_revision d)) = Inr (e, r0)"
    "write item e w = (Inr (), w')" "s' = revs_record (ev_id item) r0 s1"
  using assms by (auto simp: upgradeOne_def Let_def split: prod.splits sum.splits option.splits)

lemma upgradeLoop_counts:
  assumes "upgradeLoop C keys write rng n items s w u f = ((u', f'), s', w')"
  shows "u' + f' = u + f + length (filter (isLegacyItemBlob \<circ> ev_encrypted) items) \<and> u \<le> u' \<and> f \<le> f'"
  using assms
  by (induction items arbitrary: n s w u f) (fastforce split: if_splits prod.splits bool.splits)+

section \<open>Sequences of reads\<close>

text \<open>
  A client reads whatever the server serves, one blob after another, against one store; the accepted
  items are collected in order with the id they were read under.
\<close>

fun readAll ::
  "crypto \<Rightarrow> VaultKeys \<Rightarrow> (EncryptedBlob \<times> ItemBinding) list \<Rightarrow> MemoryRevisionStore \<Rightarrow>
   (string \<times> DecryptedItem) list \<times> MemoryRevisionStore" where
  "readAll C keys [] s = ([], s)"
| "readAll C keys ((e, b) # served) s =
     (case decryptVaultItem C e b keys (Some s) of
        (r, rs) \<Rightarrow>
          let (acc, s') = readAll C keys served (case rs of None \<Rightarrow> s | Some x \<Rightarrow> x)
          in ((case r of Inl _ \<Rightarrow> acc | Inr d \<Rightarrow> (ib_itemId b, d) # acc), s'))"

definition accepted_revisions :: "string \<Rightarrow> (string \<times> DecryptedItem) list \<Rightarrow> int list" where
  "accepted_revisions i acc = map (di_revision \<circ> snd) (filter (\<lambda>a. fst a = i) acc)"

lemma accepted_revisions_simps [simp]:
  "accepted_revisions i [] = []"
  "accepted_revisions i ((j, d) # acc) = (if j = i then [di_revision d] else []) @ accepted_revisions i acc"
  by (simp_all add: accepted_revisions_def)

text \<open>One read: either nothing changes, or the accepted revision is the new mark and was not below the old one.\<close>

lemma readAll_step:
  assumes "decryptVaultItem C e b keys (Some s) = (r, rs)"
  obtains x where "r = Inl x" "rs = Some s"
  | d s1 where "r = Inr d" "rs = Some s1" "0 \<le> di_revision d" "mark_le (revs_get s (ib_itemId b)) (Some (di_revision d))"
      "revs_get s1 (ib_itemId b) = Some (di_revision d)" "\<And>j. j \<noteq> ib_itemId b \<Longrightarrow> revs_get s1 j = revs_get s j"
      "revs_v2Only s1 = revs_v2Only s" "revs_v2Only s \<longrightarrow> \<not> isLegacyItemBlob e"
proof (cases r)
  case (Inl x)
  then show ?thesis using that(1) decryptVaultItem_store [OF assms] by simp
next
  case (Inr d)
  note st = decryptVaultItem_Some_Inr [OF assms [unfolded Inr]]
  have nn: "0 \<le> di_revision d" using decryptEnvelope_revision(1) [OF st(3)] .
  have le: "mark_le (revs_get s (ib_itemId b)) (Some (di_revision d))"
    using st(2) by (cases "revs_get s (ib_itemId b)") auto
  then have "revs_get (revs_record (ib_itemId b) (di_revision d) s) (ib_itemId b) = Some (di_revision d)"
    using nn by (cases "revs_get s (ib_itemId b)") (auto simp: revs_get_record)
  moreover have "revs_v2Only s \<longrightarrow> \<not> isLegacyItemBlob e"
    using st(3) by (auto simp: decryptEnvelope_def)
  ultimately show ?thesis using that(2) Inr st(1) nn le by (simp add: revs.get_record_other)
qed

lemma readAll_accepted:
  assumes "readAll C keys served s = (acc, s')"
  shows "sorted (accepted_revisions i acc) \<and>
     (\<forall>v \<in> set (accepted_revisions i acc). mark_le (revs_get s i) (Some v) \<and> mark_le (Some v) (revs_get s' i)) \<and>
     mark_le (revs_get s i) (revs_get s' i) \<and> revs_v2Only s' = revs_v2Only s"
  using assms
proof (induction served arbitrary: s acc)
  case Nil
  then show ?case by simp
next
  case (Cons a served)
  obtain e b where a: "a = (e, b)" by (cases a)
  obtain r rs where d: "decryptVaultItem C e b keys (Some s) = (r, rs)" by (metis prod.exhaust)
  from d show ?case
  proof (cases rule: readAll_step)
    case (1 x)
    then show ?thesis using Cons a d by (simp split: prod.splits)
  next
    case (2 dd s1)
    obtain acc1 where ra: "readAll C keys served s1 = (acc1, s')" and acc: "acc = (ib_itemId b, dd) # acc1"
      using Cons.prems 2 a d by (auto split: prod.splits)
    note IH = Cons.IH [OF ra]
    have m: "mark_le (revs_get s i) (revs_get s1 i)"
      using 2(4,5,6) by (cases "ib_itemId b = i") auto
    show ?thesis
    proof (cases "ib_itemId b = i")
      case True
      then have "revs_get s1 i = Some (di_revision dd)" using 2(5) by simp
      with IH m True acc 2(7) show ?thesis by (auto intro: mark_le_trans)
    next
      case False
      with IH m acc 2(6,7) show ?thesis by (auto intro: mark_le_trans)
    qed
  qed
qed

section \<open>Sample data\<close>

definition demo_note :: json where
  "demo_note = JObj [(''type'', JStr ''note''), (''name'', JStr ''n'')]"

definition demo_binding :: ItemBinding where
  "demo_binding = \<lparr>ib_scope = Personal, ib_itemId = ''00112233-4455-6677-8899-aabbccddeeff'',
     ib_itemType = ''note''\<rparr>"

definition demo_org_binding :: ItemBinding where
  "demo_org_binding = \<lparr>ib_scope = Org ''ffffffff-4455-6677-8899-aabbccddeeff'',
     ib_itemId = ''00112233-4455-6677-8899-aabbccddeeff'', ib_itemType = ''note''\<rparr>"

definition demo_keys :: VaultKeys where
  "demo_keys = \<lparr>vk_vaultEncKey = demo_aes_key 1, vk_vaultMacKey = demo_mac_key 2\<rparr>"

definition demo_iv :: bytes where "demo_iv = replicate 12 7"

definition demo_aad :: "int \<Rightarrow> bytes" where
  "demo_aad r = AAD_LABEL @ [0, FORMAT_V2] @ [0] @
     [0x00, 0x11, 0x22, 0x33, 0x44, 0x55, 0x66, 0x77, 0x88, 0x99, 0xaa, 0xbb, 0xcc, 0xdd, 0xee, 0xff] @
     [4] @ utf8_encode ''note'' @ be_bytes 8 (nat r)"

definition demo_envelope :: "int \<Rightarrow> EncryptedBlob" where
  "demo_envelope r = \<lparr>eb_blob = toBase64 (FORMAT_V2 # be_bytes 8 (nat r) @
       aes_gcm_encrypt demo_crypto (replicate 32 1) demo_iv (demo_aad r) (json_bytes demo_note)),
     eb_blobIv = toBase64 demo_iv, eb_blobMac = ''''\<rparr>"

definition demo_store :: MemoryRevisionStore where
  "demo_store = new_MemoryRevisionStore (Some [(''00112233-4455-6677-8899-aabbccddeeff'', 3)]) None"

lemma demo_uuid: "uuidBytes ''00112233-4455-6677-8899-aabbccddeeff'' =
    Some [0x00, 0x11, 0x22, 0x33, 0x44, 0x55, 0x66, 0x77, 0x88, 0x99, 0xaa, 0xbb, 0xcc, 0xdd, 0xee, 0xff]"
  by code_simp

lemma demo_type_length: "length (utf8_encode ''note'') = 4"
  by code_simp

lemma demo_itemAad: "0 \<le> r \<Longrightarrow> r \<le> MAX_SAFE_INTEGER \<Longrightarrow> itemAad demo_binding r = Inr (demo_aad r)"
  by (simp add: itemAad_Inr demo_binding_def demo_aad_def demo_uuid demo_type_length scope_bytes_def
      del: be_bytes.simps)

lemma demo_encrypt:
  "0 \<le> r \<Longrightarrow> r \<le> MAX_SAFE_INTEGER \<Longrightarrow>
   encryptItemV2 demo_crypto demo_iv demo_note demo_binding r (vk_vaultEncKey demo_keys) = Inr (demo_envelope r)"
  by (simp add: encryptItemV2_Inr demo_itemAad demo_envelope_def demo_keys_def demo_aes_key_def ck_allows_def
      demo_note_def json_get_def demo_binding_def [THEN arg_cong [where f = ib_itemType]] del: be_bytes.simps)

lemma demo_small: "(3::int) \<le> MAX_SAFE_INTEGER" "(4::int) \<le> MAX_SAFE_INTEGER"
  by (simp_all add: MAX_SAFE_INTEGER_def)

lemma demo_keys_good: "aes_key_ok (vk_vaultEncKey demo_keys)" "mac_key_ok (vk_vaultMacKey demo_keys)"
  by (simp_all add: demo_keys_def)

lemma demo_decrypt:
  assumes "0 \<le> r" "r \<le> MAX_SAFE_INTEGER"
  shows "decryptVaultItem demo_crypto (demo_envelope r) demo_binding demo_keys None =
           (Inr \<lparr>di_plaintext = demo_note, di_revision = r, di_format = 2\<rparr>, None)"
    and "(\<forall>h. revs_get s (ib_itemId demo_binding) = Some h \<longrightarrow> h \<le> r) \<Longrightarrow>
      decryptVaultItem demo_crypto (demo_envelope r) demo_binding demo_keys (Some s) =
        (Inr \<lparr>di_plaintext = demo_note, di_revision = r, di_format = 2\<rparr>,
         Some (revs_record (ib_itemId demo_binding) r s))"
  using decryptVaultItem_encryptItemV2 [OF demo_aead_correct demo_aead_expands demo_keys_good(1) demo_encrypt [OF assms]]
  by simp_all

lemma demo_store_get: "revs_get demo_store (ib_itemId demo_binding) = Some 3"
  by (simp add: demo_store_def revs_get_def new_MemoryRevisionStore_def demo_binding_def)

definition demo_legacy_blob :: EncryptedBlob where
  "demo_legacy_blob = (let c = aes_gcm_encrypt demo_crypto (replicate 32 1) demo_iv [] (json_bytes demo_note) in
     \<lparr>eb_blob = toBase64 c, eb_blobIv = toBase64 demo_iv,
      eb_blobMac = toBase64 (hmac_digest demo_crypto ''SHA-256'' (replicate 32 2) (demo_iv @ c))\<rparr>)"

definition demo_legacy_item :: EncryptedVaultItem where
  "demo_legacy_item = \<lparr>ev_id = ib_itemId demo_binding, ev_vaultId = ''v'', ev_userId = ''u'', ev_orgId = None,
     ev_itemType = ''note'', ev_blob = eb_blob demo_legacy_blob, ev_blobIv = eb_blobIv demo_legacy_blob,
     ev_blobMac = eb_blobMac demo_legacy_blob, ev_version = 1, ev_deletedAt = None, ev_createdAt = ''c'',
     ev_updatedAt = ''d''\<rparr>"

lemma toBase64_Nil_iff: "toBase64 bs = '''' \<longleftrightarrow> bs = []"
proof -
  have "toBase64 [] = ''''" by (simp add: toBase64_def btoa_def b64_pad_def)
  then show ?thesis by (metis toBase64_inj)
qed

lemma demo_legacy: "isLegacyItemBlob (ev_encrypted demo_legacy_item)"
  by (simp add: isLegacyItemBlob_def ev_encrypted_def demo_legacy_item_def demo_legacy_blob_def Let_def
      toBase64_Nil_iff demo_crypto_def frame_def)

lemma demo_legacy_binding: "bindingForItem demo_legacy_item = demo_binding"
  by (simp add: bindingForItem_def demo_legacy_item_def demo_binding_def)

lemma demo_legacy_encrypted:
  "encryptItem demo_crypto demo_iv demo_note (vk_vaultEncKey demo_keys) (vk_vaultMacKey demo_keys) =
     Inr (ev_encrypted demo_legacy_item)"
  by (simp add: encryptItem_def subtle_defs demo_keys_def demo_aes_key_def demo_mac_key_def ck_allows_def
      ev_encrypted_def demo_legacy_item_def demo_legacy_blob_def Let_def)

lemma demo_upgradeOne:
  "upgradeOne demo_crypto demo_keys (\<lambda>_ _. io_return ()) demo_iv demo_legacy_item (new_MemoryRevisionStore None None) () =
     (True, revs_record (ib_itemId demo_binding) 1
        (revs_record (ib_itemId demo_binding) 0 (new_MemoryRevisionStore None None)), ())"
proof -
  let ?s = "new_MemoryRevisionStore None None"
  have d: "decryptItem demo_crypto (ev_encrypted demo_legacy_item) (vk_vaultEncKey demo_keys) (vk_vaultMacKey demo_keys)
      = Inr demo_note"
    using demo_legacy_encrypted demo_keys_good by (blast intro: decryptItem_encryptItem demo_aead_correct)
  have t: "js_type_of demo_note = Inr (Some (JStr (ib_itemType demo_binding)))"
    by (simp add: js_type_of_def demo_note_def json_get_def demo_binding_def)
  have "decryptVaultItem demo_crypto (ev_encrypted demo_legacy_item) demo_binding demo_keys (Some ?s) =
      (Inr \<lparr>di_plaintext = demo_note, di_revision = 0, di_format = 1\<rparr>,
       Some (revs_record (ib_itemId demo_binding) 0 ?s))"
    by (simp add: decryptVaultItem_def decryptEnvelope_def demo_legacy d t revs_get_def revs_v2Only_def
        new_MemoryRevisionStore_def)
  moreover have "encryptVaultItem demo_crypto demo_iv demo_note demo_binding (vk_vaultEncKey demo_keys)
      (Some (revs_record (ib_itemId demo_binding) 0 ?s)) (Some 0) = Inr (demo_envelope 1, 1)"
    using demo_encrypt [of 1] by (simp add: encryptVaultItem_def MAX_SAFE_INTEGER_def Let_def revs_get_def
        revs_record_def revs_notify_def new_MemoryRevisionStore_def)
  ultimately show ?thesis
    by (simp add: upgradeOne_def demo_legacy_binding io_run) (simp add: demo_legacy_item_def)
qed

section \<open>Theorems\<close>

text \<open>
  C1. An item sealed with \<open>encryptItemV2\<close> is opened by \<open>decryptVaultItem\<close>, under the same key
  and binding and against a store that has not seen a higher revision, as exactly the plaintext and
  revision that were written, and the store then holds that revision.
\<close>

theorem envelope_roundtrip:
  assumes "aead_correct C" "aead_expands C" "aes_key_ok (vk_vaultEncKey keys)"
    and "encryptItemV2 C iv p b r (vk_vaultEncKey keys) = Inr e"
    and "\<forall>h. revs_get s (ib_itemId b) = Some h \<longrightarrow> h \<le> r"
  shows "decryptVaultItem C e b keys (Some s) =
           (Inr \<lparr>di_plaintext = p, di_revision = r, di_format = 2\<rparr>, Some (revs_record (ib_itemId b) r s)) \<and>
         revs_get (revs_record (ib_itemId b) r s) (ib_itemId b) = Some r"
proof -
  have r: "0 \<le> r" using assms(4) by (auto simp: encryptItemV2_Inr itemAad_Inr)
  then have "revs_get (revs_record (ib_itemId b) r s) (ib_itemId b) = Some r"
    using assms(5) by (cases "revs_get s (ib_itemId b)") (auto simp: revs_get_record)
  then show ?thesis using decryptVaultItem_encryptItemV2(2) [OF assms] by simp
qed

theorem envelope_roundtrip_witness:
  "decryptVaultItem demo_crypto (demo_envelope 4) demo_binding demo_keys (Some demo_store) =
     (Inr \<lparr>di_plaintext = demo_note, di_revision = 4, di_format = 2\<rparr>,
      Some (revs_record (ib_itemId demo_binding) 4 demo_store)) \<and>
   revs_get (revs_record (ib_itemId demo_binding) 4 demo_store) (ib_itemId demo_binding) = Some 4"
proof (rule envelope_roundtrip)
  show "aes_key_ok (vk_vaultEncKey demo_keys)" by (rule demo_keys_good)
  show "encryptItemV2 demo_crypto demo_iv demo_note demo_binding 4 (vk_vaultEncKey demo_keys) = Inr (demo_envelope 4)"
    using demo_small by (simp add: demo_encrypt)
  show "\<forall>h. revs_get demo_store (ib_itemId demo_binding) = Some h \<longrightarrow> h \<le> 4"
    by (simp add: demo_store_get)
qed (rule demo_aead_correct demo_aead_expands)+

text \<open>
  C2. A sealed item cannot be moved. Whatever header, iv and row a server presents the ciphertext of a
  v2 item under, \<open>decryptVaultItem\<close> accepts it only as the scope, item id and type it was sealed
  for, at the revision it was sealed at.
\<close>

theorem envelope_bound_to_row:
  assumes "aead_binds C"
    and "encryptItemV2 C iv p b r (vk_vaultEncKey keys) = Inr e" "fromBase64 (eb_blob e) = Some blob"
    and "eb_blobMac e' = ''''" "fromBase64 (eb_blob e') = Some blob'" "drop HEADER_LEN blob' = drop HEADER_LEN blob"
    and "decryptVaultItem C e' b' keys rs = (Inr d, rs')"
  shows "same_row b b' \<and> di_revision d = r"
  using assms by (rule sealed_only_opens_as_written)

theorem envelope_bound_to_row_witness:
  "same_row demo_binding demo_binding \<and>
   di_revision \<lparr>di_plaintext = demo_note, di_revision = 3, di_format = 2\<rparr> = 3"
proof (rule envelope_bound_to_row [OF demo_aead_binds])
  show "encryptItemV2 demo_crypto demo_iv demo_note demo_binding 3 (vk_vaultEncKey demo_keys) = Inr (demo_envelope 3)"
    using demo_small by (simp add: demo_encrypt)
  show "decryptVaultItem demo_crypto (demo_envelope 3) demo_binding demo_keys None =
          (Inr \<lparr>di_plaintext = demo_note, di_revision = 3, di_format = 2\<rparr>, None)"
    using demo_small by (simp add: demo_decrypt)
qed (simp_all add: demo_envelope_def)

text \<open>
  The canonical additional data is unambiguous: two bindings and revisions that encode to the same
  bytes agree on scope, item id, item type and revision.
\<close>

theorem itemAad_injective:
  assumes "itemAad b r = Inr a" "itemAad b' r' = Inr a"
  shows "same_row b b' \<and> r = r'"
  using assms by (rule itemAad_inj)

theorem itemAad_injective_witness: "same_row demo_binding demo_binding \<and> (3::int) = 3"
  by (rule itemAad_injective [OF demo_itemAad demo_itemAad]) (simp_all add: demo_small)

text \<open>
  C3. Rollback protection over any history. However many blobs a server serves, for whichever items,
  the revisions a client accepts for one item never go down, never go below what its store held at the
  start, and its store ends at or above all of them.
\<close>

theorem reads_never_roll_back:
  assumes "readAll C keys served s = (accepted, s')"
  shows "sorted (accepted_revisions i accepted) \<and>
     (\<forall>v \<in> set (accepted_revisions i accepted). mark_le (revs_get s i) (Some v) \<and> mark_le (Some v) (revs_get s' i)) \<and>
     mark_le (revs_get s i) (revs_get s' i)"
  using readAll_accepted [OF assms] by blast

theorem reads_never_roll_back_witness:
  "sorted (accepted_revisions (ib_itemId demo_binding)
     (fst (readAll demo_crypto demo_keys [(demo_envelope 4, demo_binding)] demo_store))) \<and>
   accepted_revisions (ib_itemId demo_binding)
     (fst (readAll demo_crypto demo_keys [(demo_envelope 4, demo_binding)] demo_store)) = [4]"
proof -
  have d: "decryptVaultItem demo_crypto (demo_envelope 4) demo_binding demo_keys (Some demo_store) =
        (Inr \<lparr>di_plaintext = demo_note, di_revision = 4, di_format = 2\<rparr>,
         Some (revs_record (ib_itemId demo_binding) 4 demo_store))"
    using demo_small by (intro demo_decrypt(2)) (simp_all add: demo_store_get)
  show ?thesis
    using reads_never_roll_back [where C = demo_crypto and keys = demo_keys and s = demo_store and
        served = "[(demo_envelope 4, demo_binding)]" and i = "ib_itemId demo_binding", OF surjective_pairing]
    by (simp add: d)
qed

text \<open>
  A v1 blob is accepted only by a store that is not v2-only and has seen nothing above revision 0
  of the item, and then counts as revision 0; a v2-only store refuses it with
  \<open>LegacyItemRejectedError\<close> and stays as it was.
\<close>

theorem legacy_accepted_only_before_v2:
  assumes "isLegacyItemBlob e"
  shows "case decryptVaultItem C e b keys (Some s) of
           (Inr d, s') \<Rightarrow> \<not> revs_v2Only s \<and> mark_le (revs_get s (ib_itemId b)) (Some 0) \<and>
             di_revision d = 0 \<and> di_format d = 1 \<and> s' = Some (revs_record (ib_itemId b) 0 s)
         | (Inl x, s') \<Rightarrow> s' = Some s \<and> (revs_v2Only s \<longrightarrow> x = LegacyItemRejectedError (ib_itemId b))"
proof -
  obtain r rs where d: "decryptVaultItem C e b keys (Some s) = (r, rs)" by (metis prod.exhaust)
  have v: "revs_v2Only s \<Longrightarrow> r = Inl (LegacyItemRejectedError (ib_itemId b))"
    using d assms by (auto simp: decryptVaultItem_def decryptEnvelope_def)
  show ?thesis
  proof (cases r)
    case (Inl x)
    then show ?thesis using d v decryptVaultItem_store [OF d] by auto
  next
    case (Inr dd)
    note st = decryptVaultItem_Some_Inr [OF d [unfolded Inr]]
    have "di_revision dd = 0 \<and> di_format dd = 1"
      using decryptEnvelope_revision(2) [OF st(3) assms] .
    moreover have "mark_le (revs_get s (ib_itemId b)) (Some (di_revision dd))"
      using st(2) by (cases "revs_get s (ib_itemId b)") auto
    ultimately show ?thesis using d v Inr st(1) by auto
  qed
qed

theorem legacy_accepted_only_before_v2_witness:
  "decryptVaultItem demo_crypto (demo_envelope 3\<lparr>eb_blobMac := ''AAAA''\<rparr>) demo_binding demo_keys
     (Some (revs_markV2Only demo_store)) =
   (Inl (LegacyItemRejectedError (ib_itemId demo_binding)), Some (revs_markV2Only demo_store))"
proof -
  have leg: "isLegacyItemBlob (demo_envelope 3\<lparr>eb_blobMac := ''AAAA''\<rparr>)"
    by (simp add: isLegacyItemBlob_def)
  show ?thesis
    using legacy_accepted_only_before_v2 [OF leg, where C = demo_crypto and b = demo_binding and
        keys = demo_keys and s = "revs_markV2Only demo_store"]
    by (auto split: prod.splits sum.splits)
qed

text \<open>
  An edit is never mistaken for a rollback: the revision \<open>encryptVaultItem\<close> chooses is above
  the store's mark and above the revision being replaced, so every device whose own mark is not above
  either of these reads the new blob back as what was written.
\<close>

theorem edit_beats_current:
  assumes "aead_correct C" "aead_expands C" "aes_key_ok (vk_vaultEncKey keys)"
    and "encryptVaultItem C iv p b (vk_vaultEncKey keys) (Some s) current = Inr (e, r)"
    and "mark_le (revs_get other (ib_itemId b)) (revs_get s (ib_itemId b)) \<or>
         mark_le (revs_get other (ib_itemId b)) current"
  shows "\<not> mark_le (Some r) (revs_get s (ib_itemId b)) \<and> \<not> mark_le (Some r) current \<and>
    decryptVaultItem C e b keys (Some other) =
      (Inr \<lparr>di_plaintext = p, di_revision = r, di_format = 2\<rparr>, Some (revs_record (ib_itemId b) r other))"
proof -
  note enc = encryptVaultItem_Inr [OF assms(4)]
  have s: "\<not> mark_le (Some r) (revs_get s (ib_itemId b))"
    using enc(3) [OF refl] by (cases "revs_get s (ib_itemId b)") (auto simp: not_le)
  have c: "\<not> mark_le (Some r) current" using enc(4) by (cases current) auto
  have "h \<le> r" if "revs_get other (ib_itemId b) = Some h" for h
    using assms(5) s c that by (cases "revs_get s (ib_itemId b)"; cases current) auto
  then have o: "\<forall>h. revs_get other (ib_itemId b) = Some h \<longrightarrow> h \<le> r" by blast
  show ?thesis
    using decryptVaultItem_encryptItemV2(2) [OF assms(1-3) enc(1) o] s c by blast
qed

theorem edit_beats_current_witness:
  "\<not> mark_le (Some 4) (revs_get demo_store (ib_itemId demo_binding)) \<and> \<not> mark_le (Some 4) None \<and>
    decryptVaultItem demo_crypto (demo_envelope 4) demo_binding demo_keys (Some demo_store) =
      (Inr \<lparr>di_plaintext = demo_note, di_revision = 4, di_format = 2\<rparr>,
       Some (revs_record (ib_itemId demo_binding) 4 demo_store))"
proof (rule edit_beats_current [OF demo_aead_correct demo_aead_expands demo_keys_good(1)])
  show "encryptVaultItem demo_crypto demo_iv demo_note demo_binding (vk_vaultEncKey demo_keys) (Some demo_store) None =
          Inr (demo_envelope 4, 4)"
    using demo_encrypt [of 4] demo_small by (simp add: encryptVaultItem_def demo_store_get)
qed simp

text \<open>
  Only a marker whose MAC verifies under the account's key closes the store to v1 items: applying
  one leaves the marks alone, never reopens a closed store, and reports v2-only exactly when the store
  was closed before or the marker decodes to the HMAC of the v2-only label. The marker the account
  makes for itself does close it.
\<close>

theorem v2_only_marker_authentic:
  assumes "mac_key_ok k"
  shows "(case applyV2OnlyMarker C marker k s of (v2, s') \<Rightarrow>
           v2 = revs_v2Only s' \<and> (\<forall>i. revs_get s' i = revs_get s i) \<and>
           (v2 \<longleftrightarrow> revs_v2Only s \<or>
             (\<exists>m. marker = Some m \<and> m \<noteq> '''' \<and>
                fromBase64 m = Some (hmac_digest C ''SHA-256'' (ck_material k) (utf8_encode V2_ONLY_LABEL))))) \<and>
         (v2OnlyMarker C k = Inr m \<longrightarrow> m \<noteq> '''' \<longrightarrow> fst (applyV2OnlyMarker C (Some m) k s))"
proof -
  have v: "subtle_verify C ''SHA-256'' k mac x = Inr (mac = hmac_digest C ''SHA-256'' (ck_material k) x)" for mac x
    using assms by (simp add: subtle_verify_def mac_key_ok_def)
  have ap: "applyV2OnlyMarker C (Some m) k s =
      (let s' = if m \<noteq> '''' \<and> fromBase64 m = Some (hmac_digest C ''SHA-256'' (ck_material k) (utf8_encode V2_ONLY_LABEL))
                then revs_markV2Only s else s in (revs_v2Only s', s'))" for m
    by (cases "fromBase64 m") (simp_all add: applyV2OnlyMarker_def fromBase64_js_def v Let_def)
  have own: "fst (applyV2OnlyMarker C (Some m) k s)" if "v2OnlyMarker C k = Inr m" "m \<noteq> ''''"
    using that by (auto simp: ap v2OnlyMarker_def macLabel_def subtle_sign_def Let_def split: if_splits)
  show ?thesis
  proof (cases marker)
    case None
    then show ?thesis using own by (simp add: applyV2OnlyMarker_def)
  next
    case (Some x)
    have "revs_v2Only s' \<longleftrightarrow> revs_v2Only s \<or> c" if "s' = (if c then revs_markV2Only s else s)" for s' c
      using that by (auto simp: revs_mark_v2Only)
    then show ?thesis using own by (auto simp: Some ap Let_def)
  qed
qed

theorem v2_only_marker_authentic_witness:
  "\<not> fst (applyV2OnlyMarker demo_crypto (Some ''forged'') (demo_mac_key 2) demo_store) \<and>
   fst (applyV2OnlyMarker demo_crypto
     (Some (toBase64 (hmac_digest demo_crypto ''SHA-256'' (replicate 32 2) (utf8_encode V2_ONLY_LABEL)))) (demo_mac_key 2) demo_store)"
proof
  show "\<not> fst (applyV2OnlyMarker demo_crypto (Some ''forged'') (demo_mac_key 2) demo_store)"
    by code_simp
  have "toBase64 (hmac_digest demo_crypto ''SHA-256'' (replicate 32 2) (utf8_encode V2_ONLY_LABEL)) \<noteq> toBase64 []"
    by (simp add: demo_crypto_def frame_def)
  then have "toBase64 (hmac_digest demo_crypto ''SHA-256'' (replicate 32 2) (utf8_encode V2_ONLY_LABEL)) \<noteq> ''''"
    by (simp add: toBase64_def btoa_def b64_pad_def)
  then show "fst (applyV2OnlyMarker demo_crypto
     (Some (toBase64 (hmac_digest demo_crypto ''SHA-256'' (replicate 32 2) (utf8_encode V2_ONLY_LABEL)))) (demo_mac_key 2) demo_store)"
    using v2_only_marker_authentic [where k = "demo_mac_key 2" and C = demo_crypto and s = demo_store, OF demo_keys_ok(2)]
    by (simp add: v2OnlyMarker_def macLabel_def subtle_sign_def demo_mac_key_def ck_allows_def)
qed

text \<open>
  The upgrade of legacy items accounts for every one of them: upgraded and failed add up to the v1
  items given, and \<open>legacyLeft\<close> (which decides whether the account may be marked v2-only) is the
  number that failed.
\<close>

theorem upgrade_accounts_for_every_legacy_item:
  assumes "upgradeLegacyItems C items keys s write rng w = (res, s', w')"
  shows "up_upgraded res + up_failed res = length (filter (isLegacyItemBlob \<circ> ev_encrypted) items) \<and>
         up_legacyLeft res = up_failed res"
proof -
  obtain u f where l: "upgradeLoop C keys write rng 0 items s w 0 0 = ((u, f), s', w')"
    and r: "res = \<lparr>up_upgraded = u, up_failed = f, up_legacyLeft = f\<rparr>"
    using assms by (auto simp: upgradeLegacyItems_def split: prod.splits)
  show ?thesis using upgradeLoop_counts [OF l] r by simp
qed

theorem upgrade_accounts_for_every_legacy_item_witness:
  "\<exists>res s' w'. upgradeLegacyItems demo_crypto [demo_legacy_item, demo_legacy_item] demo_keys demo_store
       (\<lambda>_ _. io_return ()) (\<lambda>_. demo_iv) () = (res, s', w') \<and> up_upgraded res + up_failed res = 2"
proof -
  obtain res s' w' where u: "upgradeLegacyItems demo_crypto [demo_legacy_item, demo_legacy_item] demo_keys demo_store
       (\<lambda>_ _. io_return ()) (\<lambda>_. demo_iv) () = (res, s', w')" by (metis prod.exhaust)
  show ?thesis
    using upgrade_accounts_for_every_legacy_item [OF u] u by (auto simp: demo_legacy)
qed

text \<open>
  C4. An item counts as upgraded only after the write of a v2 envelope succeeded, and that envelope
  opens, under the item's own binding, as the plaintext the v1 blob held, at a revision of at least 1
  which the store then holds.
\<close>

theorem upgrade_preserves_plaintext:
  assumes "aead_correct C" "aead_expands C" "aes_key_ok (vk_vaultEncKey keys)"
    and "upgradeOne C keys write iv item s w = (True, s', w')"
  shows "\<exists>d e r. fst (decryptVaultItem C (ev_encrypted item) (bindingForItem item) keys (Some s)) = Inr d \<and>
    write item e w = (Inr (), w') \<and> \<not> isLegacyItemBlob e \<and> 1 \<le> r \<and>
    decryptVaultItem C e (bindingForItem item) keys (Some s') =
      (Inr \<lparr>di_plaintext = di_plaintext d, di_revision = r, di_format = 2\<rparr>, Some s') \<and>
    revs_get s' (ev_id item) = Some r"
  using assms(4)
proof (rule upgradeOne_True)
  fix d s1 e r
  let ?b = "bindingForItem item"
  assume dec: "decryptVaultItem C (ev_encrypted item) ?b keys (Some s) = (Inr d, Some s1)"
    and enc: "encryptVaultItem C iv (di_plaintext d) ?b (vk_vaultEncKey keys) (Some s1) (Some (di_revision d)) = Inr (e, r)"
    and wr: "write item e w = (Inr (), w')" and s': "s' = revs_record (ev_id item) r s1"
  note e2 = encryptVaultItem_Inr [OF enc]
  have id: "ib_itemId ?b = ev_id item" by (simp add: bindingForItem_def)
  have "0 \<le> di_revision d" using decryptVaultItem_Some_Inr(3) [OF dec] decryptEnvelope_revision(1) by blast
  with e2(4) have r: "1 \<le> r" by fastforce
  have "opt_mark (-1) (revs_get s1 (ev_id item)) < r"
    using e2(3) [OF refl] r by (cases "revs_get s1 (ev_id item)") (auto simp: id)
  then have g: "revs_get s' (ev_id item) = Some r" by (simp add: s' revs_get_record)
  then have again: "revs_record (ev_id item) r s' = s'"
    by (simp add: revs_get_def revs_record_def)
  have "decryptVaultItem C e ?b keys (Some s') =
      (Inr \<lparr>di_plaintext = di_plaintext d, di_revision = r, di_format = 2\<rparr>, Some s')"
    using decryptVaultItem_encryptItemV2(2) [OF assms(1-3) e2(1), of s'] g again by (simp add: id)
  then show ?thesis using dec wr encryptItemV2_not_legacy [OF e2(1)] r g by auto
qed

theorem upgrade_preserves_plaintext_witness:
  "\<exists>s'. upgradeOne demo_crypto demo_keys (\<lambda>_ _. io_return ()) demo_iv demo_legacy_item
          (new_MemoryRevisionStore None None) () = (True, s', ()) \<and>
     (\<exists>e r. \<not> isLegacyItemBlob e \<and> 1 \<le> r \<and> revs_get s' (ev_id demo_legacy_item) = Some r)"
  using upgrade_preserves_plaintext [OF demo_aead_correct demo_aead_expands demo_keys_good(1) demo_upgradeOne]
    demo_upgradeOne by blast

text \<open>
  What a revision store has persisted is what it holds: after any reads, writes recorded and
  markers applied, the last snapshot handed to \<open>onChange\<close> (or the snapshot it was created from, if
  nothing changed) equals the store's state.
\<close>

theorem revision_store_persisted:
  assumes "revs_persisted snap s"
  shows "revs_persisted snap (snd (readAll C keys served s)) \<and> revs_persisted snap (revs_record i v s) \<and>
    revs_persisted snap (snd (applyV2OnlyMarker C marker k s))"
proof -
  have r: "revs_persisted snap (snd (readAll C keys served s))"
    using assms
  proof (induction served arbitrary: s)
    case (Cons a served)
    obtain e b where a: "a = (e, b)" by (cases a)
    obtain r rs where d: "decryptVaultItem C e b keys (Some s) = (r, rs)" by (metis prod.exhaust)
    then obtain s1 where s1: "rs = Some s1" using decryptVaultItem_store by (cases r) fastforce+
    then have "revs_persisted snap s1" using decryptVaultItem_persisted Cons.prems d by blast
    then show ?case using Cons.IH a d s1 by (simp split: prod.splits) (metis snd_conv)
  qed simp
  have "revs_persisted snap (snd (applyV2OnlyMarker C marker k s))"
    using assms by (auto simp: applyV2OnlyMarker_def Let_def split: option.splits)
  with r assms show ?thesis by blast
qed

theorem revision_store_persisted_witness:
  "revs_persisted (revs_toJSON demo_store) (snd (readAll demo_crypto demo_keys [(demo_envelope 4, demo_binding)] demo_store))"
  using revision_store_persisted [OF revs_persisted_new] unfolding demo_store_def by blast

end
