(* ===== verification/Identity_Keys.thy ===== *)
theory Identity_Keys
  imports Item_Envelope
begin

text \<open>
  Identity keys and signed organization keys, \<open>packages/crypto/src/identity.ts\<close>: key bundles
  signed with an Ed25519 identity key, the pins a device keeps of other people's identity keys,
  safety numbers, signed wraps of an organization key and the chain of wraps that vouches for one.

  The stores of pins and epochs are interfaces of the source, so they are records of functions over a
  state of their own; \<open>Local_Trust\<close> provides the browser's. Their contracts are the locales
  \<open>key_pin_store\<close> and \<open>high_water\<close>.
\<close>

section \<open>Key bundles\<close>

definition BUNDLE_LABEL :: bytes where "BUNDLE_LABEL = utf8_encode ''nopwd-key-bundle-v1''"
definition SAFETY_LABEL :: bytes where "SAFETY_LABEL = utf8_encode ''nopwd-safety-number-v1''"
definition WRAP_LABEL :: bytes where "WRAP_LABEL = utf8_encode ''nopwd-org-key-wrap-v2''"

record IdentityKey =
  ik_secretKey :: bytes
  ik_publicKeyB64 :: string
  ik_rsaPublicKeyB64 :: string

text \<open>
  Importing the PKCS8 key, exporting its modulus and exponent and exporting those as SPKI is the
  parameter \<open>rsa_spki_of_pkcs8\<close>, which fails when the key does not parse.
\<close>

definition deriveIdentityKey :: "crypto \<Rightarrow> string \<Rightarrow> string \<Rightarrow> CryptoKey \<Rightarrow> IdentityKey js" where
  "deriveIdentityKey C protectedPrivateKeyB64 protectedPrivateKeyIvB64 stretchedMasterKey =
     rbind (decryptBytes C \<lparr>eb_blob = protectedPrivateKeyB64, eb_blobIv = protectedPrivateKeyIvB64, eb_blobMac = ''''\<rparr>
              stretchedMasterKey) (\<lambda>pkcs8.
     let secretKey = hkdf_sha256 C pkcs8 [] (utf8_encode ''nopwd-identity-ed25519-v1'') 32 in
     rbind (of_option DOMException (rsa_spki_of_pkcs8 C pkcs8)) (\<lambda>spki.
     Inr \<lparr>ik_secretKey = secretKey, ik_publicKeyB64 = toBase64 (ed25519_getPublicKey C secretKey),
          ik_rsaPublicKeyB64 = toBase64 spki\<rparr>))"

definition bundleMessage :: "string \<Rightarrow> string \<Rightarrow> bytes js" where
  "bundleMessage userId rsaPublicKeyB64 =
     rbind (uuidBytes_js userId) (\<lambda>u.
     rbind (fromBase64_js rsaPublicKeyB64) (\<lambda>k.
     Inr (BUNDLE_LABEL @ [0] @ u @ k)))"

definition signKeyBundle :: "crypto \<Rightarrow> string \<Rightarrow> string \<Rightarrow> bytes \<Rightarrow> string js" where
  "signKeyBundle C userId rsaPublicKeyB64 identitySecretKey =
     rbind (bundleMessage userId rsaPublicKeyB64) (\<lambda>m. Inr (toBase64 (ed25519_sign C m identitySecretKey)))"

text \<open>Checking an encoded signature over a message that may fail to build: any exception is a refusal.\<close>

definition checkSignature :: "crypto \<Rightarrow> string \<Rightarrow> bytes js \<Rightarrow> string \<Rightarrow> bool" where
  "checkSignature C signature message identityPublicKey =
     (case rbind (fromBase64_js signature) (\<lambda>s.
           rbind message (\<lambda>m.
           rbind (fromBase64_js identityPublicKey) (\<lambda>k.
           of_option (JsError ''ed25519'') (ed25519_verify C s m k)))) of
        Inl _ \<Rightarrow> False | Inr ok \<Rightarrow> ok)"

definition verifyKeyBundle :: "crypto \<Rightarrow> KeyBundle \<Rightarrow> bool" where
  "verifyKeyBundle C bundle =
     (case (nonempty_opt (kb_identityPublicKey bundle), nonempty_opt (kb_publicKeySignature bundle)) of
        (Some ident, Some signature) \<Rightarrow>
          checkSignature C signature (bundleMessage (kb_userId bundle) (kb_publicKey bundle)) ident
      | _ \<Rightarrow> False)"

definition safety_group :: "bytes \<Rightarrow> nat \<Rightarrow> string" where
  "safety_group digest g =
     padStart 5 CHR ''0'' (nat_to_string
       (foldl (\<lambda>n i. n * 256 + unat (digest ! (g * 5 + i))) 0 [0..<5] mod 100000))"

definition safetyNumber :: "crypto \<Rightarrow> string \<Rightarrow> string \<Rightarrow> string js" where
  "safetyNumber C userId identityPublicKeyB64 =
     rbind (uuidBytes_js userId) (\<lambda>u.
     rbind (fromBase64_js identityPublicKeyB64) (\<lambda>k.
     let digest = (sha512 C ^^ 5200) (SAFETY_LABEL @ u @ k) in
     Inr (js_join '' '' (map (safety_group digest) [0..<6]))))"

section \<open>Pins\<close>

record 's KeyPinStore =
  pins_get :: "'s \<Rightarrow> string \<Rightarrow> string option"
  pins_set :: "string \<Rightarrow> string \<Rightarrow> 's \<Rightarrow> 's"

record VerifiedKey =
  vk_rsaPublicKeyB64 :: string
  vk_safetyNumber :: string
  vk_firstSeen :: bool

definition verifyMemberKey :: "crypto \<Rightarrow> KeyBundle \<Rightarrow> (string \<Rightarrow> string option) \<Rightarrow> VerifiedKey js" where
  "verifyMemberKey C bundle pinned_for =
     (case (nonempty_opt (kb_identityPublicKey bundle), nonempty_opt (kb_publicKeySignature bundle)) of
        (Some ident, Some _) \<Rightarrow>
          if \<not> verifyKeyBundle C bundle
          then Inl (UnverifiableKeyError (kb_userId bundle) ''This user's key bundle has an invalid signature.'')
          else
            let pinned = pinned_for (kb_userId bundle) in
            if pinned \<noteq> None \<and> pinned \<noteq> Some ident then Inl (PinnedKeyChangedError (kb_userId bundle))
            else
              rbind (safetyNumber C (kb_userId bundle) ident) (\<lambda>number.
              Inr \<lparr>vk_rsaPublicKeyB64 = kb_publicKey bundle, vk_safetyNumber = number, vk_firstSeen = (pinned = None)\<rparr>)
      | _ \<Rightarrow> Inl (UnverifiableKeyError (kb_userId bundle)
                ''This user has not published an identity key yet. Ask them to sign in once, then try again.''))"

definition confirmKey :: "crypto \<Rightarrow> 's KeyPinStore \<Rightarrow> KeyBundle \<Rightarrow> ('s, js_error, unit) io" where
  "confirmKey C pins bundle s =
     (case verifyMemberKey C bundle (pins_get pins s) of
        Inl e \<Rightarrow> (Inl e, s)
      | Inr verified \<Rightarrow>
          (Inr (), if vk_firstSeen verified
                   then pins_set pins (kb_userId bundle) (the (kb_identityPublicKey bundle)) s else s))"

section \<open>Signed organization key wraps\<close>

definition ORG_ADMIN_ROLES :: "string list" where
  "ORG_ADMIN_ROLES = [''owner'', ''admin'']"

record OrgKeyWrap =
  kw_orgId :: string
  kw_epoch :: int
  kw_recipientUserId :: string
  kw_signerUserId :: string
  kw_role :: string
  kw_encryptedOrgKey :: string

definition wrapMessage :: "OrgKeyWrap \<Rightarrow> bytes js" where
  "wrapMessage wrap =
     (let role = utf8_encode (kw_role wrap) in
      if length role > 255 then Inl (JsError ''role too long'')
      else if kw_epoch wrap < 1 \<or> kw_epoch wrap > 0xffffffff then Inl (JsError ''invalid key epoch'')
      else
      rbind (uuidBytes_js (kw_orgId wrap)) (\<lambda>org.
      rbind (uuidBytes_js (kw_recipientUserId wrap)) (\<lambda>recipient.
      rbind (uuidBytes_js (kw_signerUserId wrap)) (\<lambda>signer.
      rbind (fromBase64_js (kw_encryptedOrgKey wrap)) (\<lambda>key.
      Inr (WRAP_LABEL @ [0] @ org @ be_bytes 4 (nat (kw_epoch wrap)) @ recipient @ signer @
           [of_nat (length role)] @ role @ key))))))"

definition signOrgKeyWrap :: "crypto \<Rightarrow> OrgKeyWrap \<Rightarrow> bytes \<Rightarrow> string js" where
  "signOrgKeyWrap C wrap identitySecretKey =
     rbind (wrapMessage wrap) (\<lambda>m. Inr (toBase64 (ed25519_sign C m identitySecretKey)))"

record SignedWrapLink =
  sl_wrap :: OrgKeyWrap
  sl_signature :: "string option"
  sl_signer :: KeyBundle

record 's OrgEpochStore =
  epochs_get :: "'s \<Rightarrow> string \<Rightarrow> int option"
  epochs_record :: "string \<Rightarrow> int \<Rightarrow> 's \<Rightarrow> 's"

text \<open>The checks one link has to pass before its signature is looked at, in the order of the loop.\<close>

definition link_shape ::
  "string \<Rightarrow> int \<Rightarrow> SignedWrapLink \<Rightarrow> SignedWrapLink option \<Rightarrow> unit js" where
  "link_shape orgId epoch link nxt =
     (let wrap = sl_wrap link in
      if nonempty_opt (sl_signature link) = None then
        Inl (UntrustedOrgKeyError ''This organization's key is not signed by whoever shared it. Ask the owner to re-sign the organization.'')
      else if kw_orgId wrap \<noteq> orgId \<or> kw_epoch wrap \<noteq> epoch then
        Inl (UntrustedOrgKeyError ''This organization's key chain mixes organizations or key versions.'')
      else if kb_userId (sl_signer link) \<noteq> kw_signerUserId wrap then
        Inl (UntrustedOrgKeyError ''Key chain signer mismatch.'')
      else if kw_signerUserId wrap = kw_recipientUserId wrap then
        (if kw_role wrap \<noteq> ''owner'' \<or> nxt \<noteq> None then
           Inl (UntrustedOrgKeyError ''Only the organization owner can vouch for their own key.'')
         else Inr ())
      else
        (case nxt of
           Some n \<Rightarrow>
             if kw_recipientUserId (sl_wrap n) \<noteq> kw_signerUserId wrap \<or> kw_role (sl_wrap n) \<notin> set ORG_ADMIN_ROLES then
               Inl (UntrustedOrgKeyError ''This organization's key was shared by someone who is not an admin or owner.'')
             else Inr ()
         | None \<Rightarrow>
             Inl (UntrustedOrgKeyError ''This organization's key was shared by someone who is not an admin or owner.'')))"

definition link_signed :: "crypto \<Rightarrow> SignedWrapLink \<Rightarrow> bool" where
  "link_signed C link =
     checkSignature C (the (sl_signature link)) (wrapMessage (sl_wrap link)) (the (kb_identityPublicKey (sl_signer link)))"

fun chain_loop ::
  "crypto \<Rightarrow> string \<Rightarrow> int \<Rightarrow> (string \<Rightarrow> string option) \<Rightarrow> (KeyBundle \<times> string) list \<Rightarrow>
   SignedWrapLink list \<Rightarrow> (KeyBundle \<times> string) list js" where
  "chain_loop C orgId epoch pinned_for unconfirmed [] = Inr unconfirmed"
| "chain_loop C orgId epoch pinned_for unconfirmed (link # rest) =
     rbind (link_shape orgId epoch link (case rest of [] \<Rightarrow> None | n # _ \<Rightarrow> Some n)) (\<lambda>_.
     rbind (verifyMemberKey C (sl_signer link) pinned_for) (\<lambda>verified.
     if \<not> link_signed C link then
       Inl (UntrustedOrgKeyError ''This organization key's signature is invalid - it may have been replaced.'')
     else
       chain_loop C orgId epoch pinned_for
         (if vk_firstSeen verified \<and> kb_userId (sl_signer link) \<notin> (kb_userId \<circ> fst) ` set unconfirmed
          then unconfirmed @ [(sl_signer link, vk_safetyNumber verified)] else unconfirmed)
         rest))"

definition verifyOrgKeyChain ::
  "crypto \<Rightarrow> SignedWrapLink list \<Rightarrow> string \<Rightarrow> string \<Rightarrow> (string \<Rightarrow> string option) \<Rightarrow> (string \<Rightarrow> int option) \<Rightarrow>
   OrgKeyWrap js" where
  "verifyOrgKeyChain C chain orgId recipientUserId pinned_for highest_for =
     (case chain of
        [] \<Rightarrow> Inl (UntrustedOrgKeyError ''The server did not return your copy of this organization's key.'')
      | own # _ \<Rightarrow>
          if kw_orgId (sl_wrap own) \<noteq> orgId \<or> kw_recipientUserId (sl_wrap own) \<noteq> recipientUserId then
            Inl (UntrustedOrgKeyError ''The server did not return your copy of this organization's key.'')
          else if length chain > 16 then Inl (UntrustedOrgKeyError ''This organization's key chain is too long.'')
          else
            rbind (chain_loop C orgId (kw_epoch (sl_wrap own)) pinned_for [] chain) (\<lambda>unconfirmed.
            if (case highest_for orgId of None \<Rightarrow> False | Some highest \<Rightarrow> kw_epoch (sl_wrap own) < highest) then
              Inl (UntrustedOrgKeyError ''This organization's key is older than one this device already uses - refusing a rollback.'')
            else if unconfirmed \<noteq> [] then Inl (UnconfirmedSignersError unconfirmed)
            else Inr (sl_wrap own)))"

definition link_from_server :: "string \<Rightarrow> WrapLink \<Rightarrow> SignedWrapLink" where
  "link_from_server orgId l =
     \<lparr>sl_wrap = \<lparr>kw_orgId = orgId, kw_epoch = (case wl_keyEpoch l of None \<Rightarrow> 0 | Some e \<Rightarrow> e),
        kw_recipientUserId = wl_recipientUserId l, kw_signerUserId = wl_signerUserId l, kw_role = wl_role l,
        kw_encryptedOrgKey = wl_encryptedOrgKey l\<rparr>,
      sl_signature = (if wl_keyEpoch l = None then None else wl_wrapSignature l),
      sl_signer = wl_signer l\<rparr>"

definition chainFromServer :: "string \<Rightarrow> WrapLink list \<Rightarrow> SignedWrapLink list" where
  "chainFromServer orgId chain = map (link_from_server orgId) chain"

section \<open>What the code relies on\<close>

text \<open>A signature made with a secret key verifies under its public key.\<close>

definition sig_correct :: "crypto \<Rightarrow> bool" where
  "sig_correct C \<longleftrightarrow>
     (\<forall>m sk. ed25519_verify C (ed25519_sign C m sk) m (ed25519_getPublicKey C sk) = Some True)"

text \<open>Public keys have 32 bytes and a signature is not empty.\<close>

definition sig_shapes :: "crypto \<Rightarrow> bool" where
  "sig_shapes C \<longleftrightarrow> (\<forall>m sk. length (ed25519_getPublicKey C sk) = 32 \<and> ed25519_sign C m sk \<noteq> [])"

lemma demo_sig: "sig_correct demo_crypto" "sig_shapes demo_crypto"
  by (simp_all add: sig_correct_def sig_shapes_def demo_crypto_def frame_def)

lemma toBase64_empty_iff [simp]: "toBase64 bs = '''' \<longleftrightarrow> bs = []"
proof
  have e: "fromBase64 '''' = Some []" by code_simp
  assume "toBase64 bs = ''''"
  then show "bs = []" using e fromBase64_toBase64 [of bs] by simp
next
  have "toBase64 [] = ''''" by code_simp
  then show "bs = [] \<Longrightarrow> toBase64 bs = ''''" by simp
qed

section \<open>Signed messages\<close>

lemma checkSignature_iff:
  "checkSignature C signature message ident \<longleftrightarrow>
     (\<exists>s m k. fromBase64 signature = Some s \<and> message = Inr m \<and> fromBase64 ident = Some k \<and>
        ed25519_verify C s m k = Some True)"
  by (auto simp: checkSignature_def fromBase64_js_def rbind_eq_Inr split: sum.splits)

lemma checkSignature_signed:
  "sig_correct C \<Longrightarrow>
   checkSignature C (toBase64 (ed25519_sign C m sk)) (Inr m) (toBase64 (ed25519_getPublicKey C sk))"
  by (auto simp: checkSignature_iff sig_correct_def)

lemma bundleMessage_Inr:
  "bundleMessage u k = Inr m \<longleftrightarrow>
     (\<exists>ub kb. uuidBytes u = Some ub \<and> fromBase64 k = Some kb \<and> m = BUNDLE_LABEL @ [0] @ ub @ kb)"
  by (auto simp: bundleMessage_def rbind_eq_Inr uuidBytes_js_Inr fromBase64_js_def)

lemma wrapMessage_Inr:
  "wrapMessage w = Inr m \<longleftrightarrow>
     (\<exists>ob rb sb kb. length (utf8_encode (kw_role w)) \<le> 255 \<and> 1 \<le> kw_epoch w \<and> kw_epoch w \<le> 0xffffffff \<and>
        uuidBytes (kw_orgId w) = Some ob \<and> uuidBytes (kw_recipientUserId w) = Some rb \<and>
        uuidBytes (kw_signerUserId w) = Some sb \<and> fromBase64 (kw_encryptedOrgKey w) = Some kb \<and>
        m = WRAP_LABEL @ [0] @ ob @ be_bytes 4 (nat (kw_epoch w)) @ rb @ sb @
            [of_nat (length (utf8_encode (kw_role w)))] @ utf8_encode (kw_role w) @ kb)"
  by (auto simp: wrapMessage_def Let_def rbind_eq_Inr uuidBytes_js_Inr fromBase64_js_def not_less simp del: be_bytes.simps)

text \<open>Two wraps say the same: same organization, epoch, people (as UUIDs), role and ciphertext.\<close>

definition same_wrap :: "OrgKeyWrap \<Rightarrow> OrgKeyWrap \<Rightarrow> bool" where
  "same_wrap w w' \<longleftrightarrow>
     uuidBytes (kw_orgId w) = uuidBytes (kw_orgId w') \<and> kw_epoch w = kw_epoch w' \<and>
     uuidBytes (kw_recipientUserId w) = uuidBytes (kw_recipientUserId w') \<and>
     uuidBytes (kw_signerUserId w) = uuidBytes (kw_signerUserId w') \<and> kw_role w = kw_role w' \<and>
     fromBase64 (kw_encryptedOrgKey w) = fromBase64 (kw_encryptedOrgKey w')"

lemma byte_of_nat_inj:
  assumes "(of_nat m :: byte) = of_nat n" "m \<le> 255" "n \<le> 255"
  shows "m = n"
proof -
  have "m mod 256 = n mod 256" using assms(1) unat_of_nat_byte by metis
  then show ?thesis using assms(2,3) by simp
qed

lemma epoch_bytes_inj:
  assumes "1 \<le> a" "a \<le> 0xffffffff" "1 \<le> b" "b \<le> 0xffffffff" "be_bytes 4 (nat a) = be_bytes 4 (nat b)"
  shows "a = b"
proof -
  have "nat a < 256 ^ 4" "nat b < 256 ^ 4" using assms(2,4) by auto
  then have "nat a = nat b" using assms(5) be_bytes_inj by blast
  then show ?thesis using assms(1,3) by simp
qed

lemma wrapMessage_inj:
  assumes "wrapMessage w = Inr m" "wrapMessage w' = Inr m"
  shows "same_wrap w w'"
proof -
  let ?t = "utf8_encode (kw_role w)" and ?t' = "utf8_encode (kw_role w')"
  let ?e = "be_bytes 4 (nat (kw_epoch w))" and ?e' = "be_bytes 4 (nat (kw_epoch w'))"
  obtain ob rb sb kb where w: "length ?t \<le> 255" "1 \<le> kw_epoch w" "kw_epoch w \<le> 0xffffffff"
      "uuidBytes (kw_orgId w) = Some ob" "uuidBytes (kw_recipientUserId w) = Some rb"
      "uuidBytes (kw_signerUserId w) = Some sb" "fromBase64 (kw_encryptedOrgKey w) = Some kb"
    and m: "m = WRAP_LABEL @ [0] @ ob @ ?e @ rb @ sb @ [of_nat (length ?t)] @ ?t @ kb"
    using assms(1) unfolding wrapMessage_Inr by blast
  obtain ob' rb' sb' kb' where w': "length ?t' \<le> 255" "1 \<le> kw_epoch w'" "kw_epoch w' \<le> 0xffffffff"
      "uuidBytes (kw_orgId w') = Some ob'" "uuidBytes (kw_recipientUserId w') = Some rb'"
      "uuidBytes (kw_signerUserId w') = Some sb'" "fromBase64 (kw_encryptedOrgKey w') = Some kb'"
    and m': "m = WRAP_LABEL @ [0] @ ob' @ ?e' @ rb' @ sb' @ [of_nat (length ?t')] @ ?t' @ kb'"
    using assms(2) unfolding wrapMessage_Inr by blast
  have l: "length ob = length ob'" "length rb = length rb'" "length sb = length sb'"
    using w(4-6) w'(4-6) uuidBytes_length by metis+
  have eq: "ob = ob'" "?e = ?e'" "rb = rb'" "sb = sb'"
    and rest: "(of_nat (length ?t) :: byte) = of_nat (length ?t')" "?t @ kb = ?t' @ kb'"
    using m m' l by (simp_all del: be_bytes.simps)
  from rest(1) have "length ?t = length ?t'"
    using byte_of_nat_inj w(1) w'(1) by blast
  with rest(2) have t: "?t = ?t'" "kb = kb'" by simp_all
  have "kw_epoch w = kw_epoch w'" using epoch_bytes_inj [OF w(2,3) w'(2,3) eq(2)] .
  with eq t w(4-7) w'(4-7) show ?thesis by (simp add: same_wrap_def utf8_encode_inj)
qed

lemma labels_differ: "BUNDLE_LABEL @ x \<noteq> WRAP_LABEL @ y"
  by (simp add: BUNDLE_LABEL_def WRAP_LABEL_def utf8_encode_def utf8_char_def)

text \<open>
  What an identity key signs is unambiguous: a wrap message determines the organization, the
  epoch, the recipient, the signer, the role and the ciphertext, a bundle message determines the user
  and the RSA key, and no wrap message is a bundle message, so no signature made for one statement
  can be presented for another.
\<close>

theorem signed_messages_unambiguous:
  "(wrapMessage w = Inr m \<longrightarrow> wrapMessage w' = Inr m \<longrightarrow> same_wrap w w') \<and>
   (bundleMessage u k = Inr m \<longrightarrow> bundleMessage u' k' = Inr m \<longrightarrow>
      uuidBytes u = uuidBytes u' \<and> fromBase64 k = fromBase64 k') \<and>
   \<not> (wrapMessage w = Inr m \<and> bundleMessage u k = Inr m)"
proof (intro conjI impI)
  show "\<not> (wrapMessage w = Inr m \<and> bundleMessage u k = Inr m)"
    using labels_differ by (auto simp: wrapMessage_Inr bundleMessage_Inr)
  assume "bundleMessage u k = Inr m" "bundleMessage u' k' = Inr m"
  then show "uuidBytes u = uuidBytes u'" "fromBase64 k = fromBase64 k'"
    using uuidBytes_length by (auto simp: bundleMessage_Inr)
qed (rule wrapMessage_inj)

section \<open>Bundles and pins\<close>

lemma verifyKeyBundle_iff:
  "verifyKeyBundle C b \<longleftrightarrow>
     (\<exists>ident sg. nonempty_opt (kb_identityPublicKey b) = Some ident \<and> nonempty_opt (kb_publicKeySignature b) = Some sg \<and>
        checkSignature C sg (bundleMessage (kb_userId b) (kb_publicKey b)) ident)"
  by (auto simp: verifyKeyBundle_def split: option.splits)

text \<open>When a member's key is accepted: the bundle is self-signed, and the identity key is the pin, if there is one.\<close>

lemma verifyMemberKey_Inr:
  assumes "verifyMemberKey C b pinned_for = Inr v"
  shows "verifyKeyBundle C b \<and> vk_rsaPublicKeyB64 v = kb_publicKey b \<and>
    (vk_firstSeen v \<longleftrightarrow> pinned_for (kb_userId b) = None) \<and>
    (\<exists>ident. kb_identityPublicKey b = Some ident \<and> ident \<noteq> '''' \<and> safetyNumber C (kb_userId b) ident = Inr (vk_safetyNumber v) \<and>
       (pinned_for (kb_userId b) = None \<or> pinned_for (kb_userId b) = Some ident))"
  using assms
  by (auto simp: verifyMemberKey_def Let_def rbind_eq_Inr nonempty_opt_Some split: option.splits if_splits)

lemma verifyKeyBundle_safetyNumber:
  assumes "verifyKeyBundle C b" "kb_identityPublicKey b = Some ident"
  shows "\<exists>number. safetyNumber C (kb_userId b) ident = Inr number"
proof -
  have "bundleMessage (kb_userId b) (kb_publicKey b) \<noteq> Inl e" for e
    using assms by (auto simp: verifyKeyBundle_iff checkSignature_iff)
  then show ?thesis
    using assms by (auto simp: verifyKeyBundle_iff checkSignature_iff nonempty_opt_Some bundleMessage_Inr safetyNumber_def
        uuidBytes_js_def fromBase64_js_def Let_def)
qed

text \<open>A self-signed bundle is accepted, refused as changed, or returned as first seen; nothing else.\<close>

lemma verifyMemberKey_signed:
  assumes "verifyKeyBundle C b"
  shows "\<exists>ident number. kb_identityPublicKey b = Some ident \<and>
    verifyMemberKey C b pinned_for =
      (if pinned_for (kb_userId b) \<noteq> None \<and> pinned_for (kb_userId b) \<noteq> Some ident
       then Inl (PinnedKeyChangedError (kb_userId b))
       else Inr \<lparr>vk_rsaPublicKeyB64 = kb_publicKey b, vk_safetyNumber = number,
              vk_firstSeen = (pinned_for (kb_userId b) = None)\<rparr>)"
proof -
  obtain ident sg where i: "nonempty_opt (kb_identityPublicKey b) = Some ident" "nonempty_opt (kb_publicKeySignature b) = Some sg"
    using assms by (auto simp: verifyKeyBundle_iff)
  then obtain number where "safetyNumber C (kb_userId b) ident = Inr number"
    using verifyKeyBundle_safetyNumber [OF assms] by (auto simp: nonempty_opt_Some)
  then have "verifyMemberKey C b pinned_for =
      (if pinned_for (kb_userId b) \<noteq> None \<and> pinned_for (kb_userId b) \<noteq> Some ident
       then Inl (PinnedKeyChangedError (kb_userId b))
       else Inr \<lparr>vk_rsaPublicKeyB64 = kb_publicKey b, vk_safetyNumber = number,
              vk_firstSeen = (pinned_for (kb_userId b) = None)\<rparr>)"
    using assms by (simp add: verifyMemberKey_def i)
  moreover have "kb_identityPublicKey b = Some ident" using i by (simp add: nonempty_opt_Some)
  ultimately show ?thesis by blast
qed

lemma sig_shapesD:
  assumes "sig_shapes C"
  shows "toBase64 (ed25519_getPublicKey C sk) \<noteq> ''''" "toBase64 (ed25519_sign C m sk) \<noteq> ''''"
proof -
  have "length (ed25519_getPublicKey C sk) \<noteq> 0" using assms by (simp add: sig_shapes_def)
  then show "toBase64 (ed25519_getPublicKey C sk) \<noteq> ''''" by (metis length_0_conv toBase64_empty_iff)
qed (use assms in \<open>simp add: sig_shapes_def\<close>)

text \<open>What \<open>signKeyBundle\<close> signs verifies.\<close>

lemma signed_bundle_verifies:
  assumes "sig_correct C" "sig_shapes C" "signKeyBundle C u rsa sk = Inr sg"
  shows "verifyKeyBundle C \<lparr>kb_userId = u, kb_publicKey = rsa,
    kb_identityPublicKey = Some (toBase64 (ed25519_getPublicKey C sk)), kb_publicKeySignature = Some sg\<rparr>"
  using assms checkSignature_signed [OF assms(1)] sig_shapesD [OF assms(2)]
  by (auto simp: signKeyBundle_def rbind_eq_Inr verifyKeyBundle_iff nonempty_opt_Some)

text \<open>
  The contract of a pin store: what was set for a user is read back, and setting one user's pin does
  not touch another's.
\<close>

locale key_pin_store =
  fixes store :: "'s KeyPinStore"
  assumes get_set: "pins_get store (pins_set store u k s) u' = (if u' = u then Some k else pins_get store s u')"
begin

definition confirm_all :: "crypto \<Rightarrow> KeyBundle list \<Rightarrow> 's \<Rightarrow> 's" where
  "confirm_all C bs s = fold (\<lambda>b. snd \<circ> confirmKey C store b) bs s"

lemma confirm_result:
  assumes "confirmKey C store b s = (Inr (), s')"
  shows "verifyKeyBundle C b \<and> pins_get store s' (kb_userId b) = kb_identityPublicKey b"
proof -
  obtain v where v: "verifyMemberKey C b (pins_get store s) = Inr v"
    and s': "s' = (if vk_firstSeen v then pins_set store (kb_userId b) (the (kb_identityPublicKey b)) s else s)"
    using assms by (auto simp: confirmKey_def split: sum.splits)
  show ?thesis using verifyMemberKey_Inr [OF v] s' by (auto simp: get_set)
qed

lemma confirm_keeps:
  assumes "pins_get store s u = Some k"
  shows "pins_get store (snd (confirmKey C store b s)) u = Some k"
proof (cases "verifyMemberKey C b (pins_get store s)")
  case (Inr v)
  then show ?thesis using assms verifyMemberKey_Inr [OF Inr] by (auto simp: confirmKey_def get_set)
qed (simp add: confirmKey_def assms)

lemma confirm_all_keeps:
  "pins_get store s u = Some k \<Longrightarrow> pins_get store (confirm_all C bs s) u = Some k"
  by (induction bs arbitrary: s) (simp_all add: confirm_all_def confirm_keeps)

lemma pinned_is_final:
  assumes "confirmKey C store b s = (Inr (), s1)" "kb_userId b' = kb_userId b"
    "verifyKeyBundle C b'"
  shows "(kb_identityPublicKey b' = kb_identityPublicKey b \<longrightarrow>
      (\<exists>v. verifyMemberKey C b' (pins_get store (confirm_all C bs s1)) = Inr v \<and> \<not> vk_firstSeen v)) \<and>
    (kb_identityPublicKey b' \<noteq> kb_identityPublicKey b \<longrightarrow>
      verifyMemberKey C b' (pins_get store (confirm_all C bs s1)) = Inl (PinnedKeyChangedError (kb_userId b)))"
proof -
  obtain k where k: "kb_identityPublicKey b = Some k"
    using confirm_result [OF assms(1)] by (auto simp: verifyKeyBundle_iff nonempty_opt_Some)
  then have "pins_get store (confirm_all C bs s1) (kb_userId b) = Some k"
    using confirm_result [OF assms(1)] by (intro confirm_all_keeps) simp
  then show ?thesis using k assms(2) verifyMemberKey_signed [OF assms(3), of "pins_get store (confirm_all C bs s1)"] by auto
qed

end

section \<open>Chains\<close>

text \<open>
  What a chain is meant to establish, independent of how it is checked: a wrap is vouched for when it
  is signed with the pinned identity key of its signer, and the signer is either the owner signing
  their own copy or someone who holds the owner or admin role by a wrap that is itself vouched for,
  all in the same organization and epoch.
\<close>

definition signed_by_pin :: "crypto \<Rightarrow> (string \<Rightarrow> string option) \<Rightarrow> OrgKeyWrap \<Rightarrow> bool" where
  "signed_by_pin C pinned_for w \<longleftrightarrow>
     (\<exists>ident sg. pinned_for (kw_signerUserId w) = Some ident \<and> checkSignature C sg (wrapMessage w) ident)"

inductive vouched :: "crypto \<Rightarrow> (string \<Rightarrow> string option) \<Rightarrow> string \<Rightarrow> int \<Rightarrow> OrgKeyWrap \<Rightarrow> bool"
  for C pinned_for orgId epoch where
  owner: "vouched C pinned_for orgId epoch w"
    if "signed_by_pin C pinned_for w" "kw_orgId w = orgId" "kw_epoch w = epoch"
       "kw_signerUserId w = kw_recipientUserId w" "kw_role w = ''owner''"
| granted: "vouched C pinned_for orgId epoch w"
    if "vouched C pinned_for orgId epoch v" "kw_recipientUserId v = kw_signerUserId w"
       "kw_role v \<in> {''owner'', ''admin''}" "signed_by_pin C pinned_for w" "kw_orgId w = orgId" "kw_epoch w = epoch"

lemma link_shape_Inr:
  "link_shape orgId epoch l nxt = Inr () \<longleftrightarrow>
     nonempty_opt (sl_signature l) \<noteq> None \<and> kw_orgId (sl_wrap l) = orgId \<and> kw_epoch (sl_wrap l) = epoch \<and>
     kb_userId (sl_signer l) = kw_signerUserId (sl_wrap l) \<and>
     (if kw_signerUserId (sl_wrap l) = kw_recipientUserId (sl_wrap l) then kw_role (sl_wrap l) = ''owner'' \<and> nxt = None
      else \<exists>n. nxt = Some n \<and> kw_recipientUserId (sl_wrap n) = kw_signerUserId (sl_wrap l) \<and>
             kw_role (sl_wrap n) \<in> {''owner'', ''admin''})"
  by (auto simp: link_shape_def Let_def ORG_ADMIN_ROLES_def split: option.splits)

lemma chain_loop_grows:
  "chain_loop C orgId epoch pinned_for unconfirmed chain = Inr u \<Longrightarrow> \<exists>more. u = unconfirmed @ more"
proof (induction chain arbitrary: unconfirmed)
  case (Cons l rest)
  obtain unconfirmed' where "chain_loop C orgId epoch pinned_for unconfirmed' rest = Inr u"
    and "\<exists>more. unconfirmed' = unconfirmed @ more"
    using Cons.prems by (auto simp: rbind_eq_Inr split: if_splits)
  with Cons.IH show ?case by fastforce
qed simp

lemma chain_loop_confirmed:
  assumes "chain_loop C orgId epoch pinned_for unconfirmed (l # rest) = Inr []"
  shows "unconfirmed = [] \<and> link_shape orgId epoch l (case rest of [] \<Rightarrow> None | n # _ \<Rightarrow> Some n) = Inr () \<and>
    link_signed C l \<and> chain_loop C orgId epoch pinned_for [] rest = Inr [] \<and>
    (\<exists>v. verifyMemberKey C (sl_signer l) pinned_for = Inr v \<and> \<not> vk_firstSeen v)"
proof -
  obtain v where sh: "link_shape orgId epoch l (case rest of [] \<Rightarrow> None | n # _ \<Rightarrow> Some n) = Inr ()"
    and v: "verifyMemberKey C (sl_signer l) pinned_for = Inr v" and sg: "link_signed C l"
    and loop: "chain_loop C orgId epoch pinned_for
         (if vk_firstSeen v \<and> kb_userId (sl_signer l) \<notin> (kb_userId \<circ> fst) ` set unconfirmed
          then unconfirmed @ [(sl_signer l, vk_safetyNumber v)] else unconfirmed) rest = Inr []"
    using assms by (auto simp: rbind_eq_Inr split: if_splits)
  from chain_loop_grows [OF loop] have "unconfirmed = []" "\<not> vk_firstSeen v" by (auto split: if_splits)
  with sh v sg loop show ?thesis by simp
qed

lemma confirmed_link_signed:
  assumes "link_signed C l" "kb_userId (sl_signer l) = kw_signerUserId (sl_wrap l)"
    "verifyMemberKey C (sl_signer l) pinned_for = Inr v" "\<not> vk_firstSeen v"
  shows "signed_by_pin C pinned_for (sl_wrap l)"
  using assms verifyMemberKey_Inr [OF assms(3)] by (auto simp: signed_by_pin_def link_signed_def)

lemma chain_loop_vouches:
  "chain_loop C orgId epoch pinned_for [] (l # rest) = Inr [] \<Longrightarrow> vouched C pinned_for orgId epoch (sl_wrap l)"
proof (induction rest arbitrary: l)
  case (Cons n rest)
  note l = chain_loop_confirmed [OF Cons.prems]
  then have "kw_signerUserId (sl_wrap l) \<noteq> kw_recipientUserId (sl_wrap l)" by (auto simp: link_shape_Inr)
  with l have s: "kw_recipientUserId (sl_wrap n) = kw_signerUserId (sl_wrap l)" "kw_role (sl_wrap n) \<in> {''owner'', ''admin''}"
      "kw_orgId (sl_wrap l) = orgId" "kw_epoch (sl_wrap l) = epoch"
    and sg: "signed_by_pin C pinned_for (sl_wrap l)"
    using confirmed_link_signed by (auto simp: link_shape_Inr)
  have "vouched C pinned_for orgId epoch (sl_wrap n)" using Cons.IH l by blast
  from vouched.granted [OF this s(1,2) sg s(3,4)] show ?case .
next
  case Nil
  note l = chain_loop_confirmed [OF Nil]
  then have s: "kw_signerUserId (sl_wrap l) = kw_recipientUserId (sl_wrap l)"
    by (auto simp: link_shape_Inr split: if_splits)
  then show ?case using l confirmed_link_signed by (intro vouched.owner) (auto simp: link_shape_Inr)
qed

lemma verifyOrgKeyChain_Inr:
  "verifyOrgKeyChain C chain orgId me pinned_for highest_for = Inr w \<longleftrightarrow>
     (\<exists>own rest. chain = own # rest \<and> w = sl_wrap own \<and> kw_orgId w = orgId \<and> kw_recipientUserId w = me \<and>
        length chain \<le> 16 \<and> chain_loop C orgId (kw_epoch w) pinned_for [] chain = Inr [] \<and>
        (\<forall>h. highest_for orgId = Some h \<longrightarrow> h \<le> kw_epoch w))"
proof (cases chain)
  case (Cons own rest)
  show ?thesis
    unfolding verifyOrgKeyChain_def Cons list.case rbind_eq_Inr
    by (auto simp: rbind_eq_Inr simp del: chain_loop.simps split: if_splits option.splits)
qed (simp add: verifyOrgKeyChain_def)

text \<open>
  C19. An organization key is accepted only if it is vouched for: the wrap returned is the caller's
  own, for the organization asked for, and there is a line of wraps from a self-signed owner's wrap to
  it, each signed with the pinned identity key of someone who holds the owner or admin role by the wrap
  before, all of one epoch, which is not below the highest this device has used.
\<close>

theorem org_key_chain_sound:
  assumes "verifyOrgKeyChain C chain orgId me pinned_for highest_for = Inr w"
  shows "vouched C pinned_for orgId (kw_epoch w) w \<and> kw_orgId w = orgId \<and> kw_recipientUserId w = me \<and>
    (\<forall>h. highest_for orgId = Some h \<longrightarrow> h \<le> kw_epoch w)"
  using assms chain_loop_vouches unfolding verifyOrgKeyChain_Inr by fastforce

text \<open>Completeness, link by link: a well-placed link, signed by someone whose key is pinned, is passed over.\<close>

lemma chain_loop_step:
  assumes "link_shape orgId epoch l (case rest of [] \<Rightarrow> None | n # _ \<Rightarrow> Some n) = Inr ()" "link_signed C l"
    "verifyKeyBundle C (sl_signer l)" "pinned_for (kb_userId (sl_signer l)) = kb_identityPublicKey (sl_signer l)"
  shows "chain_loop C orgId epoch pinned_for [] (l # rest) = chain_loop C orgId epoch pinned_for [] rest"
proof -
  obtain v where "verifyMemberKey C (sl_signer l) pinned_for = Inr v" "\<not> vk_firstSeen v"
    using verifyMemberKey_signed [OF assms(3), of pinned_for] assms(4) by auto
  then show ?thesis using assms(1,2) by simp
qed

lemma link_signed_by_key:
  assumes "sig_correct C" "signOrgKeyWrap C w sk = Inr sg"
    "kb_identityPublicKey b = Some (toBase64 (ed25519_getPublicKey C sk))"
  shows "link_signed C \<lparr>sl_wrap = w, sl_signature = Some sg, sl_signer = b\<rparr>"
  using assms checkSignature_signed [OF assms(1)] by (auto simp: link_signed_def signOrgKeyWrap_def rbind_eq_Inr)

lemma signOrgKeyWrap_nonempty: "sig_shapes C \<Longrightarrow> signOrgKeyWrap C w sk = Inr sg \<Longrightarrow> nonempty_opt (Some sg) = Some sg"
  using sig_shapesD(2) by (auto simp: signOrgKeyWrap_def rbind_eq_Inr nonempty_opt_Some)

text \<open>An owner's own chain, and the chain of a member the owner shared the key with directly.\<close>

lemma owner_chain_accepted:
  assumes "sig_correct C" "sig_shapes C" "signOrgKeyWrap C w sk = Inr sg" "verifyKeyBundle C b"
    and "kb_identityPublicKey b = Some (toBase64 (ed25519_getPublicKey C sk))" "pinned_for (kb_userId b) = kb_identityPublicKey b"
    and "kb_userId b = kw_signerUserId w" "kw_signerUserId w = kw_recipientUserId w" "kw_role w = ''owner''"
  shows "chain_loop C (kw_orgId w) (kw_epoch w) pinned_for [] [\<lparr>sl_wrap = w, sl_signature = Some sg, sl_signer = b\<rparr>] = Inr []"
  using assms signOrgKeyWrap_nonempty [OF assms(2,3)] link_signed_by_key [OF assms(1,3,5)]
  by (subst chain_loop_step) (auto simp: link_shape_Inr)

lemma member_chain_accepted:
  assumes "sig_correct C" "sig_shapes C" "signOrgKeyWrap C w sk = Inr sg" "signOrgKeyWrap C v sk = Inr sg'" "verifyKeyBundle C b"
    and "kb_identityPublicKey b = Some (toBase64 (ed25519_getPublicKey C sk))" "pinned_for (kb_userId b) = kb_identityPublicKey b"
    and "kb_userId b = kw_signerUserId v" "kw_signerUserId v = kw_recipientUserId v" "kw_role v = ''owner''"
    and "kw_signerUserId w = kw_signerUserId v" "kw_recipientUserId w \<noteq> kw_signerUserId w"
    and "kw_orgId w = kw_orgId v" "kw_epoch w = kw_epoch v"
  shows "chain_loop C (kw_orgId w) (kw_epoch w) pinned_for []
    [\<lparr>sl_wrap = w, sl_signature = Some sg, sl_signer = b\<rparr>, \<lparr>sl_wrap = v, sl_signature = Some sg', sl_signer = b\<rparr>] = Inr []"
proof -
  have "link_signed C \<lparr>sl_wrap = w, sl_signature = Some sg, sl_signer = b\<rparr>" by (rule link_signed_by_key [OF assms(1,3,6)])
  then show ?thesis
    using assms(5,7-14) signOrgKeyWrap_nonempty [OF assms(2,3)]
      owner_chain_accepted [where pinned_for = pinned_for, OF assms(1,2,4,5,6,7,8,9,10)]
    by (subst chain_loop_step) (auto simp: link_shape_Inr simp del: chain_loop.simps)
qed

lemma padded_digits:
  assumes "n < 100000"
  shows "length (padStart 5 CHR ''0'' (nat_to_string n)) = 5"
    and "list_all is_digit_char (padStart 5 CHR ''0'' (nat_to_string n))"
proof -
  have "length (nat_to_string n) \<le> 5" by (rule length_nat_to_string_le) (use assms in simp_all)
  then show "length (padStart 5 CHR ''0'' (nat_to_string n)) = 5" by simp
  show "list_all is_digit_char (padStart 5 CHR ''0'' (nat_to_string n))"
    using nat_to_string_digits [of n] by (auto simp: padStart_def list_all_iff is_digit_char_def)
qed

lemma safety_group_digits: "length (safety_group digest g) = 5" "list_all is_digit_char (safety_group digest g)"
  unfolding safety_group_def by (rule padded_digits; simp)+

text \<open>A safety number is six groups of five digits, a function of the user and the key bytes alone.\<close>

lemma safetyNumber_format:
  assumes "safetyNumber C u k = Inr number"
  shows "\<exists>gs. number = js_join '' '' gs \<and> length gs = 6 \<and> (\<forall>g \<in> set gs. length g = 5 \<and> list_all is_digit_char g)"
proof -
  obtain digest where "number = js_join '' '' (map (safety_group digest) [0..<6])"
    using assms by (auto simp: safetyNumber_def Let_def rbind_eq_Inr)
  then show ?thesis using safety_group_digits by (intro exI [of _ "map (safety_group digest) [0..<6]"]) simp
qed

section \<open>A sample organization\<close>

definition demo_user :: string where "demo_user = ''00112233-4455-6677-8899-aabbccddeeff''"
definition demo_org :: string where "demo_org = ''0f112233-4455-6677-8899-aabbccddee00''"
definition demo_seed :: bytes where "demo_seed = replicate 32 5"

definition demo_wrap :: "int \<Rightarrow> OrgKeyWrap" where
  "demo_wrap epoch = \<lparr>kw_orgId = demo_org, kw_epoch = epoch, kw_recipientUserId = demo_user,
     kw_signerUserId = demo_user, kw_role = ''owner'', kw_encryptedOrgKey = ''AAEC''\<rparr>"

lemma demo_values:
  "\<exists>bs. uuidBytes demo_user = Some bs" "\<exists>bs. uuidBytes demo_org = Some bs" "\<exists>bs. fromBase64 ''AAEC'' = Some bs"
  "length (utf8_encode ''owner'') = 5"
proof -
  have "uuidBytes demo_user \<noteq> None" "uuidBytes demo_org \<noteq> None" "fromBase64 ''AAEC'' \<noteq> None" by code_simp+
  then show "\<exists>bs. uuidBytes demo_user = Some bs" "\<exists>bs. uuidBytes demo_org = Some bs" "\<exists>bs. fromBase64 ''AAEC'' = Some bs"
    by auto
qed code_simp

lemma demo_wrapMessage: "1 \<le> e \<Longrightarrow> e \<le> 0xffffffff \<Longrightarrow> \<exists>m. wrapMessage (demo_wrap e) = Inr m"
  using demo_values by (auto simp: wrapMessage_Inr demo_wrap_def simp del: be_bytes.simps)

theorem signed_messages_unambiguous_witness:
  "\<exists>m. wrapMessage (demo_wrap 1) = Inr m \<and> wrapMessage (demo_wrap 2) \<noteq> Inr m \<and> bundleMessage demo_user ''AAEC'' \<noteq> Inr m"
proof -
  obtain m where m: "wrapMessage (demo_wrap 1) = Inr m" using demo_wrapMessage [of 1] by auto
  have "\<not> same_wrap (demo_wrap 1) (demo_wrap 2)" by (simp add: same_wrap_def demo_wrap_def)
  then show ?thesis
    using m signed_messages_unambiguous [of "demo_wrap 1" m "demo_wrap 2" demo_user "''AAEC''" demo_user "''AAEC''"] by blast
qed

definition demo_bundle :: "string \<Rightarrow> KeyBundle" where
  "demo_bundle sg = \<lparr>kb_userId = demo_user, kb_publicKey = ''AAEC'',
     kb_identityPublicKey = Some (toBase64 (ed25519_getPublicKey demo_crypto demo_seed)), kb_publicKeySignature = Some sg\<rparr>"

lemma demo_bundle_verifies: "\<exists>sg. verifyKeyBundle demo_crypto (demo_bundle sg)"
proof -
  obtain m where "bundleMessage demo_user ''AAEC'' = Inr m" using demo_values by (auto simp: bundleMessage_Inr)
  then have "signKeyBundle demo_crypto demo_user ''AAEC'' demo_seed = Inr (toBase64 (ed25519_sign demo_crypto m demo_seed))"
    by (simp add: signKeyBundle_def)
  from signed_bundle_verifies [OF demo_sig this] show ?thesis by (auto simp: demo_bundle_def)
qed

theorem org_key_chain_sound_witness:
  "\<exists>chain pins. verifyOrgKeyChain demo_crypto chain demo_org demo_user pins (\<lambda>_. Some 2) = Inr (demo_wrap 3) \<and>
     vouched demo_crypto pins demo_org 3 (demo_wrap 3)"
proof -
  obtain bsg where b: "verifyKeyBundle demo_crypto (demo_bundle bsg)" using demo_bundle_verifies by blast
  obtain sg where sg: "signOrgKeyWrap demo_crypto (demo_wrap 3) demo_seed = Inr sg"
    using demo_wrapMessage [of 3] by (auto simp: signOrgKeyWrap_def)
  let ?pins = "[demo_user \<mapsto> toBase64 (ed25519_getPublicKey demo_crypto demo_seed)]"
  let ?l = "\<lparr>sl_wrap = demo_wrap 3, sl_signature = Some sg, sl_signer = demo_bundle bsg\<rparr>"
  have "chain_loop demo_crypto (kw_orgId (demo_wrap 3)) (kw_epoch (demo_wrap 3)) ?pins [] [?l] = Inr []"
    by (rule owner_chain_accepted [OF demo_sig sg b]) (simp_all add: demo_bundle_def demo_wrap_def)
  then have "verifyOrgKeyChain demo_crypto [?l] demo_org demo_user ?pins (\<lambda>_. Some 2) = Inr (demo_wrap 3)"
    by (simp add: verifyOrgKeyChain_Inr demo_wrap_def del: chain_loop.simps)
  with org_key_chain_sound [OF this] show ?thesis by (auto simp: demo_wrap_def)
qed

end
