(* ===== verification/Org_Crypto.thy ===== *)
theory Org_Crypto
  imports Identity_Keys
begin

text \<open>
  Organization keys, \<open>packages/crypto/src/org-crypto.ts\<close>: a random AES-256-GCM key wrapped with
  RSA-OAEP for every member, and the RSA key pair of a user with its private half protected by the
  stretched master key. A freshly generated key is an argument: the raw bytes of an AES key, the SPKI
  and PKCS8 encodings of an RSA key pair.
\<close>

record UserKeyPair =
  ukp_publicKeyB64 :: string
  ukp_protectedPrivateKey :: string
  ukp_protectedPrivateKeyIv :: string

definition generateUserKeyPair :: "crypto \<Rightarrow> bytes \<Rightarrow> bytes \<Rightarrow> bytes \<Rightarrow> CryptoKey \<Rightarrow> UserKeyPair js" where
  "generateUserKeyPair C publicSpki privatePkcs8 iv stretchedMasterKey =
     rbind (subtle_encrypt C iv [] stretchedMasterKey privatePkcs8) (\<lambda>encPrivate.
     Inr \<lparr>ukp_publicKeyB64 = toBase64 publicSpki, ukp_protectedPrivateKey = toBase64 encPrivate,
          ukp_protectedPrivateKeyIv = toBase64 iv\<rparr>)"

definition generateOrgKey :: "bytes \<Rightarrow> CryptoKey" where
  "generateOrgKey raw =
     \<lparr>ck_algorithm = AesGcm, ck_material = raw, ck_extractable = True, ck_usages = [UseEncrypt, UseDecrypt]\<rparr>"

definition exportOrgKey :: "CryptoKey \<Rightarrow> string js" where
  "exportOrgKey orgKey = rbind (subtle_exportRaw orgKey) (\<lambda>raw. Inr (toBase64 raw))"

definition importOrgKey :: "string \<Rightarrow> CryptoKey js" where
  "importOrgKey b64 = rbind (fromBase64_js b64) (\<lambda>raw. subtle_importRawAes raw False [UseEncrypt, UseDecrypt])"

definition subtle_importSpki :: "crypto \<Rightarrow> bytes \<Rightarrow> CryptoKey js" where
  "subtle_importSpki C spki =
     (if rsa_spki_valid C spki
      then Inr \<lparr>ck_algorithm = RsaOaep, ck_material = spki, ck_extractable = False, ck_usages = [UseEncrypt]\<rparr>
      else Inl DOMException)"

definition subtle_importPkcs8 :: "crypto \<Rightarrow> bytes \<Rightarrow> CryptoKey js" where
  "subtle_importPkcs8 C pkcs8 =
     (if rsa_spki_of_pkcs8 C pkcs8 \<noteq> None
      then Inr \<lparr>ck_algorithm = RsaOaep, ck_material = pkcs8, ck_extractable = False, ck_usages = [UseDecrypt]\<rparr>
      else Inl DOMException)"

definition encryptOrgKeyForMember :: "crypto \<Rightarrow> bytes \<Rightarrow> CryptoKey \<Rightarrow> string \<Rightarrow> string js" where
  "encryptOrgKeyForMember C rnd orgKey recipientPublicKeyB64 =
     rbind (fromBase64_js recipientPublicKeyB64) (\<lambda>spki.
     rbind (subtle_importSpki C spki) (\<lambda>pubKey.
     rbind (subtle_exportRaw orgKey) (\<lambda>rawOrgKey.
     rbind (of_option DOMException (rsa_oaep_encrypt C (ck_material pubKey) rnd rawOrgKey)) (\<lambda>encrypted.
     Inr (toBase64 encrypted)))))"

definition decryptOrgKey :: "crypto \<Rightarrow> string \<Rightarrow> CryptoKey \<Rightarrow> CryptoKey js" where
  "decryptOrgKey C encryptedOrgKeyB64 privateKey =
     rbind (fromBase64_js encryptedOrgKeyB64) (\<lambda>ciphertext.
     rbind (if ck_allows privateKey RsaOaep UseDecrypt
            then of_option DOMException (rsa_oaep_decrypt C (ck_material privateKey) ciphertext)
            else Inl DOMException) (\<lambda>rawOrgKey.
     subtle_importRawAes rawOrgKey True [UseEncrypt, UseDecrypt]))"

definition decryptUserPrivateKey :: "crypto \<Rightarrow> string \<Rightarrow> string \<Rightarrow> CryptoKey \<Rightarrow> CryptoKey js" where
  "decryptUserPrivateKey C protectedPrivateKeyB64 protectedPrivateKeyIvB64 stretchedMasterKey =
     rbind (fromBase64_js protectedPrivateKeyB64) (\<lambda>ciphertext.
     rbind (fromBase64_js protectedPrivateKeyIvB64) (\<lambda>iv.
     rbind (subtle_decrypt C iv [] stretchedMasterKey ciphertext) (\<lambda>pkcs8.
     subtle_importPkcs8 C pkcs8)))"

section \<open>What the code relies on\<close>

text \<open>The RSA-OAEP functions fit together: a ciphertext made for the public half opens under the private one.\<close>

definition rsa_correct :: "crypto \<Rightarrow> bool" where
  "rsa_correct C \<longleftrightarrow>
     (\<forall>sk pk r m c. rsa_spki_of_pkcs8 C sk = Some pk \<longrightarrow> rsa_oaep_encrypt C pk r m = Some c \<longrightarrow>
        rsa_oaep_decrypt C sk c = Some m)"

lemma demo_rsa_correct: "rsa_correct demo_crypto"
  by (simp add: rsa_correct_def demo_crypto_def strip_prefix_iff)

text \<open>The key \<open>decryptOrgKey\<close> returns for the wrap of a generated key, ready to be wrapped again.\<close>

lemma decryptOrgKey_wrapped:
  assumes "rsa_correct C" "rsa_spki_of_pkcs8 C sk = Some pk" "length raw = 32"
    and "encryptOrgKeyForMember C r (generateOrgKey raw) (toBase64 pk) = Inr w"
    and "ck_allows k RsaOaep UseDecrypt" "ck_material k = sk"
  shows "decryptOrgKey C w k = Inr (generateOrgKey raw)"
proof -
  obtain c where c: "rsa_oaep_encrypt C pk r raw = Some c" "w = toBase64 c"
    using assms(4) by (auto simp: encryptOrgKeyForMember_def subtle_importSpki_def generateOrgKey_def subtle_exportRaw_def
        rbind_eq_Inr split: if_splits)
  have "rsa_oaep_decrypt C sk c = Some raw" using assms(1,2) c(1) by (auto simp: rsa_correct_def)
  then show ?thesis using assms(3,5,6) c(2) by (simp add: decryptOrgKey_def subtle_importRawAes_def generateOrgKey_def)
qed

lemma decryptUserPrivateKey_generated:
  assumes "aead_correct C" "aes_key_ok smk" "rsa_spki_of_pkcs8 C sk = Some pk" "generateUserKeyPair C pk sk iv smk = Inr kp"
  shows "\<exists>k. decryptUserPrivateKey C (ukp_protectedPrivateKey kp) (ukp_protectedPrivateKeyIv kp) smk = Inr k \<and>
    ck_allows k RsaOaep UseDecrypt \<and> ck_material k = sk"
proof -
  obtain c where c: "subtle_encrypt C iv [] smk sk = Inr c" "kp = \<lparr>ukp_publicKeyB64 = toBase64 pk,
      ukp_protectedPrivateKey = toBase64 c, ukp_protectedPrivateKeyIv = toBase64 iv\<rparr>"
    using assms(4) by (auto simp: generateUserKeyPair_def rbind_eq_Inr)
  show ?thesis using subtle_decrypt_encrypt [OF assms(1,2) c(1)] assms(3)
    by (simp add: decryptUserPrivateKey_def c(2) subtle_importPkcs8_def ck_allows_def)
qed

text \<open>
  Sharing an organization key with a member works end to end: the member's key pair is generated
  and protected, the key is wrapped for the public half, and the member, who opens the private half
  with the stretched master key, unwraps exactly that key. The identity derived from the protected
  private key vouches for the same public half.
\<close>

theorem org_key_reaches_member:
  assumes "aead_correct C" "rsa_correct C" "aes_key_ok smk" "rsa_spki_of_pkcs8 C sk = Some pk" "length raw = 32"
    and "generateUserKeyPair C pk sk iv smk = Inr kp"
    and "encryptOrgKeyForMember C r (generateOrgKey raw) (ukp_publicKeyB64 kp) = Inr w"
  shows "(\<exists>priv. decryptUserPrivateKey C (ukp_protectedPrivateKey kp) (ukp_protectedPrivateKeyIv kp) smk = Inr priv \<and>
      decryptOrgKey C w priv = Inr (generateOrgKey raw)) \<and>
    (\<exists>ident. deriveIdentityKey C (ukp_protectedPrivateKey kp) (ukp_protectedPrivateKeyIv kp) smk = Inr ident \<and>
      ik_rsaPublicKeyB64 ident = ukp_publicKeyB64 kp)"
proof
  obtain priv where p: "decryptUserPrivateKey C (ukp_protectedPrivateKey kp) (ukp_protectedPrivateKeyIv kp) smk = Inr priv"
      "ck_allows priv RsaOaep UseDecrypt" "ck_material priv = sk"
    using decryptUserPrivateKey_generated [OF assms(1,3,4,6)] by blast
  obtain c where c: "subtle_encrypt C iv [] smk sk = Inr c" and kp: "kp = \<lparr>ukp_publicKeyB64 = toBase64 pk,
      ukp_protectedPrivateKey = toBase64 c, ukp_protectedPrivateKeyIv = toBase64 iv\<rparr>"
    using assms(6) by (auto simp: generateUserKeyPair_def rbind_eq_Inr)
  show "\<exists>priv. decryptUserPrivateKey C (ukp_protectedPrivateKey kp) (ukp_protectedPrivateKeyIv kp) smk = Inr priv \<and>
      decryptOrgKey C w priv = Inr (generateOrgKey raw)"
    using decryptOrgKey_wrapped [OF assms(2,4,5) _ p(2,3)] assms(7) p(1) kp by simp
  show "\<exists>ident. deriveIdentityKey C (ukp_protectedPrivateKey kp) (ukp_protectedPrivateKeyIv kp) smk = Inr ident \<and>
      ik_rsaPublicKeyB64 ident = ukp_publicKeyB64 kp"
    using subtle_decrypt_encrypt [OF assms(1,3) c] assms(4) kp
    by (simp add: deriveIdentityKey_def decryptBytes_def Let_def)
qed

lemma demo_rsa: "rsa_spki_of_pkcs8 demo_crypto sk = Some sk" "rsa_oaep_encrypt demo_crypto pk r m = Some (frame pk @ m)"
  "rsa_spki_valid demo_crypto pk"
  by (simp_all add: demo_crypto_def)

theorem org_key_reaches_member_witness:
  "\<exists>kp w priv. generateUserKeyPair demo_crypto [1, 2] [1, 2] (replicate 12 0) (demo_aes_key 4) = Inr kp \<and>
     encryptOrgKeyForMember demo_crypto [] (generateOrgKey (replicate 32 6)) (ukp_publicKeyB64 kp) = Inr w \<and>
     decryptOrgKey demo_crypto w priv = Inr (generateOrgKey (replicate 32 6))"
proof -
  obtain kp where kp: "generateUserKeyPair demo_crypto [1, 2] [1, 2] (replicate 12 0) (demo_aes_key 4) = Inr kp"
      "ukp_publicKeyB64 kp = toBase64 [1, 2]"
    using demo_keys_ok(1) [of 4] by (simp add: generateUserKeyPair_def subtle_encrypt_def aes_key_ok_def)
  obtain w where w: "encryptOrgKeyForMember demo_crypto [] (generateOrgKey (replicate 32 6)) (ukp_publicKeyB64 kp) = Inr w"
    by (simp add: encryptOrgKeyForMember_def kp(2) subtle_importSpki_def demo_rsa subtle_exportRaw_def generateOrgKey_def)
  from org_key_reaches_member [OF demo_aead_correct demo_rsa_correct demo_keys_ok(1) demo_rsa(1) _ kp(1) w]
  show ?thesis using kp(1) w by auto
qed

end
