(* ===== verification/Org_Trust.thy ===== *)
theory Org_Trust
  imports Org_Crypto Sync_Engine "HOL-Library.Multiset"
begin

text \<open>
  Using, re-signing and rotating organization keys, \<open>packages/ui/src/lib/org-trust.ts\<close>: the
  decision whether a served key may be used, the owner's re-signed wraps, a complete key rotation, and
  reading organization items with the current and retired keys.

  Randomness is indexed by the position in the loop that draws it. The revision store is the
  \<open>MemoryRevisionStore\<close> of \<open>Item_Envelope\<close>, which operations return changed.
\<close>

section \<open>Opening a served key\<close>

datatype OrgKeyCheck =
    CheckOk OrgKeyWrap
  | CheckConfirm "(KeyBundle \<times> string) list"
  | CheckUnsigned bool
  | CheckRefused string

text \<open>\<open>e.message\<close> of the errors the chain check raises; the others have no text of their own here.\<close>

fun error_message :: "js_error \<Rightarrow> string" where
  "error_message (JsError s) = s"
| "error_message (UntrustedOrgKeyError s) = s"
| "error_message (UnverifiableKeyError _ s) = s"
| "error_message _ = ''''"

definition checkOrgKey ::
  "crypto \<Rightarrow> string \<Rightarrow> WrapLink list \<Rightarrow> string \<Rightarrow> string \<Rightarrow> (string \<Rightarrow> string option) \<Rightarrow> (string \<Rightarrow> int option) \<Rightarrow>
   OrgKeyCheck" where
  "checkOrgKey C orgId chain myUserId myRole pinned_for highest_for =
     (if (case chain of [] \<Rightarrow> False | own # _ \<Rightarrow> wl_recipientUserId own = myUserId \<and> wl_wrapSignature own = None)
      then CheckUnsigned (myRole = ''owner'')
      else
        (case verifyOrgKeyChain C (chainFromServer orgId chain) orgId myUserId pinned_for highest_for of
           Inr wrap \<Rightarrow> CheckOk wrap
         | Inl (UnconfirmedSignersError signers) \<Rightarrow> CheckConfirm signers
         | Inl (PinnedKeyChangedError _) \<Rightarrow>
             CheckRefused ''Someone who vouches for this organization's key has a changed identity key. Compare safety numbers with them before using it.''
         | Inl e \<Rightarrow> CheckRefused (error_message e)))"

definition openOrgKey ::
  "crypto \<Rightarrow> string \<Rightarrow> WrapLink list \<Rightarrow> string \<Rightarrow> string \<Rightarrow> (string \<Rightarrow> string option) \<Rightarrow> 'e OrgEpochStore \<Rightarrow>
   (string \<Rightarrow> CryptoKey js) \<Rightarrow> ('e, js_error, OrgKeyCheck \<times> CryptoKey option) io" where
  "openOrgKey C orgId chain myUserId myRole pinned_for epochs decrypt s =
     (let check = checkOrgKey C orgId chain myUserId myRole pinned_for (epochs_get epochs s) in
      case check of
        CheckOk wrap \<Rightarrow>
          (case decrypt (kw_encryptedOrgKey wrap) of
             Inl e \<Rightarrow> (Inl e, s)
           | Inr orgKey \<Rightarrow> (Inr (check, Some orgKey), epochs_record epochs orgId (kw_epoch wrap) s))
      | _ \<Rightarrow> (Inr (check, None), s))"

section \<open>Re-signing\<close>

record ResignIdentity =
  ri_protectedPrivateKey :: string
  ri_protectedPrivateKeyIv :: string
  ri_stretchedMasterKey :: CryptoKey

record ResignInput =
  rin_orgId :: string
  rin_epoch :: int
  rin_ownerUserId :: string
  rin_orgKey :: CryptoKey
  rin_members :: "OrgMember list"
  rin_pins :: "string \<Rightarrow> string option"
  rin_identity :: ResignIdentity

definition member_bundle :: "OrgMember \<Rightarrow> string \<Rightarrow> KeyBundle" where
  "member_bundle m publicKey =
     \<lparr>kb_userId = om_userId m, kb_publicKey = publicKey, kb_identityPublicKey = om_identityPublicKey m,
      kb_publicKeySignature = om_publicKeySignature m\<rparr>"

text \<open>The key to wrap to, or \<open>None\<close> when the member is skipped.\<close>

definition resign_key :: "crypto \<Rightarrow> ResignInput \<Rightarrow> IdentityKey \<Rightarrow> OrgMember \<Rightarrow> string option" where
  "resign_key C input identity m =
     (if om_userId m = rin_ownerUserId input then Some (ik_rsaPublicKeyB64 identity)
      else
        (case nonempty_opt (om_publicKey m) of
           None \<Rightarrow> None
         | Some publicKey \<Rightarrow>
             (case verifyMemberKey C (member_bundle m publicKey) (rin_pins input) of
                Inl _ \<Rightarrow> None
              | Inr verified \<Rightarrow> if vk_firstSeen verified then None else Some (vk_rsaPublicKeyB64 verified))))"

definition resign_wrap_for :: "ResignInput \<Rightarrow> OrgMember \<Rightarrow> string \<Rightarrow> OrgKeyWrap" where
  "resign_wrap_for input m encryptedOrgKey =
     \<lparr>kw_orgId = rin_orgId input, kw_epoch = rin_epoch input, kw_recipientUserId = om_userId m,
      kw_signerUserId = rin_ownerUserId input, kw_role = om_role m, kw_encryptedOrgKey = encryptedOrgKey\<rparr>"

fun resign_loop ::
  "crypto \<Rightarrow> (nat \<Rightarrow> bytes) \<Rightarrow> nat \<Rightarrow> ResignInput \<Rightarrow> IdentityKey \<Rightarrow> OrgMember list \<Rightarrow> (RewrapWrap list \<times> string list) js" where
  "resign_loop C rng n input identity [] = Inr ([], [])"
| "resign_loop C rng n input identity (m # ms) =
     (case resign_key C input identity m of
        None \<Rightarrow>
          rbind (resign_loop C rng (n + 1) input identity ms) (\<lambda>(wraps, skipped). Inr (wraps, om_userId m # skipped))
      | Some rsaPublicKey \<Rightarrow>
          rbind (encryptOrgKeyForMember C (rng n) (rin_orgKey input) rsaPublicKey) (\<lambda>encryptedOrgKey.
          rbind (signOrgKeyWrap C (resign_wrap_for input m encryptedOrgKey) (ik_secretKey identity)) (\<lambda>wrapSignature.
          rbind (resign_loop C rng (n + 1) input identity ms) (\<lambda>(wraps, skipped).
          Inr (\<lparr>rw_userId = om_userId m, rw_encryptedOrgKey = encryptedOrgKey, rw_wrapSignature = wrapSignature,
                rw_keyEpoch = rin_epoch input\<rparr> # wraps, skipped)))))"

definition buildResignedWraps ::
  "crypto \<Rightarrow> (nat \<Rightarrow> bytes) \<Rightarrow> ResignInput \<Rightarrow> (RewrapWrap list \<times> string list) js" where
  "buildResignedWraps C rng input =
     rbind (deriveIdentityKey C (ri_protectedPrivateKey (rin_identity input))
              (ri_protectedPrivateKeyIv (rin_identity input)) (ri_stretchedMasterKey (rin_identity input))) (\<lambda>identity.
     resign_loop C rng 0 input identity (rin_members input))"

section \<open>Rotation\<close>

record OrgLedgerEntry =
  le_items :: "string list"
  le_members :: "string list"

record RotationInput =
  ro_orgId :: string
  ro_ownerUserId :: string
  ro_currentEpoch :: int
  ro_oldKey :: CryptoKey
  ro_items :: "EncryptedVaultItem list"
  ro_members :: "OrgMember list"
  ro_removeUserId :: "string option"
  ro_known :: OrgLedgerEntry
  ro_dropItemIds :: "string list"
  ro_acknowledgedGone :: OrgLedgerEntry
  ro_pins :: "string \<Rightarrow> string option"
  ro_identity :: ResignIdentity

record RotationPlan =
  rp_request :: RotateKeyRequest
  rp_revisions :: "(string \<times> int) list"
  rp_keepsAccess :: "string list"
  rp_losesAccess :: "string list"
  rp_acknowledgedGone :: OrgLedgerEntry

text \<open>The loop over the items: re-encrypted items, their new revisions and the ids that could not be read.\<close>

fun rotate_items ::
  "crypto \<Rightarrow> (nat \<Rightarrow> bytes) \<Rightarrow> nat \<Rightarrow> RotationInput \<Rightarrow> CryptoKey \<Rightarrow> EncryptedVaultItem list \<Rightarrow> MemoryRevisionStore \<Rightarrow>
   (ReencryptedItem list \<times> (string \<times> int) list \<times> string list) js \<times> MemoryRevisionStore" where
  "rotate_items C rng n input newKey [] s = (Inr ([], [], []), s)"
| "rotate_items C rng n input newKey (item # items) s =
     (if ev_id item \<in> set (ro_dropItemIds input) then rotate_items C rng (n + 1) input newKey items s
      else
      let binding = bindingForItem (item\<lparr>ev_orgId := Some (ro_orgId input)\<rparr>) in
      case decryptVaultItem C (ev_encrypted item) binding
             \<lparr>vk_vaultEncKey = ro_oldKey input, vk_vaultMacKey = ro_oldKey input\<rparr> (Some s) of
        (Inl _, _) \<Rightarrow>
          (case rotate_items C rng (n + 1) input newKey items s of
             (r, s2) \<Rightarrow> (rbind r (\<lambda>(its, revs, und). Inr (its, revs, ev_id item # und)), s2))
      | (Inr current, s1) \<Rightarrow>
          (case encryptVaultItem C (rng n) (di_plaintext current) binding newKey s1 (Some (di_revision current)) of
             Inl e \<Rightarrow> (Inl e, the s1)
           | Inr (encrypted, revision) \<Rightarrow>
               (case rotate_items C rng (n + 1) input newKey items (the s1) of
                  (r, s2) \<Rightarrow>
                    (rbind r (\<lambda>(its, revs, und).
                       Inr (\<lparr>re_id = ev_id item, re_blob = eb_blob encrypted, re_blobIv = eb_blobIv encrypted,
                             re_blobMac = eb_blobMac encrypted\<rparr> # its, (ev_id item, revision) # revs, und)), s2))))"

definition gone_items :: "RotationInput \<Rightarrow> string list" where
  "gone_items input =
     filter (\<lambda>i. i \<notin> ev_id ` set (ro_items input) \<and> i \<notin> set (ro_dropItemIds input)) (le_items (ro_known input))"

definition gone_members :: "RotationInput \<Rightarrow> string list" where
  "gone_members input = filter (\<lambda>u. u \<notin> om_userId ` set (ro_members input)) (le_members (ro_known input))"

definition remaining_members :: "RotationInput \<Rightarrow> OrgMember list" where
  "remaining_members input = filter (\<lambda>m. Some (om_userId m) \<noteq> ro_removeUserId input) (ro_members input)"

record RotationRandom =
  rnd_newKey :: bytes
  rnd_wrap :: "nat \<Rightarrow> bytes"
  rnd_iv :: "nat \<Rightarrow> bytes"

definition buildRotation ::
  "crypto \<Rightarrow> RotationRandom \<Rightarrow> RotationInput \<Rightarrow> (MemoryRevisionStore, js_error, RotationPlan) io" where
  "buildRotation C rnd input s =
     (let missingItems = filter (\<lambda>i. i \<notin> set (le_items (ro_acknowledgedGone input))) (gone_items input);
          missingMembers = filter (\<lambda>u. u \<notin> set (le_members (ro_acknowledgedGone input))) (gone_members input) in
      if missingItems \<noteq> [] \<or> missingMembers \<noteq> [] then (Inl (RotationSetIncompleteError missingItems missingMembers), s)
      else
      let remaining = remaining_members input;
          newEpoch = ro_currentEpoch input + 1;
          newKey = generateOrgKey (rnd_newKey rnd) in
      case buildResignedWraps C (rnd_wrap rnd)
             \<lparr>rin_orgId = ro_orgId input, rin_epoch = newEpoch, rin_ownerUserId = ro_ownerUserId input,
              rin_orgKey = newKey, rin_members = remaining, rin_pins = ro_pins input,
              rin_identity = ro_identity input\<rparr> of
        Inl e \<Rightarrow> (Inl e, s)
      | Inr (wraps, skipped) \<Rightarrow>
          if skipped \<noteq> [] then (Inl (UnconfirmedMembersError skipped), s)
          else
          (case rotate_items C (rnd_iv rnd) 0 input newKey (ro_items input) s of
             (Inl e, s') \<Rightarrow> (Inl e, s')
           | (Inr (items, revisions, undecryptable), s') \<Rightarrow>
               if undecryptable \<noteq> [] then (Inl (UndecryptableItemsError undecryptable), s')
               else
               let deleteItemIds = filter (\<lambda>i. i \<in> ev_id ` set (ro_items input)) (ro_dropItemIds input) in
               (Inr \<lparr>rp_request = \<lparr>rk_newEpoch = newEpoch, rk_removeUserId = None, rk_wraps = wraps, rk_items = items,
                       rk_deleteItemIds = (if deleteItemIds = [] then None else Some deleteItemIds)\<rparr>,
                     rp_revisions = revisions, rp_keepsAccess = map om_userId remaining,
                     rp_losesAccess = (case nonempty_opt (ro_removeUserId input) of None \<Rightarrow> [] | Some u \<Rightarrow> [u]),
                     rp_acknowledgedGone = \<lparr>le_items = gone_items input, le_members = gone_members input\<rparr>\<rparr>, s')))"

section \<open>Reading organization items\<close>

record OrgKeyring =
  kr_current :: CryptoKey
  kr_retired :: "CryptoKey list"

fun try_keys ::
  "crypto \<Rightarrow> EncryptedBlob \<Rightarrow> ItemBinding \<Rightarrow> CryptoKey list \<Rightarrow> js_error \<Rightarrow> MemoryRevisionStore option \<Rightarrow>
   DecryptedItem js \<times> MemoryRevisionStore option" where
  "try_keys C blob binding [] lastError revisions = (Inl lastError, revisions)"
| "try_keys C blob binding (key # keys) lastError revisions =
     (case decryptVaultItem C blob binding \<lparr>vk_vaultEncKey = key, vk_vaultMacKey = key\<rparr> revisions of
        (Inr d, revisions') \<Rightarrow> (Inr d, revisions')
      | (Inl err, revisions') \<Rightarrow> try_keys C blob binding keys err revisions')"

text \<open>There is always a current key, so the initial \<open>lastError\<close> (\<open>undefined\<close>) is never thrown.\<close>

definition decryptOrgItem ::
  "crypto \<Rightarrow> EncryptedVaultItem \<Rightarrow> string \<Rightarrow> OrgKeyring \<Rightarrow> MemoryRevisionStore option \<Rightarrow>
   DecryptedItem js \<times> MemoryRevisionStore option" where
  "decryptOrgItem C item orgId ring revisions =
     try_keys C (ev_encrypted item) (bindingForItem (item\<lparr>ev_orgId := Some orgId\<rparr>))
       (kr_current ring # kr_retired ring) TypeError revisions"

fun verify_items ::
  "crypto \<Rightarrow> string \<Rightarrow> OrgKeyring \<Rightarrow> EncryptedVaultItem list \<Rightarrow> MemoryRevisionStore \<Rightarrow>
   (string list \<times> string list) \<times> MemoryRevisionStore" where
  "verify_items C orgId ring [] s = (([], []), s)"
| "verify_items C orgId ring (item # items) s =
     (case decryptOrgItem C item orgId ring (Some s) of
        (r, s1) \<Rightarrow>
          (case verify_items C orgId ring items (the s1) of
             ((verified, failed), s2) \<Rightarrow>
               (case r of Inr _ \<Rightarrow> ((ev_id item # verified, failed), s2)
                        | Inl _ \<Rightarrow> ((verified, ev_id item # failed), s2))))"

record PartialLedgerEntry =
  pl_items :: "string list option"
  pl_members :: "string list option"

definition recordVerifiedOrgItems ::
  "crypto \<Rightarrow> string \<Rightarrow> EncryptedVaultItem list \<Rightarrow> OrgKeyring \<Rightarrow> (string \<Rightarrow> PartialLedgerEntry \<Rightarrow> 'l \<Rightarrow> 'l) \<Rightarrow>
   MemoryRevisionStore \<Rightarrow> 'l \<Rightarrow> (string list \<times> string list) \<times> MemoryRevisionStore \<times> 'l" where
  "recordVerifiedOrgItems C orgId items ring remember s l =
     (case verify_items C orgId ring items s of
        ((verified, failed), s') \<Rightarrow>
          ((verified, failed), s', remember orgId \<lparr>pl_items = Some verified, pl_members = None\<rparr> l))"

section \<open>Opening a served key: lemmas\<close>

lemma checkOrgKey_ok:
  "checkOrgKey C orgId chain me role pinned_for highest_for = CheckOk w \<Longrightarrow>
   verifyOrgKeyChain C (chainFromServer orgId chain) orgId me pinned_for highest_for = Inr w"
  by (auto simp: checkOrgKey_def split: if_splits sum.splits js_error.splits)

lemma checkOrgKey_accepts:
  assumes "verifyOrgKeyChain C (chainFromServer orgId chain) orgId me pinned_for highest_for = Inr w"
    "chain = own # rest" "wl_wrapSignature own = Some sg"
  shows "checkOrgKey C orgId chain me role pinned_for highest_for = CheckOk w"
  using assms by (simp add: checkOrgKey_def)

lemma openOrgKey_key:
  assumes "openOrgKey C orgId chain me role pinned_for epochs decrypt s = (Inr (check, Some k), s')"
  obtains w where "check = CheckOk w" "decrypt (kw_encryptedOrgKey w) = Inr k"
    "verifyOrgKeyChain C (chainFromServer orgId chain) orgId me pinned_for (epochs_get epochs s) = Inr w"
    "s' = epochs_record epochs orgId (kw_epoch w) s"
proof (cases "checkOrgKey C orgId chain me role pinned_for (epochs_get epochs s)")
  case (CheckOk w)
  then show thesis using assms that [OF _ _ checkOrgKey_ok [OF CheckOk]]
    by (auto simp: openOrgKey_def split: sum.splits)
qed (use assms in \<open>simp_all add: openOrgKey_def\<close>)

text \<open>Without a verified wrap the key is never decrypted and nothing is recorded.\<close>

lemma openOrgKey_refused:
  assumes "checkOrgKey C orgId chain me role pinned_for (epochs_get epochs s) = check" "\<forall>w. check \<noteq> CheckOk w"
  shows "openOrgKey C orgId chain me role pinned_for epochs decrypt s = (Inr (check, None), s)"
  using assms by (auto simp: openOrgKey_def Let_def split: OrgKeyCheck.splits)

section \<open>Re-signed wraps\<close>

lemma resign_loop_wrap:
  assumes "resign_loop C rng n input identity ms = Inr (ws, skipped)" "w \<in> set ws"
  shows "\<exists>m \<in> set ms. \<exists>rsa r. resign_key C input identity m = Some rsa \<and> rw_userId w = om_userId m \<and>
    encryptOrgKeyForMember C r (rin_orgKey input) rsa = Inr (rw_encryptedOrgKey w) \<and>
    signOrgKeyWrap C (resign_wrap_for input m (rw_encryptedOrgKey w)) (ik_secretKey identity) = Inr (rw_wrapSignature w) \<and>
    rw_keyEpoch w = rin_epoch input"
  using assms
proof (induction ms arbitrary: n ws skipped)
  case (Cons m ms)
  show ?case
  proof (cases "resign_key C input identity m")
    case None
    then obtain sk where "resign_loop C rng (n + 1) input identity ms = Inr (ws, sk)"
      using Cons.prems(1) by (auto simp: rbind_eq_Inr)
    from Cons.IH [OF this Cons.prems(2)] show ?thesis by auto
  next
    case (Some rsa)
    then obtain e sg ws' where e: "encryptOrgKeyForMember C (rng n) (rin_orgKey input) rsa = Inr e"
        "signOrgKeyWrap C (resign_wrap_for input m e) (ik_secretKey identity) = Inr sg"
      and l: "resign_loop C rng (n + 1) input identity ms = Inr (ws', skipped)"
      and ws: "ws = \<lparr>rw_userId = om_userId m, rw_encryptedOrgKey = e, rw_wrapSignature = sg, rw_keyEpoch = rin_epoch input\<rparr> # ws'"
      using Cons.prems(1) by (auto simp: rbind_eq_Inr)
    show ?thesis
    proof (cases "w \<in> set ws'")
      case True
      from Cons.IH [OF l this] show ?thesis by auto
    next
      case False
      then have "w = \<lparr>rw_userId = om_userId m, rw_encryptedOrgKey = e, rw_wrapSignature = sg, rw_keyEpoch = rin_epoch input\<rparr>"
        using Cons.prems(2) ws by simp
      then show ?thesis using Some e by auto
    qed
  qed
qed simp

text \<open>No member is lost: each is wrapped for or reported as skipped.\<close>

lemma resign_loop_users:
  "resign_loop C rng n input identity ms = Inr (ws, skipped) \<Longrightarrow>
   map rw_userId ws = map om_userId (filter (\<lambda>m. resign_key C input identity m \<noteq> None) ms) \<and>
   skipped = map om_userId (filter (\<lambda>m. resign_key C input identity m = None) ms)"
  by (induction ms arbitrary: n ws skipped) (auto simp: rbind_eq_Inr split: option.splits)

lemma resign_key_confirmed:
  assumes "resign_key C input identity m = Some rsa" "om_userId m \<noteq> rin_ownerUserId input"
  shows "om_publicKey m = Some rsa \<and> verifyKeyBundle C (member_bundle m rsa) \<and>
    rin_pins input (om_userId m) = om_identityPublicKey m \<and> om_identityPublicKey m \<noteq> None"
proof -
  obtain v where v: "verifyMemberKey C (member_bundle m rsa) (rin_pins input) = Inr v" "\<not> vk_firstSeen v"
    and pk: "om_publicKey m = Some rsa"
    using assms verifyMemberKey_Inr
    by (fastforce simp: resign_key_def member_bundle_def nonempty_opt_Some split: option.splits sum.splits if_splits)
  then show ?thesis using verifyMemberKey_Inr [OF v(1)] by (auto simp: member_bundle_def)
qed

text \<open>The link a server makes of a re-signed wrap.\<close>

definition served_link :: "RewrapWrap \<Rightarrow> string \<Rightarrow> string \<Rightarrow> KeyBundle \<Rightarrow> WrapLink" where
  "served_link w role signerUserId signer =
     \<lparr>wl_recipientUserId = rw_userId w, wl_role = role, wl_encryptedOrgKey = rw_encryptedOrgKey w,
      wl_wrapSignature = Some (rw_wrapSignature w), wl_keyEpoch = Some (rw_keyEpoch w),
      wl_signerUserId = signerUserId, wl_signer = signer\<rparr>"

lemma link_of_resigned:
  assumes "rw_userId w = om_userId m" "rw_keyEpoch w = rin_epoch input"
  shows "link_from_server (rin_orgId input) (served_link w (om_role m) (rin_ownerUserId input) b) =
    \<lparr>sl_wrap = resign_wrap_for input m (rw_encryptedOrgKey w), sl_signature = Some (rw_wrapSignature w), sl_signer = b\<rparr>"
  using assms by (simp add: link_from_server_def served_link_def resign_wrap_for_def)

text \<open>
  The owner's device as the member's device knows it: a self-signed bundle whose identity key is the
  one derived from the owner's private key, confirmed by the member.
\<close>

definition owner_known ::
  "crypto \<Rightarrow> ResignInput \<Rightarrow> IdentityKey \<Rightarrow> KeyBundle \<Rightarrow> (string \<Rightarrow> string option) \<Rightarrow> bool" where
  "owner_known C input identity b pinned_for \<longleftrightarrow>
     verifyKeyBundle C b \<and> kb_userId b = rin_ownerUserId input \<and>
     kb_identityPublicKey b = Some (ik_publicKeyB64 identity) \<and> pinned_for (kb_userId b) = kb_identityPublicKey b"

lemma deriveIdentityKey_public:
  "deriveIdentityKey C ppk ppkIv k = Inr i \<Longrightarrow> ik_publicKeyB64 i = toBase64 (ed25519_getPublicKey C (ik_secretKey i))"
  by (auto simp: deriveIdentityKey_def Let_def rbind_eq_Inr)

lemma resigned_chain_verifies:
  assumes "sig_correct C" "sig_shapes C" "owner_known C input identity b pinned_for"
    and "ik_publicKeyB64 identity = toBase64 (ed25519_getPublicKey C (ik_secretKey identity))"
    and m: "signOrgKeyWrap C (resign_wrap_for input m em) (ik_secretKey identity) = Inr sm" "om_userId m \<noteq> rin_ownerUserId input"
    and own: "signOrgKeyWrap C (resign_wrap_for input owner eo) (ik_secretKey identity) = Inr so" "om_userId owner = rin_ownerUserId input"
      "om_role owner = ''owner''"
    and "\<forall>h. highest_for (rin_orgId input) = Some h \<longrightarrow> h \<le> rin_epoch input"
  shows "verifyOrgKeyChain C
      [\<lparr>sl_wrap = resign_wrap_for input m em, sl_signature = Some sm, sl_signer = b\<rparr>,
       \<lparr>sl_wrap = resign_wrap_for input owner eo, sl_signature = Some so, sl_signer = b\<rparr>]
      (rin_orgId input) (om_userId m) pinned_for highest_for = Inr (resign_wrap_for input m em)"
proof -
  have sel: "kw_orgId (resign_wrap_for input x e) = rin_orgId input" "kw_epoch (resign_wrap_for input x e) = rin_epoch input"
    "kw_recipientUserId (resign_wrap_for input x e) = om_userId x" "kw_signerUserId (resign_wrap_for input x e) = rin_ownerUserId input"
    "kw_role (resign_wrap_for input x e) = om_role x" for x e
    by (simp_all add: resign_wrap_for_def)
  have "chain_loop C (kw_orgId (resign_wrap_for input m em)) (kw_epoch (resign_wrap_for input m em)) pinned_for []
      [\<lparr>sl_wrap = resign_wrap_for input m em, sl_signature = Some sm, sl_signer = b\<rparr>,
       \<lparr>sl_wrap = resign_wrap_for input owner eo, sl_signature = Some so, sl_signer = b\<rparr>] = Inr []"
    using assms(3,4) m(2) own(2,3)
    by (intro member_chain_accepted [OF assms(1,2) m(1) own(1)]) (auto simp: sel owner_known_def)
  then show ?thesis using assms(10) by (simp add: verifyOrgKeyChain_Inr sel del: chain_loop.simps)
qed

text \<open>
  Re-signing an organization works end to end. Take any wrap the owner built for another member
  and the owner's own wrap, served as a chain: on a device of that member which has confirmed the
  owner's identity key and has seen no higher epoch, \<open>openOrgKey\<close> accepts it, decrypts exactly the
  organization key the owner wrapped, and records the epoch.
\<close>

theorem resigned_wrap_opens_for_member:
  assumes "sig_correct C" "sig_shapes C" "rsa_correct C"
    and "deriveIdentityKey C (ri_protectedPrivateKey (rin_identity input)) (ri_protectedPrivateKeyIv (rin_identity input))
           (ri_stretchedMasterKey (rin_identity input)) = Inr identity"
    and "rin_orgKey input = generateOrgKey raw" "length raw = 32"
    and "buildResignedWraps C rng input = Inr (wraps, skipped)" "distinct (map om_userId (rin_members input))"
    and m: "m \<in> set (rin_members input)" "om_userId m \<noteq> rin_ownerUserId input" "om_publicKey m = Some (toBase64 pk)"
    and w: "w \<in> set wraps" "rw_userId w = om_userId m"
    and own: "owner \<in> set (rin_members input)" "om_userId owner = rin_ownerUserId input" "om_role owner = ''owner''"
    and ow: "ow \<in> set wraps" "rw_userId ow = om_userId owner"
    and device: "owner_known C input identity b pinned_for"
      "\<forall>h. epochs_get epochs s (rin_orgId input) = Some h \<longrightarrow> h \<le> rin_epoch input"
      "rsa_spki_of_pkcs8 C sk = Some pk" "ck_allows priv RsaOaep UseDecrypt" "ck_material priv = sk"
  shows "\<exists>check. openOrgKey C (rin_orgId input)
      [served_link w (om_role m) (rin_ownerUserId input) b, served_link ow (om_role owner) (rin_ownerUserId input) b]
      (om_userId m) (om_role m) pinned_for epochs (\<lambda>e. decryptOrgKey C e priv) s =
    (Inr (CheckOk check, Some (rin_orgKey input)), epochs_record epochs (rin_orgId input) (rin_epoch input) s)"
proof -
  have loop: "resign_loop C rng 0 input identity (rin_members input) = Inr (wraps, skipped)"
    using assms(4,7) by (simp add: buildResignedWraps_def)
  have uniq: "x \<in> set (rin_members input) \<Longrightarrow> y \<in> set (rin_members input) \<Longrightarrow> om_userId x = om_userId y \<Longrightarrow> x = y" for x y
    using assms(8) by (metis (no_types) distinct_map inj_onD)
  obtain rsa r where wm: "resign_key C input identity m = Some rsa"
      "encryptOrgKeyForMember C r (rin_orgKey input) rsa = Inr (rw_encryptedOrgKey w)"
      "signOrgKeyWrap C (resign_wrap_for input m (rw_encryptedOrgKey w)) (ik_secretKey identity) = Inr (rw_wrapSignature w)"
      "rw_keyEpoch w = rin_epoch input"
    using resign_loop_wrap [OF loop w(1)] w(2) m(1) uniq by metis
  have wo: "signOrgKeyWrap C (resign_wrap_for input owner (rw_encryptedOrgKey ow)) (ik_secretKey identity) = Inr (rw_wrapSignature ow)"
      "rw_keyEpoch ow = rin_epoch input"
    using resign_loop_wrap [OF loop ow(1)] ow(2) own(1) uniq by metis+
  have rsa: "rsa = toBase64 pk" using resign_key_confirmed [OF wm(1) m(2)] m(3) by simp
  have key: "decryptOrgKey C (rw_encryptedOrgKey w) priv = Inr (rin_orgKey input)"
    using decryptOrgKey_wrapped [OF assms(3) device(3) assms(6) _ device(4,5)] wm(2) assms(5) rsa by simp
  let ?chain = "[served_link w (om_role m) (rin_ownerUserId input) b, served_link ow (om_role owner) (rin_ownerUserId input) b]"
  have "verifyOrgKeyChain C (chainFromServer (rin_orgId input) ?chain) (rin_orgId input) (om_userId m) pinned_for
      (epochs_get epochs s) = Inr (resign_wrap_for input m (rw_encryptedOrgKey w))"
    using resigned_chain_verifies [where highest_for = "epochs_get epochs s", OF assms(1,2) device(1)
        deriveIdentityKey_public [OF assms(4)] wm(3) m(2) wo(1) own(2,3) device(2)]
    by (simp add: chainFromServer_def link_of_resigned [OF w(2) wm(4)] link_of_resigned [OF ow(2) wo(2)])
  then have "checkOrgKey C (rin_orgId input) ?chain (om_userId m) (om_role m) pinned_for (epochs_get epochs s) =
      CheckOk (resign_wrap_for input m (rw_encryptedOrgKey w))"
    by (rule checkOrgKey_accepts [OF _ refl, where sg = "rw_wrapSignature w"]) (simp add: served_link_def)
  then show ?thesis using key by (simp add: openOrgKey_def resign_wrap_for_def)
qed

section \<open>A rotation is complete\<close>

definition org_binding :: "RotationInput \<Rightarrow> EncryptedVaultItem \<Rightarrow> ItemBinding" where
  "org_binding input item = bindingForItem (item\<lparr>ev_orgId := Some (ro_orgId input)\<rparr>)"

definition reencrypted_blob :: "ReencryptedItem \<Rightarrow> EncryptedBlob" where
  "reencrypted_blob r = \<lparr>eb_blob = re_blob r, eb_blobIv = re_blobIv r, eb_blobMac = re_blobMac r\<rparr>"

lemma eb_eta [simp]: "\<lparr>eb_blob = eb_blob e, eb_blobIv = eb_blobIv e, eb_blobMac = eb_blobMac e\<rparr> = (e :: EncryptedBlob)"
  by (cases e) simp

text \<open>What one re-encrypted item is: the contents the old key gave, sealed for the same row at a higher revision.\<close>

definition moved_item ::
  "crypto \<Rightarrow> RotationInput \<Rightarrow> CryptoKey \<Rightarrow> EncryptedVaultItem \<Rightarrow> ReencryptedItem \<Rightarrow> int \<Rightarrow> bool" where
  "moved_item C input newKey item r nr \<longleftrightarrow>
     ev_id item = re_id r \<and>
     (\<exists>s0 s1 d iv. decryptVaultItem C (ev_encrypted item) (org_binding input item)
         \<lparr>vk_vaultEncKey = ro_oldKey input, vk_vaultMacKey = ro_oldKey input\<rparr> (Some s0) = (Inr d, s1) \<and>
       di_revision d < nr \<and>
       encryptItemV2 C iv (di_plaintext d) (org_binding input item) nr newKey = Inr (reencrypted_blob r))"

text \<open>One turn of the loop that ends with nothing undecryptable: the item was dropped or moved.\<close>

lemma rotate_items_step:
  assumes "rotate_items C rng n input newKey (item # items) s = (Inr (its, revs, []), s')"
  obtains (dropped) "ev_id item \<in> set (ro_dropItemIds input)"
      "rotate_items C rng (n + 1) input newKey items s = (Inr (its, revs, []), s')"
  | (moved) r nr its' revs' s1 where "ev_id item \<notin> set (ro_dropItemIds input)" "moved_item C input newKey item r nr"
      "rotate_items C rng (n + 1) input newKey items s1 = (Inr (its', revs', []), s')"
      "its = r # its'" "revs = (ev_id item, nr) # revs'"
proof (cases "ev_id item \<in> set (ro_dropItemIds input)")
  case True
  then show thesis using dropped assms by simp
next
  case False
  let ?keys = "\<lparr>vk_vaultEncKey = ro_oldKey input, vk_vaultMacKey = ro_oldKey input\<rparr>"
  obtain d s1 where d: "decryptVaultItem C (ev_encrypted item) (org_binding input item) ?keys (Some s) = (Inr d, Some s1)"
    using assms False decryptVaultItem_store [of C "ev_encrypted item" "org_binding input item" ?keys s]
    by (auto simp: Let_def rbind_eq_Inr org_binding_def [symmetric] split: prod.splits sum.splits)
  obtain e nr where e: "encryptVaultItem C (rng n) (di_plaintext d) (org_binding input item) newKey (Some s1)
      (Some (di_revision d)) = Inr (e, nr)"
    using assms False d by (auto simp: Let_def org_binding_def [symmetric] split: prod.splits sum.splits)
  obtain its' revs' where l: "rotate_items C rng (n + 1) input newKey items s1 = (Inr (its', revs', []), s')"
    and its: "its = \<lparr>re_id = ev_id item, re_blob = eb_blob e, re_blobIv = eb_blobIv e, re_blobMac = eb_blobMac e\<rparr> # its'"
      "revs = (ev_id item, nr) # revs'"
    using assms False d e by (auto simp: Let_def org_binding_def [symmetric] rbind_eq_Inr split: prod.splits)
  have "moved_item C input newKey item
      \<lparr>re_id = ev_id item, re_blob = eb_blob e, re_blobIv = eb_blobIv e, re_blobMac = eb_blobMac e\<rparr> nr"
    using d encryptVaultItem_Inr(1,4) [OF e] by (auto simp: moved_item_def reencrypted_blob_def)
  from moved [OF False this l its] show thesis .
qed

lemma rotate_items_all:
  "rotate_items C rng n input newKey items s = (Inr (its, revs, []), s') \<Longrightarrow>
   map re_id its = map ev_id (filter (\<lambda>i. ev_id i \<notin> set (ro_dropItemIds input)) items) \<and>
   map fst revs = map re_id its \<and>
   (\<forall>r \<in> set its. \<exists>item \<in> set items. \<exists>nr. (re_id r, nr) \<in> set revs \<and> moved_item C input newKey item r nr)"
proof (induction items arbitrary: n s its revs)
  case (Cons item items)
  from Cons.prems show ?case
  proof (cases rule: rotate_items_step)
    case dropped
    from Cons.IH [OF dropped(2)] show ?thesis using dropped(1) by auto
  next
    case (moved r nr its' revs' s1)
    have "ev_id item = re_id r" using moved(2) by (simp add: moved_item_def)
    then show ?thesis using Cons.IH [OF moved(3)] moved by auto
  qed
qed simp

lemma moved_item_opens:
  assumes "aead_correct C" "aead_expands C" "aes_key_ok newKey" "moved_item C input newKey item r nr"
  shows "\<exists>s0 s1 d. decryptVaultItem C (ev_encrypted item) (org_binding input item)
      \<lparr>vk_vaultEncKey = ro_oldKey input, vk_vaultMacKey = ro_oldKey input\<rparr> (Some s0) = (Inr d, s1) \<and> di_revision d < nr \<and>
    (\<forall>s. (\<forall>h. revs_get s (re_id r) = Some h \<longrightarrow> h \<le> nr) \<longrightarrow>
      decryptVaultItem C (reencrypted_blob r) (org_binding input item) \<lparr>vk_vaultEncKey = newKey, vk_vaultMacKey = newKey\<rparr> (Some s) =
        (Inr \<lparr>di_plaintext = di_plaintext d, di_revision = nr, di_format = 2\<rparr>, Some (revs_record (re_id r) nr s)))"
proof -
  let ?keys = "\<lparr>vk_vaultEncKey = newKey, vk_vaultMacKey = newKey\<rparr>"
  obtain s0 s1 d iv where d: "decryptVaultItem C (ev_encrypted item) (org_binding input item)
      \<lparr>vk_vaultEncKey = ro_oldKey input, vk_vaultMacKey = ro_oldKey input\<rparr> (Some s0) = (Inr d, s1)" "di_revision d < nr"
    and e: "encryptItemV2 C iv (di_plaintext d) (org_binding input item) nr newKey = Inr (reencrypted_blob r)"
    using assms(4) by (auto simp: moved_item_def)
  have i: "ib_itemId (org_binding input item) = re_id r"
    using assms(4) by (simp add: moved_item_def org_binding_def bindingForItem_def)
  show ?thesis using d decryptVaultItem_encryptItemV2(2) [of C ?keys iv "di_plaintext d" "org_binding input item" nr "reencrypted_blob r"]
      assms(1-3) e i by auto
qed

lemma buildRotation_Inr:
  assumes "buildRotation C rnd input s = (Inr plan, s')"
  obtains wraps items revisions identity where
    "set (gone_items input) \<subseteq> set (le_items (ro_acknowledgedGone input))"
    "set (gone_members input) \<subseteq> set (le_members (ro_acknowledgedGone input))"
    "resign_loop C (rnd_wrap rnd) 0
       \<lparr>rin_orgId = ro_orgId input, rin_epoch = ro_currentEpoch input + 1, rin_ownerUserId = ro_ownerUserId input,
        rin_orgKey = generateOrgKey (rnd_newKey rnd), rin_members = remaining_members input, rin_pins = ro_pins input,
        rin_identity = ro_identity input\<rparr> identity (remaining_members input) = Inr (wraps, [])"
    "rotate_items C (rnd_iv rnd) 0 input (generateOrgKey (rnd_newKey rnd)) (ro_items input) s = (Inr (items, revisions, []), s')"
    "rk_newEpoch (rp_request plan) = ro_currentEpoch input + 1" "rk_wraps (rp_request plan) = wraps"
    "rk_items (rp_request plan) = items" "rp_revisions plan = revisions"
    "rp_keepsAccess plan = map om_userId (remaining_members input)"
proof -
  have g: "set (gone_items input) \<subseteq> set (le_items (ro_acknowledgedGone input))"
    "set (gone_members input) \<subseteq> set (le_members (ro_acknowledgedGone input))"
    using assms by (auto simp: buildRotation_def Let_def filter_empty_conv split: if_splits)
  obtain wraps items revisions where b: "buildResignedWraps C (rnd_wrap rnd)
       \<lparr>rin_orgId = ro_orgId input, rin_epoch = ro_currentEpoch input + 1, rin_ownerUserId = ro_ownerUserId input,
        rin_orgKey = generateOrgKey (rnd_newKey rnd), rin_members = remaining_members input, rin_pins = ro_pins input,
        rin_identity = ro_identity input\<rparr> = Inr (wraps, [])"
    and r: "rotate_items C (rnd_iv rnd) 0 input (generateOrgKey (rnd_newKey rnd)) (ro_items input) s = (Inr (items, revisions, []), s')"
    and p: "rk_newEpoch (rp_request plan) = ro_currentEpoch input + 1" "rk_wraps (rp_request plan) = wraps"
      "rk_items (rp_request plan) = items" "rp_revisions plan = revisions"
      "rp_keepsAccess plan = map om_userId (remaining_members input)"
    using assms by (auto simp: buildRotation_def Let_def split: if_splits sum.splits prod.splits)
  from b obtain identity where "resign_loop C (rnd_wrap rnd) 0
       \<lparr>rin_orgId = ro_orgId input, rin_epoch = ro_currentEpoch input + 1, rin_ownerUserId = ro_ownerUserId input,
        rin_orgKey = generateOrgKey (rnd_newKey rnd), rin_members = remaining_members input, rin_pins = ro_pins input,
        rin_identity = ro_identity input\<rparr> identity (remaining_members input) = Inr (wraps, [])"
    by (auto simp: buildResignedWraps_def rbind_eq_Inr)
  from that [OF g this r p] show thesis .
qed

lemma rotation_complete:
  assumes "buildRotation C rnd input s = (Inr plan, s')"
  shows "rk_newEpoch (rp_request plan) = ro_currentEpoch input + 1 \<and>
    map rw_userId (rk_wraps (rp_request plan)) =
      map om_userId (filter (\<lambda>m. Some (om_userId m) \<noteq> ro_removeUserId input) (ro_members input)) \<and>
    (\<forall>w \<in> set (rk_wraps (rp_request plan)). rw_keyEpoch w = ro_currentEpoch input + 1) \<and>
    map re_id (rk_items (rp_request plan)) =
      map ev_id (filter (\<lambda>i. ev_id i \<notin> set (ro_dropItemIds input)) (ro_items input)) \<and>
    (\<forall>i \<in> set (le_items (ro_known input)). i \<in> re_id ` set (rk_items (rp_request plan)) \<or>
       i \<in> set (ro_dropItemIds input) \<or> i \<in> set (le_items (ro_acknowledgedGone input))) \<and>
    (\<forall>u \<in> set (le_members (ro_known input)). u \<in> rw_userId ` set (rk_wraps (rp_request plan)) \<or>
       ro_removeUserId input = Some u \<or> u \<in> set (le_members (ro_acknowledgedGone input)))"
  using assms
proof (cases rule: buildRotation_Inr)
  case (1 wraps items revisions identity)
  let ?key = "resign_key C \<lparr>rin_orgId = ro_orgId input, rin_epoch = ro_currentEpoch input + 1, rin_ownerUserId = ro_ownerUserId input,
        rin_orgKey = generateOrgKey (rnd_newKey rnd), rin_members = remaining_members input, rin_pins = ro_pins input,
        rin_identity = ro_identity input\<rparr> identity"
  note u = resign_loop_users [OF 1(3)]
  then have "filter (\<lambda>m. ?key m = None) (remaining_members input) = []" by simp
  then have "filter (\<lambda>m. ?key m \<noteq> None) (remaining_members input) = remaining_members input"
    by (auto simp: filter_empty_conv intro: filter_True)
  with u have w: "map rw_userId wraps = map om_userId (remaining_members input)" by simp
  have e: "\<forall>w \<in> set wraps. rw_keyEpoch w = ro_currentEpoch input + 1"
    using resign_loop_wrap [OF 1(3)] by fastforce
  note i = rotate_items_all [OF 1(4)]
  then have "re_id ` set items = ev_id ` set (filter (\<lambda>i. ev_id i \<notin> set (ro_dropItemIds input)) (ro_items input))"
    by (metis image_set)
  moreover have "rw_userId ` set wraps = om_userId ` set (remaining_members input)" using w by (metis image_set)
  ultimately show ?thesis using 1 w e i
    by (auto simp: gone_items_def gone_members_def remaining_members_def)
qed

text \<open>
  C21. A key rotation is never partial. When \<open>buildRotation\<close> returns a plan, it is for the next
  epoch; there is exactly one wrap for each listed member but the removed one, in order, all at the new
  epoch; every item the server listed is re-encrypted, in order, unless the owner dropped it; and every
  item and member this device has ever recorded for the organization is covered, dropped or removed by
  the owner, or acknowledged as gone.
\<close>

theorem rotation_leaves_nothing_out:
  assumes "buildRotation C rnd input s = (Inr plan, s')"
  shows "rk_newEpoch (rp_request plan) = ro_currentEpoch input + 1 \<and>
    map rw_userId (rk_wraps (rp_request plan)) =
      map om_userId (filter (\<lambda>m. Some (om_userId m) \<noteq> ro_removeUserId input) (ro_members input)) \<and>
    (\<forall>w \<in> set (rk_wraps (rp_request plan)). rw_keyEpoch w = ro_currentEpoch input + 1) \<and>
    map re_id (rk_items (rp_request plan)) =
      map ev_id (filter (\<lambda>i. ev_id i \<notin> set (ro_dropItemIds input)) (ro_items input)) \<and>
    (\<forall>i \<in> set (le_items (ro_known input)). i \<in> re_id ` set (rk_items (rp_request plan)) \<or>
       i \<in> set (ro_dropItemIds input) \<or> i \<in> set (le_items (ro_acknowledgedGone input))) \<and>
    (\<forall>u \<in> set (le_members (ro_known input)). u \<in> rw_userId ` set (rk_wraps (rp_request plan)) \<or>
       ro_removeUserId input = Some u \<or> u \<in> set (le_members (ro_acknowledgedGone input)))"
  using rotation_complete [OF assms] .

text \<open>
  C23. A rotation loses no contents. Each item of the plan holds what the old key opened from one of the
  server's items with that id, sealed under the new key for the same row at a higher revision, which the
  plan lists for recording; every device that has not seen a higher revision reads it back under the new
  key and moves its mark there.
\<close>

theorem rotation_keeps_contents:
  assumes "aead_correct C" "aead_expands C" "buildRotation C rnd input s = (Inr plan, s')"
    and "r \<in> set (rk_items (rp_request plan))"
  defines "newKey \<equiv> generateOrgKey (rnd_newKey rnd)"
  shows "\<exists>item \<in> set (ro_items input). \<exists>nr s0 s1 d. ev_id item = re_id r \<and> (re_id r, nr) \<in> set (rp_revisions plan) \<and>
    decryptVaultItem C (ev_encrypted item) (org_binding input item)
      \<lparr>vk_vaultEncKey = ro_oldKey input, vk_vaultMacKey = ro_oldKey input\<rparr> (Some s0) = (Inr d, s1) \<and> di_revision d < nr \<and>
    (\<forall>sd. (\<forall>h. revs_get sd (re_id r) = Some h \<longrightarrow> h \<le> nr) \<longrightarrow>
      decryptVaultItem C (reencrypted_blob r) (org_binding input item) \<lparr>vk_vaultEncKey = newKey, vk_vaultMacKey = newKey\<rparr> (Some sd) =
        (Inr \<lparr>di_plaintext = di_plaintext d, di_revision = nr, di_format = 2\<rparr>, Some (revs_record (re_id r) nr sd)))"
  using assms(3)
proof (cases rule: buildRotation_Inr)
  case (1 wraps items revisions identity)
  have k: "aes_key_ok newKey" by (simp add: newKey_def generateOrgKey_def aes_key_ok_def ck_allows_def)
  obtain item nr where "item \<in> set (ro_items input)" "(re_id r, nr) \<in> set (rp_revisions plan)"
    and m: "moved_item C input newKey item r nr"
    using rotate_items_all [OF 1(4)] assms(4) 1(7,8) by (auto simp: newKey_def)
  moreover have "ev_id item = re_id r" using m by (simp add: moved_item_def)
  ultimately show ?thesis using moved_item_opens [OF assms(1,2) k m] by blast
qed

section \<open>A sample organization\<close>

definition demo_member :: string where "demo_member = ''aa112233-4455-6677-8899-aabbccddeeff''"

definition demo_resign_identity :: ResignIdentity where
  "demo_resign_identity = \<lparr>ri_protectedPrivateKey = toBase64 (aes_gcm_encrypt demo_crypto (replicate 32 4) (replicate 12 0) [] [1, 2, 3]),
     ri_protectedPrivateKeyIv = toBase64 (replicate 12 0), ri_stretchedMasterKey = demo_aes_key 4\<rparr>"

definition demo_derived :: IdentityKey where
  "demo_derived = (let sk = hkdf_sha256 demo_crypto [1, 2, 3] [] (utf8_encode ''nopwd-identity-ed25519-v1'') 32 in
     \<lparr>ik_secretKey = sk, ik_publicKeyB64 = toBase64 (ed25519_getPublicKey demo_crypto sk), ik_rsaPublicKeyB64 = toBase64 [1, 2, 3]\<rparr>)"

lemma demo_derives:
  "deriveIdentityKey demo_crypto (ri_protectedPrivateKey demo_resign_identity) (ri_protectedPrivateKeyIv demo_resign_identity)
     (ri_stretchedMasterKey demo_resign_identity) = Inr demo_derived"
  by (simp add: deriveIdentityKey_def demo_resign_identity_def demo_derived_def decryptBytes_def subtle_decrypt_def
      demo_aes_key_def ck_allows_def aead_correctD [OF demo_aead_correct] demo_rsa Let_def)

definition demo_owner_row :: OrgMember where
  "demo_owner_row = \<lparr>om_userId = demo_user, om_role = ''owner'', om_status = StatusActive, om_joinedAt = None,
     om_publicKey = None, om_identityPublicKey = None, om_publicKeySignature = None\<rparr>"

definition demo_member_row :: "string \<Rightarrow> OrgMember" where
  "demo_member_row sg = \<lparr>om_userId = demo_member, om_role = ''member'', om_status = StatusActive, om_joinedAt = None,
     om_publicKey = Some (toBase64 [9]), om_identityPublicKey = Some (toBase64 (ed25519_getPublicKey demo_crypto demo_seed)),
     om_publicKeySignature = Some sg\<rparr>"

definition demo_resign :: "string \<Rightarrow> ResignInput" where
  "demo_resign sg = \<lparr>rin_orgId = demo_org, rin_epoch = 4, rin_ownerUserId = demo_user,
     rin_orgKey = generateOrgKey (replicate 32 6), rin_members = [demo_owner_row, demo_member_row sg],
     rin_pins = [demo_member \<mapsto> toBase64 (ed25519_getPublicKey demo_crypto demo_seed)], rin_identity = demo_resign_identity\<rparr>"

lemma demo_member_uuid: "\<exists>bs. uuidBytes demo_member = Some bs" "demo_member \<noteq> demo_user"
  "length (utf8_encode ''member'') = 6"
proof -
  have "uuidBytes demo_member \<noteq> None" by code_simp
  then show "\<exists>bs. uuidBytes demo_member = Some bs" by auto
  show "demo_member \<noteq> demo_user" by (simp add: demo_member_def demo_user_def)
qed code_simp

lemma demo_signs:
  assumes "u \<in> {demo_user, demo_member}" "1 \<le> e" "e \<le> 0xffffffff" "r \<in> {''owner'', ''member''}"
  shows "\<exists>sg. signOrgKeyWrap demo_crypto \<lparr>kw_orgId = demo_org, kw_epoch = e, kw_recipientUserId = u,
    kw_signerUserId = demo_user, kw_role = r, kw_encryptedOrgKey = toBase64 x\<rparr> sk = Inr sg"
proof -
  obtain m where "wrapMessage \<lparr>kw_orgId = demo_org, kw_epoch = e, kw_recipientUserId = u, kw_signerUserId = demo_user,
      kw_role = r, kw_encryptedOrgKey = toBase64 x\<rparr> = Inr m"
    using assms demo_values demo_member_uuid by (fastforce simp: wrapMessage_Inr simp del: be_bytes.simps)
  then show ?thesis by (simp add: signOrgKeyWrap_def)
qed

lemma demo_wraps_key: "encryptOrgKeyForMember demo_crypto r (generateOrgKey raw) (toBase64 pk) = Inr (toBase64 (frame pk @ raw))"
  by (simp add: encryptOrgKeyForMember_def subtle_importSpki_def demo_rsa subtle_exportRaw_def generateOrgKey_def)

lemma demo_member_bundle: "\<exists>sg. verifyKeyBundle demo_crypto (member_bundle (demo_member_row sg) (toBase64 [9]))"
proof -
  obtain m where "bundleMessage demo_member (toBase64 [9]) = Inr m" using demo_member_uuid by (auto simp: bundleMessage_Inr)
  then have "signKeyBundle demo_crypto demo_member (toBase64 [9]) demo_seed = Inr (toBase64 (ed25519_sign demo_crypto m demo_seed))"
    by (simp add: signKeyBundle_def)
  from signed_bundle_verifies [OF demo_sig this] show ?thesis by (auto simp: member_bundle_def demo_member_row_def)
qed

lemma demo_resign_keys:
  assumes "verifyKeyBundle demo_crypto (member_bundle (demo_member_row sg) (toBase64 [9]))"
  shows "resign_key demo_crypto (demo_resign sg) demo_derived demo_owner_row = Some (toBase64 [1, 2, 3])"
    and "resign_key demo_crypto (demo_resign sg) demo_derived (demo_member_row sg) = Some (toBase64 [9])"
proof -
  show "resign_key demo_crypto (demo_resign sg) demo_derived demo_owner_row = Some (toBase64 [1, 2, 3])"
    by (simp add: resign_key_def demo_resign_def demo_owner_row_def demo_derived_def Let_def)
  show "resign_key demo_crypto (demo_resign sg) demo_derived (demo_member_row sg) = Some (toBase64 [9])"
    using verifyMemberKey_signed [OF assms, of "rin_pins (demo_resign sg)"] demo_member_uuid(2)
    by (auto simp: resign_key_def demo_resign_def demo_member_row_def member_bundle_def nonempty_opt_def)
qed

lemma demo_resigned:
  assumes "verifyKeyBundle demo_crypto (member_bundle (demo_member_row sg) (toBase64 [9]))"
  shows "\<exists>w w'. buildResignedWraps demo_crypto rng (demo_resign sg) = Inr ([w, w'], []) \<and>
    rw_userId w = demo_user \<and> rw_userId w' = demo_member"
proof -
  obtain s1 where s1: "signOrgKeyWrap demo_crypto (resign_wrap_for (demo_resign sg) demo_owner_row
      (toBase64 (frame [1, 2, 3] @ replicate 32 6))) (ik_secretKey demo_derived) = Inr s1"
    using demo_signs [of demo_user 4 "''owner''"] by (auto simp: resign_wrap_for_def demo_resign_def demo_owner_row_def)
  obtain s2 where s2: "signOrgKeyWrap demo_crypto (resign_wrap_for (demo_resign sg) (demo_member_row sg)
      (toBase64 (frame [9] @ replicate 32 6))) (ik_secretKey demo_derived) = Inr s2"
    using demo_signs [of demo_member 4 "''member''"] by (auto simp: resign_wrap_for_def demo_resign_def demo_member_row_def)
  have sel: "rin_identity (demo_resign sg) = demo_resign_identity" "rin_members (demo_resign sg) = [demo_owner_row, demo_member_row sg]"
    "rin_orgKey (demo_resign sg) = generateOrgKey (replicate 32 6)" "om_userId demo_owner_row = demo_user"
    "om_userId (demo_member_row sg) = demo_member"
    by (simp_all add: demo_resign_def demo_owner_row_def demo_member_row_def)
  show ?thesis
    using s1 s2 by (simp add: buildResignedWraps_def sel demo_derives demo_resign_keys [OF assms] demo_wraps_key)
qed

definition demo_epochs :: "(string \<rightharpoonup> int) OrgEpochStore" where
  "demo_epochs = \<lparr>epochs_get = (\<lambda>s. s), epochs_record = (\<lambda>orgId e s. s(orgId \<mapsto> e))\<rparr>"

theorem resigned_wrap_opens_for_member_witness:
  "\<exists>sg w w' b pins check. buildResignedWraps demo_crypto (\<lambda>_. []) (demo_resign sg) = Inr ([w, w'], []) \<and>
     openOrgKey demo_crypto demo_org
       [served_link w' ''member'' demo_user b, served_link w ''owner'' demo_user b]
       demo_member ''member'' pins demo_epochs
       (\<lambda>e. decryptOrgKey demo_crypto e \<lparr>ck_algorithm = RsaOaep, ck_material = [9], ck_extractable = False, ck_usages = [UseDecrypt]\<rparr>)
       Map.empty =
     (Inr (CheckOk check, Some (generateOrgKey (replicate 32 6))), [demo_org \<mapsto> 4])"
proof -
  obtain sg where sg: "verifyKeyBundle demo_crypto (member_bundle (demo_member_row sg) (toBase64 [9]))"
    using demo_member_bundle by blast
  obtain w w' where w: "buildResignedWraps demo_crypto (\<lambda>_. []) (demo_resign sg) = Inr ([w, w'], [])"
      "rw_userId w = demo_user" "rw_userId w' = demo_member"
    using demo_resigned [OF sg] by blast
  obtain m where "bundleMessage demo_user (toBase64 [1, 2, 3]) = Inr m" using demo_values by (auto simp: bundleMessage_Inr)
  then have s: "signKeyBundle demo_crypto demo_user (toBase64 [1, 2, 3]) (ik_secretKey demo_derived) =
      Inr (toBase64 (ed25519_sign demo_crypto m (ik_secretKey demo_derived)))" by (simp add: signKeyBundle_def)
  let ?b = "\<lparr>kb_userId = demo_user, kb_publicKey = toBase64 [1, 2, 3],
    kb_identityPublicKey = Some (toBase64 (ed25519_getPublicKey demo_crypto (ik_secretKey demo_derived))),
    kb_publicKeySignature = Some (toBase64 (ed25519_sign demo_crypto m (ik_secretKey demo_derived)))\<rparr>"
  let ?priv = "\<lparr>ck_algorithm = RsaOaep, ck_material = [9], ck_extractable = False, ck_usages = [UseDecrypt]\<rparr>"
  let ?pins = "[demo_user \<mapsto> ik_publicKeyB64 demo_derived]"
  have b: "owner_known demo_crypto (demo_resign sg) demo_derived ?b ?pins"
    using signed_bundle_verifies [OF demo_sig s] deriveIdentityKey_public [OF demo_derives]
    by (simp add: owner_known_def demo_resign_def)
  have sel: "rin_orgId (demo_resign sg) = demo_org" "rin_identity (demo_resign sg) = demo_resign_identity" "rin_epoch (demo_resign sg) = 4"
    "rin_orgKey (demo_resign sg) = generateOrgKey (replicate 32 6)" "rin_ownerUserId (demo_resign sg) = demo_user"
    "rin_members (demo_resign sg) = [demo_owner_row, demo_member_row sg]" by (simp_all add: demo_resign_def)
  have rows: "om_userId demo_owner_row = demo_user" "om_role demo_owner_row = ''owner''"
    "om_userId (demo_member_row sg) = demo_member" "om_role (demo_member_row sg) = ''member''"
    "om_publicKey (demo_member_row sg) = Some (toBase64 [9])" by (simp_all add: demo_owner_row_def demo_member_row_def)
  obtain check where "openOrgKey demo_crypto (rin_orgId (demo_resign sg))
      [served_link w' (om_role (demo_member_row sg)) (rin_ownerUserId (demo_resign sg)) ?b,
       served_link w (om_role demo_owner_row) (rin_ownerUserId (demo_resign sg)) ?b]
      (om_userId (demo_member_row sg)) (om_role (demo_member_row sg)) ?pins demo_epochs (\<lambda>e. decryptOrgKey demo_crypto e ?priv) Map.empty =
    (Inr (CheckOk check, Some (rin_orgKey (demo_resign sg))), epochs_record demo_epochs (rin_orgId (demo_resign sg)) (rin_epoch (demo_resign sg)) Map.empty)"
    using resigned_wrap_opens_for_member [of demo_crypto "demo_resign sg" demo_derived "replicate 32 6" "\<lambda>_. []" "[w, w']" "[]"
        "demo_member_row sg" "[9]" w' demo_owner_row w ?b ?pins demo_epochs Map.empty "[9]" ?priv]
      demo_sig demo_rsa_correct demo_derives w b demo_rsa(1) demo_member_uuid(2)
    by (auto simp: sel rows demo_epochs_def ck_allows_def)
  moreover have "epochs_record demo_epochs demo_org 4 Map.empty = [demo_org \<mapsto> 4]" by (simp add: demo_epochs_def)
  ultimately show ?thesis using w(1) unfolding sel rows by metis
qed

text \<open>A rotation that moves one item and removes the member.\<close>

definition demo_org_item :: "EncryptedBlob \<Rightarrow> EncryptedVaultItem" where
  "demo_org_item e = (demo_item demo_user)\<lparr>ev_orgId := Some demo_org, ev_itemType := ''note'', ev_blob := eb_blob e,
     ev_blobIv := eb_blobIv e, ev_blobMac := eb_blobMac e\<rparr>"

definition demo_rotation_input :: "EncryptedBlob \<Rightarrow> RotationInput" where
  "demo_rotation_input e = \<lparr>ro_orgId = demo_org, ro_ownerUserId = demo_user, ro_currentEpoch = 4, ro_oldKey = demo_aes_key 1,
     ro_items = [demo_org_item e], ro_members = [demo_owner_row, demo_member_row ''''], ro_removeUserId = Some demo_member,
     ro_known = \<lparr>le_items = [demo_user], le_members = [demo_user, demo_member, ''gone'']\<rparr>, ro_dropItemIds = [],
     ro_acknowledgedGone = \<lparr>le_items = [], le_members = [''gone'']\<rparr>, ro_pins = Map.empty, ro_identity = demo_resign_identity\<rparr>"

definition demo_rotation_rnd :: RotationRandom where
  "demo_rotation_rnd = \<lparr>rnd_newKey = replicate 32 6, rnd_wrap = (\<lambda>_. []), rnd_iv = (\<lambda>_. replicate 12 5)\<rparr>"

lemma demo_org_binding_eq:
  "org_binding (demo_rotation_input e) (demo_org_item e') = \<lparr>ib_scope = Org demo_org, ib_itemId = demo_user, ib_itemType = ''note''\<rparr>"
  by (simp add: org_binding_def demo_rotation_input_def demo_org_item_def demo_item_def bindingForItem_def demo_org_def)

lemma demo_org_sealed:
  assumes "0 \<le> r" "r \<le> MAX_SAFE_INTEGER" "aes_key_ok k"
  shows "\<exists>e. encryptItemV2 demo_crypto iv demo_note \<lparr>ib_scope = Org demo_org, ib_itemId = demo_user, ib_itemType = ''note''\<rparr> r k = Inr e"
proof -
  obtain aad where "itemAad \<lparr>ib_scope = Org demo_org, ib_itemId = demo_user, ib_itemType = ''note''\<rparr> r = Inr aad"
    using assms(1,2) demo_values(1,2) demo_type_length
    by (auto simp: itemAad_Inr scope_bytes_def uuidBytes_js_def simp del: be_bytes.simps)
  then show ?thesis using assms(3) unfolding encryptItemV2_Inr by (auto simp: demo_note_def aes_key_ok_def json_get_def)
qed

lemma demo_rotation_wraps:
  "\<exists>w. buildResignedWraps demo_crypto (\<lambda>_. []) \<lparr>rin_orgId = demo_org, rin_epoch = 5, rin_ownerUserId = demo_user,
     rin_orgKey = generateOrgKey (replicate 32 6), rin_members = [demo_owner_row], rin_pins = Map.empty,
     rin_identity = demo_resign_identity\<rparr> = Inr ([w], [])"
proof -
  obtain sg where "signOrgKeyWrap demo_crypto \<lparr>kw_orgId = demo_org, kw_epoch = 5, kw_recipientUserId = demo_user,
    kw_signerUserId = demo_user, kw_role = ''owner'', kw_encryptedOrgKey = toBase64 (frame [1, 2, 3] @ replicate 32 6)\<rparr>
      (ik_secretKey demo_derived) = Inr sg"
    using demo_signs [of demo_user 5 "''owner''"] by auto
  then show ?thesis
    by (simp add: buildResignedWraps_def demo_derives resign_key_def demo_owner_row_def resign_wrap_for_def
        demo_wraps_key demo_derived_def Let_def)
qed

lemma demo_rotation_item:
  assumes "encryptItemV2 demo_crypto (replicate 12 5) demo_note \<lparr>ib_scope = Org demo_org, ib_itemId = demo_user, ib_itemType = ''note''\<rparr> 3
    (demo_aes_key 1) = Inr e"
  shows "\<exists>r nr s'. rotate_items demo_crypto (\<lambda>_. replicate 12 5) 0 (demo_rotation_input e) (generateOrgKey (replicate 32 6))
    [demo_org_item e] (new_MemoryRevisionStore None None) = (Inr ([r], [(demo_user, nr)], []), s')"
proof -
  let ?b = "\<lparr>ib_scope = Org demo_org, ib_itemId = demo_user, ib_itemType = ''note''\<rparr>"
  let ?keys = "\<lparr>vk_vaultEncKey = demo_aes_key 1, vk_vaultMacKey = demo_aes_key 1\<rparr>"
  have ev: "ev_encrypted (demo_org_item e) = e" "ev_id (demo_org_item e) = demo_user"
    by (simp_all add: ev_encrypted_def demo_org_item_def demo_item_def)
  have sel: "ro_dropItemIds (demo_rotation_input e) = []" "ro_oldKey (demo_rotation_input e) = demo_aes_key 1"
    by (simp_all add: demo_rotation_input_def)
  have d: "decryptVaultItem demo_crypto e ?b ?keys (Some (new_MemoryRevisionStore None None)) =
      (Inr \<lparr>di_plaintext = demo_note, di_revision = 3, di_format = 2\<rparr>, Some (revs_record demo_user 3 (new_MemoryRevisionStore None None)))"
    using decryptVaultItem_encryptItemV2(2) [OF demo_aead_correct demo_aead_expands _ , of ?keys "replicate 12 5" demo_note ?b 3 e]
      assms by (simp add: revs_get_def new_MemoryRevisionStore_def)
  have "aes_key_ok (generateOrgKey (replicate 32 6))" by (simp add: generateOrgKey_def aes_key_ok_def ck_allows_def)
  then obtain e2 where e2: "encryptItemV2 demo_crypto (replicate 12 5) demo_note ?b 4 (generateOrgKey (replicate 32 6)) = Inr e2"
    using demo_org_sealed [of 4] by (auto simp: MAX_SAFE_INTEGER_def)
  show ?thesis
    by (simp add: sel ev demo_org_binding_eq [unfolded org_binding_def] org_binding_def [symmetric] demo_org_binding_eq d
        encryptVaultItem_def e2 revs_get_record)
       (simp add: revs_get_def new_MemoryRevisionStore_def e2)
qed

lemma demo_rotation:
  "\<exists>e plan r s'. buildRotation demo_crypto demo_rotation_rnd (demo_rotation_input e) (new_MemoryRevisionStore None None) = (Inr plan, s') \<and>
     rk_items (rp_request plan) = [r]"
proof -
  obtain e where e: "encryptItemV2 demo_crypto (replicate 12 5) demo_note \<lparr>ib_scope = Org demo_org, ib_itemId = demo_user, ib_itemType = ''note''\<rparr> 3
    (demo_aes_key 1) = Inr e" using demo_org_sealed [of 3 "demo_aes_key 1" "replicate 12 5"] by (auto simp: MAX_SAFE_INTEGER_def)
  obtain r nr s' where r: "rotate_items demo_crypto (\<lambda>_. replicate 12 5) 0 (demo_rotation_input e) (generateOrgKey (replicate 32 6))
    [demo_org_item e] (new_MemoryRevisionStore None None) = (Inr ([r], [(demo_user, nr)], []), s')"
    using demo_rotation_item [OF e] by blast
  obtain w where w: "buildResignedWraps demo_crypto (\<lambda>_. []) \<lparr>rin_orgId = demo_org, rin_epoch = 5, rin_ownerUserId = demo_user,
     rin_orgKey = generateOrgKey (replicate 32 6), rin_members = [demo_owner_row], rin_pins = Map.empty,
     rin_identity = demo_resign_identity\<rparr> = Inr ([w], [])" using demo_rotation_wraps by blast
  have g: "gone_items (demo_rotation_input e) = []" "gone_members (demo_rotation_input e) = [''gone'']"
    "remaining_members (demo_rotation_input e) = [demo_owner_row]"
    by (simp_all add: gone_items_def gone_members_def remaining_members_def demo_rotation_input_def demo_org_item_def demo_item_def
        demo_owner_row_def demo_member_row_def demo_member_def demo_user_def)
  have sel: "ro_orgId (demo_rotation_input e) = demo_org" "ro_currentEpoch (demo_rotation_input e) = 4"
    "ro_ownerUserId (demo_rotation_input e) = demo_user" "ro_pins (demo_rotation_input e) = Map.empty"
    "ro_identity (demo_rotation_input e) = demo_resign_identity" "ro_items (demo_rotation_input e) = [demo_org_item e]"
    "ro_acknowledgedGone (demo_rotation_input e) = \<lparr>le_items = [], le_members = [''gone'']\<rparr>" by (simp_all add: demo_rotation_input_def)
  have "\<exists>plan. buildRotation demo_crypto demo_rotation_rnd (demo_rotation_input e) (new_MemoryRevisionStore None None) = (Inr plan, s') \<and>
     rk_items (rp_request plan) = [r]"
    unfolding buildRotation_def Let_def g sel demo_rotation_rnd_def
    by (simp add: w r del: rotate_items.simps)
  then show ?thesis by blast
qed

theorem rotation_leaves_nothing_out_witness:
  "\<exists>e plan s'. buildRotation demo_crypto demo_rotation_rnd (demo_rotation_input e) (new_MemoryRevisionStore None None) = (Inr plan, s') \<and>
     map rw_userId (rk_wraps (rp_request plan)) = [demo_user] \<and> map re_id (rk_items (rp_request plan)) = [demo_user]"
proof -
  obtain e plan s' where p: "buildRotation demo_crypto demo_rotation_rnd (demo_rotation_input e) (new_MemoryRevisionStore None None) = (Inr plan, s')"
    using demo_rotation by blast
  have "map om_userId (filter (\<lambda>m. Some (om_userId m) \<noteq> ro_removeUserId (demo_rotation_input e)) (ro_members (demo_rotation_input e))) = [demo_user]"
    "map ev_id (filter (\<lambda>i. ev_id i \<notin> set (ro_dropItemIds (demo_rotation_input e))) (ro_items (demo_rotation_input e))) = [demo_user]"
    by (simp_all add: demo_rotation_input_def demo_owner_row_def demo_member_row_def demo_member_def demo_user_def
        demo_org_item_def demo_item_def)
  with rotation_leaves_nothing_out [OF p] p show ?thesis by metis
qed

theorem rotation_keeps_contents_witness:
  "\<exists>e plan s' r nr d. buildRotation demo_crypto demo_rotation_rnd (demo_rotation_input e) (new_MemoryRevisionStore None None) = (Inr plan, s') \<and>
     r \<in> set (rk_items (rp_request plan)) \<and>
     decryptVaultItem demo_crypto (reencrypted_blob r) (org_binding (demo_rotation_input e) (demo_org_item e))
       \<lparr>vk_vaultEncKey = generateOrgKey (replicate 32 6), vk_vaultMacKey = generateOrgKey (replicate 32 6)\<rparr> (Some (new_MemoryRevisionStore None None)) =
     (Inr \<lparr>di_plaintext = d, di_revision = nr, di_format = 2\<rparr>, Some (revs_record (re_id r) nr (new_MemoryRevisionStore None None)))"
proof -
  obtain e plan r s' where p: "buildRotation demo_crypto demo_rotation_rnd (demo_rotation_input e) (new_MemoryRevisionStore None None) = (Inr plan, s')"
    "r \<in> set (rk_items (rp_request plan))" using demo_rotation by fastforce
  have i: "set (ro_items (demo_rotation_input e)) = {demo_org_item e}" by (simp add: demo_rotation_input_def)
  have n: "revs_get (new_MemoryRevisionStore None None) x = None" for x by (simp add: revs_get_def new_MemoryRevisionStore_def)
  have k: "rnd_newKey demo_rotation_rnd = replicate 32 6" by (simp add: demo_rotation_rnd_def)
  from rotation_keeps_contents [OF demo_aead_correct demo_aead_expands p, unfolded k] obtain item nr and d :: DecryptedItem where
    item: "item \<in> set (ro_items (demo_rotation_input e))" and
    opens: "\<forall>sd. (\<forall>h. revs_get sd (re_id r) = Some h \<longrightarrow> h \<le> nr) \<longrightarrow>
      decryptVaultItem demo_crypto (reencrypted_blob r) (org_binding (demo_rotation_input e) item)
        \<lparr>vk_vaultEncKey = generateOrgKey (replicate 32 6), vk_vaultMacKey = generateOrgKey (replicate 32 6)\<rparr> (Some sd) =
        (Inr \<lparr>di_plaintext = di_plaintext d, di_revision = nr, di_format = 2\<rparr>, Some (revs_record (re_id r) nr sd))"
    by blast
  from item have item_eq: "item = demo_org_item e" unfolding i by simp
  from opens [rule_format, of "new_MemoryRevisionStore None None", unfolded item_eq] have "decryptVaultItem demo_crypto (reencrypted_blob r) (org_binding (demo_rotation_input e) (demo_org_item e))
       \<lparr>vk_vaultEncKey = generateOrgKey (replicate 32 6), vk_vaultMacKey = generateOrgKey (replicate 32 6)\<rparr> (Some (new_MemoryRevisionStore None None)) =
     (Inr \<lparr>di_plaintext = di_plaintext d, di_revision = nr, di_format = 2\<rparr>, Some (revs_record (re_id r) nr (new_MemoryRevisionStore None None)))"
    by (simp add: n)
  with p show ?thesis by (intro exI conjI)
qed

section \<open>Reading organization items: lemmas\<close>

lemma try_keys_result:
  assumes "try_keys C e b keys err (Some s) = (r, rs)"
  shows "(case r of
      Inr d \<Rightarrow> \<exists>k \<in> set keys. decryptVaultItem C e b \<lparr>vk_vaultEncKey = k, vk_vaultMacKey = k\<rparr> (Some s) = (Inr d, rs)
    | Inl _ \<Rightarrow> rs = Some s)"
  using assms
proof (induction keys arbitrary: err)
  case (Cons k keys)
  let ?k = "\<lparr>vk_vaultEncKey = k, vk_vaultMacKey = k\<rparr>"
  obtain r1 rs1 where d: "decryptVaultItem C e b ?k (Some s) = (r1, rs1)" by fastforce
  show ?case
  proof (cases r1)
    case (Inl x)
    then have "rs1 = Some s" using decryptVaultItem_store [OF d] by simp
    then have "try_keys C e b keys x (Some s) = (r, rs)" using Cons.prems d Inl by simp
    from Cons.IH [OF this] show ?thesis by (auto split: sum.splits)
  qed (use Cons.prems d in \<open>auto split: sum.splits\<close>)
qed auto

text \<open>Falling back to a retired key does not weaken the store: the accepted revision is not below its mark.\<close>

lemma decryptOrgItem_store:
  assumes "decryptOrgItem C item orgId ring (Some s) = (r, rs)"
  shows "case r of
      Inr d \<Rightarrow> rs = Some (revs_record (ev_id item) (di_revision d) s) \<and>
        (\<forall>h. revs_get s (ev_id item) = Some h \<longrightarrow> h \<le> di_revision d)
    | Inl _ \<Rightarrow> rs = Some s"
proof -
  have i: "ib_itemId (bindingForItem (item\<lparr>ev_orgId := Some orgId\<rparr>)) = ev_id item" by (simp add: bindingForItem_def)
  from try_keys_result [OF assms [unfolded decryptOrgItem_def]] show ?thesis
    using decryptVaultItem_store i by (auto split: sum.splits dest!: decryptVaultItem_store)
qed

lemma verify_items_partition:
  "verify_items C orgId ring items s = ((verified, failed), s') \<Longrightarrow>
   mset (map ev_id items) = mset verified + mset failed"
  by (induction items arbitrary: s verified failed) (auto split: prod.splits sum.splits)

end
