(* ===== verification/Identity_Migration.thy ===== *)
theory Identity_Migration
  imports Org_Trust
begin

text \<open>
  Publishing and checking one's own identity key at unlock,
  \<open>packages/ui/src/lib/identity-migration.ts\<close>. The two endpoints of the API client and the password
  proof are operations on the server's state \<open>'v\<close>.
\<close>

record OwnKeyMaterial =
  okm_userId :: string
  okm_protectedPrivateKey :: string
  okm_protectedPrivateKeyIv :: string
  okm_stretchedMasterKey :: CryptoKey

record 'v IdentityApi =
  keys_me :: "('v, js_error, KeyBundle) io"
  keys_setIdentity :: "SetIdentityRequest \<Rightarrow> ('v, js_error, unit) io"

definition ensureIdentityPublished ::
  "crypto \<Rightarrow> 'v IdentityApi \<Rightarrow> OwnKeyMaterial \<Rightarrow> ('v, js_error, PasswordProof) io option \<Rightarrow> ('v, js_error, unit) io" where
  "ensureIdentityPublished C api own prove v =
     (case keys_me api v of
        (Inl (ApiError m status), v1) \<Rightarrow> if status = 404 then (Inr (), v1) else (Inl (ApiError m status), v1)
      | (Inl err, v1) \<Rightarrow> (Inl err, v1)
      | (Inr published, v1) \<Rightarrow>
          (case deriveIdentityKey C (okm_protectedPrivateKey own) (okm_protectedPrivateKeyIv own) (okm_stretchedMasterKey own) of
             Inl e \<Rightarrow> (Inl e, v1)
           | Inr identity \<Rightarrow>
               if kb_publicKey published \<noteq> ik_rsaPublicKeyB64 identity then (Inl (OwnKeyMismatchError ''public key''), v1)
               else if kb_identityPublicKey published = Some (ik_publicKeyB64 identity) then (Inr (), v1)
               else if kb_identityPublicKey published \<noteq> None then (Inl (OwnKeyMismatchError ''identity key''), v1)
               else
               (case prove of
                  None \<Rightarrow> (Inr (), v1)
                | Some p \<Rightarrow>
                    io_bind (io_lift (signKeyBundle C (okm_userId own) (ik_rsaPublicKeyB64 identity) (ik_secretKey identity))) (\<lambda>signature.
                    io_bind p (\<lambda>proof.
                    keys_setIdentity api
                      \<lparr>sid_identityPublicKey = ik_publicKeyB64 identity, sid_publicKeySignature = signature, sid_proof = Some proof\<rparr>)) v1)))"

text \<open>
  What is sent, if anything: the derived key with a signature that everyone else's
  \<open>verifyKeyBundle\<close> accepts.
\<close>

definition publishes ::
  "crypto \<Rightarrow> 'v IdentityApi \<Rightarrow> OwnKeyMaterial \<Rightarrow> IdentityKey \<Rightarrow> ('v, js_error, PasswordProof) io \<Rightarrow> 'v \<Rightarrow> 'v \<Rightarrow> bool" where
  "publishes C api own identity p v v' \<longleftrightarrow>
     (\<exists>proof v1 sg. p v = (Inr proof, v1) \<and>
        keys_setIdentity api \<lparr>sid_identityPublicKey = ik_publicKeyB64 identity, sid_publicKeySignature = sg, sid_proof = Some proof\<rparr> v1 =
          (Inr (), v') \<and>
        verifyKeyBundle C \<lparr>kb_userId = okm_userId own, kb_publicKey = ik_rsaPublicKeyB64 identity,
          kb_identityPublicKey = Some (ik_publicKeyB64 identity), kb_publicKeySignature = Some sg\<rparr>)"

text \<open>
  A device notices when the server publishes a key it does not hold. When the account has a
  published bundle, the check succeeds only if the RSA key served is the one derived from the private
  key the device opened and the identity key served is the derived one or missing; only in the last
  case is anything written, and what is written is a bundle that verifies. Any other key served is
  \<open>OwnKeyMismatchError\<close>, with nothing written.
\<close>

theorem own_key_checked:
  assumes "sig_correct C" "sig_shapes C" "keys_me api v = (Inr published, v1)"
    and "deriveIdentityKey C (okm_protectedPrivateKey own) (okm_protectedPrivateKeyIv own) (okm_stretchedMasterKey own) = Inr identity"
  shows "(ensureIdentityPublished C api own prove v = (Inr (), v') \<longrightarrow>
      kb_publicKey published = ik_rsaPublicKeyB64 identity \<and>
      (kb_identityPublicKey published = Some (ik_publicKeyB64 identity) \<and> v' = v1 \<or>
       kb_identityPublicKey published = None \<and>
         (case prove of None \<Rightarrow> v' = v1 | Some p \<Rightarrow> publishes C api own identity p v1 v'))) \<and>
    (kb_publicKey published \<noteq> ik_rsaPublicKeyB64 identity \<or> kb_identityPublicKey published \<notin> {None, Some (ik_publicKeyB64 identity)} \<longrightarrow>
      (\<exists>what. ensureIdentityPublished C api own prove v = (Inl (OwnKeyMismatchError what), v1)))"
proof (intro conjI impI)
  assume run: "ensureIdentityPublished C api own prove v = (Inr (), v')"
  have "publishes C api own identity p v1 v'" if pr: "prove = Some p" "kb_identityPublicKey published = None" for p
  proof -
    obtain sg pw v2 where sg: "signKeyBundle C (okm_userId own) (ik_rsaPublicKeyB64 identity) (ik_secretKey identity) = Inr sg"
      and p: "p v1 = (Inr pw, v2)"
      and s: "keys_setIdentity api \<lparr>sid_identityPublicKey = ik_publicKeyB64 identity, sid_publicKeySignature = sg, sid_proof = Some pw\<rparr> v2 = (Inr (), v')"
      using run assms(3,4) pr by (auto simp: ensureIdentityPublished_def io_bind_Inr io_lift_def split: if_splits)
    have "verifyKeyBundle C \<lparr>kb_userId = okm_userId own, kb_publicKey = ik_rsaPublicKeyB64 identity,
          kb_identityPublicKey = Some (ik_publicKeyB64 identity), kb_publicKeySignature = Some sg\<rparr>"
      using signed_bundle_verifies [OF assms(1,2) sg] deriveIdentityKey_public [OF assms(4)] by simp
    with p s show ?thesis unfolding publishes_def by blast
  qed
  then show "kb_publicKey published = ik_rsaPublicKeyB64 identity"
    and "kb_identityPublicKey published = Some (ik_publicKeyB64 identity) \<and> v' = v1 \<or>
       kb_identityPublicKey published = None \<and>
         (case prove of None \<Rightarrow> v' = v1 | Some p \<Rightarrow> publishes C api own identity p v1 v')"
    using run assms(3,4) by (auto simp: ensureIdentityPublished_def split: if_splits option.splits)
qed (use assms(3,4) in \<open>auto simp: ensureIdentityPublished_def\<close>)

section \<open>A sample server\<close>

text \<open>A server that keeps one bundle and takes the identity it is sent.\<close>

definition demo_identity_api :: "KeyBundle IdentityApi" where
  "demo_identity_api = \<lparr>keys_me = (\<lambda>b. (Inr b, b)),
     keys_setIdentity = (\<lambda>req b. (Inr (), b\<lparr>kb_identityPublicKey := Some (sid_identityPublicKey req),
        kb_publicKeySignature := Some (sid_publicKeySignature req)\<rparr>))\<rparr>"

definition demo_own :: OwnKeyMaterial where
  "demo_own = \<lparr>okm_userId = demo_user, okm_protectedPrivateKey = ri_protectedPrivateKey demo_resign_identity,
     okm_protectedPrivateKeyIv = ri_protectedPrivateKeyIv demo_resign_identity,
     okm_stretchedMasterKey = ri_stretchedMasterKey demo_resign_identity\<rparr>"

definition demo_unpublished :: KeyBundle where
  "demo_unpublished = \<lparr>kb_userId = demo_user, kb_publicKey = ik_rsaPublicKeyB64 demo_derived, kb_identityPublicKey = None,
     kb_publicKeySignature = None\<rparr>"

definition demo_prove :: "(KeyBundle, js_error, PasswordProof) io" where
  "demo_prove = io_return \<lparr>pp_proofId = ''p'', pp_finishLoginRequest = ''f''\<rparr>"

theorem own_key_checked_witness:
  "(\<exists>b'. ensureIdentityPublished demo_crypto demo_identity_api demo_own (Some demo_prove) demo_unpublished = (Inr (), b') \<and>
      verifyKeyBundle demo_crypto b') \<and>
   (\<exists>what. ensureIdentityPublished demo_crypto demo_identity_api demo_own None (demo_unpublished\<lparr>kb_publicKey := ''AAEC''\<rparr>) =
      (Inl (OwnKeyMismatchError what), demo_unpublished\<lparr>kb_publicKey := ''AAEC''\<rparr>))"
proof
  have d: "deriveIdentityKey demo_crypto (okm_protectedPrivateKey demo_own) (okm_protectedPrivateKeyIv demo_own)
      (okm_stretchedMasterKey demo_own) = Inr demo_derived" using demo_derives by (simp add: demo_own_def)
  have me: "keys_me demo_identity_api b = (Inr b, b)" for b by (simp add: demo_identity_api_def)
  have k: "\<exists>bs. fromBase64 (ik_rsaPublicKeyB64 demo_derived) = Some bs" by (simp add: demo_derived_def Let_def)
  then obtain m where "bundleMessage demo_user (ik_rsaPublicKeyB64 demo_derived) = Inr m"
    using demo_values(1) by (auto simp: bundleMessage_Inr)
  then obtain b' where b': "ensureIdentityPublished demo_crypto demo_identity_api demo_own (Some demo_prove) demo_unpublished = (Inr (), b')"
    using d by (auto simp: ensureIdentityPublished_def me demo_unpublished_def signKeyBundle_def demo_prove_def demo_identity_api_def
        demo_own_def io_simps)
  from own_key_checked [OF demo_sig me [of demo_unpublished] d, where prove = "Some demo_prove" and v' = b'] b'
  have "publishes demo_crypto demo_identity_api demo_own demo_derived demo_prove demo_unpublished b'"
    by (simp add: demo_unpublished_def)
  then have "verifyKeyBundle demo_crypto b'"
    by (auto simp: publishes_def demo_prove_def demo_identity_api_def demo_unpublished_def demo_own_def io_simps)
  with b' show "\<exists>b'. ensureIdentityPublished demo_crypto demo_identity_api demo_own (Some demo_prove) demo_unpublished = (Inr (), b') \<and>
      verifyKeyBundle demo_crypto b'" by blast
  let ?other = "demo_unpublished\<lparr>kb_publicKey := ''AAEC''\<rparr>"
  have "ik_rsaPublicKeyB64 demo_derived \<noteq> ''AAEC''" by (simp add: demo_derived_def Let_def) code_simp
  then show "\<exists>what. ensureIdentityPublished demo_crypto demo_identity_api demo_own None ?other = (Inl (OwnKeyMismatchError what), ?other)"
    using own_key_checked [OF demo_sig me [of ?other] d, where prove = None] by simp
qed

end
