(* ===== verification/Local_Trust.thy ===== *)
theory Local_Trust
  imports Org_Trust Trust_Index
begin

text \<open>
  The trust state a browser keeps between sessions, \<open>packages/ui/src/lib/local-trust-state.ts\<close>: item
  revisions, pinned identity keys, organization key epochs and the organization ledger, all JSON texts
  in \<open>localStorage\<close> under names made with the account key.

  \<open>localStorage\<close> is its entries in order and whether it accepts writes; \<open>None\<close> stands for a
  context that has none. A stored text is read with the casts of the source: a member whose value does
  not have the type the cast promises (this code writes none) is left out. The revision store hands
  each of its snapshots to \<open>writeJson\<close>, so the storage is the one it started from with the
  snapshots written over it, oldest first.
\<close>

section \<open>Reading and writing\<close>

record LocalStorage =
  ls_entries :: "(string \<times> string) list"
  ls_writable :: bool

definition readJson :: "LocalStorage option \<Rightarrow> string \<Rightarrow> json \<Rightarrow> json" where
  "readJson storage key fallback =
     (case storage of
        None \<Rightarrow> fallback
      | Some ls \<Rightarrow>
          (case nonempty_opt (map_of (ls_entries ls) key) of
             None \<Rightarrow> fallback
           | Some raw \<Rightarrow> (case json_parse raw of None \<Rightarrow> fallback | Some j \<Rightarrow> j)))"

definition writeJson :: "string \<Rightarrow> json \<Rightarrow> LocalStorage option \<Rightarrow> LocalStorage option" where
  "writeJson key value storage =
     map_option (\<lambda>ls. if ls_writable ls then ls\<lparr>ls_entries := js_set key (json_print value) (ls_entries ls)\<rparr> else ls) storage"

definition removeItem :: "string \<Rightarrow> LocalStorage option \<Rightarrow> LocalStorage option" where
  "removeItem key storage = map_option (\<lambda>ls. ls\<lparr>ls_entries := js_map_delete key (ls_entries ls)\<rparr>) storage"

text \<open>The shapes the casts promise, and the values written.\<close>

definition obj_members :: "json \<Rightarrow> (string \<times> json) list" where
  "obj_members j = (case j of JObj ms \<Rightarrow> js_map_new ms | _ \<Rightarrow> [])"

definition typed_members :: "(json \<Rightarrow> 'a option) \<Rightarrow> json \<Rightarrow> (string \<times> 'a) list" where
  "typed_members f j = List.map_filter (\<lambda>(k, v). map_option (\<lambda>x. (k, x)) (f v)) (obj_members j)"

definition members_json :: "('a \<Rightarrow> json) \<Rightarrow> (string \<times> 'a) list \<Rightarrow> json" where
  "members_json g m = JObj (map (\<lambda>(k, v). (k, g v)) m)"

definition as_string :: "json \<Rightarrow> string option" where
  "as_string j = (case j of JStr s \<Rightarrow> Some s | _ \<Rightarrow> None)"

definition as_int :: "json \<Rightarrow> int option" where
  "as_int j = (case j of JNum n \<Rightarrow> Some n | _ \<Rightarrow> None)"

definition as_strings :: "json \<Rightarrow> string list option" where
  "as_strings j = (case j of JArr js \<Rightarrow> Some (List.map_filter as_string js) | _ \<Rightarrow> None)"

definition strings_json :: "string list \<Rightarrow> json" where
  "strings_json ss = JArr (map JStr ss)"

definition snapshot_json :: "RevisionSnapshot \<Rightarrow> json" where
  "snapshot_json snap = JObj [(''revisions'', members_json JNum (sn_revisions snap)), (''v2Only'', JBool (sn_v2Only snap))]"

section \<open>Legacy records\<close>

definition TRUST_INDEX_KEY :: string where "TRUST_INDEX_KEY = ''nopass:trust-index''"

record AccountIds =
  ai_vaultId :: "string option"
  ai_userId :: "string option"

fun take_records :: "string list \<Rightarrow> LocalStorage option \<Rightarrow> json list \<times> LocalStorage option" where
  "take_records [] storage = ([], storage)"
| "take_records (key # keys) storage =
     (let value = readJson storage key (JObj []);
          (values, storage') = take_records keys (removeItem key storage) in
      (value # values, storage'))"

definition legacy_index :: "string \<Rightarrow> AccountIds option \<Rightarrow> LocalStorage option \<Rightarrow> TrustIndex" where
  "legacy_index trustId accountIds storage =
     (let index = typed_members as_strings (readJson storage TRUST_INDEX_KEY (JObj [])) in
      case accountIds of
        None \<Rightarrow> index
      | Some ids \<Rightarrow> recordLegacyIds index trustId [ai_vaultId ids, ai_userId ids])"

definition takeLegacyRecords ::
  "string \<Rightarrow> string \<Rightarrow> AccountIds option \<Rightarrow> LocalStorage option \<Rightarrow> json list \<times> LocalStorage option" where
  "takeLegacyRecords pre trustId accountIds storage =
     (if storage = None then ([], None)
      else
        let index = legacy_index trustId accountIds storage;
            storage1 = (if accountIds = None then storage
                        else writeJson TRUST_INDEX_KEY (members_json strings_json index) storage);
            keys = (case storage1 of None \<Rightarrow> [] | Some ls \<Rightarrow> filter (\<lambda>k. k \<noteq> '''') (map fst (ls_entries ls))) in
        take_records (ownLegacyKeys index trustId keys pre) storage1)"

section \<open>The revision store\<close>

definition revisions_key :: "string \<Rightarrow> string" where
  "revisions_key trustId = ''nopass:item-revisions:v2:'' @ trustId"

definition stored_revisions :: "json \<Rightarrow> MemoryRevisionStore" where
  "stored_revisions j =
     new_MemoryRevisionStore (map_option (typed_members as_int) (map_of (obj_members j) ''revisions''))
       (case map_of (obj_members j) ''v2Only'' of Some (JBool b) \<Rightarrow> Some b | _ \<Rightarrow> None)"

definition record_legacy :: "json list \<Rightarrow> MemoryRevisionStore \<Rightarrow> MemoryRevisionStore" where
  "record_legacy legacy store =
     fold (\<lambda>record. fold (\<lambda>(itemId, revision). revs_record itemId revision) (typed_members as_int record)) legacy store"

text \<open>
  \<open>markerFetch\<close> is what the marker request answered: \<open>None\<close> when there is no API client or no
  token, an error, or the marker. The result is the store and the storage its own writes start from.
\<close>

definition openRevisionStore ::
  "crypto \<Rightarrow> CryptoKey \<Rightarrow> string option js option \<Rightarrow> AccountIds option \<Rightarrow> LocalStorage option \<Rightarrow>
   (MemoryRevisionStore \<times> LocalStorage option) js" where
  "openRevisionStore C vaultMacKey markerFetch accountIds storage =
     rbind (trustStateId C vaultMacKey) (\<lambda>trustId.
     let store = stored_revisions (readJson storage (revisions_key trustId) (JObj []));
         (legacy, storage1) = takeLegacyRecords ''nopass:item-revisions:'' trustId accountIds storage;
         store1 = record_legacy legacy store;
         store2 = (case markerFetch of
                     Some (Inr marker) \<Rightarrow> snd (applyV2OnlyMarker C marker vaultMacKey store1)
                   | _ \<Rightarrow> store1) in
     Inr (store2, storage1))"

definition written_snapshots :: "string \<Rightarrow> MemoryRevisionStore \<Rightarrow> LocalStorage option \<Rightarrow> LocalStorage option" where
  "written_snapshots trustId store storage =
     foldr (\<lambda>snap. writeJson (revisions_key trustId) (snapshot_json snap)) (ms_onChange store) storage"

definition publishV2Only ::
  "crypto \<Rightarrow> CryptoKey \<Rightarrow> (string \<Rightarrow> ('v, js_error, unit) io) \<Rightarrow> ('v \<times> MemoryRevisionStore, js_error, unit) io" where
  "publishV2Only C vaultMacKey setVaultFormat w =
     (case v2OnlyMarker C vaultMacKey of
        Inl e \<Rightarrow> (Inl e, w)
      | Inr marker \<Rightarrow>
          (case setVaultFormat marker (fst w) of
             (Inl e, v) \<Rightarrow> (Inl e, v, snd w)
           | (Inr _, v) \<Rightarrow> (Inr (), v, revs_markV2Only (snd w))))"

section \<open>Pins\<close>

record PinState =
  ps_pins :: "(string \<times> string) list"
  ps_storage :: "LocalStorage option"

definition pins_key :: "string \<Rightarrow> string" where
  "pins_key trustId = ''nopass:key-pins:v2:'' @ trustId"

definition add_pin :: "string \<times> string \<Rightarrow> (string \<times> string) list \<Rightarrow> (string \<times> string) list" where
  "add_pin p pins = (case map_of pins (fst p) of None \<Rightarrow> js_set (fst p) (snd p) pins | Some _ \<Rightarrow> pins)"

definition openKeyPinStore ::
  "crypto \<Rightarrow> CryptoKey \<Rightarrow> AccountIds option \<Rightarrow> LocalStorage option \<Rightarrow> (string \<times> PinState) js" where
  "openKeyPinStore C vaultMacKey accountIds storage =
     rbind (trustStateId C vaultMacKey) (\<lambda>trustId.
     let pins = typed_members as_string (readJson storage (pins_key trustId) (JObj []));
         (legacy, storage1) = takeLegacyRecords ''nopass:key-pins:'' trustId accountIds storage;
         pins1 = fold (\<lambda>record. fold add_pin (typed_members as_string record)) legacy pins;
         storage2 = (if legacy \<noteq> [] then writeJson (pins_key trustId) (members_json JStr pins1) storage1 else storage1) in
     Inr (pins_key trustId, \<lparr>ps_pins = pins1, ps_storage = storage2\<rparr>))"

definition browserPins :: "string \<Rightarrow> PinState KeyPinStore" where
  "browserPins key = \<lparr>
     pins_get = (\<lambda>s userId. map_of (ps_pins s) userId),
     pins_set = (\<lambda>userId identityPublicKeyB64 s.
       let pins = js_set userId identityPublicKeyB64 (ps_pins s) in
       \<lparr>ps_pins = pins, ps_storage = writeJson key (members_json JStr pins) (ps_storage s)\<rparr>)\<rparr>"

section \<open>Epochs\<close>

record EpochState =
  es_epochs :: "(string \<times> int) list"
  es_storage :: "LocalStorage option"

definition epochs_key :: "string \<Rightarrow> string" where
  "epochs_key trustId = ''nopass:org-epochs:v1:'' @ trustId"

definition openOrgEpochStore :: "crypto \<Rightarrow> CryptoKey \<Rightarrow> LocalStorage option \<Rightarrow> (string \<times> EpochState) js" where
  "openOrgEpochStore C vaultMacKey storage =
     rbind (trustStateId C vaultMacKey) (\<lambda>trustId.
     Inr (epochs_key trustId,
       \<lparr>es_epochs = typed_members as_int (readJson storage (epochs_key trustId) (JObj [])), es_storage = storage\<rparr>))"

definition browserEpochs :: "string \<Rightarrow> EpochState OrgEpochStore" where
  "browserEpochs key = \<lparr>
     epochs_get = (\<lambda>s orgId. map_of (es_epochs s) orgId),
     epochs_record = (\<lambda>orgId epoch s.
       if epoch \<le> (case map_of (es_epochs s) orgId of None \<Rightarrow> 0 | Some e \<Rightarrow> e) then s
       else let epochs = js_set orgId epoch (es_epochs s) in
         \<lparr>es_epochs = epochs, es_storage = writeJson key (members_json JNum epochs) (es_storage s)\<rparr>)\<rparr>"

section \<open>The organization ledger\<close>

record LedgerState =
  lg_entries :: "(string \<times> OrgLedgerEntry) list"
  lg_storage :: "LocalStorage option"

definition ledger_key :: "string \<Rightarrow> string" where
  "ledger_key trustId = ''nopass:org-ledger:v1:'' @ trustId"

definition entry_json :: "OrgLedgerEntry \<Rightarrow> json" where
  "entry_json e = JObj [(''items'', strings_json (le_items e)), (''members'', strings_json (le_members e))]"

definition as_entry :: "json \<Rightarrow> OrgLedgerEntry option" where
  "as_entry j =
     (case (map_of (obj_members j) ''items'', map_of (obj_members j) ''members'') of
        (Some is, Some ms) \<Rightarrow>
          (case (as_strings is, as_strings ms) of
             (Some items, Some members) \<Rightarrow> Some \<lparr>le_items = items, le_members = members\<rparr>
           | _ \<Rightarrow> None)
      | _ \<Rightarrow> None)"

definition openOrgLedger :: "crypto \<Rightarrow> CryptoKey \<Rightarrow> LocalStorage option \<Rightarrow> (string \<times> LedgerState) js" where
  "openOrgLedger C vaultMacKey storage =
     rbind (trustStateId C vaultMacKey) (\<lambda>trustId.
     Inr (ledger_key trustId,
       \<lparr>lg_entries = typed_members as_entry (readJson storage (ledger_key trustId) (JObj [])), lg_storage = storage\<rparr>))"

text \<open>\<open>entry\<close> adds an empty entry to the table in memory when there is none.\<close>

definition ledger_entry :: "string \<Rightarrow> LedgerState \<Rightarrow> OrgLedgerEntry \<times> LedgerState" where
  "ledger_entry orgId s =
     (case map_of (lg_entries s) orgId of
        Some e \<Rightarrow> (e, s)
      | None \<Rightarrow> (\<lparr>le_items = [], le_members = []\<rparr>,
                 s\<lparr>lg_entries := js_set orgId \<lparr>le_items = [], le_members = []\<rparr> (lg_entries s)\<rparr>))"

definition ledger_get :: "string \<Rightarrow> LedgerState \<Rightarrow> OrgLedgerEntry \<times> LedgerState" where
  "ledger_get orgId s = ledger_entry orgId s"

definition ledger_put :: "string \<Rightarrow> string \<Rightarrow> OrgLedgerEntry \<Rightarrow> LedgerState \<Rightarrow> LedgerState" where
  "ledger_put key orgId e s =
     (let entries = js_set orgId e (lg_entries s) in
      \<lparr>lg_entries = entries, lg_storage = writeJson key (members_json entry_json entries) (lg_storage s)\<rparr>)"

definition or_empty :: "string list option \<Rightarrow> string list" where
  "or_empty x = (case x of None \<Rightarrow> [] | Some l \<Rightarrow> l)"

definition ledger_remember :: "string \<Rightarrow> string \<Rightarrow> PartialLedgerEntry \<Rightarrow> LedgerState \<Rightarrow> LedgerState" where
  "ledger_remember key orgId seen s =
     (let (e, s1) = ledger_entry orgId s in
      ledger_put key orgId
        \<lparr>le_items = js_set_new (le_items e @ or_empty (pl_items seen)),
         le_members = js_set_new (le_members e @ or_empty (pl_members seen))\<rparr> s1)"

definition ledger_forget :: "string \<Rightarrow> string \<Rightarrow> PartialLedgerEntry \<Rightarrow> LedgerState \<Rightarrow> LedgerState" where
  "ledger_forget key orgId gone s =
     (let (e, s1) = ledger_entry orgId s in
      ledger_put key orgId
        \<lparr>le_items = filter (\<lambda>i. i \<notin> set (or_empty (pl_items gone))) (le_items e),
         le_members = filter (\<lambda>u. u \<notin> set (or_empty (pl_members gone))) (le_members e)\<rparr> s1)"

section \<open>Reading back what was written\<close>

lemma json_print_nonempty: "json_print j \<noteq> ''''"
proof
  assume "json_print j = ''''"
  moreover have "json_parse '''' = None" by code_simp
  ultimately show False using json_parse_print [of j] by simp
qed

lemma read_write [simp]:
  assumes "ls_writable ls"
  shows "readJson (writeJson key v (Some ls)) key' f = (if key' = key then v else readJson (Some ls) key' f)"
  using assms by (simp add: readJson_def writeJson_def nonempty_opt_def json_print_nonempty json_parse_print)

lemma writeJson_None [simp]: "writeJson key v None = None"
  by (simp add: writeJson_def)

lemma writeJson_Some: "\<exists>ls'. writeJson key v (Some ls) = Some ls' \<and> ls_writable ls' = ls_writable ls"
  by (simp add: writeJson_def)

lemma obj_members_json: "distinct (map fst m) \<Longrightarrow> obj_members (members_json g m) = map (\<lambda>(k, v). (k, g v)) m"
  by (simp add: obj_members_def members_json_def js_map_new_distinct comp_def case_prod_beta)

lemma typed_members_json:
  assumes "distinct (map fst m)" "\<And>v. f (g v) = Some v"
  shows "typed_members f (members_json g m) = m"
  using assms by (simp add: typed_members_def obj_members_json map_filter_map_filter comp_def case_prod_beta map_filter_def)

lemma typed_members_distinct [simp]: "distinct (map fst (typed_members f j))"
proof -
  have sub: "fst ` set (List.map_filter (\<lambda>(k, v). map_option (\<lambda>x. (k, x)) (f v)) ms) \<subseteq> fst ` set ms" for ms
    by (force simp: map_filter_def)
  have "distinct (map fst ms) \<Longrightarrow>
      distinct (map fst (List.map_filter (\<lambda>(k, v). map_option (\<lambda>x. (k, x)) (f v)) ms))" for ms
  proof (induction ms)
    case (Cons a ms)
    obtain k v where a: "a = (k, v)" by (cases a)
    have "k \<notin> fst ` set (List.map_filter (\<lambda>(k, v). map_option (\<lambda>x. (k, x)) (f v)) ms)"
      using Cons.prems sub [of ms] a by auto
    then show ?case using Cons by (cases "f v") (simp_all add: a map_filter_simps)
  qed (simp add: map_filter_simps)
  moreover have "distinct (map fst (obj_members j))" by (cases j) (simp_all add: obj_members_def)
  ultimately show ?thesis by (simp add: typed_members_def)
qed

lemma as_typed [simp]: "as_string (JStr s) = Some s" "as_int (JNum n) = Some n" "as_strings (strings_json ss) = Some ss"
  by (simp_all add: as_string_def as_int_def as_strings_def strings_json_def map_filter_def comp_def)

lemma as_entry_json [simp]: "as_entry (entry_json e) = Some e"
  by (cases e) (simp add: as_entry_def entry_json_def obj_members_def js_map_new_def)

section \<open>Taking legacy records\<close>

lemma read_remove [simp]: "key' \<noteq> key \<Longrightarrow> readJson (removeItem key st) key' f = readJson st key' f"
  by (simp add: readJson_def removeItem_def split: option.splits)

definition storage_ok :: "LocalStorage option \<Rightarrow> bool" where
  "storage_ok st \<longleftrightarrow> (\<exists>ls. st = Some ls \<and> ls_writable ls)"

lemma storage_ok_ops [simp]: "storage_ok (writeJson k v st) = storage_ok st" "storage_ok (removeItem k st) = storage_ok st"
  by (auto simp: storage_ok_def writeJson_def removeItem_def)

lemma read_write_ok:
  "storage_ok st \<Longrightarrow> readJson (writeJson key v st) key' f = (if key' = key then v else readJson st key' f)"
  by (auto simp: storage_ok_def)

lemma take_records_keeps:
  "key \<notin> set keys \<Longrightarrow> take_records keys st = (vs, st') \<Longrightarrow>
   readJson st' key f = readJson st key f \<and> storage_ok st' = storage_ok st"
  by (induction keys arbitrary: st vs) (auto simp: Let_def split: prod.splits)

lemma take_records_ok: "take_records keys st = (vs, st') \<Longrightarrow> storage_ok st' = storage_ok st"
  by (induction keys arbitrary: st vs) (auto simp: Let_def split: prod.splits)

text \<open>
  A record is taken only under an id the account recorded. The new stores are named by an HMAC under
  the account key, so no recorded id names one of them unless a server guessed that HMAC.
\<close>

lemma ownLegacyKeys_recorded:
  "pre @ i \<in> set (ownLegacyKeys index t keys pre) \<Longrightarrow> i \<in> recorded index t"
  by (auto simp: ownLegacyKeys_def Let_def recorded_def split: if_splits)

lemma takeLegacyRecords_runs:
  assumes "storage_ok st" "takeLegacyRecords pre t ids st = (legacy, st')"
  obtains keys where "take_records (ownLegacyKeys (legacy_index t ids st) t keys pre)
    (if ids = None then st else writeJson TRUST_INDEX_KEY (members_json strings_json (legacy_index t ids st)) st) = (legacy, st')"
  using assms unfolding takeLegacyRecords_def Let_def by (auto simp: storage_ok_def)

lemma takeLegacyRecords_keeps:
  assumes "storage_ok st" "takeLegacyRecords pre t ids st = (legacy, st')"
    "pre @ i \<noteq> TRUST_INDEX_KEY" "i \<notin> recorded (legacy_index t ids st) t"
  shows "readJson st' (pre @ i) f = readJson st (pre @ i) f \<and> storage_ok st'"
proof -
  obtain keys where take: "take_records (ownLegacyKeys (legacy_index t ids st) t keys pre)
    (if ids = None then st else writeJson TRUST_INDEX_KEY (members_json strings_json (legacy_index t ids st)) st) = (legacy, st')"
    using takeLegacyRecords_runs [OF assms(1,2)] by blast
  have "pre @ i \<notin> set (ownLegacyKeys (legacy_index t ids st) t keys pre)" using assms(4) ownLegacyKeys_recorded by blast
  from take_records_keeps [OF this take] show ?thesis
    using assms(1,3) by (auto simp: read_write_ok)
qed

lemma takeLegacyRecords_ok:
  assumes "storage_ok st" "takeLegacyRecords pre t ids st = (legacy, st')"
  shows "storage_ok st'"
proof -
  obtain keys where "take_records (ownLegacyKeys (legacy_index t ids st) t keys pre)
    (if ids = None then st else writeJson TRUST_INDEX_KEY (members_json strings_json (legacy_index t ids st)) st) = (legacy, st')"
    using takeLegacyRecords_runs [OF assms] by blast
  from take_records_ok [OF this] show ?thesis using assms(1) by simp
qed

section \<open>Revisions over a reload\<close>

inductive revs_use :: "MemoryRevisionStore \<Rightarrow> MemoryRevisionStore \<Rightarrow> bool" for s where
  start: "revs_use s s"
| recorded: "revs_use s s' \<Longrightarrow> revs_use s (revs_record i v s')"
| marked: "revs_use s s' \<Longrightarrow> revs_use s (revs_markV2Only s')"

text \<open>Whatever a session reads or upgrades changes its store in these two ways only.\<close>

lemma decryptVaultItem_uses:
  assumes "revs_use s0 s" "decryptVaultItem C e b keys (Some s) = (r, Some s')"
  shows "revs_use s0 s'"
  using decryptVaultItem_store [OF assms(2)] assms(1) by (auto split: sum.splits intro: revs_use.recorded)

lemma applyV2OnlyMarker_uses:
  assumes "revs_use s0 s"
  shows "revs_use s0 (snd (applyV2OnlyMarker C m k s))"
  using assms by (auto simp: applyV2OnlyMarker_def Let_def intro: revs_use.marked split: option.splits)

lemma revs_use_trans: "revs_use s s' \<Longrightarrow> revs_use s' s'' \<Longrightarrow> revs_use s s''"
  by (rotate_tac, induction rule: revs_use.induct) (auto intro: revs_use.intros)

lemma record_legacy_uses: "revs_use s (record_legacy legacy s)"
proof -
  have one: "revs_use s (fold (\<lambda>(i, v). revs_record i v) kvs s')" if "revs_use s s'" for kvs s'
    using that by (induction kvs arbitrary: s') (auto intro: revs_use.recorded)
  have "revs_use s (fold (\<lambda>record. fold (\<lambda>(i, v). revs_record i v) (typed_members as_int record)) legacy s')" if "revs_use s s'" for s'
    using that by (induction legacy arbitrary: s') (auto intro: one)
  then show ?thesis by (simp add: record_legacy_def revs_use.start)
qed

definition revs_ok :: "RevisionSnapshot \<Rightarrow> MemoryRevisionStore \<Rightarrow> bool" where
  "revs_ok initial s \<longleftrightarrow> revs_persisted initial s \<and> distinct (map fst (ms_revisions s))"

lemma revs_use_ok:
  assumes "revs_use s s'" "revs_ok initial s"
  shows "revs_ok initial s'"
  using assms
  by (induction rule: revs_use.induct)
     (auto simp: revs_ok_def, auto simp: revs_record_def revs_markV2Only_def revs_notify_def)

lemma revs_use_mono:
  "revs_use s s' \<Longrightarrow> mark_le (revs_get s i) (revs_get s' i) \<and> (revs_v2Only s \<longrightarrow> revs_v2Only s')"
proof (induction rule: revs_use.induct)
  case (recorded s' j v)
  moreover have "mark_le (revs_get s' i) (revs_get (revs_record j v s') i)"
    by (cases "revs_get s' i") (auto simp: revs_get_record)
  ultimately show ?case by (auto intro: mark_le_trans)
qed simp_all

lemma stored_revisions_snapshot:
  assumes "distinct (map fst (sn_revisions snap))"
  shows "revs_toJSON (stored_revisions (snapshot_json snap)) = snap"
  using assms
  by (cases snap) (simp add: stored_revisions_def snapshot_json_def obj_members_def js_map_new_def [of "[_, _]"]
      typed_members_json new_MemoryRevisionStore_def revs_toJSON_def js_map_new_distinct)

lemma stored_revisions_ok: "revs_ok (revs_toJSON (stored_revisions j)) (stored_revisions j)"
  by (simp add: revs_ok_def stored_revisions_def revs_persisted_new) (simp add: new_MemoryRevisionStore_def)

lemma openRevisionStore_Inr:
  assumes "openRevisionStore C k fetched ids st = Inr (s, st1)" "trustStateId C k = Inr t"
  shows "revs_use (stored_revisions (readJson st (revisions_key t) (JObj []))) s \<and>
    (\<exists>legacy. takeLegacyRecords ''nopass:item-revisions:'' t ids st = (legacy, st1))"
  using assms
  by (auto simp: openRevisionStore_def Let_def intro: record_legacy_uses applyV2OnlyMarker_uses
      split: prod.splits option.splits sum.splits)

lemma written_snapshots_ok: "storage_ok (written_snapshots t s st) = storage_ok st"
proof -
  have "storage_ok (foldr (\<lambda>snap. writeJson k (snapshot_json snap)) log st) = storage_ok st" for k log
    by (induction log) simp_all
  then show ?thesis by (simp add: written_snapshots_def)
qed

lemma read_written_snapshots:
  assumes "storage_ok st"
  shows "readJson (written_snapshots t s st) (revisions_key t) f =
    (case ms_onChange s of [] \<Rightarrow> readJson st (revisions_key t) f | snap # _ \<Rightarrow> snapshot_json snap)"
proof (cases "ms_onChange s")
  case (Cons snap log)
  have "storage_ok (foldr (\<lambda>snap. writeJson k (snapshot_json snap)) log st)" for k
    using assms by (induction log) simp_all
  then show ?thesis using Cons by (simp add: written_snapshots_def read_write_ok)
qed (simp add: written_snapshots_def)

text \<open>A store opened from storage and used: what is in storage decodes to the store's marks.\<close>

lemma session_persists:
  assumes "storage_ok st" "trustStateId C k = Inr t" "openRevisionStore C k fetched ids st = Inr (s0, st0)"
    and "''v2:'' @ t \<notin> recorded (legacy_index t ids st) t" "revs_use s0 s1"
  shows "revs_toJSON (stored_revisions (readJson (written_snapshots t s1 st0) (revisions_key t) (JObj []))) = revs_toJSON s1 \<and>
    storage_ok (written_snapshots t s1 st0)"
proof -
  let ?j = "readJson st (revisions_key t) (JObj [])"
  obtain legacy where use0: "revs_use (stored_revisions ?j) s0"
    and take: "takeLegacyRecords ''nopass:item-revisions:'' t ids st = (legacy, st0)"
    using openRevisionStore_Inr [OF assms(3,2)] by blast
  have ok: "revs_ok (revs_toJSON (stored_revisions ?j)) s1"
    using revs_use_ok revs_use_trans [OF use0 assms(5)] stored_revisions_ok by blast
  have kept: "readJson st0 (revisions_key t) (JObj []) = ?j" "storage_ok st0"
    using takeLegacyRecords_keeps [OF assms(1) take, of "''v2:'' @ t" "JObj []"] assms(4)
    by (simp_all add: revisions_key_def TRUST_INDEX_KEY_def)
  show ?thesis
  proof (cases "ms_onChange s1")
    case Nil
    then have "revs_toJSON s1 = revs_toJSON (stored_revisions ?j)" using ok by (simp add: revs_ok_def revs_persisted_def)
    then show ?thesis using kept Nil by (simp add: read_written_snapshots written_snapshots_ok)
  next
    case (Cons snap log)
    then have snap: "snap = revs_toJSON s1" using ok by (simp add: revs_ok_def revs_persisted_def)
    have "distinct (map fst (sn_revisions snap))" using ok by (simp add: snap revs_ok_def revs_toJSON_def)
    then show ?thesis using kept Cons snap stored_revisions_snapshot
      by (simp add: read_written_snapshots written_snapshots_ok)
  qed
qed

lemma revs_toJSON_observed: "revs_toJSON s = revs_toJSON s' \<Longrightarrow> revs_get s i = revs_get s' i \<and> revs_v2Only s = revs_v2Only s'"
  by (simp add: revs_toJSON_def revs_get_def revs_v2Only_def)

text \<open>
  C24. Rollback protection survives a reload. Whatever a session did with its revision store (any
  reads, writes and markers), a store opened later for the same account from what the browser then
  holds, with whatever ids and marker the server supplies, knows every item at least at the revision
  the session had seen, and is v2-only if the session was.
\<close>

theorem rollback_protection_survives_reload:
  assumes "storage_ok st" "trustStateId C k = Inr t" "openRevisionStore C k fetched ids st = Inr (s0, st0)"
    and "''v2:'' @ t \<notin> recorded (legacy_index t ids st) t" "revs_use s0 s1"
    and "openRevisionStore C k fetched' ids' (written_snapshots t s1 st0) = Inr (s2, st2)"
  shows "mark_le (revs_get s1 i) (revs_get s2 i) \<and> (revs_v2Only s1 \<longrightarrow> revs_v2Only s2)"
proof -
  let ?r = "stored_revisions (readJson (written_snapshots t s1 st0) (revisions_key t) (JObj []))"
  have "revs_use ?r s2" using openRevisionStore_Inr [OF assms(6,2)] by blast
  moreover have "revs_get ?r i = revs_get s1 i \<and> revs_v2Only ?r = revs_v2Only s1"
    using session_persists [OF assms(1-5)] revs_toJSON_observed by blast
  ultimately show ?thesis using revs_use_mono [of ?r s2 i] by simp
qed

section \<open>Pins over a reload\<close>

interpretation browser_pins: key_pin_store "browserPins key" for key
  by unfold_locales (simp add: browserPins_def Let_def)

definition pin_synced :: "string \<Rightarrow> PinState \<Rightarrow> bool" where
  "pin_synced key s \<longleftrightarrow> storage_ok (ps_storage s) \<and> distinct (map fst (ps_pins s)) \<and>
     typed_members as_string (readJson (ps_storage s) key (JObj [])) = ps_pins s"

lemma pin_synced_set: "pin_synced key s \<Longrightarrow> pin_synced key (pins_set (browserPins key) u i s)"
  by (simp add: pin_synced_def browserPins_def Let_def read_write_ok typed_members_json)

lemma pin_synced_confirm: "pin_synced key s \<Longrightarrow> pin_synced key (snd (confirmKey C (browserPins key) b s))"
  by (simp add: confirmKey_def pin_synced_set split: sum.splits)

lemma pin_synced_confirm_all: "pin_synced key s \<Longrightarrow> pin_synced key (browser_pins.confirm_all key C bs s)"
  by (induction bs arbitrary: s) (simp_all add: browser_pins.confirm_all_def pin_synced_confirm)

lemma add_pin_props:
  "distinct (map fst pins) \<Longrightarrow> distinct (map fst (add_pin p pins))"
  "map_of pins u = Some i \<Longrightarrow> map_of (add_pin p pins) u = Some i"
  by (auto simp: add_pin_def split: option.splits)

lemma add_pins_props:
  "distinct (map fst pins) \<Longrightarrow> distinct (map fst (fold (\<lambda>r. fold add_pin (typed_members as_string r)) legacy pins))"
  "map_of pins u = Some i \<Longrightarrow> map_of (fold (\<lambda>r. fold add_pin (typed_members as_string r)) legacy pins) u = Some i"
proof -
  have "distinct (map fst pins) \<Longrightarrow> distinct (map fst (fold add_pin ps pins))" for ps pins
    by (induction ps arbitrary: pins) (simp_all add: add_pin_props)
  then show "distinct (map fst pins) \<Longrightarrow> distinct (map fst (fold (\<lambda>r. fold add_pin (typed_members as_string r)) legacy pins))"
    by (induction legacy arbitrary: pins) simp_all
  have "map_of pins u = Some i \<Longrightarrow> map_of (fold add_pin ps pins) u = Some i" for ps pins
    by (induction ps arbitrary: pins) (simp_all add: add_pin_props)
  then show "map_of pins u = Some i \<Longrightarrow> map_of (fold (\<lambda>r. fold add_pin (typed_members as_string r)) legacy pins) u = Some i"
    by (induction legacy arbitrary: pins) simp_all
qed

lemma openKeyPinStore_props:
  assumes "storage_ok st" "trustStateId C k = Inr t" "openKeyPinStore C k ids st = Inr (key, s)"
  shows "key = pins_key t"
    and "map_of (typed_members as_string (readJson st (pins_key t) (JObj []))) u = Some i \<Longrightarrow> pins_get (browserPins key) s u = Some i"
    and "''v2:'' @ t \<notin> recorded (legacy_index t ids st) t \<Longrightarrow> pin_synced key s"
proof -
  obtain legacy st1 where take: "takeLegacyRecords ''nopass:key-pins:'' t ids st = (legacy, st1)" by fastforce
  let ?read = "typed_members as_string (readJson st (pins_key t) (JObj []))"
  let ?pins = "fold (\<lambda>r. fold add_pin (typed_members as_string r)) legacy ?read"
  have s: "key = pins_key t" "s = \<lparr>ps_pins = ?pins,
      ps_storage = (if legacy \<noteq> [] then writeJson (pins_key t) (members_json JStr ?pins) st1 else st1)\<rparr>"
    using assms(2,3) by (auto simp: openKeyPinStore_def Let_def take)
  then show "key = pins_key t" by simp
  show "map_of ?read u = Some i \<Longrightarrow> pins_get (browserPins key) s u = Some i"
    using add_pins_props(2) by (simp add: s browserPins_def)
  assume "''v2:'' @ t \<notin> recorded (legacy_index t ids st) t"
  then have kept: "readJson st1 (pins_key t) (JObj []) = readJson st (pins_key t) (JObj [])" "storage_ok st1"
    using takeLegacyRecords_keeps [OF assms(1) take, of "''v2:'' @ t" "JObj []"]
    by (simp_all add: pins_key_def TRUST_INDEX_KEY_def)
  have d: "distinct (map fst ?pins)" by (rule add_pins_props(1)) simp
  show "pin_synced key s"
  proof (cases "legacy = []")
    case False
    then show ?thesis using kept d by (simp add: pin_synced_def s read_write_ok typed_members_json)
  qed (use kept in \<open>simp add: pin_synced_def s\<close>)
qed

text \<open>
  C25. A confirmed identity key is final, also across reloads. After the user confirmed someone's
  bundle, whatever else is confirmed later and after the browser reloads the pins under whatever ids
  the server supplies, a self-signed bundle for that user is accepted as known if it has the same
  identity key, and refused with \<open>PinnedKeyChangedError\<close> if it has another.
\<close>

theorem confirmed_identity_is_final:
  assumes "storage_ok st" "trustStateId C k = Inr t" "openKeyPinStore C k ids st = Inr (key, s0)"
    and "''v2:'' @ t \<notin> recorded (legacy_index t ids st) t"
    and "confirmKey C (browserPins key) b (browser_pins.confirm_all key C earlier s0) = (Inr (), s1)"
    and "openKeyPinStore C k ids' (ps_storage (browser_pins.confirm_all key C later s1)) = Inr (key', s2)"
    and "kb_userId b' = kb_userId b" "verifyKeyBundle C b'"
  shows "(kb_identityPublicKey b' = kb_identityPublicKey b \<longrightarrow>
      (\<exists>v. verifyMemberKey C b' (pins_get (browserPins key') s2) = Inr v \<and> \<not> vk_firstSeen v)) \<and>
    (kb_identityPublicKey b' \<noteq> kb_identityPublicKey b \<longrightarrow>
      verifyMemberKey C b' (pins_get (browserPins key') s2) = Inl (PinnedKeyChangedError (kb_userId b)))"
proof -
  let ?e = "browser_pins.confirm_all key C earlier s0" and ?l = "browser_pins.confirm_all key C later s1"
  have key: "key = pins_key t" and "pin_synced key s0" using openKeyPinStore_props [OF assms(1-3)] assms(4) by auto
  then have "pin_synced key s1" using pin_synced_confirm [of key ?e C b] pin_synced_confirm_all assms(5) by simp
  then have sync: "pin_synced key ?l" by (rule pin_synced_confirm_all)
  obtain i where i: "kb_identityPublicKey b = Some i" "pins_get (browserPins key) s1 (kb_userId b) = Some i"
    using browser_pins.confirm_result [OF assms(5)] by (auto simp: verifyKeyBundle_iff nonempty_opt_Some)
  then have "map_of (ps_pins ?l) (kb_userId b) = Some i"
    using browser_pins.confirm_all_keeps by (fastforce simp: browserPins_def)
  then have "pins_get (browserPins key') s2 (kb_userId b) = Some i"
    using openKeyPinStore_props(2) [OF _ assms(2,6)] sync key by (simp add: pin_synced_def)
  then show ?thesis using i assms(7) verifyMemberKey_signed [OF assms(8), of "pins_get (browserPins key') s2"] by auto
qed

section \<open>Epochs over a reload\<close>

interpretation browser_epochs: high_water "epochs_get (browserEpochs key)" "epochs_record (browserEpochs key)" 0 for key
  by unfold_locales (simp add: browserEpochs_def Let_def opt_mark_def)

definition epoch_synced :: "string \<Rightarrow> EpochState \<Rightarrow> bool" where
  "epoch_synced key s \<longleftrightarrow> storage_ok (es_storage s) \<and> distinct (map fst (es_epochs s)) \<and>
     typed_members as_int (readJson (es_storage s) key (JObj [])) = es_epochs s"

lemma epoch_synced_record: "epoch_synced key s \<Longrightarrow> epoch_synced key (epochs_record (browserEpochs key) orgId e s)"
  by (simp add: epoch_synced_def browserEpochs_def Let_def read_write_ok typed_members_json)

lemma epoch_synced_open:
  assumes "storage_ok st" "openOrgEpochStore C k st = Inr (key, s)"
  shows "epoch_synced key s \<and> es_epochs s = typed_members as_int (readJson st key (JObj []))"
  using assms by (auto simp: openOrgEpochStore_def rbind_eq_Inr epoch_synced_def)

text \<open>What a browser does with its epochs: served keys are opened, and the page is reloaded.\<close>

inductive epoch_use :: "crypto \<Rightarrow> CryptoKey \<Rightarrow> string \<Rightarrow> EpochState \<Rightarrow> EpochState \<Rightarrow> bool" for C k key s where
  start: "epoch_use C k key s s"
| opened: "epoch_use C k key s s' \<Longrightarrow>
    openOrgKey C orgId chain me role pinned_for (browserEpochs key) decrypt s' = (r, s'') \<Longrightarrow> epoch_use C k key s s''"
| reloaded: "epoch_use C k key s s' \<Longrightarrow> openOrgEpochStore C k (es_storage s') = Inr (key, s'') \<Longrightarrow> epoch_use C k key s s''"

lemma openOrgKey_epochs:
  assumes "openOrgKey C orgId chain me role pinned_for epochs decrypt s = (r, s')"
  shows "s' = s \<or> (\<exists>e. s' = epochs_record epochs orgId e s)"
  using assms by (auto simp: openOrgKey_def Let_def split: OrgKeyCheck.splits sum.splits)

lemma epoch_use_synced: "epoch_use C k key s s' \<Longrightarrow> epoch_synced key s \<Longrightarrow> epoch_synced key s'"
proof (induction rule: epoch_use.induct)
  case (opened s' orgId chain me role pinned_for decrypt r s'')
  then show ?case using openOrgKey_epochs [OF opened.hyps(2)] epoch_synced_record by auto
next
  case (reloaded s' s'')
  then show ?case using epoch_synced_open by (auto simp: epoch_synced_def)
qed

lemma epoch_use_mono:
  "epoch_use C k key s s' \<Longrightarrow> epoch_synced key s \<Longrightarrow>
   mark_le (epochs_get (browserEpochs key) s orgId) (epochs_get (browserEpochs key) s' orgId)"
proof (induction rule: epoch_use.induct)
  case (opened s' orgId' chain me role pinned_for decrypt r s'')
  then show ?case
    using openOrgKey_epochs [OF opened.hyps(2)] browser_epochs.record_never_lowers mark_le_trans by blast
next
  case (reloaded s' s'')
  then have "epoch_synced key s'" using epoch_use_synced by blast
  then have "es_epochs s'' = es_epochs s'" using reloaded.hyps(2) epoch_synced_open by (auto simp: epoch_synced_def)
  then show ?case using reloaded by (simp add: browserEpochs_def)
qed simp

lemma vouched_epoch: "vouched C pinned_for orgId e w \<Longrightarrow> 1 \<le> e"
  by (cases rule: vouched.cases, assumption) (auto simp: signed_by_pin_def checkSignature_iff wrapMessage_Inr)

lemma opened_epoch_recorded:
  assumes "openOrgKey C orgId chain me role pinned_for (browserEpochs key) decrypt s = (Inr (CheckOk w, ok), s')"
  shows "mark_le (epochs_get (browserEpochs key) s orgId) (Some (kw_epoch w)) \<and>
    epochs_get (browserEpochs key) s' orgId = Some (kw_epoch w)"
proof -
  have chk: "checkOrgKey C orgId chain me role pinned_for (epochs_get (browserEpochs key) s) = CheckOk w"
    and s': "s' = epochs_record (browserEpochs key) orgId (kw_epoch w) s"
    using assms by (auto simp: openOrgKey_def Let_def split: OrgKeyCheck.splits sum.splits)
  from chk have v: "vouched C pinned_for orgId (kw_epoch w) w"
    and h: "\<forall>h. epochs_get (browserEpochs key) s orgId = Some h \<longrightarrow> h \<le> kw_epoch w"
    using checkOrgKey_ok [OF chk] chain_loop_vouches unfolding verifyOrgKeyChain_Inr by fastforce+
  show ?thesis using h vouched_epoch [OF v]
    by (cases "epochs_get (browserEpochs key) s orgId") (auto simp: s' browser_epochs.get_record)
qed

text \<open>
  An organization's key never goes back to an older epoch on a device. Whatever organization keys
  the server serves in between, and however often the page is reloaded, a key opened for an
  organization is of at least the epoch of every key opened for it before.
\<close>

theorem org_epoch_never_rolls_back:
  assumes "storage_ok st" "openOrgEpochStore C k st = Inr (key, s0)" "epoch_use C k key s0 s1"
    and "openOrgKey C orgId chain me role pinned_for (browserEpochs key) decrypt s1 = (Inr (CheckOk w, ok), s2)"
    and "epoch_use C k key s2 s3"
    and "openOrgKey C orgId chain' me' role' pinned_for' (browserEpochs key) decrypt' s3 = (Inr (CheckOk w', ok'), s4)"
  shows "kw_epoch w \<le> kw_epoch w'"
proof -
  have "epoch_synced key s1" using assms(1-3) epoch_synced_open epoch_use_synced by blast
  then have sync: "epoch_synced key s2" using openOrgKey_epochs [OF assms(4)] epoch_synced_record by auto
  have "mark_le (Some (kw_epoch w)) (epochs_get (browserEpochs key) s3 orgId)"
    using epoch_use_mono [OF assms(5) sync, of orgId] opened_epoch_recorded [OF assms(4)] by simp
  moreover have "mark_le (epochs_get (browserEpochs key) s3 orgId) (Some (kw_epoch w'))"
    using opened_epoch_recorded [OF assms(6)] by simp
  ultimately show ?thesis using mark_le_trans by fastforce
qed

section \<open>The ledger as a table of known sets\<close>

text \<open>
  What the ledger promises its callers: for each organization a set of items and a set of members,
  \<open>remember\<close> adds to them, \<open>forget\<close> takes away, and a reload changes neither.
\<close>

definition entry_of :: "(string \<times> OrgLedgerEntry) list \<Rightarrow> string \<Rightarrow> OrgLedgerEntry" where
  "entry_of entries orgId = (case map_of entries orgId of None \<Rightarrow> \<lparr>le_items = [], le_members = []\<rparr> | Some e \<Rightarrow> e)"

definition known :: "LedgerState \<Rightarrow> string \<Rightarrow> string set \<times> string set" where
  "known s orgId = (set (le_items (entry_of (lg_entries s) orgId)), set (le_members (entry_of (lg_entries s) orgId)))"

definition seen_sets :: "PartialLedgerEntry \<Rightarrow> string set \<times> string set" where
  "seen_sets p = (set (or_empty (pl_items p)), set (or_empty (pl_members p)))"

definition ledger_synced :: "string \<Rightarrow> LedgerState \<Rightarrow> bool" where
  "ledger_synced key s \<longleftrightarrow> storage_ok (lg_storage s) \<and> distinct (map fst (lg_entries s)) \<and>
     (\<forall>orgId. entry_of (typed_members as_entry (readJson (lg_storage s) key (JObj []))) orgId = entry_of (lg_entries s) orgId)"

lemma entry_of_js_set [simp]: "entry_of (js_set orgId e m) orgId' = (if orgId' = orgId then e else entry_of m orgId')"
  by (simp add: entry_of_def)

lemma ledger_entry_props:
  assumes "ledger_entry orgId s = (e, s')"
  shows "e = entry_of (lg_entries s) orgId" "entry_of (lg_entries s') = entry_of (lg_entries s)"
    "lg_storage s' = lg_storage s" "distinct (map fst (lg_entries s)) \<Longrightarrow> distinct (map fst (lg_entries s'))"
proof -
  have e: "e = entry_of (lg_entries s) orgId" "lg_storage s' = lg_storage s"
    "lg_entries s' = lg_entries s \<or> lg_entries s' = js_set orgId (entry_of (lg_entries s) orgId) (lg_entries s)"
    using assms by (auto simp: ledger_entry_def entry_of_def split: option.splits)
  then show "e = entry_of (lg_entries s) orgId" "lg_storage s' = lg_storage s" "entry_of (lg_entries s') = entry_of (lg_entries s)"
    "distinct (map fst (lg_entries s)) \<Longrightarrow> distinct (map fst (lg_entries s'))" by (auto simp: fun_eq_iff)
qed

lemma ledger_put_synced: "storage_ok (lg_storage s) \<Longrightarrow> distinct (map fst (lg_entries s)) \<Longrightarrow> ledger_synced key (ledger_put key orgId e s)"
  by (simp add: ledger_synced_def ledger_put_def Let_def read_write_ok typed_members_json)

lemma ledger_put_entries [simp]: "lg_entries (ledger_put key orgId e s) = js_set orgId e (lg_entries s)"
  by (simp add: ledger_put_def Let_def)

lemma ledger_put_after_entry:
  assumes "ledger_synced key s" "ledger_entry orgId s = (e, s')"
  shows "ledger_synced key (ledger_put key orgId e' s')"
  using assms ledger_entry_props [OF assms(2)] by (intro ledger_put_synced) (simp_all add: ledger_synced_def)

lemma ledger_get_props:
  assumes "ledger_get orgId s = (e, s')"
  shows "(set (le_items e), set (le_members e)) = known s orgId" "known s' = known s"
    "ledger_synced key s \<Longrightarrow> ledger_synced key s'"
  using ledger_entry_props [OF assms [unfolded ledger_get_def]] by (simp_all add: known_def fun_eq_iff ledger_synced_def)

lemma known_remember:
  "known (ledger_remember key orgId seen s) orgId' =
     (if orgId' = orgId then (fst (known s orgId) \<union> fst (seen_sets seen), snd (known s orgId) \<union> snd (seen_sets seen))
      else known s orgId')"
proof (cases "ledger_entry orgId s")
  case (Pair e s')
  from ledger_entry_props [OF Pair] show ?thesis
    by (simp add: ledger_remember_def Pair known_def seen_sets_def)
qed

lemma known_forget:
  "known (ledger_forget key orgId gone s) orgId' =
     (if orgId' = orgId then (fst (known s orgId) - fst (seen_sets gone), snd (known s orgId) - snd (seen_sets gone))
      else known s orgId')"
proof (cases "ledger_entry orgId s")
  case (Pair e s')
  from ledger_entry_props [OF Pair] show ?thesis
    by (auto simp: ledger_forget_def Pair known_def seen_sets_def)
qed

lemma ledger_synced_ops:
  assumes "ledger_synced key s"
  shows "ledger_synced key (ledger_remember key orgId seen s)" "ledger_synced key (ledger_forget key orgId seen s)"
proof -
  obtain e s' where e: "ledger_entry orgId s = (e, s')" by fastforce
  show "ledger_synced key (ledger_remember key orgId seen s)" "ledger_synced key (ledger_forget key orgId seen s)"
    using ledger_put_after_entry [OF assms e] by (simp_all add: ledger_remember_def ledger_forget_def e)
qed

lemma openOrgLedger_synced:
  assumes "storage_ok st" "openOrgLedger C k st = Inr (key, s)"
  shows "ledger_synced key s"
  using assms by (auto simp: openOrgLedger_def rbind_eq_Inr ledger_synced_def)

lemma openOrgLedger_known:
  assumes "ledger_synced key s" "openOrgLedger C k (lg_storage s) = Inr (key, s')"
  shows "known s' = known s \<and> ledger_synced key s'"
  using assms openOrgLedger_synced [OF _ assms(2)]
  by (auto simp: openOrgLedger_def rbind_eq_Inr ledger_synced_def known_def fun_eq_iff)

text \<open>
  The ledger's contract: per organization a set of items and a set of members, with union and difference
  as the only changes; reading and reloading the page change nothing.
\<close>

type_synonym knowledge = "string \<Rightarrow> string set \<times> string set"

datatype LedgerOp =
    GetOp string
  | RememberOp string PartialLedgerEntry
  | ForgetOp string PartialLedgerEntry
  | ReloadOp

fun spec_op :: "LedgerOp \<Rightarrow> knowledge \<Rightarrow> knowledge" where
  "spec_op (GetOp orgId) K = K"
| "spec_op (RememberOp orgId seen) K =
     K(orgId := (fst (K orgId) \<union> fst (seen_sets seen), snd (K orgId) \<union> snd (seen_sets seen)))"
| "spec_op (ForgetOp orgId gone) K =
     K(orgId := (fst (K orgId) - fst (seen_sets gone), snd (K orgId) - snd (seen_sets gone)))"
| "spec_op ReloadOp K = K"

fun ledger_op :: "crypto \<Rightarrow> CryptoKey \<Rightarrow> string \<Rightarrow> LedgerOp \<Rightarrow> LedgerState \<Rightarrow> LedgerState" where
  "ledger_op C k key (GetOp orgId) s = snd (ledger_get orgId s)"
| "ledger_op C k key (RememberOp orgId seen) s = ledger_remember key orgId seen s"
| "ledger_op C k key (ForgetOp orgId gone) s = ledger_forget key orgId gone s"
| "ledger_op C k key ReloadOp s = (case openOrgLedger C k (lg_storage s) of Inr (_, s') \<Rightarrow> s' | Inl _ \<Rightarrow> s)"

lemma ledger_op_refines:
  assumes "ledger_synced key s" "trustStateId C k = Inr t" "key = ledger_key t"
  shows "known (ledger_op C k key op s) = spec_op op (known s) \<and> ledger_synced key (ledger_op C k key op s)"
proof (cases op)
  case (GetOp orgId)
  then show ?thesis
    using ledger_get_props [of orgId s "fst (ledger_get orgId s)" "snd (ledger_get orgId s)"] assms(1) by simp
next
  case ReloadOp
  obtain s' where o: "openOrgLedger C k (lg_storage s) = Inr (key, s')" using assms(2,3) by (simp add: openOrgLedger_def)
  then show ?thesis using openOrgLedger_known [OF assms(1) o] ReloadOp by simp
qed (simp_all add: fun_eq_iff known_remember known_forget ledger_synced_ops [OF assms(1)])

text \<open>
  C26. The ledger implements its contract. From a ledger opened on a storage that keeps what is written to
  it, any sequence of reads, \<open>remember\<close>, \<open>forget\<close> and reloads of the page leaves exactly the items
  and members that unions and differences of sets would, for every organization, and \<open>get\<close> returns
  them.
\<close>

theorem ledger_refines_sets:
  assumes "storage_ok st" "openOrgLedger C k st = Inr (key, l0)"
  shows "known (fold (ledger_op C k key) ops l0) = fold spec_op ops (known l0) \<and>
    (\<forall>orgId. let e = fst (ledger_get orgId (fold (ledger_op C k key) ops l0)) in
       (set (le_items e), set (le_members e)) = fold spec_op ops (known l0) orgId)"
proof -
  obtain t where t: "trustStateId C k = Inr t" "key = ledger_key t" using assms(2) by (auto simp: openOrgLedger_def rbind_eq_Inr)
  have "known (fold (ledger_op C k key) ops s) = fold spec_op ops (known s) \<and> ledger_synced key (fold (ledger_op C k key) ops s)"
    if "ledger_synced key s" for s
    using that
  proof (induction ops arbitrary: s)
    case (Cons op ops)
    then show ?case using ledger_op_refines [OF Cons.prems t, of op] by simp
  qed simp
  from this [OF openOrgLedger_synced [OF assms]] show ?thesis
    using ledger_get_props(1) [OF prod.collapse [symmetric], of _ "fold (ledger_op C k key) ops l0"] by (simp add: Let_def)
qed

text \<open>
  What a browser does with its ledger, and the item that none of the recorded deletions names.
\<close>

inductive ledger_use :: "crypto \<Rightarrow> CryptoKey \<Rightarrow> string \<Rightarrow> string \<Rightarrow> string \<Rightarrow> LedgerState \<Rightarrow> LedgerState \<Rightarrow> bool"
  for C k key orgId itemId s where
  start: "ledger_use C k key orgId itemId s s"
| looked: "ledger_use C k key orgId itemId s s' \<Longrightarrow> ledger_use C k key orgId itemId s (snd (ledger_get org s'))"
| remembered: "ledger_use C k key orgId itemId s s' \<Longrightarrow> ledger_use C k key orgId itemId s (ledger_remember key org seen s')"
| forgot: "ledger_use C k key orgId itemId s s' \<Longrightarrow> org = orgId \<longrightarrow> itemId \<notin> fst (seen_sets gone) \<Longrightarrow>
    ledger_use C k key orgId itemId s (ledger_forget key org gone s')"
| reloaded: "ledger_use C k key orgId itemId s s' \<Longrightarrow> openOrgLedger C k (lg_storage s') = Inr (key, s'') \<Longrightarrow>
    ledger_use C k key orgId itemId s s''"

lemma ledger_use_keeps:
  "ledger_use C k key orgId itemId s s' \<Longrightarrow> ledger_synced key s \<Longrightarrow> itemId \<in> fst (known s orgId) \<Longrightarrow>
   ledger_synced key s' \<and> itemId \<in> fst (known s' orgId)"
proof (induction rule: ledger_use.induct)
  case (looked s' org)
  then show ?case using ledger_get_props [of org s' "fst (ledger_get org s')" "snd (ledger_get org s')"] by simp
next
  case (reloaded s' s'')
  then show ?case using openOrgLedger_known by metis
qed (auto simp: known_remember known_forget ledger_synced_ops)

text \<open>
  An item a device has opened cannot vanish from a rotation unnoticed. Once
  \<open>recordVerifiedOrgItems\<close> verified an item of an organization, then whatever the ledger is used
  for afterwards, reloads included, as long as the device was not told to forget that item, a rotation
  built from the ledger refuses a list of items without it, naming it in
  \<open>RotationSetIncompleteError\<close>, unless the owner drops it or acknowledged its absence.
\<close>

theorem verified_item_cannot_vanish:
  assumes "storage_ok st" "openOrgLedger C k st = Inr (key, l0)"
    and "recordVerifiedOrgItems C orgId items ring (ledger_remember key) s l0 = ((verified, failed), s1, l1)"
    and "itemId \<in> set verified" "ledger_use C k key orgId itemId l1 l2" "ledger_get orgId l2 = (ro_known input, l3)"
    and "itemId \<notin> ev_id ` set (ro_items input)" "itemId \<notin> set (ro_dropItemIds input)"
    and "itemId \<notin> set (le_items (ro_acknowledgedGone input))"
  shows "\<exists>missing members. buildRotation C' rnd input s' = (Inl (RotationSetIncompleteError missing members), s') \<and> itemId \<in> set missing"
proof -
  have l1: "l1 = ledger_remember key orgId \<lparr>pl_items = Some verified, pl_members = None\<rparr> l0"
    using assms(3) by (auto simp: recordVerifiedOrgItems_def split: prod.splits)
  have "itemId \<in> fst (known l1 orgId)" using assms(4) by (simp add: l1 known_remember seen_sets_def or_empty_def)
  moreover have "ledger_synced key l1" using openOrgLedger_synced [OF assms(1,2)] ledger_synced_ops by (simp add: l1)
  ultimately have "itemId \<in> fst (known l2 orgId)" using ledger_use_keeps [OF assms(5)] by simp
  then have "itemId \<in> set (le_items (ro_known input))" using ledger_get_props(1) [OF assms(6)] by (metis fst_conv)
  then have "itemId \<in> set (gone_items input)" using assms(7,8) by (simp add: gone_items_def)
  then show ?thesis using assms(9) by (auto simp: buildRotation_def Let_def filter_empty_conv)
qed

section \<open>Sample sessions\<close>

definition demo_storage :: "LocalStorage option" where
  "demo_storage = Some \<lparr>ls_entries = [], ls_writable = True\<rparr>"

lemma demo_storage_ok: "storage_ok demo_storage"
  by (simp add: storage_ok_def demo_storage_def)

lemma demo_trustStateId: "\<exists>t. trustStateId demo_crypto (demo_mac_key 1) = Inr t"
  by (simp add: trustStateId_def macLabel_def subtle_sign_def demo_mac_key_def ck_allows_def)

lemma demo_no_legacy: "recorded (legacy_index t None demo_storage) t = {}"
  by (simp add: legacy_index_def demo_storage_def readJson_def nonempty_opt_def typed_members_def obj_members_def
      js_map_new_def map_filter_simps recorded_def index_get_def)

lemma openRevisionStore_ok: "trustStateId C k = Inr t \<Longrightarrow> \<exists>s st1. openRevisionStore C k fetched ids st = Inr (s, st1)"
  by (cases "takeLegacyRecords ''nopass:item-revisions:'' t ids st") (simp add: openRevisionStore_def Let_def)

lemma openKeyPinStore_ok: "trustStateId C k = Inr t \<Longrightarrow> \<exists>s. openKeyPinStore C k ids st = Inr (pins_key t, s)"
  by (cases "takeLegacyRecords ''nopass:key-pins:'' t ids st") (simp add: openKeyPinStore_def Let_def)

text \<open>A session that saw revision 7 of an item of an empty browser, and the next one.\<close>

theorem rollback_protection_survives_reload_witness:
  "\<exists>t s0 st0 s2 st2. openRevisionStore demo_crypto (demo_mac_key 1) None None demo_storage = Inr (s0, st0) \<and>
     openRevisionStore demo_crypto (demo_mac_key 1) None None (written_snapshots t (revs_record demo_user 7 s0) st0) = Inr (s2, st2) \<and>
     mark_le (Some 7) (revs_get s2 demo_user)"
proof -
  obtain t where t: "trustStateId demo_crypto (demo_mac_key 1) = Inr t" using demo_trustStateId by blast
  obtain s0 st0 where s0: "openRevisionStore demo_crypto (demo_mac_key 1) None None demo_storage = Inr (s0, st0)"
    using openRevisionStore_ok [OF t] by blast
  let ?s1 = "revs_record demo_user 7 s0"
  obtain s2 st2 where s2: "openRevisionStore demo_crypto (demo_mac_key 1) None None (written_snapshots t ?s1 st0) = Inr (s2, st2)"
    using openRevisionStore_ok [OF t] by blast
  have "revs_use s0 ?s1" by (intro revs_use.intros)
  from rollback_protection_survives_reload [OF demo_storage_ok t s0 _ this s2, of demo_user] demo_no_legacy [of t]
  have "mark_le (revs_get ?s1 demo_user) (revs_get s2 demo_user)" by simp
  moreover have "mark_le (Some 7) (revs_get ?s1 demo_user)" by (cases "revs_get s0 demo_user") (auto simp: revs_get_record)
  ultimately show ?thesis using s0 s2 mark_le_trans by blast
qed

definition demo_other_seed :: bytes where "demo_other_seed = replicate 32 6"

lemma demo_signed_bundle:
  "\<exists>sg. verifyKeyBundle demo_crypto \<lparr>kb_userId = demo_user, kb_publicKey = ''AAEC'',
     kb_identityPublicKey = Some (toBase64 (ed25519_getPublicKey demo_crypto seed)), kb_publicKeySignature = Some sg\<rparr>"
proof -
  obtain m where "bundleMessage demo_user ''AAEC'' = Inr m" using demo_values by (auto simp: bundleMessage_Inr)
  then have "signKeyBundle demo_crypto demo_user ''AAEC'' seed = Inr (toBase64 (ed25519_sign demo_crypto m seed))"
    by (simp add: signKeyBundle_def)
  from signed_bundle_verifies [OF demo_sig this] show ?thesis by blast
qed

lemma demo_openKeyPinStore:
  "trustStateId demo_crypto (demo_mac_key 1) = Inr t \<Longrightarrow>
   \<exists>s. openKeyPinStore demo_crypto (demo_mac_key 1) None demo_storage = Inr (pins_key t, s) \<and> ps_pins s = []"
  by (simp add: openKeyPinStore_def Let_def takeLegacyRecords_def legacy_index_def demo_storage_def readJson_def nonempty_opt_def
      typed_members_def obj_members_def js_map_new_def map_filter_simps ownLegacyKeys_def)

text \<open>A bundle confirmed on first use; after a reload one under another identity key is refused.\<close>

theorem confirmed_identity_is_final_witness:
  "\<exists>key s2 b'. kb_userId b' = demo_user \<and> verifyKeyBundle demo_crypto b' \<and>
     verifyMemberKey demo_crypto b' (pins_get (browserPins key) s2) = Inl (PinnedKeyChangedError demo_user)"
proof -
  obtain t where t: "trustStateId demo_crypto (demo_mac_key 1) = Inr t" using demo_trustStateId by blast
  obtain s0 where s0: "openKeyPinStore demo_crypto (demo_mac_key 1) None demo_storage = Inr (pins_key t, s0)" "ps_pins s0 = []"
    using demo_openKeyPinStore [OF t] by blast
  obtain bsg where b: "verifyKeyBundle demo_crypto (demo_bundle bsg)" using demo_bundle_verifies by blast
  obtain sg where sg: "verifyKeyBundle demo_crypto \<lparr>kb_userId = demo_user, kb_publicKey = ''AAEC'',
     kb_identityPublicKey = Some (toBase64 (ed25519_getPublicKey demo_crypto demo_other_seed)), kb_publicKeySignature = Some sg\<rparr>"
    (is "verifyKeyBundle _ ?b'") using demo_signed_bundle by blast
  obtain v where "verifyMemberKey demo_crypto (demo_bundle bsg) (pins_get (browserPins (pins_key t)) s0) = Inr v"
    using verifyMemberKey_signed [OF b, of "pins_get (browserPins (pins_key t)) s0"] s0(2) by (auto simp: browserPins_def)
  then obtain s1 where s1: "confirmKey demo_crypto (browserPins (pins_key t)) (demo_bundle bsg)
      (browser_pins.confirm_all (pins_key t) demo_crypto [] s0) = (Inr (), s1)"
    by (auto simp: browser_pins.confirm_all_def confirmKey_def)
  obtain s2 where s2: "openKeyPinStore demo_crypto (demo_mac_key 1) None
      (ps_storage (browser_pins.confirm_all (pins_key t) demo_crypto [] s1)) = Inr (pins_key t, s2)"
    using openKeyPinStore_ok [OF t] by blast
  have "ed25519_getPublicKey demo_crypto demo_other_seed \<noteq> ed25519_getPublicKey demo_crypto demo_seed"
    by (simp add: demo_crypto_def demo_other_seed_def demo_seed_def pad_to_def)
  then have "toBase64 (ed25519_getPublicKey demo_crypto demo_other_seed) \<noteq> toBase64 (ed25519_getPublicKey demo_crypto demo_seed)"
    by (metis fromBase64_toBase64 option.inject)
  with confirmed_identity_is_final [OF demo_storage_ok t s0(1) _ s1 s2, of ?b'] demo_no_legacy [of t] sg
  have "verifyMemberKey demo_crypto ?b' (pins_get (browserPins (pins_key t)) s2) = Inl (PinnedKeyChangedError demo_user)"
    by (simp add: demo_bundle_def)
  with sg show ?thesis by (metis KeyBundle.select_convs(1))
qed

lemma demo_openOrgKey:
  assumes "1 \<le> e" "e \<le> 0xffffffff" "\<forall>h. epochs_get epochs s demo_org = Some h \<longrightarrow> h \<le> e"
  shows "\<exists>chain pins. openOrgKey demo_crypto demo_org chain demo_user ''owner'' pins epochs (\<lambda>_. Inr (demo_aes_key 1)) s =
    (Inr (CheckOk (demo_wrap e), Some (demo_aes_key 1)), epochs_record epochs demo_org e s)"
proof -
  obtain bsg where b: "verifyKeyBundle demo_crypto (demo_bundle bsg)" using demo_bundle_verifies by blast
  obtain sg where sg: "signOrgKeyWrap demo_crypto (demo_wrap e) demo_seed = Inr sg"
    using demo_wrapMessage [OF assms(1,2)] by (auto simp: signOrgKeyWrap_def)
  let ?pins = "[demo_user \<mapsto> toBase64 (ed25519_getPublicKey demo_crypto demo_seed)]"
  let ?l = "\<lparr>sl_wrap = demo_wrap e, sl_signature = Some sg, sl_signer = demo_bundle bsg\<rparr>"
  let ?served = "\<lparr>wl_recipientUserId = demo_user, wl_role = ''owner'', wl_encryptedOrgKey = ''AAEC'', wl_wrapSignature = Some sg,
     wl_keyEpoch = Some e, wl_signerUserId = demo_user, wl_signer = demo_bundle bsg\<rparr>"
  have l: "chainFromServer demo_org [?served] = [?l]" by (simp add: chainFromServer_def link_from_server_def demo_wrap_def)
  have "chain_loop demo_crypto (kw_orgId (demo_wrap e)) (kw_epoch (demo_wrap e)) ?pins [] [?l] = Inr []"
    by (rule owner_chain_accepted [OF demo_sig sg b]) (simp_all add: demo_bundle_def demo_wrap_def)
  then have "verifyOrgKeyChain demo_crypto (chainFromServer demo_org [?served]) demo_org demo_user ?pins (epochs_get epochs s) = Inr (demo_wrap e)"
    using assms(3) by (simp add: l verifyOrgKeyChain_Inr demo_wrap_def del: chain_loop.simps)
  then have "checkOrgKey demo_crypto demo_org [?served] demo_user ''owner'' ?pins (epochs_get epochs s) = CheckOk (demo_wrap e)"
    by (simp add: checkOrgKey_def)
  then show ?thesis by (intro exI [of _ "[?served]"] exI [of _ ?pins]) (simp add: openOrgKey_def, simp add: demo_wrap_def)
qed

text \<open>A key of epoch 3 is opened, the page reloaded and a key of epoch 4 opened.\<close>

theorem org_epoch_never_rolls_back_witness:
  "\<exists>key s2 s3 chain pins s4. epochs_get (browserEpochs key) s2 demo_org = Some 3 \<and> epochs_get (browserEpochs key) s3 demo_org = Some 3 \<and>
     openOrgKey demo_crypto demo_org chain demo_user ''owner'' pins (browserEpochs key) (\<lambda>_. Inr (demo_aes_key 1)) s3 =
       (Inr (CheckOk (demo_wrap 4), Some (demo_aes_key 1)), s4) \<and> kw_epoch (demo_wrap 3) \<le> kw_epoch (demo_wrap 4)"
proof -
  obtain t where t: "trustStateId demo_crypto (demo_mac_key 1) = Inr t" using demo_trustStateId by blast
  let ?key = "epochs_key t" and ?s0 = "\<lparr>es_epochs = [], es_storage = demo_storage\<rparr>"
  let ?s2 = "epochs_record (browserEpochs ?key) demo_org 3 ?s0"
  let ?s3 = "\<lparr>es_epochs = typed_members as_int (readJson (es_storage ?s2) ?key (JObj [])), es_storage = es_storage ?s2\<rparr>"
  have s0: "openOrgEpochStore demo_crypto (demo_mac_key 1) demo_storage = Inr (?key, ?s0)"
    by (simp add: openOrgEpochStore_def t demo_storage_def readJson_def nonempty_opt_def typed_members_def obj_members_def
        js_map_new_def map_filter_simps)
  have sync: "epoch_synced ?key ?s2" using epoch_synced_open [OF demo_storage_ok s0] epoch_synced_record by blast
  then have s3: "es_epochs ?s3 = es_epochs ?s2" by (simp add: epoch_synced_def)
  have e: "es_epochs ?s2 = [(demo_org, 3)]" by (simp add: browserEpochs_def Let_def)
  have get: "epochs_get (browserEpochs ?key) s demo_org = map_of (es_epochs s) demo_org" for s by (simp add: browserEpochs_def)
  obtain chain1 pins1 where o1: "openOrgKey demo_crypto demo_org chain1 demo_user ''owner'' pins1 (browserEpochs ?key)
      (\<lambda>_. Inr (demo_aes_key 1)) ?s0 = (Inr (CheckOk (demo_wrap 3), Some (demo_aes_key 1)), ?s2)"
    using demo_openOrgKey [of 3 "browserEpochs ?key" ?s0] by (auto simp: get)
  obtain chain2 pins2 s4 where o2: "openOrgKey demo_crypto demo_org chain2 demo_user ''owner'' pins2 (browserEpochs ?key)
      (\<lambda>_. Inr (demo_aes_key 1)) ?s3 = (Inr (CheckOk (demo_wrap 4), Some (demo_aes_key 1)), s4)"
    using demo_openOrgKey [of 4 "browserEpochs ?key" ?s3] get [of ?s3] s3 e by auto
  have "openOrgEpochStore demo_crypto (demo_mac_key 1) (es_storage ?s2) = Inr (?key, ?s3)"
    by (simp add: openOrgEpochStore_def t)
  then have use: "epoch_use demo_crypto (demo_mac_key 1) ?key ?s2 ?s3" using epoch_use.reloaded [OF epoch_use.start] by blast
  have "kw_epoch (demo_wrap 3) \<le> kw_epoch (demo_wrap 4)"
    by (rule org_epoch_never_rolls_back [OF demo_storage_ok s0 epoch_use.start o1 use o2])
  moreover have "epochs_get (browserEpochs ?key) ?s2 demo_org = Some 3" "epochs_get (browserEpochs ?key) ?s3 demo_org = Some 3"
    using get [of ?s2] get [of ?s3] s3 e by simp_all
  ultimately show ?thesis using o2 by blast
qed

text \<open>An item verified from the server's list, then withheld from a rotation after a reload.\<close>

theorem verified_item_cannot_vanish_witness:
  "\<exists>e l1 l3 key s1. recordVerifiedOrgItems demo_crypto demo_org [demo_org_item e]
       \<lparr>kr_current = demo_aes_key 1, kr_retired = []\<rparr> (ledger_remember key) (new_MemoryRevisionStore None None)
       \<lparr>lg_entries = [], lg_storage = demo_storage\<rparr> = (([demo_user], []), s1, l1) \<and>
     (\<exists>known missing members. ledger_get demo_org l1 = (known, l3) \<and>
       buildRotation demo_crypto demo_rotation_rnd ((demo_rotation_input e)\<lparr>ro_items := [], ro_known := known\<rparr>) s1 =
         (Inl (RotationSetIncompleteError missing members), s1) \<and> demo_user \<in> set missing)"
proof -
  obtain t where t: "trustStateId demo_crypto (demo_mac_key 1) = Inr t" using demo_trustStateId by blast
  let ?key = "ledger_key t" and ?l0 = "\<lparr>lg_entries = [], lg_storage = demo_storage\<rparr>" and ?s = "new_MemoryRevisionStore None None"
  let ?b = "\<lparr>ib_scope = Org demo_org, ib_itemId = demo_user, ib_itemType = ''note''\<rparr>"
  have l0: "openOrgLedger demo_crypto (demo_mac_key 1) demo_storage = Inr (?key, ?l0)"
    by (simp add: openOrgLedger_def t demo_storage_def readJson_def nonempty_opt_def typed_members_def obj_members_def
        js_map_new_def map_filter_simps)
  obtain e where e: "encryptItemV2 demo_crypto (replicate 12 5) demo_note ?b 3 (demo_aes_key 1) = Inr e"
    using demo_org_sealed [of 3 "demo_aes_key 1" "replicate 12 5"] by (auto simp: MAX_SAFE_INTEGER_def)
  have d: "decryptVaultItem demo_crypto e ?b \<lparr>vk_vaultEncKey = demo_aes_key 1, vk_vaultMacKey = demo_aes_key 1\<rparr> (Some ?s) =
      (Inr \<lparr>di_plaintext = demo_note, di_revision = 3, di_format = 2\<rparr>, Some (revs_record demo_user 3 ?s))"
    using decryptVaultItem_encryptItemV2(2) [OF demo_aead_correct demo_aead_expands, of
        "\<lparr>vk_vaultEncKey = demo_aes_key 1, vk_vaultMacKey = demo_aes_key 1\<rparr>" "replicate 12 5" demo_note ?b 3 e]
    by (simp add: e revs_get_def new_MemoryRevisionStore_def)
  have ev: "ev_encrypted (demo_org_item e) = e" "ev_id (demo_org_item e) = demo_user"
    by (simp_all add: ev_encrypted_def demo_org_item_def demo_item_def)
  have "bindingForItem ((demo_org_item e)\<lparr>ev_orgId := Some demo_org\<rparr>) = ?b"
    using demo_org_binding_eq [of e e] by (simp add: org_binding_def demo_rotation_input_def)
  then have "verify_items demo_crypto demo_org \<lparr>kr_current = demo_aes_key 1, kr_retired = []\<rparr> [demo_org_item e] ?s =
      (([demo_user], []), revs_record demo_user 3 ?s)" by (simp add: decryptOrgItem_def ev d)
  then obtain l1 where r: "recordVerifiedOrgItems demo_crypto demo_org [demo_org_item e] \<lparr>kr_current = demo_aes_key 1, kr_retired = []\<rparr>
      (ledger_remember ?key) ?s ?l0 = (([demo_user], []), revs_record demo_user 3 ?s, l1)"
    by (simp add: recordVerifiedOrgItems_def)
  obtain kn l3 where g: "ledger_get demo_org l1 = (kn, l3)" by fastforce
  let ?input = "(demo_rotation_input e)\<lparr>ro_items := [], ro_known := kn\<rparr>"
  have g': "ledger_get demo_org l1 = (ro_known ?input, l3)" using g by simp
  have "\<exists>missing members. buildRotation demo_crypto demo_rotation_rnd ?input (revs_record demo_user 3 ?s) =
      (Inl (RotationSetIncompleteError missing members), revs_record demo_user 3 ?s) \<and> demo_user \<in> set missing"
    by (rule verified_item_cannot_vanish [OF demo_storage_ok l0 r _ ledger_use.start g']) (simp_all add: demo_rotation_input_def)
  with r g show ?thesis by blast
qed

theorem ledger_refines_sets_witness:
  "\<exists>key l0. openOrgLedger demo_crypto (demo_mac_key 1) demo_storage = Inr (key, l0) \<and>
     known (fold (ledger_op demo_crypto (demo_mac_key 1) key)
       [RememberOp demo_org \<lparr>pl_items = Some [demo_user, ''i''], pl_members = None\<rparr>, ReloadOp,
        ForgetOp demo_org \<lparr>pl_items = Some [''i''], pl_members = None\<rparr>] l0) demo_org =
     (fst (known l0 demo_org) \<union> {demo_user} - {''i''}, snd (known l0 demo_org))"
proof -
  obtain t where "trustStateId demo_crypto (demo_mac_key 1) = Inr t" using demo_trustStateId by blast
  then obtain key l0 where o: "openOrgLedger demo_crypto (demo_mac_key 1) demo_storage = Inr (key, l0)" by (simp add: openOrgLedger_def)
  have "demo_user \<noteq> ''i''" by (simp add: demo_user_def)
  then show ?thesis
    using ledger_refines_sets [OF demo_storage_ok o, of "[RememberOp demo_org \<lparr>pl_items = Some [demo_user, ''i''], pl_members = None\<rparr>,
       ReloadOp, ForgetOp demo_org \<lparr>pl_items = Some [''i''], pl_members = None\<rparr>]"] o
    by (intro exI [of _ key] exI [of _ l0]) (auto simp: seen_sets_def or_empty_def simp del: ledger_op.simps)
qed

end
