(* ===== verification/Url_Match.thy ===== *)
theory Url_Match
  imports Prelude
begin

text \<open>
  Which saved addresses may be filled into which page, \<open>apps/extension/src/lib/url-match.ts\<close>, the
  address helpers of \<open>apps/extension/src/lib/web-url.ts\<close>, and the timeout setting of
  \<open>apps/extension/src/lib/auto-lock.ts\<close>.

  The browser's URL parser and the public suffix list (the package \<open>tldts\<close>) are the two fields of
  a record \<open>web\<close> that the definitions take: \<open>new_URL\<close> gives the parts of an address or fails,
  and \<open>parseDomain\<close> the registrable domain of a host name, if it has one.
\<close>

section \<open>Addresses\<close>

record URL =
  url_protocol :: string
  url_hostname :: string
  url_port :: string
  url_origin :: string

record web =
  new_URL :: "string \<Rightarrow> URL option"
  parseDomain :: "string \<Rightarrow> string option"

definition LOOPBACK_HOSTS :: "string list" where
  "LOOPBACK_HOSTS = [''localhost'', ''127.0.0.1'', ''[::1]'']"

definition isLoopback :: "string \<Rightarrow> bool" where
  "isLoopback hostname \<longleftrightarrow> hostname \<in> set LOOPBACK_HOSTS \<or> endsWith hostname ''.localhost''"

definition parseUrl :: "web \<Rightarrow> string \<Rightarrow> URL option" where
  "parseUrl W url = new_URL W url"

definition hostnameOf :: "web \<Rightarrow> string \<Rightarrow> string option" where
  "hostnameOf W url = nonempty_opt (map_option url_hostname (parseUrl W url))"

definition registrableDomain :: "web \<Rightarrow> string \<Rightarrow> string option" where
  "registrableDomain W hostname = parseDomain W hostname"

definition defaultPort :: "string \<Rightarrow> string" where
  "defaultPort protocol = (if protocol = ''https:'' then ''443'' else ''80'')"

definition hostMatches :: "web \<Rightarrow> string \<Rightarrow> string \<Rightarrow> bool" where
  "hostMatches W itemHost pageHost =
     (if itemHost = pageHost then True
      else if \<not> endsWith pageHost (''.'' @ itemHost) then False
      else registrableDomain W itemHost = Some itemHost)"

text \<open>A port that is left out is the empty string, which is false.\<close>

definition port_or :: "string \<Rightarrow> string \<Rightarrow> string" where
  "port_or port fallback = (if port = '''' then fallback else port)"

definition originMatches :: "web \<Rightarrow> string \<Rightarrow> string \<Rightarrow> bool" where
  "originMatches W itemUrl pageOrigin =
     (case (parseUrl W itemUrl, parseUrl W pageOrigin) of
        (Some item, Some page) \<Rightarrow>
          if url_hostname item = '''' \<or> url_hostname page = '''' then False
          else if url_protocol item \<noteq> ''https:'' \<and> url_protocol item \<noteq> ''http:'' then False
          else if url_protocol page = ''http:'' \<and> url_protocol item \<noteq> ''http:'' \<and> \<not> isLoopback (url_hostname page) then False
          else if url_protocol page \<noteq> ''http:'' \<and> url_protocol page \<noteq> ''https:'' then False
          else
            let itemPort = (if url_protocol item = url_protocol page
                            then port_or (url_port item) (defaultPort (url_protocol page))
                            else defaultPort (url_protocol page)) in
            if itemPort \<noteq> port_or (url_port page) (defaultPort (url_protocol page)) then False
            else hostMatches W (url_hostname item) (url_hostname page)
      | _ \<Rightarrow> False)"

definition urlMatches :: "web \<Rightarrow> string list \<Rightarrow> string \<Rightarrow> bool" where
  "urlMatches W itemUrls pageUrl = list_ex (\<lambda>u. originMatches W u pageUrl) itemUrls"

definition nameMatches :: "string \<Rightarrow> string \<Rightarrow> bool" where
  "nameMatches name query = (if query = '''' then True else js_includes (toLowerCase name) (toLowerCase query))"

definition isFillableOrigin :: "web \<Rightarrow> string \<Rightarrow> bool" where
  "isFillableOrigin W origin =
     (case parseUrl W origin of
        None \<Rightarrow> False
      | Some url \<Rightarrow> url_protocol url = ''https:'' \<or> url_protocol url = ''http:'' \<and> isLoopback (url_hostname url))"

section \<open>The web vault and the popup's site\<close>

definition webVaultUrl :: "web \<Rightarrow> string \<Rightarrow> string" where
  "webVaultUrl W apiBase =
     (case new_URL W apiBase of
        None \<Rightarrow> ''https://nopwd.dev/vault''
      | Some url \<Rightarrow>
          if url_hostname url = ''localhost'' \<or> url_hostname url = ''127.0.0.1''
          then url_protocol url @ ''//'' @ url_hostname url @ '':4020/vault''
          else
            let host = (if startsWith (url_hostname url) ''api.'' then drop 4 (url_hostname url) else url_hostname url) in
            url_protocol url @ ''//'' @ host @ ''/vault'')"

definition siteHostname :: "web \<Rightarrow> string \<Rightarrow> string" where
  "siteHostname W tabUrl =
     (case new_URL W tabUrl of
        None \<Rightarrow> ''''
      | Some url \<Rightarrow> if url_protocol url = ''http:'' \<or> url_protocol url = ''https:'' then url_hostname url else '''')"

section \<open>The timeout setting\<close>

definition AUTO_LOCK_SETTING :: string where "AUTO_LOCK_SETTING = ''autoLockMinutes''"
definition DEFAULT_AUTO_LOCK_MINUTES :: int where "DEFAULT_AUTO_LOCK_MINUTES = 15"
definition AUTO_LOCK_CHOICES :: "int list" where "AUTO_LOCK_CHOICES = [1, 5, 15, 30, 60, 240]"

text \<open>The stored value is \<open>unknown\<close>: a number, or something else.\<close>

definition parseAutoLockMinutes :: "int option \<Rightarrow> int" where
  "parseAutoLockMinutes stored =
     (case stored of
        Some n \<Rightarrow> if n \<in> set AUTO_LOCK_CHOICES then n else DEFAULT_AUTO_LOCK_MINUTES
      | None \<Rightarrow> DEFAULT_AUTO_LOCK_MINUTES)"

lemma parseAutoLockMinutes_choice: "parseAutoLockMinutes stored \<in> set AUTO_LOCK_CHOICES"
  by (auto simp: parseAutoLockMinutes_def AUTO_LOCK_CHOICES_def DEFAULT_AUTO_LOCK_MINUTES_def split: option.splits)

section \<open>The rules\<close>

text \<open>
  The rules as the header of \<open>url-match.ts\<close> states them, one clause each, over parsed addresses:
  which schemes agree, which port an item stands for on a page, and which hosts.
\<close>

inductive scheme_rule :: "URL \<Rightarrow> URL \<Rightarrow> bool" where
  secure_page: "url_protocol page = ''https:'' \<Longrightarrow> url_protocol item \<in> {''https:'', ''http:''} \<Longrightarrow> scheme_rule item page"
| opted_in: "url_protocol page = ''http:'' \<Longrightarrow> url_protocol item = ''http:'' \<Longrightarrow> scheme_rule item page"
| local_page: "url_protocol page = ''http:'' \<Longrightarrow> isLoopback (url_hostname page) \<Longrightarrow>
    url_protocol item \<in> {''https:'', ''http:''} \<Longrightarrow> scheme_rule item page"

definition effective_port :: "URL \<Rightarrow> string" where
  "effective_port u = port_or (url_port u) (defaultPort (url_protocol u))"

inductive port_rule :: "URL \<Rightarrow> URL \<Rightarrow> bool" where
  same_scheme: "url_protocol item = url_protocol page \<Longrightarrow> effective_port item = effective_port page \<Longrightarrow> port_rule item page"
| changed_scheme: "url_protocol item \<noteq> url_protocol page \<Longrightarrow> effective_port page = defaultPort (url_protocol page) \<Longrightarrow> port_rule item page"

inductive host_rule :: "web \<Rightarrow> string \<Rightarrow> string \<Rightarrow> bool" for W where
  exact: "host_rule W host host"
| subdomain: "registrableDomain W d = Some d \<Longrightarrow> host_rule W d (label @ ''.'' @ d)"

inductive_simps scheme_rule_simps: "scheme_rule item page"
inductive_simps port_rule_simps: "port_rule item page"
inductive_simps host_rule_simps: "host_rule W item page"

lemma hostMatches_rule: "hostMatches W item page = host_rule W item page"
  by (auto simp: hostMatches_def host_rule_simps endsWith_def suffix_def)

text \<open>
  A saved address may be filled into an origin exactly when the documented rules allow it: both
  parse and have a host, the schemes agree, are an upgrade to https or meet on a loopback host, the
  effective ports are equal (the default port where the scheme differs), and the hosts are equal or the
  page is a subdomain of a saved registrable domain.
\<close>

theorem origin_match_follows_rules:
  "originMatches W itemUrl pageOrigin \<longleftrightarrow>
     (\<exists>item page. new_URL W itemUrl = Some item \<and> new_URL W pageOrigin = Some page \<and>
        url_hostname item \<noteq> '''' \<and> url_hostname page \<noteq> '''' \<and>
        scheme_rule item page \<and> port_rule item page \<and> host_rule W (url_hostname item) (url_hostname page))"
proof -
  have scheme: "scheme_rule item page \<longleftrightarrow>
      url_protocol item \<in> {''https:'', ''http:''} \<and>
      (url_protocol page = ''https:'' \<or> url_protocol page = ''http:'' \<and> (url_protocol item = ''http:'' \<or> isLoopback (url_hostname page)))"
    for item page by (auto simp: scheme_rule_simps)
  have port: "port_rule item page \<longleftrightarrow>
      (if url_protocol item = url_protocol page then port_or (url_port item) (defaultPort (url_protocol page)) else defaultPort (url_protocol page)) =
      port_or (url_port page) (defaultPort (url_protocol page))" for item page
    by (auto simp: port_rule_simps effective_port_def)
  show ?thesis
  proof (cases "new_URL W itemUrl"; cases "new_URL W pageOrigin")
    fix item page assume u: "new_URL W itemUrl = Some item" "new_URL W pageOrigin = Some page"
    show ?thesis
      unfolding originMatches_def parseUrl_def u prod.case option.case option.inject ex_simps simp_thms ex_simps
        scheme port hostMatches_rule [symmetric] Let_def
      by (cases "url_protocol page = ''http:''"; cases "url_protocol item = ''http:''"; simp)
  qed (simp_all add: originMatches_def parseUrl_def)
qed

lemma urlMatches_iff: "urlMatches W urls page \<longleftrightarrow> (\<exists>u \<in> set urls. originMatches W u page)"
  by (simp add: urlMatches_def list_ex_iff)

text \<open>Whatever was saved, only web pages with a host are filled.\<close>

lemma originMatches_page:
  assumes "originMatches W itemUrl pageOrigin"
  obtains page where "new_URL W pageOrigin = Some page" "url_hostname page \<noteq> ''''" "url_protocol page \<in> {''https:'', ''http:''}"
  using assms by (auto simp: originMatches_def parseUrl_def split: option.splits if_splits)

end
