(* ===== verification/Extension_State.thy ===== *)
theory Extension_State
  imports Local_Trust Url_Match
begin

text \<open>
  The state of the browser extension's service worker and the operations that unlock, restore and lock
  it, \<open>apps/extension/src/background/index.ts\<close> (first half).

  \<open>ExtState\<close> holds the module's variables (\<open>vaultState\<close>, \<open>lockGeneration\<close>, the pending
  consents are added in \<open>Extension_Passkeys\<close>) and what the worker keeps in
  \<open>chrome.storage.session\<close> and \<open>chrome.storage.local\<close>, in the alarm and in the idle detector.
  The server and the browser's tabs are the state \<open>'v\<close> of the functions in \<open>ExtApi\<close>. The revision
  store's change callback writes its snapshot to \<open>storage.local\<close>: every operation that changes the
  store writes the latest one (\<open>write_revisions\<close>).

  A handler runs here from one message to its answer. Where an order of events between two awaits
  matters, \<open>Extension_Races\<close> takes the same segments apart.
\<close>

section \<open>Environment\<close>

record ext_env =
  env_crypto :: crypto
  env_web :: web
  env_runtimeId :: string
  env_ecdsa_sign :: "bytes \<Rightarrow> bytes \<Rightarrow> bytes option"
  env_localeCompare :: "string \<Rightarrow> string \<Rightarrow> int"

text \<open>
  The last two are WebCrypto's ECDSA signature over a message with a PKCS8 key, and
  \<open>String.prototype.localeCompare\<close> of the browser's locale.
\<close>

text \<open>\<open>chrome.runtime.getURL\<close>.\<close>

definition getURL :: "ext_env \<Rightarrow> string \<Rightarrow> string" where
  "getURL E path = ''chrome-extension://'' @ env_runtimeId E @ ''/'' @ path"

record Tab =
  tab_id :: "int option"

text \<open>What the browser says of the sender of a message.\<close>

record MessageSender =
  sd_id :: "string option"
  sd_tab :: "Tab option"
  sd_url :: "string option"
  sd_origin :: "string option"
  sd_frameId :: "int option"
  sd_documentId :: "string option"

record FillTarget =
  ft_frameId :: int
  ft_documentId :: "string option"
  ft_origin :: string

record FillCredentials =
  fc_username :: string
  fc_password :: string
  fc_origin :: string

text \<open>The calls the worker makes: the API client, and the browser's tabs and windows.\<close>

record 'v ExtApi =
  api_items :: "string \<Rightarrow> string \<Rightarrow> ('v, js_error, EncryptedVaultItem list) io"
  api_create :: "string \<Rightarrow> CreateVaultItemRequest \<Rightarrow> string \<Rightarrow> ('v, js_error, EncryptedVaultItem) io"
  api_update :: "string \<Rightarrow> string \<Rightarrow> UpdateVaultItemRequest \<Rightarrow> string \<Rightarrow> ('v, js_error, EncryptedVaultItem) io"
  api_vaultFormat :: "string \<Rightarrow> ('v, js_error, string option) io"
  api_logout :: "string \<Rightarrow> ('v, js_error, unit) io"
  tabs_get :: "int \<Rightarrow> ('v, js_error, string option) io"
  tabs_sendMessage :: "int \<Rightarrow> FillCredentials \<Rightarrow> FillTarget \<Rightarrow> ('v, js_error, bool option) io"
  windows_create :: "string \<Rightarrow> ('v, js_error, int option) io"
  windows_remove :: "int \<Rightarrow> ('v, js_error, unit) io"

section \<open>State\<close>

text \<open>
  \<open>vs_ref\<close> tells one assignment of \<open>vaultState\<close> from another (the object's identity), and
  \<open>vs_revisionsKey\<close> is the name the store's callback writes to.
\<close>

record VaultState =
  vs_sessionToken :: string
  vs_defaultVaultId :: string
  vs_keys :: VaultKeys
  vs_items :: "EncryptedVaultItem list"
  vs_revisions :: MemoryRevisionStore
  vs_revisionsKey :: string
  vs_ref :: nat

record PersistedSession =
  sess_sessionToken :: string
  sess_defaultVaultId :: string
  sess_encKeyB64 :: string
  sess_macKeyB64 :: string

text \<open>
  A fill as it left the worker: to which tab and frame, what was sent, for which login, what the popup
  had confirmed. Kept to state what is sent; nothing reads it.
\<close>

record SentFill =
  sf_tabId :: int
  sf_target :: FillTarget
  sf_message :: FillCredentials
  sf_login :: LoginItem
  sf_confirmed :: "string option"
  sf_sender :: MessageSender

record ExtState =
  ex_vaultState :: "VaultState option"
  ex_session :: "PersistedSession option"
  ex_fillTargets :: "(int \<times> FillTarget) list"
  ex_local :: "(string \<times> json) list"
  ex_lockGeneration :: int
  ex_alarm :: "int option"
  ex_idleInterval :: int
  ex_refs :: nat
  ex_sent :: "SentFill list"

type_synonym ('v, 'a) ext_io = "('v \<times> ExtState, js_error, 'a) io"

text \<open>An effect outside, the state, and a change of the state.\<close>

definition outside :: "('v, js_error, 'a) io \<Rightarrow> ('v, 'a) ext_io" where
  "outside m w = (case m (fst w) of (r, v) \<Rightarrow> (r, v, snd w))"

definition ex_read :: "(ExtState \<Rightarrow> 'a) \<Rightarrow> ('v, 'a) ext_io" where
  "ex_read f w = (Inr (f (snd w)), w)"

definition ex_modify :: "(ExtState \<Rightarrow> ExtState) \<Rightarrow> ('v, unit) ext_io" where
  "ex_modify f w = (Inr (), fst w, f (snd w))"

lemma ext_run [io_simps]:
  "outside m (v, s) = (case m v of (r, v') \<Rightarrow> (r, v', s))"
  "ex_read f (v, s) = (Inr (f s), v, s)"
  "ex_modify g (v, s) = (Inr (), v, g s)"
  by (simp_all add: outside_def ex_read_def ex_modify_def)

section \<open>Keys and revisions\<close>

definition importVaultKeys :: "string \<Rightarrow> string \<Rightarrow> VaultKeys js" where
  "importVaultKeys encKeyB64 macKeyB64 =
     rbind (fromBase64_js encKeyB64) (\<lambda>encKeyBytes.
     rbind (fromBase64_js macKeyB64) (\<lambda>macKeyBytes.
     rbind (subtle_importRawAes encKeyBytes False [UseEncrypt, UseDecrypt]) (\<lambda>vaultEncKey.
     rbind (subtle_importRawHmac ''SHA-256'' macKeyBytes [UseSign, UseVerify]) (\<lambda>vaultMacKey.
     Inr \<lparr>vk_vaultEncKey = vaultEncKey, vk_vaultMacKey = vaultMacKey\<rparr>))))"

definition EXT_TRUST_INDEX_KEY :: string where "EXT_TRUST_INDEX_KEY = ''trustIndex''"

definition ext_revisions_key :: "string \<Rightarrow> string" where
  "ext_revisions_key trustId = ''itemRevisions:v2:'' @ trustId"

text \<open>The callback: a snapshot is written when the store has a new one.\<close>

definition write_revisions ::
  "string \<Rightarrow> MemoryRevisionStore \<Rightarrow> MemoryRevisionStore \<Rightarrow> (string \<times> json) list \<Rightarrow> (string \<times> json) list" where
  "write_revisions key before after locals =
     (case ms_onChange after of
        [] \<Rightarrow> locals
      | snapshot # _ \<Rightarrow>
          if ms_onChange after = ms_onChange before then locals else js_set key (snapshot_json snapshot) locals)"

text \<open>Folding in one legacy record and removing it; \<open>all\<close> is the storage as read before the loop.\<close>

definition take_legacy ::
  "string \<Rightarrow> (string \<times> json) list \<Rightarrow> string \<Rightarrow> MemoryRevisionStore \<times> (string \<times> json) list \<Rightarrow>
   MemoryRevisionStore \<times> (string \<times> json) list" where
  "take_legacy key all legacyKey sl =
     (let record = (case map_of all legacyKey of None \<Rightarrow> JNull | Some j \<Rightarrow> j);
          store = fold (\<lambda>(itemId, revision). revs_record itemId revision) (typed_members as_int record) (fst sl) in
      (store, js_map_delete legacyKey (write_revisions key (fst sl) store (snd sl))))"

definition loadRevisions ::
  "ext_env \<Rightarrow> 'v ExtApi \<Rightarrow> CryptoKey \<Rightarrow> string \<Rightarrow> string \<Rightarrow> ('v, MemoryRevisionStore \<times> string) ext_io" where
  "loadRevisions E api vaultMacKey sessionToken defaultVaultId w =
     (case trustStateId (env_crypto E) vaultMacKey of
        Inl e \<Rightarrow> (Inl e, w)
      | Inr trustId \<Rightarrow>
          let s = snd w;
              key = ext_revisions_key trustId;
              store = stored_revisions (case map_of (ex_local s) key of None \<Rightarrow> JObj [] | Some j \<Rightarrow> j);
              index = recordLegacyIds
                (case map_of (ex_local s) EXT_TRUST_INDEX_KEY of None \<Rightarrow> [] | Some j \<Rightarrow> typed_members as_strings j)
                trustId [Some defaultVaultId];
              all = js_set EXT_TRUST_INDEX_KEY (members_json strings_json index) (ex_local s);
              (store1, local1) = fold (take_legacy key all) (ownLegacyKeys index trustId (map fst all) ''itemRevisions:'') (store, all);
              (fetched, v) = api_vaultFormat api sessionToken (fst w);
              store2 = (case fetched of
                          Inr marker \<Rightarrow> snd (applyV2OnlyMarker (env_crypto E) marker vaultMacKey store1)
                        | Inl _ \<Rightarrow> store1) in
          (Inr (store2, key), v, s\<lparr>ex_local := write_revisions key store1 store2 local1\<rparr>))"

definition decryptStored ::
  "ext_env \<Rightarrow> EncryptedVaultItem \<Rightarrow> VaultKeys \<Rightarrow> MemoryRevisionStore \<Rightarrow> DecryptedItem js \<times> MemoryRevisionStore" where
  "decryptStored E item keys revisions =
     (case decryptVaultItem (env_crypto E) (ev_encrypted item) (bindingForItem item) keys (Some revisions) of
        (r, revisions') \<Rightarrow> (r, the revisions'))"

text \<open>The vault's revision store changed to \<open>revisions\<close>.\<close>

definition put_revisions :: "MemoryRevisionStore \<Rightarrow> ExtState \<Rightarrow> ExtState" where
  "put_revisions revisions s =
     (case ex_vaultState s of
        None \<Rightarrow> s
      | Some vs \<Rightarrow> s\<lparr>ex_vaultState := Some (vs\<lparr>vs_revisions := revisions\<rparr>),
                     ex_local := write_revisions (vs_revisionsKey vs) (vs_revisions vs) revisions (ex_local s)\<rparr>)"

section \<open>Auto-lock\<close>

definition AUTO_LOCK_ALARM :: string where "AUTO_LOCK_ALARM = ''autoLock''"

definition autoLockMinutes :: "ExtState \<Rightarrow> int" where
  "autoLockMinutes s = parseAutoLockMinutes (Option.bind (map_of (ex_local s) AUTO_LOCK_SETTING) as_int)"

definition arm :: "ExtState \<Rightarrow> ExtState" where
  "arm s = s\<lparr>ex_idleInterval := autoLockMinutes s * 60, ex_alarm := Some (autoLockMinutes s)\<rparr>"

definition armAutoLock :: "('v, unit) ext_io" where
  "armAutoLock = ex_modify arm"

section \<open>Locking, restoring, unlocking\<close>

text \<open>
  \<open>lockVault\<close> in three segments: what runs before the first await, the wipe, and the end. A failing
  logout is only logged.
\<close>

definition lock_token :: "ExtState \<Rightarrow> string option" where
  "lock_token s = (case ex_vaultState s of
       Some vs \<Rightarrow> Some (vs_sessionToken vs)
     | None \<Rightarrow> map_option sess_sessionToken (ex_session s))"

definition lock_start :: "ExtState \<Rightarrow> ExtState" where
  "lock_start s = s\<lparr>ex_lockGeneration := ex_lockGeneration s + 1\<rparr>"

definition lock_wipe :: "ExtState \<Rightarrow> ExtState" where
  "lock_wipe s = s\<lparr>ex_vaultState := None, ex_session := None\<rparr>"

definition lock_end :: "'v ExtApi \<Rightarrow> string option \<Rightarrow> ('v, unit) ext_io" where
  "lock_end api token w =
     (let s = (snd w)\<lparr>ex_alarm := None\<rparr> in
      case nonempty_opt token of
        None \<Rightarrow> (Inr (), fst w, s)
      | Some t \<Rightarrow> (Inr (), snd (api_logout api t (fst w)), s))"

definition lockVault :: "'v ExtApi \<Rightarrow> ('v, unit) ext_io" where
  "lockVault api w =
     (let s = lock_start (snd w) in lock_end api (lock_token s) (fst w, lock_wipe s))"

text \<open>\<open>restoreVaultState\<close>: what the restore fetches, and what it does with the result.\<close>

type_synonym restored = "VaultKeys \<times> EncryptedVaultItem list \<times> MemoryRevisionStore \<times> string"

definition restore_fetch :: "ext_env \<Rightarrow> 'v ExtApi \<Rightarrow> PersistedSession \<Rightarrow> ('v, restored) ext_io" where
  "restore_fetch E api stored =
     io_bind (io_lift (importVaultKeys (sess_encKeyB64 stored) (sess_macKeyB64 stored))) (\<lambda>keys.
     io_bind (outside (api_items api (sess_defaultVaultId stored) (sess_sessionToken stored))) (\<lambda>items.
     io_bind (loadRevisions E api (vk_vaultMacKey keys) (sess_sessionToken stored) (sess_defaultVaultId stored)) (\<lambda>(revisions, key).
     io_return (keys, items, revisions, key))))"

definition set_vault :: "string \<Rightarrow> string \<Rightarrow> restored \<Rightarrow> ExtState \<Rightarrow> ExtState" where
  "set_vault sessionToken defaultVaultId r s =
     (case r of (keys, items, revisions, key) \<Rightarrow>
        s\<lparr>ex_vaultState := Some \<lparr>vs_sessionToken = sessionToken, vs_defaultVaultId = defaultVaultId, vs_keys = keys,
             vs_items = items, vs_revisions = revisions, vs_revisionsKey = key, vs_ref = ex_refs s\<rparr>,
          ex_refs := ex_refs s + 1\<rparr>)"

definition restore_commit :: "int \<Rightarrow> PersistedSession \<Rightarrow> restored js \<Rightarrow> ExtState \<Rightarrow> ExtState" where
  "restore_commit generation stored r s =
     (case r of
        Inr res \<Rightarrow>
          if ex_lockGeneration s \<noteq> generation \<or> ex_vaultState s \<noteq> None then s
          else set_vault (sess_sessionToken stored) (sess_defaultVaultId stored) res s
      | Inl _ \<Rightarrow> if ex_lockGeneration s = generation then s\<lparr>ex_session := None\<rparr> else s)"

definition restoreVaultState :: "ext_env \<Rightarrow> 'v ExtApi \<Rightarrow> ('v, unit) ext_io" where
  "restoreVaultState E api w =
     (if ex_vaultState (snd w) \<noteq> None then (Inr (), w)
      else
        (case ex_session (snd w) of
           None \<Rightarrow> (Inr (), w)
         | Some stored \<Rightarrow>
             (case restore_fetch E api stored w of
                (r, v, s) \<Rightarrow> (Inr (), v, restore_commit (ex_lockGeneration (snd w)) stored r s))))"

record UnlockMessage =
  um_sessionToken :: string
  um_defaultVaultId :: string
  um_vaultEncKeyB64 :: string
  um_vaultMacKeyB64 :: string

text \<open>The segments of UNLOCK: fetch, bump and load, assign, arm, persist.\<close>

definition unlock_fetch :: "'v ExtApi \<Rightarrow> UnlockMessage \<Rightarrow> ('v, VaultKeys \<times> EncryptedVaultItem list) ext_io" where
  "unlock_fetch api m =
     io_bind (io_lift (importVaultKeys (um_vaultEncKeyB64 m) (um_vaultMacKeyB64 m))) (\<lambda>keys.
     io_bind (outside (api_items api (um_defaultVaultId m) (um_sessionToken m))) (\<lambda>items.
     io_return (keys, items)))"

definition unlock_load ::
  "ext_env \<Rightarrow> 'v ExtApi \<Rightarrow> UnlockMessage \<Rightarrow> VaultKeys \<times> EncryptedVaultItem list \<Rightarrow> ('v, restored) ext_io" where
  "unlock_load E api m ki =
     io_bind (loadRevisions E api (vk_vaultMacKey (fst ki)) (um_sessionToken m) (um_defaultVaultId m)) (\<lambda>(revisions, key).
     io_return (fst ki, snd ki, revisions, key))"

definition unlock_assign :: "UnlockMessage \<Rightarrow> restored \<Rightarrow> ExtState \<Rightarrow> ExtState" where
  "unlock_assign m r s = set_vault (um_sessionToken m) (um_defaultVaultId m) r s"

definition unlock_persist :: "UnlockMessage \<Rightarrow> ExtState \<Rightarrow> ExtState" where
  "unlock_persist m s =
     s\<lparr>ex_session := Some \<lparr>sess_sessionToken = um_sessionToken m, sess_defaultVaultId = um_defaultVaultId m,
        sess_encKeyB64 = um_vaultEncKeyB64 m, sess_macKeyB64 = um_vaultMacKeyB64 m\<rparr>\<rparr>"

definition unlockVault :: "ext_env \<Rightarrow> 'v ExtApi \<Rightarrow> UnlockMessage \<Rightarrow> ('v, unit) ext_io" where
  "unlockVault E api m =
     io_bind (unlock_fetch api m) (\<lambda>ki.
     io_bind (ex_modify lock_start) (\<lambda>_.
     io_bind (unlock_load E api m ki) (\<lambda>r.
     io_bind (ex_modify (unlock_assign m r)) (\<lambda>_.
     io_bind armAutoLock (\<lambda>_.
     ex_modify (unlock_persist m))))))"

section \<open>Who sent a message\<close>

definition isExtensionPage :: "ext_env \<Rightarrow> MessageSender \<Rightarrow> bool" where
  "isExtensionPage E sender \<longleftrightarrow> sd_id sender = Some (env_runtimeId E) \<and> sd_tab sender = None"

definition isExtensionContext :: "ext_env \<Rightarrow> MessageSender \<Rightarrow> bool" where
  "isExtensionContext E sender \<longleftrightarrow> sd_id sender = Some (env_runtimeId E) \<and>
     (case sd_url sender of None \<Rightarrow> False | Some u \<Rightarrow> startsWith u (''chrome-extension://'' @ env_runtimeId E @ ''/''))"

definition CONSENT_PAGE :: string where "CONSENT_PAGE = ''src/consent/index.html''"

definition isConsentPage :: "ext_env \<Rightarrow> MessageSender \<Rightarrow> bool" where
  "isConsentPage E sender \<longleftrightarrow> sd_id sender = Some (env_runtimeId E) \<and>
     (case sd_url sender of None \<Rightarrow> False | Some u \<Rightarrow> startsWith u (getURL E CONSENT_PAGE))"

definition senderOrigin :: "ext_env \<Rightarrow> MessageSender \<Rightarrow> string option" where
  "senderOrigin E sender =
     (if sd_id sender \<noteq> Some (env_runtimeId E) \<or> sd_tab sender = None then None
      else
        (case nonempty_opt (sd_url sender) of
           None \<Rightarrow> None
         | Some url \<Rightarrow>
             (case nonempty_opt (sd_origin sender) of
                Some origin \<Rightarrow> Some origin
              | None \<Rightarrow> map_option url_origin (new_URL (env_web E) url))))"

definition senderFrame :: "ext_env \<Rightarrow> MessageSender \<Rightarrow> FillTarget option" where
  "senderFrame E sender =
     (case (nonempty_opt (senderOrigin E sender), sd_frameId sender) of
        (Some origin, Some frameId) \<Rightarrow>
          Some \<lparr>ft_frameId = frameId, ft_documentId = sd_documentId sender, ft_origin = origin\<rparr>
      | _ \<Rightarrow> None)"

section \<open>What the fetching segments leave alone\<close>

lemma loadRevisions_only_local: "loadRevisions E api k t d (v, s) = (r, v', s') \<Longrightarrow> \<exists>l. s' = s\<lparr>ex_local := l\<rparr>"
  by (cases s) (auto simp: loadRevisions_def Let_def split: sum.splits prod.splits)

lemma only_local_refl: "\<exists>l. s = s\<lparr>ex_local := l\<rparr>" for s :: ExtState
  by (cases s) auto

lemma restore_fetch_only_local: "restore_fetch E api stored (v, s) = (r, v', s') \<Longrightarrow> \<exists>l. s' = s\<lparr>ex_local := l\<rparr>"
  using only_local_refl [of s]
  by (auto simp: restore_fetch_def io_bind_def io_lift_def outside_def io_return_def dest: loadRevisions_only_local
      split: sum.splits prod.splits)

lemma unlock_fetch_only_local: "unlock_fetch api m (v, s) = (r, v', s') \<Longrightarrow> s' = s"
  by (auto simp: unlock_fetch_def io_bind_def io_lift_def outside_def io_return_def split: sum.splits prod.splits)

lemma unlock_load_only_local: "unlock_load E api m ki (v, s) = (r, v', s') \<Longrightarrow> \<exists>l. s' = s\<lparr>ex_local := l\<rparr>"
  by (auto simp: unlock_load_def io_bind_def io_return_def dest: loadRevisions_only_local split: sum.splits prod.splits)

lemma lock_end_frame: "lock_end api t (v, s) = (r, v', s') \<Longrightarrow> s' = s\<lparr>ex_alarm := None\<rparr>"
  by (auto simp: lock_end_def Let_def split: option.splits)

end
