(* ===== verification/Extension_Vault.thy ===== *)
theory Extension_Vault
  imports Extension_State
begin

text \<open>
  The worker's messages about the vault, \<open>apps/extension/src/background/index.ts\<close>: unlocking and
  locking, listing and searching, handing out credentials, and autofill into one frame of a tab.

  A decrypted item is JSON that the source casts to the item types; \<open>as_login\<close> reads it with
  \<open>item_of_json\<close>, and a login without the fields of its type counts as the \<open>TypeError\<close> their
  use would raise.
\<close>

section \<open>Answers\<close>

record SearchResult =
  sr_id :: string
  sr_name :: string
  sr_username :: string
  sr_urls :: "string list"
  sr_hasPasskey :: bool

record ConsentRequest =
  cr_create :: bool
  cr_rpId :: string
  cr_origin :: string

record CreatedData =
  cd_credentialIdB64u :: string
  cd_attestationObjectB64u :: string
  cd_authDataB64u :: string
  cd_publicKeySpkiB64u :: string
  cd_clientDataJSONB64u :: string

record AssertionData =
  as_credentialIdB64u :: string
  as_authDataB64u :: string
  as_signatureB64u :: string
  as_userHandleB64u :: string
  as_clientDataJSONB64u :: string

datatype Response =
    RError string
  | ROk bool
  | RUnlocked bool
  | RItems "EncryptedVaultItem list"
  | RResults "SearchResult list"
  | RCredentials string string
  | RMismatch string bool
  | RAvailable bool
  | RMatches bool
  | RCreated CreatedData
  | RAssertion AssertionData
  | RConsent ConsentRequest

text \<open>The items a search or a passkey lookup decrypts, and a decrypted login.\<close>

definition live_logins :: "EncryptedVaultItem list \<Rightarrow> EncryptedVaultItem list" where
  "live_logins items = filter (\<lambda>i. ev_deletedAt i = None \<and> ev_itemType i = ''login'') items"

definition as_login :: "json \<Rightarrow> LoginItem option js" where
  "as_login plain =
     rbind (js_type_of plain) (\<lambda>t.
     if t \<noteq> Some (JStr ''login'') then Inr None
     else (case item_of_json plain of Some (Login l) \<Rightarrow> Inr (Some l) | _ \<Rightarrow> Inl TypeError))"

section \<open>Reading\<close>

definition search_match :: "ext_env \<Rightarrow> string \<Rightarrow> string option \<Rightarrow> LoginItem \<Rightarrow> bool" where
  "search_match E query url plain \<longleftrightarrow>
     nameMatches (login_name plain) query \<or>
     (case nonempty_opt url of Some u \<Rightarrow> urlMatches (env_web E) (login_urls plain) u | None \<Rightarrow> query = '''')"

definition search_one ::
  "ext_env \<Rightarrow> string \<Rightarrow> string option \<Rightarrow> EncryptedVaultItem \<Rightarrow> VaultKeys \<Rightarrow> MemoryRevisionStore \<Rightarrow>
   SearchResult option \<times> MemoryRevisionStore" where
  "search_one E query url item keys revisions =
     (case decryptStored E item keys revisions of
        (Inl _, revisions') \<Rightarrow> (None, revisions')
      | (Inr d, revisions') \<Rightarrow>
          (case as_login (di_plaintext d) of
             Inr (Some plain) \<Rightarrow>
               (if search_match E query url plain
                then Some \<lparr>sr_id = ev_id item, sr_name = login_name plain, sr_username = login_username plain,
                       sr_urls = login_urls plain, sr_hasPasskey = (login_passkey plain \<noteq> None)\<rparr>
                else None, revisions')
           | _ \<Rightarrow> (None, revisions')))"

fun search_all ::
  "ext_env \<Rightarrow> string \<Rightarrow> string option \<Rightarrow> VaultKeys \<Rightarrow> EncryptedVaultItem list \<Rightarrow> MemoryRevisionStore \<Rightarrow>
   SearchResult list \<times> MemoryRevisionStore" where
  "search_all E query url keys [] revisions = ([], revisions)"
| "search_all E query url keys (item # items) revisions =
     (case search_one E query url item keys revisions of
        (r, revisions1) \<Rightarrow>
          (case search_all E query url keys items revisions1 of
             (rs, revisions2) \<Rightarrow> ((case r of None \<Rightarrow> rs | Some x \<Rightarrow> x # rs), revisions2)))"

text \<open>What every message that needs the vault starts with, after its sender was checked.\<close>

definition with_vault :: "(VaultState \<Rightarrow> ('v, Response) ext_io) \<Rightarrow> ('v, Response) ext_io" where
  "with_vault f w = (case ex_vaultState (snd w) of None \<Rightarrow> (Inr (RError ''locked''), w) | Some vs \<Rightarrow> f vs w)"

definition handle_UNLOCK :: "ext_env \<Rightarrow> 'v ExtApi \<Rightarrow> UnlockMessage \<Rightarrow> MessageSender \<Rightarrow> ('v, Response) ext_io" where
  "handle_UNLOCK E api m sender =
     (if \<not> isExtensionPage E sender then io_return (RError ''unauthorized'')
      else io_bind (unlockVault E api m) (\<lambda>_. io_return (ROk True)))"

definition handle_LOCK :: "ext_env \<Rightarrow> 'v ExtApi \<Rightarrow> MessageSender \<Rightarrow> ('v, Response) ext_io" where
  "handle_LOCK E api sender =
     (if \<not> isExtensionPage E sender then io_return (RError ''unauthorized'')
      else io_bind (lockVault api) (\<lambda>_. io_return (ROk True)))"

definition handle_IS_UNLOCKED :: "ext_env \<Rightarrow> MessageSender \<Rightarrow> ('v, Response) ext_io" where
  "handle_IS_UNLOCKED E sender =
     (if \<not> isExtensionContext E sender then io_return (RUnlocked False)
      else ex_read (\<lambda>s. RUnlocked (ex_vaultState s \<noteq> None)))"

definition handle_GET_ITEMS :: "ext_env \<Rightarrow> MessageSender \<Rightarrow> ('v, Response) ext_io" where
  "handle_GET_ITEMS E sender =
     (if \<not> isExtensionContext E sender then io_return (RError ''unauthorized'')
      else with_vault (\<lambda>vs. io_bind armAutoLock (\<lambda>_. io_return (RItems (vs_items vs)))))"

definition handle_SEARCH_ITEMS :: "ext_env \<Rightarrow> string \<Rightarrow> string option \<Rightarrow> MessageSender \<Rightarrow> ('v, Response) ext_io" where
  "handle_SEARCH_ITEMS E query url sender =
     (if \<not> isExtensionContext E sender then io_return (RError ''unauthorized'')
      else with_vault (\<lambda>vs.
        io_bind armAutoLock (\<lambda>_.
        case search_all E query url (vs_keys vs) (live_logins (vs_items vs)) (vs_revisions vs) of
          (results, revisions) \<Rightarrow> io_bind (ex_modify (put_revisions revisions)) (\<lambda>_. io_return (RResults results)))))"

text \<open>Finding an item by its id and decrypting it, as GET_CREDENTIALS and AUTOFILL both do.\<close>

definition open_login ::
  "ext_env \<Rightarrow> string \<Rightarrow> VaultState \<Rightarrow> (LoginItem \<Rightarrow> ('v, Response) ext_io) \<Rightarrow> ('v, Response) ext_io" where
  "open_login E itemId vs f =
     (case find (\<lambda>i. ev_id i = itemId) (vs_items vs) of
        None \<Rightarrow> io_return (RError ''item not found'')
      | Some item \<Rightarrow>
          (case decryptStored E item (vs_keys vs) (vs_revisions vs) of
             (r, revisions) \<Rightarrow>
               io_bind (ex_modify (put_revisions revisions)) (\<lambda>_.
               io_bind (io_lift (rbind r (\<lambda>d. as_login (di_plaintext d)))) (\<lambda>plain.
               case plain of None \<Rightarrow> io_return (RError ''not a login item'') | Some l \<Rightarrow> f l))))"

definition handle_GET_CREDENTIALS :: "ext_env \<Rightarrow> string \<Rightarrow> MessageSender \<Rightarrow> ('v, Response) ext_io" where
  "handle_GET_CREDENTIALS E itemId sender =
     (if \<not> isExtensionPage E sender then io_return (RError ''unauthorized'')
      else with_vault (\<lambda>vs.
        io_bind armAutoLock (\<lambda>_.
        open_login E itemId vs (\<lambda>plain. io_return (RCredentials (login_username plain) (login_password plain))))))"

section \<open>Autofill\<close>

definition handle_FILL_TARGET :: "ext_env \<Rightarrow> MessageSender \<Rightarrow> ('v, Response) ext_io" where
  "handle_FILL_TARGET E sender =
     (case (senderFrame E sender, Option.bind (sd_tab sender) tab_id) of
        (Some target, Some tabId) \<Rightarrow>
          io_bind (ex_modify (\<lambda>s. s\<lparr>ex_fillTargets := js_set tabId target (ex_fillTargets s)\<rparr>)) (\<lambda>_. io_return (ROk True))
      | _ \<Rightarrow> io_return (ROk False))"

definition top_frame :: "web \<Rightarrow> string option js \<Rightarrow> FillTarget option" where
  "top_frame W url =
     (case url of
        Inr u \<Rightarrow>
          (case nonempty_opt u of
             None \<Rightarrow> None
           | Some x \<Rightarrow> map_option (\<lambda>p. \<lparr>ft_frameId = 0, ft_documentId = None, ft_origin = url_origin p\<rparr>) (new_URL W x))
      | Inl _ \<Rightarrow> None)"

definition resolveFillTarget :: "ext_env \<Rightarrow> 'v ExtApi \<Rightarrow> int \<Rightarrow> ('v, FillTarget option) ext_io" where
  "resolveFillTarget E api tabId w =
     (case map_of (ex_fillTargets (snd w)) tabId of
        Some target \<Rightarrow> (Inr (Some target), w)
      | None \<Rightarrow> (case tabs_get api tabId (fst w) of (r, v) \<Rightarrow> (Inr (top_frame (env_web E) r), v, snd w)))"

text \<open>Sending the fill to the frame; \<open>{filled: true}\<close> or not.\<close>

definition send_fill ::
  "'v ExtApi \<Rightarrow> int \<Rightarrow> FillTarget \<Rightarrow> LoginItem \<Rightarrow> string option \<Rightarrow> MessageSender \<Rightarrow> ('v, bool) ext_io" where
  "send_fill api tabId target plain confirmed sender w =
     (let msg = \<lparr>fc_username = login_username plain, fc_password = login_password plain, fc_origin = ft_origin target\<rparr>;
          sent = \<lparr>sf_tabId = tabId, sf_target = target, sf_message = msg, sf_login = plain, sf_confirmed = confirmed,
                  sf_sender = sender\<rparr> in
      case tabs_sendMessage api tabId msg target (fst w) of
        (r, v) \<Rightarrow> (Inr (r = Inr (Some True)), v, (snd w)\<lparr>ex_sent := ex_sent (snd w) @ [sent]\<rparr>))"

definition fill_frame ::
  "ext_env \<Rightarrow> 'v ExtApi \<Rightarrow> int \<Rightarrow> string option \<Rightarrow> MessageSender \<Rightarrow> LoginItem \<Rightarrow> FillTarget option \<Rightarrow> ('v, Response) ext_io" where
  "fill_frame E api tabId confirmed sender plain found =
     (case found of
        None \<Rightarrow> io_return (RError ''no_login_form'')
      | Some target \<Rightarrow>
          let confirmable = (ft_frameId target = 0 \<and> isFillableOrigin (env_web E) (ft_origin target)) in
          if \<not> urlMatches (env_web E) (login_urls plain) (ft_origin target) \<and>
             (\<not> confirmable \<or> confirmed \<noteq> Some (ft_origin target))
          then io_return (RMismatch (ft_origin target) confirmable)
          else
            io_bind (send_fill api tabId target plain confirmed sender) (\<lambda>filled.
            if filled then io_return (ROk True)
            else io_bind (ex_modify (\<lambda>s. s\<lparr>ex_fillTargets := js_map_delete tabId (ex_fillTargets s)\<rparr>))
                   (\<lambda>_. io_return (RError ''no_login_form''))))"

definition handle_AUTOFILL ::
  "ext_env \<Rightarrow> 'v ExtApi \<Rightarrow> string \<Rightarrow> int \<Rightarrow> string option \<Rightarrow> MessageSender \<Rightarrow> ('v, Response) ext_io" where
  "handle_AUTOFILL E api itemId tabId confirmed sender =
     (if \<not> isExtensionPage E sender then io_return (RError ''unauthorized'')
      else with_vault (\<lambda>vs.
        io_bind armAutoLock (\<lambda>_.
        open_login E itemId vs (\<lambda>plain.
        io_bind (resolveFillTarget E api tabId) (fill_frame E api tabId confirmed sender plain)))))"

end
