(* ===== verification/Webauthn.thy ===== *)
theory Webauthn
  imports Url_Match Web_Crypto
begin

text \<open>
  The software authenticator, \<open>packages/crypto/src/webauthn.ts\<close>: base64url (in \<open>Encoding\<close>), a
  small CBOR writer, credential creation, authenticator data, DER signatures, and which relying party
  ids a page may use.

  The writers push JavaScript numbers on an array that becomes a \<open>Uint8Array\<close> at the end: they are
  lists of \<open>32 word\<close> values, on which the shifts and masks act, cut to bytes by \<open>to_uint8\<close>. Key
  generation and ECDSA are the browser's: a fresh key pair is an argument, signing a function
  argument that is \<open>None\<close> when the private key does not import. CBOR values have integer numbers
  only, so the two errors of the writer cannot arise.

  The relying party's side (\<open>cbor_read\<close>, \<open>authdata_read\<close>, \<open>der_read\<close>) is not code of
  the repository but the reader of the formats the comments cite, against which the writers are checked.
\<close>

unbundle bit_operations_syntax

section \<open>The CBOR writer\<close>

type_synonym nums = "32 word list"

definition to_uint8 :: "nums \<Rightarrow> bytes" where
  "to_uint8 ns = map ucast ns"

definition from_uint8 :: "bytes \<Rightarrow> nums" where
  "from_uint8 bs = map ucast bs"

datatype CborKey = KeyNum int | KeyStr string

datatype CborValue =
    CborNum int
  | CborStr string
  | CborBytes bytes
  | CborMap "(CborKey \<times> CborValue) list"

definition cborHead :: "nat \<Rightarrow> nat \<Rightarrow> nums" where
  "cborHead major len =
     (let m = push_bit 5 (of_nat major); l = of_nat len in
      if len < 24 then [m OR l]
      else if len < 0x100 then [m OR 24, l]
      else if len < 0x10000 then [m OR 25, drop_bit 8 l, l AND 0xff]
      else [m OR 26, drop_bit 24 l AND 0xff, drop_bit 16 l AND 0xff, drop_bit 8 l AND 0xff, l AND 0xff])"

definition encode_int :: "int \<Rightarrow> nums" where
  "encode_int v = (if 0 \<le> v then cborHead 0 (nat v) else cborHead 1 (nat (- v - 1)))"

definition encode_text :: "string \<Rightarrow> nums" where
  "encode_text s = (let bytes = utf8_encode s in cborHead 3 (length bytes) @ from_uint8 bytes)"

fun encode_key :: "CborKey \<Rightarrow> nums" where
  "encode_key (KeyNum v) = encode_int v"
| "encode_key (KeyStr s) = encode_text s"

fun encodeInto :: "CborValue \<Rightarrow> nums" where
  "encodeInto (CborNum v) = encode_int v"
| "encodeInto (CborStr s) = encode_text s"
| "encodeInto (CborBytes bs) = cborHead 2 (length bs) @ from_uint8 bs"
| "encodeInto (CborMap m) = cborHead 5 (length m) @ concat (map (\<lambda>(k, v). encode_key k @ encodeInto v) m)"

definition cborEncode :: "CborValue \<Rightarrow> bytes" where
  "cborEncode v = to_uint8 (encodeInto v)"

section \<open>Credentials and authenticator data\<close>

record CreatedCredential =
  cc_credentialId :: bytes
  cc_privateKeyPkcs8 :: bytes
  cc_cosePublicKey :: bytes
  cc_publicKeySpki :: bytes

text \<open>A fresh P-256 key pair as the browser exports it.\<close>

record EcKeyPair =
  ec_pkcs8 :: bytes
  ec_spki :: bytes
  ec_raw :: bytes

definition cose_key :: "bytes \<Rightarrow> CborValue" where
  "cose_key raw = CborMap
     [(KeyNum 1, CborNum 2), (KeyNum 3, CborNum (- 7)), (KeyNum (- 1), CborNum 1),
      (KeyNum (- 2), CborBytes (ta_slice 1 33 raw)), (KeyNum (- 3), CborBytes (ta_slice 33 65 raw))]"

definition generateCredential :: "EcKeyPair \<Rightarrow> bytes \<Rightarrow> CreatedCredential" where
  "generateCredential keyPair credentialId =
     \<lparr>cc_credentialId = credentialId, cc_privateKeyPkcs8 = ec_pkcs8 keyPair,
      cc_cosePublicKey = cborEncode (cose_key (ec_raw keyPair)), cc_publicKeySpki = ec_spki keyPair\<rparr>"

definition FLAG_UP :: byte where "FLAG_UP = 0x01"
definition FLAG_UV :: byte where "FLAG_UV = 0x04"
definition FLAG_AT :: byte where "FLAG_AT = 0x40"
definition FLAG_BE :: byte where "FLAG_BE = 0x08"
definition FLAG_BS :: byte where "FLAG_BS = 0x10"
definition SYNCED_FLAGS :: byte where "SYNCED_FLAGS = FLAG_BE OR FLAG_BS"

definition AAGUID :: bytes where
  "AAGUID = [0x6e, 0x6f, 0x70, 0x77, 0x64, 0, 0, 0, 0, 0, 0, 0, 0, 0, 0, 1]"

text \<open>\<open>setUint32\<close> and \<open>setUint16\<close> keep the low 32 and 16 bits, big-endian.\<close>

definition setUint32 :: "int \<Rightarrow> bytes" where
  "setUint32 v = be_bytes 4 (nat (v mod 2 ^ 32))"

definition setUint16 :: "int \<Rightarrow> bytes" where
  "setUint16 v = be_bytes 2 (nat (v mod 2 ^ 16))"

record Attested =
  at_credentialId :: bytes
  at_cosePublicKey :: bytes

definition buildAuthenticatorData :: "crypto \<Rightarrow> string \<Rightarrow> byte \<Rightarrow> int \<Rightarrow> Attested option \<Rightarrow> bytes" where
  "buildAuthenticatorData C rpId flags signCount attested =
     (let rpIdHash = sha256 C (utf8_encode rpId);
          parts = [rpIdHash, [flags OR (if attested \<noteq> None then FLAG_AT else 0)], setUint32 signCount] @
            (case attested of
               None \<Rightarrow> []
             | Some a \<Rightarrow> [AAGUID, setUint16 (int (length (at_credentialId a))), at_credentialId a, at_cosePublicKey a]) in
      concat parts)"

definition buildAttestationObject :: "bytes \<Rightarrow> bytes" where
  "buildAttestationObject authData =
     cborEncode (CborMap
       [(KeyStr ''fmt'', CborStr ''none''), (KeyStr ''attStmt'', CborMap []), (KeyStr ''authData'', CborBytes authData)])"

section \<open>Signatures\<close>

text \<open>The loop that skips leading zeros but keeps the last byte.\<close>

fun skip_zeros :: "bytes \<Rightarrow> bytes" where
  "skip_zeros (b # c # bs) = (if b = 0 then skip_zeros (c # bs) else b # c # bs)"
| "skip_zeros bs = bs"

definition encodeInt :: "bytes \<Rightarrow> nums" where
  "encodeInt bytes =
     (let v = from_uint8 (skip_zeros bytes);
          v' = (if hd v AND 0x80 \<noteq> 0 then 0 # v else v) in
      [0x02, of_nat (length v')] @ v')"

definition rawSigToDer :: "bytes \<Rightarrow> bytes js" where
  "rawSigToDer raw =
     (if length raw \<noteq> 64 then Inl (JsError ''rawSigToDer expects a 64-byte P-256 signature'')
      else
        let half = length raw div 2; r = encodeInt (take half raw); s = encodeInt (drop half raw) in
        Inr (to_uint8 ([0x30, of_nat (length r + length s)] @ r @ s)))"

definition signAssertion :: "(bytes \<Rightarrow> bytes \<Rightarrow> bytes option) \<Rightarrow> bytes \<Rightarrow> bytes \<Rightarrow> bytes \<Rightarrow> bytes js" where
  "signAssertion ecdsa_sign privateKeyPkcs8 authData clientDataHash =
     rbind (of_option DOMException (ecdsa_sign privateKeyPkcs8 (authData @ clientDataHash))) rawSigToDer"

section \<open>Relying party ids\<close>

definition isLoopbackHost :: "string \<Rightarrow> bool" where
  "isLoopbackHost host \<longleftrightarrow> host = ''localhost'' \<or> endsWith host ''.localhost'' \<or> host = ''127.0.0.1'' \<or> host = ''[::1]''"

definition rpIdMatchesOrigin :: "web \<Rightarrow> string \<Rightarrow> string \<Rightarrow> bool" where
  "rpIdMatchesOrigin W rpId origin =
     (case new_URL W origin of
        None \<Rightarrow> False
      | Some url \<Rightarrow>
          let host = url_hostname url in
          if url_protocol url \<noteq> ''https:'' \<and> \<not> (url_protocol url = ''http:'' \<and> isLoopbackHost host) then False
          else if rpId = '''' \<or> startsWith rpId ''.'' \<or> endsWith rpId ''.'' then False
          else host = rpId \<or> endsWith host (''.'' @ rpId))"

section \<open>Readers\<close>

definition cbor_head_read :: "bytes \<Rightarrow> (nat \<times> nat \<times> bytes) option" where
  "cbor_head_read bs =
     (case bs of
        [] \<Rightarrow> None
      | b # rest \<Rightarrow>
          let major = unat b div 32; info = unat b mod 32;
              wide = (\<lambda>n. if n \<le> length rest then Some (major, be_val (take n rest), drop n rest) else None) in
          if info < 24 then Some (major, info, rest)
          else if info = 24 then wide 1 else if info = 25 then wide 2 else if info = 26 then wide 4 else None)"

fun key_of :: "CborValue \<Rightarrow> CborKey option" where
  "key_of (CborNum v) = Some (KeyNum v)"
| "key_of (CborStr s) = Some (KeyStr s)"
| "key_of _ = None"

text \<open>\<open>cbor_read\<close> reads one value and gives the bytes after it; its first argument bounds the nesting.\<close>

function cbor_read :: "nat \<Rightarrow> bytes \<Rightarrow> (CborValue \<times> bytes) option"
  and cbor_read_pairs :: "nat \<Rightarrow> nat \<Rightarrow> bytes \<Rightarrow> ((CborKey \<times> CborValue) list \<times> bytes) option" where
  "cbor_read 0 bs = None"
| "cbor_read (Suc f) bs =
     (case cbor_head_read bs of
        None \<Rightarrow> None
      | Some (major, n, rest) \<Rightarrow>
          if major = 0 then Some (CborNum (int n), rest)
          else if major = 1 then Some (CborNum (- int n - 1), rest)
          else if major = 2 then (if n \<le> length rest then Some (CborBytes (take n rest), drop n rest) else None)
          else if major = 3 then
            (if n \<le> length rest then map_option (\<lambda>s. (CborStr s, drop n rest)) (utf8_decode (take n rest)) else None)
          else if major = 5 then map_option (\<lambda>(m, r). (CborMap m, r)) (cbor_read_pairs f n rest)
          else None)"
| "cbor_read_pairs f 0 bs = Some ([], bs)"
| "cbor_read_pairs f (Suc n) bs =
     (case cbor_read f bs of
        None \<Rightarrow> None
      | Some (kv, r) \<Rightarrow>
          (case (key_of kv, cbor_read f r) of
             (Some k, Some (v, r')) \<Rightarrow> map_option (\<lambda>(m, r''). ((k, v) # m, r'')) (cbor_read_pairs f n r')
           | _ \<Rightarrow> None))"
  by pat_completeness auto
termination
  by (relation "measures [\<lambda>x. case x of Inl (f, _) \<Rightarrow> f | Inr (f, _) \<Rightarrow> f, \<lambda>x. case x of Inl _ \<Rightarrow> 0 | Inr (_, n, _) \<Rightarrow> Suc n]")
     auto

record AuthData =
  ad_rpIdHash :: bytes
  ad_flags :: byte
  ad_signCount :: nat
  ad_attested :: "(bytes \<times> bytes \<times> bytes) option"

text \<open>Authenticator data as a relying party reads it: AAGUID, credential id and key bytes if the flag says so.\<close>

definition authdata_read :: "bytes \<Rightarrow> AuthData option" where
  "authdata_read bs =
     (if length bs < 37 then None
      else
        let flags = bs ! 32; tail = drop 37 bs;
            mk = (\<lambda>a. Some \<lparr>ad_rpIdHash = take 32 bs, ad_flags = flags, ad_signCount = be_val (take 4 (drop 33 bs)), ad_attested = a\<rparr>) in
        if flags AND FLAG_AT = 0 then (if tail = [] then mk None else None)
        else if length tail < 18 then None
        else
          let n = be_val (take 2 (drop 16 tail)) in
          if length tail < 18 + n then None
          else mk (Some (take 16 tail, take n (drop 18 tail), drop (18 + n) tail)))"

text \<open>A DER integer: not negative, no redundant leading zero.\<close>

definition der_int_read :: "bytes \<Rightarrow> (nat \<times> bytes) option" where
  "der_int_read bs =
     (case bs of
        t # l # rest \<Rightarrow>
          let n = unat l; v = take n rest in
          if t = 0x02 \<and> 0 < n \<and> n < 128 \<and> n \<le> length rest \<and> unat (hd v) < 128 \<and>
             (1 < n \<longrightarrow> hd v \<noteq> 0 \<or> 128 \<le> unat (v ! 1))
          then Some (be_val v, drop n rest) else None
      | _ \<Rightarrow> None)"

definition der_read :: "bytes \<Rightarrow> (nat \<times> nat) option" where
  "der_read bs =
     (case bs of
        t # l # rest \<Rightarrow>
          if t = 0x30 \<and> unat l < 128 \<and> unat l = length rest then
            (case der_int_read rest of
               Some (r, rest') \<Rightarrow> (case der_int_read rest' of Some (s, []) \<Rightarrow> Some (r, s) | _ \<Rightarrow> None)
             | None \<Rightarrow> None)
          else None
      | _ \<Rightarrow> None)"

section \<open>CBOR is read back\<close>

lemma head_or:
  assumes "m < 8" "n < 32"
  shows "(ucast (push_bit 5 (of_nat m) OR of_nat n :: 32 word) :: byte) = of_nat (32 * m + n)"
proof -
  have "list_all (\<lambda>m. list_all (\<lambda>n. (ucast (push_bit 5 (of_nat m) OR of_nat n :: 32 word) :: byte) = of_nat (32 * m + n))
      [0..<32]) [0..<8]" by code_simp
  then show ?thesis using assms by (simp add: list_all_iff)
qed

lemma byte_shift:
  assumes "n < 2 ^ 32"
  shows "(ucast (drop_bit k (of_nat n :: 32 word) AND 0xff) :: byte) = of_nat (n div 2 ^ k)"
proof -
  have m: "(0xff :: 32 word) = mask 8" by (simp add: mask_eq_exp_minus_1)
  have "unat (of_nat n :: 32 word) = n" using assms by (simp add: unat_of_nat)
  then have "unat (drop_bit k (of_nat n :: 32 word) AND 0xff) = (n div 2 ^ k) mod 256"
    unfolding m take_bit_eq_mask [symmetric]
    unfolding unsigned_take_bit_eq unat_drop_bit_eq by (simp add: drop_bit_eq_div take_bit_eq_mod)
  then show ?thesis by (metis of_nat_byte_mod of_nat_unat)
qed

lemma ucast_byte [simp]: "(ucast (ucast (b :: byte) :: 32 word) :: byte) = b"
  by (simp add: ucast_down_ucast_id is_down)

lemma to_from_uint8 [simp]: "to_uint8 (from_uint8 bs) = bs" "to_uint8 (xs @ ys) = to_uint8 xs @ to_uint8 ys"
  "to_uint8 (x # xs) = ucast x # to_uint8 xs" "to_uint8 [] = []" "length (from_uint8 bs) = length bs" "length (to_uint8 xs) = length xs"
  by (simp_all add: to_uint8_def from_uint8_def comp_def)

lemma to_uint8_cborHead:
  assumes "m < 8" "n < 2 ^ 32"
  shows "to_uint8 (cborHead m n) =
    (if n < 24 then [of_nat (32 * m + n)]
     else if n < 0x100 then of_nat (32 * m + 24) # be_bytes 1 n
     else if n < 0x10000 then of_nat (32 * m + 25) # be_bytes 2 n
     else of_nat (32 * m + 26) # be_bytes 4 n)"
proof -
  have or24: "(ucast (push_bit 5 (of_nat m) OR 24 :: 32 word) :: byte) = of_nat (32 * m + 24)"
    "(ucast (push_bit 5 (of_nat m) OR 25 :: 32 word) :: byte) = of_nat (32 * m + 25)"
    "(ucast (push_bit 5 (of_nat m) OR 26 :: 32 word) :: byte) = of_nat (32 * m + 26)"
    using head_or [OF assms(1), of 24] head_or [OF assms(1), of 25] head_or [OF assms(1), of 26] by simp_all
  have low: "(ucast (of_nat n AND 0xff :: 32 word) :: byte) = of_nat n"
    using byte_shift [OF assms(2), of 0] by simp
  have n: "unat (of_nat n :: 32 word) = n" using assms(2) by (simp add: unat_of_nat)
  have plain: "(ucast (of_nat n :: 32 word) :: byte) = of_nat n" by (metis n of_nat_unat)
  have "unat (drop_bit 8 (of_nat n :: 32 word)) = n div 256" unfolding unat_drop_bit_eq n by (simp add: drop_bit_eq_div)
  then have shift8: "(ucast (drop_bit 8 (of_nat n :: 32 word)) :: byte) = of_nat (n div 256)" by (metis of_nat_unat)
  have "be_bytes (Suc 0) n = [of_nat n]" "be_bytes (Suc (Suc 0)) n = [of_nat (n div 256), of_nat n]"
    "be_bytes (Suc (Suc (Suc (Suc 0)))) n = [of_nat (n div 2 ^ 24), of_nat (n div 2 ^ 16), of_nat (n div 2 ^ 8), of_nat n]"
    by (simp_all add: div_mult2_eq [symmetric])
  moreover have "(1 :: nat) = Suc 0" "(2 :: nat) = Suc (Suc 0)" "(4 :: nat) = Suc (Suc (Suc (Suc 0)))" by simp_all
  ultimately have be: "be_bytes 1 n = [of_nat n]" "be_bytes 2 n = [of_nat (n div 256), of_nat n]"
    "be_bytes 4 n = [of_nat (n div 2 ^ 24), of_nat (n div 2 ^ 16), of_nat (n div 2 ^ 8), of_nat n]" by metis+
  show ?thesis
    unfolding cborHead_def Let_def be if_distrib [of to_uint8] to_from_uint8 or24 low plain shift8 byte_shift [OF assms(2)]
    using head_or [OF assms(1), of n] by simp
qed

lemma cbor_head_read:
  assumes "m < 8" "n < 2 ^ 32"
  shows "cbor_head_read (to_uint8 (cborHead m n) @ rest) = Some (m, n, rest)"
proof -
  have b: "unat (of_nat (32 * m + k) :: byte) div 32 = m" "unat (of_nat (32 * m + k) :: byte) mod 32 = k" if "k < 32" for k
    unfolding unat_of_nat_byte using assms(1) that by simp_all
  have short: "cbor_head_read (of_nat (32 * m + k) # bs) = Some (m, k, bs)" if "k < 24" for k bs
    using that b [of k] by (simp only: cbor_head_read_def list.case Let_def) simp
  have wide: "cbor_head_read (of_nat (32 * m + k) # be_bytes w n @ rest) = Some (m, n, rest)"
    if "(k, w) \<in> {(24, 1), (25, 2), (26, 4)}" "n < 256 ^ w" for k w
  proof -
    have k: "k < 32" using that by auto
    have v: "be_val (be_bytes w n) = n" using that by (simp add: be_val_bytes)
    from that(1) v show ?thesis
      by (auto simp only: cbor_head_read_def list.case Let_def b [OF k]) (simp_all del: be_bytes.simps)
  qed
  show ?thesis
    unfolding to_uint8_cborHead [OF assms] using short wide [of 24 1] wide [of 25 2] wide [of 26 4] assms(2) by auto
qed

fun cbor_ok :: "CborValue \<Rightarrow> bool" and cbor_key_ok :: "CborKey \<Rightarrow> bool" where
  "cbor_ok (CborNum v) \<longleftrightarrow> - (2 ^ 32) \<le> v \<and> v < 2 ^ 32"
| "cbor_ok (CborStr s) \<longleftrightarrow> length (utf8_encode s) < 2 ^ 32"
| "cbor_ok (CborBytes bs) \<longleftrightarrow> length bs < 2 ^ 32"
| "cbor_ok (CborMap m) \<longleftrightarrow> length m < 2 ^ 32 \<and> (\<forall>(k, v) \<in> set m. cbor_key_ok k \<and> cbor_ok v)"
| "cbor_key_ok (KeyNum v) \<longleftrightarrow> - (2 ^ 32) \<le> v \<and> v < 2 ^ 32"
| "cbor_key_ok (KeyStr s) \<longleftrightarrow> length (utf8_encode s) < 2 ^ 32"

fun cbor_depth :: "CborValue \<Rightarrow> nat" where
  "cbor_depth (CborMap m) = Suc (foldr (\<lambda>(k, v). max (cbor_depth v)) m 0)"
| "cbor_depth _ = 0"

lemma cbor_read_int:
  "- (2 ^ 32) \<le> v \<Longrightarrow> v < 2 ^ 32 \<Longrightarrow> cbor_read (Suc f) (to_uint8 (encode_int v) @ rest) = Some (CborNum v, rest)"
  by (auto simp: encode_int_def cbor_head_read nat_less_iff)

lemma cbor_read_text:
  "length (utf8_encode s) < 2 ^ 32 \<Longrightarrow> cbor_read (Suc f) (to_uint8 (encode_text s) @ rest) = Some (CborStr s, rest)"
  by (simp add: encode_text_def Let_def cbor_head_read utf8_decode_encode)

lemma cbor_read_key:
  assumes "cbor_key_ok k" "0 < f"
  shows "\<exists>kv. cbor_read f (to_uint8 (encode_key k) @ rest) = Some (kv, rest) \<and> key_of kv = Some k"
  using assms cbor_read_int cbor_read_text by (cases k; cases f) auto

lemma cbor_read_pairs_encode:
  assumes "\<And>k v. (k, v) \<in> set m \<Longrightarrow> cbor_key_ok k \<and> 0 < f \<and> (\<forall>rest. cbor_read f (to_uint8 (encodeInto v) @ rest) = Some (v, rest))"
  shows "cbor_read_pairs f (length m) (to_uint8 (concat (map (\<lambda>(k, v). encode_key k @ encodeInto v) m)) @ rest) = Some (m, rest)"
  using assms
proof (induction m)
  case (Cons a m)
  obtain k v where a: "a = (k, v)" by (cases a)
  let ?rest = "to_uint8 (concat (map (\<lambda>(k, v). encode_key k @ encodeInto v) m)) @ rest"
  have kv: "cbor_key_ok k" "0 < f" "\<And>r. cbor_read f (to_uint8 (encodeInto v) @ r) = Some (v, r)" using Cons.prems [of k v] a by auto
  obtain c where "cbor_read f (to_uint8 (encode_key k) @ to_uint8 (encodeInto v) @ ?rest) = Some (c, to_uint8 (encodeInto v) @ ?rest)"
    "key_of c = Some k" using cbor_read_key [OF kv(1,2)] by blast
  moreover have "cbor_read_pairs f (length m) ?rest = Some (m, rest)" by (rule Cons.IH) (use Cons.prems in auto)
  ultimately show ?case using kv(3) by (simp add: a)
qed simp

lemma cbor_depth_member: "(k, v) \<in> set m \<Longrightarrow> cbor_depth v \<le> foldr (\<lambda>(k, v). max (cbor_depth v)) m 0"
  by (induction m) (auto simp: le_max_iff_disj)

lemma cbor_read_encodeInto: "cbor_ok v \<Longrightarrow> cbor_depth v < f \<Longrightarrow> cbor_read f (to_uint8 (encodeInto v) @ rest) = Some (v, rest)"
proof (induction v arbitrary: f rest rule: encodeInto.induct)
  case (1 v)
  then show ?case using cbor_read_int by (cases f) auto
next
  case (2 s)
  then show ?case using cbor_read_text by (cases f) auto
next
  case (3 bs)
  then show ?case by (cases f) (simp_all add: cbor_head_read)
next
  case (4 m)
  then obtain g where f: "f = Suc g" by (cases f) auto
  have "cbor_key_ok k \<and> 0 < g \<and> (\<forall>rest. cbor_read g (to_uint8 (encodeInto v) @ rest) = Some (v, rest))" if kv: "(k, v) \<in> set m" for k v
  proof -
    have "cbor_depth v < g" using cbor_depth_member [OF kv] "4.prems"(2) f by simp
    moreover have "cbor_ok v" "cbor_key_ok k" using "4.prems"(1) kv by auto
    ultimately show ?thesis using "4.IH" [OF kv refl] by auto
  qed
  from cbor_read_pairs_encode [OF this] show ?case using "4.prems"(1) by (simp add: f cbor_head_read)
qed

lemma cbor_read_encode: "cbor_ok v \<Longrightarrow> cbor_depth v < f \<Longrightarrow> cbor_read f (cborEncode v) = Some (v, [])"
  using cbor_read_encodeInto [of v f "[]"] by (simp add: cborEncode_def)

section \<open>What a relying party reads\<close>

lemma setUint_val [simp]:
  "be_val (setUint32 v) = nat (v mod 2 ^ 32)" "be_val (setUint16 v) = nat (v mod 2 ^ 16)"
  "length (setUint32 v) = 4" "length (setUint16 v) = 2"
  by (simp_all add: setUint32_def setUint16_def be_val_bytes nat_less_iff del: be_bytes.simps)

lemma cose_key_reads:
  assumes "length raw = 65"
  shows "cbor_read 2 (cborEncode (cose_key raw)) = Some (cose_key raw, [])"
  by (rule cbor_read_encode) (simp_all add: cose_key_def ta_slice_def assms)

lemma authdata_attested:
  assumes "sha256_lengths C" "length (at_credentialId a) < 2 ^ 16"
  shows "authdata_read (buildAuthenticatorData C rpId flags count (Some a)) =
    Some \<lparr>ad_rpIdHash = sha256 C (utf8_encode rpId), ad_flags = flags OR FLAG_AT, ad_signCount = nat (count mod 2 ^ 32),
          ad_attested = Some (AAGUID, at_credentialId a, at_cosePublicKey a)\<rparr>"
proof -
  have h: "length (sha256 C (utf8_encode rpId)) = 32" using assms(1) by (simp add: sha256_lengths_def)
  have g: "length AAGUID = 16" by (simp add: AAGUID_def)
  have n: "nat (int (length (at_credentialId a)) mod 2 ^ 16) = length (at_credentialId a)" using assms(2) by simp
  show ?thesis
    using n by (simp add: authdata_read_def buildAuthenticatorData_def Let_def h g nth_append) (simp add: FLAG_AT_def)
qed

lemma authdata_plain:
  assumes "sha256_lengths C" "flags AND FLAG_AT = 0"
  shows "authdata_read (buildAuthenticatorData C rpId flags count None) =
    Some \<lparr>ad_rpIdHash = sha256 C (utf8_encode rpId), ad_flags = flags, ad_signCount = nat (count mod 2 ^ 32), ad_attested = None\<rparr>"
proof -
  have h: "length (sha256 C (utf8_encode rpId)) = 32" using assms(1) by (simp add: sha256_lengths_def)
  show ?thesis using assms(2) by (simp add: authdata_read_def buildAuthenticatorData_def Let_def h nth_append)
qed

lemma length_cborHead: "length (cborHead m n) \<le> 5"
  by (simp add: cborHead_def Let_def)

lemma length_cose_key: "length raw = 65 \<Longrightarrow> length (cborEncode (cose_key raw)) \<le> 200"
  using length_cborHead
  by (simp add: cborEncode_def cose_key_def encode_int_def ta_slice_def) (simp add: cborHead_def Let_def)

lemma attestation_reads:
  assumes "length authData < 2 ^ 32"
  shows "cbor_read 3 (buildAttestationObject authData) =
    Some (CborMap [(KeyStr ''fmt'', CborStr ''none''), (KeyStr ''attStmt'', CborMap []), (KeyStr ''authData'', CborBytes authData)], [])"
  unfolding buildAttestationObject_def
  by (rule cbor_read_encode) (use assms in \<open>simp_all add: utf8_encode_def utf8_char_def Let_def\<close>)

text \<open>
  A relying party reads back exactly what the authenticator put in. For a fresh credential with
  an id below 64 KiB, the attestation object is the map of format, empty statement and authenticator
  data; the data carries the hash of the relying party id, the flags with the attested bit, the low 32
  bits of the counter, the fixed AAGUID, the credential id and a COSE key that is EC2, ES256, P-256
  with the two coordinates of the public key; and the data of an assertion carries hash, flags and counter.
\<close>

theorem authenticator_output_readable:
  assumes "sha256_lengths C" "length (ec_raw keyPair) = 65" "length credentialId < 2 ^ 16" "flags AND FLAG_AT = 0"
    and "cred = generateCredential keyPair credentialId"
    and "authData = buildAuthenticatorData C rpId flags count
      (Some \<lparr>at_credentialId = cc_credentialId cred, at_cosePublicKey = cc_cosePublicKey cred\<rparr>)"
  shows "cbor_read 3 (buildAttestationObject authData) =
      Some (CborMap [(KeyStr ''fmt'', CborStr ''none''), (KeyStr ''attStmt'', CborMap []), (KeyStr ''authData'', CborBytes authData)], []) \<and>
    authdata_read authData =
      Some \<lparr>ad_rpIdHash = sha256 C (utf8_encode rpId), ad_flags = flags OR FLAG_AT, ad_signCount = nat (count mod 2 ^ 32),
            ad_attested = Some (AAGUID, credentialId, cc_cosePublicKey cred)\<rparr> \<and>
    cbor_read 2 (cc_cosePublicKey cred) =
      Some (CborMap [(KeyNum 1, CborNum 2), (KeyNum 3, CborNum (- 7)), (KeyNum (- 1), CborNum 1),
        (KeyNum (- 2), CborBytes (take 32 (drop 1 (ec_raw keyPair)))), (KeyNum (- 3), CborBytes (drop 33 (ec_raw keyPair)))], []) \<and>
    authdata_read (buildAuthenticatorData C rpId flags count' None) =
      Some \<lparr>ad_rpIdHash = sha256 C (utf8_encode rpId), ad_flags = flags, ad_signCount = nat (count' mod 2 ^ 32), ad_attested = None\<rparr>"
proof (intro conjI)
  have cred: "cc_credentialId cred = credentialId" "cc_cosePublicKey cred = cborEncode (cose_key (ec_raw keyPair))"
    by (simp_all add: assms(5) generateCredential_def)
  have "length authData < 2 ^ 32"
    using assms(1,3) length_cose_key [OF assms(2)]
    by (simp add: assms(6) cred buildAuthenticatorData_def Let_def sha256_lengths_def AAGUID_def)
  then show "cbor_read 3 (buildAttestationObject authData) =
      Some (CborMap [(KeyStr ''fmt'', CborStr ''none''), (KeyStr ''attStmt'', CborMap []), (KeyStr ''authData'', CborBytes authData)], [])"
    by (rule attestation_reads)
  show "authdata_read authData = Some \<lparr>ad_rpIdHash = sha256 C (utf8_encode rpId), ad_flags = flags OR FLAG_AT,
      ad_signCount = nat (count mod 2 ^ 32), ad_attested = Some (AAGUID, credentialId, cc_cosePublicKey cred)\<rparr>"
    using authdata_attested [OF assms(1)] assms(3) by (simp add: assms(6) cred)
  show "cbor_read 2 (cc_cosePublicKey cred) =
      Some (CborMap [(KeyNum 1, CborNum 2), (KeyNum 3, CborNum (- 7)), (KeyNum (- 1), CborNum 1),
        (KeyNum (- 2), CborBytes (take 32 (drop 1 (ec_raw keyPair)))), (KeyNum (- 3), CborBytes (drop 33 (ec_raw keyPair)))], [])"
    using cose_key_reads [OF assms(2)] assms(2) by (simp add: cred cose_key_def ta_slice_def)
qed (rule authdata_plain [OF assms(1,4)])

theorem authenticator_output_readable_witness:
  "\<exists>ad. authdata_read (buildAuthenticatorData demo_crypto ''x.org'' (FLAG_UP OR SYNCED_FLAGS) 5
      (Some \<lparr>at_credentialId = replicate 32 7, at_cosePublicKey = cc_cosePublicKey (generateCredential
        \<lparr>ec_pkcs8 = [], ec_spki = [], ec_raw = replicate 65 4\<rparr> (replicate 32 7))\<rparr>)) = Some ad \<and> ad_signCount ad = 5"
proof -
  have "(FLAG_UP OR SYNCED_FLAGS) AND FLAG_AT = 0" by (simp add: FLAG_UP_def SYNCED_FLAGS_def FLAG_BE_def FLAG_BS_def FLAG_AT_def)
  from authenticator_output_readable [OF demo_lengths(2) _ _ this refl refl, of
      "\<lparr>ec_pkcs8 = [], ec_spki = [], ec_raw = replicate 65 4\<rparr>" "replicate 32 7" "''x.org''" 5]
  show ?thesis by (simp add: generateCredential_def)
qed

section \<open>Signatures are strict DER\<close>

lemma be_val_zero: "be_val (0 # bs) = be_val bs"
  by (simp add: be_val_def)

lemma skip_zeros_props:
  assumes "bs \<noteq> []"
  shows "skip_zeros bs \<noteq> []" "be_val (skip_zeros bs) = be_val bs" "length (skip_zeros bs) \<le> length bs"
    "1 < length (skip_zeros bs) \<Longrightarrow> hd (skip_zeros bs) \<noteq> 0"
  using assms by (induction bs rule: skip_zeros.induct) (auto simp: be_val_zero)

lemma high_bit: "(ucast (b :: byte) :: 32 word) AND 0x80 \<noteq> 0 \<longleftrightarrow> 128 \<le> unat b"
proof -
  have "list_all (\<lambda>n. ((ucast (of_nat n :: byte) :: 32 word) AND 0x80 \<noteq> 0) = (128 \<le> n)) [0..<256]" by code_simp
  then have "((ucast (of_nat (unat b) :: byte) :: 32 word) AND 0x80 \<noteq> 0) = (128 \<le> unat b)"
    unfolding list_all_iff by (rule bspec) simp
  then show ?thesis by simp
qed

lemma ucast_of_nat_byte: "(ucast (of_nat n :: 32 word) :: byte) = of_nat n"
proof -
  have "n mod 2 ^ 32 mod 256 = n mod 256" by (simp add: mod_mod_cancel)
  then show ?thesis
    unfolding unsigned_of_nat by (intro word_unat_eq_iff [THEN iffD2]) (simp add: take_bit_eq_mod)
qed

text \<open>The bytes of a DER integer, padded when the first would read as negative.\<close>

definition der_bytes :: "bytes \<Rightarrow> bytes" where
  "der_bytes bs = (let v = skip_zeros bs in if 128 \<le> unat (hd v) then 0 # v else v)"

lemma to_uint8_encodeInt:
  assumes "bs \<noteq> []"
  shows "to_uint8 (encodeInt bs) = [0x02, of_nat (length (der_bytes bs))] @ der_bytes bs"
    and "length (encodeInt bs) = 2 + length (der_bytes bs)"
proof -
  obtain b v where v: "skip_zeros bs = b # v" using skip_zeros_props(1) [OF assms] by (cases "skip_zeros bs") auto
  show "to_uint8 (encodeInt bs) = [0x02, of_nat (length (der_bytes bs))] @ der_bytes bs"
    using high_bit [of b] by (simp add: encodeInt_def der_bytes_def Let_def v from_uint8_def ucast_of_nat_byte) (simp add: to_uint8_def comp_def)
  show "length (encodeInt bs) = 2 + length (der_bytes bs)"
    using high_bit [of b] by (simp add: encodeInt_def der_bytes_def Let_def v from_uint8_def)
qed

lemma der_bytes_props:
  assumes "bs \<noteq> []" "length bs \<le> 32"
  shows "0 < length (der_bytes bs)" "length (der_bytes bs) \<le> 33" "be_val (der_bytes bs) = be_val bs"
    "unat (hd (der_bytes bs)) < 128"
    "1 < length (der_bytes bs) \<Longrightarrow> hd (der_bytes bs) \<noteq> 0 \<or> 128 \<le> unat (der_bytes bs ! 1)"
  using skip_zeros_props [OF assms(1)] assms(2) by (auto simp: der_bytes_def Let_def be_val_zero hd_conv_nth)

lemma der_int_read_encode:
  assumes "bs \<noteq> []" "length bs \<le> 32"
  shows "der_int_read (to_uint8 (encodeInt bs) @ rest) = Some (be_val bs, rest)"
proof -
  note p = der_bytes_props [OF assms]
  have n: "length (der_bytes bs) mod 256 = length (der_bytes bs)" using p(2) by simp
  have "hd (der_bytes bs @ rest) = hd (der_bytes bs)" "1 < length (der_bytes bs) \<Longrightarrow> (der_bytes bs @ rest) ! 1 = der_bytes bs ! 1"
    using p(1) by (auto simp: nth_append)
  then show ?thesis
    using p by (simp add: to_uint8_encodeInt(1) [OF assms(1)] der_int_read_def Let_def n)
qed

text \<open>
  C27. Assertion signatures are strict DER. Every 64-byte signature is converted, the result is at most
  72 bytes long with every length byte below 128, and a strict DER reader (minimal, non-negative
  integers, nothing left over) gets the two big-endian numbers back; any other length is an error.
\<close>

theorem der_signature_roundtrip:
  "(length raw = 64 \<longrightarrow>
      (\<exists>der. rawSigToDer raw = Inr der \<and> length der \<le> 72 \<and> unat (der ! 1) < 128 \<and>
         der_read der = Some (be_val (take 32 raw), be_val (drop 32 raw)))) \<and>
   (length raw \<noteq> 64 \<longrightarrow> rawSigToDer raw = Inl (JsError ''rawSigToDer expects a 64-byte P-256 signature''))"
proof (intro conjI impI)
  assume l: "length raw = 64"
  let ?r = "take 32 raw" and ?s = "drop 32 raw"
  have ne: "?r \<noteq> []" "?s \<noteq> []" "length ?r \<le> 32" "length ?s \<le> 32" using l by auto
  let ?n = "length (encodeInt ?r) + length (encodeInt ?s)"
  have n: "?n \<le> 70" using der_bytes_props(2) [OF ne(1,3)] der_bytes_props(2) [OF ne(2,4)] ne by (simp add: to_uint8_encodeInt(2))
  have "rawSigToDer raw = Inr (0x30 # of_nat ?n # to_uint8 (encodeInt ?r) @ to_uint8 (encodeInt ?s))"
    using l ucast_of_nat_byte [of ?n] by (simp add: rawSigToDer_def Let_def)
  moreover have "der_read (0x30 # of_nat ?n # to_uint8 (encodeInt ?r) @ to_uint8 (encodeInt ?s)) = Some (be_val ?r, be_val ?s)"
    using n der_int_read_encode [OF ne(1,3)] der_int_read_encode [OF ne(2,4), of "[]"] by (simp add: der_read_def del: of_nat_add)
  ultimately show "\<exists>der. rawSigToDer raw = Inr der \<and> length der \<le> 72 \<and> unat (der ! 1) < 128 \<and>
      der_read der = Some (be_val ?r, be_val ?s)" using n by (simp del: of_nat_add)
qed (simp add: rawSigToDer_def)

theorem der_signature_roundtrip_witness:
  "\<exists>der. rawSigToDer (replicate 64 (0x80 :: byte)) = Inr der \<and> length der \<le> 72 \<and>
     der_read der = Some (be_val (replicate 32 0x80), be_val (replicate 32 0x80))"
  using der_signature_roundtrip [of "replicate 64 (0x80 :: byte)"] by auto

section \<open>Relying party ids\<close>

text \<open>
  A page can only use a relying party id of its own secure origin. An accepted id is the host of
  the origin or a suffix of it at a label boundary, the origin is https, or http on a loopback host,
  and the id neither starts nor ends with a dot.
\<close>

theorem rp_id_belongs_to_origin:
  "rpIdMatchesOrigin W rpId origin \<longleftrightarrow>
     (\<exists>url. new_URL W origin = Some url \<and>
        (url_protocol url = ''https:'' \<or> url_protocol url = ''http:'' \<and> isLoopback (url_hostname url)) \<and>
        rpId \<noteq> '''' \<and> hd rpId \<noteq> CHR ''.'' \<and> last rpId \<noteq> CHR ''.'' \<and>
        (\<exists>labels. url_hostname url = labels @ rpId \<and> (labels = '''' \<or> last labels = CHR ''.'')))"
proof -
  have loop: "isLoopbackHost h = isLoopback h" for h by (auto simp: isLoopbackHost_def isLoopback_def LOOPBACK_HOSTS_def)
  have dots: "startsWith rpId ''.'' \<longleftrightarrow> rpId \<noteq> '''' \<and> hd rpId = CHR ''.''" "endsWith rpId ''.'' \<longleftrightarrow> rpId \<noteq> '''' \<and> last rpId = CHR ''.''"
    by (cases rpId; auto simp: startsWith_def prefix_def)
       (cases rpId rule: rev_cases; auto simp: endsWith_def suffix_def)
  have tail: "(h = rpId \<or> endsWith h (''.'' @ rpId)) \<longleftrightarrow> (\<exists>labels. h = labels @ rpId \<and> (labels = '''' \<or> last labels = CHR ''.''))" for h
    by (auto simp: endsWith_def suffix_def) (metis append_butlast_last_id append_Cons append_Nil append_assoc)
  show ?thesis
    unfolding rpIdMatchesOrigin_def Let_def loop dots tail by (cases "new_URL W origin") auto
qed

end
