(* ===== verification/Js_Sort.thy ===== *)
theory Js_Sort
  imports Prelude "HOL-Library.Multiset"
begin

text \<open>
  \<open>Array.prototype.sort\<close> with a comparison function: insertion behind the elements that do not compare
  greater, which is the stable sort the language asks for. The lemmas: the result is a permutation, it is
  sorted when the comparison is a total preorder, and equal elements keep their order.
\<close>

fun sort_insert :: "('a \<Rightarrow> 'a \<Rightarrow> int) \<Rightarrow> 'a \<Rightarrow> 'a list \<Rightarrow> 'a list" where
  "sort_insert cmp x [] = [x]"
| "sort_insert cmp x (y # ys) = (if cmp x y < 0 then x # y # ys else y # sort_insert cmp x ys)"

definition js_sort :: "('a \<Rightarrow> 'a \<Rightarrow> int) \<Rightarrow> 'a list \<Rightarrow> 'a list" where
  "js_sort cmp xs = fold (sort_insert cmp) xs []"

text \<open>A comparison as \<open>sort\<close> expects it: consistent in both directions, and transitive.\<close>

definition comparator :: "('a \<Rightarrow> 'a \<Rightarrow> int) \<Rightarrow> bool" where
  "comparator cmp \<longleftrightarrow> (\<forall>x y. cmp x y < 0 \<longleftrightarrow> 0 < cmp y x) \<and> (\<forall>x y z. cmp x y \<le> 0 \<longrightarrow> cmp y z \<le> 0 \<longrightarrow> cmp x z \<le> 0)"

lemma comparator_sgn:
  assumes "comparator cmp"
  shows "cmp a b = 0 \<longleftrightarrow> cmp b a = 0" "cmp a b < 0 \<longleftrightarrow> 0 < cmp b a" "cmp a a = 0"
proof -
  have s: "cmp a b < 0 \<longleftrightarrow> 0 < cmp b a" for a b using assms unfolding comparator_def by blast
  show "cmp a b = 0 \<longleftrightarrow> cmp b a = 0" using s [of a b] s [of b a] by linarith
  show "cmp a b < 0 \<longleftrightarrow> 0 < cmp b a" by (rule s)
  show "cmp a a = 0" using s [of a a] by linarith
qed

lemma comparator_trans: "comparator cmp \<Longrightarrow> cmp a b \<le> 0 \<Longrightarrow> cmp b c \<le> 0 \<Longrightarrow> cmp a c \<le> 0"
  unfolding comparator_def by blast

lemma comparator_flip: "comparator cmp \<Longrightarrow> \<not> cmp x y < 0 \<Longrightarrow> cmp y x \<le> 0"
  using comparator_sgn(1,2) [of cmp x y] comparator_sgn(2) [of cmp y x] by linarith

lemma mset_sort_insert [simp]: "mset (sort_insert cmp x ys) = add_mset x (mset ys)"
  by (induction ys) auto

lemma mset_js_sort [simp]: "mset (js_sort cmp xs) = mset xs"
proof -
  have "mset (fold (sort_insert cmp) xs acc) = mset acc + mset xs" for acc by (induction xs arbitrary: acc) auto
  then show ?thesis by (simp add: js_sort_def)
qed

lemma set_sort_insert [simp]: "set (sort_insert cmp x ys) = insert x (set ys)"
  by (induction cmp x ys rule: sort_insert.induct) auto

lemma set_js_sort [simp]: "set (js_sort cmp xs) = set xs"
  by (metis mset_js_sort set_mset_mset)

lemma sorted_sort_insert:
  assumes "comparator cmp" "sorted_wrt (\<lambda>a b. cmp a b \<le> 0) ys"
  shows "sorted_wrt (\<lambda>a b. cmp a b \<le> 0) (sort_insert cmp x ys)"
  using assms(2)
proof (induction ys)
  case (Cons y ys)
  note tr = comparator_trans [OF assms(1)]
  show ?case
  proof (cases "cmp x y < 0")
    case True
    then have "\<forall>z \<in> set ys. cmp x z \<le> 0" using Cons.prems tr [of x y] by auto
    then show ?thesis using True Cons.prems by auto
  next
    case False
    then show ?thesis using Cons comparator_flip [OF assms(1) False] by auto
  qed
qed simp

lemma sorted_js_sort: "comparator cmp \<Longrightarrow> sorted_wrt (\<lambda>a b. cmp a b \<le> 0) (js_sort cmp xs)"
proof -
  assume c: "comparator cmp"
  have "sorted_wrt (\<lambda>a b. cmp a b \<le> 0) acc \<Longrightarrow> sorted_wrt (\<lambda>a b. cmp a b \<le> 0) (fold (sort_insert cmp) xs acc)" for acc
    by (induction xs arbitrary: acc) (auto intro: sorted_sort_insert [OF c])
  then show ?thesis by (simp add: js_sort_def)
qed

text \<open>Stability: the elements that compare equal to a given one keep their order.\<close>

lemma filter_sort_insert:
  assumes "comparator cmp" "sorted_wrt (\<lambda>a b. cmp a b \<le> 0) ys"
  shows "filter (\<lambda>y. cmp y e = 0) (sort_insert cmp x ys) = filter (\<lambda>y. cmp y e = 0) ys @ (if cmp x e = 0 then [x] else [])"
  using assms(2)
proof (induction ys)
  case (Cons y ys)
  note sg = comparator_sgn [OF assms(1)]
  note tr = comparator_trans [OF assms(1)]
  show ?case
  proof (cases "cmp x y < 0 \<and> cmp x e = 0")
    case True
    have "cmp z e \<noteq> 0" if "z \<in> set (y # ys)" for z
    proof
      assume z: "cmp z e = 0"
      have "cmp y z \<le> 0" using that Cons.prems sg(3) [of y] by (cases "z = y") auto
      moreover have "cmp z e \<le> 0" "cmp e x \<le> 0" using z True sg(1) [of e x] by auto
      ultimately have "cmp y x \<le> 0" using tr [of y z e] tr [of y e x] by blast
      then show False using True sg(2) [of x y] by simp
    qed
    then have "filter (\<lambda>y. cmp y e = 0) (y # ys) = []" unfolding filter_empty_conv by blast
    then show ?thesis using True by (simp del: filter.simps(2)) (simp split: if_splits)
  next
    case False
    then show ?thesis using Cons by auto
  qed
qed simp

lemma js_sort_stable:
  assumes "comparator cmp"
  shows "filter (\<lambda>y. cmp y e = 0) (js_sort cmp xs) = filter (\<lambda>y. cmp y e = 0) xs"
proof -
  have "sorted_wrt (\<lambda>a b. cmp a b \<le> 0) acc \<Longrightarrow>
      filter (\<lambda>y. cmp y e = 0) (fold (sort_insert cmp) xs acc) = filter (\<lambda>y. cmp y e = 0) acc @ filter (\<lambda>y. cmp y e = 0) xs" for acc
    by (induction xs arbitrary: acc) (simp_all add: filter_sort_insert [OF assms] sorted_sort_insert [OF assms])
  then show ?thesis by (simp add: js_sort_def)
qed

end
