(* ===== verification/Extension_Passkeys.thy ===== *)
theory Extension_Passkeys
  imports Extension_Vault Webauthn Js_Sort
begin

text \<open>
  Passkey ceremonies, consent, the dispatch of messages and the events of the service worker,
  \<open>apps/extension/src/background/index.ts\<close> (second half).

  A ceremony waits for the user's answer in the consent window: it is split at that await into a
  \<open>begin\<close> part, which leaves a pending consent behind, and a \<open>finish\<close> part that runs when the
  consent is settled by the consent page, by closing the window or by the timeout. Everything drawn at
  random (ids, key pair, iv) and the clock come with the event. An item that a pending ceremony found is
  named by the identity of the vault state and its index in it; of a vault state that is no longer
  current the ceremony keeps the item as it was found.
\<close>

section \<open>Messages\<close>

record CreateMessage =
  wc_rpId :: string
  wc_rpName :: string
  wc_userName :: string
  wc_userDisplayName :: string
  wc_userHandleB64u :: string
  wc_excludeCredentialIdsB64u :: "string list"
  wc_challengeB64u :: string

record GetMessage =
  wg_rpId :: string
  wg_challengeB64u :: string
  wg_allowCredentialIdsB64u :: "string list"

datatype Message =
    UNLOCK UnlockMessage
  | LOCK
  | IS_UNLOCKED
  | GET_ITEMS
  | SEARCH_ITEMS string "string option"
  | GET_CREDENTIALS string
  | AUTOFILL string int "string option"
  | FILL_TARGET
  | WEBAUTHN_AVAILABLE string
  | WEBAUTHN_HAS_CREDENTIAL string "string list"
  | WEBAUTHN_CREATE CreateMessage
  | WEBAUTHN_GET GetMessage
  | CONSENT_DETAILS string
  | CONSENT_RESULT string bool
  | UNKNOWN_MESSAGE

record ExtRandom =
  er_requestId :: string
  er_keyPair :: EcKeyPair
  er_credentialId :: bytes
  er_itemId :: string
  er_iv :: bytes
  er_now :: string

section \<open>Helpers of a ceremony\<close>

definition MIN_CHALLENGE_BYTES :: nat where "MIN_CHALLENGE_BYTES = 16"

definition b64u_char :: "char \<Rightarrow> bool" where
  "b64u_char c \<longleftrightarrow>
     (let n = code c in 65 \<le> n \<and> n \<le> 90 \<or> 97 \<le> n \<and> n \<le> 122 \<or> 48 \<le> n \<and> n \<le> 57 \<or> c = CHR ''_'' \<or> c = CHR ''-'')"

definition client_data :: "string \<Rightarrow> bytes \<Rightarrow> string \<Rightarrow> json" where
  "client_data type challenge origin =
     JObj [(''type'', JStr type), (''challenge'', JStr (bytesToB64u challenge)), (''origin'', JStr origin),
           (''crossOrigin'', JBool False)]"

definition buildClientDataJSON :: "string \<Rightarrow> string \<Rightarrow> string \<Rightarrow> bytes option" where
  "buildClientDataJSON type challengeB64u origin =
     (if challengeB64u = '''' \<or> \<not> list_all b64u_char challengeB64u then None
      else
        (case b64uToBytes challengeB64u of
           None \<Rightarrow> None
         | Some challenge \<Rightarrow>
             if length challenge < MIN_CHALLENGE_BYTES then None
             else Some (utf8_encode (json_print (client_data type challenge origin)))))"

definition AUTHENTICATOR_FLAGS :: byte where "AUTHENTICATOR_FLAGS = FLAG_UP OR SYNCED_FLAGS"

definition isRegistrableRpId :: "ext_env \<Rightarrow> string \<Rightarrow> bool" where
  "isRegistrableRpId E rpId \<longleftrightarrow> rpId = ''localhost'' \<or> registrableDomain (env_web E) rpId \<noteq> None"

definition rp_allowed :: "ext_env \<Rightarrow> string \<Rightarrow> string \<Rightarrow> bool" where
  "rp_allowed E rpId origin \<longleftrightarrow> rpIdMatchesOrigin (env_web E) rpId origin \<and> isRegistrableRpId E rpId"

record Candidate =
  cn_index :: nat
  cn_item :: EncryptedVaultItem
  cn_plain :: LoginItem
  cn_passkey :: PasskeyCredential
  cn_revision :: int

definition passkey_of :: "ext_env \<Rightarrow> string \<Rightarrow> string list \<Rightarrow> DecryptedItem \<Rightarrow> (LoginItem \<times> PasskeyCredential) option" where
  "passkey_of E rpId allow d =
     (case as_login (di_plaintext d) of
        Inr (Some plain) \<Rightarrow>
          (case login_passkey plain of
             Some p \<Rightarrow>
               if pk_rpId p \<noteq> rpId then None
               else if allow \<noteq> [] \<and> pk_credentialIdB64u p \<notin> set allow then None
               else Some (plain, p)
           | None \<Rightarrow> None)
      | _ \<Rightarrow> None)"

fun find_passkeys ::
  "ext_env \<Rightarrow> string \<Rightarrow> string list \<Rightarrow> VaultKeys \<Rightarrow> nat \<Rightarrow> EncryptedVaultItem list \<Rightarrow> MemoryRevisionStore \<Rightarrow>
   Candidate list \<times> MemoryRevisionStore" where
  "find_passkeys E rpId allow keys n [] revisions = ([], revisions)"
| "find_passkeys E rpId allow keys n (item # items) revisions =
     (if ev_deletedAt item \<noteq> None \<or> ev_itemType item \<noteq> ''login'' then find_passkeys E rpId allow keys (n + 1) items revisions
      else
        (case decryptStored E item keys revisions of
           (Inl _, revisions1) \<Rightarrow> find_passkeys E rpId allow keys (n + 1) items revisions1
         | (Inr d, revisions1) \<Rightarrow>
             (case find_passkeys E rpId allow keys (n + 1) items revisions1 of
                (cs, revisions2) \<Rightarrow>
                  ((case passkey_of E rpId allow d of
                      None \<Rightarrow> cs
                    | Some (plain, p) \<Rightarrow> \<lparr>cn_index = n, cn_item = item, cn_plain = plain, cn_passkey = p,
                                        cn_revision = di_revision d\<rparr> # cs), revisions2))))"

definition findPasskeyLogins :: "ext_env \<Rightarrow> string \<Rightarrow> string list \<Rightarrow> ('v, Candidate list) ext_io" where
  "findPasskeyLogins E rpId allow w =
     (case ex_vaultState (snd w) of
        None \<Rightarrow> (Inr [], w)
      | Some vs \<Rightarrow>
          (case find_passkeys E rpId allow (vs_keys vs) 0 (vs_items vs) (vs_revisions vs) of
             (cs, revisions) \<Rightarrow> (Inr cs, fst w, put_revisions revisions (snd w))))"

definition newest_first :: "ext_env \<Rightarrow> Candidate list \<Rightarrow> Candidate list" where
  "newest_first E cs =
     js_sort (\<lambda>a b. env_localeCompare E (pk_createdAt (cn_passkey b)) (pk_createdAt (cn_passkey a))) cs"

section \<open>Availability\<close>

definition handle_WEBAUTHN_AVAILABLE :: "ext_env \<Rightarrow> string \<Rightarrow> MessageSender \<Rightarrow> ('v, Response) ext_io" where
  "handle_WEBAUTHN_AVAILABLE E rpId sender =
     ex_read (\<lambda>s.
       case nonempty_opt (senderOrigin E sender) of
         None \<Rightarrow> RAvailable False
       | Some origin \<Rightarrow> RAvailable (ex_vaultState s \<noteq> None \<and> rp_allowed E rpId origin))"

definition handle_WEBAUTHN_HAS_CREDENTIAL ::
  "ext_env \<Rightarrow> string \<Rightarrow> string list \<Rightarrow> MessageSender \<Rightarrow> ('v, Response) ext_io" where
  "handle_WEBAUTHN_HAS_CREDENTIAL E rpId allow sender =
     (case nonempty_opt (senderOrigin E sender) of
        None \<Rightarrow> io_return (RMatches False)
      | Some origin \<Rightarrow>
          io_bind (ex_read ex_vaultState) (\<lambda>vs.
          if vs = None \<or> \<not> rp_allowed E rpId origin then io_return (RMatches False)
          else io_bind (findPasskeyLogins E rpId allow) (\<lambda>cs. io_return (RMatches (cs \<noteq> [])))))"

section \<open>Ceremonies up to the consent\<close>

datatype Ceremony =
    CreateCeremony CreateMessage bytes
  | GetCeremony GetMessage bytes nat "Candidate list"

datatype Begun =
    Answered Response
  | AskConsent ConsentRequest Ceremony

definition begin_CREATE :: "ext_env \<Rightarrow> CreateMessage \<Rightarrow> MessageSender \<Rightarrow> ('v, Begun) ext_io" where
  "begin_CREATE E m sender =
     (case nonempty_opt (senderOrigin E sender) of
        None \<Rightarrow> io_return (Answered (RError ''unauthorized''))
      | Some origin \<Rightarrow>
          io_bind (ex_read ex_vaultState) (\<lambda>vs.
          if vs = None then io_return (Answered (RError ''locked''))
          else if \<not> rp_allowed E (wc_rpId m) origin then io_return (Answered (RError ''rpId does not match origin''))
          else
            io_bind (findPasskeyLogins E (wc_rpId m) []) (\<lambda>existing.
            if list_ex (\<lambda>c. pk_credentialIdB64u (cn_passkey c) \<in> set (wc_excludeCredentialIdsB64u m)) existing
            then io_return (Answered (RError ''already registered''))
            else
              (case buildClientDataJSON ''webauthn.create'' (wc_challengeB64u m) origin of
                 None \<Rightarrow> io_return (Answered (RError ''invalid challenge''))
               | Some clientDataJSON \<Rightarrow>
                   io_return (AskConsent \<lparr>cr_create = True, cr_rpId = wc_rpId m, cr_origin = origin\<rparr>
                     (CreateCeremony m clientDataJSON))))))"

definition begin_GET :: "ext_env \<Rightarrow> GetMessage \<Rightarrow> MessageSender \<Rightarrow> ('v, Begun) ext_io" where
  "begin_GET E m sender =
     (case nonempty_opt (senderOrigin E sender) of
        None \<Rightarrow> io_return (Answered (RError ''unauthorized''))
      | Some origin \<Rightarrow>
          io_bind (ex_read ex_vaultState) (\<lambda>vs.
          case vs of
            None \<Rightarrow> io_return (Answered (RError ''locked''))
          | Some state \<Rightarrow>
              if \<not> rp_allowed E (wg_rpId m) origin then io_return (Answered (RError ''rpId does not match origin''))
              else
                io_bind (findPasskeyLogins E (wg_rpId m) (wg_allowCredentialIdsB64u m)) (\<lambda>candidates.
                if candidates = [] then io_return (Answered (RError ''no matching credential''))
                else
                  (case buildClientDataJSON ''webauthn.get'' (wg_challengeB64u m) origin of
                     None \<Rightarrow> io_return (Answered (RError ''invalid challenge''))
                   | Some clientDataJSON \<Rightarrow>
                       io_return (AskConsent \<lparr>cr_create = False, cr_rpId = wg_rpId m, cr_origin = origin\<rparr>
                         (GetCeremony m clientDataJSON (vs_ref state) candidates))))))"

section \<open>Ceremonies after the consent\<close>

definition or_else :: "string \<Rightarrow> string \<Rightarrow> string" where
  "or_else a b = (if a = '''' then b else a)"

definition new_passkey_item :: "CreateMessage \<Rightarrow> CreatedCredential \<Rightarrow> string \<Rightarrow> LoginItem" where
  "new_passkey_item m cred now =
     \<lparr>login_name = or_else (wc_rpName m) (wc_rpId m), login_tags = None,
      login_username = or_else (wc_userName m) (wc_userDisplayName m), login_password = '''',
      login_urls = [''https://'' @ wc_rpId m], login_totp = None, login_notes = None, login_customFields = [],
      login_passkey = Some \<lparr>pk_credentialIdB64u = bytesToB64u (cc_credentialId cred), pk_rpId = wc_rpId m,
        pk_userHandleB64u = wc_userHandleB64u m, pk_userName = or_else (wc_userName m) (wc_userDisplayName m),
        pk_privateKeyPkcs8B64 = toBase64 (cc_privateKeyPkcs8 cred), pk_signCount = 0, pk_createdAt = now\<rparr>\<rparr>"

definition push_item :: "EncryptedVaultItem \<Rightarrow> ExtState \<Rightarrow> ExtState" where
  "push_item item s = s\<lparr>ex_vaultState := map_option (\<lambda>vs. vs\<lparr>vs_items := vs_items vs @ [item]\<rparr>) (ex_vaultState s)\<rparr>"

definition finish_CREATE ::
  "ext_env \<Rightarrow> 'v ExtApi \<Rightarrow> ExtRandom \<Rightarrow> CreateMessage \<Rightarrow> bytes \<Rightarrow> bool \<Rightarrow> ('v, Response) ext_io" where
  "finish_CREATE E api rnd m clientDataJSON approved =
     (if \<not> approved then io_return (RError ''declined'')
      else with_vault (\<lambda>vs.
        io_bind armAutoLock (\<lambda>_.
        let cred = generateCredential (er_keyPair rnd) (er_credentialId rnd);
            authData = buildAuthenticatorData (env_crypto E) (wc_rpId m) AUTHENTICATOR_FLAGS 0
              (Some \<lparr>at_credentialId = cc_credentialId cred, at_cosePublicKey = cc_cosePublicKey cred\<rparr>);
            itemId = er_itemId rnd;
            binding = \<lparr>ib_scope = Personal, ib_itemId = itemId, ib_itemType = ''login''\<rparr> in
        io_bind (io_lift (encryptVaultItem (env_crypto E) (er_iv rnd) (item_to_json (Login (new_passkey_item m cred (er_now rnd))))
                   binding (vk_vaultEncKey (vs_keys vs)) (Some (vs_revisions vs)) None)) (\<lambda>(encrypted, revision).
        io_bind (outside (api_create api (vs_defaultVaultId vs)
                   \<lparr>cv_id = Some itemId, cv_itemType = ''login'', cv_blob = encrypted\<rparr> (vs_sessionToken vs))) (\<lambda>created.
        io_bind (ex_modify (push_item created \<circ> put_revisions (revs_record itemId revision (vs_revisions vs)))) (\<lambda>_.
        io_return (RCreated
          \<lparr>cd_credentialIdB64u = bytesToB64u (cc_credentialId cred),
           cd_attestationObjectB64u = bytesToB64u (buildAttestationObject authData), cd_authDataB64u = bytesToB64u authData,
           cd_publicKeySpkiB64u = bytesToB64u (cc_publicKeySpki cred), cd_clientDataJSONB64u = bytesToB64u clientDataJSON\<rparr>)))))))"

definition candidate_item :: "VaultState \<Rightarrow> nat \<Rightarrow> Candidate \<Rightarrow> EncryptedVaultItem" where
  "candidate_item vs ref c =
     (if vs_ref vs = ref \<and> cn_index c < length (vs_items vs) then vs_items vs ! cn_index c else cn_item c)"

definition assign_item :: "nat \<Rightarrow> nat \<Rightarrow> EncryptedVaultItem \<Rightarrow> ExtState \<Rightarrow> ExtState" where
  "assign_item ref index item s =
     s\<lparr>ex_vaultState := map_option (\<lambda>vs.
         if vs_ref vs = ref then vs\<lparr>vs_items := (vs_items vs)[index := item]\<rparr> else vs) (ex_vaultState s)\<rparr>"

definition finish_GET ::
  "ext_env \<Rightarrow> 'v ExtApi \<Rightarrow> ExtRandom \<Rightarrow> GetMessage \<Rightarrow> bytes \<Rightarrow> nat \<Rightarrow> Candidate list \<Rightarrow> bool \<Rightarrow> ('v, Response) ext_io" where
  "finish_GET E api rnd m clientDataJSON ref candidates approved =
     (if \<not> approved then io_return (RError ''declined'')
      else with_vault (\<lambda>vs.
        io_bind armAutoLock (\<lambda>_.
        let c = hd (newest_first E candidates);
            item = candidate_item vs ref c; passkey = cn_passkey c;
            newCount = pk_signCount passkey + 1;
            authData = buildAuthenticatorData (env_crypto E) (wg_rpId m) AUTHENTICATOR_FLAGS newCount None;
            clientDataHash = sha256 (env_crypto E) clientDataJSON in
        io_bind (io_lift (fromBase64_js (pk_privateKeyPkcs8B64 passkey))) (\<lambda>pkcs8.
        io_bind (io_lift (signAssertion (env_ecdsa_sign E) pkcs8 authData clientDataHash)) (\<lambda>signature.
        let updatedPlain = (cn_plain c)\<lparr>login_passkey := Some (passkey\<lparr>pk_signCount := newCount\<rparr>)\<rparr> in
        io_bind (io_lift (encryptVaultItem (env_crypto E) (er_iv rnd) (item_to_json (Login updatedPlain)) (bindingForItem item)
                   (vk_vaultEncKey (vs_keys vs)) (Some (vs_revisions vs)) (Some (cn_revision c)))) (\<lambda>(encrypted, revision).
        io_bind (outside (api_update api (ev_vaultId item) (ev_id item)
                   \<lparr>uv_blob = encrypted, uv_version = ev_version item\<rparr> (vs_sessionToken vs))) (\<lambda>updated.
        io_bind (ex_modify (assign_item ref (cn_index c)
                     (item\<lparr>ev_blob := eb_blob encrypted, ev_blobIv := eb_blobIv encrypted, ev_blobMac := eb_blobMac encrypted,
                           ev_version := ev_version updated, ev_updatedAt := ev_updatedAt updated\<rparr>) \<circ>
                   put_revisions (revs_record (ev_id item) revision (vs_revisions vs)))) (\<lambda>_.
        io_return (RAssertion
          \<lparr>as_credentialIdB64u = pk_credentialIdB64u passkey, as_authDataB64u = bytesToB64u authData,
           as_signatureB64u = bytesToB64u signature, as_userHandleB64u = pk_userHandleB64u passkey,
           as_clientDataJSONB64u = bytesToB64u clientDataJSON\<rparr>))))))))) "

definition finish_ceremony :: "ext_env \<Rightarrow> 'v ExtApi \<Rightarrow> ExtRandom \<Rightarrow> Ceremony \<Rightarrow> bool \<Rightarrow> ('v, Response) ext_io" where
  "finish_ceremony E api rnd c approved =
     (case c of
        CreateCeremony m clientDataJSON \<Rightarrow> finish_CREATE E api rnd m clientDataJSON approved
      | GetCeremony m clientDataJSON ref candidates \<Rightarrow> finish_GET E api rnd m clientDataJSON ref candidates approved)"

end
