(* ===== verification/Extension_Worker.thy ===== *)
theory Extension_Worker
  imports Extension_Passkeys
begin

text \<open>
  The service worker as a state machine, \<open>apps/extension/src/background/index.ts\<close>: pending consents,
  \<open>handleMessage\<close>, and the listeners for messages, alarms, idleness, settings and closed windows.

  A step takes one event and gives the answers that go out, each with the sender it goes to, and the new
  state. Handlers run to completion in a step; a ceremony waits in \<open>wk_pending\<close> for its consent.
\<close>

section \<open>Consents\<close>

record Pending =
  pd_request :: ConsentRequest
  pd_windowId :: "int option"
  pd_sender :: MessageSender
  pd_ceremony :: Ceremony

record Worker =
  wk_ext :: ExtState
  wk_pending :: "(string \<times> Pending) list"

type_synonym answers = "(MessageSender \<times> Response) list"

text \<open>The listener's answer to a result or an exception.\<close>

definition respond :: "Response js \<Rightarrow> Response" where
  "respond r = (case r of Inr x \<Rightarrow> x | Inl e \<Rightarrow> RError (error_message e))"

definition run_ext :: "('v, 'a) ext_io \<Rightarrow> 'v \<times> Worker \<Rightarrow> 'a js \<times> 'v \<times> Worker" where
  "run_ext m w = (case m (fst w, wk_ext (snd w)) of (r, v, s) \<Rightarrow> (r, v, (snd w)\<lparr>wk_ext := s\<rparr>))"

text \<open>The decision is there: the window is closed and the ceremony goes on.\<close>

definition resume ::
  "ext_env \<Rightarrow> 'v ExtApi \<Rightarrow> ExtRandom \<Rightarrow> Pending \<Rightarrow> bool \<Rightarrow> 'v \<times> Worker \<Rightarrow> answers \<times> 'v \<times> Worker" where
  "resume E api rnd p approved w =
     (let v = (case pd_windowId p of None \<Rightarrow> fst w | Some wid \<Rightarrow> snd (windows_remove api wid (fst w))) in
      case run_ext (finish_ceremony E api rnd (pd_ceremony p) approved) (v, snd w) of
        (r, w') \<Rightarrow> ([(pd_sender p, respond r)], w'))"

definition settle ::
  "ext_env \<Rightarrow> 'v ExtApi \<Rightarrow> ExtRandom \<Rightarrow> string \<Rightarrow> bool \<Rightarrow> 'v \<times> Worker \<Rightarrow> answers \<times> 'v \<times> Worker" where
  "settle E api rnd requestId approved w =
     (case map_of (wk_pending (snd w)) requestId of
        None \<Rightarrow> ([], w)
      | Some p \<Rightarrow>
          resume E api rnd p approved (fst w, (snd w)\<lparr>wk_pending := js_map_delete requestId (wk_pending (snd w))\<rparr>))"

text \<open>Opening the window; when that fails the request is settled as declined.\<close>

definition requestConsent ::
  "ext_env \<Rightarrow> 'v ExtApi \<Rightarrow> ExtRandom \<Rightarrow> ConsentRequest \<Rightarrow> Ceremony \<Rightarrow> MessageSender \<Rightarrow> 'v \<times> Worker \<Rightarrow> answers \<times> 'v \<times> Worker" where
  "requestConsent E api rnd request c sender w =
     (let requestId = er_requestId rnd;
          p = \<lparr>pd_request = request, pd_windowId = None, pd_sender = sender, pd_ceremony = c\<rparr> in
      case windows_create api (getURL E (CONSENT_PAGE @ ''?id='' @ requestId)) (fst w) of
        (Inr windowId, v) \<Rightarrow>
          ([], v, (snd w)\<lparr>wk_pending := js_set requestId (p\<lparr>pd_windowId := windowId\<rparr>) (wk_pending (snd w))\<rparr>)
      | (Inl _, v) \<Rightarrow>
          settle E api rnd requestId False (v, (snd w)\<lparr>wk_pending := js_set requestId p (wk_pending (snd w))\<rparr>))"

definition ceremony ::
  "ext_env \<Rightarrow> 'v ExtApi \<Rightarrow> ExtRandom \<Rightarrow> ('v, Begun) ext_io \<Rightarrow> MessageSender \<Rightarrow> 'v \<times> Worker \<Rightarrow> answers \<times> 'v \<times> Worker" where
  "ceremony E api rnd begun sender w =
     (case run_ext begun w of
        (Inl e, w') \<Rightarrow> ([(sender, respond (Inl e))], w')
      | (Inr (Answered r), w') \<Rightarrow> ([(sender, r)], w')
      | (Inr (AskConsent request c), w') \<Rightarrow> requestConsent E api rnd request c sender w')"

section \<open>Messages\<close>

definition answer_ext :: "('v, Response) ext_io \<Rightarrow> MessageSender \<Rightarrow> 'v \<times> Worker \<Rightarrow> answers \<times> 'v \<times> Worker" where
  "answer_ext m sender w = (case run_ext m w of (r, w') \<Rightarrow> ([(sender, respond r)], w'))"

definition handle_CONSENT_DETAILS :: "ext_env \<Rightarrow> string \<Rightarrow> MessageSender \<Rightarrow> Worker \<Rightarrow> Response" where
  "handle_CONSENT_DETAILS E requestId sender k =
     (if \<not> isConsentPage E sender then RError ''unauthorized''
      else (case map_of (wk_pending k) requestId of None \<Rightarrow> RError ''expired'' | Some p \<Rightarrow> RConsent (pd_request p)))"

definition handle_CONSENT_RESULT ::
  "ext_env \<Rightarrow> 'v ExtApi \<Rightarrow> ExtRandom \<Rightarrow> string \<Rightarrow> bool \<Rightarrow> MessageSender \<Rightarrow> 'v \<times> Worker \<Rightarrow> answers \<times> 'v \<times> Worker" where
  "handle_CONSENT_RESULT E api rnd requestId approved sender w =
     (if \<not> isConsentPage E sender then ([(sender, RError ''unauthorized'')], w)
      else (case settle E api rnd requestId approved w of (out, w') \<Rightarrow> ((sender, ROk True) # out, w')))"

fun needs_restore :: "Message \<Rightarrow> bool" where
  "needs_restore (UNLOCK _) = False"
| "needs_restore LOCK = False"
| "needs_restore _ = True"

fun dispatch ::
  "ext_env \<Rightarrow> 'v ExtApi \<Rightarrow> ExtRandom \<Rightarrow> Message \<Rightarrow> MessageSender \<Rightarrow> 'v \<times> Worker \<Rightarrow> answers \<times> 'v \<times> Worker" where
  "dispatch E api rnd (UNLOCK m) sender w = answer_ext (handle_UNLOCK E api m sender) sender w"
| "dispatch E api rnd LOCK sender w = answer_ext (handle_LOCK E api sender) sender w"
| "dispatch E api rnd IS_UNLOCKED sender w = answer_ext (handle_IS_UNLOCKED E sender) sender w"
| "dispatch E api rnd GET_ITEMS sender w = answer_ext (handle_GET_ITEMS E sender) sender w"
| "dispatch E api rnd (SEARCH_ITEMS query url) sender w = answer_ext (handle_SEARCH_ITEMS E query url sender) sender w"
| "dispatch E api rnd (GET_CREDENTIALS itemId) sender w = answer_ext (handle_GET_CREDENTIALS E itemId sender) sender w"
| "dispatch E api rnd FILL_TARGET sender w = answer_ext (handle_FILL_TARGET E sender) sender w"
| "dispatch E api rnd (AUTOFILL itemId tabId confirmed) sender w =
     answer_ext (handle_AUTOFILL E api itemId tabId confirmed sender) sender w"
| "dispatch E api rnd (WEBAUTHN_AVAILABLE rpId) sender w = answer_ext (handle_WEBAUTHN_AVAILABLE E rpId sender) sender w"
| "dispatch E api rnd (WEBAUTHN_HAS_CREDENTIAL rpId allow) sender w =
     answer_ext (handle_WEBAUTHN_HAS_CREDENTIAL E rpId allow sender) sender w"
| "dispatch E api rnd (WEBAUTHN_CREATE m) sender w = ceremony E api rnd (begin_CREATE E m sender) sender w"
| "dispatch E api rnd (WEBAUTHN_GET m) sender w = ceremony E api rnd (begin_GET E m sender) sender w"
| "dispatch E api rnd (CONSENT_DETAILS requestId) sender w = ([(sender, handle_CONSENT_DETAILS E requestId sender (snd w))], w)"
| "dispatch E api rnd (CONSENT_RESULT requestId approved) sender w = handle_CONSENT_RESULT E api rnd requestId approved sender w"
| "dispatch E api rnd UNKNOWN_MESSAGE sender w = ([(sender, RError ''unknown message type'')], w)"

definition handleMessage ::
  "ext_env \<Rightarrow> 'v ExtApi \<Rightarrow> ExtRandom \<Rightarrow> Message \<Rightarrow> MessageSender \<Rightarrow> 'v \<times> Worker \<Rightarrow> answers \<times> 'v \<times> Worker" where
  "handleMessage E api rnd m sender w =
     (let w' = (if ex_vaultState (wk_ext (snd w)) = None \<and> needs_restore m
                then snd (run_ext (restoreVaultState E api) w) else w) in
      dispatch E api rnd m sender w')"

section \<open>Events\<close>

datatype Event =
    MessageEv Message MessageSender
  | AlarmEv string
  | IdleEv string
  | SettingEv int
  | WindowRemovedEv int
  | ConsentTimeoutEv string
  | RestartEv

definition lock_now :: "'v ExtApi \<Rightarrow> 'v \<times> Worker \<Rightarrow> answers \<times> 'v \<times> Worker" where
  "lock_now api w = ([], snd (run_ext (lockVault api) w))"

definition on_setting :: "int \<Rightarrow> ExtState \<Rightarrow> ExtState" where
  "on_setting n s =
     (let s' = s\<lparr>ex_local := js_set AUTO_LOCK_SETTING (JNum n) (ex_local s)\<rparr> in
      if ex_vaultState s' \<noteq> None then arm s' else s')"

text \<open>The worker is torn down and started again: its variables are gone, what is stored stays.\<close>

definition restart :: "Worker \<Rightarrow> Worker" where
  "restart k = \<lparr>wk_ext = (wk_ext k)\<lparr>ex_vaultState := None, ex_lockGeneration := 0\<rparr>, wk_pending = []\<rparr>"

definition window_owner :: "int \<Rightarrow> (string \<times> Pending) list \<Rightarrow> string option" where
  "window_owner wid pending = map_option fst (find (\<lambda>p. pd_windowId (snd p) = Some wid) pending)"

fun step :: "ext_env \<Rightarrow> 'v ExtApi \<Rightarrow> ExtRandom \<Rightarrow> Event \<Rightarrow> 'v \<times> Worker \<Rightarrow> answers \<times> 'v \<times> Worker" where
  "step E api rnd (MessageEv m sender) w = handleMessage E api rnd m sender w"
| "step E api rnd (AlarmEv name) w = (if name = AUTO_LOCK_ALARM then lock_now api w else ([], w))"
| "step E api rnd (IdleEv state) w = (if state = ''idle'' \<or> state = ''locked'' then lock_now api w else ([], w))"
| "step E api rnd (SettingEv n) w = ([], fst w, (snd w)\<lparr>wk_ext := on_setting n (wk_ext (snd w))\<rparr>)"
| "step E api rnd (WindowRemovedEv wid) w =
     (case window_owner wid (wk_pending (snd w)) of None \<Rightarrow> ([], w) | Some requestId \<Rightarrow> settle E api rnd requestId False w)"
| "step E api rnd (ConsentTimeoutEv requestId) w = settle E api rnd requestId False w"
| "step E api rnd RestartEv w = ([], fst w, restart (snd w))"

text \<open>Runs of the worker; between two events anything may happen to the server and the tabs.\<close>

inductive run ::
  "ext_env \<Rightarrow> 'v ExtApi \<Rightarrow> 'v \<times> Worker \<Rightarrow> (Event \<times> answers) list \<Rightarrow> 'v \<times> Worker \<Rightarrow> bool" for E api w where
  start: "run E api w [] w"
| elsewhere: "run E api w tr (v, k) \<Longrightarrow> run E api w tr (v', k)"
| event: "run E api w tr w' \<Longrightarrow> step E api rnd ev w' = (out, w'') \<Longrightarrow> run E api w (tr @ [(ev, out)]) w''"

definition initial :: "Worker" where
  "initial = \<lparr>wk_ext = \<lparr>ex_vaultState = None, ex_session = None, ex_fillTargets = [], ex_local = [], ex_lockGeneration = 0,
     ex_alarm = None, ex_idleInterval = 60, ex_refs = 0, ex_sent = []\<rparr>, wk_pending = []\<rparr>"

end
