(* ===== verification/Extension_Demo.thy ===== *)
theory Extension_Demo
  imports Extension_Worker
begin

text \<open>
  A sample browser and server for the service worker, on which the theorems about it are instantiated:
  one site, one login with a passkey in the vault, sealed with the sample primitives.
\<close>

section \<open>Logins as JSON\<close>

lemma login_json_type: "json_get (item_to_json (Login l)) ''type'' = Some (JStr ''login'')"
  by (simp only: item_to_json_type plain_type.simps)

lemma as_login_json: "as_login (item_to_json (Login l)) = Inr (Some l)"
  unfolding as_login_def js_type_of_def login_json_type item_of_to_json by simp

section \<open>The environment\<close>

definition demo_web :: web where
  "demo_web = \<lparr>new_URL = (\<lambda>u. if u = ''https://x.org'' then
       Some \<lparr>url_protocol = ''https:'', url_hostname = ''x.org'', url_port = '''', url_origin = ''https://x.org''\<rparr> else None),
     parseDomain = (\<lambda>h. if h = ''x.org'' then Some ''x.org'' else None)\<rparr>"

definition demo_env :: ext_env where
  "demo_env = \<lparr>env_crypto = demo_crypto, env_web = demo_web, env_runtimeId = ''ext'',
     env_ecdsa_sign = (\<lambda>_ _. Some (replicate 64 1)), env_localeCompare = (\<lambda>_ _. 0)\<rparr>"

text \<open>The server keeps the items; the tabs take every fill.\<close>

definition demo_api :: "EncryptedVaultItem list ExtApi" where
  "demo_api = \<lparr>
     api_items = (\<lambda>_ _ v. (Inr v, v)),
     api_create = (\<lambda>vid req _ v. (Inl (ApiError ''full'' 507), v)),
     api_update = (\<lambda>_ i req _ v. (case find (\<lambda>x. ev_id x = i) v of
          None \<Rightarrow> (Inl (ApiError ''not found'' 404), v)
        | Some x \<Rightarrow> (Inr (x\<lparr>ev_version := ev_version x + 1\<rparr>), v))),
     api_vaultFormat = (\<lambda>_ v. (Inr None, v)),
     api_logout = (\<lambda>_ v. (Inr (), v)),
     tabs_get = (\<lambda>_ v. (Inr (Some ''https://x.org''), v)),
     tabs_sendMessage = (\<lambda>_ _ _ v. (Inr (Some True), v)),
     windows_create = (\<lambda>_ v. (Inr (Some 7), v)),
     windows_remove = (\<lambda>_ v. (Inr (), v))\<rparr>"

definition demo_popup :: MessageSender where
  "demo_popup = \<lparr>sd_id = Some ''ext'', sd_tab = None, sd_url = Some ''chrome-extension://ext/src/popup/index.html'',
     sd_origin = None, sd_frameId = None, sd_documentId = None\<rparr>"

definition demo_consent_page :: MessageSender where
  "demo_consent_page = \<lparr>sd_id = Some ''ext'', sd_tab = Some \<lparr>tab_id = Some 9\<rparr>,
     sd_url = Some ''chrome-extension://ext/src/consent/index.html?id=r'', sd_origin = None, sd_frameId = Some 0, sd_documentId = None\<rparr>"

definition demo_page :: MessageSender where
  "demo_page = \<lparr>sd_id = Some ''ext'', sd_tab = Some \<lparr>tab_id = Some 3\<rparr>, sd_url = Some ''https://x.org'',
     sd_origin = Some ''https://x.org'', sd_frameId = Some 0, sd_documentId = None\<rparr>"

lemma demo_senders:
  "isExtensionPage demo_env demo_popup" "isConsentPage demo_env demo_consent_page" "\<not> isExtensionContext demo_env demo_page"
  "senderOrigin demo_env demo_page = Some ''https://x.org''" "\<not> isExtensionPage demo_env demo_page"
  by (simp_all add: isExtensionPage_def isConsentPage_def isExtensionContext_def senderOrigin_def demo_popup_def demo_consent_page_def
      demo_page_def demo_env_def getURL_def CONSENT_PAGE_def startsWith_def nonempty_opt_def)

definition demo_unlock :: UnlockMessage where
  "demo_unlock = \<lparr>um_sessionToken = ''t'', um_defaultVaultId = ''v'', um_vaultEncKeyB64 = toBase64 (replicate 32 1),
     um_vaultMacKeyB64 = toBase64 (replicate 32 1)\<rparr>"

definition demo_vault_keys :: VaultKeys where
  "demo_vault_keys = \<lparr>vk_vaultEncKey = demo_aes_key 1, vk_vaultMacKey = demo_mac_key 1\<rparr>"

definition demo_passkey :: PasskeyCredential where
  "demo_passkey = \<lparr>pk_credentialIdB64u = ''Y3JlZA'', pk_rpId = ''x.org'', pk_userHandleB64u = ''dQ'', pk_userName = ''me'',
     pk_privateKeyPkcs8B64 = toBase64 [1], pk_signCount = 4, pk_createdAt = ''2026''\<rparr>"

definition demo_login :: LoginItem where
  "demo_login = \<lparr>login_name = ''x'', login_tags = None, login_username = ''me'', login_password = ''pw'', login_urls = [''https://x.org''],
     login_totp = None, login_notes = None, login_customFields = [], login_passkey = Some demo_passkey\<rparr>"

definition demo_vault_item :: "EncryptedBlob \<Rightarrow> EncryptedVaultItem" where
  "demo_vault_item e = (demo_item demo_user)\<lparr>ev_itemType := ''login'', ev_blob := eb_blob e, ev_blobIv := eb_blobIv e, ev_blobMac := eb_blobMac e\<rparr>"

definition demo_login_binding :: ItemBinding where
  "demo_login_binding = \<lparr>ib_scope = Personal, ib_itemId = demo_user, ib_itemType = ''login''\<rparr>"

definition demo_sealed :: "EncryptedBlob \<Rightarrow> bool" where
  "demo_sealed e \<longleftrightarrow> encryptItemV2 demo_crypto (replicate 12 0) (item_to_json (Login demo_login)) demo_login_binding 3 (demo_aes_key 1) = Inr e"

lemma demo_seals:
  assumes "0 \<le> r" "r \<le> MAX_SAFE_INTEGER" "aes_key_ok k"
  shows "\<exists>e. encryptItemV2 demo_crypto iv (item_to_json (Login l)) demo_login_binding r k = Inr e"
proof -
  have t: "length (utf8_encode ''login'') \<le> 255" by code_simp
  obtain aad where "itemAad demo_login_binding r = Inr aad"
    using assms(1,2) demo_values(1) t by (auto simp: itemAad_Inr demo_login_binding_def scope_bytes_def uuidBytes_js_def simp del: be_bytes.simps)
  then show ?thesis using assms(3) unfolding encryptItemV2_Inr login_json_type by (auto simp: demo_login_binding_def aes_key_ok_def)
qed

lemma demo_sealed_ex: "\<exists>e. demo_sealed e"
  using demo_seals [of 3 "demo_aes_key 1" "replicate 12 0" demo_login] by (simp add: demo_sealed_def MAX_SAFE_INTEGER_def)

lemma demo_decrypts:
  assumes "demo_sealed e" "\<forall>h. revs_get revs demo_user = Some h \<longrightarrow> h \<le> 3"
  shows "decryptStored demo_env (demo_vault_item e) demo_vault_keys revs =
    (Inr \<lparr>di_plaintext = item_to_json (Login demo_login), di_revision = 3, di_format = 2\<rparr>, revs_record demo_user 3 revs)"
proof -
  have "bindingForItem (demo_vault_item e) = demo_login_binding" "ev_encrypted (demo_vault_item e) = e"
    by (simp_all add: bindingForItem_def demo_vault_item_def demo_item_def demo_login_binding_def ev_encrypted_def)
  then show ?thesis
    using decryptVaultItem_encryptItemV2(2) [OF demo_aead_correct demo_aead_expands, of demo_vault_keys "replicate 12 0"
        "item_to_json (Login demo_login)" demo_login_binding 3 e revs] assms
    by (simp add: decryptStored_def demo_env_def demo_sealed_def demo_vault_keys_def demo_login_binding_def)
qed

lemma demo_imports: "importVaultKeys (um_vaultEncKeyB64 demo_unlock) (um_vaultMacKeyB64 demo_unlock) = Inr demo_vault_keys"
  by (simp add: importVaultKeys_def demo_unlock_def fromBase64_js_def subtle_defs demo_vault_keys_def demo_aes_key_def demo_mac_key_def)

text \<open>The popup's unlock on a fresh browser.\<close>

definition demo_unlocked :: "EncryptedVaultItem list \<Rightarrow> Worker \<Rightarrow> bool" where
  "demo_unlocked items k \<longleftrightarrow> wk_pending k = [] \<and> ex_fillTargets (wk_ext k) = [] \<and> ex_sent (wk_ext k) = [] \<and>
     (\<exists>vs. ex_vaultState (wk_ext k) = Some vs \<and> vs_items vs = items \<and> vs_keys vs = demo_vault_keys \<and>
        vs_revisions vs = stored_revisions (JObj []))"

lemma demo_loadRevisions:
  "\<exists>key l. loadRevisions demo_env demo_api (vk_vaultMacKey demo_vault_keys) t d (v, s\<lparr>ex_local := []\<rparr>) =
     (Inr (stored_revisions (JObj []), key), v, s\<lparr>ex_local := l\<rparr>)"
proof -
  obtain tid where "trustStateId demo_crypto (demo_mac_key 1) = Inr tid" using demo_trustStateId by blast
  moreover have "ownLegacyKeys index tid [EXT_TRUST_INDEX_KEY] ''itemRevisions:'' = []" for index
    by (simp add: ownLegacyKeys_def Let_def EXT_TRUST_INDEX_KEY_def startsWith_def)
  moreover have "snd (applyV2OnlyMarker C None k st) = st" for C k st by (simp add: applyV2OnlyMarker_def)
  ultimately show ?thesis
    by (auto simp: loadRevisions_def demo_env_def demo_api_def demo_vault_keys_def Let_def write_revisions_def split: list.splits)
qed

lemma demo_unlocks:
  "\<exists>k. step demo_env demo_api rnd (MessageEv (UNLOCK demo_unlock) demo_popup) (items, initial) =
     ([(demo_popup, ROk True)], items, k) \<and> demo_unlocked items k"
proof -
  let ?s = "lock_start (wk_ext initial)"
  obtain key l where "loadRevisions demo_env demo_api (vk_vaultMacKey demo_vault_keys) ''t'' ''v'' (items, ?s\<lparr>ex_local := []\<rparr>) =
     (Inr (stored_revisions (JObj []), key), items, ?s\<lparr>ex_local := l\<rparr>)" using demo_loadRevisions by blast
  moreover have "?s\<lparr>ex_local := []\<rparr> = ?s" by (simp add: lock_start_def initial_def)
  moreover have "unlock_fetch demo_api demo_unlock (items, wk_ext initial) = (Inr (demo_vault_keys, items), items, wk_ext initial)"
    using demo_imports by (simp add: unlock_fetch_def demo_api_def io_simps)
  moreover have "um_sessionToken demo_unlock = ''t''" "um_defaultVaultId demo_unlock = ''v''" by (simp_all add: demo_unlock_def)
  ultimately have "\<exists>s. unlockVault demo_env demo_api demo_unlock (items, wk_ext initial) = (Inr (), items, s) \<and>
      (\<exists>vs. ex_vaultState s = Some vs \<and> vs_items vs = items \<and> vs_keys vs = demo_vault_keys \<and> vs_revisions vs = stored_revisions (JObj [])) \<and>
      ex_fillTargets s = [] \<and> ex_sent s = []"
    by (simp add: unlockVault_def unlock_load_def io_simps unlock_assign_def set_vault_def armAutoLock_def arm_def unlock_persist_def)
       (simp add: lock_start_def initial_def)
  then show ?thesis
    using demo_senders(1)
    by (auto simp: handleMessage_def handle_UNLOCK_def answer_ext_def run_ext_def io_simps respond_def demo_unlocked_def initial_def)
qed

lemma demo_revisions: "revs_get (stored_revisions (JObj [])) i = None"
  by (simp add: stored_revisions_def obj_members_def js_map_new_def new_MemoryRevisionStore_def revs_get_def)

text \<open>With the login in the vault, a fill, the consent for an assertion, and the assertion.\<close>

lemma demo_frames:
  "top_frame demo_web (Inr (Some ''https://x.org'')) = Some \<lparr>ft_frameId = 0, ft_documentId = None, ft_origin = ''https://x.org''\<rparr>"
  "urlMatches demo_web [''https://x.org''] ''https://x.org''"
  by (simp_all add: top_frame_def nonempty_opt_def demo_web_def urlMatches_def originMatches_def isLoopback_def LOOPBACK_HOSTS_def
      parseUrl_def hostMatches_def defaultPort_def registrableDomain_def hostnameOf_def)

lemma demo_fills:
  assumes "demo_sealed e" "demo_unlocked [demo_vault_item e] k"
  shows "\<exists>k' f. step demo_env demo_api rnd (MessageEv (AUTOFILL demo_user 3 None) demo_popup) ([demo_vault_item e], k) =
     ([(demo_popup, ROk True)], [demo_vault_item e], k') \<and> ex_sent (wk_ext k') = [f]"
proof -
  obtain vs where vs: "ex_vaultState (wk_ext k) = Some vs" "vs_items vs = [demo_vault_item e]" "vs_keys vs = demo_vault_keys"
    "vs_revisions vs = stored_revisions (JObj [])" "ex_fillTargets (wk_ext k) = []" "ex_sent (wk_ext k) = []"
    using assms(2) by (auto simp: demo_unlocked_def)
  have d: "decryptStored demo_env (demo_vault_item e) demo_vault_keys (stored_revisions (JObj [])) =
    (Inr \<lparr>di_plaintext = item_to_json (Login demo_login), di_revision = 3, di_format = 2\<rparr>,
      revs_record demo_user 3 (stored_revisions (JObj [])))" by (rule demo_decrypts [OF assms(1)]) (simp add: demo_revisions)
  have i: "ev_id (demo_vault_item e) = demo_user" by (simp add: demo_vault_item_def demo_item_def)
  have u: "login_urls demo_login = [''https://x.org'']" by (simp add: demo_login_def)
  have w: "env_web demo_env = demo_web" by (simp add: demo_env_def)
  show ?thesis
    using demo_senders(1)
    by (simp add: handleMessage_def answer_ext_def run_ext_def handle_AUTOFILL_def with_vault_def vs armAutoLock_def io_simps open_login_def
        i d as_login_json resolveFillTarget_def put_revisions_def arm_def demo_api_def w demo_frames fill_frame_def u send_fill_def
        Let_def respond_def del: item_to_json.simps)
qed

definition demo_candidate :: "EncryptedBlob \<Rightarrow> Candidate" where
  "demo_candidate e = \<lparr>cn_index = 0, cn_item = demo_vault_item e, cn_plain = demo_login, cn_passkey = demo_passkey, cn_revision = 3\<rparr>"

definition demo_get :: GetMessage where
  "demo_get = \<lparr>wg_rpId = ''x.org'', wg_challengeB64u = ''AQEBAQEBAQEBAQEBAQEBAQ'', wg_allowCredentialIdsB64u = []\<rparr>"

definition demo_client_data :: bytes where
  "demo_client_data = utf8_encode (json_print (client_data ''webauthn.get'' (replicate 16 1) ''https://x.org''))"

lemma demo_challenge: "buildClientDataJSON ''webauthn.get'' ''AQEBAQEBAQEBAQEBAQEBAQ'' ''https://x.org'' = Some demo_client_data"
proof -
  have "b64uToBytes ''AQEBAQEBAQEBAQEBAQEBAQ'' = Some (replicate 16 1)" "list_all b64u_char ''AQEBAQEBAQEBAQEBAQEBAQ''" by code_simp+
  then show ?thesis by (simp add: buildClientDataJSON_def demo_client_data_def MIN_CHALLENGE_BYTES_def)
qed

lemma demo_rp: "rp_allowed demo_env ''x.org'' ''https://x.org''"
  by (simp add: rp_allowed_def rpIdMatchesOrigin_def isRegistrableRpId_def demo_env_def demo_web_def registrableDomain_def startsWith_def
      endsWith_def suffix_to_prefix)

lemma demo_finds:
  assumes "demo_sealed e" "revs_get revs demo_user = None"
  shows "find_passkeys demo_env ''x.org'' [] demo_vault_keys 0 [demo_vault_item e] revs = ([demo_candidate e], revs_record demo_user 3 revs)"
proof -
  have d: "decryptStored demo_env (demo_vault_item e) demo_vault_keys revs =
    (Inr \<lparr>di_plaintext = item_to_json (Login demo_login), di_revision = 3, di_format = 2\<rparr>, revs_record demo_user 3 revs)"
    by (rule demo_decrypts [OF assms(1)]) (simp add: assms(2))
  have i: "ev_deletedAt (demo_vault_item e) = None" "ev_itemType (demo_vault_item e) = ''login''"
    by (simp_all add: demo_vault_item_def demo_item_def)
  have p: "login_passkey demo_login = Some demo_passkey" "pk_rpId demo_passkey = ''x.org''" by (simp_all add: demo_login_def demo_passkey_def)
  show ?thesis by (simp add: d i passkey_of_def as_login_json p demo_candidate_def del: item_to_json.simps)
qed

text \<open>Whatever the worker did since, this is how it waits for the user.\<close>

definition demo_waiting :: "EncryptedBlob \<Rightarrow> string \<Rightarrow> Worker \<Rightarrow> bool" where
  "demo_waiting e requestId k \<longleftrightarrow>
     (\<exists>vs. ex_vaultState (wk_ext k) = Some vs \<and> vs_items vs = [demo_vault_item e] \<and> vs_keys vs = demo_vault_keys \<and>
        vs_revisions vs = revs_record demo_user 3 (stored_revisions (JObj [])) \<and>
        wk_pending k = [(requestId, \<lparr>pd_request = \<lparr>cr_create = False, cr_rpId = ''x.org'', cr_origin = ''https://x.org''\<rparr>,
          pd_windowId = Some 7, pd_sender = demo_page,
          pd_ceremony = GetCeremony demo_get demo_client_data (vs_ref vs) [demo_candidate e]\<rparr>)])"

lemma demo_asks:
  assumes "demo_sealed e" "demo_unlocked [demo_vault_item e] k"
  shows "\<exists>k'. step demo_env demo_api rnd (MessageEv (WEBAUTHN_GET demo_get) demo_page) ([demo_vault_item e], k) =
     ([], [demo_vault_item e], k') \<and> demo_waiting e (er_requestId rnd) k'"
proof -
  obtain vs where vs: "ex_vaultState (wk_ext k) = Some vs" "vs_items vs = [demo_vault_item e]" "vs_keys vs = demo_vault_keys"
    "vs_revisions vs = stored_revisions (JObj [])" "wk_pending k = []"
    using assms(2) by (auto simp: demo_unlocked_def)
  have f: "find_passkeys demo_env ''x.org'' [] demo_vault_keys 0 [demo_vault_item e] (stored_revisions (JObj [])) =
      ([demo_candidate e], revs_record demo_user 3 (stored_revisions (JObj [])))"
    by (rule demo_finds [OF assms(1) demo_revisions])
  have g: "wg_rpId demo_get = ''x.org''" "wg_challengeB64u demo_get = ''AQEBAQEBAQEBAQEBAQEBAQ''" "wg_allowCredentialIdsB64u demo_get = []"
    by (simp_all add: demo_get_def)
  have a: "windows_create demo_api u v = (Inr (Some 7), v)" for u v by (simp add: demo_api_def)
  have "begin_GET demo_env demo_get demo_page ([demo_vault_item e], wk_ext k) =
      (Inr (AskConsent \<lparr>cr_create = False, cr_rpId = ''x.org'', cr_origin = ''https://x.org''\<rparr>
         (GetCeremony demo_get demo_client_data (vs_ref vs) [demo_candidate e])), [demo_vault_item e],
       put_revisions (revs_record demo_user 3 (stored_revisions (JObj []))) (wk_ext k))"
    using demo_senders(4) demo_rp f
    by (simp add: begin_GET_def nonempty_opt_def io_simps vs g findPasskeyLogins_def demo_challenge del: find_passkeys.simps)
  then show ?thesis
    by (simp add: handleMessage_def vs ceremony_def run_ext_def requestConsent_def Let_def a demo_waiting_def)
       (simp add: put_revisions_def vs)
qed

lemma demo_ext_signs: "\<exists>sg. signAssertion (env_ecdsa_sign demo_env) pkcs8 authData h = Inr sg"
  by (simp add: signAssertion_def demo_env_def rawSigToDer_def Let_def)

lemma demo_finish:
  assumes "ex_vaultState s = Some vs" "vs_items vs = [demo_vault_item e]" "vs_keys vs = demo_vault_keys"
    "revs_get (vs_revisions vs) demo_user = Some 3"
  shows "\<exists>d s'. finish_GET demo_env demo_api rnd demo_get cd (vs_ref vs) [demo_candidate e] True ([demo_vault_item e], s) =
     (Inr (RAssertion d), [demo_vault_item e], s')"
proof -
  let ?data = "buildAuthenticatorData demo_crypto ''x.org'' AUTHENTICATOR_FLAGS 5 None"
  let ?plain = "demo_login\<lparr>login_passkey := Some (demo_passkey\<lparr>pk_signCount := 5\<rparr>)\<rparr>"
  obtain sg where sg: "signAssertion (env_ecdsa_sign demo_env) [1] ?data (sha256 demo_crypto cd) = Inr sg" using demo_ext_signs by blast
  obtain e' where e': "encryptItemV2 demo_crypto (er_iv rnd) (item_to_json (Login ?plain)) demo_login_binding 4 (demo_aes_key 1) = Inr e'"
    using demo_seals [of 4 "demo_aes_key 1" "er_iv rnd" ?plain] by (auto simp: MAX_SAFE_INTEGER_def)
  have v: "encryptVaultItem demo_crypto (er_iv rnd) (item_to_json (Login ?plain)) demo_login_binding (demo_aes_key 1)
      (Some (vs_revisions vs)) (Some 3) = Inr (e', 4)"
    using assms(4) e' by (simp add: encryptVaultItem_def demo_login_binding_def)
  have "vk_vaultEncKey demo_vault_keys = demo_aes_key 1" "bindingForItem (demo_vault_item e) = demo_login_binding"
    "pk_signCount demo_passkey = 4" "fromBase64_js (pk_privateKeyPkcs8B64 demo_passkey) = Inr [1]" "wg_rpId demo_get = ''x.org''"
    "env_crypto demo_env = demo_crypto" "newest_first demo_env [demo_candidate e] = [demo_candidate e]"
    "cn_plain (demo_candidate e) = demo_login" "cn_passkey (demo_candidate e) = demo_passkey" "cn_revision (demo_candidate e) = 3"
    "cn_index (demo_candidate e) = 0" "cn_item (demo_candidate e) = demo_vault_item e"
    by (simp_all add: demo_vault_keys_def bindingForItem_def demo_vault_item_def demo_item_def demo_login_binding_def demo_passkey_def
        fromBase64_js_def demo_get_def demo_env_def newest_first_def js_sort_def demo_candidate_def)
  note facts = this
  have u: "\<exists>x. api_update demo_api vid (ev_id (demo_vault_item e)) req t [demo_vault_item e] = (Inr x, [demo_vault_item e])" for vid req t
    by (simp add: demo_api_def)
  show ?thesis
    using u [of "ev_vaultId (demo_vault_item e)" "\<lparr>uv_blob = e', uv_version = ev_version (demo_vault_item e)\<rparr>" "vs_sessionToken vs"]
    by (auto simp: finish_GET_def with_vault_def assms(1-3) armAutoLock_def io_simps Let_def facts candidate_item_def sg v
        simp del: item_to_json.simps)
qed

lemma demo_asserts:
  assumes "demo_waiting e requestId k"
  shows "\<exists>d k'. step demo_env demo_api rnd (MessageEv (CONSENT_RESULT requestId True) demo_consent_page) ([demo_vault_item e], k) =
     ([(demo_consent_page, ROk True), (demo_page, RAssertion d)], [demo_vault_item e], k')"
proof -
  obtain vs where vs: "ex_vaultState (wk_ext k) = Some vs" "vs_items vs = [demo_vault_item e]" "vs_keys vs = demo_vault_keys"
    "vs_revisions vs = revs_record demo_user 3 (stored_revisions (JObj []))"
    and p: "wk_pending k = [(requestId, \<lparr>pd_request = \<lparr>cr_create = False, cr_rpId = ''x.org'', cr_origin = ''https://x.org''\<rparr>,
          pd_windowId = Some 7, pd_sender = demo_page,
          pd_ceremony = GetCeremony demo_get demo_client_data (vs_ref vs) [demo_candidate e]\<rparr>)]"
    using assms by (auto simp: demo_waiting_def)
  have "revs_get (vs_revisions vs) demo_user = Some 3"
    by (simp add: vs revs_get_record demo_revisions)
  then obtain d s' where "finish_GET demo_env demo_api rnd demo_get demo_client_data (vs_ref vs) [demo_candidate e] True
      ([demo_vault_item e], wk_ext k) = (Inr (RAssertion d), [demo_vault_item e], s')"
    using demo_finish [OF vs(1-3)] by blast
  moreover have "snd (windows_remove demo_api i v) = v" for i v by (simp add: demo_api_def)
  ultimately show ?thesis
    using demo_senders(2)
    by (simp add: handleMessage_def vs(1) handle_CONSENT_RESULT_def settle_def p resume_def run_ext_def finish_ceremony_def respond_def Let_def)
qed

definition demo_random :: ExtRandom where
  "demo_random = \<lparr>er_requestId = ''r'', er_keyPair = \<lparr>ec_pkcs8 = [1], ec_spki = [2], ec_raw = replicate 65 3\<rparr>, er_credentialId = [4],
     er_itemId = demo_user, er_iv = replicate 12 5, er_now = ''2026''\<rparr>"

text \<open>Runs with these steps.\<close>

lemma demo_run_unlock:
  "\<exists>tr k. run demo_env demo_api (items, initial) tr (items, k) \<and> demo_unlocked items k"
  using demo_unlocks [of demo_random items] run.event [OF run.start, of demo_env demo_api demo_random] by blast

lemma demo_run_fill:
  assumes "demo_sealed e"
  shows "\<exists>tr k f. run demo_env demo_api ([demo_vault_item e], initial) tr ([demo_vault_item e], k) \<and> f \<in> set (ex_sent (wk_ext k))"
proof -
  obtain tr k where r: "run demo_env demo_api ([demo_vault_item e], initial) tr ([demo_vault_item e], k)" "demo_unlocked [demo_vault_item e] k"
    using demo_run_unlock by blast
  then obtain k' f out where "step demo_env demo_api demo_random (MessageEv (AUTOFILL demo_user 3 None) demo_popup) ([demo_vault_item e], k) =
      (out, [demo_vault_item e], k')" "ex_sent (wk_ext k') = [f]" using demo_fills [OF assms] by blast
  then show ?thesis using run.event [OF r(1)] by (metis list.set_intros(1))
qed

lemma demo_run_assertion:
  assumes "demo_sealed e"
  shows "\<exists>tr w ev out d. run demo_env demo_api ([demo_vault_item e], initial) tr w \<and> (ev, out) \<in> set tr \<and> (demo_page, RAssertion d) \<in> set out"
proof -
  obtain tr k where r: "run demo_env demo_api ([demo_vault_item e], initial) tr ([demo_vault_item e], k)" "demo_unlocked [demo_vault_item e] k"
    using demo_run_unlock by blast
  then obtain k1 out1 where k1: "step demo_env demo_api demo_random (MessageEv (WEBAUTHN_GET demo_get) demo_page) ([demo_vault_item e], k) =
      (out1, [demo_vault_item e], k1)" "demo_waiting e ''r'' k1" using demo_asks [OF assms, of k demo_random] by (auto simp: demo_random_def)
  obtain d k2 out2 where k2: "step demo_env demo_api demo_random (MessageEv (CONSENT_RESULT ''r'' True) demo_consent_page)
      ([demo_vault_item e], k1) = (out2, [demo_vault_item e], k2)" "(demo_page, RAssertion d) \<in> set out2"
    using demo_asserts [OF k1(2), of demo_random] by (metis list.set_intros)
  show ?thesis using run.event [OF run.event [OF r(1) k1(1)] k2(1)] k2(2) by fastforce
qed

end
