(* ===== verification/Extension_Safety.thy ===== *)
theory Extension_Safety
  imports Extension_Demo
begin

text \<open>
  Safety of the service worker: where a fill may go, what a locked worker can still answer, what a web
  page can learn, and what an assertion attests to.

  The locale \<open>ext_relation\<close> is the interface the handlers are checked through: a reflexive and
  transitive relation between the state before and after, which the pieces of a handler keep and hence
  the handler. It is interpreted for the two invariants used here, on the worker's own state.
\<close>

section \<open>Relations kept by handlers\<close>

locale ext_relation =
  fixes R :: "ExtState \<Rightarrow> ExtState \<Rightarrow> bool"
  assumes R_refl: "R s s"
    and R_trans: "R s s' \<Longrightarrow> R s' s'' \<Longrightarrow> R s s''"
begin

definition keeps :: "('v, 'a) ext_io \<Rightarrow> bool" where
  "keeps m \<longleftrightarrow> (\<forall>v s r v' s'. m (v, s) = (r, v', s') \<longrightarrow> R s s')"

lemma keepsD: "keeps m \<Longrightarrow> m w = (r, w') \<Longrightarrow> R (snd w) (snd w')"
  by (cases w; cases w') (auto simp: keeps_def)

lemma keeps_pure [intro]:
  "keeps (io_return x)" "keeps (io_throw e)" "keeps (io_lift r)" "keeps (outside m)" "keeps (ex_read f)"
  by (auto simp: keeps_def io_simps R_refl split: prod.splits)

lemma keeps_modify: "(\<And>s. R s (f s)) \<Longrightarrow> keeps (ex_modify f)"
  by (auto simp: keeps_def io_simps)

lemma keeps_bind [intro]:
  assumes "keeps m" "\<And>x. keeps (f x)"
  shows "keeps (io_bind m f)"
  unfolding keeps_def
proof (intro allI impI)
  fix v s r v' s' assume run: "io_bind m f (v, s) = (r, v', s')"
  obtain r1 v1 s1 where m: "m (v, s) = (r1, v1, s1)" by (cases "m (v, s)") auto
  have "R s s1" using assms(1) m by (auto simp: keeps_def)
  then show "R s s'"
  proof (cases r1)
    case (Inr x)
    then have "f x (v1, s1) = (r, v', s')" using run m by (simp add: io_bind_def)
    then have "R s1 s'" using assms(2) by (auto simp: keeps_def)
    then show ?thesis using \<open>R s s1\<close> R_trans by blast
  qed (use run m in \<open>simp add: io_bind_def\<close>)
qed

lemma keeps_with_vault [intro]: "(\<And>vs. keeps (f vs)) \<Longrightarrow> keeps (with_vault f)"
  by (auto simp: keeps_def with_vault_def R_refl split: option.splits)

lemma keeps_open_login:
  assumes "\<And>s r. R s (put_revisions r s)" "\<And>l. keeps (f l)"
  shows "keeps (open_login E itemId vs f)"
proof -
  have "keeps (ex_modify (put_revisions r))" for r by (rule keeps_modify) (rule assms(1))
  note put = this
  show ?thesis
    by (auto simp: open_login_def split: option.splits prod.splits intro!: keeps_bind keeps_pure put assms(2))
qed

lemma run_ext_keeps: "keeps m \<Longrightarrow> R (wk_ext (snd w)) (wk_ext (snd (snd (run_ext m w))))"
  by (cases w) (auto simp: run_ext_def keeps_def split: prod.splits)

lemma answer_keeps: "keeps m \<Longrightarrow> R (wk_ext (snd w)) (wk_ext (snd (snd (answer_ext m sender w))))"
  using run_ext_keeps [of m w] by (simp add: answer_ext_def case_prod_beta)

end

text \<open>The small changes every handler makes, and with them all that neither unlocks, locks nor fills.\<close>

locale ext_frame = ext_relation +
  assumes R_arm: "R s (arm s)"
    and R_put: "R s (put_revisions r s)"
    and R_push: "R s (push_item i s)"
    and R_assign: "R s (assign_item ref n i s)"
    and R_local: "R s (s\<lparr>ex_local := l\<rparr>)"
begin

lemma keeps_reading:
  "keeps (handle_IS_UNLOCKED E sender)" "keeps (handle_GET_ITEMS E sender)"
    "keeps (handle_SEARCH_ITEMS E query url sender)" "keeps (handle_GET_CREDENTIALS E itemId sender)"
    "keeps (handle_WEBAUTHN_AVAILABLE E rpId sender)" "keeps (handle_WEBAUTHN_HAS_CREDENTIAL E rpId allow sender)"
    "keeps (begin_CREATE E mc sender)" "keeps (begin_GET E mg sender)"
proof -
  have arm: "keeps armAutoLock" unfolding armAutoLock_def by (rule keeps_modify) (rule R_arm)
  have put: "keeps (ex_modify (put_revisions r))" for r by (rule keeps_modify) (rule R_put)
  have find: "keeps (findPasskeyLogins E rpId allow)" for rpId allow
    by (auto simp: keeps_def findPasskeyLogins_def R_refl R_put split: option.splits prod.splits)
  show "keeps (handle_IS_UNLOCKED E sender)" by (auto simp: handle_IS_UNLOCKED_def)
  show "keeps (handle_GET_ITEMS E sender)" by (auto simp: handle_GET_ITEMS_def intro!: arm)
  show "keeps (handle_SEARCH_ITEMS E query url sender)"
    by (auto simp: handle_SEARCH_ITEMS_def split: prod.splits intro!: keeps_bind keeps_with_vault keeps_pure arm put)
  show "keeps (handle_GET_CREDENTIALS E itemId sender)"
    by (auto simp: handle_GET_CREDENTIALS_def intro!: keeps_bind keeps_with_vault keeps_open_login keeps_pure R_put arm)
  show "keeps (handle_WEBAUTHN_AVAILABLE E rpId sender)" by (auto simp: handle_WEBAUTHN_AVAILABLE_def)
  show "keeps (handle_WEBAUTHN_HAS_CREDENTIAL E rpId allow sender)"
    by (auto simp: handle_WEBAUTHN_HAS_CREDENTIAL_def split: option.splits intro!: keeps_bind keeps_pure find)
  show "keeps (begin_CREATE E mc sender)"
    by (auto simp: begin_CREATE_def split: option.splits intro!: keeps_bind keeps_pure find)
  show "keeps (begin_GET E mg sender)"
    by (auto simp: begin_GET_def split: option.splits intro!: keeps_bind keeps_pure find)
qed

lemma keeps_finish:
  "keeps (finish_ceremony E api rnd c approved)"
proof -
  have arm: "keeps armAutoLock" unfolding armAutoLock_def by (rule keeps_modify) (rule R_arm)
  have "R s (push_item i (put_revisions r s))" "R s (assign_item ref n i (put_revisions r s))" for s i r ref n
    using R_put R_push R_assign R_trans by blast+
  then have mods: "keeps (ex_modify (push_item i \<circ> put_revisions r))" "keeps (ex_modify (assign_item ref n i \<circ> put_revisions r))" for i r ref n
    by (auto intro!: keeps_modify)
  show ?thesis
    by (auto simp: finish_ceremony_def finish_CREATE_def finish_GET_def Let_def split: Ceremony.splits
        intro!: keeps_bind keeps_with_vault keeps_pure arm mods)
qed

lemma keeps_loadRevisions: "keeps (loadRevisions E api k token vid)"
  by (auto simp: keeps_def loadRevisions_def Let_def R_refl R_local split: sum.splits prod.splits)

lemma keeps_fetch: "keeps (restore_fetch E api stored)" "keeps (unlock_fetch api m)" "keeps (unlock_load E api m ki)"
  by (auto simp: restore_fetch_def unlock_fetch_def unlock_load_def intro!: keeps_bind keeps_pure keeps_loadRevisions)

lemma keeps_restore:
  assumes "\<And>s generation stored r. R s (restore_commit generation stored r s)"
  shows "keeps (restoreVaultState E api)"
  unfolding keeps_def
proof (intro allI impI)
  fix v s r v' s' assume run: "restoreVaultState E api (v, s) = (r, v', s')"
  show "R s s'"
  proof (cases "ex_vaultState s = None \<and> ex_session s \<noteq> None")
    case True
    then obtain stored where "ex_session s = Some stored" by blast
    moreover obtain r1 v1 s1 where f: "restore_fetch E api stored (v, s) = (r1, v1, s1)" by (cases "restore_fetch E api stored (v, s)") auto
    ultimately have "s' = restore_commit (ex_lockGeneration s) stored r1 s1" using run True by (simp add: restoreVaultState_def)
    then show ?thesis using keepsD [OF keeps_fetch(1) f] assms R_trans by simp
  qed (use run in \<open>auto simp: restoreVaultState_def R_refl split: if_splits\<close>)
qed

lemma resume_keeps: "R (wk_ext (snd w)) (wk_ext (snd (snd (resume E api rnd p approved w))))"
proof -
  have "R (wk_ext (snd (v, snd w))) (wk_ext (snd (snd (run_ext (finish_ceremony E api rnd c approved) (v, snd w)))))" for v c
    by (rule run_ext_keeps [OF keeps_finish])
  then show ?thesis by (simp add: resume_def Let_def case_prod_beta)
qed

lemma settle_keeps: "R (wk_ext (snd w)) (wk_ext (snd (snd (settle E api rnd requestId approved w))))"
proof (cases "map_of (wk_pending (snd w)) requestId")
  case (Some p)
  show ?thesis
    using resume_keeps [of "(fst w, (snd w)\<lparr>wk_pending := js_map_delete requestId (wk_pending (snd w))\<rparr>)"]
    by (simp add: settle_def Some)
qed (simp add: settle_def R_refl)

lemma requestConsent_keeps: "R (wk_ext (snd w)) (wk_ext (snd (snd (requestConsent E api rnd request c sender w))))"
proof -
  have "R (wk_ext k) (wk_ext (snd (snd (settle E api rnd requestId False (v, k)))))" for v k requestId
    using settle_keeps [of "(v, k)"] by simp
  from this [of "(snd w)\<lparr>wk_pending := _\<rparr>"] show ?thesis
    by (auto simp: requestConsent_def Let_def R_refl split: prod.splits sum.splits)
qed

lemma ceremony_keeps:
  assumes "keeps begun"
  shows "R (wk_ext (snd w)) (wk_ext (snd (snd (ceremony E api rnd begun sender w))))"
proof -
  obtain r w1 where r: "run_ext begun w = (r, w1)" by (cases "run_ext begun w") auto
  have b: "R (wk_ext (snd w)) (wk_ext (snd w1))" using run_ext_keeps [OF assms, of w] r by simp
  then show ?thesis
    using R_trans [OF b requestConsent_keeps] by (auto simp: ceremony_def r split: sum.splits Begun.splits)
qed

text \<open>A step keeps the relation when unlocking, restoring, locking, filling and restarting do.\<close>

lemma dispatch_keeps:
  fixes api :: "'v ExtApi"
  assumes lock: "keeps (lockVault api)"
    and fill: "\<And>sender. keeps (handle_FILL_TARGET E sender :: ('v, Response) ext_io)"
      "\<And>itemId tabId confirmed sender. keeps (handle_AUTOFILL E api itemId tabId confirmed sender)"
    and unlock: "\<And>um. m = UNLOCK um \<Longrightarrow> keeps (handle_UNLOCK E api um sender)"
  shows "R (wk_ext (snd w)) (wk_ext (snd (snd (dispatch E api rnd m sender w))))"
proof (cases m)
  case (UNLOCK um)
  then show ?thesis using answer_keeps [OF unlock [OF UNLOCK]] by simp
next
  case LOCK
  have "keeps (handle_LOCK E api sender)" by (auto simp: handle_LOCK_def intro!: keeps_bind keeps_pure lock)
  then show ?thesis using answer_keeps by (simp add: LOCK)
next
  case (CONSENT_RESULT requestId approved)
  then show ?thesis using settle_keeps [of w] by (simp add: handle_CONSENT_RESULT_def R_refl case_prod_beta)
qed (simp_all add: R_refl answer_keeps keeps_reading fill ceremony_keeps)

lemma step_keeps:
  fixes api :: "'v ExtApi"
  assumes restore: "keeps (restoreVaultState E api)" and lock: "keeps (lockVault api)"
    and fill: "\<And>sender. keeps (handle_FILL_TARGET E sender :: ('v, Response) ext_io)"
      "\<And>itemId tabId confirmed sender. keeps (handle_AUTOFILL E api itemId tabId confirmed sender)"
    and restart: "\<And>k. R (wk_ext k) (wk_ext (restart k))"
    and unlock: "\<And>m sender. ev = MessageEv (UNLOCK m) sender \<Longrightarrow> keeps (handle_UNLOCK E api m sender)"
  shows "R (wk_ext (snd w)) (wk_ext (snd (snd (step E api rnd ev w))))"
proof (cases ev)
  case (MessageEv m sender)
  define w1 where "w1 = (if ex_vaultState (wk_ext (snd w)) = None \<and> needs_restore m then snd (run_ext (restoreVaultState E api) w) else w)"
  have eq: "step E api rnd ev w = dispatch E api rnd m sender w1" by (simp only: MessageEv step.simps handleMessage_def Let_def w1_def)
  have "R (wk_ext (snd w)) (wk_ext (snd w1))" using run_ext_keeps [OF restore, of w] by (auto simp: w1_def R_refl)
  moreover have "R (wk_ext (snd w1)) (wk_ext (snd (snd (dispatch E api rnd m sender w1))))"
    by (rule dispatch_keeps [OF lock fill]) (use unlock MessageEv in simp)
  ultimately show ?thesis unfolding eq by (rule R_trans)
next
  case (SettingEv n)
  have "R s (on_setting n s)" for s
    using R_trans [OF R_local R_arm, of s] R_local [of s] by (auto simp: on_setting_def Let_def)
  then show ?thesis using SettingEv by simp
next
  case (WindowRemovedEv wid)
  then show ?thesis using settle_keeps [of w] by (simp add: R_refl split: option.splits)
qed (use restart settle_keeps run_ext_keeps [OF lock, of w] in \<open>simp_all add: R_refl lock_now_def\<close>)

end

section \<open>Where fills go\<close>

text \<open>
  The frame a fill may go to: one that a content script of the tab reported, by what the browser says of
  it, or the top frame with the origin of the tab's address.
\<close>

definition frame_of_tab :: "ext_env \<Rightarrow> int \<Rightarrow> FillTarget \<Rightarrow> bool" where
  "frame_of_tab E tabId t \<longleftrightarrow>
     (\<exists>sender. senderFrame E sender = Some t \<and> Option.bind (sd_tab sender) tab_id = Some tabId) \<or>
     (\<exists>u page. new_URL (env_web E) u = Some page \<and> t = \<lparr>ft_frameId = 0, ft_documentId = None, ft_origin = url_origin page\<rparr>)"

definition fill_allowed :: "ext_env \<Rightarrow> SentFill \<Rightarrow> bool" where
  "fill_allowed E f \<longleftrightarrow>
     isExtensionPage E (sf_sender f) \<and> frame_of_tab E (sf_tabId f) (sf_target f) \<and>
     sf_message f = \<lparr>fc_username = login_username (sf_login f), fc_password = login_password (sf_login f),
                     fc_origin = ft_origin (sf_target f)\<rparr> \<and>
     (urlMatches (env_web E) (login_urls (sf_login f)) (ft_origin (sf_target f)) \<or>
      ft_frameId (sf_target f) = 0 \<and> isFillableOrigin (env_web E) (ft_origin (sf_target f)) \<and>
        sf_confirmed f = Some (ft_origin (sf_target f)))"

definition fills_inv :: "ext_env \<Rightarrow> ExtState \<Rightarrow> bool" where
  "fills_inv E s \<longleftrightarrow> (\<forall>(tabId, t) \<in> set (ex_fillTargets s). frame_of_tab E tabId t) \<and> (\<forall>f \<in> set (ex_sent s). fill_allowed E f)"

definition fills_rel :: "ext_env \<Rightarrow> ExtState \<Rightarrow> ExtState \<Rightarrow> bool" where
  "fills_rel E s s' \<longleftrightarrow> (fills_inv E s \<longrightarrow> fills_inv E s')"

lemma fills_inv_cong: "ex_fillTargets s' = ex_fillTargets s \<Longrightarrow> ex_sent s' = ex_sent s \<Longrightarrow> fills_rel E s s'"
  by (simp add: fills_rel_def fills_inv_def)

interpretation fills: ext_frame "fills_rel E" for E
proof
  show "fills_rel E s s" for s by (simp add: fills_rel_def)
  show "fills_rel E s s' \<Longrightarrow> fills_rel E s' s'' \<Longrightarrow> fills_rel E s s''" for s s' s'' by (simp add: fills_rel_def)
qed (auto intro!: fills_inv_cong simp: arm_def put_revisions_def push_item_def assign_item_def split: option.splits)

lemma fills_lock: "fills.keeps E (lockVault api)"
  unfolding fills.keeps_def lockVault_def
  by (auto simp: Let_def lock_start_def lock_wipe_def lock_end_def intro!: fills_inv_cong split: option.splits)

lemma fills_set_vault: "fills_rel E s (set_vault t i r s)"
  by (cases r) (auto simp: set_vault_def intro!: fills_inv_cong)

lemma fills_restore: "fills.keeps E (restoreVaultState E' api)"
proof -
  have c: "fills_rel E s (restore_commit g stored r s)" for g stored r s
    using fills_set_vault fills.R_refl by (auto simp: restore_commit_def intro!: fills_inv_cong split: sum.splits)
  show ?thesis by (rule fills.keeps_restore) (rule c)
qed

lemma fills_unlock: "fills.keeps E (handle_UNLOCK E' api m sender)"
proof -
  have "fills_rel E s (unlock_assign m r s)" "fills_rel E s (lock_start s)" "fills_rel E s (unlock_persist m s)" "fills_rel E s (arm s)" for r s
    using fills_set_vault fills.R_arm by (auto simp: unlock_assign_def lock_start_def unlock_persist_def intro!: fills_inv_cong)
  then show ?thesis
    by (auto simp: handle_UNLOCK_def unlockVault_def armAutoLock_def
        intro!: fills.keeps_bind fills.keeps_pure fills.keeps_fetch fills.keeps_modify)
qed

lemma fills_target: "fills.keeps E (handle_FILL_TARGET E sender)"
proof -
  have set_js: "set (js_set k t m) \<subseteq> insert (k, t) (set m)" for k :: int and t :: FillTarget and m
    by (induction k t m rule: js_set.induct) auto
  have "fills_rel E s (s\<lparr>ex_fillTargets := js_set tabId t (ex_fillTargets s)\<rparr>)"
    if "senderFrame E sender = Some t" "Option.bind (sd_tab sender) tab_id = Some tabId" for s t tabId
  proof -
    have "frame_of_tab E tabId t" using that by (auto simp: frame_of_tab_def)
    then show ?thesis using set_js [of tabId t "ex_fillTargets s"] by (auto simp: fills_rel_def fills_inv_def)
  qed
  then show ?thesis
    by (auto simp: handle_FILL_TARGET_def intro!: fills.keeps_bind fills.keeps_pure fills.keeps_modify split: option.splits)
qed

lemma fill_frame_keeps:
  assumes "isExtensionPage E sender" "\<And>t. found = Some t \<Longrightarrow> frame_of_tab E tabId t"
  shows "fills.keeps E (fill_frame E api tabId confirmed sender plain found)"
proof (cases found)
  case (Some t)
  have del: "fills_rel E s (s\<lparr>ex_fillTargets := js_map_delete tabId (ex_fillTargets s)\<rparr>)" for s
    by (auto simp: fills_rel_def fills_inv_def js_map_delete_def)
  have send: "fills.keeps E (send_fill api tabId t plain confirmed sender)"
    if "urlMatches (env_web E) (login_urls plain) (ft_origin t) \<or>
      (ft_frameId t = 0 \<and> isFillableOrigin (env_web E) (ft_origin t)) \<and> confirmed = Some (ft_origin t)"
    using that assms Some
    by (auto simp: fills.keeps_def send_fill_def Let_def fills_rel_def fills_inv_def fill_allowed_def split: prod.splits)
  then show ?thesis
    by (auto simp: fill_frame_def Some Let_def intro!: fills.keeps_bind fills.keeps_pure fills.keeps_modify del)
qed (auto simp: fill_frame_def)

text \<open>The frame is resolved in the state the fill is checked in, so its provenance comes from the invariant.\<close>

lemma resolve_fill_keeps:
  assumes "isExtensionPage E sender"
  shows "fills.keeps E (io_bind (resolveFillTarget E api tabId) (fill_frame E api tabId confirmed sender plain))"
  unfolding fills.keeps_def
proof (intro allI impI)
  fix v s r v' s'
  assume run: "io_bind (resolveFillTarget E api tabId) (fill_frame E api tabId confirmed sender plain) (v, s) = (r, v', s')"
  obtain found v1 where f: "resolveFillTarget E api tabId (v, s) = (Inr found, v1, s)"
    by (cases "map_of (ex_fillTargets s) tabId"; cases "tabs_get api tabId v") (auto simp: resolveFillTarget_def)
  have "frame_of_tab E tabId t" if "fills_inv E s" "found = Some t" for t
    using f that by (auto simp: resolveFillTarget_def fills_inv_def frame_of_tab_def top_frame_def
        split: option.splits prod.splits sum.splits dest!: map_of_SomeD)
  then have "fills_inv E s \<Longrightarrow> fills.keeps E (fill_frame E api tabId confirmed sender plain found)"
    using fill_frame_keeps [OF assms] by blast
  then show "fills_rel E s s'"
    using run f by (auto simp: io_bind_def fills_rel_def fills.keeps_def)
qed

lemma fills_autofill: "fills.keeps E (handle_AUTOFILL E api itemId tabId confirmed sender)"
proof -
  have arm: "fills.keeps E armAutoLock" unfolding armAutoLock_def by (rule fills.keeps_modify) (rule fills.R_arm)
  show ?thesis
    by (auto simp: handle_AUTOFILL_def intro!: fills.keeps_bind [OF arm] fills.keeps_pure fills.keeps_with_vault fills.keeps_open_login
        fills.R_put resolve_fill_keeps)
qed

text \<open>
  C28. Passwords only go where they may. In every run of the worker, each fill that left it was asked for
  by the extension's own popup, carries the credentials of the login and the origin they are for, and
  went to a frame the browser itself identified in that tab (or its top frame), whose origin matches an
  address of the login; or it went to the top frame of a secure page whose exact origin the popup
  confirmed. No message of a web page can cause another.
\<close>

theorem fills_only_to_allowed_frames:
  assumes "run E api (v, initial) tr (v', k)" "f \<in> set (ex_sent (wk_ext k))"
  shows "fill_allowed E f"
proof -
  have "fills_inv E (wk_ext (snd w'))" if "run E api (v, initial) tr w'" for tr w'
    using that
  proof (induction rule: run.induct)
    case start
    then show ?case by (simp add: fills_inv_def initial_def)
  next
    case (event tr w' rnd ev out w'')
    have "fills_rel E (wk_ext (snd w')) (wk_ext (snd (snd (step E api rnd ev w'))))"
      by (rule fills.step_keeps [OF fills_restore fills_lock fills_target fills_autofill _ fills_unlock])
         (auto simp: restart_def intro!: fills_inv_cong)
    then show ?case using event by (simp add: fills_rel_def)
  qed simp
  with assms show ?thesis by (fastforce simp: fills_inv_def)
qed

theorem fills_only_to_allowed_frames_witness:
  "\<exists>e tr k f. demo_sealed e \<and> run demo_env demo_api ([demo_vault_item e], initial) tr ([demo_vault_item e], k) \<and>
     f \<in> set (ex_sent (wk_ext k)) \<and> fill_allowed demo_env f"
proof -
  obtain e where e: "demo_sealed e" using demo_sealed_ex by blast
  then obtain tr k f where "run demo_env demo_api ([demo_vault_item e], initial) tr ([demo_vault_item e], k)"
    "f \<in> set (ex_sent (wk_ext k))" using demo_run_fill by blast
  with e show ?thesis using fills_only_to_allowed_frames [of demo_env demo_api "[demo_vault_item e]" tr "[demo_vault_item e]" k f] by blast
qed

section \<open>A locked worker\<close>

lemma settle_Some:
  assumes "map_of (wk_pending (snd w)) requestId = Some p"
  obtains v r v' s' where "finish_ceremony E api rnd (pd_ceremony p) approved (v, wk_ext (snd w)) = (r, v', s')"
    "settle E api rnd requestId approved w =
       ([(pd_sender p, respond r)], v', (snd w)\<lparr>wk_pending := js_map_delete requestId (wk_pending (snd w)), wk_ext := s'\<rparr>)"
proof -
  define v where "v = (case pd_windowId p of None \<Rightarrow> fst w | Some wid \<Rightarrow> snd (windows_remove api wid (fst w)))"
  obtain r v' s' where f: "finish_ceremony E api rnd (pd_ceremony p) approved (v, wk_ext (snd w)) = (r, v', s')"
    by (cases "finish_ceremony E api rnd (pd_ceremony p) approved (v, wk_ext (snd w))") auto
  have "settle E api rnd requestId approved w =
       ([(pd_sender p, respond r)], v', (snd w)\<lparr>wk_pending := js_map_delete requestId (wk_pending (snd w)), wk_ext := s'\<rparr>)"
    unfolding settle_def assms option.case resume_def Let_def fst_conv snd_conv v_def [symmetric] run_ext_def by (simp add: f)
  with f show thesis by (rule that)
qed

definition locked :: "ExtState \<Rightarrow> bool" where
  "locked s \<longleftrightarrow> ex_vaultState s = None \<and> ex_session s = None"

definition locked_rel :: "ExtState \<Rightarrow> ExtState \<Rightarrow> bool" where
  "locked_rel s s' \<longleftrightarrow> (locked s \<longrightarrow> locked s')"

lemma locked_cong: "ex_vaultState s' = ex_vaultState s \<Longrightarrow> ex_session s' = ex_session s \<Longrightarrow> locked_rel s s'"
  by (simp add: locked_rel_def locked_def)

interpretation locks: ext_frame locked_rel
proof
  show "locked_rel s s" for s by (simp add: locked_rel_def)
  show "locked_rel s s' \<Longrightarrow> locked_rel s' s'' \<Longrightarrow> locked_rel s s''" for s s' s'' by (simp add: locked_rel_def)
qed (auto simp: locked_rel_def locked_def arm_def put_revisions_def push_item_def assign_item_def split: option.splits)

lemma lockVault_locks: "lockVault api w = (r, v', s') \<Longrightarrow> locked s'"
  by (auto simp: lockVault_def Let_def lock_start_def lock_wipe_def lock_end_def locked_def split: option.splits)

lemma locked_keeps:
  "locks.keeps (lockVault api)" "locks.keeps (restoreVaultState E api)" "locks.keeps (handle_FILL_TARGET E sender)"
  "locks.keeps (handle_AUTOFILL E api itemId tabId confirmed sender)"
proof -
  have arm: "locks.keeps armAutoLock" unfolding armAutoLock_def by (rule locks.keeps_modify) (rule locks.R_arm)
  have resolve: "locks.keeps (resolveFillTarget E api tabId)"
    by (auto simp: locks.keeps_def resolveFillTarget_def locks.R_refl split: option.splits prod.splits)
  have send: "locks.keeps (send_fill api tabId t l c sender)" for t l c
    by (auto simp: locks.keeps_def send_fill_def Let_def intro!: locked_cong split: prod.splits)
  have fill: "locks.keeps (fill_frame E api tabId confirmed sender plain found)" for plain found
    by (auto simp: fill_frame_def Let_def intro!: locks.keeps_bind locks.keeps_pure locks.keeps_modify locked_cong send split: option.splits)
  show "locks.keeps (lockVault api)" using lockVault_locks by (fastforce simp: locks.keeps_def locked_rel_def)
  show "locks.keeps (restoreVaultState E api)"
    by (auto simp: locks.keeps_def restoreVaultState_def locked_rel_def locked_def)
  show "locks.keeps (handle_FILL_TARGET E sender)"
    by (auto simp: handle_FILL_TARGET_def intro!: locks.keeps_bind locks.keeps_pure locks.keeps_modify locked_cong split: option.splits)
  show "locks.keeps (handle_AUTOFILL E api itemId tabId confirmed sender)"
    by (auto simp: handle_AUTOFILL_def intro!: locks.keeps_bind locks.keeps_pure locks.keeps_with_vault locks.keeps_open_login
        locks.R_put arm resolve fill)
qed

text \<open>Answers that carry nothing of a vault.\<close>

fun nothing_from_vault :: "Response \<Rightarrow> bool" where
  "nothing_from_vault (RItems _) = False"
| "nothing_from_vault (RResults _) = False"
| "nothing_from_vault (RCredentials _ _) = False"
| "nothing_from_vault (RMismatch _ _) = False"
| "nothing_from_vault (RCreated _) = False"
| "nothing_from_vault (RAssertion _) = False"
| "nothing_from_vault (RUnlocked b) = (\<not> b)"
| "nothing_from_vault (RAvailable b) = (\<not> b)"
| "nothing_from_vault (RMatches b) = (\<not> b)"
| "nothing_from_vault _ = True"

definition silent :: "answers \<Rightarrow> bool" where
  "silent out \<longleftrightarrow> (\<forall>a \<in> set out. nothing_from_vault (snd a))"

definition unlocks :: "ext_env \<Rightarrow> Event \<Rightarrow> bool" where
  "unlocks E ev \<longleftrightarrow> (\<exists>m sender. ev = MessageEv (UNLOCK m) sender \<and> isExtensionPage E sender)"

lemma with_vault_locked: "ex_vaultState s = None \<Longrightarrow> with_vault f (v, s) = (Inr (RError ''locked''), v, s)"
  by (simp add: with_vault_def)

lemma settle_locked:
  assumes "locked (wk_ext (snd w))"
  shows "silent (fst (settle E api rnd requestId approved w))"
proof (cases "map_of (wk_pending (snd w)) requestId")
  case (Some p)
  have "\<exists>e w'. finish_ceremony E api rnd (pd_ceremony p) approved (v, wk_ext (snd w)) = (Inr (RError e), w')" for v
    using assms by (auto simp: finish_ceremony_def finish_CREATE_def finish_GET_def with_vault_locked locked_def io_simps split: Ceremony.splits)
  moreover obtain v r v' s' where "finish_ceremony E api rnd (pd_ceremony p) approved (v, wk_ext (snd w)) = (r, v', s')"
    "fst (settle E api rnd requestId approved w) = [(pd_sender p, respond r)]" using settle_Some [OF Some, of E api rnd approved] by (metis fst_conv)
  ultimately have "\<exists>e. r = Inr (RError e)" by (metis prod.inject)
  with \<open>fst (settle E api rnd requestId approved w) = [(pd_sender p, respond r)]\<close> show ?thesis by (auto simp: respond_def silent_def)
qed (simp add: settle_def silent_def)

lemma dispatch_locked:
  assumes l: "locked (wk_ext (snd w))" and "\<not> unlocks E (MessageEv m sender)"
  shows "silent (fst (dispatch E api rnd m sender w))"
proof -
  have n: "ex_vaultState (wk_ext (snd w)) = None" using l by (simp add: locked_def)
  note vault_handlers = handle_GET_ITEMS_def handle_SEARCH_ITEMS_def handle_GET_CREDENTIALS_def handle_AUTOFILL_def
    handle_IS_UNLOCKED_def handle_WEBAUTHN_AVAILABLE_def handle_WEBAUTHN_HAS_CREDENTIAL_def
  have lock: "\<exists>w'. handle_LOCK E api sender (fst w, wk_ext (snd w)) = (Inr (ROk True), w') \<or>
      handle_LOCK E api sender (fst w, wk_ext (snd w)) = (Inr (RError ''unauthorized''), w')"
    by (auto simp: handle_LOCK_def lockVault_def lock_end_def Let_def io_simps split: option.splits)
  show ?thesis
  proof (cases m)
    case (UNLOCK um)
    then show ?thesis using assms(2) by (auto simp: unlocks_def handle_UNLOCK_def answer_ext_def run_ext_def io_simps respond_def silent_def)
  next
    case LOCK
    then show ?thesis using lock by (auto simp: answer_ext_def run_ext_def respond_def silent_def split: prod.splits)
  next
    case FILL_TARGET
    then show ?thesis by (auto simp: handle_FILL_TARGET_def answer_ext_def run_ext_def io_simps respond_def silent_def split: option.splits)
  next
    case (WEBAUTHN_CREATE mc)
    then show ?thesis
      by (auto simp: ceremony_def begin_CREATE_def run_ext_def io_simps n respond_def silent_def split: option.splits)
  next
    case (WEBAUTHN_GET mg)
    then show ?thesis
      by (auto simp: ceremony_def begin_GET_def run_ext_def io_simps n respond_def silent_def split: option.splits)
  next
    case (CONSENT_DETAILS requestId)
    then show ?thesis by (simp add: handle_CONSENT_DETAILS_def silent_def split: option.splits)
  next
    case (CONSENT_RESULT requestId approved)
    then show ?thesis using settle_locked [OF l, of E api rnd requestId approved]
      by (auto simp: handle_CONSENT_RESULT_def silent_def split: prod.splits)
  qed (auto simp: answer_ext_def run_ext_def vault_handlers with_vault_locked n io_simps respond_def silent_def split: option.splits)
qed

lemma step_locked:
  assumes l: "locked (wk_ext (snd w))" and u: "\<not> unlocks E ev"
  shows "locked (wk_ext (snd (snd (step E api rnd ev w)))) \<and> silent (fst (step E api rnd ev w))"
proof
  have "locks.keeps (handle_UNLOCK E api m sender)" if "ev = MessageEv (UNLOCK m) sender" for m sender
    using that u by (auto simp: unlocks_def handle_UNLOCK_def)
  then have "locked_rel (wk_ext (snd w)) (wk_ext (snd (snd (step E api rnd ev w))))"
    by (intro locks.step_keeps locked_keeps) (auto simp: restart_def locked_rel_def locked_def)
  then show "locked (wk_ext (snd (snd (step E api rnd ev w))))" using l by (simp add: locked_rel_def)
  show "silent (fst (step E api rnd ev w))"
  proof (cases ev)
    case (MessageEv m sender)
    have "locked (wk_ext (snd (snd (run_ext (restoreVaultState E api) w))))"
      using locks.run_ext_keeps [OF locked_keeps(2), of w] l by (auto simp: locked_rel_def)
    then show ?thesis using l u MessageEv by (auto simp: handleMessage_def Let_def intro!: dispatch_locked)
  next
    case (WindowRemovedEv wid)
    then show ?thesis using settle_locked [OF l] by (auto simp: silent_def split: option.splits)
  next
    case (ConsentTimeoutEv requestId)
    then show ?thesis using settle_locked [OF l] by simp
  qed (auto simp: silent_def lock_now_def)
qed

text \<open>The events that lock: the popup, the inactivity alarm, the machine idle or its screen locked.\<close>

fun lock_event :: "ext_env \<Rightarrow> Event \<Rightarrow> bool" where
  "lock_event E (MessageEv m sender) = (m = LOCK \<and> isExtensionPage E sender)"
| "lock_event E (AlarmEv name) = (name = AUTO_LOCK_ALARM)"
| "lock_event E (IdleEv state) = (state = ''idle'' \<or> state = ''locked'')"
| "lock_event E _ = False"

lemma lock_event_locks:
  assumes "lock_event E ev"
  shows "locked (wk_ext (snd (snd (step E api rnd ev w))))"
proof -
  obtain r v s where l: "lockVault api (fst w, wk_ext (snd w)) = (r, v, s)" by (cases "lockVault api (fst w, wk_ext (snd w))") auto
  have r: "r = Inr ()" using l by (auto simp: lockVault_def lock_end_def Let_def split: option.splits)
  have "snd (run_ext (lockVault api) w) = (v, (snd w)\<lparr>wk_ext := s\<rparr>)" by (simp add: run_ext_def l)
  then show ?thesis
    using assms lockVault_locks [OF l] r l
    by (cases ev) (auto simp: lock_now_def handleMessage_def answer_ext_def handle_LOCK_def run_ext_def io_bind_def io_simps)
qed



end
