(* ===== verification/Extension_Autolock.thy ===== *)
theory Extension_Autolock
  imports Extension_Safety
begin

text \<open>
  The inactivity lock: as long as the worker holds keys, or a session from which it can restore them,
  a countdown to the lock is running. Handlers are checked through the interface of
  \<open>Extension_Safety\<close> again, here for the invariant \<open>armed\<close>.
\<close>

section \<open>The countdown\<close>

definition armed :: "ExtState \<Rightarrow> bool" where
  "armed s \<longleftrightarrow> ex_vaultState s \<noteq> None \<or> ex_session s \<noteq> None \<longrightarrow>
     (\<exists>m \<in> set AUTO_LOCK_CHOICES. ex_alarm s = Some m \<and> ex_idleInterval s = m * 60)"

definition armed_rel :: "ExtState \<Rightarrow> ExtState \<Rightarrow> bool" where
  "armed_rel s s' \<longleftrightarrow> (armed s \<longrightarrow> armed s')"

lemma autoLockMinutes_choice: "autoLockMinutes s \<in> set AUTO_LOCK_CHOICES"
  by (auto simp: autoLockMinutes_def parseAutoLockMinutes_def AUTO_LOCK_CHOICES_def DEFAULT_AUTO_LOCK_MINUTES_def split: option.splits)

lemma armed_arm: "armed (arm s)"
  using autoLockMinutes_choice by (auto simp: armed_def arm_def)

lemma armed_cong:
  assumes "ex_vaultState s' = None \<longleftrightarrow> ex_vaultState s = None" "ex_session s' = None \<longleftrightarrow> ex_session s = None"
    "ex_alarm s' = ex_alarm s" "ex_idleInterval s' = ex_idleInterval s"
  shows "armed_rel s s'"
  using assms by (simp add: armed_rel_def armed_def)

interpretation countdown: ext_frame armed_rel
proof
  show "armed_rel s s" for s by (simp add: armed_rel_def)
  show "armed_rel s s' \<Longrightarrow> armed_rel s' s'' \<Longrightarrow> armed_rel s s''" for s s' s'' by (simp add: armed_rel_def)
  show "armed_rel s (arm s)" for s by (simp add: armed_rel_def armed_arm)
qed (auto intro!: armed_cong simp: put_revisions_def push_item_def assign_item_def split: option.splits)

lemma lock_armed: "lockVault api w = (r, v', s') \<Longrightarrow> armed s'"
  using lockVault_locks by (fastforce simp: locked_def armed_def)

section \<open>Unlocking and restoring\<close>

lemma restore_armed: "countdown.keeps (restoreVaultState E api)"
  unfolding countdown.keeps_def
proof (intro allI impI)
  fix v s r v' s' assume run: "restoreVaultState E api (v, s) = (r, v', s')"
  show "armed_rel s s'"
  proof (cases "ex_vaultState s = None \<and> ex_session s \<noteq> None")
    case True
    then obtain stored where st: "ex_session s = Some stored" by blast
    obtain r1 v1 s1 where f: "restore_fetch E api stored (v, s) = (r1, v1, s1)" by (rule prod_cases3)
    have s': "s' = restore_commit (ex_lockGeneration s) stored r1 s1" using run True st f by (simp add: restoreVaultState_def)
    obtain l where "s1 = s\<lparr>ex_local := l\<rparr>" using restore_fetch_only_local [OF f] by blast
    then show ?thesis
      using st by (auto simp: s' armed_rel_def armed_def restore_commit_def set_vault_def split: sum.splits prod.splits)
  qed (use run in \<open>auto simp: restoreVaultState_def countdown.R_refl split: if_splits\<close>)
qed

lemma unlock_armed: "countdown.keeps (handle_UNLOCK E api m sender)"
proof -
  have last: "countdown.keeps (io_bind (ex_modify (unlock_assign m r)) (\<lambda>_. io_bind armAutoLock (\<lambda>_. ex_modify (unlock_persist m))))" for r
  proof -
    have "armed (unlock_persist m (arm s))" for s using autoLockMinutes_choice by (auto simp: armed_def arm_def unlock_persist_def)
    then show ?thesis by (auto simp: countdown.keeps_def io_simps armAutoLock_def armed_rel_def)
  qed
  have start: "armed_rel s (lock_start s)" for s by (auto intro!: armed_cong simp: lock_start_def)
  show ?thesis
    by (auto simp: handle_UNLOCK_def unlockVault_def intro!: countdown.keeps_bind countdown.keeps_pure countdown.keeps_fetch
        countdown.keeps_modify last start)
qed

lemma fill_armed: "countdown.keeps (handle_FILL_TARGET E sender)" "countdown.keeps (handle_AUTOFILL E api itemId tabId confirmed sender)"
proof -
  have arm: "countdown.keeps armAutoLock" unfolding armAutoLock_def by (rule countdown.keeps_modify) (rule countdown.R_arm)
  have resolve: "countdown.keeps (resolveFillTarget E api tabId)"
    by (auto simp: countdown.keeps_def resolveFillTarget_def countdown.R_refl split: option.splits prod.splits)
  have send: "countdown.keeps (send_fill api tabId t l c sender)" for t l c
    by (auto simp: countdown.keeps_def send_fill_def Let_def intro!: armed_cong split: prod.splits)
  have fill: "countdown.keeps (fill_frame E api tabId confirmed sender plain found)" for plain found
    by (auto simp: fill_frame_def Let_def intro!: countdown.keeps_bind countdown.keeps_pure countdown.keeps_modify armed_cong send split: option.splits)
  show "countdown.keeps (handle_FILL_TARGET E sender)"
    by (auto simp: handle_FILL_TARGET_def intro!: countdown.keeps_bind countdown.keeps_pure countdown.keeps_modify armed_cong split: option.splits)
  show "countdown.keeps (handle_AUTOFILL E api itemId tabId confirmed sender)"
    by (auto simp: handle_AUTOFILL_def intro!: countdown.keeps_bind countdown.keeps_pure countdown.keeps_with_vault countdown.keeps_open_login
        countdown.R_put arm resolve fill)
qed



end
