(* ===== verification/Extension_Pages.thy ===== *)
theory Extension_Pages
  imports Extension_Safety
begin

text \<open>
  What web pages get from the service worker: nothing of the vault outside passkey ceremonies, and in a
  ceremony an assertion only for the page's own origin, after the user agreed to it.
\<close>

section \<open>Messages of a web page\<close>

text \<open>A content script: it runs in a tab, and its address is not one of the extension's pages.\<close>

definition web_page :: "ext_env \<Rightarrow> MessageSender \<Rightarrow> bool" where
  "web_page E sender \<longleftrightarrow> sd_tab sender \<noteq> None \<and> \<not> isExtensionContext E sender"

fun webauthn_message :: "Message \<Rightarrow> bool" where
  "webauthn_message (WEBAUTHN_AVAILABLE _) = True"
| "webauthn_message (WEBAUTHN_HAS_CREDENTIAL _ _) = True"
| "webauthn_message (WEBAUTHN_CREATE _) = True"
| "webauthn_message (WEBAUTHN_GET _) = True"
| "webauthn_message _ = False"

lemma web_page_rights:
  assumes "web_page E sender"
  shows "\<not> isExtensionPage E sender" "\<not> isExtensionContext E sender" "\<not> isConsentPage E sender"
  using assms by (auto simp: web_page_def isExtensionPage_def isExtensionContext_def isConsentPage_def getURL_def startsWith_def prefix_def
      split: option.splits)

lemma web_page_answer:
  assumes "web_page E sender" "\<not> webauthn_message m"
  shows "\<exists>r. nothing_from_vault r \<and> (\<forall>api rnd w. fst (dispatch E api rnd m sender w) = [(sender, r)])"
proof -
  note rights = web_page_rights [OF assms(1)]
  show ?thesis
  proof (cases m)
    case FILL_TARGET
    then show ?thesis
      by (auto simp: handle_FILL_TARGET_def answer_ext_def run_ext_def io_simps respond_def split: option.splits
          intro!: exI [of _ "ROk (senderFrame E sender \<noteq> None \<and> Option.bind (sd_tab sender) tab_id \<noteq> None)"])
  next
    case (CONSENT_DETAILS requestId)
    then show ?thesis using rights by (auto simp: handle_CONSENT_DETAILS_def intro!: exI [of _ "RError ''unauthorized''"])
  next
    case (CONSENT_RESULT requestId approved)
    then show ?thesis using rights by (auto simp: handle_CONSENT_RESULT_def intro!: exI [of _ "RError ''unauthorized''"])
  next
    case UNKNOWN_MESSAGE
    then show ?thesis by (auto intro!: exI [of _ "RError ''unknown message type''"])
  next
    case IS_UNLOCKED
    then show ?thesis using rights
      by (auto simp: handle_IS_UNLOCKED_def answer_ext_def run_ext_def io_simps respond_def intro!: exI [of _ "RUnlocked False"])
  qed (use rights assms(2) in \<open>auto simp: handle_UNLOCK_def handle_LOCK_def handle_GET_ITEMS_def handle_SEARCH_ITEMS_def
         handle_GET_CREDENTIALS_def handle_AUTOFILL_def answer_ext_def run_ext_def io_simps respond_def
         intro!: exI [of _ "RError ''unauthorized''"]\<close>)
qed

text \<open>
  A web page learns nothing of the vault, and cannot act on it. Outside the passkey messages, the
  answer to a content script is the same in every state of the worker and of the server: it does not
  depend on whether the vault is locked, what is in it, or which consents are pending, and carries
  nothing of it.
\<close>

theorem web_pages_learn_nothing:
  assumes "web_page E sender" "\<not> webauthn_message m"
  shows "\<exists>r. nothing_from_vault r \<and> (\<forall>(api :: 'v ExtApi) rnd w. fst (handleMessage E api rnd m sender w) = [(sender, r)])"
proof -
  obtain r where "nothing_from_vault r" "\<And>(api :: 'v ExtApi) rnd w. fst (dispatch E api rnd m sender w) = [(sender, r)]"
    using web_page_answer [OF assms] by blast
  then show ?thesis unfolding handleMessage_def Let_def by blast
qed

theorem web_pages_learn_nothing_witness:
  "\<exists>r. nothing_from_vault r \<and>
     (\<forall>(api :: EncryptedVaultItem list ExtApi) rnd w. fst (handleMessage demo_env api rnd (GET_CREDENTIALS demo_user) demo_page w) = [(demo_page, r)])"
  using web_pages_learn_nothing [of demo_env demo_page "GET_CREDENTIALS demo_user"] demo_senders(3) by (simp add: web_page_def demo_page_def)

section \<open>Ceremonies\<close>

lemma nonempty_opt_SomeD: "nonempty_opt x = Some y \<Longrightarrow> x = Some y"
  by (simp add: nonempty_opt_Some)

definition ceremony_ok :: "ext_env \<Rightarrow> ConsentRequest \<Rightarrow> Ceremony \<Rightarrow> MessageSender \<Rightarrow> bool" where
  "ceremony_ok E request c sender \<longleftrightarrow>
     senderOrigin E sender = Some (cr_origin request) \<and> rp_allowed E (cr_rpId request) (cr_origin request) \<and>
     (case c of
        CreateCeremony m cd \<Rightarrow> cr_create request \<and> cr_rpId request = wc_rpId m \<and>
          buildClientDataJSON ''webauthn.create'' (wc_challengeB64u m) (cr_origin request) = Some cd
      | GetCeremony m cd ref candidates \<Rightarrow> \<not> cr_create request \<and> cr_rpId request = wg_rpId m \<and>
          buildClientDataJSON ''webauthn.get'' (wg_challengeB64u m) (cr_origin request) = Some cd \<and> candidates \<noteq> [] \<and>
          (\<forall>k \<in> set candidates. pk_rpId (cn_passkey k) = wg_rpId m))"

lemma passkey_of_rpId: "passkey_of E rpId allow d = Some (plain, p) \<Longrightarrow> pk_rpId p = rpId"
  by (auto simp: passkey_of_def split: sum.splits option.splits if_splits)

lemma find_passkeys_rpId:
  "find_passkeys E rpId allow keys n items revs = (cs, revs') \<Longrightarrow> c \<in> set cs \<Longrightarrow> pk_rpId (cn_passkey c) = rpId"
proof (induction items arbitrary: n revs cs)
  case (Cons item items)
  then show ?case by (auto split: if_splits prod.splits sum.splits option.splits dest!: passkey_of_rpId)
qed auto

lemma findPasskeyLogins_rpId:
  "findPasskeyLogins E rpId allow w = (Inr cs, w') \<Longrightarrow> c \<in> set cs \<Longrightarrow> pk_rpId (cn_passkey c) = rpId"
  by (auto simp: findPasskeyLogins_def dest: find_passkeys_rpId split: option.splits prod.splits)

lemma io_bind_read: "io_bind (ex_read f) g w = g (f (snd w)) w"
  by (cases w) (simp add: io_simps)

lemma begin_GET_ok:
  assumes "begin_GET E m sender w = (Inr (AskConsent request c), w')"
  shows "ceremony_ok E request c sender"
proof -
  obtain origin where o: "nonempty_opt (senderOrigin E sender) = Some origin"
    using assms by (auto simp: begin_GET_def io_return_def split: option.splits)
  moreover obtain vs where vs: "ex_vaultState (snd w) = Some vs" "rp_allowed E (wg_rpId m) origin"
    using assms by (auto simp: begin_GET_def o io_bind_read io_return_def split: option.splits if_splits)
  ultimately obtain cs cd w1 where "findPasskeyLogins E (wg_rpId m) (wg_allowCredentialIdsB64u m) w = (Inr cs, w1)" "cs \<noteq> []"
    "buildClientDataJSON ''webauthn.get'' (wg_challengeB64u m) origin = Some cd" "c = GetCeremony m cd (vs_ref vs) cs"
    "request = \<lparr>cr_create = False, cr_rpId = wg_rpId m, cr_origin = origin\<rparr>"
    using assms by (auto simp: begin_GET_def io_bind_read io_bind_Inr io_return_def split: option.splits if_splits)
  then show ?thesis using o vs(2) by (auto simp: ceremony_ok_def findPasskeyLogins_rpId dest: nonempty_opt_SomeD)
qed

lemma begin_CREATE_ok:
  assumes "begin_CREATE E m sender w = (Inr (AskConsent request c), w')"
  shows "ceremony_ok E request c sender"
proof -
  obtain origin where o: "nonempty_opt (senderOrigin E sender) = Some origin"
    using assms by (auto simp: begin_CREATE_def io_return_def split: option.splits)
  then have "rp_allowed E (wc_rpId m) origin"
    using assms by (auto simp: begin_CREATE_def io_bind_read io_return_def split: option.splits if_splits)
  with o show ?thesis
    using assms by (auto simp: begin_CREATE_def io_bind_read io_bind_Inr io_return_def ceremony_ok_def dest: nonempty_opt_SomeD
        split: option.splits if_splits)
qed

text \<open>What an assertion handed to a page attests to.\<close>

definition assertion_ok :: "ext_env \<Rightarrow> MessageSender \<Rightarrow> AssertionData \<Rightarrow> bool" where
  "assertion_ok E page d \<longleftrightarrow>
     (\<exists>origin rpId challenge cd (passkey :: PasskeyCredential) n pkcs8 sg.
        senderOrigin E page = Some origin \<and> rp_allowed E rpId origin \<and> pk_rpId passkey = rpId \<and>
        as_credentialIdB64u d = pk_credentialIdB64u passkey \<and> fromBase64 (pk_privateKeyPkcs8B64 passkey) = Some pkcs8 \<and>
        buildClientDataJSON ''webauthn.get'' challenge origin = Some cd \<and> as_clientDataJSONB64u d = bytesToB64u cd \<and>
        as_authDataB64u d = bytesToB64u (buildAuthenticatorData (env_crypto E) rpId AUTHENTICATOR_FLAGS n None) \<and>
        signAssertion (env_ecdsa_sign E) pkcs8 (buildAuthenticatorData (env_crypto E) rpId AUTHENTICATOR_FLAGS n None)
          (sha256 (env_crypto E) cd) = Inr sg \<and> as_signatureB64u d = bytesToB64u sg)"

lemma assertion_okI:
  fixes passkey :: PasskeyCredential
  assumes "senderOrigin E page = Some origin" "rp_allowed E rpId origin" "pk_rpId passkey = rpId"
    "as_credentialIdB64u d = pk_credentialIdB64u passkey" "fromBase64 (pk_privateKeyPkcs8B64 passkey) = Some pkcs8"
    "buildClientDataJSON ''webauthn.get'' challenge origin = Some cd" "as_clientDataJSONB64u d = bytesToB64u cd"
    "as_authDataB64u d = bytesToB64u (buildAuthenticatorData (env_crypto E) rpId AUTHENTICATOR_FLAGS n None)"
    "signAssertion (env_ecdsa_sign E) pkcs8 (buildAuthenticatorData (env_crypto E) rpId AUTHENTICATOR_FLAGS n None)
       (sha256 (env_crypto E) cd) = Inr sg" "as_signatureB64u d = bytesToB64u sg"
  shows "assertion_ok E page d"
  unfolding assertion_ok_def by (intro exI conjI) (rule assms)+

lemma newest_first_hd: "cs \<noteq> [] \<Longrightarrow> hd (newest_first E cs) \<in> set cs"
  by (metis hd_in_set newest_first_def set_empty set_js_sort)

lemma finish_assertion:
  assumes "finish_ceremony E api rnd c approved w = (Inr (RAssertion d), w')" "ceremony_ok E request c sender"
  shows "approved \<and> assertion_ok E sender d"
proof (cases c)
  case (CreateCeremony m cd)
  then show ?thesis using assms(1)
    by (auto simp: finish_ceremony_def finish_CREATE_def with_vault_def io_bind_Inr io_return_def Let_def split: if_splits option.splits)
next
  case (GetCeremony m cd ref cs)
  let ?k = "cn_passkey (hd (newest_first E cs))"
  let ?data = "buildAuthenticatorData (env_crypto E) (wg_rpId m) AUTHENTICATOR_FLAGS (pk_signCount ?k + 1) None"
  obtain pkcs8 sg where r: "approved" "fromBase64_js (pk_privateKeyPkcs8B64 ?k) = Inr pkcs8"
    "signAssertion (env_ecdsa_sign E) pkcs8 ?data (sha256 (env_crypto E) cd) = Inr sg"
    "d = \<lparr>as_credentialIdB64u = pk_credentialIdB64u ?k, as_authDataB64u = bytesToB64u ?data, as_signatureB64u = bytesToB64u sg,
          as_userHandleB64u = pk_userHandleB64u ?k, as_clientDataJSONB64u = bytesToB64u cd\<rparr>"
    using assms(1) by (auto simp: GetCeremony finish_ceremony_def finish_GET_def with_vault_def io_bind_Inr io_return_def io_lift_def Let_def
        split: if_splits option.splits prod.splits)
  have "pk_rpId ?k = wg_rpId m" using assms(2) newest_first_hd by (auto simp: ceremony_ok_def GetCeremony)
  then show ?thesis
    using assms(2) r by (intro conjI assertion_okI [where passkey = ?k]) (auto simp: ceremony_ok_def GetCeremony fromBase64_js_def)
qed

definition pending_ok :: "ext_env \<Rightarrow> (string \<times> Pending) list \<Rightarrow> bool" where
  "pending_ok E pending \<longleftrightarrow> (\<forall>(i, p) \<in> set pending. ceremony_ok E (pd_request p) (pd_ceremony p) (pd_sender p))"

text \<open>A step leaves only such consents behind, and an assertion goes out only when the consent page approved.\<close>

definition step_ok :: "ext_env \<Rightarrow> Event \<Rightarrow> answers \<times> 'v \<times> Worker \<Rightarrow> bool" where
  "step_ok E ev r \<longleftrightarrow> pending_ok E (wk_pending (snd (snd r))) \<and>
     (\<forall>page d. (page, RAssertion d) \<in> set (fst r) \<longrightarrow>
        assertion_ok E page d \<and> (\<exists>i sender. ev = MessageEv (CONSENT_RESULT i True) sender \<and> isConsentPage E sender))"

lemma pending_ok_delete: "pending_ok E pending \<Longrightarrow> pending_ok E (js_map_delete i pending)"
  by (auto simp: pending_ok_def js_map_delete_def)

lemma pending_ok_set:
  assumes "pending_ok E pending" "ceremony_ok E (pd_request p) (pd_ceremony p) (pd_sender p)"
  shows "pending_ok E (js_set i p pending)"
proof -
  have "set (js_set i p pending) \<subseteq> insert (i, p) (set pending)" by (induction i p pending rule: js_set.induct) auto
  then show ?thesis using assms by (auto simp: pending_ok_def)
qed

lemma settle_ok:
  assumes "pending_ok E (wk_pending (snd w))"
  shows "pending_ok E (wk_pending (snd (snd (settle E api rnd i approved w)))) \<and>
    (\<forall>page d. (page, RAssertion d) \<in> set (fst (settle E api rnd i approved w)) \<longrightarrow> approved \<and> assertion_ok E page d)"
proof (cases "map_of (wk_pending (snd w)) i")
  case (Some p)
  have ok: "ceremony_ok E (pd_request p) (pd_ceremony p) (pd_sender p)"
    using assms map_of_SomeD [OF Some] by (auto simp: pending_ok_def)
  obtain v r v' s' where f: "finish_ceremony E api rnd (pd_ceremony p) approved (v, wk_ext (snd w)) = (r, v', s')"
    and st: "settle E api rnd i approved w =
       ([(pd_sender p, respond r)], v', (snd w)\<lparr>wk_pending := js_map_delete i (wk_pending (snd w)), wk_ext := s'\<rparr>)"
    by (rule settle_Some [OF Some])
  have "r = Inr (RAssertion d)" if "respond r = RAssertion d" for d using that by (auto simp: respond_def split: sum.splits)
  then have "approved \<and> assertion_ok E (pd_sender p) d" if "RAssertion d = respond r" for d
    using that [symmetric] f finish_assertion [OF _ ok, of api rnd approved "(v, wk_ext (snd w))" d "(v', s')"] by simp
  then show ?thesis using pending_ok_delete [OF assms] by (auto simp: st)
qed (simp add: settle_def assms)

lemma requestConsent_ok:
  assumes "pending_ok E (wk_pending (snd w))" "ceremony_ok E request c sender"
  shows "pending_ok E (wk_pending (snd (snd (requestConsent E api rnd request c sender w)))) \<and>
    (\<forall>page d. (page, RAssertion d) \<notin> set (fst (requestConsent E api rnd request c sender w)))"
proof -
  let ?p = "\<lparr>pd_request = request, pd_windowId = None, pd_sender = sender, pd_ceremony = c\<rparr>"
  have p: "pending_ok E (js_set i (?p\<lparr>pd_windowId := wid\<rparr>) (wk_pending (snd w)))" "pending_ok E (js_set i ?p (wk_pending (snd w)))" for i wid
    using assms by (auto intro!: pending_ok_set)
  then show ?thesis
    using settle_ok [of E "(v, (snd w)\<lparr>wk_pending := js_set (er_requestId rnd) ?p (wk_pending (snd w))\<rparr>)" api rnd "er_requestId rnd" False for v]
    by (cases "windows_create api (getURL E (CONSENT_PAGE @ ''?id='' @ er_requestId rnd)) (fst w)")
       (auto simp: requestConsent_def Let_def split: sum.splits)
qed


lemma answer_ext_ok:
  assumes "pending_ok E (wk_pending (snd w))" "\<And>d w'. m (fst w, wk_ext (snd w)) = (Inr (RAssertion d), w') \<Longrightarrow> False"
  shows "step_ok E ev (answer_ext m sender w)"
  using assms by (auto simp: step_ok_def answer_ext_def run_ext_def respond_def split: prod.splits sum.splits)

lemma ceremony_step_ok:
  assumes "pending_ok E (wk_pending (snd w))"
    and "\<And>request c w'. begun (fst w, wk_ext (snd w)) = (Inr (AskConsent request c), w') \<Longrightarrow> ceremony_ok E request c sender"
    and "\<And>d w'. begun (fst w, wk_ext (snd w)) = (Inr (Answered (RAssertion d)), w') \<Longrightarrow> False"
  shows "step_ok E ev (ceremony E api rnd begun sender w)"
proof -
  obtain r v s where b: "begun (fst w, wk_ext (snd w)) = (r, v, s)" by (cases "begun (fst w, wk_ext (snd w))") auto
  let ?w = "(v, (snd w)\<lparr>wk_ext := s\<rparr>)"
  have "step_ok E ev (requestConsent E api rnd request c sender ?w)" if "r = Inr (AskConsent request c)" for request c
    using requestConsent_ok [of E ?w request c sender api rnd] assms(1,2) b that by (auto simp: step_ok_def)
  then show ?thesis
    using assms(1,3) b by (auto simp: ceremony_def run_ext_def step_ok_def respond_def split: sum.splits Begun.splits)
qed

lemma begin_no_assertion:
  "begin_CREATE E mc sender w = (Inr (Answered (RAssertion d)), w') \<Longrightarrow> False"
  "begin_GET E mg sender w = (Inr (Answered (RAssertion d)), w') \<Longrightarrow> False"
  by (auto simp: begin_CREATE_def begin_GET_def io_bind_read io_bind_Inr io_return_def split: option.splits if_splits)

lemmas handler_defs = handle_UNLOCK_def handle_LOCK_def handle_GET_ITEMS_def handle_SEARCH_ITEMS_def handle_GET_CREDENTIALS_def
  handle_AUTOFILL_def handle_IS_UNLOCKED_def handle_WEBAUTHN_AVAILABLE_def handle_WEBAUTHN_HAS_CREDENTIAL_def
  handle_FILL_TARGET_def open_login_def fill_frame_def

lemma dispatch_ok:
  assumes "pending_ok E (wk_pending (snd w))"
  shows "step_ok E (MessageEv m sender) (dispatch E api rnd m sender w)"
proof (cases m)
  case (WEBAUTHN_CREATE mc)
  then show ?thesis using ceremony_step_ok [OF assms begin_CREATE_ok begin_no_assertion(1)] by simp
next
  case (WEBAUTHN_GET mg)
  then show ?thesis using ceremony_step_ok [OF assms begin_GET_ok begin_no_assertion(2)] by simp
next
  case (CONSENT_DETAILS i)
  then show ?thesis using assms by (auto simp: step_ok_def handle_CONSENT_DETAILS_def split: option.splits if_splits)
next
  case (CONSENT_RESULT i approved)
  then show ?thesis using settle_ok [OF assms, of api rnd i approved] assms
    by (cases "settle E api rnd i approved w") (auto simp: step_ok_def handle_CONSENT_RESULT_def)
next
  case UNKNOWN_MESSAGE
  then show ?thesis using assms by (auto simp: step_ok_def)
qed (auto intro!: answer_ext_ok [OF assms] simp: handler_defs with_vault_def io_bind_Inr io_return_def ex_read_def Let_def
     split: option.splits if_splits prod.splits)

lemma step_is_ok:
  assumes "pending_ok E (wk_pending (snd w))"
  shows "step_ok E ev (step E api rnd ev w)"
proof (cases ev)
  case (MessageEv m sender)
  have "wk_pending (snd (snd (run_ext n w))) = wk_pending (snd w)" for n :: "('a, unit) ext_io"
    by (simp add: run_ext_def split: prod.splits)
  then show ?thesis using assms by (auto simp: MessageEv handleMessage_def Let_def intro!: dispatch_ok)
next
  case (WindowRemovedEv wid)
  have "step_ok E ev (settle E api rnd i False w)" for i using settle_ok [OF assms, of api rnd i False] by (auto simp: step_ok_def)
  then show ?thesis using WindowRemovedEv assms by (auto simp: step_ok_def split: option.splits)
next
  case (ConsentTimeoutEv i)
  then show ?thesis using settle_ok [OF assms, of api rnd i False] by (auto simp: step_ok_def)
qed (use assms in \<open>auto simp: step_ok_def lock_now_def run_ext_def restart_def pending_ok_def split: prod.splits\<close>)

text \<open>
  C30. An assertion speaks for the page that gets it, and only with consent. In every run of the worker,
  each assertion that goes out was approved in the extension's own consent window, goes to a page whose
  browser-reported origin may use the relying party id (a registrable suffix of its own secure host),
  and is a signature with a passkey of that id over authenticator data for that id and client data of
  type \<open>webauthn.get\<close> with that very origin, whatever the page asked to have signed.
\<close>

theorem assertions_speak_for_their_page:
  assumes "run E api (v, initial) tr w" "(ev, out) \<in> set tr" "(page, RAssertion d) \<in> set out"
  shows "assertion_ok E page d \<and> (\<exists>i sender. ev = MessageEv (CONSENT_RESULT i True) sender \<and> isConsentPage E sender)"
proof -
  have "pending_ok E (wk_pending (snd w)) \<and> (\<forall>(ev, out) \<in> set tr. \<forall>page d. (page, RAssertion d) \<in> set out \<longrightarrow>
      assertion_ok E page d \<and> (\<exists>i sender. ev = MessageEv (CONSENT_RESULT i True) sender \<and> isConsentPage E sender))"
    using assms(1)
  proof (induction rule: run.induct)
    case start
    then show ?case by (simp add: pending_ok_def initial_def)
  next
    case (event tr w' rnd ev out w'')
    then show ?case using step_is_ok [of E w' ev api rnd] by (auto simp: step_ok_def)
  qed auto
  with assms(2,3) show ?thesis by blast
qed

theorem assertions_speak_for_their_page_witness:
  "\<exists>e tr w ev out d. demo_sealed e \<and> run demo_env demo_api ([demo_vault_item e], initial) tr w \<and> (ev, out) \<in> set tr \<and>
     (demo_page, RAssertion d) \<in> set out \<and> assertion_ok demo_env demo_page d"
proof -
  obtain e where e: "demo_sealed e" using demo_sealed_ex by blast
  then obtain tr w ev out d where "run demo_env demo_api ([demo_vault_item e], initial) tr w" "(ev, out) \<in> set tr"
    "(demo_page, RAssertion d) \<in> set out" using demo_run_assertion by blast
  with e show ?thesis using assertions_speak_for_their_page [of demo_env demo_api "[demo_vault_item e]" tr w ev out demo_page d] by blast
qed

end
