(* ===== verification/Extension_Ceremonies.thy ===== *)
theory Extension_Ceremonies
  imports Extension_Pages
begin

text \<open>
  Questions and answers of the service worker: every answer goes to one who asked and has the type of
  the question, every passkey request is answered in the end, and an assertion's counter is what the
  vault holds afterwards.
\<close>

section \<open>The type of an answer\<close>

definition failed :: "Response \<Rightarrow> bool" where
  "failed r \<longleftrightarrow> (\<exists>e. r = RError e)"

definition reply :: "Message \<Rightarrow> Response \<Rightarrow> bool" where
  "reply m r \<longleftrightarrow>
     (case m of
        UNLOCK _ \<Rightarrow> r = ROk True \<or> failed r
      | LOCK \<Rightarrow> r = ROk True \<or> failed r
      | IS_UNLOCKED \<Rightarrow> (\<exists>b. r = RUnlocked b)
      | GET_ITEMS \<Rightarrow> (\<exists>items. r = RItems items) \<or> failed r
      | SEARCH_ITEMS _ _ \<Rightarrow> (\<exists>rs. r = RResults rs) \<or> failed r
      | GET_CREDENTIALS _ \<Rightarrow> (\<exists>u p. r = RCredentials u p) \<or> failed r
      | AUTOFILL _ _ _ \<Rightarrow> r = ROk True \<or> (\<exists>origin c. r = RMismatch origin c) \<or> failed r
      | FILL_TARGET \<Rightarrow> (\<exists>b. r = ROk b)
      | WEBAUTHN_AVAILABLE _ \<Rightarrow> (\<exists>b. r = RAvailable b)
      | WEBAUTHN_HAS_CREDENTIAL _ _ \<Rightarrow> (\<exists>b. r = RMatches b)
      | WEBAUTHN_CREATE _ \<Rightarrow> (\<exists>d. r = RCreated d) \<or> failed r
      | WEBAUTHN_GET _ \<Rightarrow> (\<exists>d. r = RAssertion d) \<or> failed r
      | CONSENT_DETAILS _ \<Rightarrow> (\<exists>q. r = RConsent q) \<or> failed r
      | CONSENT_RESULT _ _ \<Rightarrow> r = ROk True \<or> failed r
      | UNKNOWN_MESSAGE \<Rightarrow> failed r)"

fun message_of :: "Ceremony \<Rightarrow> Message" where
  "message_of (CreateCeremony m _) = WEBAUTHN_CREATE m"
| "message_of (GetCeremony m _ _ _) = WEBAUTHN_GET m"

text \<open>Who waits for an answer to what: the sender of this message, and the pages with a pending ceremony.\<close>

definition asked :: "Event \<Rightarrow> (string \<times> Pending) list \<Rightarrow> MessageSender \<Rightarrow> Message \<Rightarrow> bool" where
  "asked ev pending page m \<longleftrightarrow>
     ev = MessageEv m page \<or> (\<exists>(i, p) \<in> set pending. page = pd_sender p \<and> m = message_of (pd_ceremony p))"

definition answers_fit :: "Event \<Rightarrow> (string \<times> Pending) list \<Rightarrow> answers \<times> 'v \<times> Worker \<Rightarrow> bool" where
  "answers_fit ev pending res \<longleftrightarrow>
     (\<forall>(page, r) \<in> set (fst res). \<exists>m. asked ev pending page m \<and> reply m r) \<and>
     (\<forall>(i, p) \<in> set (wk_pending (snd (snd res))). asked ev pending (pd_sender p) (message_of (pd_ceremony p)))"

lemma asked_sender: "asked (MessageEv m page) pending page m"
  by (simp add: asked_def)

lemma asked_pending: "(i, p) \<in> set pending \<Longrightarrow> asked ev pending (pd_sender p) (message_of (pd_ceremony p))"
  by (force simp: asked_def)

lemma reply_error [simp]:
  "reply (UNLOCK um) (RError e)" "reply LOCK (RError e)" "reply GET_ITEMS (RError e)" "reply (SEARCH_ITEMS q u) (RError e)"
  "reply (GET_CREDENTIALS i) (RError e)" "reply (AUTOFILL i t c) (RError e)" "reply (WEBAUTHN_CREATE mc) (RError e)"
  "reply (WEBAUTHN_GET mg) (RError e)" "reply (message_of cer) (RError e)"
  by (simp_all add: reply_def failed_def) (cases cer; simp add: failed_def)

lemma reply_flag [simp]: "reply FILL_TARGET (ROk b)" "reply (WEBAUTHN_HAS_CREDENTIAL rpId allow) (RMatches b)"
  by (simp_all add: reply_def)

lemma finish_reply:
  assumes "finish_ceremony E api rnd c approved w = (r, w')"
  shows "reply (message_of c) (respond r)"
proof (cases r)
  case (Inr x)
  then show ?thesis
    using assms by (cases c) (auto simp: finish_ceremony_def finish_CREATE_def finish_GET_def with_vault_def io_bind_Inr io_return_def
        Let_def respond_def reply_def failed_def split: if_splits option.splits prod.splits)
qed (simp add: respond_def)

lemma settle_answers:
  assumes "settle E api rnd i approved w = (out, w')"
  shows "(page, r) \<in> set out \<Longrightarrow> \<exists>j p. (j, p) \<in> set (wk_pending (snd w)) \<and> page = pd_sender p \<and> reply (message_of (pd_ceremony p)) r"
    "set (wk_pending (snd w')) \<subseteq> set (wk_pending (snd w))"
proof -
  have "(\<forall>(page, r) \<in> set out. \<exists>(j, p) \<in> set (wk_pending (snd w)). page = pd_sender p \<and> reply (message_of (pd_ceremony p)) r) \<and>
    set (wk_pending (snd w')) \<subseteq> set (wk_pending (snd w))"
  proof (cases "map_of (wk_pending (snd w)) i")
    case (Some p)
    obtain v r v' s' where f: "finish_ceremony E api rnd (pd_ceremony p) approved (v, wk_ext (snd w)) = (r, v', s')"
      and s: "settle E api rnd i approved w =
       ([(pd_sender p, respond r)], v', (snd w)\<lparr>wk_pending := js_map_delete i (wk_pending (snd w)), wk_ext := s'\<rparr>)"
      by (rule settle_Some [OF Some])
    have "out = [(pd_sender p, respond r)]" "wk_pending (snd w') = js_map_delete i (wk_pending (snd w))" using s assms by auto
    then show ?thesis using finish_reply [OF f] map_of_SomeD [OF Some] by (force simp: js_map_delete_def)
  qed (use assms in \<open>simp add: settle_def\<close>)
  then show "(page, r) \<in> set out \<Longrightarrow> \<exists>j p. (j, p) \<in> set (wk_pending (snd w)) \<and> page = pd_sender p \<and> reply (message_of (pd_ceremony p)) r"
    "set (wk_pending (snd w')) \<subseteq> set (wk_pending (snd w))" by fast+
qed

text \<open>What a handler that answers at once has to show.\<close>

lemma answer_ext_fits:
  fixes h :: "('v, Response) ext_io"
  assumes "\<And>x v' s'. h (fst w, wk_ext (snd w)) = (Inr x, v', s') \<Longrightarrow> reply m x"
    and "\<And>e v' s'. h (fst w, wk_ext (snd w)) = (Inl e, v', s') \<Longrightarrow> reply m (RError (error_message e))"
  shows "answers_fit (MessageEv m sender) (wk_pending (snd w)) (answer_ext h sender w)"
  using assms
  by (cases "h (fst w, wk_ext (snd w))") (fastforce simp: answers_fit_def answer_ext_def run_ext_def respond_def asked_def split: sum.splits)

lemma requestConsent_fits:
  assumes "message_of c = m"
  shows "answers_fit (MessageEv m sender) (wk_pending (snd w)) (requestConsent E api rnd request c sender w)"
proof -
  let ?p = "\<lparr>pd_request = request, pd_windowId = None, pd_sender = sender, pd_ceremony = c\<rparr>"
  obtain x v where c: "windows_create api (getURL E (CONSENT_PAGE @ ''?id='' @ er_requestId rnd)) (fst w) = (x, v)" by (rule prod.exhaust)
  have set_js: "set (js_set k t ps) \<subseteq> insert (k, t) (set ps)" for k :: string and t :: Pending and ps
    by (induction k t ps rule: js_set.induct) auto
  let ?w = "(v, (snd w)\<lparr>wk_pending := js_set (er_requestId rnd) ?p (wk_pending (snd w))\<rparr>)"
  obtain out w' where s: "settle E api rnd (er_requestId rnd) False ?w = (out, w')" by (rule prod.exhaust)
  show ?thesis
  proof (cases x)
    case (Inl e)
    then have r: "requestConsent E api rnd request c sender w = (out, w')"
      unfolding requestConsent_def Let_def c prod.case Inl sum.case by (intro s)
    have sub: "set (wk_pending (snd ?w)) \<subseteq> insert (er_requestId rnd, ?p) (set (wk_pending (snd w)))" using set_js by simp
    have "\<exists>n. asked (MessageEv m sender) (wk_pending (snd w)) page n \<and> reply n y" if out: "(page, y) \<in> set out" for page y
    proof -
      obtain j p where "(j, p) \<in> set (wk_pending (snd ?w))" "page = pd_sender p" "reply (message_of (pd_ceremony p)) y"
        using settle_answers(1) [OF s out] by blast
      moreover from this sub have "asked (MessageEv m sender) (wk_pending (snd w)) (pd_sender p) (message_of (pd_ceremony p))"
        using assms asked_sender asked_pending by fastforce
      ultimately show ?thesis by blast
    qed
    moreover have "asked (MessageEv m sender) (wk_pending (snd w)) (pd_sender p) (message_of (pd_ceremony p))"
      if "(j, p) \<in> set (wk_pending (snd w'))" for j p
      using settle_answers(2) [OF s] that sub assms by (force simp: asked_def)
    ultimately show ?thesis unfolding r answers_fit_def by auto
  next
    case (Inr wid)
    have r: "requestConsent E api rnd request c sender w =
        ([], v, (snd w)\<lparr>wk_pending := js_set (er_requestId rnd) (?p\<lparr>pd_windowId := wid\<rparr>) (wk_pending (snd w))\<rparr>)"
      unfolding requestConsent_def Let_def c prod.case Inr sum.case by (rule refl)
    show ?thesis
      using set_js [of "er_requestId rnd" "?p\<lparr>pd_windowId := wid\<rparr>" "wk_pending (snd w)"] assms
      unfolding r answers_fit_def by (fastforce simp: asked_def)
  qed
qed

lemma ceremony_fits:
  assumes "\<And>x w'. begun (fst w, wk_ext (snd w)) = (Inr (Answered x), w') \<Longrightarrow> reply m x"
    and "\<And>q c w'. begun (fst w, wk_ext (snd w)) = (Inr (AskConsent q c), w') \<Longrightarrow> message_of c = m"
    and "\<And>e. reply m (RError e)"
  shows "answers_fit (MessageEv m sender) (wk_pending (snd w)) (ceremony E api rnd begun sender w)"
proof -
  obtain r v s where b: "begun (fst w, wk_ext (snd w)) = (r, v, s)" by (cases "begun (fst w, wk_ext (snd w))") auto
  have "answers_fit (MessageEv m sender) (wk_pending (snd w)) (requestConsent E api rnd q c sender (v, (snd w)\<lparr>wk_ext := s\<rparr>))"
    if "r = Inr (AskConsent q c)" for q c
    using requestConsent_fits [of c m sender "(v, (snd w)\<lparr>wk_ext := s\<rparr>)"] assms(2) b that by simp
  then show ?thesis
    using assms(1,3) b
    by (cases r) (fastforce simp: ceremony_def run_ext_def answers_fit_def asked_def respond_def split: Begun.splits)+
qed

lemma fill_frame_reply:
  "fill_frame E api tabId confirmed sender plain found w = (Inr x, w') \<Longrightarrow> x = ROk True \<or> (\<exists>origin c. x = RMismatch origin c) \<or> failed x"
  by (cases found) (auto simp: fill_frame_def Let_def io_bind_Inr io_return_def failed_def split: if_splits)

lemma open_login_reply: "open_login E itemId vs f w = (Inr x, w') \<Longrightarrow> failed x \<or> (\<exists>l w1. f l w1 = (Inr x, w'))"
  by (auto simp: open_login_def io_bind_Inr io_return_def failed_def split: option.splits prod.splits)

lemma dispatch_fits: "answers_fit (MessageEv m sender) (wk_pending (snd w)) (dispatch E api rnd m sender w)"
proof (cases m)
  case (WEBAUTHN_CREATE mc)
  have "begin_CREATE E mc sender w1 = (Inr (AskConsent q c), w') \<Longrightarrow> message_of c = m"
    "begin_CREATE E mc sender w1 = (Inr (Answered x), w') \<Longrightarrow> reply m x" for w1 w' :: "'a \<times> ExtState" and q c x
    by (auto simp: WEBAUTHN_CREATE begin_CREATE_def io_bind_read io_bind_Inr io_return_def split: option.splits if_splits)
  then show ?thesis unfolding WEBAUTHN_CREATE dispatch.simps by (intro ceremony_fits) (auto simp: WEBAUTHN_CREATE)
next
  case (WEBAUTHN_GET mg)
  have "begin_GET E mg sender w1 = (Inr (AskConsent q c), w') \<Longrightarrow> message_of c = m"
    "begin_GET E mg sender w1 = (Inr (Answered x), w') \<Longrightarrow> reply m x" for w1 w' :: "'a \<times> ExtState" and q c x
    by (auto simp: WEBAUTHN_GET begin_GET_def io_bind_read io_bind_Inr io_return_def split: option.splits if_splits)
  then show ?thesis unfolding WEBAUTHN_GET dispatch.simps by (intro ceremony_fits) (auto simp: WEBAUTHN_GET)
next
  case (AUTOFILL itemId tabId confirmed)
  have "x = ROk True \<or> (\<exists>origin c. x = RMismatch origin c) \<or> failed x"
    if "handle_AUTOFILL E api itemId tabId confirmed sender (fst w, wk_ext (snd w)) = (Inr x, v', s')" for x v' s'
    using that unfolding handle_AUTOFILL_def
    by (auto simp: with_vault_def io_bind_Inr io_return_def failed_def [of "RError _"] split: if_splits option.splits
        dest!: open_login_reply dest: fill_frame_reply)
  then show ?thesis unfolding AUTOFILL dispatch.simps by (intro answer_ext_fits) (auto simp: reply_def failed_def)
next
  case FILL_TARGET
  then show ?thesis
    by (auto intro!: answer_ext_fits simp: handle_FILL_TARGET_def io_simps split: option.splits)
next
  case (WEBAUTHN_HAS_CREDENTIAL rpId allow)
  then show ?thesis
    by (auto intro!: answer_ext_fits simp: handle_WEBAUTHN_HAS_CREDENTIAL_def findPasskeyLogins_def io_simps
        split: option.splits if_splits prod.splits)
next
  case (CONSENT_DETAILS i)
  then show ?thesis
    by (auto simp: answers_fit_def asked_def handle_CONSENT_DETAILS_def reply_def failed_def split: option.splits)
next
  case (CONSENT_RESULT i approved)
  obtain out w' where s: "settle E api rnd i approved w = (out, w')" by (rule prod.exhaust)
  have old: "\<exists>n. asked (MessageEv m sender) (wk_pending (snd w)) page n \<and> reply n r" if "(page, r) \<in> set out" for page r
    using settle_answers(1) [OF s that] asked_pending by metis
  have kept: "asked (MessageEv m sender) (wk_pending (snd w)) (pd_sender p) (message_of (pd_ceremony p))"
    if "(j, p) \<in> set (wk_pending (snd w'))" for j p
    using settle_answers(2) [OF s] that by (fastforce simp: asked_def)
  have "asked (MessageEv m sender) (wk_pending (snd w)) sender m" "reply m (ROk True)" "reply m (RError ''unauthorized'')"
    by (simp_all add: asked_def CONSENT_RESULT reply_def failed_def)
  moreover have "asked (MessageEv m sender) (wk_pending (snd w)) (pd_sender p) (message_of (pd_ceremony p))"
    if "(j, p) \<in> set (wk_pending (snd w))" for j p
    using that by (fastforce simp: asked_def)
  moreover have "dispatch E api rnd m sender w =
      (if isConsentPage E sender then ((sender, ROk True) # out, w') else ([(sender, RError ''unauthorized'')], w))"
    by (simp add: CONSENT_RESULT handle_CONSENT_RESULT_def s)
  ultimately show ?thesis using old kept by (auto simp: answers_fit_def intro: exI [of _ m])
next
  case UNKNOWN_MESSAGE
  then show ?thesis by (auto simp: answers_fit_def asked_def reply_def failed_def)
qed (auto intro!: answer_ext_fits simp: handler_defs with_vault_def io_bind_Inr io_return_def ex_read_def Let_def reply_def failed_def
     split: option.splits if_splits prod.splits)

lemma settle_fits:
  assumes "\<And>m page. ev \<noteq> MessageEv m page"
  shows "answers_fit ev (wk_pending (snd w)) (settle E api rnd i approved w)"
proof -
  obtain out w' where s: "settle E api rnd i approved w = (out, w')" by (rule prod.exhaust)
  have "\<exists>n. asked ev (wk_pending (snd w)) page n \<and> reply n r" if "(page, r) \<in> set out" for page r
    using settle_answers(1) [OF s that] asked_pending by metis
  moreover have "asked ev (wk_pending (snd w)) (pd_sender p) (message_of (pd_ceremony p))"
    if "(j, p) \<in> set (wk_pending (snd w'))" for j p
    using settle_answers(2) [OF s] that asked_pending by blast
  ultimately show ?thesis unfolding s answers_fit_def by auto
qed

lemma quiet_fits: "wk_pending k' \<in> {[], wk_pending (snd w)} \<Longrightarrow> answers_fit ev (wk_pending (snd w)) ([], v, k')"
  using asked_pending by (fastforce simp: answers_fit_def)

lemma run_ext_pending [simp]: "wk_pending (snd (snd (run_ext h w))) = wk_pending (snd w)"
  by (simp add: run_ext_def split: prod.splits)

lemma lock_fits: "answers_fit ev (wk_pending (snd w)) (lock_now api w)"
  using quiet_fits [of "snd (snd (run_ext (lockVault api) w))" w ev "fst (snd (run_ext (lockVault api) w))"] by (simp add: lock_now_def)

lemma step_fits: "answers_fit ev (wk_pending (snd w)) (step E api rnd ev w)"
proof (cases ev)
  case (MessageEv m sender)
  let ?w = "snd (run_ext (restoreVaultState E api) w)"
  have "answers_fit (MessageEv m sender) (wk_pending (snd w)) (dispatch E api rnd m sender ?w)"
    using dispatch_fits [of m sender ?w] by simp
  then show ?thesis using dispatch_fits [of m sender w E api rnd] unfolding MessageEv step.simps handleMessage_def Let_def by auto
next
  case (WindowRemovedEv wid)
  then show ?thesis using settle_fits [of ev w] quiet_fits [of "snd w" w ev "fst w"]
    by (cases "window_owner wid (wk_pending (snd w))") auto
next
  case (ConsentTimeoutEv i)
  then show ?thesis using settle_fits [of ev w] by simp
next
  case (AlarmEv name)
  then show ?thesis using lock_fits [of ev w api] quiet_fits [of "snd w" w ev "fst w"] by auto
next
  case (IdleEv state)
  then show ?thesis using lock_fits [of ev w api] quiet_fits [of "snd w" w ev "fst w"] by auto
qed (auto intro!: quiet_fits simp: restart_def)

text \<open>
  C31. Answers fit questions. In every run, each answer the worker gives goes to a sender that asked for
  it, earlier or with this very event, and has the type of that question: items for GET_ITEMS,
  credentials only for GET_CREDENTIALS, an assertion only for WEBAUTHN_GET, and for the messages the
  callers read without checking for errors (IS_UNLOCKED, FILL_TARGET, WEBAUTHN_AVAILABLE,
  WEBAUTHN_HAS_CREDENTIAL) never an error.
\<close>

theorem answers_fit_questions:
  assumes "run E api (v, initial) tr w" "n < length tr" "(page, r) \<in> set (snd (tr ! n))"
  shows "\<exists>j \<le> n. \<exists>m. fst (tr ! j) = MessageEv m page \<and> reply m r"
proof -
  let ?asked = "\<lambda>tr n page m. \<exists>j \<le> n. j < length tr \<and> fst (tr ! j) = MessageEv m page"
  have "(\<forall>n < length tr. \<forall>(page, r) \<in> set (snd (tr ! n)). \<exists>m. ?asked tr n page m \<and> reply m r) \<and>
    (\<forall>(i, p) \<in> set (wk_pending (snd w)). ?asked tr (length tr) (pd_sender p) (message_of (pd_ceremony p)))"
    using assms(1)
  proof (induction rule: run.induct)
    case start
    then show ?case by (simp add: initial_def)
  next
    case (event tr w' rnd ev out w'')
    have fit: "answers_fit ev (wk_pending (snd w')) (out, w'')" using step_fits [of ev w' E api rnd] event.hyps(2) by simp
    have old: "?asked (tr @ [(ev, out)]) n page m" if "?asked tr n page m" for n page m using that by (auto simp: nth_append)
    have new: "?asked (tr @ [(ev, out)]) (length tr) page m" if "asked ev (wk_pending (snd w')) page m" for page m
      using that event.IH by (fastforce simp: asked_def nth_append)
    have "\<exists>m. ?asked (tr @ [(ev, out)]) n page m \<and> reply m r"
      if "n < length (tr @ [(ev, out)])" "(page, r) \<in> set (snd ((tr @ [(ev, out)]) ! n))" for n page r
    proof (cases "n < length tr")
      case True
      then show ?thesis using that(2) event.IH old by (fastforce simp: nth_append)
    next
      case False
      then have "n = length tr" using that(1) by simp
      moreover from this that(2) have "(page, r) \<in> set out" by simp
      then obtain m where "asked ev (wk_pending (snd w')) page m" "reply m r" using fit by (auto simp: answers_fit_def)
      ultimately show ?thesis using new by blast
    qed
    moreover have "?asked (tr @ [(ev, out)]) (length (tr @ [(ev, out)])) (pd_sender p) (message_of (pd_ceremony p))"
      if "(i, p) \<in> set (wk_pending (snd w''))" for i p
    proof -
      have "asked ev (wk_pending (snd w')) (pd_sender p) (message_of (pd_ceremony p))" using fit that by (auto simp: answers_fit_def)
      from new [OF this] show ?thesis by (metis le_SucI length_append_singleton)
    qed
    ultimately show ?case by blast
  qed simp
  then obtain m where "?asked tr n page m" "reply m r" using assms(2,3) by blast
  then show ?thesis by blast
qed

theorem answers_fit_questions_witness:
  "\<exists>e tr w n d j m. demo_sealed e \<and> run demo_env demo_api ([demo_vault_item e], initial) tr w \<and> n < length tr \<and>
     (demo_page, RAssertion d) \<in> set (snd (tr ! n)) \<and> j \<le> n \<and> fst (tr ! j) = MessageEv m demo_page \<and> reply m (RAssertion d)"
proof -
  obtain e where e: "demo_sealed e" using demo_sealed_ex by blast
  then obtain tr w ev out d where r: "run demo_env demo_api ([demo_vault_item e], initial) tr w" "(ev, out) \<in> set tr"
    "(demo_page, RAssertion d) \<in> set out" using demo_run_assertion by blast
  then obtain n where n: "n < length tr" "tr ! n = (ev, out)" by (metis in_set_conv_nth)
  then have "(demo_page, RAssertion d) \<in> set (snd (tr ! n))" using r(3) by simp
  with e r(1) n(1) show ?thesis
    using answers_fit_questions [of demo_env demo_api "[demo_vault_item e]" tr w n demo_page "RAssertion d"] by blast
qed

section \<open>Every request is answered\<close>

text \<open>
  The worker over a list of events, each with what is drawn at random for it and the state of the
  server and the tabs it meets.
\<close>

fun play :: "ext_env \<Rightarrow> 'v ExtApi \<Rightarrow> (ExtRandom \<times> Event \<times> 'v) list \<Rightarrow> Worker \<Rightarrow> answers" where
  "play E api [] k = []"
| "play E api ((rnd, ev, v) # rest) k = (case step E api rnd ev (v, k) of (out, v', k') \<Rightarrow> out @ play E api rest k')"

definition answered_now :: "Pending \<Rightarrow> answers \<Rightarrow> bool" where
  "answered_now p out \<longleftrightarrow> (\<exists>r. (pd_sender p, r) \<in> set out \<and> reply (message_of (pd_ceremony p)) r)"

text \<open>A pending request stays, unless it is answered.\<close>

definition waits :: "string \<Rightarrow> Pending \<Rightarrow> answers \<times> 'v \<times> Worker \<Rightarrow> bool" where
  "waits i p res \<longleftrightarrow> map_of (wk_pending (snd (snd res))) i = Some p \<or> answered_now p (fst res)"

lemma settle_waits:
  assumes "map_of (wk_pending (snd w)) i = Some p"
  shows "waits i p (settle E api rnd j approved w)" "answered_now p (fst (settle E api rnd i approved w))"
proof -
  obtain v r v' s' where f: "finish_ceremony E api rnd (pd_ceremony p) approved (v, wk_ext (snd w)) = (r, v', s')"
    and s: "settle E api rnd i approved w =
     ([(pd_sender p, respond r)], v', (snd w)\<lparr>wk_pending := js_map_delete i (wk_pending (snd w)), wk_ext := s'\<rparr>)"
    by (rule settle_Some [OF assms])
  show a: "answered_now p (fst (settle E api rnd i approved w))"
    using finish_reply [OF f] unfolding s answered_now_def by auto
  show "waits i p (settle E api rnd j approved w)"
  proof (cases "j = i")
    case False
    show ?thesis
    proof (cases "map_of (wk_pending (snd w)) j")
      case (Some q)
      obtain v r v' s' where s: "settle E api rnd j approved w =
        ([(pd_sender q, respond r)], v', (snd w)\<lparr>wk_pending := js_map_delete j (wk_pending (snd w)), wk_ext := s'\<rparr>)"
        by (rule settle_Some [OF Some])
      then show ?thesis using False assms unfolding s waits_def by simp
    qed (simp add: settle_def waits_def assms)
  qed (use a in \<open>simp add: waits_def\<close>)
qed

lemma requestConsent_waits:
  assumes "map_of (wk_pending (snd w)) i = Some p" "er_requestId rnd \<noteq> i"
  shows "waits i p (requestConsent E api rnd request c sender w)"
proof -
  obtain x v where c: "windows_create api (getURL E (CONSENT_PAGE @ ''?id='' @ er_requestId rnd)) (fst w) = (x, v)" by (rule prod.exhaust)
  show ?thesis
    unfolding requestConsent_def Let_def c prod.case
    using assms by (cases x) (auto intro!: settle_waits(1) simp: waits_def [of i p "([], _)"])
qed

lemma step_waits:
  assumes "map_of (wk_pending (snd w)) i = Some p" "er_requestId rnd \<noteq> i" "ev \<noteq> RestartEv"
  shows "waits i p (step E api rnd ev w)"
proof -
  have quiet: "waits i p (out, v, k)" if "wk_pending k = wk_pending (snd w)" for out v k
    using that assms(1) by (simp add: waits_def)
  have ext: "waits i p (answer_ext h sender w1)" if "wk_pending (snd w1) = wk_pending (snd w)" for h sender and w1 :: "'a \<times> Worker"
    using that assms(1) by (simp add: waits_def answer_ext_def run_ext_def split: prod.splits)
  have cer: "waits i p (ceremony E api rnd b sender w1)" if "wk_pending (snd w1) = wk_pending (snd w)" for b sender and w1 :: "'a \<times> Worker"
    using that assms(1,2)
    by (cases "run_ext b w1") (auto simp: ceremony_def run_ext_def waits_def [of i p "(_ # _, _)"] intro!: requestConsent_waits
        split: sum.splits Begun.splits prod.splits)
  have "waits i p (dispatch E api rnd m sender w1)" if "wk_pending (snd w1) = wk_pending (snd w)" for m sender w1
  proof (cases m)
    case (CONSENT_RESULT j approved)
    have "waits i p (settle E api rnd j approved w1)" using settle_waits(1) that assms(1) by metis
    then show ?thesis
      using that assms(1) by (auto simp: CONSENT_RESULT handle_CONSENT_RESULT_def waits_def answered_now_def split: prod.splits)
  qed (use ext [OF that] cer [OF that] that assms(1) in \<open>simp_all add: waits_def [of i p "([_], _)"]\<close>)
  note dispatch = this
  show ?thesis
  proof (cases ev)
    case (MessageEv m sender)
    then show ?thesis using dispatch by (auto simp: handleMessage_def Let_def)
  next
    case (WindowRemovedEv wid)
    then show ?thesis using settle_waits(1) [OF assms(1)] quiet [of "snd w" "[]" "fst w"] by (auto split: option.splits)
  next
    case (ConsentTimeoutEv j)
    then show ?thesis using settle_waits(1) [OF assms(1)] by simp
  qed (use assms(3) in \<open>auto intro!: quiet simp: lock_now_def waits_def assms(1)\<close>)
qed


lemma play_answers:
  assumes "map_of (wk_pending k) i = Some p" "\<forall>(r, ev, u) \<in> set evs. er_requestId r \<noteq> i \<and> ev \<noteq> RestartEv"
    "(r0, ConsentTimeoutEv i, u0) \<in> set evs"
  shows "answered_now p (play E api evs k)"
  using assms
proof (induction evs arbitrary: k)
  case (Cons x rest)
  obtain rnd ev v where x: "x = (rnd, ev, v)" by (cases x)
  obtain out v' k' where s: "step E api rnd ev (v, k) = (out, v', k')" by (rule prod_cases3)
  have w: "waits i p (out, v', k')" using step_waits [of "(v, k)" i p rnd ev E api] Cons.prems by (simp add: x s)
  show ?case
  proof (cases "answered_now p out")
    case False
    then have k': "map_of (wk_pending k') i = Some p" using w by (simp add: waits_def)
    have "ev \<noteq> ConsentTimeoutEv i"
      using settle_waits(2) [of "(v, k)" i p E api rnd False] Cons.prems(1) s False by (auto simp del: step.simps simp: step.simps(6))
    then have "(r0, ConsentTimeoutEv i, u0) \<in> set rest" using Cons.prems(3) by (auto simp: x)
    then have "answered_now p (play E api rest k')" using Cons.IH [OF k'] Cons.prems(2) by auto
    then show ?thesis by (auto simp: x s answered_now_def simp del: step.simps)
  qed (auto simp: x s answered_now_def simp del: step.simps)
qed simp

fun ceremony_message :: "Message \<Rightarrow> bool" where
  "ceremony_message (WEBAUTHN_CREATE _) = True"
| "ceremony_message (WEBAUTHN_GET _) = True"
| "ceremony_message _ = False"

lemma ceremony_message_of: "ceremony_message m \<Longrightarrow> \<exists>c. message_of c = m"
  by (cases m) (simp_all, (metis message_of.simps)+)

lemma ceremony_starts:
  assumes "ceremony_message m"
  shows "\<exists>p. pd_sender p = sender \<and> message_of (pd_ceremony p) = m \<and> waits (er_requestId rnd) p (dispatch E api rnd m sender w)"
proof -
  have start: "\<exists>p. pd_sender p = sender \<and> message_of (pd_ceremony p) = m \<and> waits (er_requestId rnd) p (requestConsent E api rnd q c sender w1)"
    if "message_of c = m" for q c and w1 :: "'a \<times> Worker"
  proof -
    let ?p = "\<lparr>pd_request = q, pd_windowId = None, pd_sender = sender, pd_ceremony = c\<rparr>"
    obtain x v where x: "windows_create api (getURL E (CONSENT_PAGE @ ''?id='' @ er_requestId rnd)) (fst w1) = (x, v)" by (rule prod.exhaust)
    show ?thesis
    proof (cases x)
      case (Inl e)
      show ?thesis unfolding requestConsent_def Let_def x prod.case Inl sum.case
        by (rule exI [of _ ?p]) (use that in \<open>auto intro!: settle_waits(1)\<close>)
    next
      case (Inr wid)
      show ?thesis unfolding requestConsent_def Let_def x prod.case Inr sum.case
        by (rule exI [of _ "?p\<lparr>pd_windowId := wid\<rparr>"]) (use that in \<open>simp add: waits_def\<close>)
    qed
  qed
  have begun: "\<exists>p. pd_sender p = sender \<and> message_of (pd_ceremony p) = m \<and> waits (er_requestId rnd) p (ceremony E api rnd b sender w)"
    if b: "\<And>x w'. b (fst w, wk_ext (snd w)) = (Inr (Answered x), w') \<Longrightarrow> reply m x"
      "\<And>q c w'. b (fst w, wk_ext (snd w)) = (Inr (AskConsent q c), w') \<Longrightarrow> message_of c = m" for b
  proof -
    obtain c where c: "message_of c = m" using ceremony_message_of [OF assms] by blast
    have now: "\<exists>p. pd_sender p = sender \<and> message_of (pd_ceremony p) = m \<and> waits (er_requestId rnd) p ([(sender, y)], w')"
      if "reply m y" for y and w' :: "'a \<times> Worker"
      by (rule exI [of _ "\<lparr>pd_request = undefined, pd_windowId = None, pd_sender = sender, pd_ceremony = c\<rparr>"])
         (simp add: c waits_def answered_now_def that)
    have err: "reply m (RError e)" for e using c reply_error(9) by metis
    obtain r v s where r: "b (fst w, wk_ext (snd w)) = (r, v, s)" by (rule prod_cases3)
    show ?thesis
      using now start err b r by (cases r) (auto simp: ceremony_def run_ext_def respond_def split: Begun.splits)
  qed
  show ?thesis
  proof (cases m)
    case (WEBAUTHN_CREATE mc)
    have "dispatch E api rnd m sender w = ceremony E api rnd (begin_CREATE E mc sender) sender w" by (simp add: WEBAUTHN_CREATE)
    then show ?thesis
      by (simp only:) (rule begun, auto simp: WEBAUTHN_CREATE begin_CREATE_def io_bind_read io_bind_Inr io_return_def split: option.splits if_splits)
  next
    case (WEBAUTHN_GET mg)
    have "dispatch E api rnd m sender w = ceremony E api rnd (begin_GET E mg sender) sender w" by (simp add: WEBAUTHN_GET)
    then show ?thesis
      by (simp only:) (rule begun, auto simp: WEBAUTHN_GET begin_GET_def io_bind_read io_bind_Inr io_return_def split: option.splits if_splits)
  qed (use assms in simp_all)
qed

text \<open>
  C32. Every passkey request is answered. Once a page asked to create or use a passkey, then whatever
  happens until the consent's timer has fired (messages of any sender, the window closing or failing to
  open, locking, the server failing), the page has got an answer of the right type by then, unless the
  browser tears the worker down in between. The ids of the other requests are different, as random UUIDs
  are.
\<close>

theorem every_request_answered:
  assumes "ceremony_message m" "step E api rnd (MessageEv m sender) (v, k) = (out, v', k')"
    and "\<forall>(r, ev, u) \<in> set evs. er_requestId r \<noteq> er_requestId rnd \<and> ev \<noteq> RestartEv"
    and "(r0, ConsentTimeoutEv (er_requestId rnd), u0) \<in> set evs"
  shows "\<exists>r. (sender, r) \<in> set (out @ play E api evs k') \<and> reply m r"
proof -
  obtain w1 where "step E api rnd (MessageEv m sender) (v, k) = dispatch E api rnd m sender w1"
    by (simp add: handleMessage_def Let_def)
  then obtain p where p: "pd_sender p = sender" "message_of (pd_ceremony p) = m" "waits (er_requestId rnd) p (out, v', k')"
    using ceremony_starts [OF assms(1), of sender rnd E api w1] assms(2) by auto
  then have "answered_now p (out @ play E api evs k')"
    using play_answers [OF _ assms(3,4), of k' p E api] by (auto simp: waits_def answered_now_def)
  then show ?thesis using p(1,2) by (simp add: answered_now_def)
qed


theorem every_request_answered_witness:
  "\<exists>e k out v k' r. demo_sealed e \<and> demo_unlocked [demo_vault_item e] k \<and>
     step demo_env demo_api demo_random (MessageEv (WEBAUTHN_GET demo_get) demo_page) ([demo_vault_item e], k) = (out, v, k') \<and>
     (demo_page, r) \<in> set (out @ play demo_env demo_api [(demo_random\<lparr>er_requestId := ''s''\<rparr>, ConsentTimeoutEv ''r'', [])] k') \<and>
     reply (WEBAUTHN_GET demo_get) r"
proof -
  obtain e where e: "demo_sealed e" using demo_sealed_ex by blast
  obtain tr k where k: "demo_unlocked [demo_vault_item e] k" using demo_run_unlock by blast
  obtain out v k' where s: "step demo_env demo_api demo_random (MessageEv (WEBAUTHN_GET demo_get) demo_page) ([demo_vault_item e], k) =
      (out, v, k')" by (rule prod_cases3)
  have "\<exists>r. (demo_page, r) \<in> set (out @ play demo_env demo_api [(demo_random\<lparr>er_requestId := ''s''\<rparr>, ConsentTimeoutEv ''r'', [])] k') \<and>
      reply (WEBAUTHN_GET demo_get) r"
    by (rule every_request_answered [OF _ s]) (simp_all add: demo_random_def)
  with e k s show ?thesis by blast
qed

section \<open>The signature counter\<close>

lemma outside_Inr: "outside m w = (Inr x, w') \<longleftrightarrow> (\<exists>v. m (fst w) = (Inr x, v) \<and> w' = (v, snd w))"
  by (auto simp: outside_def split: prod.splits)

lemma finish_GET_assertion:
  assumes "finish_GET E api rnd m cd ref cs approved (v, s) = (Inr (RAssertion d), v', s')"
  defines "c \<equiv> hd (newest_first E cs)"
  obtains vs encrypted revision and updated :: EncryptedVaultItem where "ex_vaultState s = Some vs"
    "encryptVaultItem (env_crypto E) (er_iv rnd)
       (item_to_json (Login ((cn_plain c)\<lparr>login_passkey := Some ((cn_passkey c)\<lparr>pk_signCount := pk_signCount (cn_passkey c) + 1\<rparr>)\<rparr>)))
       (bindingForItem (candidate_item vs ref c)) (vk_vaultEncKey (vs_keys vs)) (Some (vs_revisions vs)) (Some (cn_revision c)) =
       Inr (encrypted, revision)"
    "as_authDataB64u d = bytesToB64u (buildAuthenticatorData (env_crypto E) (wg_rpId m) AUTHENTICATOR_FLAGS
       (pk_signCount (cn_passkey c) + 1) None)"
    "s' = assign_item ref (cn_index c)
       ((candidate_item vs ref c)\<lparr>ev_blob := eb_blob encrypted, ev_blobIv := eb_blobIv encrypted, ev_blobMac := eb_blobMac encrypted,
          ev_version := ev_version updated, ev_updatedAt := ev_updatedAt updated\<rparr>)
       (put_revisions (revs_record (ev_id (candidate_item vs ref c)) revision (vs_revisions vs)) (arm s))"
  using assms
  by (auto simp: finish_GET_def with_vault_def io_bind_Inr io_return_def io_lift_def armAutoLock_def ex_modify_def outside_Inr Let_def c_def
      simp del: item_to_json.simps split: if_splits option.splits)

text \<open>
  The counter a site sees is the counter the vault keeps. When an assertion goes out for a passkey of
  the current vault, its authenticator data carries the next counter, and the item in the vault then
  opens, at a revision the store accepts, as the same login with exactly that counter, so the next
  assertion is above it.
\<close>

theorem assertion_counter_saved:
  assumes "aead_correct (env_crypto E)" "aead_expands (env_crypto E)"
    and "finish_GET E api rnd m cd ref cs approved (v, s) = (Inr (RAssertion d), v', s')"
    and "ex_vaultState s = Some vs" "vs_ref vs = ref" "aes_key_ok (vk_vaultEncKey (vs_keys vs))"
    and "c = hd (newest_first E cs)" "cn_index c < length (vs_items vs)"
  shows "\<exists>vs' plain revs.
    as_authDataB64u d = bytesToB64u (buildAuthenticatorData (env_crypto E) (wg_rpId m) AUTHENTICATOR_FLAGS (pk_signCount (cn_passkey c) + 1) None) \<and>
    ex_vaultState s' = Some vs' \<and>
    decryptStored E (vs_items vs' ! cn_index c) (vs_keys vs') (vs_revisions vs') = (Inr plain, revs) \<and>
    as_login (di_plaintext plain) =
      Inr (Some ((cn_plain c)\<lparr>login_passkey := Some ((cn_passkey c)\<lparr>pk_signCount := pk_signCount (cn_passkey c) + 1\<rparr>)\<rparr>))"
proof -
  let ?l = "(cn_plain c)\<lparr>login_passkey := Some ((cn_passkey c)\<lparr>pk_signCount := pk_signCount (cn_passkey c) + 1\<rparr>)\<rparr>"
  let ?item = "vs_items vs ! cn_index c"
  have i: "candidate_item vs ref c = ?item" using assms(5,8) by (simp add: candidate_item_def)
  obtain encrypted revision and updated :: EncryptedVaultItem where
    enc: "encryptVaultItem (env_crypto E) (er_iv rnd) (item_to_json (Login ?l)) (bindingForItem ?item) (vk_vaultEncKey (vs_keys vs))
       (Some (vs_revisions vs)) (Some (cn_revision c)) = Inr (encrypted, revision)"
    and auth: "as_authDataB64u d = bytesToB64u (buildAuthenticatorData (env_crypto E) (wg_rpId m) AUTHENTICATOR_FLAGS
       (pk_signCount (cn_passkey c) + 1) None)"
    and s': "s' = assign_item ref (cn_index c)
       (?item\<lparr>ev_blob := eb_blob encrypted, ev_blobIv := eb_blobIv encrypted, ev_blobMac := eb_blobMac encrypted,
          ev_version := ev_version updated, ev_updatedAt := ev_updatedAt updated\<rparr>)
       (put_revisions (revs_record (ev_id ?item) revision (vs_revisions vs)) (arm s))"
    using finish_GET_assertion [OF assms(3)] assms(4) i by (metis assms(7) option.inject)
  let ?revs = "revs_record (ev_id ?item) revision (vs_revisions vs)"
  let ?new = "?item\<lparr>ev_blob := eb_blob encrypted, ev_blobIv := eb_blobIv encrypted, ev_blobMac := eb_blobMac encrypted,
          ev_version := ev_version updated, ev_updatedAt := ev_updatedAt updated\<rparr>"
  have id: "ib_itemId (bindingForItem ?item) = ev_id ?item" by (simp add: bindingForItem_def)
  have v2: "encryptItemV2 (env_crypto E) (er_iv rnd) (item_to_json (Login ?l)) (bindingForItem ?item) revision (vk_vaultEncKey (vs_keys vs)) = Inr encrypted"
    using enc by (auto simp: encryptVaultItem_def Let_def rbind_eq_Inr simp del: item_to_json.simps)
  have above: "\<forall>h. revs_get ?revs (ib_itemId (bindingForItem ?item)) = Some h \<longrightarrow> h \<le> revision"
    using enc unfolding id by (auto simp: encryptVaultItem_def Let_def rbind_eq_Inr revs_get_record id simp del: item_to_json.simps split: option.splits)
  obtain vs' where vs': "ex_vaultState s' = Some vs'" "vs_items vs' = (vs_items vs)[cn_index c := ?new]" "vs_keys vs' = vs_keys vs"
    "vs_revisions vs' = ?revs"
    using assms(4,5) by (simp add: s' assign_item_def put_revisions_def arm_def)
  have same: "bindingForItem ?new = bindingForItem ?item" "ev_encrypted ?new = encrypted"
    by (simp_all add: bindingForItem_def ev_encrypted_def)
  have "decryptStored E (vs_items vs' ! cn_index c) (vs_keys vs') (vs_revisions vs') =
     (Inr \<lparr>di_plaintext = item_to_json (Login ?l), di_revision = revision, di_format = 2\<rparr>, revs_record (ev_id ?item) revision ?revs)"
    using decryptVaultItem_encryptItemV2(2) [OF assms(1,2,6) v2 above] assms(8)
    by (simp add: vs' decryptStored_def same id del: item_to_json.simps)
  then show ?thesis
    using auth vs'(1) as_login_json [of ?l] by (metis DecryptedItem.select_convs(1))
qed

theorem assertion_counter_saved_witness:
  "\<exists>e s vs d s'. demo_sealed e \<and> ex_vaultState s = Some vs \<and>
     finish_GET demo_env demo_api demo_random demo_get demo_client_data (vs_ref vs) [demo_candidate e] True ([demo_vault_item e], s) =
       (Inr (RAssertion d), [demo_vault_item e], s') \<and>
     as_authDataB64u d = bytesToB64u (buildAuthenticatorData demo_crypto ''x.org'' AUTHENTICATOR_FLAGS 5 None) \<and>
     (\<exists>vs' plain revs. ex_vaultState s' = Some vs' \<and> decryptStored demo_env (vs_items vs' ! 0) (vs_keys vs') (vs_revisions vs') = (Inr plain, revs) \<and>
        as_login (di_plaintext plain) = Inr (Some (demo_login\<lparr>login_passkey := Some (demo_passkey\<lparr>pk_signCount := 5\<rparr>)\<rparr>)))"
proof -
  obtain e where e: "demo_sealed e" using demo_sealed_ex by blast
  obtain k where "demo_unlocked [demo_vault_item e] k" using demo_run_unlock by blast
  then obtain k' where "demo_waiting e (er_requestId demo_random) k'" using demo_asks [OF e] by blast
  then obtain vs where vs: "ex_vaultState (wk_ext k') = Some vs" "vs_items vs = [demo_vault_item e]" "vs_keys vs = demo_vault_keys"
    "vs_revisions vs = revs_record demo_user 3 (stored_revisions (JObj []))" by (auto simp: demo_waiting_def)
  have "revs_get (vs_revisions vs) demo_user = Some 3" by (simp add: vs revs_get_record demo_revisions)
  then obtain d s' where f: "finish_GET demo_env demo_api demo_random demo_get demo_client_data (vs_ref vs) [demo_candidate e] True
      ([demo_vault_item e], wk_ext k') = (Inr (RAssertion d), [demo_vault_item e], s')" using demo_finish [OF vs(1-3)] by blast
  have c: "demo_candidate e = hd (newest_first demo_env [demo_candidate e])" "env_crypto demo_env = demo_crypto"
    "cn_index (demo_candidate e) = 0" "cn_plain (demo_candidate e) = demo_login" "cn_passkey (demo_candidate e) = demo_passkey"
    "pk_signCount demo_passkey + 1 = 5" "wg_rpId demo_get = ''x.org''" "vk_vaultEncKey demo_vault_keys = demo_aes_key 1"
    by (simp_all add: newest_first_def js_sort_def demo_env_def demo_candidate_def demo_passkey_def demo_get_def demo_vault_keys_def)
  have "aead_correct (env_crypto demo_env)" "aead_expands (env_crypto demo_env)" "aes_key_ok (vk_vaultEncKey (vs_keys vs))"
    "cn_index (demo_candidate e) < length (vs_items vs)"
    using demo_aead_correct demo_aead_expands by (simp_all add: c(2-8) vs)
  then obtain vs' plain revs where "ex_vaultState s' = Some vs'"
    "as_authDataB64u d = bytesToB64u (buildAuthenticatorData demo_crypto ''x.org'' AUTHENTICATOR_FLAGS 5 None)"
    "decryptStored demo_env (vs_items vs' ! 0) (vs_keys vs') (vs_revisions vs') = (Inr plain, revs)"
    "as_login (di_plaintext plain) = Inr (Some (demo_login\<lparr>login_passkey := Some (demo_passkey\<lparr>pk_signCount := 5\<rparr>)\<rparr>))"
    using assertion_counter_saved [OF _ _ f vs(1) refl _ c(1)] unfolding c(2-7) by metis
  then show ?thesis using e f vs(1) by metis
qed

text \<open>
  The other side of it: requests that found the same passkey before either was approved carry the same
  counter, however the vault changed in between, since each counts from the login it decrypted when it
  began.
\<close>

theorem overlapping_requests_repeat_counter:
  assumes "finish_GET E api rnd m cd ref cs a (v, s) = (Inr (RAssertion d), v1, s1)"
    and "finish_GET E api' rnd' m' cd' ref' cs a' (v', s') = (Inr (RAssertion d'), v1', s1')" "wg_rpId m' = wg_rpId m"
  shows "as_authDataB64u d' = as_authDataB64u d"
proof -
  let ?data = "bytesToB64u (buildAuthenticatorData (env_crypto E) (wg_rpId m) AUTHENTICATOR_FLAGS (pk_signCount (cn_passkey (hd (newest_first E cs))) + 1) None)"
  have "as_authDataB64u d = ?data" by (rule finish_GET_assertion [OF assms(1)]) simp
  moreover have "as_authDataB64u d' = ?data" by (rule finish_GET_assertion [OF assms(2)]) (simp add: assms(3))
  ultimately show ?thesis by simp
qed

end
