(* ===== verification/Extension_Races.thy ===== *)
theory Extension_Races
  imports Extension_Demo
begin

text \<open>
  Locking, restoring and unlocking as the event loop interleaves them,
  \<open>apps/extension/src/background/index.ts\<close>. Each of \<open>lockVault\<close>, \<open>restoreVaultState\<close> and the
  UNLOCK handler is cut at its awaits into the segments of \<open>Extension_State\<close>; a segment runs
  without interruption, and between two of them any other task may run one of its own. Calls to
  \<open>chrome.storage.session\<close> take effect in the order they are made. The network requests and the
  reads of \<open>storage.local\<close> between two such segments are one step.
\<close>

section \<open>Tasks\<close>

datatype Task =
    LockGot "string option"
  | LockWiped "string option"
  | RestoreGot int "PersistedSession option"
  | RestoreFetched int PersistedSession "restored js"
  | UnlockStarted UnlockMessage
  | UnlockFetched UnlockMessage VaultKeys "EncryptedVaultItem list"
  | UnlockLoaded UnlockMessage restored
  | UnlockAssigned UnlockMessage
  | UnlockArmed UnlockMessage

text \<open>
  Up to the first await: with the vault in memory a lock wipes at once, otherwise it first asks the
  session storage for the token.
\<close>

definition lock_begin :: "ExtState \<Rightarrow> Task \<times> ExtState" where
  "lock_begin s =
     (let s' = lock_start s in
      case ex_vaultState s' of
        Some vs \<Rightarrow> (LockWiped (Some (vs_sessionToken vs)), lock_wipe s')
      | None \<Rightarrow> (LockGot (map_option sess_sessionToken (ex_session s')), s'))"

definition restore_begin :: "ExtState \<Rightarrow> Task list" where
  "restore_begin s = (if ex_vaultState s \<noteq> None then [] else [RestoreGot (ex_lockGeneration s) (ex_session s)])"

fun restoring :: "Task \<Rightarrow> bool" where
  "restoring (RestoreGot _ _) = True"
| "restoring (RestoreFetched _ _ _) = True"
| "restoring _ = False"

fun unlocking :: "Task \<Rightarrow> bool" where
  "unlocking (UnlockStarted _) = True"
| "unlocking (UnlockFetched _ _ _) = True"
| "unlocking (UnlockLoaded _ _) = True"
| "unlocking (UnlockAssigned _) = True"
| "unlocking (UnlockArmed _) = True"
| "unlocking _ = False"

text \<open>A task goes on from its await; the tasks that are left of it, and the state.\<close>

fun advance :: "ext_env \<Rightarrow> 'v ExtApi \<Rightarrow> Task \<Rightarrow> 'v \<times> ExtState \<Rightarrow> Task list \<times> 'v \<times> ExtState" where
  "advance E api (LockGot token) w = ([LockWiped token], fst w, lock_wipe (snd w))"
| "advance E api (LockWiped token) w = ([], snd (lock_end api token w))"
| "advance E api (RestoreGot generation None) w = ([], w)"
| "advance E api (RestoreGot generation (Some stored)) w =
     (case restore_fetch E api stored w of (r, w') \<Rightarrow> ([RestoreFetched generation stored r], w'))"
| "advance E api (RestoreFetched generation stored r) w = ([], fst w, restore_commit generation stored r (snd w))"
| "advance E api (UnlockStarted m) w =
     (case unlock_fetch api m w of (Inl _, w') \<Rightarrow> ([], w') | (Inr (keys, items), w') \<Rightarrow> ([UnlockFetched m keys items], w'))"
| "advance E api (UnlockFetched m keys items) w =
     (case unlock_load E api m (keys, items) (fst w, lock_start (snd w)) of
        (Inl _, w') \<Rightarrow> ([], w')
      | (Inr r, w') \<Rightarrow> ([UnlockLoaded m r], w'))"
| "advance E api (UnlockLoaded m r) w = ([UnlockAssigned m], fst w, unlock_assign m r (snd w))"
| "advance E api (UnlockAssigned m) w = ([UnlockArmed m], fst w, arm (snd w))"
| "advance E api (UnlockArmed m) w = ([], fst w, unlock_persist m (snd w))"

text \<open>
  One turn of the event loop: a lock, a restore (unless one is in flight) or an unlock begins, a task
  goes on, the worker is torn down, or something happens at the server.
\<close>

datatype Turn = LockBegins | RestoreBegins | UnlockBegins | GoesOn | TornDown | Elsewhere

inductive turn :: "ext_env \<Rightarrow> 'v ExtApi \<Rightarrow> Turn \<Rightarrow> 'v \<times> ExtState \<times> Task list \<Rightarrow> 'v \<times> ExtState \<times> Task list \<Rightarrow> bool" for E api where
  lock: "lock_begin s = (t, s') \<Longrightarrow> turn E api LockBegins (v, s, ts) (v, s', t # ts)"
| restore: "\<forall>t \<in> set ts. \<not> restoring t \<Longrightarrow> turn E api RestoreBegins (v, s, ts) (v, s, restore_begin s @ ts)"
| unlock: "turn E api UnlockBegins (v, s, ts) (v, s, UnlockStarted m # ts)"
| go_on: "advance E api t (v, s) = (ts, v', s') \<Longrightarrow> turn E api GoesOn (v, s, pre @ t # post) (v', s', pre @ ts @ post)"
| teardown: "turn E api TornDown (v, s, ts) (v, s\<lparr>ex_vaultState := None, ex_lockGeneration := 0\<rparr>, [])"
| elsewhere: "turn E api Elsewhere (v, s, ts) (v', s, ts)"

inductive turns :: "ext_env \<Rightarrow> 'v ExtApi \<Rightarrow> 'v \<times> ExtState \<times> Task list \<Rightarrow> Turn list \<Rightarrow> 'v \<times> ExtState \<times> Task list \<Rightarrow> bool"
  for E api c where
  none: "turns E api c [] c"
| more: "turns E api c tr c' \<Longrightarrow> turn E api a c' c'' \<Longrightarrow> turns E api c (tr @ [a]) c''"

section \<open>Generations\<close>

fun task_generation :: "Task \<Rightarrow> int option" where
  "task_generation (RestoreGot g _) = Some g"
| "task_generation (RestoreFetched g _ _) = Some g"
| "task_generation _ = None"

text \<open>No restore is from the future.\<close>

definition generations_ok :: "ExtState \<Rightarrow> Task list \<Rightarrow> bool" where
  "generations_ok s ts \<longleftrightarrow> (\<forall>t \<in> set ts. \<forall>g. task_generation t = Some g \<longrightarrow> g \<le> ex_lockGeneration s)"

lemma ext_frames [simp]:
  "ex_lockGeneration (lock_wipe s) = ex_lockGeneration s" "ex_lockGeneration (arm s) = ex_lockGeneration s"
  "ex_lockGeneration (unlock_persist m s) = ex_lockGeneration s" "ex_lockGeneration (lock_start s) = ex_lockGeneration s + 1"
  "ex_lockGeneration (unlock_assign m r s) = ex_lockGeneration s" "ex_lockGeneration (restore_commit g st rr s) = ex_lockGeneration s"
  by (auto simp: lock_wipe_def arm_def unlock_persist_def lock_start_def unlock_assign_def set_vault_def restore_commit_def
      split: prod.splits sum.splits)

lemma lock_end_state: "snd (lock_end api t (v, s)) = (v', s') \<Longrightarrow> s' = s\<lparr>ex_alarm := None\<rparr>"
  using lock_end_frame by (metis prod.collapse)

lemma advance_generations:
  assumes "generations_ok s (pre @ t # post)" "advance E api t (v, s) = (ts, v', s')"
  shows "generations_ok s' (pre @ ts @ post)"
proof -
  have "ex_lockGeneration s \<le> ex_lockGeneration s' \<and> (\<forall>u \<in> set ts. task_generation u = None \<or> task_generation u = task_generation t)"
    using assms(2)
    by (cases "(E, api, t, (v, s))" rule: advance.cases)
       (auto dest: restore_fetch_only_local unlock_fetch_only_local unlock_load_only_local lock_end_state split: prod.splits sum.splits)
  then show ?thesis using assms(1) unfolding generations_ok_def by fastforce
qed

lemma turn_generations:
  assumes "turn E api a (v, s, ts) (v', s', ts')" "generations_ok s ts"
  shows "generations_ok s' ts'"
  using assms
proof (cases rule: turn.cases)
  case (lock t)
  then show ?thesis using assms(2) by (fastforce simp: generations_ok_def lock_begin_def Let_def split: option.splits)
next
  case (go_on t us pre post)
  then show ?thesis using assms(2) advance_generations [of s pre t post E api v us v' s'] by simp
qed (auto simp: generations_ok_def restore_begin_def)

lemma turns_generations:
  assumes "turns E api (v, s, []) tr (v', s', ts')"
  shows "generations_ok s' ts'"
proof -
  have "generations_ok (fst (snd c)) (snd (snd c))" if "turns E api (v, s, []) tr c" for c tr
    using that
  proof (induction rule: turns.induct)
    case (more tr c' a c'')
    then show ?case using turn_generations by (cases c'; cases c'') fastforce
  qed (simp add: generations_ok_def)
  from this [OF assms] show ?thesis by simp
qed

section \<open>A lock that wins\<close>

text \<open>After the wipe: nothing in flight can bring anything back.\<close>

definition harmless :: "ExtState \<Rightarrow> Task \<Rightarrow> bool" where
  "harmless s t \<longleftrightarrow> \<not> unlocking t \<and>
     (case t of
        RestoreGot g (Some _) \<Rightarrow> g < ex_lockGeneration s
      | RestoreFetched g _ _ \<Rightarrow> g < ex_lockGeneration s
      | _ \<Rightarrow> True)"

definition wiped :: "ExtState \<Rightarrow> Task list \<Rightarrow> bool" where
  "wiped s ts \<longleftrightarrow> ex_vaultState s = None \<and> ex_session s = None \<and> (\<forall>t \<in> set ts. harmless s t)"

lemma harmless_later: "harmless s t \<Longrightarrow> ex_lockGeneration s \<le> ex_lockGeneration s' \<Longrightarrow> harmless s' t"
  by (auto simp: harmless_def split: Task.splits option.splits)

lemma advance_wiped:
  assumes "wiped s (pre @ t # post)" "advance E api t (v, s) = (ts, v', s')"
  shows "wiped s' (pre @ ts @ post)"
proof -
  have "ex_vaultState s' = None \<and> ex_session s' = None \<and> ex_lockGeneration s \<le> ex_lockGeneration s' \<and> (\<forall>u \<in> set ts. harmless s' u)"
    using assms unfolding wiped_def
    by (cases "(E, api, t, (v, s))" rule: advance.cases)
       (auto simp: harmless_def restore_commit_def lock_wipe_def dest!: restore_fetch_only_local lock_end_state split: prod.splits sum.splits)
  then show ?thesis using assms(1) unfolding wiped_def by (auto intro: harmless_later)
qed

lemma turn_wiped:
  assumes "turn E api a (v, s, ts) (v', s', ts')" "wiped s ts" "a \<noteq> UnlockBegins"
  shows "wiped s' ts'"
  using assms
proof (cases rule: turn.cases)
  case (lock t)
  then have "ex_vaultState s' = None \<and> ex_session s' = None \<and> ex_lockGeneration s \<le> ex_lockGeneration s' \<and> harmless s' t"
    using assms(2) by (auto simp: lock_begin_def Let_def wiped_def harmless_def lock_start_def)
  then show ?thesis using assms(2) lock harmless_later by (auto simp: wiped_def)
next
  case (go_on t us pre post)
  then show ?thesis using assms(2) advance_wiped [of s pre t post E api v us v' s'] by simp
qed (auto simp: wiped_def restore_begin_def harmless_def)

text \<open>
  C33. A lock wins over what was in flight. When the vault is in memory and no unlock is under way, a
  lock leaves no keys and no session, at once, and whatever was or gets in flight with it (a restore
  that is fetching, other locks, the worker's restart), in whatever order the event loop runs the
  pieces, neither comes back until an unlock begins: a restore that began before the lock sees the
  newer generation and drops what it fetched.
\<close>

theorem lock_beats_restore:
  assumes "turns E api (v, s0, []) tr (v1, s, ts)" "ex_vaultState s \<noteq> None" "\<forall>t \<in> set ts. \<not> unlocking t"
    and "lock_begin s = (t, s1)" "turns E api (v1, s1, t # ts) tr' (v2, s2, ts2)" "UnlockBegins \<notin> set tr'"
  shows "ex_vaultState s2 = None \<and> ex_session s2 = None"
proof -
  have t: "ex_lockGeneration s1 = ex_lockGeneration s + 1" "ex_vaultState s1 = None" "ex_session s1 = None" "harmless s1 t"
    using assms(2,4) by (auto simp: lock_begin_def Let_def lock_start_def lock_wipe_def harmless_def)
  have "harmless s1 u" if "u \<in> set ts" for u
    using that assms(3) turns_generations [OF assms(1)] t(1)
    by (fastforce simp: generations_ok_def harmless_def split: Task.splits option.splits)
  then have start: "wiped s1 (t # ts)" using t by (simp add: wiped_def)
  have "UnlockBegins \<notin> set tr' \<longrightarrow> wiped (fst (snd c)) (snd (snd c))" if "turns E api (v1, s1, t # ts) tr' c" for c tr'
    using that
  proof (induction rule: turns.induct)
    case (more tr c' a c'')
    then show ?case using turn_wiped by (cases c'; cases c'') fastforce
  qed (simp add: start)
  from this [OF assms(5)] show ?thesis using assms(6) by (simp add: wiped_def)
qed

theorem lock_beats_restore_witness:
  "\<exists>k t s1 v2 s2 ts2. demo_unlocked [] k \<and> lock_begin (wk_ext k) = (t, s1) \<and>
     turns demo_env demo_api ([], s1, [t]) ([] @ [RestoreBegins]) (v2, s2, ts2) \<and> ex_vaultState s2 = None \<and> ex_session s2 = None"
proof -
  obtain k where k: "demo_unlocked [] k" using demo_run_unlock by blast
  obtain t s1 where l: "lock_begin (wk_ext k) = (t, s1)" by (rule prod.exhaust)
  have none: "turns demo_env demo_api ([], wk_ext k, []) [] ([], wk_ext k, [])" by (rule turns.none)
  have u: "ex_vaultState (wk_ext k) \<noteq> None" using k by (auto simp: demo_unlocked_def)
  then have "\<not> restoring t" using l by (auto simp: lock_begin_def Let_def lock_start_def)
  then have r: "turns demo_env demo_api ([], s1, [t]) ([] @ [RestoreBegins]) ([], s1, restore_begin s1 @ [t])"
    by (intro turns.more [OF turns.none] turn.restore) simp
  have "ex_vaultState s1 = None \<and> ex_session s1 = None"
    by (rule lock_beats_restore [OF none u _ l r]) simp_all
  with k l r show ?thesis by blast
qed

section \<open>Locks that lose\<close>

lemma go_on_at: "advance E api t (v, s) = (us, v', s') \<Longrightarrow> ts = pre @ t # post \<Longrightarrow> turn E api GoesOn (v, s, ts) (v', s', pre @ us @ post)"
  by (auto intro: turn.go_on)

text \<open>
  A lock that comes while an unlock waits for its countdown to be armed: the lock wipes the session
  before the unlock has stored it, and when both have finished the session, with the raw keys, is in the
  storage again and no alarm is set.
\<close>

theorem lock_loses_to_unlock:
  "\<exists>v' s'. turns E api (v, s, [UnlockLoaded m r]) [GoesOn, LockBegins, GoesOn, GoesOn, GoesOn] (v', s', []) \<and>
     ex_vaultState s' = None \<and> ex_session s' = ex_session (unlock_persist m s) \<and> ex_alarm s' = None"
proof -
  let ?s1 = "unlock_assign m r s"
  obtain token where l: "lock_begin ?s1 = (LockWiped token, lock_wipe (lock_start ?s1))"
    by (cases r) (simp add: lock_begin_def Let_def unlock_assign_def set_vault_def lock_start_def)
  let ?s2 = "unlock_persist m (arm (lock_wipe (lock_start ?s1)))"
  obtain v' s' where e: "snd (lock_end api token (v, ?s2)) = (v', s')" by (rule prod.exhaust)
  have "turn E api GoesOn (v, s, [UnlockLoaded m r]) (v, ?s1, [UnlockAssigned m])"
    using go_on_at [of E api "UnlockLoaded m r" v s _ _ _ _ "[]" "[]"] by simp
  moreover have "turn E api LockBegins (v, ?s1, [UnlockAssigned m]) (v, lock_wipe (lock_start ?s1), [LockWiped token, UnlockAssigned m])"
    by (rule turn.lock [OF l])
  moreover have "turn E api GoesOn (v, lock_wipe (lock_start ?s1), [LockWiped token, UnlockAssigned m])
      (v, arm (lock_wipe (lock_start ?s1)), [LockWiped token, UnlockArmed m])"
    using go_on_at [of E api "UnlockAssigned m" v "lock_wipe (lock_start ?s1)" _ _ _ _ "[LockWiped token]" "[]"] by simp
  moreover have "turn E api GoesOn (v, arm (lock_wipe (lock_start ?s1)), [LockWiped token, UnlockArmed m]) (v, ?s2, [LockWiped token])"
    using go_on_at [of E api "UnlockArmed m" v "arm (lock_wipe (lock_start ?s1))" _ _ _ _ "[LockWiped token]" "[]"] by simp
  moreover have "turn E api GoesOn (v, ?s2, [LockWiped token]) (v', s', [])"
    using go_on_at [of E api "LockWiped token" v ?s2 _ _ _ _ "[]" "[]"] e by simp
  ultimately have "turns E api (v, s, [UnlockLoaded m r]) ((((([] @ [GoesOn]) @ [LockBegins]) @ [GoesOn]) @ [GoesOn]) @ [GoesOn]) (v', s', [])"
    by (blast intro: turns.intros)
  moreover have "ex_vaultState s' = None" "ex_session s' = ex_session (unlock_persist m s)" "ex_alarm s' = None"
    using lock_end_state [OF e] by (simp_all add: unlock_persist_def arm_def lock_wipe_def)
  ultimately show ?thesis by (intro exI [of _ v'] exI [of _ s']) simp
qed

text \<open>
  A lock of a worker that was just restarted (the vault not in memory, the session stored) waits for the
  session storage before it wipes. A restore that begins in this gap has the new generation, and when
  the lock is done it puts the vault, with its keys, back into memory.
\<close>

theorem lock_loses_to_restore:
  assumes "ex_vaultState s = None" "ex_session s = Some stored"
    and "restore_fetch E api stored (v, lock_start s) = (Inr r, v1, s1)"
  shows "\<exists>v' s'. turns E api (v, s, []) [LockBegins, RestoreBegins, GoesOn, GoesOn, GoesOn, GoesOn] (v', s', []) \<and>
    ex_vaultState s' \<noteq> None \<and> ex_alarm s' = None"
proof -
  let ?s = "lock_start s" and ?token = "Some (sess_sessionToken stored)"
  let ?g = "ex_lockGeneration ?s"
  obtain v' s2 where e: "snd (lock_end api ?token (v1, lock_wipe s1)) = (v', s2)" by (rule prod.exhaust)
  have s1: "\<exists>l. s1 = ?s\<lparr>ex_local := l\<rparr>" by (rule restore_fetch_only_local [OF assms(3)])
  have l: "lock_begin s = (LockGot ?token, ?s)" using assms(1,2) by (simp add: lock_begin_def Let_def lock_start_def)
  have b: "restore_begin ?s = [RestoreGot ?g (Some stored)]" using assms(1,2) by (simp add: restore_begin_def lock_start_def)
  have "turn E api LockBegins (v, s, []) (v, ?s, [LockGot ?token])" by (rule turn.lock [OF l])
  moreover have "turn E api RestoreBegins (v, ?s, [LockGot ?token]) (v, ?s, [RestoreGot ?g (Some stored), LockGot ?token])"
    using turn.restore [of "[LockGot ?token]" E api v ?s] by (simp add: b)
  moreover have "turn E api GoesOn (v, ?s, [RestoreGot ?g (Some stored), LockGot ?token])
      (v1, s1, [RestoreFetched ?g stored (Inr r), LockGot ?token])"
    using go_on_at [of E api "RestoreGot ?g (Some stored)" v ?s "[RestoreFetched ?g stored (Inr r)]" v1 s1 _ "[]" "[LockGot ?token]"]
    by (simp add: assms(3))
  moreover have "turn E api GoesOn (v1, s1, [RestoreFetched ?g stored (Inr r), LockGot ?token])
      (v1, lock_wipe s1, [RestoreFetched ?g stored (Inr r), LockWiped ?token])"
    using go_on_at [of E api "LockGot ?token" v1 s1 _ _ _ _ "[RestoreFetched ?g stored (Inr r)]" "[]"] by simp
  moreover have "turn E api GoesOn (v1, lock_wipe s1, [RestoreFetched ?g stored (Inr r), LockWiped ?token])
      (v', s2, [RestoreFetched ?g stored (Inr r)])"
    using go_on_at [of E api "LockWiped ?token" v1 "lock_wipe s1" _ _ _ _ "[RestoreFetched ?g stored (Inr r)]" "[]"] e by simp
  moreover have "turn E api GoesOn (v', s2, [RestoreFetched ?g stored (Inr r)]) (v', restore_commit ?g stored (Inr r) s2, [])"
    using go_on_at [of E api "RestoreFetched ?g stored (Inr r)" v' s2 _ _ _ _ "[]" "[]"] by simp
  ultimately have "turns E api (v, s, []) (((((([] @ [LockBegins]) @ [RestoreBegins]) @ [GoesOn]) @ [GoesOn]) @ [GoesOn]) @ [GoesOn])
      (v', restore_commit ?g stored (Inr r) s2, [])"
    by (blast intro: turns.intros)
  moreover have "ex_vaultState (restore_commit ?g stored (Inr r) s2) \<noteq> None \<and> ex_alarm (restore_commit ?g stored (Inr r) s2) = None"
    using s1 lock_end_state [OF e] by (auto simp: restore_commit_def lock_wipe_def set_vault_def split: prod.splits)
  ultimately show ?thesis by auto
qed

end
