(* ===== verification/Totp.thy ===== *)
theory Totp
  imports Encoding
begin

text \<open>
  One-time codes, \<open>packages/ui/src/lib/totp.ts\<close>: Base32 with a 32-bit accumulator, the counter as
  eight bytes, and the truncation of RFC 4226, against reference definitions over bit lists and natural
  numbers.

  \<open>otpauth\<close> addresses are parsed by the browser's \<open>URL\<close>: a parameter that gives the protocol
  and the search parameters. HMAC-SHA-1 is a parameter, too. Numbers are integers, and \<open>None\<close> is NaN;
  the remainder by a power of ten with a negative exponent is a binary64 operation and is a parameter
  that no result relies on.
\<close>

unbundle bit_operations_syntax

section \<open>Base32\<close>

definition BASE32 :: string where "BASE32 = ''ABCDEFGHIJKLMNOPQRSTUVWXYZ234567''"

fun indexOf :: "char \<Rightarrow> string \<Rightarrow> nat option" where
  "indexOf c [] = None"
| "indexOf c (x # xs) = (if c = x then Some 0 else map_option Suc (indexOf c xs))"

definition base32_clean :: "string \<Rightarrow> string" where
  "base32_clean input = filter (\<lambda>c. \<not> js_space c) (rev (dropWhile (\<lambda>c. c = CHR ''='') (rev (toUpperCase input))))"

fun base32_loop :: "32 word \<Rightarrow> nat \<Rightarrow> string \<Rightarrow> bytes" where
  "base32_loop acc bits [] = []"
| "base32_loop acc bits (c # cs) =
     (case indexOf c BASE32 of
        None \<Rightarrow> base32_loop acc bits cs
      | Some charIndex \<Rightarrow>
          let acc' = push_bit 5 acc OR of_nat charIndex; bits' = bits + 5 in
          if bits' \<ge> 8 then ucast (drop_bit (bits' - 8) acc' AND 255) # base32_loop acc' (bits' - 8) cs
          else base32_loop acc' bits' cs)"

definition base32Decode :: "string \<Rightarrow> bytes" where
  "base32Decode input = (let cleaned = base32_clean input in take (length cleaned * 5 div 8) (base32_loop 0 0 cleaned))"

section \<open>The counter\<close>

text \<open>\<open>counterToBytes\<close> fills the buffer from its end; \<open>None\<close> is NaN or Infinity, whose bits are zero.\<close>

fun counter_loop :: "nat \<Rightarrow> int \<Rightarrow> bytes" where
  "counter_loop 0 remaining = []"
| "counter_loop (Suc n) remaining = counter_loop n (remaining div 256) @ [of_int remaining]"

definition counterToBytes :: "int option \<Rightarrow> bytes" where
  "counterToBytes counter = (case counter of None \<Rightarrow> replicate 8 0 | Some c \<Rightarrow> counter_loop 8 c)"

section \<open>Codes\<close>

text \<open>\<open>parseInt(s, 10)\<close>: white space, a sign, and the longest run of digits.\<close>

definition parseInt :: "string \<Rightarrow> int option" where
  "parseInt s =
     (let s1 = dropWhile js_space s;
          negative = startsWith s1 ''-'';
          s2 = (if negative \<or> startsWith s1 ''+'' then tl s1 else s1);
          digits = takeWhile is_digit_char s2;
          n = foldl (\<lambda>a c. 10 * a + (int (code c) - 48)) 0 digits in
      if digits = [] then None else Some (if negative then - n else n))"

text \<open>An element of a typed array: reading past its end gives \<open>undefined\<close>, which counts as 0.\<close>

definition at :: "bytes \<Rightarrow> nat \<Rightarrow> 32 word" where
  "at bs i = (if i < length bs then ucast (bs ! i) else 0)"

definition truncated :: "bytes \<Rightarrow> 32 word" where
  "truncated mac =
     (let offset = (if mac = [] then 0 else unat (at mac (length mac - 1) AND 0x0f)) in
      push_bit 24 (at mac offset AND 0x7f) OR push_bit 16 (at mac (offset + 1) AND 0xff) OR
      push_bit 8 (at mac (offset + 2) AND 0xff) OR (at mac (offset + 3) AND 0xff))"

record TotpResult =
  totp_code :: string
  totp_remainingSeconds :: "int option"
  totp_period :: "int option"

definition code_text :: "(int \<Rightarrow> int \<Rightarrow> string) \<Rightarrow> int \<Rightarrow> int option \<Rightarrow> string" where
  "code_text float_rest n digits =
     (case digits of
        None \<Rightarrow> ''NaN''
      | Some d \<Rightarrow> if d < 0 then float_rest n d else padStart (nat d) CHR ''0'' (nat_to_string (nat (n mod 10 ^ nat d))))"

type_synonym otp_url = "string \<times> (string \<Rightarrow> string option)"

definition computeTotp ::
  "(string \<Rightarrow> otp_url option) \<Rightarrow> (bytes \<Rightarrow> bytes \<Rightarrow> bytes) \<Rightarrow> (int \<Rightarrow> int \<Rightarrow> string) \<Rightarrow> int \<Rightarrow> string \<Rightarrow> TotpResult option" where
  "computeTotp parse hmac_sha1 float_rest date_now uri =
     (case parse uri of
        None \<Rightarrow> None
      | Some (protocol, get) \<Rightarrow>
          if protocol \<noteq> ''otpauth:'' then None
          else
            (case get ''secret'' of
               None \<Rightarrow> None
             | Some secret \<Rightarrow>
                 if secret = '''' then None
                 else
                   let period = parseInt (case get ''period'' of None \<Rightarrow> ''30'' | Some p \<Rightarrow> p);
                       digits = parseInt (case get ''digits'' of None \<Rightarrow> ''6'' | Some d \<Rightarrow> d);
                       now = date_now div 1000;
                       usable = (case period of None \<Rightarrow> None | Some p \<Rightarrow> if p = 0 then None else Some p);
                       counter = map_option (\<lambda>p. now div p) usable;
                       remainingSeconds = map_option (\<lambda>p. p - sgn now * (\<bar>now\<bar> mod \<bar>p\<bar>)) usable;
                       key = base32Decode secret in
                   if key = [] then None
                   else
                     let mac = hmac_sha1 key (counterToBytes counter) in
                     Some \<lparr>totp_code = code_text float_rest (uint (truncated mac)) digits,
                           totp_remainingSeconds = remainingSeconds, totp_period = period\<rparr>))"

section \<open>Base32 by bits\<close>

text \<open>RFC 4648: five bits per letter, most significant first, cut into octets; what is left over is dropped.\<close>

definition bits5 :: "nat \<Rightarrow> bool list" where
  "bits5 n = map (\<lambda>i. bit n (4 - i)) [0..<5]"

definition octet :: "bool list \<Rightarrow> byte" where
  "octet bs = horner_sum of_bool 2 (rev bs)"

fun octets :: "bool list \<Rightarrow> bytes" where
  "octets (a # b # c # d # e # f # g # h # rest) = octet [a, b, c, d, e, f, g, h] # octets rest"
| "octets _ = []"

definition letter_bits :: "char \<Rightarrow> bool list" where
  "letter_bits c = (case indexOf c BASE32 of None \<Rightarrow> [] | Some n \<Rightarrow> bits5 n)"

definition base32_reference :: "string \<Rightarrow> bytes" where
  "base32_reference s = octets (concat (map letter_bits (base32_clean s)))"

text \<open>The low bits of the accumulator that have not been written yet.\<close>

definition pending_bits :: "32 word \<Rightarrow> nat \<Rightarrow> bool list" where
  "pending_bits v n = map (\<lambda>i. bit v (n - 1 - i)) [0..<n]"

lemma octets_step: "8 \<le> length bs \<Longrightarrow> octets bs = octet (take 8 bs) # octets (drop 8 bs)"
  by (cases bs rule: octets.cases) auto

lemma octets_short: "length bs < 8 \<Longrightarrow> octets bs = []"
  by (cases bs rule: octets.cases) auto

lemma length_octets: "length (octets bs) = length bs div 8"
proof (induction bs rule: octets.induct)
  case (1 a b c d e f g h rest)
  then show ?case by simp
qed (simp_all)

lemma indexOf_bound: "indexOf c s = Some n \<Longrightarrow> n < length s"
  by (induction s arbitrary: n) (auto split: if_splits)

lemma pending_push:
  assumes "n + 5 \<le> 32" "i < 32"
  shows "pending_bits (push_bit 5 v OR of_nat i) (n + 5) = pending_bits v n @ bits5 i"
proof (rule nth_equalityI)
  fix j assume j: "j < length (pending_bits (push_bit 5 v OR of_nat i) (n + 5))"
  have high: "\<not> bit i k" if "5 \<le> k" for k :: nat
  proof -
    have "i < 2 ^ k" using assms(2) power_increasing [OF that, of "2 :: nat"] by simp
    then show ?thesis by (simp add: bit_iff_odd)
  qed
  show "pending_bits (push_bit 5 v OR of_nat i) (n + 5) ! j = (pending_bits v n @ bits5 i) ! j"
    using j assms high by (auto simp: pending_bits_def bits5_def nth_append bit_simps)
qed (simp add: pending_bits_def bits5_def)

lemma pending_emit:
  assumes "8 \<le> n" "n \<le> 32"
  shows "octet (take 8 (pending_bits v n)) = ucast (drop_bit (n - 8) v AND 255)" "drop 8 (pending_bits v n) = pending_bits v (n - 8)"
proof -
  have mask: "bit (255 :: 32 word) k \<longleftrightarrow> k < 8" for k
  proof -
    have "(255 :: 32 word) = mask 8" by (simp add: mask_eq_exp_minus_1)
    then show ?thesis using bit_mask_iff [where 'a = "32 word", of 8 k] by auto
  qed
  have mask': "bit (255 :: byte) k \<longleftrightarrow> k < 8" for k
  proof -
    have "(255 :: byte) = mask 8" by (simp add: mask_eq_exp_minus_1)
    then show ?thesis using bit_mask_iff [where 'a = byte, of 8 k] by auto
  qed
  show "octet (take 8 (pending_bits v n)) = ucast (drop_bit (n - 8) v AND 255)"
    using assms by (intro bit_word_eqI) (auto simp: octet_def pending_bits_def bit_horner_sum_bit_iff bit_simps rev_nth mask mask' simp del: bit_numeral_word_iff)
  show "drop 8 (pending_bits v n) = pending_bits v (n - 8)"
    by (rule nth_equalityI) (auto simp: pending_bits_def less_diff_conv add.commute)
qed

lemma base32_loop_octets:
  assumes "bits < 8"
  shows "base32_loop acc bits cs = octets (pending_bits acc bits @ concat (map letter_bits cs))"
  using assms
proof (induction cs arbitrary: acc bits)
  case Nil
  then show ?case by (simp add: octets_short pending_bits_def)
next
  case (Cons c cs)
  show ?case
  proof (cases "indexOf c BASE32")
    case (Some i)
    have i: "i < 32" using indexOf_bound [OF Some] by (simp add: BASE32_def)
    let ?v = "push_bit 5 acc OR of_nat i" and ?rest = "concat (map letter_bits cs)"
    have p: "pending_bits acc bits @ concat (map letter_bits (c # cs)) = pending_bits ?v (bits + 5) @ ?rest"
      using pending_push [of bits i acc] Cons.prems i by (simp add: letter_bits_def Some)
    show ?thesis
    proof (cases "8 \<le> bits + 5")
      case True
      have l: "length (pending_bits ?v (bits + 5)) = bits + 5" by (simp add: pending_bits_def)
      have "octets (pending_bits ?v (bits + 5) @ ?rest) =
          octet (take 8 (pending_bits ?v (bits + 5))) # octets (drop 8 (pending_bits ?v (bits + 5)) @ ?rest)"
        using True l by (subst octets_step) simp_all
      then show ?thesis
        unfolding p using pending_emit [OF True, of ?v] Cons.IH [of "bits + 5 - 8" ?v] Cons.prems True Some by (simp add: Let_def)
    next
      case False
      then show ?thesis unfolding p using Cons.IH [of "bits + 5" ?v] Some by (simp add: Let_def)
    qed
  qed (use Cons in \<open>simp add: letter_bits_def\<close>)
qed

lemma base32Decode_reference: "base32Decode s = base32_reference s"
proof -
  have "length (letter_bits c) \<le> 5" for c by (simp add: letter_bits_def bits5_def split: option.splits)
  then have "length (concat (map letter_bits cs)) \<le> length cs * 5" for cs
    by (induction cs) (simp_all add: add_mono)
  then show ?thesis
    using base32_loop_octets [of 0 0 "base32_clean s"]
    by (simp add: base32Decode_def Let_def base32_reference_def pending_bits_def length_octets div_le_mono)
qed

section \<open>Truncation by arithmetic\<close>

text \<open>RFC 4226, section 5.3: 31 bits of the MAC, from the offset its last nibble names, as a number.\<close>

definition hotp_value :: "bytes \<Rightarrow> nat" where
  "hotp_value mac =
     (let i = unat (last mac) mod 16 in
      (unat (mac ! i) mod 128) * 2 ^ 24 + unat (mac ! (i + 1)) * 2 ^ 16 + unat (mac ! (i + 2)) * 2 ^ 8 + unat (mac ! (i + 3)))"

lemma byte_less: "unat b < 256" for b :: byte
  using unsigned_less [of b, where 'a = nat] by simp

lemma unat_ucast_byte: "unat (ucast b :: 32 word) = unat b" for b :: byte
  using byte_less [of b] by (simp add: unsigned_ucast_eq take_bit_eq_mod mod_less less_trans [of _ 256])

lemma unat_or_plus:
  fixes a b :: "32 word"
  assumes "unat a < 2 ^ n" "unat b * 2 ^ n + unat a < 2 ^ 32"
  shows "unat (push_bit n b OR a) = unat b * 2 ^ n + unat a"
proof -
  have "\<not> bit a k" if "n \<le> k" for k
  proof -
    have "unat a < 2 ^ k" using assms(1) power_increasing [OF that, of "2 :: nat"] by (meson less_le_trans one_le_numeral)
    then have "\<not> bit (unat a) k" by (simp add: bit_iff_odd)
    then show ?thesis by (simp add: bit_simps)
  qed
  then have "push_bit n b AND a = 0" by (intro bit_word_eqI) (auto simp: bit_simps not_le)
  then have "push_bit n b OR a = push_bit n b + a" by (rule disjunctive_add_eq_or [symmetric])
  also have "\<dots> = of_nat (unat b * 2 ^ n + unat a)" by (simp add: push_bit_eq_mult)
  finally show ?thesis using assms(2) by (simp only: unat_of_nat take_bit_eq_mod) (simp add: take_bit_nat_eq_self)
qed

lemma four_bytes:
  fixes b0 b1 b2 b3 :: byte
  shows "uint (push_bit 24 (ucast b0 AND 0x7f) OR push_bit 16 (ucast b1 AND 0xff) OR push_bit 8 (ucast b2 AND 0xff) OR (ucast b3 AND 0xff) :: 32 word) =
    int ((unat b0 mod 128) * 2 ^ 24 + unat b1 * 2 ^ 16 + unat b2 * 2 ^ 8 + unat b3)"
proof -
  note l = byte_less and u = unat_ucast_byte
  have m7: "unat (ucast b AND 0x7f :: 32 word) = unat b mod 128" and m8: "(ucast b AND 0xff :: 32 word) = ucast b" for b :: byte
  proof -
    have "(0x7f :: 32 word) = mask 7" "(0xff :: 32 word) = mask 8" by (simp_all add: mask_eq_exp_minus_1)
    then have t: "(ucast b AND 0x7f :: 32 word) = take_bit 7 (ucast b)" "(ucast b AND 0xff :: 32 word) = take_bit 8 (ucast b)"
      by (simp_all only: take_bit_eq_mask)
    show "unat (ucast b AND 0x7f :: 32 word) = unat b mod 128"
      unfolding t unsigned_take_bit_eq u by (simp add: take_bit_eq_mod)
    show "(ucast b AND 0xff :: 32 word) = ucast b" unfolding t by (rule bit_word_eqI) (auto simp: bit_simps dest: bit_imp_le_length)
  qed
  let ?low = "push_bit 8 (ucast b2) OR ucast b3 :: 32 word"
  have low: "unat ?low = unat b2 * 2 ^ 8 + unat b3"
    using unat_or_plus [of "ucast b3" 8 "ucast b2"] l [of b2] l [of b3] by (simp add: u)
  have mid: "unat (push_bit 16 (ucast b1) OR ?low) = unat b1 * 2 ^ 16 + (unat b2 * 2 ^ 8 + unat b3)"
    using unat_or_plus [of ?low 16 "ucast b1"] l [of b1] l [of b2] l [of b3] by (simp add: u low)
  have "x * 16777216 + (unat b1 * 65536 + (unat b2 * 256 + unat b3)) < 4294967296" if "x < 128" for x
    using that l [of b1] l [of b2] l [of b3] by linarith
  then have "(unat b0 mod 128) * 2 ^ 24 + (unat b1 * 2 ^ 16 + (unat b2 * 2 ^ 8 + unat b3)) < 2 ^ 32" by simp
  then have "unat (push_bit 24 (ucast b0 AND 0x7f) OR (push_bit 16 (ucast b1) OR ?low)) =
      unat b0 mod 128 * 2 ^ 24 + (unat b1 * 2 ^ 16 + (unat b2 * 2 ^ 8 + unat b3))"
    using unat_or_plus [of "push_bit 16 (ucast b1) OR ?low" 24 "ucast b0 AND 0x7f", unfolded m7 mid] l [of b1] l [of b2] l [of b3] by simp
  then show ?thesis unfolding m8 uint_nat by (simp only: add.assoc)
qed

lemma truncated_value:
  assumes "length mac = 20"
  shows "uint (truncated mac) = int (hotp_value mac)"
proof -
  let ?i = "unat (last mac) mod 16"
  have ne: "mac \<noteq> []" using assms by auto
  have last: "at mac (length mac - 1) = ucast (last mac)" using assms ne by (simp add: at_def last_conv_nth)
  have "(0x0f :: 32 word) = mask 4" by (simp add: mask_eq_exp_minus_1)
  then have "unat (ucast (last mac) AND 0x0f :: 32 word) = take_bit 4 (unat (ucast (last mac) :: 32 word))"
    by (simp only: take_bit_eq_mask [symmetric] unsigned_take_bit_eq)
  also have "unat (ucast (last mac) :: 32 word) = unat (last mac)"
    by (rule unat_ucast_byte)
  finally have off: "unat (at mac (length mac - 1) AND 0x0f) = ?i" unfolding last by (simp add: take_bit_eq_mod)
  have "at mac (?i + j) = ucast (mac ! (?i + j))" if "j < 4" for j
  proof -
    have "?i < 16" by simp
    then have "?i + j < 20" using that by linarith
    then show ?thesis using assms by (simp add: at_def)
  qed
  from this [of 0] this [of 1] this [of 2] this [of 3] show ?thesis
    using four_bytes [of "mac ! ?i" "mac ! (?i + 1)" "mac ! (?i + 2)" "mac ! (?i + 3)"]
    unfolding truncated_def hotp_value_def Let_def off using ne by simp
qed

lemma counter_loop_be: "0 \<le> c \<Longrightarrow> counter_loop n c = be_bytes n (nat c)"
proof (induction n arbitrary: c)
  case (Suc n)
  have "nat (c div 256) = nat c div 256" using Suc.prems by (simp add: nat_div_distrib)
  moreover have "(of_int c :: byte) = of_nat (nat c)" using Suc.prems by simp
  ultimately show ?case using Suc.IH [of "c div 256"] Suc.prems by simp
qed simp

lemma nat_to_string_length: "0 < d \<Longrightarrow> n < 10 ^ d \<Longrightarrow> length (nat_to_string n) \<le> d"
proof (induction n arbitrary: d rule: nat_to_string.induct)
  case (1 n)
  show ?case
  proof (cases "n < 10")
    case False
    then obtain e where e: "d = Suc e" "0 < e" using 1(2,3) by (cases d; cases "d - 1") auto
    then have "length (nat_to_string (n div 10)) \<le> e" using 1(1) [OF False, of e] 1(3) by (simp add: less_mult_imp_div_less mult.commute)
    then show ?thesis using False e by (simp add: nat_to_string_step)
  qed (use 1(2) in \<open>simp add: nat_to_string_small\<close>)
qed

text \<open>
  C35. One-time codes are those of RFC 6238. For an \<open>otpauth\<close> address with a usable secret, a positive
  period and a positive number of digits, the code is the one RFC 4226 defines for the secret decoded by
  RFC 4648 and the time step as an 8-byte big-endian counter: the 32-bit accumulator of the Base32
  decoder loses no bit of a secret however long, the truncation stays within 31 bits, the code has
  exactly the asked number of digits, and the remaining seconds lie between 1 and the period and end at
  the next step.
\<close>

theorem totp_follows_rfc6238:
  assumes "parse uri = Some (''otpauth:'', get)" "get ''secret'' = Some secret" "base32_reference secret \<noteq> []"
    and "parseInt (case get ''period'' of None \<Rightarrow> ''30'' | Some p \<Rightarrow> p) = Some period" "0 < period"
    and "parseInt (case get ''digits'' of None \<Rightarrow> ''6'' | Some d \<Rightarrow> d) = Some digits" "0 < digits"
    and "0 \<le> date_now" "\<forall>k m. length (hmac_sha1 k m) = 20"
  shows "\<exists>otp remaining.
    computeTotp parse hmac_sha1 float_rest date_now uri =
      Some \<lparr>totp_code = otp, totp_remainingSeconds = Some remaining, totp_period = Some period\<rparr> \<and>
    otp = padStart (nat digits) CHR ''0'' (nat_to_string
      (hotp_value (hmac_sha1 (base32_reference secret) (be_bytes 8 (nat (date_now div 1000 div period)))) mod 10 ^ nat digits)) \<and>
    length otp = nat digits \<and> list_all is_digit_char otp \<and>
    1 \<le> remaining \<and> remaining \<le> period \<and> (date_now div 1000 + remaining) mod period = 0"
proof -
  let ?now = "date_now div 1000" and ?d = "nat digits"
  let ?mac = "hmac_sha1 (base32_reference secret) (be_bytes 8 (nat (?now div period)))"
  let ?n = "hotp_value ?mac mod 10 ^ ?d"
  let ?code = "padStart ?d CHR ''0'' (nat_to_string ?n)"
  let ?rem = "period - sgn ?now * (\<bar>?now\<bar> mod \<bar>period\<bar>)"
  have now: "0 \<le> ?now" using assms(8) by simp
  have rem: "?rem = period - ?now mod period" using now assms(5) by (cases "?now = 0") (simp_all add: sgn_if)
  have secret: "secret \<noteq> ''''" using assms(3) by (auto simp: base32_reference_def base32_clean_def toUpperCase_def)
  have bytes: "counterToBytes (Some (?now div period)) = be_bytes 8 (nat (?now div period))"
    using now assms(5) by (simp add: counterToBytes_def counter_loop_be pos_imp_zdiv_nonneg_iff del: be_bytes.simps counter_loop.simps)
  have "nat (int (hotp_value ?mac) mod 10 ^ ?d) = ?n" by (metis nat_int of_nat_mod of_nat_numeral of_nat_power)
  then have shown: "code_text float_rest (uint (truncated ?mac)) (Some digits) = ?code"
    using assms(7,9) by (simp add: code_text_def truncated_value)
  have result: "computeTotp parse hmac_sha1 float_rest date_now uri =
      Some \<lparr>totp_code = ?code, totp_remainingSeconds = Some ?rem, totp_period = Some period\<rparr>"
    unfolding computeTotp_def assms(1) option.case prod.case assms(2,4,6) Let_def base32Decode_reference
    using assms(3,5) secret shown by (simp add: bytes)
  have "?n < 10 ^ ?d" by simp
  then have len: "length ?code = ?d" using nat_to_string_length [of ?d ?n] assms(7) by (simp add: max_absorb1)
  have dig: "list_all is_digit_char ?code"
    using nat_to_string_digits [of ?n] by (auto simp: padStart_def list_all_iff is_digit_char_def)
  have bnd: "1 \<le> ?rem" "?rem \<le> period" unfolding rem using assms(5) pos_mod_bound [of period ?now] pos_mod_sign [of period ?now] by linarith+
  have next_step: "(?now + ?rem) mod period = 0" unfolding rem by (simp add: mod_simps algebra_simps flip: minus_mod_eq_mult_div)
  show ?thesis by (intro exI conjI) (rule result refl len dig bnd next_step)+
qed

definition demo_otp :: "string \<Rightarrow> otp_url option" where
  "demo_otp uri = Some (''otpauth:'', \<lambda>k. if k = ''secret'' then Some ''JBSWY3DPEHPK3PXP'' else None)"

theorem totp_follows_rfc6238_witness:
  "\<exists>otp remaining. computeTotp demo_otp (\<lambda>_ _. replicate 20 17) (\<lambda>_ _. '''') 59000 ''u'' =
     Some \<lparr>totp_code = otp, totp_remainingSeconds = Some remaining, totp_period = Some 30\<rparr> \<and> length otp = 6 \<and> 1 \<le> remaining \<and> remaining \<le> 30"
proof -
  let ?get = "\<lambda>k. if k = ''secret'' then Some ''JBSWY3DPEHPK3PXP'' else None"
  have u: "demo_otp ''u'' = Some (''otpauth:'', ?get)" by (simp add: demo_otp_def)
  have b: "base32_reference ''JBSWY3DPEHPK3PXP'' \<noteq> []" by code_simp
  have p: "parseInt (case ?get ''period'' of None \<Rightarrow> ''30'' | Some p \<Rightarrow> p) = Some 30"
    "parseInt (case ?get ''digits'' of None \<Rightarrow> ''6'' | Some d \<Rightarrow> d) = Some 6"
    by (simp_all add: parseInt_def Let_def startsWith_def js_space_def is_digit_char_def)
  show ?thesis
    using totp_follows_rfc6238 [of demo_otp "''u''" ?get "''JBSWY3DPEHPK3PXP''" 30 6 59000 "\<lambda>_ _. replicate 20 17" "\<lambda>_ _. ''''", OF u _ b p(1) _ p(2)]
    by auto
qed

end
