(* ===== verification/Secret_Refs.thy ===== *)
theory Secret_Refs
  imports Vault_Types Js_Map
begin

text \<open>
  Secret references and dotenv lines (apps/cli/src/secret-refs.ts): the environment variables an item
  stands for, \<open>nopwd://item/field\<close> references and how they are resolved, and the parser of dotenv
  files. The regular expressions are written as the scanners they are; each is deterministic, because
  what may follow a greedy part can never belong to it, so the scanner that never backtracks accepts
  what the expression accepts, with the same groups.

  Lines carry the characters of the model (codes below 256), so the byte order mark and the line
  separators U+2028 and U+2029 do not occur. The names built by \<open>toEnvKey\<close> consist of capitals, digits
  and underscores, so none of them is a name that plain objects inherit.
\<close>

section \<open>Items as environment variables\<close>

definition REF_PREFIX :: string where "REF_PREFIX = ''nopwd://''"

definition env_char :: "char \<Rightarrow> bool" where
  "env_char c = (65 \<le> code c \<and> code c \<le> 90 \<or> 48 \<le> code c \<and> code c \<le> 57)"

definition toEnvKey :: "string \<Rightarrow> string" where
  "toEnvKey name = map (\<lambda>c. if env_char c then c else CHR ''_'') (toUpperCase name)"

type_synonym env_vars = "(string \<times> string) list"

definition set_nonempty :: "string \<Rightarrow> string \<Rightarrow> env_vars \<Rightarrow> env_vars" where
  "set_nonempty k v vars = (if v = '''' then vars else js_set k v vars)"

fun itemToEnvVars :: "VaultItemPlaintext \<Rightarrow> env_vars" where
  "itemToEnvVars (Login p) =
     (let k = toEnvKey (login_name p);
          vars = set_nonempty k (login_password p) [];
          vars = set_nonempty (k @ ''_USERNAME'') (login_username p) vars;
          vars = (case nonempty_opt (login_totp p) of None \<Rightarrow> vars | Some t \<Rightarrow> js_set (k @ ''_TOTP'') t vars)
      in fold (\<lambda>f. set_nonempty (k @ ''_'' @ toEnvKey (cf_name f)) (cf_value f)) (login_customFields p) vars)"
| "itemToEnvVars (Note p) = js_set (toEnvKey (note_name p)) (note_content p) []"
| "itemToEnvVars (SshKey p) =
     (let k = toEnvKey (ssh_name p);
          vars = (case nonempty_opt (ssh_publicKey p) of None \<Rightarrow> [] | Some s \<Rightarrow> js_set (k @ ''_PUBLIC'') s [])
      in js_set (k @ ''_PRIVATE'') (ssh_privateKey p) vars)"
| "itemToEnvVars (Card _) = []"
| "itemToEnvVars (Identity _) = []"

section \<open>References\<close>

definition formatReference :: "string \<Rightarrow> string \<Rightarrow> string" where
  "formatReference itemName field = REF_PREFIX @ itemName @ ''/'' @ field"

definition isReference :: "string option \<Rightarrow> bool" where
  "isReference v = (case v of None \<Rightarrow> False | Some s \<Rightarrow> startsWith s REF_PREFIX)"

datatype ResolveResult = Resolved string | Unresolved string

text \<open>\<open>indexOf\<close> of one character.\<close>

fun index_of :: "char \<Rightarrow> string \<Rightarrow> nat option" where
  "index_of c [] = None"
| "index_of c (x # xs) = (if x = c then Some 0 else map_option Suc (index_of c xs))"

definition QUOT :: char where "QUOT = CHR 0x22"
definition APOS :: char where "APOS = CHR 0x27"
definition BSLASH :: char where "BSLASH = CHR 0x5C"

definition field_env_key :: "string \<Rightarrow> string \<Rightarrow> string" where
  "field_env_key itemKey fieldName =
     (if fieldName = ''password'' then itemKey
      else if fieldName = ''username'' then itemKey @ ''_USERNAME''
      else if fieldName = ''totp'' then itemKey @ ''_TOTP''
      else itemKey @ ''_'' @ toEnvKey fieldName)"

definition resolveReference :: "VaultItemPlaintext list \<Rightarrow> string \<Rightarrow> ResolveResult" where
  "resolveReference vault ref =
     (let rest = drop (length REF_PREFIX) ref; malformed = Unresolved (''malformed reference '' @ ref) in
      case index_of (CHR ''/'') rest of
        None \<Rightarrow> malformed
      | Some slashIdx \<Rightarrow>
          if \<not> isReference (Some ref) \<or> slashIdx = 0 then malformed
          else let itemName = toLowerCase (take slashIdx rest);
                   fieldName = toLowerCase (drop (slashIdx + 1) rest)
               in case find (\<lambda>i. toLowerCase (plain_name i) = itemName) vault of
                    None \<Rightarrow> Unresolved (''no vault item matches reference '' @ ref)
                  | Some item \<Rightarrow>
                      case map_of (itemToEnvVars item) (field_env_key (toEnvKey (plain_name item)) fieldName) of
                        None \<Rightarrow> Unresolved (''field '' @ [QUOT] @ fieldName @ [QUOT] @ '' not found in vault item '' @
                                 [QUOT] @ plain_name item @ [QUOT])
                      | Some v \<Rightarrow> Resolved v)"

section \<open>Dotenv lines\<close>

record DotenvEntry =
  de_key :: string
  de_value :: string
  de_line :: nat

record ParsedDotenvLine =
  dl_exportPrefix :: bool
  dl_key :: string
  dl_value :: string
  dl_trailing :: string
  dl_unterminatedQuote :: bool

definition line_terminator :: "char \<Rightarrow> bool" where
  "line_terminator c = (code c = 10 \<or> code c = 13)"

definition key_start :: "char \<Rightarrow> bool" where
  "key_start c = (65 \<le> code c \<and> code c \<le> 90 \<or> 97 \<le> code c \<and> code c \<le> 122 \<or> c = CHR ''_'')"

definition key_char :: "char \<Rightarrow> bool" where
  "key_char c = (key_start c \<or> is_digit_char c \<or> c = CHR ''.'' \<or> c = CHR ''-'')"

text \<open>\<open>([A-Za-z_][A-Za-z0-9_.-]*)\s*=\s*(.*)$\<close>: the key and the raw value.\<close>

definition dotenv_assignment :: "string \<Rightarrow> (string \<times> string) option" where
  "dotenv_assignment s =
     (let k = takeWhile key_char s in
      case trimStart (dropWhile key_char s) of
        [] \<Rightarrow> None
      | c # r \<Rightarrow>
          let v = trimStart r in
          if k \<noteq> [] \<and> key_start (hd k) \<and> c = CHR ''='' \<and> \<not> list_ex line_terminator v then Some (k, v) else None)"

text \<open>
  The whole of \<open>DOTENV_LINE\<close>: optional white space, an optional \<open>export\<close> followed by white space, and
  the assignment; when the part after \<open>export\<close> does not match, \<open>export\<close> may itself be the key.
\<close>

definition DOTENV_LINE :: "string \<Rightarrow> (bool \<times> string \<times> string) option" where
  "DOTENV_LINE line =
     (let s = trimStart line; r = drop 6 s; plain = map_option (Pair False) (dotenv_assignment s) in
      if startsWith s ''export'' \<and> r \<noteq> [] \<and> js_space (hd r)
      then (case dotenv_assignment (trimStart r) of None \<Rightarrow> plain | Some kv \<Rightarrow> Some (True, kv))
      else plain)"

text \<open>\<open>^"((?:\\.|[^"\\])*)"\<close> after its opening quote: the text and what follows the closing quote.\<close>

fun double_quoted :: "string \<Rightarrow> (string \<times> string) option" where
  "double_quoted [] = None"
| "double_quoted (c # r) =
     (if c = QUOT then Some ([], r)
      else if c = BSLASH then
        (case r of [] \<Rightarrow> None
         | d # r' \<Rightarrow> if line_terminator d then None else map_option (\<lambda>(t, z). (c # d # t, z)) (double_quoted r'))
      else map_option (\<lambda>(t, z). (c # t, z)) (double_quoted r))"

text \<open>\<open>^'([^']*)'\<close> after its opening quote.\<close>

definition single_quoted :: "string \<Rightarrow> (string \<times> string) option" where
  "single_quoted s =
     (case dropWhile (\<lambda>c. c \<noteq> APOS) s of [] \<Rightarrow> None | _ # z \<Rightarrow> Some (takeWhile (\<lambda>c. c \<noteq> APOS) s, z))"

fun unescape :: "string \<Rightarrow> string" where
  "unescape [] = []"
| "unescape (c # r) =
     (if c = BSLASH then
        (case r of [] \<Rightarrow> [c]
         | d # r' \<Rightarrow> if line_terminator d then c # unescape r
                     else (if d = CHR ''n'' then CHR 0x0A else d) # unescape r')
      else c # unescape r)"

text \<open>\<open>\s+#.*$\<close>: the value before an inline comment, and the comment with the white space before it.\<close>

fun inline_comment :: "string \<Rightarrow> (string \<times> string) option" where
  "inline_comment [] = None"
| "inline_comment (c # r) =
     (if js_space c \<and> (case trimStart r of [] \<Rightarrow> False | d # _ \<Rightarrow> d = CHR ''#'') then Some ([], c # r)
      else map_option (\<lambda>(v, t). (c # v, t)) (inline_comment r))"

definition quoted_line :: "bool \<Rightarrow> string \<Rightarrow> string \<Rightarrow> (string \<times> string) option \<Rightarrow> (string \<Rightarrow> string) \<Rightarrow> ParsedDotenvLine" where
  "quoted_line ex k raw q f =
     (case q of
        None \<Rightarrow> \<lparr>dl_exportPrefix = ex, dl_key = k, dl_value = raw, dl_trailing = '''', dl_unterminatedQuote = True\<rparr>
      | Some (t, z) \<Rightarrow> \<lparr>dl_exportPrefix = ex, dl_key = k, dl_value = f t, dl_trailing = z, dl_unterminatedQuote = False\<rparr>)"

definition parseDotenvLine :: "string \<Rightarrow> ParsedDotenvLine option" where
  "parseDotenvLine line =
     (case DOTENV_LINE line of
        None \<Rightarrow> None
      | Some (ex, k, v) \<Rightarrow>
          let raw = trimEnd v in
          Some (case raw of
              c # r \<Rightarrow>
                if c = QUOT then quoted_line ex k raw (double_quoted r) unescape
                else if c = APOS then quoted_line ex k raw (single_quoted r) id
                else (case inline_comment raw of
                    Some (t, z) \<Rightarrow> \<lparr>dl_exportPrefix = ex, dl_key = k, dl_value = t, dl_trailing = z, dl_unterminatedQuote = False\<rparr>
                  | None \<Rightarrow> \<lparr>dl_exportPrefix = ex, dl_key = k, dl_value = raw, dl_trailing = '''', dl_unterminatedQuote = False\<rparr>)
            | [] \<Rightarrow> \<lparr>dl_exportPrefix = ex, dl_key = k, dl_value = raw, dl_trailing = '''', dl_unterminatedQuote = False\<rparr>))"

text \<open>\<open>content.split(/\r?\n/)\<close>.\<close>

fun split_lines :: "string \<Rightarrow> string list" where
  "split_lines [] = [[]]"
| "split_lines (c # r) =
     (if code c = 13 \<and> r \<noteq> [] \<and> code (hd r) = 10 then [] # split_lines (tl r)
      else if code c = 10 then [] # split_lines r
      else case split_lines r of [] \<Rightarrow> [[c]] | l # ls \<Rightarrow> (c # l) # ls)"

definition line_entry :: "string \<Rightarrow> nat \<Rightarrow> DotenvEntry list" where
  "line_entry line i =
     (case parseDotenvLine line of
        None \<Rightarrow> []
      | Some p \<Rightarrow>
          if dl_unterminatedQuote p then []
          else [\<lparr>de_key = dl_key p, de_value = dl_value p, de_line = i + 1\<rparr>])"

definition parseDotenv :: "string \<Rightarrow> DotenvEntry list" where
  "parseDotenv content = concat (map (\<lambda>(i, line). line_entry line i) (enumerate 0 (split_lines content)))"

section \<open>Facts about the scanners\<close>

lemma takeWhile_prefix: "\<forall>c \<in> set k. P c \<Longrightarrow> \<not> P d \<Longrightarrow> takeWhile P (k @ d # r) = k \<and> dropWhile P (k @ d # r) = d # r"
  by (induction k) auto

lemma trimStart_nonspace [simp]: "s = [] \<or> \<not> js_space (hd s) \<Longrightarrow> trimStart s = s"
  by (cases s) (auto simp: trimStart_def)

lemma trimEnd_nonspace: "s = [] \<or> \<not> js_space (last s) \<Longrightarrow> trimEnd s = s"
  by (cases s rule: rev_cases) (auto simp: trimEnd_def)

lemma trimEnd_last: "trimEnd s = [] \<or> \<not> js_space (last (trimEnd s))"
proof -
  have "rev (trimEnd s) = [] \<or> \<not> js_space (hd (rev (trimEnd s)))"
    using hd_dropWhile [of js_space "rev s"] by (auto simp: trimEnd_def)
  then show ?thesis by (simp add: hd_rev)
qed

lemma set_trimEnd: "set (trimEnd s) \<subseteq> set s"
  using set_dropWhileD [of _ js_space "rev s"] by (auto simp: trimEnd_def)

lemma code_of_char: "c = CHR ''='' \<longleftrightarrow> code c = 61" "c = CHR ''.'' \<longleftrightarrow> code c = 46" "c = CHR ''-'' \<longleftrightarrow> code c = 45"
  "c = CHR ''_'' \<longleftrightarrow> code c = 95" "c = CHR ''/'' \<longleftrightarrow> code c = 47" "c = QUOT \<longleftrightarrow> code c = 34" "c = APOS \<longleftrightarrow> code c = 39"
  by (simp_all flip: code_eq_iff add: QUOT_def APOS_def)

lemmas char_classes = key_char_def key_start_def is_digit_char_def js_space_def line_terminator_def code_of_char

definition valid_key :: "string \<Rightarrow> bool" where
  "valid_key k \<longleftrightarrow> k \<noteq> [] \<and> key_start (hd k) \<and> list_all key_char k"

definition one_line :: "string \<Rightarrow> bool" where
  "one_line s \<longleftrightarrow> \<not> list_ex line_terminator s \<and> (s = [] \<or> \<not> js_space (last s))"

lemma dotenv_assignment_Some:
  assumes "dotenv_assignment s = Some (k, v)"
  shows "valid_key k" "\<not> list_ex line_terminator v" "set v \<subseteq> set s"
proof -
  obtain c r where r: "trimStart (dropWhile key_char s) = c # r" and k: "k = takeWhile key_char s" "k \<noteq> []" "key_start (hd k)"
    and v: "v = trimStart r" "\<not> list_ex line_terminator v"
    using assms by (auto simp: dotenv_assignment_def Let_def split: list.splits if_splits)
  have "list_all key_char k" unfolding k(1) list_all_iff by (blast dest: set_takeWhileD)
  then show "valid_key k" using k(2,3) by (simp add: valid_key_def)
  show "\<not> list_ex line_terminator v" by (rule v(2))
  have "set (dropWhile P xs) \<subseteq> set xs" for P and xs :: string by (blast dest: set_dropWhileD)
  then show "set v \<subseteq> set s" unfolding v(1) using r unfolding trimStart_def
    by (metis (no_types, lifting) order_trans set_subset_Cons)
qed

lemma dotenv_assignment_render:
  assumes "valid_key k" "\<not> list_ex line_terminator v" "v \<noteq> []" "\<not> js_space (hd v)"
  shows "dotenv_assignment (k @ CHR ''='' # v) = Some (k, v)"
proof -
  have "\<not> key_char (CHR ''='')" "\<not> js_space (CHR ''='')" by (simp_all add: char_classes)
  then show ?thesis
    using assms takeWhile_prefix [of k key_char "CHR ''=''" v]
    by (simp add: dotenv_assignment_def Let_def valid_key_def list_all_iff)
qed

lemma export_not_key:
  assumes "valid_key k" "startsWith (k @ CHR ''='' # v) ''export''" "drop 6 (k @ CHR ''='' # v) \<noteq> []"
  shows "\<not> js_space (hd (drop 6 (k @ CHR ''='' # v)))"
proof -
  let ?s = "k @ CHR ''='' # v"
  have len: "6 < length ?s" using assms(3) by (metis drop_all not_le)
  then have hd: "hd (drop 6 ?s) = ?s ! 6" by (rule hd_drop_conv_nth)
  obtain z where z: "?s = ''export'' @ z" using assms(2) by (auto simp: startsWith_def prefix_def)
  have k6: "6 \<le> length k"
  proof (rule ccontr)
    assume "\<not> 6 \<le> length k"
    then have "length k < 6" by simp
    then have "?s ! length k = ''export'' ! length k" by (subst z) (simp only: nth_append, simp)
    moreover have "''export'' ! length k \<in> set ''export''" using \<open>length k < 6\<close> by (intro nth_mem) simp
    ultimately have "?s ! length k \<in> set ''export''" by simp
    then show False by (simp add: nth_append)
  qed
  have "?s ! 6 = CHR ''='' \<or> ?s ! 6 \<in> set k"
    using k6 by (cases "length k = 6") (auto simp: nth_append)
  then show ?thesis using assms(1) unfolding hd valid_key_def list_all_iff by (auto simp: char_classes)
qed

lemma DOTENV_LINE_render:
  assumes "valid_key k" "\<not> list_ex line_terminator v" "v \<noteq> []" "\<not> js_space (hd v)"
  shows "DOTENV_LINE ((if ex then ''export '' else '''') @ k @ CHR ''='' # v) = Some (ex, k, v)"
proof -
  have hd: "\<not> js_space (hd k)" "k \<noteq> []" using assms(1) by (auto simp: valid_key_def char_classes)
  have sp: "js_space (CHR '' '')" "\<not> js_space (CHR ''e'')" by (simp_all add: js_space_def)
  have t: "trimStart (k @ CHR ''='' # v) = k @ CHR ''='' # v" using hd by simp
  show ?thesis
  proof (cases ex)
    case True
    have "trimStart (CHR '' '' # k @ CHR ''='' # v) = k @ CHR ''='' # v" using sp t by (simp add: trimStart_def)
    then show ?thesis using True sp dotenv_assignment_render [OF assms]
      by (simp add: DOTENV_LINE_def Let_def startsWith_def)
  next
    case False
    have no: "\<not> (startsWith (k @ CHR ''='' # v) ''export'' \<and> drop 6 (k @ CHR ''='' # v) \<noteq> [] \<and>
        js_space (hd (drop 6 (k @ CHR ''='' # v))))"
      using export_not_key [OF assms(1), of v] by blast
    show ?thesis unfolding DOTENV_LINE_def Let_def
      using False no by (simp only: if_False t append_Nil dotenv_assignment_render [OF assms] option.map)
  qed
qed

lemma double_quoted_suffix: "double_quoted s = Some (t, z) \<Longrightarrow> suffix z s"
  by (induction s arbitrary: t rule: double_quoted.induct)
     (auto split: if_splits list.splits intro: suffix_ConsI)

lemma single_quoted_suffix: "single_quoted s = Some (t, z) \<Longrightarrow> suffix z s"
  unfolding single_quoted_def
  by (auto split: list.splits) (metis suffix_ConsI suffix_dropWhile suffix_order.trans suffix_order.refl)

lemma inline_comment_parts: "inline_comment s = Some (t, z) \<Longrightarrow> s = t @ z"
  by (induction s arbitrary: t) (auto split: if_splits)

lemma single_quoted_text: "APOS \<notin> set t \<Longrightarrow> single_quoted (t @ APOS # z) = Some (t, z)"
  using takeWhile_prefix [of t "\<lambda>c. c \<noteq> APOS" APOS z] by (fastforce simp: single_quoted_def)

lemma one_line_suffix: "one_line s \<Longrightarrow> suffix z s \<Longrightarrow> one_line z"
  by (auto simp: one_line_def suffix_def list_ex_iff split: if_splits)

text \<open>What a parsed line is made of, and that its last part can be written back behind a quote.\<close>

lemma parseDotenvLine_parts:
  assumes "parseDotenvLine line = Some p"
  shows "valid_key (dl_key p)" "one_line (dl_trailing p)"
proof -
  obtain ex k v where m: "DOTENV_LINE line = Some (ex, k, v)"
    using assms by (auto simp: parseDotenvLine_def split: option.splits)
  have kv: "valid_key k \<and> \<not> list_ex line_terminator v"
    using m dotenv_assignment_Some unfolding DOTENV_LINE_def Let_def
    by (auto split: option.splits if_splits)
  let ?raw = "trimEnd v"
  have raw: "one_line ?raw"
    using kv trimEnd_last [of v] set_trimEnd [of v] by (auto simp: one_line_def list_ex_iff)
  have cons: "?raw = c # r \<Longrightarrow> suffix z r \<Longrightarrow> one_line z" for c r z
    using one_line_suffix [OF raw] by (simp add: suffix_ConsI)
  have nil: "one_line ''''" by (simp add: one_line_def)
  have com: "inline_comment ?raw = Some (t, z) \<Longrightarrow> one_line z" for t z
    using one_line_suffix [OF raw, of z] inline_comment_parts [of ?raw t z] by (simp add: suffix_def)
  have k: "dl_key p = k \<and> one_line (dl_trailing p)"
  proof (cases ?raw)
    case Nil
    then show ?thesis using assms m nil by (auto simp: parseDotenvLine_def)
  next
    case (Cons c r)
    consider "c = QUOT" | "c \<noteq> QUOT" "c = APOS" | "c \<noteq> QUOT" "c \<noteq> APOS" by blast
    then show ?thesis
    proof cases
      case 1
      then have "p = quoted_line ex k ?raw (double_quoted r) unescape" using assms m Cons by (simp add: parseDotenvLine_def)
      then show ?thesis using nil cons [OF Cons] double_quoted_suffix
        by (cases "double_quoted r") (auto simp: quoted_line_def)
    next
      case 2
      then have "p = quoted_line ex k ?raw (single_quoted r) id" using assms m Cons by (simp add: parseDotenvLine_def)
      then show ?thesis using nil cons [OF Cons] single_quoted_suffix
        by (cases "single_quoted r") (auto simp: quoted_line_def)
    next
      case 3
      then have "p = (case inline_comment ?raw of
          Some (t, z) \<Rightarrow> \<lparr>dl_exportPrefix = ex, dl_key = k, dl_value = t, dl_trailing = z, dl_unterminatedQuote = False\<rparr>
        | None \<Rightarrow> \<lparr>dl_exportPrefix = ex, dl_key = k, dl_value = ?raw, dl_trailing = '''', dl_unterminatedQuote = False\<rparr>)"
        using assms m by (simp only: parseDotenvLine_def option.case prod.case Let_def option.inject list.case Cons if_False)
      then show ?thesis using nil com by (auto split: option.splits)
    qed
  qed
  show "valid_key (dl_key p)" using k kv by simp
  show "one_line (dl_trailing p)" using k by blast
qed

lemma parse_single_quoted:
  assumes "valid_key k" "one_line z" "APOS \<notin> set t" "\<not> list_ex line_terminator t"
  shows "parseDotenvLine ((if ex then ''export '' else '''') @ k @ CHR ''='' # APOS # t @ APOS # z) =
    Some \<lparr>dl_exportPrefix = ex, dl_key = k, dl_value = t, dl_trailing = z, dl_unterminatedQuote = False\<rparr>"
proof -
  let ?v = "APOS # t @ APOS # z"
  have a: "\<not> js_space APOS" "\<not> line_terminator APOS" "APOS \<noteq> QUOT" by (simp_all add: char_classes APOS_def QUOT_def)
  have "DOTENV_LINE ((if ex then ''export '' else '''') @ k @ CHR ''='' # ?v) = Some (ex, k, ?v)"
    by (rule DOTENV_LINE_render [OF assms(1)]) (use a assms(2,4) in \<open>auto simp: one_line_def\<close>)
  moreover have "trimEnd ?v = ?v" by (rule trimEnd_nonspace) (use a assms(2) in \<open>auto simp: one_line_def\<close>)
  ultimately show ?thesis
    using a single_quoted_text [OF assms(3), of z] by (simp add: parseDotenvLine_def quoted_line_def)
qed

section \<open>Resolving references\<close>

lemma index_of_first: "c \<notin> set s \<Longrightarrow> index_of c (s @ c # r) = Some (length s)"
  by (induction s) auto

lemma find_unique:
  assumes "x \<in> set xs" "P x" "\<And>y. y \<in> set xs \<Longrightarrow> P y \<Longrightarrow> y = x"
  shows "find P xs = Some x"
  using assms by (induction xs) (fastforce split: if_splits)+

lemma toLowerCase_password [simp]: "toLowerCase ''password'' = ''password''"
  by (simp add: toLowerCase_def js_lower_char_def)

lemma formatReference_eq: "formatReference name field = REF_PREFIX @ name @ CHR ''/'' # field"
  by (simp add: formatReference_def)

lemma resolve_formatted:
  assumes "name \<noteq> ''''" "CHR ''/'' \<notin> set name"
    and "find (\<lambda>i. toLowerCase (plain_name i) = toLowerCase name) vault = Some item"
    and "map_of (itemToEnvVars item) (field_env_key (toEnvKey (plain_name item)) (toLowerCase field)) = Some v"
  shows "resolveReference vault (formatReference name field) = Resolved v"
proof -
  let ?ref = "formatReference name field"
  have d: "drop (length REF_PREFIX) ?ref = name @ CHR ''/'' # field" by (simp add: formatReference_eq)
  have i: "isReference (Some ?ref)" by (simp add: isReference_def startsWith_def formatReference_eq)
  show ?thesis unfolding resolveReference_def Let_def d
    using i assms(1,3,4) by (simp add: index_of_first [OF assms(2)])
qed

lemma login_env_password:
  assumes "login_password p \<noteq> ''''" "login_customFields p = []" "login_username p = ''''" "login_totp p = None"
  shows "map_of (itemToEnvVars (Login p)) (field_env_key (toEnvKey (plain_name (Login p))) (toLowerCase ''password'')) =
    Some (login_password p)"
proof -
  have "itemToEnvVars (Login p) = [(toEnvKey (login_name p), login_password p)]"
    using assms unfolding itemToEnvVars.simps Let_def by (simp add: set_nonempty_def nonempty_opt_def)
  then show ?thesis by (simp add: field_env_key_def del: itemToEnvVars.simps)
qed

lemma resolve_password:
  assumes "Login p \<in> set vault" "login_name p \<noteq> ''''" "CHR ''/'' \<notin> set (login_name p)"
    and "\<And>i. i \<in> set vault \<Longrightarrow> toLowerCase (plain_name i) = toLowerCase (login_name p) \<Longrightarrow> i = Login p"
    and "login_password p \<noteq> ''''" "login_customFields p = []" "login_username p = ''''" "login_totp p = None"
  shows "resolveReference vault (formatReference (login_name p) ''password'') = Resolved (login_password p)"
proof (rule resolve_formatted [OF assms(2,3) _ login_env_password [OF assms(5-8)]])
  show "find (\<lambda>i. toLowerCase (plain_name i) = toLowerCase (login_name p)) vault = Some (Login p)"
    by (rule find_unique [OF assms(1)]) (simp, erule (1) assms(4))
qed

end
