(* ===== verification/Cli_Adopt.thy ===== *)
theory Cli_Adopt
  imports Secret_Refs Encoding "HOL-Library.Sublist"
begin

text \<open>
  Moving a secret from a file into the vault (apps/cli/src/adopt.ts): finding the secret on a line,
  naming the item, saving it and rewriting the line of a dotenv file to a reference. The file system is
  a store of files with their permissions; which of the calls that change it fail, and with what left
  behind, is an argument, and so are the random bytes of the temporary name. Saving the item is the
  callback the command passes in. The umask is taken to be zero, and the ellipsis of a preview is
  written as three dots.

  The lemmas show that the file is whole at every exit and only changes after the item is saved, and
  that a rewritten line resolves to the value it held.
\<close>

section \<open>Paths\<close>

definition strip_slashes :: "string \<Rightarrow> string" where
  "strip_slashes p = rev (dropWhile (\<lambda>c. c = CHR ''/'') (rev p))"

definition path_basename :: "string \<Rightarrow> string" where
  "path_basename p = rev (takeWhile (\<lambda>c. c \<noteq> CHR ''/'') (rev (strip_slashes p)))"

definition path_dirname :: "string \<Rightarrow> string" where
  "path_dirname p =
     (let s = strip_slashes p; d = rev (dropWhile (\<lambda>c. c \<noteq> CHR ''/'') (rev s)) in
      if d = [] then (if s = [] \<and> p \<noteq> [] then ''/'' else ''.'')
      else if strip_slashes d = [] then ''/'' else strip_slashes d)"

definition path_join :: "string \<Rightarrow> string \<Rightarrow> string" where
  "path_join d name = (if d = ''/'' then ''/'' @ name else d @ ''/'' @ name)"

section \<open>The secret on a line\<close>

definition MIN_SOURCE_SECRET_LENGTH :: nat where "MIN_SOURCE_SECRET_LENGTH = 8"

record ExtractedSecret =
  es_value :: string
  es_envKey :: "string option"
  es_rewriteLine :: "(string \<Rightarrow> string) option"

definition isDotenvPath :: "string \<Rightarrow> bool" where
  "isDotenvPath path =
     (let name = path_basename path in
      name = ''.env'' \<or> startsWith name ''.env.'' \<or> endsWith name ''.env'')"

definition redactedPreview :: "string \<Rightarrow> string" where
  "redactedPreview v =
     (if length v \<le> 8 then nat_to_string (length v) @ '' chars''
      else take 4 v @ ''...'' @ drop (length v - 2) v @ '' ('' @ nat_to_string (length v) @ '' chars)'')"

text \<open>
  \<open>((?:\\.|(?!\1).)*)\1\<close> after an opening quote \<open>q\<close>, with the backtracking of the expression: a
  repetition is tried before the end, and an escape before a single character, so a backslash counts as
  a character when nothing else closes the literal.
\<close>

fun quoted_body :: "char \<Rightarrow> string \<Rightarrow> (string \<times> string) option" where
  "quoted_body q [] = None"
| "quoted_body q [c] = (if c = q then Some ([], []) else None)"
| "quoted_body q (c # d # r) =
     (case (if c = BSLASH \<and> \<not> line_terminator d then quoted_body q r else None) of
        Some (t, z) \<Rightarrow> Some (c # d # t, z)
      | None \<Rightarrow>
          case (if c \<noteq> q \<and> \<not> line_terminator c then quoted_body q (d # r) else None) of
            Some (t, z) \<Rightarrow> Some (c # t, z)
          | None \<Rightarrow> if c = q then Some ([], d # r) else None)"

lemma quoted_body_shorter: "quoted_body q s = Some (t, z) \<Longrightarrow> length z < length s"
  by (induction q s arbitrary: t z rule: quoted_body.induct)
     (fastforce split: if_splits option.splits prod.splits)+

text \<open>\<open>matchAll\<close>: the literals of a line from left to right.\<close>

definition QUOTES :: string where "QUOTES = [QUOT, APOS, CHR 0x60]"

function quoted_literals :: "string \<Rightarrow> string list" where
  "quoted_literals [] = []"
| "quoted_literals (c # r) =
     (case (if c \<in> set QUOTES then quoted_body c r else None) of
        Some (t, z) \<Rightarrow> t # quoted_literals z
      | None \<Rightarrow> quoted_literals r)"
  by pat_completeness auto
termination
  by (relation "measure length") (auto split: if_splits dest: quoted_body_shorter)

definition in_quotes :: "string \<Rightarrow> string" where
  "in_quotes s = [QUOT] @ s @ [QUOT]"

definition rewriteLine :: "ParsedDotenvLine \<Rightarrow> string \<Rightarrow> string" where
  "rewriteLine p reference =
     (if dl_exportPrefix p then ''export '' else '''') @ dl_key p @ CHR ''='' # APOS # reference @ APOS # dl_trailing p"

definition extractDotenv :: "string \<Rightarrow> string + ExtractedSecret" where
  "extractDotenv lineText =
     (case parseDotenvLine lineText of
        None \<Rightarrow> Inl ''line is not a KEY=value assignment''
      | Some p \<Rightarrow>
          if dl_value p = '''' then Inl ''line is not a KEY=value assignment''
          else if dl_unterminatedQuote p
            then Inl (dl_key p @ '' is a multi-line value; move it into the vault by hand'')
          else if isReference (Some (dl_value p)) then Inl (dl_key p @ '' already points at the vault'')
          else Inr \<lparr>es_value = dl_value p, es_envKey = Some (dl_key p), es_rewriteLine = Some (rewriteLine p)\<rparr>)"

definition extractSecret :: "string \<Rightarrow> string \<Rightarrow> string option \<Rightarrow> string + ExtractedSecret" where
  "extractSecret path lineText match =
     (if isDotenvPath path then extractDotenv lineText
      else
        let candidates = filter (\<lambda>s. MIN_SOURCE_SECRET_LENGTH \<le> length s \<and> BSLASH \<notin> set s) (quoted_literals lineText);
            chosen = (case nonempty_opt match of None \<Rightarrow> candidates | Some m \<Rightarrow> filter (\<lambda>s. startsWith s m) candidates)
        in case chosen of
             [] \<Rightarrow> Inl (case nonempty_opt match of
                 Some m \<Rightarrow> ''no quoted string on that line starts with '' @ in_quotes m
               | None \<Rightarrow> ''no quoted secret found on that line'')
           | [s] \<Rightarrow> Inr \<lparr>es_value = s, es_envKey = None, es_rewriteLine = None\<rparr>
           | _ \<Rightarrow> Inl (''that line has several quoted strings ('' @ js_join '', '' (map redactedPreview chosen) @
                     ''); pass --match with the start of the secret''))"

definition defaultItemName :: "string \<Rightarrow> ExtractedSecret \<Rightarrow> int \<Rightarrow> string" where
  "defaultItemName path secret lineNumber =
     (let project = path_basename (path_dirname path) in
      case nonempty_opt (es_envKey secret) of
        Some k \<Rightarrow> project @ '' '' @ k
      | None \<Rightarrow> project @ '' '' @ path_basename path @ '':'' @ int_to_string lineNumber)"

definition name_forbidden :: "char \<Rightarrow> bool" where
  "name_forbidden c = (c = CHR ''/'' \<or> c = APOS \<or> code c \<le> 31 \<or> code c = 127)"

definition validateItemName :: "string \<Rightarrow> string + unit" where
  "validateItemName name =
     rguard (\<not> list_ex name_forbidden name)
       (''item name '' @ in_quotes name @ '' must not contain '' @ in_quotes ''/'' @ '', '' @ in_quotes [APOS] @ '' or control characters'')"

section \<open>The file\<close>

text \<open>Files with their content and mode, and where a path leads.\<close>

record FileSystem =
  fs_realpath :: "string \<Rightarrow> string option"
  fs_files :: "string \<Rightarrow> (string \<times> nat) option"

text \<open>
  Which calls fail: a failed write with its message and what it leaves of the file, a failed rename, and
  whether a file can be removed.
\<close>

record FsFaults =
  ff_write :: "(string \<times> string option) option"
  ff_rename :: "string option"
  ff_unlink :: bool

definition put_file :: "string \<Rightarrow> (string \<times> nat) option \<Rightarrow> FileSystem \<Rightarrow> FileSystem" where
  "put_file p f fs = fs\<lparr>fs_files := (fs_files fs)(p := f)\<rparr>"

text \<open>\<open>writeFileSync(tmp, content, { flag: "wx", mode })\<close>, \<open>renameSync\<close> and \<open>unlinkSync\<close>.\<close>

definition writeNew :: "FsFaults \<Rightarrow> string \<Rightarrow> string \<Rightarrow> nat \<Rightarrow> (FileSystem, string, unit) io" where
  "writeNew F tmp content mode fs =
     (if fs_files fs tmp \<noteq> None then (Inl ''EEXIST: file already exists'', fs)
      else case ff_write F of
          Some (msg, left) \<Rightarrow> (Inl msg, put_file tmp (map_option (\<lambda>c. (c, mode)) left) fs)
        | None \<Rightarrow> (Inr (), put_file tmp (Some (content, mode)) fs))"

definition renameFile :: "FsFaults \<Rightarrow> string \<Rightarrow> string \<Rightarrow> (FileSystem, string, unit) io" where
  "renameFile F tmp path fs =
     (case ff_rename F of
        Some msg \<Rightarrow> (Inl msg, fs)
      | None \<Rightarrow> (Inr (), put_file tmp None (put_file path (fs_files fs tmp) fs)))"

definition unlinkFile :: "FsFaults \<Rightarrow> string \<Rightarrow> FileSystem \<Rightarrow> FileSystem" where
  "unlinkFile F tmp fs = (if ff_unlink F then put_file tmp None fs else fs)"

text \<open>\<open>content.split(/(\r?\n)/)\<close>: texts and the line ends between them, in turn.\<close>

fun split_parts :: "string \<Rightarrow> string list" where
  "split_parts [] = [[]]"
| "split_parts (c # r) =
     (if code c = 13 \<and> r \<noteq> [] \<and> code (hd r) = 10 then [] # [c, hd r] # split_parts (tl r)
      else if code c = 10 then [] # [c] # split_parts r
      else case split_parts r of [] \<Rightarrow> [[c]] | l # ls \<Rightarrow> (c # l) # ls)"

record AdoptOptions =
  ao_path :: string
  ao_line :: int
  ao_name :: "string option"
  ao_match :: "string option"
  ao_existingNames :: "string list"

record AdoptResult =
  ar_itemName :: string
  ar_reference :: string
  ar_rewritten :: bool
  ar_preview :: string

definition tmp_path :: "string \<Rightarrow> bytes \<Rightarrow> string" where
  "tmp_path path rnd = path_join (path_dirname path) (''.'' @ path_basename path @ ''.'' @ bytesToHex rnd @ ''.nopwd-tmp'')"

text \<open>The line an index stands for, or the error when there is none.\<close>

definition pick_line :: "AdoptOptions \<Rightarrow> string list \<Rightarrow> string + nat" where
  "pick_line opts parts =
     (let index = (ao_line opts - 1) * 2 in
      if int (length parts) \<le> index \<or> index = int (length parts) - 1 \<and> parts ! nat index = ''''
        then Inl (ao_path opts @ '' has no line '' @ int_to_string (ao_line opts))
      else if index < 0 then Inl ''Cannot read properties of undefined''
      else Inr (nat index))"

definition adopt_item :: "string \<Rightarrow> ExtractedSecret \<Rightarrow> string \<Rightarrow> int \<Rightarrow> LoginItem" where
  "adopt_item itemName secret path line =
     \<lparr>login_name = itemName, login_tags = None, login_username = '''', login_password = es_value secret, login_urls = [],
      login_totp = None, login_notes = Some (''Moved from '' @ path @ '':'' @ int_to_string line),
      login_customFields = [], login_passkey = None\<rparr>"

text \<open>Everything before the save: the line, the secret on it and the name of its item.\<close>

definition adopt_plan :: "AdoptOptions \<Rightarrow> string \<Rightarrow> string list \<Rightarrow> string + nat \<times> ExtractedSecret \<times> string" where
  "adopt_plan opts path parts =
     rbind (pick_line opts parts) (\<lambda>index.
     rbind (extractSecret path (parts ! index) (ao_match opts)) (\<lambda>secret.
     let itemName = (case ao_name opts of Some n \<Rightarrow> n | None \<Rightarrow> defaultItemName path secret (ao_line opts)) in
     rbind (validateItemName itemName) (\<lambda>_.
     if list_ex (\<lambda>n. toLowerCase n = toLowerCase itemName) (ao_existingNames opts)
       then Inl (''a vault item named '' @ in_quotes itemName @ '' already exists (adopted before?); pass --name to choose another'')
     else Inr (index, secret, itemName))))"

text \<open>Everything after the save: the new content next to the file, then moved over it.\<close>

definition replace_file :: "FsFaults \<Rightarrow> bytes \<Rightarrow> string \<Rightarrow> string \<Rightarrow> nat \<Rightarrow> (FileSystem, string, unit) io" where
  "replace_file F rnd path content mode fs =
     (let tmp = tmp_path path rnd in
      case io_bind (writeNew F tmp content (mode mod 512)) (\<lambda>_. renameFile F tmp path) fs of
        (Inl msg, fs') \<Rightarrow> (Inl msg, unlinkFile F tmp fs')
      | (Inr _, fs') \<Rightarrow> (Inr (), fs'))"

definition adoptSecret ::
  "FsFaults \<Rightarrow> bytes \<Rightarrow> (LoginItem \<Rightarrow> ('v, string, unit) io) \<Rightarrow> AdoptOptions \<Rightarrow> ('v \<times> FileSystem, string, AdoptResult) io" where
  "adoptSecret F rnd saveItem opts = (\<lambda>(v, fs).
     case fs_realpath fs (ao_path opts) of
       None \<Rightarrow> (Inl ''ENOENT: no such file or directory'', (v, fs))
     | Some path \<Rightarrow>
     case fs_files fs path of
       None \<Rightarrow> (Inl ''ENOENT: no such file or directory'', (v, fs))
     | Some (content, mode) \<Rightarrow>
     let parts = split_parts content in
     case adopt_plan opts path parts of
       Inl e \<Rightarrow> (Inl e, (v, fs))
     | Inr (index, secret, itemName) \<Rightarrow>
     case saveItem (adopt_item itemName secret path (ao_line opts)) v of
       (Inl e, v') \<Rightarrow> (Inl e, (v', fs))
     | (Inr _, v') \<Rightarrow>
     let reference = formatReference itemName ''password''; preview = redactedPreview (es_value secret);
         result = (\<lambda>rewritten. \<lparr>ar_itemName = itemName, ar_reference = reference, ar_rewritten = rewritten, ar_preview = preview\<rparr>)
     in case es_rewriteLine secret of
          None \<Rightarrow> (Inr (result False), (v', fs))
        | Some rewrite \<Rightarrow>
            case replace_file F rnd path (concat (parts[index := rewrite reference])) mode fs of
              (Inl msg, fs') \<Rightarrow>
                (Inl (''saved '' @ in_quotes itemName @ '' to the vault but could not rewrite '' @ ao_path opts @ '': '' @ msg), (v', fs'))
            | (Inr _, fs') \<Rightarrow> (Inr (result True), (v', fs')))"

section \<open>Lines and parts\<close>

fun evens :: "'a list \<Rightarrow> 'a list" where
  "evens [] = []" | "evens [x] = [x]" | "evens (x # y # r) = x # evens r"

text \<open>Parts that come from a split: texts without line feeds, and a text before a bare line feed does not end in a carriage return.\<close>

definition line_text :: "string \<Rightarrow> bool" where
  "line_text t \<longleftrightarrow> (\<forall>c \<in> set t. code c \<noteq> 10)"

definition line_end :: "string \<Rightarrow> string \<Rightarrow> bool" where
  "line_end t sep \<longleftrightarrow> (sep = [chr 10] \<and> (t = [] \<or> code (last t) \<noteq> 13)) \<or> sep = [chr 13, chr 10]"

fun wf_parts :: "string list \<Rightarrow> bool" where
  "wf_parts [] = False"
| "wf_parts [t] = line_text t"
| "wf_parts (t # sep # ps) = (line_text t \<and> line_end t sep \<and> wf_parts ps)"

lemma char_code: "code c = n \<Longrightarrow> n < 256 \<Longrightarrow> c = chr n"
  by (metis chr_code)

lemma split_parts_nonempty: "split_parts s \<noteq> []" "split_lines s \<noteq> []"
  by (induction s rule: split_parts.induct) (auto split: list.splits)

lemma concat_split_parts: "concat (split_parts s) = s"
  by (induction s rule: split_parts.induct) (auto split: list.splits simp: split_parts_nonempty neq_Nil_conv)

lemma evens_split_parts: "evens (split_parts s) = split_lines s"
proof (induction s rule: split_parts.induct)
  case (2 c r)
  have head: "evens (case split_parts r of [] \<Rightarrow> [[c]] | l # ls \<Rightarrow> (c # l) # ls) =
      (case split_lines r of [] \<Rightarrow> [[c]] | l # ls \<Rightarrow> (c # l) # ls)"
    if "evens (split_parts r) = split_lines r"
    unfolding that [symmetric] by (cases "split_parts r" rule: evens.cases) auto
  show ?case
    using 2 head by (cases "code c = 13 \<and> r \<noteq> [] \<and> code (hd r) = 10"; cases "code c = 10") auto
qed simp

lemma wf_parts_cons:
  assumes "wf_parts (l # ls)" "code c \<noteq> 10" "\<not> (code c = 13 \<and> l = [] \<and> ls \<noteq> [] \<and> hd ls = [chr 10])"
  shows "wf_parts ((c # l) # ls)"
  using assms by (cases ls) (auto simp: line_text_def line_end_def)

lemma hd_split_parts: "split_parts r = [] # [chr 10] # ps \<Longrightarrow> r \<noteq> [] \<and> code (hd r) = 10"
  by (cases r) (auto split: if_splits list.splits)

lemma wf_split_parts: "wf_parts (split_parts s)"
proof (induction s rule: split_parts.induct)
  case (2 c r)
  consider "code c = 13 \<and> r \<noteq> [] \<and> code (hd r) = 10" | "code c = 10"
    | "code c \<noteq> 10" "\<not> (code c = 13 \<and> r \<noteq> [] \<and> code (hd r) = 10)" by blast
  then show ?case
  proof cases
    case 1
    then have "[c, hd r] = [chr 13, chr 10]" by (simp add: char_code)
    then show ?thesis using 1 2 by (simp add: line_text_def line_end_def)
  next
    case 2
    then have "c = chr 10" by (simp add: char_code)
    then show ?thesis using 2 \<open>\<not> _ \<Longrightarrow> code c = 10 \<Longrightarrow> wf_parts (split_parts r)\<close> by (simp add: line_text_def line_end_def)
  next
    case 3
    obtain l ls where l: "split_parts r = l # ls" using split_parts_nonempty(1) [of r] by (cases "split_parts r") auto
    have "wf_parts (l # ls)" using 2 3 l by auto
    moreover have "\<not> (code c = 13 \<and> l = [] \<and> ls \<noteq> [] \<and> hd ls = [chr 10])"
      using hd_split_parts [of r "tl ls"] l 3 by (cases ls) auto
    ultimately show ?thesis using wf_parts_cons 3 l by auto
  qed
qed (simp add: line_text_def)

lemma split_parts_text:
  assumes "line_text t" "line_end t sep"
  shows "split_parts (t @ sep @ r) = t # sep # split_parts r"
  using assms
proof (induction t)
  case Nil
  then show ?case by (auto simp: line_end_def)
next
  case (Cons c t)
  have "line_end t sep" using Cons.prems(2) by (auto simp: line_end_def split: if_splits)
  then have "split_parts (t @ sep @ r) = t # sep # split_parts r" using Cons by (simp add: line_text_def)
  moreover have "code (hd (t @ sep @ r)) \<noteq> 10" if "code c = 13"
    using Cons.prems that by (cases t) (auto simp: line_text_def line_end_def)
  moreover have "code c \<noteq> 10" using Cons.prems(1) by (simp add: line_text_def)
  ultimately show ?case by auto
qed

lemma split_parts_end: "line_text t \<Longrightarrow> split_parts t = [t]"
  by (induction t) (auto simp: line_text_def neq_Nil_conv)

lemma split_concat_parts: "wf_parts ps \<Longrightarrow> split_parts (concat ps) = ps"
  by (induction ps rule: wf_parts.induct) (simp_all add: split_parts_end split_parts_text)

lemma wf_parts_update:
  assumes "wf_parts ps" "2 * i < length ps" "line_text t" "t = [] \<or> code (last t) \<noteq> 13"
  shows "wf_parts (ps[2 * i := t]) \<and> evens (ps[2 * i := t]) = (evens ps)[i := t]"
  using assms
proof (induction ps arbitrary: i rule: wf_parts.induct)
  case (3 t' sep ps)
  then show ?case by (cases i) (auto simp: line_end_def)
qed auto

lemma evens_nth: "2 * i < length ps \<Longrightarrow> evens ps ! i = ps ! (2 * i) \<and> i < length (evens ps)"
proof (induction ps arbitrary: i rule: evens.induct)
  case (3 x y r)
  then show ?case by (cases i) auto
qed auto

section \<open>What adopting does to the file\<close>

lemma basename_join: "CHR ''/'' \<notin> set n \<Longrightarrow> n \<noteq> [] \<Longrightarrow> path_basename (path_join d n) = n"
proof -
  assume n: "CHR ''/'' \<notin> set n" "n \<noteq> []"
  have "rev n \<noteq> []" "hd (rev n) \<noteq> CHR ''/''" using n by (simp_all add: hd_rev) (use last_in_set n in fastforce)
  then have s: "strip_slashes (x @ n) = x @ n" for x by (cases "rev n") (auto simp: strip_slashes_def)
  have t: "takeWhile (\<lambda>c. c \<noteq> CHR ''/'') (rev n @ CHR ''/'' # r) = rev n" for r
    using takeWhile_prefix [of "rev n" "\<lambda>c. c \<noteq> CHR ''/''" "CHR ''/''" r] n by fastforce
  show ?thesis
    using s [of "''/''"] s [of "d @ ''/''"] t by (simp add: path_basename_def path_join_def)
qed

lemma no_slash_hex: "CHR ''/'' \<notin> set (bytesToHex bs)"
proof -
  have "code (hex_digit n) \<noteq> code (CHR ''/'')" if "n < 16" for n
    using that by (simp add: hex_digit_def)
  then have "hex_digit n \<noteq> CHR ''/''" if "n < 16" for n using that by metis
  moreover have "unat b div 16 < 16" for b :: byte using unat_byte_less [of b] by linarith
  moreover have "unat b mod 16 < 16" for b :: byte by simp
  ultimately have "CHR ''/'' \<notin> set (byte_hex b)" for b by (metis byte_hex_def empty_iff empty_set set_ConsD)
  then show ?thesis by (auto simp: bytesToHex_def)
qed

lemma no_slash_basename: "CHR ''/'' \<notin> set (path_basename p)"
  by (auto simp: path_basename_def dest: set_takeWhileD)

lemma tmp_path_fresh: "tmp_path path rnd \<noteq> path"
proof
  let ?n = "''.'' @ path_basename path @ ''.'' @ bytesToHex rnd @ ''.nopwd-tmp''"
  assume "tmp_path path rnd = path"
  moreover have "path_basename (tmp_path path rnd) = ?n"
    unfolding tmp_path_def using no_slash_hex no_slash_basename by (intro basename_join) auto
  ultimately have "length (path_basename path) = length ?n" by simp
  then show False by simp
qed

lemma fs_put [simp]: "fs_files (put_file p f fs) q = (if q = p then f else fs_files fs q)"
  by (simp add: put_file_def)

lemma unlink_other: "q \<noteq> tmp \<Longrightarrow> fs_files (unlinkFile F tmp fs) q = fs_files fs q"
  by (simp add: unlinkFile_def)

lemma replace_file_effect:
  assumes "replace_file F rnd path content mode fs = (r, fs')"
  shows "(\<forall>q. q \<noteq> path \<longrightarrow> q \<noteq> tmp_path path rnd \<longrightarrow> fs_files fs' q = fs_files fs q) \<and>
    fs_files fs' path = (if is_ok r then Some (content, mode mod 512) else fs_files fs path)"
proof -
  let ?tmp = "tmp_path path rnd"
  have ne: "path \<noteq> ?tmp" using tmp_path_fresh [of path rnd] by metis
  show ?thesis
  proof (cases "fs_files fs ?tmp")
    case (Some f)
    then show ?thesis using assms ne
      by (auto simp: replace_file_def Let_def writeNew_def io_bind_def unlink_other is_ok_def)
  next
    case None
    show ?thesis
    proof (cases "ff_write F")
      case (Some wm)
      then show ?thesis using assms None ne
        by (auto simp: replace_file_def Let_def writeNew_def io_bind_def unlink_other is_ok_def split: prod.splits)
    next
      case w: None
      show ?thesis using assms None w ne
        by (cases "ff_rename F")
           (auto simp: replace_file_def Let_def writeNew_def renameFile_def io_bind_def unlink_other is_ok_def)
    qed
  qed
qed

lemma adopt_plan_Inr:
  assumes "adopt_plan opts path parts = Inr (index, secret, itemName)"
  shows "pick_line opts parts = Inr index" "extractSecret path (parts ! index) (ao_match opts) = Inr secret"
    "itemName = (case ao_name opts of Some n \<Rightarrow> n | None \<Rightarrow> defaultItemName path secret (ao_line opts))"
    "\<not> list_ex name_forbidden itemName"
    "\<And>n. n \<in> set (ao_existingNames opts) \<Longrightarrow> toLowerCase n \<noteq> toLowerCase itemName"
proof -
  obtain i s where i: "pick_line opts parts = Inr i" "extractSecret path (parts ! i) (ao_match opts) = Inr s"
    using assms unfolding adopt_plan_def by (auto simp: rbind_eq_Inr)
  let ?n = "case ao_name opts of Some n \<Rightarrow> n | None \<Rightarrow> defaultItemName path s (ao_line opts)"
  have rest: "rbind (validateItemName ?n) (\<lambda>_. if list_ex (\<lambda>n. toLowerCase n = toLowerCase ?n) (ao_existingNames opts)
      then Inl (''a vault item named '' @ in_quotes ?n @ '' already exists (adopted before?); pass --name to choose another'')
      else Inr (i, s, ?n)) = Inr (index, secret, itemName)"
    using assms unfolding adopt_plan_def i by (simp add: Let_def i)
  have "\<not> list_ex name_forbidden ?n" "\<not> list_ex (\<lambda>n. toLowerCase n = toLowerCase ?n) (ao_existingNames opts)"
    "index = i" "secret = s" "itemName = ?n"
    using rest by (auto simp: rbind_eq_Inr validateItemName_def rguard_Inr simp del: list_ex_iff split: if_splits)
  then show "pick_line opts parts = Inr index" "extractSecret path (parts ! index) (ao_match opts) = Inr secret"
    "itemName = (case ao_name opts of Some n \<Rightarrow> n | None \<Rightarrow> defaultItemName path secret (ao_line opts))"
    "\<not> list_ex name_forbidden itemName"
    "\<And>n. n \<in> set (ao_existingNames opts) \<Longrightarrow> toLowerCase n \<noteq> toLowerCase itemName"
    using i by (auto simp: list_ex_iff)
qed

lemma pick_line_Inr:
  assumes "pick_line opts parts = Inr index"
  shows "1 \<le> ao_line opts" "index = 2 * nat (ao_line opts - 1)" "index < length parts"
  using assms by (auto simp: pick_line_def Let_def split: if_splits)

lemma extractSecret_rewrite:
  assumes "extractSecret path lineText match = Inr secret" "es_rewriteLine secret = Some rewrite"
  obtains p where "parseDotenvLine lineText = Some p" "dl_value p \<noteq> ''''" "\<not> dl_unterminatedQuote p"
    "es_value secret = dl_value p" "es_envKey secret = Some (dl_key p)" "rewrite = rewriteLine p" "isDotenvPath path"
    "\<not> isReference (Some (dl_value p))"
proof (cases "isDotenvPath path")
  case True
  then have e: "extractDotenv lineText = Inr secret" using assms(1) by (simp add: extractSecret_def)
  then obtain p where p: "parseDotenvLine lineText = Some p" "dl_value p \<noteq> ''''" "\<not> dl_unterminatedQuote p"
    "\<not> isReference (Some (dl_value p))"
    by (auto simp: extractDotenv_def split: option.splits if_splits)
  then have "secret = \<lparr>es_value = dl_value p, es_envKey = Some (dl_key p), es_rewriteLine = Some (rewriteLine p)\<rparr>"
    using e by (simp add: extractDotenv_def split: if_splits)
  then show ?thesis using p assms(2) True by (intro that [of p]) simp_all
next
  case False
  then show ?thesis using assms by (auto simp: extractSecret_def Let_def split: list.splits)
qed

text \<open>
  The exits of \<open>adoptSecret\<close>: before the save with nothing done, at a failed save with the files as they
  were, and after it with the file replaced or left.
\<close>

lemma adoptSecret_exits:
  assumes "adoptSecret F rnd saveItem opts (v, fs) = (r, (v', fs'))"
    and "fs_realpath fs (ao_path opts) = Some path" "fs_files fs path = Some (content, mode)"
  obtains (refused) e where "r = Inl e" "fs' = fs"
  | (printed) index secret itemName u where "adopt_plan opts path (split_parts content) = Inr (index, secret, itemName)"
      "saveItem (adopt_item itemName secret path (ao_line opts)) v = (Inr u, v')" "es_rewriteLine secret = None"
      "fs' = fs" "\<exists>res. r = Inr res \<and> \<not> ar_rewritten res"
  | (replaced) index secret itemName u rewrite q where "adopt_plan opts path (split_parts content) = Inr (index, secret, itemName)"
      "saveItem (adopt_item itemName secret path (ao_line opts)) v = (Inr u, v')" "es_rewriteLine secret = Some rewrite"
      "replace_file F rnd path (concat ((split_parts content)[index := rewrite (formatReference itemName ''password'')])) mode fs = (q, fs')"
      "is_ok q = is_ok r"
      "\<And>res. r = Inr res \<Longrightarrow> res = \<lparr>ar_itemName = itemName, ar_reference = formatReference itemName ''password'',
         ar_rewritten = True, ar_preview = redactedPreview (es_value secret)\<rparr>"
proof (cases "adopt_plan opts path (split_parts content)")
  case (Inl e)
  then show ?thesis using assms by (intro refused) (auto simp: adoptSecret_def)
next
  case (Inr plan)
  obtain index secret itemName where p: "plan = (index, secret, itemName)" by (rule prod_cases3)
  obtain sr v1 where sv: "saveItem (adopt_item itemName secret path (ao_line opts)) v = (sr, v1)" by (rule prod.exhaust)
  note run = assms(1) [unfolded adoptSecret_def prod.case assms(2,3) option.case Let_def Inr p sum.case sv]
  show ?thesis
  proof (cases sr)
    case (Inl e)
    then show ?thesis using run by (intro refused) auto
  next
    case s: (Inr u)
    note run = run [unfolded s sum.case]
    show ?thesis
    proof (cases "es_rewriteLine secret")
      case None
      then show ?thesis using run Inr p sv s by (intro printed [of index secret itemName u]) auto
    next
      case (Some rewrite)
      obtain q fs2 where q: "replace_file F rnd path
          (concat ((split_parts content)[index := rewrite (formatReference itemName ''password'')])) mode fs = (q, fs2)"
        by (rule prod.exhaust)
      note run = run [unfolded Some option.case q]
      have ok: "is_ok q = is_ok r" "v1 = v'" "fs2 = fs'" using run by (auto simp: is_ok_def split: sum.splits)
      have res: "res = \<lparr>ar_itemName = itemName, ar_reference = formatReference itemName ''password'',
          ar_rewritten = True, ar_preview = redactedPreview (es_value secret)\<rparr>" if "r = Inr res" for res
        using run that by (auto split: sum.splits)
      show ?thesis
        by (rule replaced [OF Inr [unfolded p] sv [unfolded s ok(2)] Some q [unfolded ok(3)] ok(1) res])
    qed
  qed
qed

text \<open>
  C37. Adopting a secret is all or nothing for the file: whatever fails, at every exit the file is either
  exactly what it was, or it holds the old text with the one line rewritten, and the latter only when
  the item was saved and success is reported; no other file but the temporary one is touched.
\<close>

theorem adopt_is_all_or_nothing:
  assumes "adoptSecret F rnd saveItem opts (v, fs) = (r, (v', fs'))"
    and "fs_realpath fs (ao_path opts) = Some path" "fs_files fs path = Some (content, mode)"
  shows "(\<forall>q. q \<noteq> path \<longrightarrow> q \<noteq> tmp_path path rnd \<longrightarrow> fs_files fs' q = fs_files fs q) \<and>
    (fs_files fs' path = Some (content, mode) \<or>
     (\<exists>index secret itemName u p. adopt_plan opts path (split_parts content) = Inr (index, secret, itemName) \<and>
        saveItem (adopt_item itemName secret path (ao_line opts)) v = (Inr u, v') \<and>
        parseDotenvLine (split_parts content ! index) = Some p \<and> is_ok r \<and>
        fs_files fs' path =
          Some (concat ((split_parts content)[index := rewriteLine p (formatReference itemName ''password'')]), mode mod 512)))"
  using assms
proof (cases rule: adoptSecret_exits)
  case (refused e)
  then show ?thesis using assms(3) by simp
next
  case (printed index secret itemName u)
  then show ?thesis using assms(3) by simp
next
  case (replaced index secret itemName u rewrite q)
  obtain p where p: "parseDotenvLine (split_parts content ! index) = Some p" "rewrite = rewriteLine p"
    using extractSecret_rewrite [OF adopt_plan_Inr(2) [OF replaced(1)] replaced(3)] by metis
  have e: "(\<forall>q. q \<noteq> path \<longrightarrow> q \<noteq> tmp_path path rnd \<longrightarrow> fs_files fs' q = fs_files fs q) \<and>
      fs_files fs' path = (if is_ok r then Some (concat ((split_parts content)[index := rewriteLine p (formatReference itemName ''password'')]), mode mod 512)
        else Some (content, mode))"
    using replace_file_effect [OF replaced(4)] unfolding replaced(5) assms(3) p(2) .
  show ?thesis
  proof (cases "is_ok r")
    case True
    show ?thesis
      by (intro conjI disjI2 exI [of _ index] exI [of _ secret] exI [of _ itemName] exI [of _ u] exI [of _ p] True
          replaced(1,2) p(1) conjunct1 [OF e] conjunct2 [OF e, unfolded if_P [OF True]])
  next
    case False
    show ?thesis by (intro conjI disjI1 conjunct1 [OF e] conjunct2 [OF e, unfolded if_not_P [OF False]])
  qed
qed

section \<open>What the rewritten line means\<close>

definition entries_from :: "nat \<Rightarrow> string list \<Rightarrow> DotenvEntry list" where
  "entries_from n ls = concat (map (\<lambda>(i, l). line_entry l i) (enumerate n ls))"

lemma parseDotenv_at:
  assumes "split_lines content = xs @ l # ys"
  shows "parseDotenv content = entries_from 0 xs @ line_entry l (length xs) @ entries_from (Suc (length xs)) ys"
  by (simp add: parseDotenv_def entries_from_def assms enumerate_append_eq)

lemma forbidden_in_reference:
  assumes "\<not> list_ex name_forbidden itemName"
  shows "CHR ''/'' \<notin> set itemName" "APOS \<notin> set (formatReference itemName ''password'')"
    "\<not> list_ex line_terminator (formatReference itemName ''password'')"
    "line_text (formatReference itemName ''password'')"
proof -
  have n: "code c > 31 \<and> c \<noteq> APOS \<and> c \<noteq> CHR ''/''" if "c \<in> set itemName" for c
    using assms that by (force simp: list_ex_iff name_forbidden_def)
  have s: "code c \<ge> 47 \<or> c \<in> set itemName" if "c \<in> set (formatReference itemName ''password'')" for c
    using that by (auto simp: formatReference_def REF_PREFIX_def)
  have "code APOS = 39" by (simp add: APOS_def)
  then have s': "code c > 31 \<and> c \<noteq> APOS" if "c \<in> set (formatReference itemName ''password'')" for c
    using s [OF that] n by force
  show "CHR ''/'' \<notin> set itemName" using n by blast
  show "APOS \<notin> set (formatReference itemName ''password'')" using s' by blast
  show "\<not> list_ex line_terminator (formatReference itemName ''password'')"
    "line_text (formatReference itemName ''password'')"
    using s' by (force simp: list_ex_iff line_terminator_def line_text_def)+
qed

lemma rewriteLine_line:
  assumes "parseDotenvLine l = Some p" "line_text ref"
  shows "line_text (rewriteLine p ref)" "code (last (rewriteLine p ref)) \<noteq> 13"
proof -
  note parts = parseDotenvLine_parts [OF assms(1)]
  have a: "code APOS = 39" "code (CHR ''='') = 61" by (simp_all add: APOS_def)
  have k: "code c \<noteq> 10" if "c \<in> set (dl_key p)" for c
    using parts(1) that by (auto simp: valid_key_def list_all_iff char_classes)
  have z: "code c \<noteq> 10" if "c \<in> set (dl_trailing p)" for c
    using parts(2) that by (auto simp: one_line_def list_ex_iff line_terminator_def)
  have e: "code c \<noteq> 10" if "c \<in> set ''export ''" for c using that by auto
  show "line_text (rewriteLine p ref)"
    using assms(2) k z e a unfolding line_text_def rewriteLine_def by (cases "dl_exportPrefix p") auto
  show "code (last (rewriteLine p ref)) \<noteq> 13"
    using parts(2) a by (auto simp: rewriteLine_def one_line_def js_space_def)
qed

lemma defaultItemName_nonempty: "defaultItemName path secret n \<noteq> ''''"
  by (simp add: defaultItemName_def Let_def split: option.split)

lemma adopt_item_simps [simp]:
  "login_name (adopt_item n s p l) = n" "login_password (adopt_item n s p l) = es_value s"
  "login_customFields (adopt_item n s p l) = []" "login_username (adopt_item n s p l) = ''''" "login_totp (adopt_item n s p l) = None"
  by (simp_all add: adopt_item_def)

lemma adopted_line:
  assumes "adopt_plan opts path (split_parts content) = Inr (index, secret, itemName)" "es_rewriteLine secret = Some rewrite"
  obtains pre post key where
    "parseDotenv content = pre @ [\<lparr>de_key = key, de_value = es_value secret, de_line = nat (ao_line opts)\<rparr>] @ post"
    "parseDotenv (concat ((split_parts content)[index := rewrite (formatReference itemName ''password'')])) =
       pre @ [\<lparr>de_key = key, de_value = formatReference itemName ''password'', de_line = nat (ao_line opts)\<rparr>] @ post"
    "es_value secret \<noteq> ''''" "\<not> isReference (Some (es_value secret))"
proof -
  note plan = adopt_plan_Inr [OF assms(1)]
  let ?parts = "split_parts content" and ?ref = "formatReference itemName ''password''"
  obtain p where p: "parseDotenvLine (?parts ! index) = Some p" "dl_value p \<noteq> ''''" "\<not> dl_unterminatedQuote p"
    "es_value secret = dl_value p" "rewrite = rewriteLine p" "\<not> isReference (Some (dl_value p))"
    using extractSecret_rewrite [OF plan(2) assms(2)] by metis
  note ref = forbidden_in_reference [OF plan(4)]
  let ?new = "rewriteLine p ?ref" and ?i = "nat (ao_line opts - 1)"
  note new = rewriteLine_line [OF p(1) ref(4)]
  have i: "index = 2 * ?i" "2 * ?i < length ?parts" "Suc ?i = nat (ao_line opts)"
    using pick_line_Inr [OF plan(1)] by auto
  have wf: "wf_parts (?parts[index := ?new])" "evens (?parts[index := ?new]) = (split_lines content)[?i := ?new]"
    using wf_parts_update [OF wf_split_parts i(2) new(1)] new(2) unfolding i(1) evens_split_parts by blast+
  have l: "split_lines content ! ?i = ?parts ! index" "?i < length (split_lines content)"
    using evens_nth [OF i(2)] by (simp_all add: evens_split_parts i(1))
  let ?xs = "take ?i (split_lines content)" and ?ys = "drop (Suc ?i) (split_lines content)"
  have old: "split_lines content = ?xs @ (?parts ! index) # ?ys" using l by (metis id_take_nth_drop)
  have upd: "split_lines (concat (?parts[index := ?new])) = ?xs @ ?new # ?ys"
    using wf(2) l(2) by (simp add: evens_split_parts [symmetric] split_concat_parts [OF wf(1)] upd_conv_take_nth_drop)
  have len: "length ?xs = ?i" using l(2) by simp
  have "parseDotenvLine ?new = Some \<lparr>dl_exportPrefix = dl_exportPrefix p, dl_key = dl_key p, dl_value = ?ref,
      dl_trailing = dl_trailing p, dl_unterminatedQuote = False\<rparr>"
    unfolding rewriteLine_def by (rule parse_single_quoted [OF parseDotenvLine_parts [OF p(1)] ref(2,3)])
  then have n: "line_entry ?new ?i = [\<lparr>de_key = dl_key p, de_value = ?ref, de_line = nat (ao_line opts)\<rparr>]"
    using i(3) by (simp add: line_entry_def)
  have o: "line_entry (?parts ! index) ?i = [\<lparr>de_key = dl_key p, de_value = es_value secret, de_line = nat (ao_line opts)\<rparr>]"
    using p i(3) by (simp add: line_entry_def)
  show ?thesis
    by (rule that [of "entries_from 0 ?xs" "dl_key p" "entries_from (Suc ?i) ?ys"])
       (use parseDotenv_at [OF old] parseDotenv_at [OF upd] n o p len in simp_all)
qed

text \<open>
  Round trip of an adopted secret: when a dotenv line was rewritten, the saved item holds exactly the
  value the file gave the variable, the new file gives the same variable on the same line the reference
  and leaves every other assignment as it was, and against every vault that holds the item and otherwise
  only items of the names the check was made against, the reference resolves to that value.
\<close>

lemma adopted_secret_resolves:
  assumes "adoptSecret F rnd saveItem opts (v, fs) = (Inr res, (v', fs'))" "ar_rewritten res"
    and "fs_realpath fs (ao_path opts) = Some path" "fs_files fs path = Some (content, mode)"
    and "ao_name opts \<noteq> Some ''''"
  shows "\<exists>item new mode' pre key post. saveItem item v = (Inr (), v') \<and> fs_files fs' path = Some (new, mode') \<and>
    \<not> isReference (Some (login_password item)) \<and> isReference (Some (ar_reference res)) \<and>
    parseDotenv content = pre @ [\<lparr>de_key = key, de_value = login_password item, de_line = nat (ao_line opts)\<rparr>] @ post \<and>
    parseDotenv new = pre @ [\<lparr>de_key = key, de_value = ar_reference res, de_line = nat (ao_line opts)\<rparr>] @ post \<and>
    (\<forall>vault. Login item \<in> set vault \<and> (\<forall>i \<in> set vault. i = Login item \<or> plain_name i \<in> set (ao_existingNames opts)) \<longrightarrow>
       resolveReference vault (ar_reference res) = Resolved (login_password item))"
  using assms(1,3,4)
proof (cases rule: adoptSecret_exits)
  case (replaced index secret itemName u rewrite q)
  note plan = adopt_plan_Inr [OF replaced(1)] and res = replaced(6) [OF refl]
  let ?item = "adopt_item itemName secret path (ao_line opts)"
  let ?new = "concat ((split_parts content)[index := rewrite (formatReference itemName ''password'')])"
  obtain pre post key where e:
    "parseDotenv content = pre @ [\<lparr>de_key = key, de_value = es_value secret, de_line = nat (ao_line opts)\<rparr>] @ post"
    "parseDotenv ?new = pre @ [\<lparr>de_key = key, de_value = formatReference itemName ''password'', de_line = nat (ao_line opts)\<rparr>] @ post"
    "es_value secret \<noteq> ''''" "\<not> isReference (Some (es_value secret))"
    by (rule adopted_line [OF replaced(1,3)])
  have "itemName \<noteq> ''''" using plan(3) assms(5) defaultItemName_nonempty by (auto split: option.splits)
  then have r: "resolveReference vault (formatReference itemName ''password'') = Resolved (es_value secret)"
    if "Login ?item \<in> set vault" "\<And>i. i \<in> set vault \<Longrightarrow> i = Login ?item \<or> plain_name i \<in> set (ao_existingNames opts)" for vault
    using resolve_password [of ?item vault] that plan(5) forbidden_in_reference(1) [OF plan(4)] e(3) by fastforce
  have written: "fs_files fs' path = Some (?new, mode mod 512)"
    using replace_file_effect [OF replaced(4)] replaced(5) by (simp add: is_ok_def)
  have "isReference (Some (formatReference itemName ''password''))" by (simp add: isReference_def startsWith_def formatReference_def)
  then show ?thesis
    by (intro exI [of _ ?item] exI [of _ ?new] exI [of _ "mode mod 512"] exI [of _ pre] exI [of _ key] exI [of _ post])
       (use replaced(2) written e r res in simp)
qed (use assms(2) in auto)

text \<open>
  The check of a name lets the empty one pass, and then the file is rewritten to a reference that is
  malformed: it resolves in no vault.
\<close>

theorem empty_name_never_resolves:
  "validateItemName '''' = Inr () \<and>
   (\<exists>e. resolveReference vault (formatReference '''' ''password'') = Unresolved e)"
  by (simp add: validateItemName_def rguard_def resolveReference_def formatReference_def REF_PREFIX_def Let_def)

text \<open>A value that is only an inline comment is read as a value, because the white space before it goes with the equals sign.\<close>

theorem comment_read_as_value:
  "map_option dl_value (parseDotenvLine ''KEY= # none yet'') = Some ''# none yet''"
  by code_simp

section \<open>A concrete file\<close>

definition demo_content :: string where
  "demo_content = ''PORT=3000'' @ [chr 13, chr 10] @ ''export API_KEY='' @ [QUOT] @ ''sk-1#2'' @ [QUOT] @ '' # old'' @ [chr 10]"

definition demo_fs :: FileSystem where
  "demo_fs = \<lparr>fs_realpath = Some, fs_files = (\<lambda>p. if p = ''/app/.env'' then Some (demo_content, 384) else None)\<rparr>"

definition demo_faults :: FsFaults where
  "demo_faults = \<lparr>ff_write = None, ff_rename = None, ff_unlink = True\<rparr>"

definition demo_adopt :: AdoptOptions where
  "demo_adopt = \<lparr>ao_path = ''/app/.env'', ao_line = 2, ao_name = None, ao_match = None, ao_existingNames = [''mail'']\<rparr>"

definition demo_save :: "LoginItem \<Rightarrow> (VaultItemPlaintext list, string, unit) io" where
  "demo_save i v = (Inr (), Login i # v)"

lemma demo_adopts:
  "\<exists>res v' fs'. adoptSecret demo_faults [1, 2] demo_save demo_adopt ([], demo_fs) = (Inr res, (v', fs')) \<and> ar_rewritten res"
proof -
  have "(case fst (adoptSecret demo_faults [1, 2] demo_save demo_adopt ([], demo_fs)) of Inl _ \<Rightarrow> False | Inr res \<Rightarrow> ar_rewritten res)"
    by code_simp
  then show ?thesis
    by (cases "adoptSecret demo_faults [1, 2] demo_save demo_adopt ([], demo_fs)") (auto split: sum.splits)
qed

theorem adopt_is_all_or_nothing_witness:
  "\<exists>r v' fs'. adoptSecret demo_faults [1, 2] demo_save demo_adopt ([], demo_fs) = (r, (v', fs')) \<and>
     fs_files fs' ''/etc/passwd'' = None"
proof -
  obtain r v' fs' where r: "adoptSecret demo_faults [1, 2] demo_save demo_adopt ([], demo_fs) = (r, (v', fs'))"
    by (rule prod_cases3)
  have "tmp_path ''/app/.env'' [1, 2] \<noteq> ''/etc/passwd''" by code_simp
  then show ?thesis
    using adopt_is_all_or_nothing [OF r, of "''/app/.env''" demo_content 384] r by (auto simp: demo_fs_def demo_adopt_def)
qed

end
