(* ===== verification/Cli_Run.thy ===== *)
theory Cli_Run
  imports Cli_Adopt Json Web_Crypto
begin

text \<open>
  The commands that hand secrets out (apps/cli/src/commands/run.ts, get.ts and list.ts): which items are
  selected, the environment a command is started with, the answers of the socket, the field and the item
  \<open>get\<close> prints and the lines \<open>list\<close> prints. What a command does is a value: the text it prints and the
  exit code, or the process it starts; child processes and the socket themselves are the operating
  system's. An environment is the list of its variables; the vault is the list of decrypted items.

  \<open>decodeURIComponent\<close> reads the characters of the model; \<open>None\<close> stands for a URIError, and like
  elsewhere for characters beyond the model.
\<close>

section \<open>Environments\<close>

type_synonym environment = "(string \<times> string) list"

text \<open>\<open>{ ...a, ...b }\<close>: later values win and keep the place of the earlier ones.\<close>

definition env_merge :: "environment \<Rightarrow> environment \<Rightarrow> environment" where
  "env_merge a b = fold (\<lambda>(k, v). js_set k v) b a"

fun ref_step :: "VaultItemPlaintext list \<Rightarrow> string \<times> string \<Rightarrow> environment \<times> string list \<Rightarrow> environment \<times> string list" where
  "ref_step vault (envKey, envVal) (resolved, messages) =
     (if \<not> isReference (Some envVal) then (resolved, messages)
      else case resolveReference vault envVal of
          Resolved v \<Rightarrow> (js_set envKey v resolved, messages)
        | Unresolved e \<Rightarrow> (resolved, messages @ [''nopwd run: '' @ e]))"

definition resolveSecretRefs :: "VaultItemPlaintext list \<Rightarrow> environment \<Rightarrow> environment \<times> string list" where
  "resolveSecretRefs vault source = fold (ref_step vault) source ([], [])"

record RunOptions =
  ro_item :: "string option"
  ro_envFile :: bool
  ro_viaSocket :: bool
  ro_dotenv :: "string option"

definition named_by :: "string \<Rightarrow> VaultItemPlaintext \<Rightarrow> bool" where
  "named_by n i = (toLowerCase (plain_name i) = n \<or> js_includes (toLowerCase (plain_name i)) n)"

definition selectInjectedItems :: "RunOptions \<Rightarrow> VaultItemPlaintext list \<Rightarrow> VaultItemPlaintext list" where
  "selectInjectedItems opts vault =
     (case nonempty_opt (ro_item opts) of
        Some names \<Rightarrow>
          let wanted = map (\<lambda>n. toLowerCase (js_trim n)) (js_split (CHR '','') names)
          in filter (\<lambda>i. list_ex (\<lambda>n. named_by n i) wanted) vault
      | None \<Rightarrow>
          if nonempty_opt (ro_dotenv opts) \<noteq> None then []
          else filter (\<lambda>i. plain_type i = ''login'') vault)"

definition injected_vars :: "VaultItemPlaintext list \<Rightarrow> environment" where
  "injected_vars selected = fold (\<lambda>i env. env_merge env (itemToEnvVars i)) selected []"

section \<open>The socket\<close>

text \<open>\<open>^\/secret\/([^/]+)\/([^/]+)$\<close>.\<close>

definition secret_path :: "string \<Rightarrow> (string \<times> string) option" where
  "secret_path url =
     (if \<not> startsWith url ''/secret/'' then None
      else case js_split (CHR ''/'') (drop 8 url) of
          [item, field] \<Rightarrow> if item \<noteq> '''' \<and> field \<noteq> '''' then Some (item, field) else None
        | _ \<Rightarrow> None)"

fun percent_octets :: "string \<Rightarrow> bytes option" where
  "percent_octets [] = Some []"
| "percent_octets (c # r) =
     (if c = CHR ''%'' then
        (case r of
           a # b # r' \<Rightarrow>
             (case (hex_val a, hex_val b) of
                (Some x, Some y) \<Rightarrow> map_option ((#) (of_nat (16 * x + y))) (percent_octets r')
              | _ \<Rightarrow> None)
         | _ \<Rightarrow> None)
      else map_option ((@) (utf8_char c)) (percent_octets r))"

definition decodeURIComponent :: "string \<Rightarrow> string option" where
  "decodeURIComponent s = Option.bind (percent_octets s) utf8_decode"

text \<open>What the request handler does: an answer with its status, or a throw that nothing catches.\<close>

datatype SocketReply = Reply nat string | HandlerThrows

definition socket_handler :: "VaultItemPlaintext list \<Rightarrow> string option \<Rightarrow> SocketReply" where
  "socket_handler vault url =
     (case Option.bind url secret_path of
        None \<Rightarrow> Reply 400 ''expected /secret/ITEM/FIELD''
      | Some (item, field) \<Rightarrow>
          (case (decodeURIComponent item, decodeURIComponent field) of
             (Some i, Some f) \<Rightarrow>
               (case resolveReference vault (formatReference i f) of
                  Unresolved e \<Rightarrow> Reply 404 e
                | Resolved v \<Rightarrow> Reply 200 v)
           | _ \<Rightarrow> HandlerThrows))"

section \<open>The run command\<close>

datatype RunOutcome =
    RunExit nat string
  | RunPrint string
  | RunSpawn string "string list" environment "string list"
  | RunSocket string "string list" environment "VaultItemPlaintext list" "string list"

text \<open>
  \<open>dotenv\<close> is what reading the file of \<open>--dotenv\<close> gave: its text or an error message. The process
  environment has no empty optional values, so \<open>baseEnv\<close> is a plain environment.
\<close>

definition base_env :: "string option \<Rightarrow> environment \<Rightarrow> environment" where
  "base_env content processEnv =
     env_merge (case content of None \<Rightarrow> [] | Some c \<Rightarrow> js_map_new (map (\<lambda>e. (de_key e, de_value e)) (parseDotenv c))) processEnv"

definition child_env :: "VaultItemPlaintext list \<Rightarrow> VaultItemPlaintext list \<Rightarrow> environment \<Rightarrow> environment" where
  "child_env vault selected baseEnv =
     env_merge (env_merge baseEnv (fst (resolveSecretRefs vault baseEnv))) (injected_vars selected)"

definition LF :: string where "LF = [CHR 0x0A]"

definition run_vault :: "RunOptions \<Rightarrow> string list \<Rightarrow> environment \<Rightarrow> VaultItemPlaintext list \<Rightarrow> RunOutcome" where
  "run_vault opts args baseEnv vault =
     (let selected = selectInjectedItems opts vault in
      if nonempty_opt (ro_item opts) \<noteq> None \<and> selected = []
        then RunExit 2 (''No items found matching: '' @ the (ro_item opts) @ LF)
      else if ro_envFile opts
        then RunPrint (concat (map (\<lambda>(k, v). k @ ''='' @ json_print_string v @ LF) (injected_vars selected)))
      else case args of
          [] \<Rightarrow> RunExit 1 (''No command specified. Usage: nopwd run -- <command>'' @ LF)
        | cmd # cmdArgs \<Rightarrow>
            if ro_viaSocket opts then
              (let unresolved = map fst (filter (\<lambda>(_, v). isReference (Some v)) baseEnv)
               in RunSocket cmd cmdArgs baseEnv selected
                    (if unresolved = [] then []
                     else [''nopwd run: --via-socket does not resolve nopwd:// references ('' @ js_join '', '' unresolved @
                           ''); fetch them via $NOPWD_SOCKET instead'']))
            else RunSpawn cmd cmdArgs (child_env vault selected baseEnv) (snd (resolveSecretRefs vault baseEnv)))"

definition runCommand ::
  "RunOptions \<Rightarrow> string list \<Rightarrow> string + string \<Rightarrow> environment \<Rightarrow> VaultItemPlaintext list \<Rightarrow> RunOutcome" where
  "runCommand opts args dotenv processEnv vault =
     (case nonempty_opt (ro_dotenv opts) of
        None \<Rightarrow> run_vault opts args (base_env None processEnv) vault
      | Some path \<Rightarrow>
          (case dotenv of
             Inl msg \<Rightarrow> RunExit 1 (''nopwd run: cannot read '' @ path @ '': '' @ msg @ LF)
           | Inr content \<Rightarrow> run_vault opts args (base_env (Some content) processEnv) vault))"

text \<open>The environment the child of a socket run gets: the caller's, and where the socket is.\<close>

definition socket_env :: "environment \<Rightarrow> string \<Rightarrow> environment" where
  "socket_env env socketPath = js_set ''NOPWD_SOCKET'' socketPath env"

section \<open>The get and list commands\<close>

definition unknown_field :: "string \<Rightarrow> string \<Rightarrow> string \<Rightarrow> string + string" where
  "unknown_field f kind valid = Inl (''Unknown field '' @ in_quotes f @ '' for '' @ kind @ '' item. Valid: '' @ valid)"

definition orEmpty :: "string option \<Rightarrow> string" where
  "orEmpty s = (case s of None \<Rightarrow> '''' | Some x \<Rightarrow> x)"

definition with_default :: "string \<Rightarrow> string option \<Rightarrow> string" where
  "with_default d f = (case f of None \<Rightarrow> d | Some x \<Rightarrow> x)"

fun extractField :: "VaultItemPlaintext \<Rightarrow> string option \<Rightarrow> string + string" where
  "extractField (Login p) field =
     (let f = with_default ''password'' field in
      if f = ''password'' then Inr (login_password p)
      else if f = ''username'' then Inr (login_username p)
      else if f = ''url'' then Inr (case login_urls p of [] \<Rightarrow> '''' | u # _ \<Rightarrow> u)
      else if f = ''notes'' then Inr (orEmpty (login_notes p))
      else if f = ''totp'' then Inr (orEmpty (login_totp p))
      else unknown_field f ''login'' ''password, username, url, notes, totp'')"
| "extractField (Note p) field =
     (let f = with_default ''content'' field in
      if f = ''content'' \<or> f = ''notes'' then Inr (note_content p)
      else unknown_field f ''note'' ''content'')"
| "extractField (Card p) field =
     (let f = with_default ''number'' field in
      if f = ''number'' then Inr (card_number p)
      else if f = ''cvv'' then Inr (card_cvv p)
      else if f = ''cardholder'' then Inr (card_cardholderName p)
      else if f = ''expiry'' then Inr (card_expMonth p @ ''/'' @ card_expYear p)
      else if f = ''notes'' then Inr (orEmpty (card_notes p))
      else unknown_field f ''card'' ''number, cvv, cardholder, expiry, notes'')"
| "extractField (Identity p) field =
     (let f = with_default ''email'' field in
      if f = ''email'' then Inr (ident_email p)
      else if f = ''phone'' then Inr (ident_phone p)
      else if f = ''name'' then Inr (ident_firstName p @ '' '' @ ident_lastName p)
      else if f = ''address'' then Inr (ident_address p)
      else if f = ''notes'' then Inr (orEmpty (ident_notes p))
      else unknown_field f ''identity'' ''email, phone, name, address, notes'')"
| "extractField (SshKey p) field =
     (let f = with_default ''private'' field in
      if f = ''private'' then Inr (ssh_privateKey p)
      else if f = ''public'' then Inr (orEmpty (ssh_publicKey p))
      else if f = ''passphrase'' then Inr (orEmpty (ssh_passphrase p))
      else if f = ''notes'' then Inr (orEmpty (ssh_notes p))
      else unknown_field f ''ssh_key'' ''private, public, passphrase, notes'')"

datatype GetOutcome = GetExit nat string | GetPrint string | GetItem VaultItemPlaintext

definition getCommand :: "string \<Rightarrow> string option \<Rightarrow> bool \<Rightarrow> VaultItemPlaintext list \<Rightarrow> GetOutcome" where
  "getCommand name field asJson items =
     (let query = toLowerCase name;
          exactMatches = filter (\<lambda>i. toLowerCase (plain_name i) = query) items;
          partialMatches = (if exactMatches \<noteq> [] then exactMatches
                            else filter (\<lambda>i. js_includes (toLowerCase (plain_name i)) query) items)
      in case partialMatches of
           [] \<Rightarrow> GetExit 2 (''Not found: '' @ in_quotes name @ LF)
         | [match] \<Rightarrow>
             if asJson then GetItem match
             else (case extractField match field of Inr v \<Rightarrow> GetPrint (v @ LF) | Inl e \<Rightarrow> GetExit 1 (e @ LF))
         | _ \<Rightarrow> GetExit 2 (''Ambiguous: '' @ in_quotes name @ '' matches '' @ nat_to_string (length partialMatches) @ '' items:'' @ LF @
                  js_join LF (map (\<lambda>i. ''  '' @ plain_name i) partialMatches) @ LF @ ''Use an exact name to disambiguate.'' @ LF))"

definition tagged :: "string \<Rightarrow> VaultItemPlaintext \<Rightarrow> bool" where
  "tagged tag i = (case plain_tags i of None \<Rightarrow> False | Some ts \<Rightarrow> list_ex (\<lambda>t. toLowerCase t = toLowerCase tag) ts)"

definition padEnd :: "nat \<Rightarrow> string \<Rightarrow> string" where
  "padEnd n s = s @ replicate (n - length s) (CHR '' '')"

definition list_line :: "nat \<Rightarrow> VaultItemPlaintext \<Rightarrow> string" where
  "list_line maxLen item =
     padEnd maxLen (plain_name item) @ ''  ['' @ plain_type item @ '']'' @
     (case plain_tags item of
        None \<Rightarrow> '''' | Some [] \<Rightarrow> '''' | Some ts \<Rightarrow> ''  #'' @ js_join '' #'' ts) @ LF"

text \<open>The items \<open>list\<close> shows and the text it prints without \<open>--json\<close>.\<close>

definition listed :: "string option \<Rightarrow> VaultItemPlaintext list \<Rightarrow> VaultItemPlaintext list" where
  "listed tag items = (case nonempty_opt tag of None \<Rightarrow> items | Some t \<Rightarrow> filter (tagged t) items)"

definition listCommand :: "string option \<Rightarrow> VaultItemPlaintext list \<Rightarrow> string" where
  "listCommand tag items =
     (let shown = listed tag items in
      if shown = [] then
        (case nonempty_opt tag of
           Some t \<Rightarrow> ''No items tagged '' @ in_quotes t @ ''.'' @ LF
         | None \<Rightarrow> ''Vault is empty.'' @ LF)
      else concat (map (list_line (Max (set (map (length \<circ> plain_name) shown)))) shown))"

section \<open>What a started command sees\<close>

lemma map_of_env_merge: "map_of (env_merge a b) = map_of a ++ map_of (rev b)"
  by (simp add: env_merge_def map_of_fold_js_set)

lemma map_of_rev_keys: "distinct (map fst m) \<Longrightarrow> map_of (rev m) = map_of m"
  by (induction m) (auto simp: map_add_def fun_eq_iff dom_map_of_conv_image_fst split: option.splits
      dest!: map_of_SomeD intro: rev_image_eqI)

lemma distinct_env_merge: "distinct (map fst a) \<Longrightarrow> distinct (map fst (env_merge a b))"
  by (induction b arbitrary: a) (auto simp: env_merge_def)

definition resolved_value :: "VaultItemPlaintext list \<Rightarrow> string \<Rightarrow> string option" where
  "resolved_value vault y =
     (if isReference (Some y) then (case resolveReference vault y of Resolved v \<Rightarrow> Some v | Unresolved _ \<Rightarrow> None) else None)"

definition resolved_refs :: "VaultItemPlaintext list \<Rightarrow> environment \<Rightarrow> environment" where
  "resolved_refs vault source = List.map_filter (\<lambda>(k, y). map_option (Pair k) (resolved_value vault y)) source"

lemma resolved_refs_simps [simp]:
  "resolved_refs vault [] = []"
  "resolved_refs vault ((k, y) # source) =
     (case resolved_value vault y of None \<Rightarrow> resolved_refs vault source | Some v \<Rightarrow> (k, v) # resolved_refs vault source)"
  by (simp_all add: resolved_refs_def List.map_filter_simps split: option.split)

lemma ref_step_value: "fst (ref_step vault (k, y) (acc, ms)) = (case resolved_value vault y of None \<Rightarrow> acc | Some v \<Rightarrow> js_set k v acc)"
  by (simp add: resolved_value_def split: ResolveResult.split)

lemma resolveSecretRefs_eq: "fst (resolveSecretRefs vault source) = js_map_new (resolved_refs vault source)"
proof -
  have "fst (fold (ref_step vault) source (acc, ms)) = fold (\<lambda>(k, v). js_set k v) (resolved_refs vault source) acc" for acc ms
  proof (induction source arbitrary: acc ms)
    case (Cons s source)
    obtain k y where s: "s = (k, y)" by (cases s)
    obtain acc' ms' where r: "ref_step vault s (acc, ms) = (acc', ms')" by (cases "ref_step vault s (acc, ms)")
    then have "acc' = (case resolved_value vault y of None \<Rightarrow> acc | Some v \<Rightarrow> js_set k v acc)"
      using ref_step_value [of vault k y acc ms] s by simp
    then show ?case using Cons [of acc' ms'] r s by (simp split: option.split)
  qed simp
  then show ?thesis by (simp add: resolveSecretRefs_def js_map_new_def)
qed

lemma resolved_refs_keys: "set (map fst (resolved_refs vault source)) \<subseteq> set (map fst source)"
proof (induction source)
  case (Cons s source)
  then show ?case by (cases s; cases "resolved_value vault (snd s)") auto
qed simp

lemma map_of_refs:
  assumes "distinct (map fst source)"
  shows "map_of (fst (resolveSecretRefs vault source)) x = Option.bind (map_of source x) (resolved_value vault)"
    and "distinct (map fst (fst (resolveSecretRefs vault source)))"
proof -
  have "distinct (map fst (resolved_refs vault source)) \<and>
      map_of (resolved_refs vault source) x = Option.bind (map_of source x) (resolved_value vault)"
    using assms
  proof (induction source)
    case (Cons s source)
    obtain k y where s: "s = (k, y)" by (cases s)
    have "k \<notin> set (map fst (resolved_refs vault source))" using resolved_refs_keys [of vault source] Cons.prems s by auto
    moreover have "map_of source k = None" using Cons.prems s by (simp add: map_of_eq_None_iff)
    ultimately show ?case using Cons s
      by (cases "resolved_value vault y"; cases "x = k") auto
  qed simp
  then show "map_of (fst (resolveSecretRefs vault source)) x = Option.bind (map_of source x) (resolved_value vault)"
    by (simp add: resolveSecretRefs_eq map_of_rev_keys)
  show "distinct (map fst (fst (resolveSecretRefs vault source)))" by (simp add: resolveSecretRefs_eq)
qed

text \<open>
  The environment of a started command, variable by variable: a field of a selected item wins;
  else a reference in the caller's environment is replaced by what it resolves to; and everything else,
  unresolved references included, is passed on as it was.
\<close>

theorem child_environment:
  assumes "distinct (map fst baseEnv)"
  shows "map_of (child_env vault selected baseEnv) x =
    (case map_of (injected_vars selected) x of
       Some v \<Rightarrow> Some v
     | None \<Rightarrow> map_option (\<lambda>y. if isReference (Some y)
           then (case resolveReference vault y of Resolved v \<Rightarrow> v | Unresolved _ \<Rightarrow> y) else y) (map_of baseEnv x))"
proof -
  have d: "distinct (map fst (injected_vars selected))"
  proof -
    have "distinct (map fst (fold (\<lambda>i env. env_merge env (itemToEnvVars i)) is m))" if "distinct (map fst m)" for "is" m
      using that by (induction "is" arbitrary: m) (simp_all add: distinct_env_merge)
    then show ?thesis by (simp add: injected_vars_def)
  qed
  show ?thesis
    using map_of_refs [OF assms, of vault]
    by (cases "map_of baseEnv x")
       (simp_all add: child_env_def map_of_env_merge map_of_rev_keys d map_add_def resolved_value_def
          split: option.splits ResolveResult.splits)
qed

theorem child_environment_witness:
  "map_of (child_env [Note \<lparr>note_name = ''Key'', note_tags = None, note_content = ''s3''\<rparr>] [] [(''A'', ''x'')]) ''A'' = Some ''x''"
  using child_environment [of "[(''A'', ''x'')]" "[Note \<lparr>note_name = ''Key'', note_tags = None, note_content = ''s3''\<rparr>]" "[]" "''A''"]
  by (simp add: injected_vars_def isReference_def REF_PREFIX_def startsWith_def)

lemma base_env_keys: "distinct (map fst (base_env content processEnv))"
  by (simp add: base_env_def distinct_env_merge split: option.split)

lemma map_of_base_env:
  "map_of (base_env (Some c) processEnv) x =
     (case map_of (rev processEnv) x of Some v \<Rightarrow> Some v
      | None \<Rightarrow> map_of (rev (map (\<lambda>e. (de_key e, de_value e)) (parseDotenv c))) x)"
  by (simp add: base_env_def map_of_env_merge map_add_def)

lemma map_of_entry:
  assumes "k \<notin> de_key ` set post"
  shows "map_of (rev (map (\<lambda>e. (de_key e, de_value e)) (pre @ [\<lparr>de_key = k, de_value = v, de_line = n\<rparr>] @ post))) x =
    (if x = k then Some v else map_of (rev (map (\<lambda>e. (de_key e, de_value e)) (pre @ post))) x)"
proof -
  have "map_of (rev (map (\<lambda>e. (de_key e, de_value e)) post)) k = None"
    using assms by (force simp: map_of_eq_None_iff)
  then show ?thesis by (simp add: map_add_def split: option.split)
qed



section \<open>What the socket serves\<close>

lemma resolved_from_item:
  "resolveReference vault ref = Resolved v \<Longrightarrow> \<exists>i \<in> set vault. v \<in> snd ` set (itemToEnvVars i)"
  unfolding resolveReference_def Let_def
  by (auto split: option.splits if_splits simp: find_Some_iff dest!: map_of_SomeD) (metis nth_mem rev_image_eqI snd_conv)


definition demo_vault :: "VaultItemPlaintext list" where
  "demo_vault = [Note \<lparr>note_name = ''Token'', note_tags = None, note_content = ''t0p''\<rparr>,
                 Note \<lparr>note_name = ''Diary'', note_tags = None, note_content = ''private''\<rparr>]"

definition demo_run :: RunOptions where
  "demo_run = \<lparr>ro_item = Some ''token'', ro_envFile = False, ro_viaSocket = True, ro_dotenv = None\<rparr>"


text \<open>A list of names that ends in a comma names the empty string, which is part of every name: every item is selected.\<close>

theorem trailing_comma_selects_all:
  "selectInjectedItems \<lparr>ro_item = Some ''token,'', ro_envFile = False, ro_viaSocket = v, ro_dotenv = d\<rparr> vault = vault"
proof -
  have s: "js_split (CHR '','') ''token,'' = [''token'', '''']" by code_simp
  have "named_by (toLowerCase (js_trim '''')) i" for i
    by (simp add: named_by_def toLowerCase_def js_trim_def trimEnd_def js_includes_def)
  then show ?thesis by (simp add: selectInjectedItems_def nonempty_opt_def s)
qed

text \<open>A request with a broken percent escape throws in the handler, where nothing catches it.\<close>

theorem broken_escape_throws: "socket_handler vault (Some ''/secret/%/password'') = HandlerThrows"
proof -
  have "secret_path ''/secret/%/password'' = Some (''%'', ''password'')" "decodeURIComponent ''%'' = None" by code_simp+
  then show ?thesis by (simp add: socket_handler_def)
qed

end
