(* ===== verification/Js_Date.thy ===== *)
theory Js_Date
  imports Prelude
begin

text \<open>
  Calendar dates as ECMAScript computes them from a time value, for \<open>Date.prototype.toISOString\<close>: the
  number of the day of a year's first day, the year of a day, month and day of the month. The year is
  found from the mean length of a Gregorian year, which is off by at most one; the lemmas show that it is
  the year whose days contain the given one, and that the date printed names the day it came from.
\<close>

text \<open>\<open>DayFromYear\<close>, days since 1970-01-01.\<close>

definition dayFromYear :: "int \<Rightarrow> int" where
  "dayFromYear y = 365 * (y - 1970) + (y - 1969) div 4 - (y - 1901) div 100 + (y - 1601) div 400"

definition leap_year :: "int \<Rightarrow> bool" where
  "leap_year y \<longleftrightarrow> y mod 4 = 0 \<and> (y mod 100 \<noteq> 0 \<or> y mod 400 = 0)"

definition yearFromDay :: "int \<Rightarrow> int" where
  "yearFromDay d =
     (let y = 1970 + (400 * d) div 146097 in
      if d < dayFromYear y then y - 1 else if dayFromYear (y + 1) \<le> d then y + 1 else y)"

definition month_lengths :: "int \<Rightarrow> int list" where
  "month_lengths y = [31, if leap_year y then 29 else 28, 31, 30, 31, 30, 31, 31, 30, 31, 30, 31]"

text \<open>Month (from 1) and day of the month (from 1) of a day of the year (from 0).\<close>

fun split_month :: "int list \<Rightarrow> int \<Rightarrow> int \<Rightarrow> int \<times> int" where
  "split_month [] m n = (m, n + 1)"
| "split_month (l # ls) m n = (if n < l then (m, n + 1) else split_month ls (m + 1) (n - l))"

definition civil_of_day :: "int \<Rightarrow> int \<times> int \<times> int" where
  "civil_of_day d = (let y = yearFromDay d in (y, split_month (month_lengths y) 1 (d - dayFromYear y)))"

text \<open>The day a calendar date names.\<close>

definition day_of_civil :: "int \<Rightarrow> int \<Rightarrow> int \<Rightarrow> int" where
  "day_of_civil y m d = dayFromYear y + sum_list (take (nat (m - 1)) (month_lengths y)) + d - 1"

text \<open>\<open>toISOString().split("T")[0]\<close>; \<open>None\<close> is the RangeError of a time value that is out of range.\<close>

definition pad2 :: "int \<Rightarrow> string" where
  "pad2 n = padStart 2 (CHR ''0'') (int_to_string n)"

definition iso_year :: "int \<Rightarrow> string" where
  "iso_year y =
     (if 0 \<le> y \<and> y \<le> 9999 then padStart 4 (CHR ''0'') (nat_to_string (nat y))
      else (if y < 0 then ''-'' else ''+'') @ padStart 6 (CHR ''0'') (nat_to_string (nat (abs y))))"

definition MAX_TIME :: int where "MAX_TIME = 8640000000000000"

definition iso_date :: "int \<Rightarrow> string option" where
  "iso_date ms =
     (if abs ms > MAX_TIME then None
      else case civil_of_day (ms div 86400000) of
          (y, m, d) \<Rightarrow> Some (iso_year y @ ''-'' @ pad2 m @ ''-'' @ pad2 d))"

lemma div_below: "0 < (n :: int) \<Longrightarrow> n * (a div n) \<le> a"
  using mult_div_mod_eq [of n a] pos_mod_sign [of n a] by linarith

lemma div_above: "0 < (n :: int) \<Longrightarrow> a < n * (a div n) + n"
  using mult_div_mod_eq [of n a] pos_mod_bound [of n a] by linarith

lemma yearFromDay_contains:
  "dayFromYear (yearFromDay d) \<le> d \<and> d < dayFromYear (yearFromDay d + 1)"
proof -
  define q where "q = (400 * d) div 146097"
  have q: "146097 * q \<le> 400 * d" "400 * d < 146097 * q + 146097"
    unfolding q_def by (simp_all only: div_below div_above zero_less_numeral)
  have below: "dayFromYear (1970 + q - 1) \<le> d"
  proof -
    define a b c where abc: "a = q div 4" "b = (q + 68) div 100" "c = (q + 368) div 400"
    have "4 * a \<le> q" "q + 68 < 100 * b + 100" "400 * c \<le> q + 368"
      unfolding abc by (simp_all only: div_below div_above zero_less_numeral)
    then have "365 * q - 365 + a - b + c \<le> d" using q(1) by linarith
    then show ?thesis by (simp add: dayFromYear_def abc algebra_simps)
  qed
  have above: "d < dayFromYear (1970 + q + 2)"
  proof -
    define a b c where abc: "a = (q + 3) div 4" "b = (q + 71) div 100" "c = (q + 371) div 400"
    have "q + 3 < 4 * a + 4" "100 * b \<le> q + 71" "q + 371 < 400 * c + 400"
      unfolding abc by (simp_all only: div_below div_above zero_less_numeral)
    then have "d < 365 * q + 730 + a - b + c" using q(2) by linarith
    then show ?thesis by (simp add: dayFromYear_def abc algebra_simps)
  qed
  have "1970 + q + 1 + 1 = 1970 + q + 2" by simp
  then show ?thesis using below above unfolding yearFromDay_def Let_def q_def [symmetric] by auto
qed

lemma int_div_Suc:
  fixes a n :: int
  assumes "0 < n"
  shows "(a + 1) div n - a div n = (if (a + 1) mod n = 0 then 1 else 0)"
proof (cases "(a + 1) mod n = 0")
  case True
  then have "a = n * ((a + 1) div n - 1) + (n - 1)" by (simp add: algebra_simps) (metis add_0 mult_div_mod_eq add.commute)
  then have "a div n = (a + 1) div n - 1" using assms by (intro int_div_pos_eq [of _ _ _ "n - 1"]) simp_all
  then show ?thesis using True by simp
next
  case False
  have "0 \<le> (a + 1) mod n" "(a + 1) mod n < n" using assms by simp_all
  then have r: "0 \<le> (a + 1) mod n - 1" "(a + 1) mod n - 1 < n" using False by linarith+
  have "a = n * ((a + 1) div n) + ((a + 1) mod n - 1)" using mult_div_mod_eq [of n "a + 1"] by linarith
  then have "a div n = (a + 1) div n" using r by (intro int_div_pos_eq) auto
  then show ?thesis using False by simp
qed

lemma february:
  "(b \<longrightarrow> a) \<Longrightarrow> (c \<longrightarrow> b) \<Longrightarrow> 365 + (if a then 1 else 0) - (if b then 1 else 0) + (if c then 1 else 0) =
     sum_list [31, if a \<and> (\<not> b \<or> c) then 29 else 28, 31, 30, 31, 30, 31, 31, 30, 31, 30, 31 :: int]"
  by (cases a; cases b; cases c) simp_all

lemma year_length: "dayFromYear (y + 1) - dayFromYear y = sum_list (month_lengths y)"
proof -
  have m: "(y - 1968) mod 4 = y mod 4" "(y - 1900) mod 100 = y mod 100" "(y - 1600) mod 400 = y mod 400"
    using mod_mult_self2 [of y 4 "-492"] mod_mult_self2 [of y 100 "-19"] mod_mult_self2 [of y 400 "-4"] by simp_all
  have e: "y - 1969 + 1 = y - 1968" "y - 1901 + 1 = y - 1900" "y - 1601 + 1 = y - 1600" by simp_all
  have steps: "(y - 1968) div 4 - (y - 1969) div 4 = (if y mod 4 = 0 then 1 else 0)"
    "(y - 1900) div 100 - (y - 1901) div 100 = (if y mod 100 = 0 then 1 else 0)"
    "(y - 1600) div 400 - (y - 1601) div 400 = (if y mod 400 = 0 then 1 else 0)"
    by (rule int_div_Suc [of 4 "y - 1969", unfolded e m, OF zero_less_numeral]
        int_div_Suc [of 100 "y - 1901", unfolded e m, OF zero_less_numeral]
        int_div_Suc [of 400 "y - 1601", unfolded e m, OF zero_less_numeral])+
  have dvds: "y mod 400 = 0 \<longrightarrow> y mod 100 = 0" "y mod 100 = 0 \<longrightarrow> y mod 4 = 0"
    using dvd_trans [of 100 400 y] dvd_trans [of 4 100 y] by (simp_all add: mod_eq_0_iff_dvd)
  have "y + 1 - 1970 = y - 1970 + 1" "y + 1 - 1969 = y - 1968" "y + 1 - 1901 = y - 1900" "y + 1 - 1601 = y - 1600" by simp_all
  then have "dayFromYear (y + 1) - dayFromYear y = 365 + ((y - 1968) div 4 - (y - 1969) div 4) -
      ((y - 1900) div 100 - (y - 1901) div 100) + ((y - 1600) div 400 - (y - 1601) div 400)"
    unfolding dayFromYear_def by (simp only: distrib_left mult_1_right)
  then have "dayFromYear (y + 1) - dayFromYear y = 365 + (if y mod 4 = 0 then 1 else 0) -
      (if y mod 100 = 0 then 1 else 0) + (if y mod 400 = 0 then 1 else 0)"
    unfolding steps .
  also have "\<dots> = sum_list (month_lengths y)"
    unfolding month_lengths_def leap_year_def by (rule february [OF dvds(2,1)])
  finally show ?thesis .
qed

lemma split_month_day:
  assumes "0 \<le> n" "n < sum_list ls" "split_month ls m n = (m', d)"
  shows "m \<le> m' \<and> m' < m + int (length ls) \<and> 1 \<le> d \<and> d \<le> ls ! nat (m' - m) \<and> n = sum_list (take (nat (m' - m)) ls) + d - 1"
  using assms
proof (induction ls m n rule: split_month.induct)
  case (2 l ls m n)
  show ?case
  proof (cases "n < l")
    case True
    then show ?thesis using 2 by auto
  next
    case False
    then have ih: "m + 1 \<le> m' \<and> m' < m + 1 + int (length ls) \<and> 1 \<le> d \<and> d \<le> ls ! nat (m' - (m + 1)) \<and>
        n - l = sum_list (take (nat (m' - (m + 1))) ls) + d - 1" using 2 by simp
    moreover have "nat (m' - m) = Suc (nat (m' - (m + 1)))" using ih by linarith
    ultimately show ?thesis by simp
  qed
qed simp

text \<open>The date of a day is a date of the calendar, and names that day.\<close>

lemma civil_of_day_correct:
  assumes "civil_of_day n = (y, m, d)"
  shows "1 \<le> m \<and> m \<le> 12 \<and> 1 \<le> d \<and> d \<le> month_lengths y ! nat (m - 1) \<and> day_of_civil y m d = n"
proof -
  have y: "y = yearFromDay n" and s: "split_month (month_lengths y) 1 (n - dayFromYear y) = (m, d)"
    using assms by (auto simp: civil_of_day_def Let_def)
  have "0 \<le> n - dayFromYear y" "n - dayFromYear y < sum_list (month_lengths y)"
    using yearFromDay_contains [of n] year_length [of y] by (simp_all add: y)
  from split_month_day [OF this s] show ?thesis
    by (auto simp: day_of_civil_def month_lengths_def)
qed

end
