(* ===== verification/Import_1Password.thy ===== *)
theory Import_1Password
  imports Js_Date Vault_Types
begin

text \<open>
  The importer of 1Password archives (apps/web/src/lib/import/onepassword.ts): the export's data, the
  mapping of each category to an item of the vault and the loop over accounts and vaults.

  The archive is opened by a library: \<open>unzipSync\<close> is a parameter that gives the entries or fails. The
  JSON inside is read into the types the file declares, with the members the importer reads; a member
  that is missing, null, or has another value where the code looks for that is represented, and any
  other departure from the declared types ends the model with \<open>BadShape\<close>. \<open>JSON.parse\<close> that throws, and
  text beyond the model's characters, are \<open>BadJson\<close>. A date that is out of range is the one thing that
  makes the mapping itself throw, and only when the code reads it.
\<close>

datatype ImportError = UnzipError string | MissingExportData | BadJson | BadShape | InvalidDate

type_synonym 'a importing = "ImportError + 'a"

section \<open>The export\<close>

record OnePuxLoginField =
  lf_value :: "string option"
  lf_designation :: "string option"

record OnePuxAddress =
  oa_street :: "string option"
  oa_city :: string
  oa_country :: string
  oa_zip :: "string option"
  oa_state :: "string option"

record OnePuxSshKey =
  ok_privateKey :: "string option"
  ok_publicKey :: "string option"

text \<open>
  An object value: each member that the code looks for is absent (\<open>None\<close>), null (\<open>Some None\<close>) or there.
\<close>

record ObjectValue =
  ov_concealed :: "string option option"
  ov_string :: "string option option"
  ov_email :: "string option option"
  ov_url :: "string option option"
  ov_phone :: "string option option"
  ov_menu :: "string option option"
  ov_cctype :: "string option option"
  ov_monthYear :: "int option option"
  ov_date :: "int option option"
  ov_address :: "OnePuxAddress option"
  ov_sshKey :: "OnePuxSshKey option"

datatype FieldValue = StringValue string | ObjectFieldValue ObjectValue | NoValue

record OnePuxSectionField =
  sf_title :: string
  sf_id :: string
  sf_kind :: "string option"
  sf_value :: FieldValue

record OnePuxSection =
  se_title :: "string option"
  se_fields :: "OnePuxSectionField list option"

record OnePuxDetails =
  od_loginFields :: "OnePuxLoginField list option"
  od_notesPlain :: "string option"
  od_sections :: "OnePuxSection list option"
  od_password :: "string option"

record OnePuxOverview =
  oo_title :: "string option"
  oo_url :: "string option"
  oo_urls :: "string option list option"
  oo_tags :: "string list option"

record OnePuxItem =
  oi_trashed :: "string option"
  oi_categoryUuid :: "string option"
  oi_details :: OnePuxDetails
  oi_overview :: OnePuxOverview

record OnePuxVault =
  vt_name :: string
  vt_items :: "OnePuxItem list option"

record OnePuxAccount =
  at_vaults :: "OnePuxVault list option"

record OnePuxExport =
  ex_accounts :: "OnePuxAccount list option"

section \<open>Category UUIDs\<close>

definition CATEGORY_LOGIN :: string where "CATEGORY_LOGIN = ''001''"
definition CATEGORY_CREDIT_CARD :: string where "CATEGORY_CREDIT_CARD = ''002''"
definition CATEGORY_SECURE_NOTE :: string where "CATEGORY_SECURE_NOTE = ''003''"
definition CATEGORY_IDENTITY :: string where "CATEGORY_IDENTITY = ''004''"
definition CATEGORY_PASSWORD :: string where "CATEGORY_PASSWORD = ''005''"
definition CATEGORY_DATABASE :: string where "CATEGORY_DATABASE = ''102''"
definition CATEGORY_SSH_KEY_OLD :: string where "CATEGORY_SSH_KEY_OLD = ''114''"
definition CATEGORY_SSH_KEY :: string where "CATEGORY_SSH_KEY = ''115''"

section \<open>Field value extraction\<close>

definition orElse :: "'a \<Rightarrow> 'a option \<Rightarrow> 'a" where
  "orElse d x = (case x of None \<Rightarrow> d | Some y \<Rightarrow> y)"

text \<open>\<open>a || b\<close> on strings, and an optional text that is dropped when empty.\<close>

definition js_or :: "string \<Rightarrow> string \<Rightarrow> string" where
  "js_or a b = (if a = '''' then b else a)"

definition opt_string :: "string \<Rightarrow> string option" where
  "opt_string s = (if s = '''' then None else Some s)"

text \<open>JavaScript's remainder takes the sign of the dividend.\<close>

definition js_remainder :: "int \<Rightarrow> int \<Rightarrow> int" where
  "js_remainder a b = sgn a * (abs a mod abs b)"

definition month_year :: "int \<Rightarrow> string" where
  "month_year my = padStart 2 (CHR ''0'') (int_to_string (js_remainder my 100)) @ ''/'' @ int_to_string (my div 100)"

definition first_member :: "(string importing) option list \<Rightarrow> string importing" where
  "first_member ms = (case List.map_filter id ms of [] \<Rightarrow> Inr '''' | m # _ \<Rightarrow> m)"

definition nullable_text :: "string option option \<Rightarrow> (string importing) option" where
  "nullable_text m = map_option (\<lambda>x. Inr (orElse '''' x)) m"

definition stringValue :: "FieldValue \<Rightarrow> string importing" where
  "stringValue raw =
     (case raw of
        StringValue s \<Rightarrow> Inr s
      | NoValue \<Rightarrow> Inr ''''
      | ObjectFieldValue ov \<Rightarrow>
          first_member
            [nullable_text (ov_concealed ov), nullable_text (ov_string ov), nullable_text (ov_email ov),
             nullable_text (ov_url ov), nullable_text (ov_phone ov), nullable_text (ov_menu ov),
             nullable_text (ov_cctype ov),
             map_option (\<lambda>my. Inr (case my of None \<Rightarrow> '''' | Some n \<Rightarrow> month_year n)) (ov_monthYear ov),
             map_option (\<lambda>ts. case ts of None \<Rightarrow> Inr '''' | Some n \<Rightarrow> of_option InvalidDate (iso_date (n * 1000))) (ov_date ov)])"

definition section_fields :: "OnePuxSection list option \<Rightarrow> OnePuxSectionField list" where
  "section_fields sections = concat (map (\<lambda>s. orElse [] (se_fields s)) (orElse [] sections))"

definition findFieldById :: "OnePuxSection list option \<Rightarrow> string list \<Rightarrow> string importing" where
  "findFieldById sections ids =
     (case find (\<lambda>f. sf_id f \<in> set ids) (section_fields sections) of
        None \<Rightarrow> Inr ''''
      | Some f \<Rightarrow> stringValue (sf_value f))"

definition findFieldByTitle :: "OnePuxSection list option \<Rightarrow> string list \<Rightarrow> string importing" where
  "findFieldByTitle sections titles =
     (case find (\<lambda>f. toLowerCase (sf_title f) \<in> set (map toLowerCase titles)) (section_fields sections) of
        None \<Rightarrow> Inr ''''
      | Some f \<Rightarrow> stringValue (sf_value f))"

text \<open>\<open>a || b\<close> where reading the second value may throw.\<close>

definition or_else_read :: "string importing \<Rightarrow> string importing \<Rightarrow> string importing" where
  "or_else_read a b = rbind a (\<lambda>x. if x = '''' then b else Inr x)"

section \<open>Per-category mappers\<close>

definition item_title :: "OnePuxItem \<Rightarrow> string" where
  "item_title item = js_or (orElse '''' (oo_title (oi_overview item))) ''Unnamed''"

definition notes_plain :: "OnePuxItem \<Rightarrow> string option" where
  "notes_plain item = nonempty_opt (od_notesPlain (oi_details item))"

definition item_urls :: "OnePuxItem \<Rightarrow> string list" where
  "item_urls item =
     (case oo_urls (oi_overview item) of
        Some (u # us) \<Rightarrow> List.map_filter nonempty_opt (u # us)
      | _ \<Rightarrow> (case nonempty_opt (oo_url (oi_overview item)) of None \<Rightarrow> [] | Some u \<Rightarrow> [u]))"

definition designated :: "OnePuxItem \<Rightarrow> string \<Rightarrow> string" where
  "designated item d =
     (case find (\<lambda>f. lf_designation f = Some d) (orElse [] (od_loginFields (oi_details item))) of
        None \<Rightarrow> '''' | Some f \<Rightarrow> orElse '''' (lf_value f))"

definition concealed_value :: "FieldValue \<Rightarrow> bool" where
  "concealed_value v = (case v of ObjectFieldValue ov \<Rightarrow> ov_concealed ov \<noteq> None | _ \<Rightarrow> False)"

text \<open>The loop over all section fields that adds the ones with a value, less the skipped ids.\<close>

fun custom_fields :: "(OnePuxSectionField \<Rightarrow> bool) \<Rightarrow> string list \<Rightarrow> OnePuxSectionField list \<Rightarrow> CustomField list importing" where
  "custom_fields hidden skip [] = Inr []"
| "custom_fields hidden skip (f # fs) =
     (if sf_id f \<in> set skip then custom_fields hidden skip fs
      else rbind (stringValue (sf_value f)) (\<lambda>val.
           rbind (custom_fields hidden skip fs) (\<lambda>rest.
           Inr (if val = '''' then rest
                else \<lparr>cf_name = js_or (sf_title f) (sf_id f), cf_value = val,
                      cf_fieldType = (if hidden f then Hidden else Text)\<rparr> # rest))))"

definition mapLogin :: "OnePuxItem \<Rightarrow> LoginItem importing" where
  "mapLogin item =
     (let sections = od_sections (oi_details item) in
      rbind (findFieldById sections [''TOTP_field'', ''one-time password'']) (\<lambda>totp.
      rbind (custom_fields (\<lambda>f. sf_kind f = Some ''concealed'') [''username'', ''password''] (section_fields sections)) (\<lambda>cfs.
      Inr \<lparr>login_name = item_title item, login_tags = None, login_username = designated item ''username'',
           login_password = designated item ''password'', login_urls = item_urls item, login_totp = opt_string totp,
           login_notes = notes_plain item, login_customFields = cfs, login_passkey = None\<rparr>)))"

definition read_field :: "OnePuxSection list option \<Rightarrow> string list \<Rightarrow> string list \<Rightarrow> string importing" where
  "read_field sections ids titles = or_else_read (findFieldById sections ids) (findFieldByTitle sections titles)"

text \<open>The expiry split at its slash, when there is exactly one.\<close>

definition split_expiry :: "string \<Rightarrow> string \<times> string" where
  "split_expiry expiry =
     (if expiry = '''' then ('''', '''')
      else case js_split (CHR ''/'') expiry of
          [m, y] \<Rightarrow> (js_trim m, js_trim y)
        | _ \<Rightarrow> ('''', ''''))"

definition mapCreditCard :: "OnePuxItem \<Rightarrow> CardItem importing" where
  "mapCreditCard item =
     (let sections = od_sections (oi_details item) in
      rbind (read_field sections [''ccnum''] [''card number'', ''number'']) (\<lambda>number.
      rbind (read_field sections [''cardholder''] [''cardholder name'', ''name on card'']) (\<lambda>cardholder.
      rbind (read_field sections [''expiry''] [''expiry date'', ''expiration'']) (\<lambda>expiry.
      rbind (read_field sections [''cvv''] [''cvv'', ''cvc'', ''security code'']) (\<lambda>cvv.
      Inr \<lparr>card_name = item_title item, card_tags = None, card_cardholderName = cardholder, card_number = number,
           card_expMonth = fst (split_expiry expiry), card_expYear = snd (split_expiry expiry), card_cvv = cvv,
           card_notes = notes_plain item\<rparr>)))))"

text \<open>\<open>title: value\<close> for each field with a value.\<close>

fun field_lines :: "OnePuxSectionField list \<Rightarrow> string list importing" where
  "field_lines [] = Inr []"
| "field_lines (f # fs) =
     rbind (stringValue (sf_value f)) (\<lambda>val.
     rbind (field_lines fs) (\<lambda>rest. Inr (if val = '''' then rest else (sf_title f @ '': '' @ val) # rest)))"

definition NL :: string where "NL = [CHR 0x0A]"

definition mapSecureNote :: "OnePuxItem \<Rightarrow> NoteItem importing" where
  "mapSecureNote item =
     rbind (field_lines (section_fields (od_sections (oi_details item)))) (\<lambda>extra.
     Inr \<lparr>note_name = item_title item, note_tags = None,
          note_content = js_join (NL @ NL) (filter (\<lambda>s. s \<noteq> '''') (orElse '''' (od_notesPlain (oi_details item)) # extra))\<rparr>)"

definition address_step :: "OnePuxSectionField \<Rightarrow> string \<times> string \<times> string \<Rightarrow> string \<times> string \<times> string" where
  "address_step f acc =
     (case sf_value f of
        ObjectFieldValue ov \<Rightarrow>
          (if sf_kind f = Some ''address'' then
             (case ov_address ov of
                None \<Rightarrow> acc
              | Some a \<Rightarrow>
                  (js_join '', '' (List.map_filter nonempty_opt [oa_street a, oa_zip a, oa_state a]), oa_city a, oa_country a))
           else acc)
      | _ \<Rightarrow> acc)"

definition mapIdentity :: "OnePuxItem \<Rightarrow> IdentityItem importing" where
  "mapIdentity item =
     (let sections = od_sections (oi_details item) in
      rbind (read_field sections [''firstname''] [''first name'', ''firstname'']) (\<lambda>firstName.
      rbind (read_field sections [''lastname''] [''last name'', ''lastname'']) (\<lambda>lastName.
      rbind (or_else_read (findFieldById sections [''email''])
               (read_field sections [''defEmailNew''] [''email''])) (\<lambda>email.
      rbind (or_else_read (findFieldById sections [''defphone''])
               (read_field sections [''cellphone''] [''phone'', ''mobile'', ''cell phone''])) (\<lambda>phone.
      case fold address_step (section_fields sections) ('''', '''', '''') of
        (address, city, country) \<Rightarrow>
          Inr \<lparr>ident_name = item_title item, ident_tags = None, ident_firstName = firstName, ident_lastName = lastName,
               ident_email = email, ident_phone = phone, ident_address = address, ident_city = city,
               ident_country = country, ident_notes = notes_plain item\<rparr>)))))"

definition ssh_step :: "OnePuxSectionField \<Rightarrow> string \<times> string \<Rightarrow> string \<times> string" where
  "ssh_step f acc =
     (case sf_value f of
        ObjectFieldValue ov \<Rightarrow>
          (case ov_sshKey ov of
             None \<Rightarrow> acc | Some k \<Rightarrow> (orElse '''' (ok_privateKey k), orElse '''' (ok_publicKey k)))
      | _ \<Rightarrow> acc)"

definition mapSshKey :: "OnePuxItem \<Rightarrow> SshKeyItem importing" where
  "mapSshKey item =
     (let sections = od_sections (oi_details item) in
      case fold ssh_step (section_fields sections) ('''', '''') of
        (privateKey, publicKey) \<Rightarrow>
          rbind (findFieldById sections [''passphrase'']) (\<lambda>passphrase.
          Inr \<lparr>ssh_name = item_title item, ssh_tags = None, ssh_privateKey = privateKey, ssh_publicKey = opt_string publicKey,
               ssh_passphrase = opt_string passphrase, ssh_comment = None, ssh_notes = notes_plain item, ssh_useInAgent = None\<rparr>))"

definition mapPassword :: "OnePuxItem \<Rightarrow> LoginItem importing" where
  "mapPassword item =
     rbind (custom_fields (\<lambda>f. sf_kind f = Some ''concealed'' \<or> concealed_value (sf_value f)) []
              (section_fields (od_sections (oi_details item)))) (\<lambda>cfs.
     Inr \<lparr>login_name = item_title item, login_tags = None, login_username = '''',
          login_password = orElse '''' (od_password (oi_details item)), login_urls = item_urls item, login_totp = None,
          login_notes = notes_plain item, login_customFields = cfs, login_passkey = None\<rparr>)"

definition database_ids :: "string list" where
  "database_ids = [''hostname'', ''port'', ''database'', ''username'', ''password'', ''database_type'']"

definition prefixed :: "string \<Rightarrow> string \<Rightarrow> string" where
  "prefixed p s = (if s = '''' then '''' else p @ s)"

definition mapDatabase :: "OnePuxItem \<Rightarrow> LoginItem importing" where
  "mapDatabase item =
     (let sections = od_sections (oi_details item) in
      rbind (findFieldById sections [''hostname'']) (\<lambda>hostname.
      rbind (findFieldById sections [''port'']) (\<lambda>port.
      rbind (findFieldById sections [''database'']) (\<lambda>database.
      rbind (findFieldById sections [''username'']) (\<lambda>username.
      rbind (findFieldById sections [''password'']) (\<lambda>password.
      rbind (findFieldById sections [''database_type'']) (\<lambda>dbType.
      rbind (custom_fields (\<lambda>f. concealed_value (sf_value f)) database_ids (section_fields sections)) (\<lambda>cfs.
      let urlParts = hostname @ prefixed '':'' port @ prefixed ''/'' database;
          noteParts = filter (\<lambda>s. s \<noteq> '''')
            [prefixed ''Type: '' dbType, prefixed ''Database: '' database, orElse '''' (od_notesPlain (oi_details item))]
      in Inr \<lparr>login_name = item_title item, login_tags = None, login_username = username, login_password = password,
              login_urls = (if urlParts = '''' then [] else [urlParts]), login_totp = None,
              login_notes = opt_string (js_join NL noteParts), login_customFields = cfs, login_passkey = None\<rparr>))))))))"

fun generic_lines :: "OnePuxSection list \<Rightarrow> string list importing" where
  "generic_lines [] = Inr []"
| "generic_lines (s # ss) =
     rbind (field_lines (orElse [] (se_fields s))) (\<lambda>ls.
     rbind (generic_lines ss) (\<lambda>rest.
     Inr ((case nonempty_opt (se_title s) of None \<Rightarrow> [] | Some t \<Rightarrow> [NL @ ''## '' @ t]) @ ls @ rest)))"

definition opt_list :: "'a option \<Rightarrow> 'a list" where
  "opt_list x = (case x of None \<Rightarrow> [] | Some y \<Rightarrow> [y])"

definition mapGenericToNote :: "OnePuxItem \<Rightarrow> NoteItem importing" where
  "mapGenericToNote item =
     rbind (generic_lines (orElse [] (od_sections (oi_details item)))) (\<lambda>ls.
     Inr \<lparr>note_name = item_title item, note_tags = None,
          note_content = js_join NL (opt_list (notes_plain item) @ ls @
            map (\<lambda>p. ''Password: '' @ p) (opt_list (nonempty_opt (od_password (oi_details item)))))\<rparr>)"

definition mapItemByCategory :: "OnePuxItem \<Rightarrow> VaultItemPlaintext importing" where
  "mapItemByCategory item =
     (let c = oi_categoryUuid item in
      if c = Some CATEGORY_LOGIN then rbind (mapLogin item) (\<lambda>p. Inr (Login p))
      else if c = Some CATEGORY_PASSWORD then rbind (mapPassword item) (\<lambda>p. Inr (Login p))
      else if c = Some CATEGORY_CREDIT_CARD then rbind (mapCreditCard item) (\<lambda>p. Inr (Card p))
      else if c = Some CATEGORY_SECURE_NOTE then rbind (mapSecureNote item) (\<lambda>p. Inr (Note p))
      else if c = Some CATEGORY_IDENTITY then rbind (mapIdentity item) (\<lambda>p. Inr (Identity p))
      else if c = Some CATEGORY_DATABASE then rbind (mapDatabase item) (\<lambda>p. Inr (Login p))
      else if c = Some CATEGORY_SSH_KEY_OLD \<or> c = Some CATEGORY_SSH_KEY then rbind (mapSshKey item) (\<lambda>p. Inr (SshKey p))
      else rbind (mapGenericToNote item) (\<lambda>p. Inr (Note p)))"

fun with_tags :: "string list \<Rightarrow> VaultItemPlaintext \<Rightarrow> VaultItemPlaintext" where
  "with_tags ts (Login p) = Login (p\<lparr>login_tags := Some ts\<rparr>)"
| "with_tags ts (Note p) = Note (p\<lparr>note_tags := Some ts\<rparr>)"
| "with_tags ts (Card p) = Card (p\<lparr>card_tags := Some ts\<rparr>)"
| "with_tags ts (Identity p) = Identity (p\<lparr>ident_tags := Some ts\<rparr>)"
| "with_tags ts (SshKey p) = SshKey (p\<lparr>ssh_tags := Some ts\<rparr>)"

definition item_tags :: "OnePuxItem \<Rightarrow> string list" where
  "item_tags item = filter (\<lambda>t. t \<noteq> '''') (map js_trim (orElse [] (oo_tags (oi_overview item))))"

definition mapItem :: "OnePuxItem \<Rightarrow> VaultItemPlaintext option importing" where
  "mapItem item =
     (if oi_trashed item = Some ''Y'' then Inr None
      else rbind (mapItemByCategory item) (\<lambda>mapped.
           Inr (Some (if item_tags item \<noteq> [] then with_tags (item_tags item) mapped else mapped))))"

section \<open>Public API\<close>

record ImportResult =
  ir_items :: "VaultItemPlaintext list"
  ir_skipped :: nat
  ir_vaultNames :: "string list"

fun import_items :: "OnePuxItem list \<Rightarrow> ImportResult \<Rightarrow> ImportResult importing" where
  "import_items [] r = Inr r"
| "import_items (i # is) r =
     rbind (mapItem i) (\<lambda>mapped.
     import_items is (case mapped of
        Some p \<Rightarrow> r\<lparr>ir_items := ir_items r @ [p]\<rparr>
      | None \<Rightarrow> r\<lparr>ir_skipped := ir_skipped r + 1\<rparr>))"

fun import_vaults :: "OnePuxVault list \<Rightarrow> ImportResult \<Rightarrow> ImportResult importing" where
  "import_vaults [] r = Inr r"
| "import_vaults (v # vs) r =
     rbind (import_items (orElse [] (vt_items v)) (r\<lparr>ir_vaultNames := ir_vaultNames r @ [vt_name v]\<rparr>)) (import_vaults vs)"

fun import_accounts :: "OnePuxAccount list \<Rightarrow> ImportResult \<Rightarrow> ImportResult importing" where
  "import_accounts [] r = Inr r"
| "import_accounts (a # as) r = rbind (import_vaults (orElse [] (at_vaults a)) r) (import_accounts as)"

definition import_export :: "OnePuxExport \<Rightarrow> ImportResult importing" where
  "import_export exported =
     import_accounts (orElse [] (ex_accounts exported)) \<lparr>ir_items = [], ir_skipped = 0, ir_vaultNames = []\<rparr>"

section \<open>Reading the JSON\<close>

text \<open>An optional member: absent or null is \<open>None\<close>; a member that may be null: absent, null or there.\<close>

definition jnullish :: "json \<Rightarrow> string \<Rightarrow> (json \<Rightarrow> 'a option) \<Rightarrow> 'a option option" where
  "jnullish j k f =
     (case json_get j k of None \<Rightarrow> Some None | Some JNull \<Rightarrow> Some None | Some v \<Rightarrow> map_option Some (f v))"

definition jmember :: "json \<Rightarrow> string \<Rightarrow> (json \<Rightarrow> 'a option) \<Rightarrow> 'a option option option" where
  "jmember j k f =
     (case json_get j k of None \<Rightarrow> Some None | Some JNull \<Rightarrow> Some (Some None) | Some v \<Rightarrow> map_option (\<lambda>x. Some (Some x)) (f v))"

fun jstring_of :: "json \<Rightarrow> string option" where
  "jstring_of (JStr s) = Some s"
| "jstring_of (JNum n) = Some (int_to_string n)"
| "jstring_of (JBool b) = Some (if b then ''true'' else ''false'')"
| "jstring_of _ = None"

fun jnull_or :: "(json \<Rightarrow> 'a option) \<Rightarrow> json \<Rightarrow> 'a option option" where
  "jnull_or f JNull = Some None"
| "jnull_or f j = map_option Some (f j)"

definition loginField_of_json :: "json \<Rightarrow> OnePuxLoginField option" where
  "loginField_of_json j =
     (case (jnullish j ''value'' jget_str, jnullish j ''designation'' jget_str) of
        (Some v, Some d) \<Rightarrow> Some \<lparr>lf_value = v, lf_designation = d\<rparr>
      | _ \<Rightarrow> None)"

definition address_of_json :: "json \<Rightarrow> OnePuxAddress option" where
  "address_of_json j =
     (case (jnullish j ''street'' jget_str, jstr j ''city'', jstr j ''country'', jnullish j ''zip'' jget_str, jnullish j ''state'' jget_str) of
        (Some st, Some ci, Some co, Some zp, Some sa) \<Rightarrow>
          Some \<lparr>oa_street = st, oa_city = ci, oa_country = co, oa_zip = zp, oa_state = sa\<rparr>
      | _ \<Rightarrow> None)"

definition sshKeyValue_of_json :: "json \<Rightarrow> OnePuxSshKey option" where
  "sshKeyValue_of_json j =
     (case j of
        JObj _ \<Rightarrow>
          (case (jnullish j ''privateKey'' jget_str, jnullish j ''publicKey'' jget_str) of
             (Some pr, Some pu) \<Rightarrow> Some \<lparr>ok_privateKey = pr, ok_publicKey = pu\<rparr>
           | _ \<Rightarrow> None)
      | _ \<Rightarrow> None)"

definition objectValue_of_json :: "json \<Rightarrow> ObjectValue option" where
  "objectValue_of_json j =
     (case (jmember j ''concealed'' jget_str, jmember j ''string'' jstring_of, jmember j ''email'' jget_str,
            jmember j ''url'' jget_str, jmember j ''phone'' jget_str, jmember j ''menu'' jget_str,
            jmember j ''cctype'' jget_str, jmember j ''monthYear'' jget_int, jmember j ''date'' jget_int,
            jfield_opt j ''address'' address_of_json, jfield_opt j ''sshKey'' sshKeyValue_of_json) of
        (Some a, Some b, Some c, Some d, Some e, Some f, Some g, Some h, Some i, Some k, Some l) \<Rightarrow>
          Some \<lparr>ov_concealed = a, ov_string = b, ov_email = c, ov_url = d, ov_phone = e, ov_menu = f, ov_cctype = g,
                ov_monthYear = h, ov_date = i, ov_address = k, ov_sshKey = l\<rparr>
      | _ \<Rightarrow> None)"

definition fieldValue_of_json :: "json option \<Rightarrow> FieldValue option" where
  "fieldValue_of_json v =
     (case v of
        Some (JStr s) \<Rightarrow> Some (StringValue s)
      | Some (JObj ms) \<Rightarrow> map_option ObjectFieldValue (objectValue_of_json (JObj ms))
      | _ \<Rightarrow> Some NoValue)"

definition sectionField_of_json :: "json \<Rightarrow> OnePuxSectionField option" where
  "sectionField_of_json j =
     (case (jstr j ''title'', jstr j ''id'', jnullish j ''kind'' jget_str, fieldValue_of_json (json_get j ''value'')) of
        (Some t, Some i, Some k, Some v) \<Rightarrow> Some \<lparr>sf_title = t, sf_id = i, sf_kind = k, sf_value = v\<rparr>
      | _ \<Rightarrow> None)"

definition section_of_json :: "json \<Rightarrow> OnePuxSection option" where
  "section_of_json j =
     (case (jnullish j ''title'' jget_str, jnullish j ''fields'' (jget_list sectionField_of_json)) of
        (Some t, Some fs) \<Rightarrow> Some \<lparr>se_title = t, se_fields = fs\<rparr>
      | _ \<Rightarrow> None)"

definition details_of_json :: "json \<Rightarrow> OnePuxDetails option" where
  "details_of_json j =
     (case (jnullish j ''loginFields'' (jget_list loginField_of_json), jnullish j ''notesPlain'' jget_str,
            jnullish j ''sections'' (jget_list section_of_json), jnullish j ''password'' jget_str) of
        (Some l, Some n, Some s, Some p) \<Rightarrow>
          Some \<lparr>od_loginFields = l, od_notesPlain = n, od_sections = s, od_password = p\<rparr>
      | _ \<Rightarrow> None)"

definition urlEntry_of_json :: "json \<Rightarrow> string option option" where
  "urlEntry_of_json j = (case j of JObj _ \<Rightarrow> jnullish j ''url'' jget_str | _ \<Rightarrow> None)"

definition overview_of_json :: "json \<Rightarrow> OnePuxOverview option" where
  "overview_of_json j =
     (case (jnullish j ''title'' jget_str, jnullish j ''url'' jget_str, jnullish j ''urls'' (jget_list urlEntry_of_json),
            jnullish j ''tags'' (jget_list jget_str)) of
        (Some t, Some u, Some us, Some tg) \<Rightarrow> Some \<lparr>oo_title = t, oo_url = u, oo_urls = us, oo_tags = tg\<rparr>
      | _ \<Rightarrow> None)"

definition onePuxItem_of_json :: "json \<Rightarrow> OnePuxItem option" where
  "onePuxItem_of_json j =
     (case (jnullish j ''trashed'' jget_str, jnullish j ''categoryUuid'' jget_str,
            jfield j ''details'' details_of_json, jfield j ''overview'' overview_of_json) of
        (Some t, Some c, Some d, Some ov) \<Rightarrow>
          Some \<lparr>oi_trashed = t, oi_categoryUuid = c, oi_details = d, oi_overview = ov\<rparr>
      | _ \<Rightarrow> None)"

definition onePuxVault_of_json :: "json \<Rightarrow> OnePuxVault option" where
  "onePuxVault_of_json j =
     (case (jfield j ''attrs'' (\<lambda>a. jstr a ''name''), jnullish j ''items'' (jget_list onePuxItem_of_json)) of
        (Some n, Some is) \<Rightarrow> Some \<lparr>vt_name = n, vt_items = is\<rparr>
      | _ \<Rightarrow> None)"

definition onePuxExport_of_json :: "json \<Rightarrow> OnePuxExport option" where
  "onePuxExport_of_json j =
     (case j of
        JObj _ \<Rightarrow>
          map_option (\<lambda>as. \<lparr>ex_accounts = as\<rparr>)
            (jnullish j ''accounts'' (jget_list (\<lambda>a. map_option (\<lambda>vs. \<lparr>at_vaults = vs\<rparr>)
               (jnullish a ''vaults'' (jget_list onePuxVault_of_json)))))
      | _ \<Rightarrow> None)"

definition parseOnePux :: "(bytes \<Rightarrow> string + (string \<times> bytes) list) \<Rightarrow> bytes \<Rightarrow> ImportResult importing" where
  "parseOnePux unzipSync file =
     (case unzipSync file of
        Inl e \<Rightarrow> Inl (UnzipError e)
      | Inr archive \<Rightarrow>
          (case map_of archive ''export.data'' of
             None \<Rightarrow> Inl MissingExportData
           | Some dataFile \<Rightarrow>
               rbind (of_option BadJson (Option.bind (utf8_decode dataFile) json_parse)) (\<lambda>json.
               rbind (of_option BadShape (onePuxExport_of_json json)) import_export)))"

section \<open>Nothing is lost\<close>

definition all_items :: "OnePuxExport \<Rightarrow> OnePuxItem list" where
  "all_items exported =
     concat (map (\<lambda>v. orElse [] (vt_items v)) (concat (map (\<lambda>a. orElse [] (at_vaults a)) (orElse [] (ex_accounts exported)))))"

definition trashed :: "OnePuxItem \<Rightarrow> bool" where
  "trashed i \<longleftrightarrow> oi_trashed i = Some ''Y''"

text \<open>What importing adds to a result: one item for each that is not in the trash, in order.\<close>

definition adds :: "OnePuxItem list \<Rightarrow> string list \<Rightarrow> ImportResult \<Rightarrow> ImportResult \<Rightarrow> bool" where
  "adds is names r r' \<longleftrightarrow> (\<exists>ps. ir_items r' = ir_items r @ ps \<and>
     list_all2 (\<lambda>i p. mapItem i = Inr (Some p)) (filter (\<lambda>i. \<not> trashed i) is) ps) \<and>
     ir_skipped r' = ir_skipped r + length (filter trashed is) \<and> ir_vaultNames r' = ir_vaultNames r @ names"

lemma adds_refl [simp]: "adds [] [] r r"
  by (simp add: adds_def)

lemma adds_trans: "adds is names r r1 \<Longrightarrow> adds is' names' r1 r2 \<Longrightarrow> adds (is @ is') (names @ names') r r2"
  by (auto simp: adds_def intro!: list_all2_appendI)

lemma mapItem_cases:
  "mapItem i = Inr q \<Longrightarrow> (trashed i \<and> q = None) \<or> (\<not> trashed i \<and> q \<noteq> None)"
  by (auto simp: mapItem_def trashed_def rbind_eq_Inr split: if_splits)

lemma import_items_adds: "import_items is r = Inr r' \<Longrightarrow> adds is [] r r'"
proof (induction "is" arbitrary: r)
  case (Cons i "is")
  obtain q where q: "mapItem i = Inr q" "import_items is (case q of
      Some p \<Rightarrow> r\<lparr>ir_items := ir_items r @ [p]\<rparr> | None \<Rightarrow> r\<lparr>ir_skipped := ir_skipped r + 1\<rparr>) = Inr r'"
    using Cons.prems by (auto simp: rbind_eq_Inr)
  have "adds [i] [] r (case q of Some p \<Rightarrow> r\<lparr>ir_items := ir_items r @ [p]\<rparr> | None \<Rightarrow> r\<lparr>ir_skipped := ir_skipped r + 1\<rparr>)"
    using mapItem_cases [OF q(1)] q(1) by (auto simp: adds_def)
  from adds_trans [OF this Cons.IH [OF q(2)]] show ?case by simp
qed simp

lemma import_vaults_adds:
  "import_vaults vs r = Inr r' \<Longrightarrow> adds (concat (map (\<lambda>v. orElse [] (vt_items v)) vs)) (map vt_name vs) r r'"
proof (induction vs arbitrary: r)
  case (Cons v vs)
  obtain r1 where r: "import_items (orElse [] (vt_items v)) (r\<lparr>ir_vaultNames := ir_vaultNames r @ [vt_name v]\<rparr>) = Inr r1"
    "import_vaults vs r1 = Inr r'" using Cons.prems by (auto simp: rbind_eq_Inr)
  have "adds (orElse [] (vt_items v)) [vt_name v] r r1"
    using import_items_adds [OF r(1)] by (simp add: adds_def)
  from adds_trans [OF this Cons.IH [OF r(2)]] show ?case by simp
qed simp

lemma import_accounts_adds:
  "import_accounts as r = Inr r' \<Longrightarrow>
   adds (concat (map (\<lambda>v. orElse [] (vt_items v)) (concat (map (\<lambda>a. orElse [] (at_vaults a)) as))))
     (map vt_name (concat (map (\<lambda>a. orElse [] (at_vaults a)) as))) r r'"
proof (induction as arbitrary: r)
  case (Cons a as)
  obtain r1 where r: "import_vaults (orElse [] (at_vaults a)) r = Inr r1" "import_accounts as r1 = Inr r'"
    using Cons.prems by (auto simp: rbind_eq_Inr)
  from adds_trans [OF import_vaults_adds [OF r(1)] Cons.IH [OF r(2)]] show ?case by simp
qed simp

lemma custom_fields_keep:
  "custom_fields hidden skip fs = Inr cfs \<Longrightarrow> f \<in> set fs \<Longrightarrow> sf_id f \<notin> set skip \<Longrightarrow> stringValue (sf_value f) = Inr v \<Longrightarrow> v \<noteq> '''' \<Longrightarrow>
   \<lparr>cf_name = js_or (sf_title f) (sf_id f), cf_value = v, cf_fieldType = (if hidden f then Hidden else Text)\<rparr> \<in> set cfs"
  by (induction fs arbitrary: cfs) (auto simp: rbind_eq_Inr split: if_splits)

lemma field_lines_keep:
  "field_lines fs = Inr ls \<Longrightarrow> f \<in> set fs \<Longrightarrow> stringValue (sf_value f) = Inr v \<Longrightarrow> v \<noteq> '''' \<Longrightarrow>
   sf_title f @ '': '' @ v \<in> set ls"
  by (induction fs arbitrary: ls) (auto simp: rbind_eq_Inr split: if_splits)

lemma generic_lines_keep:
  "generic_lines ss = Inr ls \<Longrightarrow> s \<in> set ss \<Longrightarrow> f \<in> set (orElse [] (se_fields s)) \<Longrightarrow> stringValue (sf_value f) = Inr v \<Longrightarrow> v \<noteq> '''' \<Longrightarrow>
   sf_title f @ '': '' @ v \<in> set ls"
proof (induction ss arbitrary: ls)
  case (Cons s' ss)
  then show ?case using field_lines_keep by (fastforce simp: rbind_eq_Inr)
qed simp

lemma sublist_inside: "sublist x y \<Longrightarrow> sublist x (a @ y)"
  by (metis append.assoc sublist_def)

lemma sublist_js_join: "x \<in> set xs \<Longrightarrow> sublist x (js_join sep xs)"
proof (induction sep xs rule: js_join.induct)
  case (3 sep y z xs)
  show ?case
  proof (cases "x = y")
    case False
    then have "sublist x (js_join sep (z # xs))" using 3 by simp
    then have "sublist x ((y @ sep) @ js_join sep (z # xs))" by (rule sublist_inside)
    then show ?thesis by simp
  qed simp
qed simp_all

text \<open>A text an imported item holds: the value of a custom field, or a part of a note.\<close>

definition holds_text :: "VaultItemPlaintext \<Rightarrow> string \<Rightarrow> bool" where
  "holds_text p v =
     (case p of
        Login l \<Rightarrow> v \<in> cf_value ` set (login_customFields l)
      | Note n \<Rightarrow> js_includes (note_content n) v
      | _ \<Rightarrow> False)"

text \<open>Categories whose items keep every field, and the fields that become other parts of the item.\<close>

definition structured :: "string list" where
  "structured = [CATEGORY_CREDIT_CARD, CATEGORY_IDENTITY, CATEGORY_SSH_KEY_OLD, CATEGORY_SSH_KEY]"

definition renamed_ids :: "OnePuxItem \<Rightarrow> string list" where
  "renamed_ids i =
     (if oi_categoryUuid i = Some CATEGORY_LOGIN then [''username'', ''password'']
      else if oi_categoryUuid i = Some CATEGORY_DATABASE then database_ids else [])"

definition keeps_fields :: "OnePuxItem \<Rightarrow> VaultItemPlaintext \<Rightarrow> bool" where
  "keeps_fields i p \<longleftrightarrow> (\<forall>f v. f \<in> set (section_fields (od_sections (oi_details i))) \<and> sf_id f \<notin> set (renamed_ids i) \<and>
     stringValue (sf_value f) = Inr v \<and> v \<noteq> '''' \<longrightarrow> holds_text p v)"

lemma holds_with_tags [simp]: "holds_text (with_tags ts p) v = holds_text p v"
  by (cases p) (simp_all add: holds_text_def)

lemma login_keeps:
  "custom_fields h skip fs = Inr (login_customFields l) \<Longrightarrow> f \<in> set fs \<Longrightarrow> sf_id f \<notin> set skip \<Longrightarrow>
   stringValue (sf_value f) = Inr v \<Longrightarrow> v \<noteq> '''' \<Longrightarrow> holds_text (Login l) v"
  by (drule (4) custom_fields_keep) (force simp: holds_text_def)

lemma note_keeps:
  assumes "t @ '': '' @ v \<in> set ls" "note_content n = js_join sep ls"
  shows "holds_text (Note n) v"
proof -
  have "sublist v ((t @ '': '') @ v)" by (rule sublist_inside) simp
  moreover have "sublist ((t @ '': '') @ v) (js_join sep ls)" using sublist_js_join [OF assms(1)] by simp
  ultimately have "sublist v (js_join sep ls)" by (rule sublist_order.order_trans)
  then show ?thesis using assms(2) by (simp add: holds_text_def js_includes_def)
qed

lemma category_codes [simp]:
  "CATEGORY_LOGIN \<noteq> CATEGORY_PASSWORD" "CATEGORY_LOGIN \<noteq> CATEGORY_DATABASE" "CATEGORY_LOGIN \<noteq> CATEGORY_SECURE_NOTE"
  "CATEGORY_LOGIN \<noteq> CATEGORY_CREDIT_CARD" "CATEGORY_LOGIN \<noteq> CATEGORY_IDENTITY" "CATEGORY_PASSWORD \<noteq> CATEGORY_LOGIN"
  "CATEGORY_PASSWORD \<noteq> CATEGORY_DATABASE" "CATEGORY_PASSWORD \<noteq> CATEGORY_SECURE_NOTE" "CATEGORY_PASSWORD \<noteq> CATEGORY_CREDIT_CARD"
  "CATEGORY_PASSWORD \<noteq> CATEGORY_IDENTITY" "CATEGORY_DATABASE \<noteq> CATEGORY_LOGIN" "CATEGORY_DATABASE \<noteq> CATEGORY_PASSWORD"
  "CATEGORY_DATABASE \<noteq> CATEGORY_SECURE_NOTE" "CATEGORY_DATABASE \<noteq> CATEGORY_CREDIT_CARD" "CATEGORY_DATABASE \<noteq> CATEGORY_IDENTITY"
  "CATEGORY_SECURE_NOTE \<noteq> CATEGORY_LOGIN" "CATEGORY_SECURE_NOTE \<noteq> CATEGORY_PASSWORD" "CATEGORY_SECURE_NOTE \<noteq> CATEGORY_DATABASE"
  "CATEGORY_SECURE_NOTE \<noteq> CATEGORY_CREDIT_CARD" "CATEGORY_SECURE_NOTE \<noteq> CATEGORY_IDENTITY" "CATEGORY_CREDIT_CARD \<noteq> CATEGORY_LOGIN"
  "CATEGORY_CREDIT_CARD \<noteq> CATEGORY_PASSWORD" "CATEGORY_CREDIT_CARD \<noteq> CATEGORY_DATABASE" "CATEGORY_CREDIT_CARD \<noteq> CATEGORY_SECURE_NOTE"
  "CATEGORY_CREDIT_CARD \<noteq> CATEGORY_IDENTITY" "CATEGORY_IDENTITY \<noteq> CATEGORY_LOGIN" "CATEGORY_IDENTITY \<noteq> CATEGORY_PASSWORD"
  "CATEGORY_IDENTITY \<noteq> CATEGORY_DATABASE" "CATEGORY_IDENTITY \<noteq> CATEGORY_SECURE_NOTE" "CATEGORY_IDENTITY \<noteq> CATEGORY_CREDIT_CARD"
  by (simp_all add: CATEGORY_LOGIN_def CATEGORY_PASSWORD_def CATEGORY_DATABASE_def CATEGORY_SECURE_NOTE_def CATEGORY_CREDIT_CARD_def CATEGORY_IDENTITY_def)

lemma mapped_keeps:
  assumes "mapItemByCategory i = Inr p" "\<forall>c \<in> set structured. oi_categoryUuid i \<noteq> Some c"
  shows "keeps_fields i p"
proof -
  let ?c = "oi_categoryUuid i" and ?fs = "section_fields (od_sections (oi_details i))"
  have c: "?c \<noteq> Some CATEGORY_CREDIT_CARD" "?c \<noteq> Some CATEGORY_IDENTITY" "?c \<noteq> Some CATEGORY_SSH_KEY_OLD" "?c \<noteq> Some CATEGORY_SSH_KEY"
    using assms(2) by (auto simp: structured_def)
  consider (login) "?c = Some CATEGORY_LOGIN" | (password) "?c = Some CATEGORY_PASSWORD"
    | (secure) "?c = Some CATEGORY_SECURE_NOTE" | (database) "?c = Some CATEGORY_DATABASE"
    | (other) "?c \<notin> Some ` {CATEGORY_LOGIN, CATEGORY_PASSWORD, CATEGORY_SECURE_NOTE, CATEGORY_DATABASE}" by blast
  then show ?thesis
  proof cases
    case login
    then obtain l where "p = Login l" "mapLogin i = Inr l" using assms(1) by (auto simp: mapItemByCategory_def rbind_eq_Inr)
    then show ?thesis using login
      by (auto simp: keeps_fields_def renamed_ids_def mapLogin_def Let_def rbind_eq_Inr intro!: login_keeps)
  next
    case password
    then obtain l where "p = Login l" "mapPassword i = Inr l" using assms(1) by (auto simp: mapItemByCategory_def rbind_eq_Inr)
    then show ?thesis using password
      by (auto simp: keeps_fields_def renamed_ids_def mapPassword_def Let_def rbind_eq_Inr intro!: login_keeps)
  next
    case database
    then obtain l where "p = Login l" "mapDatabase i = Inr l"
      using assms(1) c by (auto simp: mapItemByCategory_def rbind_eq_Inr Let_def split: if_splits)
    then show ?thesis using database
      by (auto simp: keeps_fields_def renamed_ids_def mapDatabase_def Let_def rbind_eq_Inr intro!: login_keeps)
  next
    case secure
    then obtain n where n: "p = Note n" "mapSecureNote i = Inr n"
      using assms(1) c by (auto simp: mapItemByCategory_def rbind_eq_Inr Let_def split: if_splits)
    then obtain ls where ls: "field_lines ?fs = Inr ls"
      "note_content n = js_join (NL @ NL) (filter (\<lambda>s. s \<noteq> '''') (orElse '''' (od_notesPlain (oi_details i)) # ls))"
      by (auto simp: mapSecureNote_def rbind_eq_Inr simp del: filter.simps)
    show ?thesis unfolding keeps_fields_def n(1)
    proof (intro allI impI)
      fix f v
      assume "f \<in> set ?fs \<and> sf_id f \<notin> set (renamed_ids i) \<and> stringValue (sf_value f) = Inr v \<and> v \<noteq> ''''"
      then have "sf_title f @ '': '' @ v \<in> set ls" using field_lines_keep [OF ls(1)] by blast
      then show "holds_text (Note n) v" using ls(2) by (intro note_keeps) auto
    qed
  next
    case other
    then obtain n where n: "p = Note n" "mapGenericToNote i = Inr n"
      using assms(1) c by (auto simp: mapItemByCategory_def rbind_eq_Inr Let_def split: if_splits)
    then obtain ls where ls: "generic_lines (orElse [] (od_sections (oi_details i))) = Inr ls"
      "\<exists>ls'. note_content n = js_join NL ls' \<and> set ls \<subseteq> set ls'"
      unfolding mapGenericToNote_def rbind_eq_Inr by fastforce
    show ?thesis unfolding keeps_fields_def n(1)
    proof (intro allI impI)
      fix f v
      assume f: "f \<in> set ?fs \<and> sf_id f \<notin> set (renamed_ids i) \<and> stringValue (sf_value f) = Inr v \<and> v \<noteq> ''''"
      then have "sf_title f @ '': '' @ v \<in> set ls"
        using generic_lines_keep [OF ls(1)] by (auto simp: section_fields_def)
      then show "holds_text (Note n) v" using ls(2) by (blast intro: note_keeps)
    qed
  qed
qed

lemma with_tags_name: "plain_name (with_tags ts p) = plain_name p" "plain_type (with_tags ts p) = plain_type p"
  "plain_tags (with_tags ts p) = Some ts"
  by (cases p; simp)+

lemma mapped_name:
  assumes "mapItemByCategory i = Inr p"
  shows "plain_name p = item_title i" "plain_tags p = None"
proof -
  have "plain_name p = item_title i \<and> plain_tags p = None"
    using assms
    by (simp only: mapItemByCategory_def Let_def split: if_splits)
       (auto simp: rbind_eq_Inr mapLogin_def mapPassword_def mapCreditCard_def mapSecureNote_def mapIdentity_def mapDatabase_def
          mapSshKey_def mapGenericToNote_def Let_def case_prod_beta)
  then show "plain_name p = item_title i" "plain_tags p = None" by blast+
qed

text \<open>An item and what it was imported as.\<close>

definition imported_as :: "OnePuxItem \<Rightarrow> VaultItemPlaintext \<Rightarrow> bool" where
  "imported_as i p \<longleftrightarrow> plain_name p = item_title i \<and>
     plain_tags p = (if item_tags i = [] then None else Some (item_tags i)) \<and>
     (oi_categoryUuid i \<notin> Some ` set structured \<longrightarrow> keeps_fields i p)"

lemma mapItem_imported: "mapItem i = Inr (Some p) \<Longrightarrow> imported_as i p"
proof -
  assume "mapItem i = Inr (Some p)"
  then obtain m where m: "mapItemByCategory i = Inr m" "p = (if item_tags i \<noteq> [] then with_tags (item_tags i) m else m)"
    by (auto simp: mapItem_def rbind_eq_Inr split: if_splits)
  have "oi_categoryUuid i \<notin> Some ` set structured \<Longrightarrow> keeps_fields i m" by (rule mapped_keeps [OF m(1)]) auto
  moreover have "keeps_fields i p = keeps_fields i m" using m(2) by (simp add: keeps_fields_def)
  ultimately show "imported_as i p" using m(2) mapped_name [OF m(1)] by (auto simp: imported_as_def with_tags_name)
qed


section \<open>A concrete archive\<close>

definition demo_field :: "string \<Rightarrow> string \<Rightarrow> json \<Rightarrow> json" where
  "demo_field i t v = JObj [(''title'', JStr t), (''id'', JStr i), (''value'', v)]"

definition demo_archived :: "string \<Rightarrow> string \<Rightarrow> json" where
  "demo_archived trash name =
     JObj [(''trashed'', JStr trash), (''categoryUuid'', JStr ''001''),
           (''details'', JObj [(''sections'', JArr [JObj [(''title'', JStr ''''), (''fields'',
              JArr [demo_field ''pin'' ''PIN'' (JObj [(''concealed'', JStr ''1234'')])])]])]),
           (''overview'', JObj [(''title'', JStr name), (''tags'', JArr [JStr '' work ''])])]"

definition demo_export :: json where
  "demo_export = JObj [(''accounts'', JArr [JObj [(''vaults'', JArr [JObj
     [(''attrs'', JObj [(''name'', JStr ''Private'')]), (''items'', JArr [demo_archived ''N'' ''Mail'', demo_archived ''Y'' ''Old''])]])]])]"

definition demo_unzip :: "bytes \<Rightarrow> string + (string \<times> bytes) list" where
  "demo_unzip file = Inr [(''export.data'', utf8_encode (json_print demo_export))]"

lemma demo_export_reads: "\<exists>e r. onePuxExport_of_json demo_export = Some e \<and> import_export e = Inr r \<and>
    map (oo_title \<circ> oi_overview) (filter (\<lambda>i. \<not> trashed i) (all_items e)) = [Some ''Mail'']"
proof -
  have "(case onePuxExport_of_json demo_export of None \<Rightarrow> False | Some e \<Rightarrow>
      \<not> (case import_export e of Inl _ \<Rightarrow> True | Inr _ \<Rightarrow> False) \<and>
      map (oo_title \<circ> oi_overview) (filter (\<lambda>i. \<not> trashed i) (all_items e)) = [Some ''Mail''])"
    unfolding trashed_def by code_simp
  then show ?thesis by (auto split: option.splits sum.splits)
qed


text \<open>
  A login of an export whose fields have no kind of their own, only the shape of their value: its hidden
  field is imported as visible text, while the same field of a password item stays hidden.
\<close>

definition pin_field :: OnePuxSectionField where
  "pin_field = \<lparr>sf_title = ''PIN'', sf_id = ''pin'', sf_kind = None, sf_value = ObjectFieldValue
     \<lparr>ov_concealed = Some (Some ''1234''), ov_string = None, ov_email = None, ov_url = None, ov_phone = None, ov_menu = None,
      ov_cctype = None, ov_monthYear = None, ov_date = None, ov_address = None, ov_sshKey = None\<rparr>\<rparr>"

definition pin_item :: OnePuxItem where
  "pin_item = \<lparr>oi_trashed = Some ''N'', oi_categoryUuid = None,
     oi_details = \<lparr>od_loginFields = None, od_notesPlain = None, od_sections = Some [\<lparr>se_title = None, se_fields = Some [pin_field]\<rparr>], od_password = None\<rparr>,
     oi_overview = \<lparr>oo_title = None, oo_url = None, oo_urls = None, oo_tags = None\<rparr>\<rparr>"

theorem concealed_login_field_shown:
  "(case mapLogin pin_item of Inl _ \<Rightarrow> [] | Inr l \<Rightarrow> map cf_fieldType (login_customFields l)) = [Text] \<and>
   (case mapPassword pin_item of Inl _ \<Rightarrow> [] | Inr l \<Rightarrow> map cf_fieldType (login_customFields l)) = [Hidden]"
  by code_simp

text \<open>A card keeps only the four fields it knows: its PIN is imported nowhere.\<close>

theorem card_pin_lost:
  "mapCreditCard pin_item = mapCreditCard (pin_item\<lparr>oi_details := (oi_details pin_item)\<lparr>od_sections := None\<rparr>\<rparr>)"
  by code_simp

end
