(* ===== verification/Vault_Model.thy ===== *)
theory Vault_Model
  imports Vault_Types Js_Map Js_Sort Url_Match
begin

text \<open>
  The pure helpers of the vault list (apps/web/src/components/vault/vault-model.ts): search, filters, the
  second line of a row, the secret a row copies, how often a password is used and the sort orders. The
  URL parser and the locale's collation are parameters; the four bullets before a card's last digits are
  written as asterisks.
\<close>

section \<open>Search\<close>

definition TYPE_ORDER :: "VaultItemType list" where
  "TYPE_ORDER = [''login'', ''note'', ''card'', ''identity'', ''ssh_key'']"

definition TYPE_PLURAL :: "(VaultItemType \<times> string) list" where
  "TYPE_PLURAL = [(''login'', ''Logins''), (''note'', ''Notes''), (''card'', ''Cards''), (''identity'', ''Identities''), (''ssh_key'', ''SSH keys'')]"

definition TYPE_SINGULAR :: "(VaultItemType \<times> string) list" where
  "TYPE_SINGULAR = [(''login'', ''Login''), (''note'', ''Note''), (''card'', ''Card''), (''identity'', ''Identity''), (''ssh_key'', ''SSH key'')]"

text \<open>\<open>/^[a-z][a-z0-9+.-]*:\/\//i\<close>.\<close>

definition letter_char :: "char \<Rightarrow> bool" where
  "letter_char c = (let n = code (js_lower_char c) in 97 \<le> n \<and> n \<le> 122)"

definition scheme_char :: "char \<Rightarrow> bool" where
  "scheme_char c = (letter_char c \<or> is_digit_char c \<or> c \<in> set ''+.-'')"

definition has_scheme :: "string \<Rightarrow> bool" where
  "has_scheme s = (s \<noteq> [] \<and> letter_char (hd s) \<and> startsWith (dropWhile scheme_char s) ''://'')"

definition hostOf :: "web \<Rightarrow> string option \<Rightarrow> string option" where
  "hostOf W url =
     (case nonempty_opt url of
        None \<Rightarrow> None
      | Some u \<Rightarrow>
          let trimmed = js_trim u in
          if trimmed = '''' then None
          else nonempty_opt (map_option url_hostname (new_URL W (if has_scheme trimmed then trimmed else ''https://'' @ trimmed))))"

definition notesOf :: "VaultItemPlaintext \<Rightarrow> string" where
  "notesOf p =
     (case p of
        Login l \<Rightarrow> (case login_notes l of None \<Rightarrow> '''' | Some n \<Rightarrow> n)
      | Note n \<Rightarrow> note_content n
      | Card c \<Rightarrow> (case card_notes c of None \<Rightarrow> '''' | Some n \<Rightarrow> n)
      | SshKey k \<Rightarrow> (case ssh_notes k of None \<Rightarrow> '''' | Some n \<Rightarrow> n)
      | Identity _ \<Rightarrow> '''')"

definition searchableText :: "web \<Rightarrow> VaultItemPlaintext \<Rightarrow> string list" where
  "searchableText W p =
     plain_name p # (case plain_tags p of None \<Rightarrow> [] | Some ts \<Rightarrow> ts) @ [notesOf p] @
     (case p of
        Login l \<Rightarrow> login_username l # map (\<lambda>u. case hostOf W (Some u) of None \<Rightarrow> u | Some h \<Rightarrow> h) (login_urls l)
      | _ \<Rightarrow> [])"

text \<open>\<open>split(/\s+/).filter(Boolean)\<close>: the words of a text.\<close>

fun js_words :: "string \<Rightarrow> string list" where
  "js_words [] = []"
| "js_words (c # r) =
     (if js_space c then js_words r
      else case r of
          [] \<Rightarrow> [[c]]
        | d # _ \<Rightarrow> if js_space d then [c] # js_words r
                   else (case js_words r of [] \<Rightarrow> [[c]] | w # ws \<Rightarrow> (c # w) # ws))"

definition matchesQuery :: "web \<Rightarrow> VaultItemPlaintext \<Rightarrow> string \<Rightarrow> bool" where
  "matchesQuery W p query =
     (let terms = js_words (toLowerCase query); haystack = map toLowerCase (searchableText W p) in
      list_all (\<lambda>term. list_ex (\<lambda>field. js_includes field term) haystack) terms)"

section \<open>Filters\<close>

datatype Filter = AllItems | Favorites | OfType VaultItemType

record FilterState =
  fs_vaultId :: "string option"
  fs_filter :: Filter
  fs_tag :: "string option"
  fs_query :: string
  fs_reviewIds :: "string list option"
  fs_favorites :: "string list"

definition item_shown :: "web \<Rightarrow> (string \<times> VaultItemPlaintext) list \<Rightarrow> FilterState \<Rightarrow> EncryptedVaultItem \<Rightarrow> bool" where
  "item_shown W plaintexts state item =
     (if (case nonempty_opt (fs_vaultId state) of None \<Rightarrow> False | Some v \<Rightarrow> ev_vaultId item \<noteq> v) then False
      else if fs_filter state = Favorites \<and> ev_id item \<notin> set (fs_favorites state) then False
      else if (case fs_filter state of OfType t \<Rightarrow> ev_itemType item \<noteq> t | _ \<Rightarrow> False) then False
      else if (case fs_reviewIds state of None \<Rightarrow> False | Some ids \<Rightarrow> ev_id item \<notin> set ids) then False
      else
        let plain = map_of plaintexts (ev_id item) in
        if (case nonempty_opt (fs_tag state) of
              None \<Rightarrow> False
            | Some t \<Rightarrow> \<not> (case Option.bind plain plain_tags of
                  None \<Rightarrow> False | Some ts \<Rightarrow> list_ex (\<lambda>x. toLowerCase x = toLowerCase t) ts)) then False
        else if js_trim (fs_query state) \<noteq> '''' then
          (case plain of None \<Rightarrow> False | Some p \<Rightarrow> matchesQuery W p (fs_query state))
        else True)"

definition filterItems ::
  "web \<Rightarrow> EncryptedVaultItem list \<Rightarrow> (string \<times> VaultItemPlaintext) list \<Rightarrow> FilterState \<Rightarrow> EncryptedVaultItem list" where
  "filterItems W items plaintexts state = filter (item_shown W plaintexts state) items"

section \<open>Rows\<close>

definition or_text :: "string \<Rightarrow> string \<Rightarrow> string" where
  "or_text a b = (if a = '''' then b else a)"

definition last_digits :: "string \<Rightarrow> string" where
  "last_digits s = drop (length s - 4) s"

definition itemSubtitle :: "web \<Rightarrow> VaultItemPlaintext \<Rightarrow> string" where
  "itemSubtitle W p =
     (case p of
        Login l \<Rightarrow>
          or_text (login_username l)
            (case hostOf W (case login_urls l of [] \<Rightarrow> None | u # _ \<Rightarrow> Some u) of None \<Rightarrow> '''' | Some h \<Rightarrow> h)
      | Card c \<Rightarrow>
          (let digits = filter is_digit_char (card_number c) in
           if digits = '''' then '''' else ''**** '' @ last_digits digits)
      | Note n \<Rightarrow> take 60 (hd (js_split (CHR 0x0A) (note_content n)))
      | Identity i \<Rightarrow>
          or_text (ident_email i) (js_join '' '' (filter (\<lambda>s. s \<noteq> '''') [ident_firstName i, ident_lastName i]))
      | SshKey k \<Rightarrow>
          or_text (case ssh_comment k of None \<Rightarrow> '''' | Some c \<Rightarrow> c)
            (case ssh_publicKey k of None \<Rightarrow> '''' | Some s \<Rightarrow> takeWhile (\<lambda>c. \<not> js_space c) s))"

record QuickCopy =
  qc_label :: string
  qc_noun :: string
  qc_value :: string

definition quick :: "string \<Rightarrow> string \<Rightarrow> string \<Rightarrow> QuickCopy option \<Rightarrow> QuickCopy option" where
  "quick label noun v alternative =
     (if v = '''' then alternative else Some \<lparr>qc_label = label, qc_noun = noun, qc_value = v\<rparr>)"

definition primaryCopy :: "VaultItemPlaintext \<Rightarrow> QuickCopy option" where
  "primaryCopy p =
     (case p of
        Login l \<Rightarrow>
          quick ''Copy password'' ''Password'' (login_password l)
            (quick ''Copy username'' ''Username'' (login_username l) None)
      | Card c \<Rightarrow> quick ''Copy card number'' ''Card number'' (card_number c) None
      | SshKey k \<Rightarrow> quick ''Copy public key'' ''Public key'' (case ssh_publicKey k of None \<Rightarrow> '''' | Some s \<Rightarrow> s) None
      | Identity i \<Rightarrow> quick ''Copy email'' ''Email'' (ident_email i) None
      | Note _ \<Rightarrow> None)"

section \<open>Password reuse\<close>

definition count_step :: "VaultItemPlaintext \<Rightarrow> (string \<times> nat) list \<Rightarrow> (string \<times> nat) list" where
  "count_step p counts =
     (case p of
        Login l \<Rightarrow>
          let pw = login_password l in
          if pw = '''' then counts
          else js_set pw ((case map_of counts pw of None \<Rightarrow> 0 | Some n \<Rightarrow> n) + 1) counts
      | _ \<Rightarrow> counts)"

definition passwordUseCounts :: "VaultItemPlaintext list \<Rightarrow> (string \<times> nat) list" where
  "passwordUseCounts plaintexts = fold count_step plaintexts []"

section \<open>Sorting\<close>

datatype SortKey = ByName | ByUpdated | ByCreated

definition SORT_LABELS :: "SortKey \<Rightarrow> string" where
  "SORT_LABELS k = (case k of ByName \<Rightarrow> ''Name'' | ByUpdated \<Rightarrow> ''Recently updated'' | ByCreated \<Rightarrow> ''Recently added'')"

text \<open>\<open>localeCompare\<close>, with base sensitivity and without.\<close>

record collation =
  compareBase :: "string \<Rightarrow> string \<Rightarrow> int"
  compareText :: "string \<Rightarrow> string \<Rightarrow> int"

definition nameOf :: "(string \<times> VaultItemPlaintext) list \<Rightarrow> EncryptedVaultItem \<Rightarrow> string" where
  "nameOf plaintexts i = (case map_of plaintexts (ev_id i) of None \<Rightarrow> '''' | Some p \<Rightarrow> plain_name p)"

definition sort_compare :: "collation \<Rightarrow> (string \<times> VaultItemPlaintext) list \<Rightarrow> SortKey \<Rightarrow> EncryptedVaultItem \<Rightarrow> EncryptedVaultItem \<Rightarrow> int" where
  "sort_compare L plaintexts order a b =
     (case order of
        ByName \<Rightarrow> compareBase L (nameOf plaintexts a) (nameOf plaintexts b)
      | ByUpdated \<Rightarrow> compareText L (ev_updatedAt b) (ev_updatedAt a)
      | ByCreated \<Rightarrow> compareText L (ev_createdAt b) (ev_createdAt a))"

definition sortItems :: "collation \<Rightarrow> EncryptedVaultItem list \<Rightarrow> (string \<times> VaultItemPlaintext) list \<Rightarrow> SortKey \<Rightarrow> EncryptedVaultItem list" where
  "sortItems L items plaintexts order = js_sort (sort_compare L plaintexts order) items"

section \<open>What the list shows\<close>

lemma comparator_pull: "comparator cmp \<Longrightarrow> comparator (\<lambda>a b. cmp (f a) (f b))"
  "comparator cmp \<Longrightarrow> comparator (\<lambda>a b. cmp (f b) (f a))"
  unfolding comparator_def by (blast, metis linorder_not_le)

lemma sort_compare_comparator:
  assumes "comparator (compareBase L)" "comparator (compareText L)"
  shows "comparator (sort_compare L plaintexts order)"
  using comparator_pull(1) [OF assms(1), of "nameOf plaintexts"]
    comparator_pull(2) [OF assms(2), of ev_updatedAt] comparator_pull(2) [OF assms(2), of ev_createdAt]
  by (cases order) (simp_all add: sort_compare_def [abs_def])

text \<open>
  The list shows the items that pass the filters, each as often as it is there, in the order asked for,
  and items that compare equal keep the order they had.
\<close>

theorem shown_list:
  assumes "comparator (compareBase L)" "comparator (compareText L)"
  shows "mset (sortItems L (filterItems W items plaintexts state) plaintexts order) = filter_mset (item_shown W plaintexts state) (mset items) \<and>
    sorted_wrt (\<lambda>a b. sort_compare L plaintexts order a b \<le> 0) (sortItems L (filterItems W items plaintexts state) plaintexts order) \<and>
    filter (\<lambda>i. sort_compare L plaintexts order i e = 0) (sortItems L (filterItems W items plaintexts state) plaintexts order) =
      filter (\<lambda>i. sort_compare L plaintexts order i e = 0) (filterItems W items plaintexts state)"
  using sorted_js_sort [OF sort_compare_comparator [OF assms]] js_sort_stable [OF sort_compare_comparator [OF assms]]
  by (simp add: sortItems_def filterItems_def)

text \<open>The counts are those of the logins with a password.\<close>

definition uses :: "string \<Rightarrow> VaultItemPlaintext list \<Rightarrow> nat" where
  "uses pw ps = length (filter (\<lambda>p. case p of Login l \<Rightarrow> login_password l = pw | _ \<Rightarrow> False) ps)"

lemma passwordUseCounts_correct:
  "map_of (passwordUseCounts ps) pw = (if pw = '''' \<or> uses pw ps = 0 then None else Some (uses pw ps))"
proof -
  have "map_of (fold count_step ps m) pw =
      (if pw = '''' \<or> uses pw ps = 0 then map_of m pw
       else Some ((case map_of m pw of None \<Rightarrow> 0 | Some n \<Rightarrow> n) + uses pw ps))" for m
  proof (induction ps arbitrary: m)
    case (Cons p ps)
    show ?case
    proof (cases p)
      case (Login l)
      then show ?thesis
        using Cons [of "count_step p m"] by (auto simp: count_step_def Let_def uses_def split: option.splits)
    qed (use Cons in \<open>simp_all add: count_step_def uses_def\<close>)
  qed (simp add: uses_def)
  then show ?thesis by (simp add: passwordUseCounts_def)
qed

end
