(* ===== verification/Vault_Store.thy ===== *)
theory Vault_Store
  imports Local_Trust Kdf
begin

text \<open>
  The central store of the user interfaces (packages/ui/src/store/vault-store.ts): the session, the keys,
  the items and the favorites, one definition per action, and the copying of secrets with its timers. The
  store and \<open>localStorage\<close> are explicit; the time an item is deleted at is an argument. The clipboard is a
  text that other programs may change between our steps, and whether it may be read or written is part of
  each step.
\<close>

section \<open>The store\<close>

record NopassStore =
  st_sessionToken :: "string option"
  st_userId :: "string option"
  st_defaultVaultId :: "string option"
  st_vaultEncKey :: "CryptoKey option"
  st_vaultMacKey :: "CryptoKey option"
  st_email :: "string option"
  st_kdfParams :: "KdfParams option"
  st_stretchedMasterKey :: "CryptoKey option"
  st_protectedPrivateKey :: "string option"
  st_protectedPrivateKeyIv :: "string option"
  st_items :: "EncryptedVaultItem list"
  st_isLoading :: bool
  st_lastSyncAt :: "string option"
  st_favorites :: "string list"

definition FAVORITES_STORAGE_KEY :: string where "FAVORITES_STORAGE_KEY = ''nopass:favorites''"

definition loadFavorites :: "LocalStorage option \<Rightarrow> string list" where
  "loadFavorites storage =
     (case as_strings (readJson storage FAVORITES_STORAGE_KEY (JArr [])) of None \<Rightarrow> [] | Some ids \<Rightarrow> js_set_new ids)"

definition saveFavorites :: "string list \<Rightarrow> LocalStorage option \<Rightarrow> LocalStorage option" where
  "saveFavorites ids storage = writeJson FAVORITES_STORAGE_KEY (strings_json ids) storage"

definition new_store :: "LocalStorage option \<Rightarrow> NopassStore" where
  "new_store storage =
     \<lparr>st_sessionToken = None, st_userId = None, st_defaultVaultId = None, st_vaultEncKey = None, st_vaultMacKey = None,
      st_email = None, st_kdfParams = None, st_stretchedMasterKey = None, st_protectedPrivateKey = None,
      st_protectedPrivateKeyIv = None, st_items = [], st_isLoading = False, st_lastSyncAt = None,
      st_favorites = loadFavorites storage\<rparr>"

definition setSession :: "LoginResponse \<Rightarrow> string \<Rightarrow> DerivedKeys \<Rightarrow> NopassStore \<Rightarrow> NopassStore" where
  "setSession auth email keys s =
     s\<lparr>st_sessionToken := Some (lr_sessionToken auth), st_userId := Some (lr_userId auth),
       st_defaultVaultId := Some (lr_defaultVaultId auth), st_email := Some email,
       st_vaultEncKey := Some (dk_vaultEncKey keys), st_vaultMacKey := Some (dk_vaultMacKey keys),
       st_stretchedMasterKey := Some (dk_stretchedMasterKey keys), st_kdfParams := None,
       st_protectedPrivateKey := lr_protectedPrivateKey auth, st_protectedPrivateKeyIv := lr_protectedPrivateKeyIv auth\<rparr>"

definition lock :: "NopassStore \<Rightarrow> NopassStore" where
  "lock s =
     s\<lparr>st_vaultEncKey := None, st_vaultMacKey := None, st_stretchedMasterKey := None, st_protectedPrivateKey := None,
       st_protectedPrivateKeyIv := None, st_items := [], st_lastSyncAt := None\<rparr>"

definition setKeyPair :: "string \<Rightarrow> string \<Rightarrow> NopassStore \<Rightarrow> NopassStore" where
  "setKeyPair key iv s = s\<lparr>st_protectedPrivateKey := Some key, st_protectedPrivateKeyIv := Some iv\<rparr>"

definition upsertItem :: "EncryptedVaultItem \<Rightarrow> NopassStore \<Rightarrow> NopassStore" where
  "upsertItem item s =
     s\<lparr>st_items :=
        if list_ex (\<lambda>i. ev_id i = ev_id item) (st_items s)
        then map (\<lambda>i. if ev_id i = ev_id item then item else i) (st_items s)
        else st_items s @ [item]\<rparr>"

definition markDeleted :: "string \<Rightarrow> string \<Rightarrow> NopassStore \<Rightarrow> NopassStore" where
  "markDeleted now itemId s =
     s\<lparr>st_items := map (\<lambda>i. if ev_id i = itemId then i\<lparr>ev_deletedAt := Some now\<rparr> else i) (st_items s)\<rparr>"

definition toggled :: "string \<Rightarrow> string list \<Rightarrow> string list" where
  "toggled itemId favorites = (if itemId \<in> set favorites then filter (\<lambda>i. i \<noteq> itemId) favorites else favorites @ [itemId])"

datatype StoreAction =
    SetSession LoginResponse string DerivedKeys
  | Lock
  | SetKeyPair string string
  | SetItems "EncryptedVaultItem list"
  | UpsertItem EncryptedVaultItem
  | MarkDeleted string string
  | SetLoading bool
  | SetLastSyncAt string
  | SetDefaultVaultId string
  | ToggleFavorite string

fun store_step :: "StoreAction \<Rightarrow> NopassStore \<times> LocalStorage option \<Rightarrow> NopassStore \<times> LocalStorage option" where
  "store_step (SetSession auth email keys) (s, ls) = (setSession auth email keys s, ls)"
| "store_step Lock (s, ls) = (lock s, ls)"
| "store_step (SetKeyPair key iv) (s, ls) = (setKeyPair key iv s, ls)"
| "store_step (SetItems items) (s, ls) = (s\<lparr>st_items := items\<rparr>, ls)"
| "store_step (UpsertItem item) (s, ls) = (upsertItem item s, ls)"
| "store_step (MarkDeleted now itemId) (s, ls) = (markDeleted now itemId s, ls)"
| "store_step (SetLoading b) (s, ls) = (s\<lparr>st_isLoading := b\<rparr>, ls)"
| "store_step (SetLastSyncAt ts) (s, ls) = (s\<lparr>st_lastSyncAt := Some ts\<rparr>, ls)"
| "store_step (SetDefaultVaultId i) (s, ls) = (s\<lparr>st_defaultVaultId := Some i\<rparr>, ls)"
| "store_step (ToggleFavorite itemId) (s, ls) =
     (let next = toggled itemId (st_favorites s) in (s\<lparr>st_favorites := next\<rparr>, saveFavorites next ls))"

definition isFavorite :: "string \<Rightarrow> NopassStore \<Rightarrow> bool" where
  "isFavorite itemId s \<longleftrightarrow> itemId \<in> set (st_favorites s)"

definition isUnlocked :: "NopassStore \<Rightarrow> bool" where
  "isUnlocked s \<longleftrightarrow> st_vaultEncKey s \<noteq> None"

definition activeItems :: "NopassStore \<Rightarrow> EncryptedVaultItem list" where
  "activeItems s = filter (\<lambda>i. ev_deletedAt i = None) (st_items s)"

definition itemsByType :: "VaultItemType \<Rightarrow> NopassStore \<Rightarrow> EncryptedVaultItem list" where
  "itemsByType t s = filter (\<lambda>i. ev_itemType i = t) (activeItems s)"

section \<open>The clipboard\<close>

record Clipboard =
  cb_text :: string
  cb_timers :: "string list"

text \<open>
  \<open>copyWithAutoClear\<close> up to its return, with whether the clipboard may be written, and one of its timers
  going off, with whether the clipboard may be read and written then.
\<close>

definition copyWithAutoClear :: "string \<Rightarrow> bool \<Rightarrow> Clipboard \<Rightarrow> bool \<times> Clipboard" where
  "copyWithAutoClear copied writable c =
     (if writable then (True, c\<lparr>cb_text := copied, cb_timers := cb_timers c @ [copied]\<rparr>) else (False, c))"

definition timer_fires :: "nat \<Rightarrow> bool \<Rightarrow> bool \<Rightarrow> Clipboard \<Rightarrow> Clipboard" where
  "timer_fires n readable writable c =
     (if length (cb_timers c) \<le> n then c
      else
        let t = cb_timers c ! n; c' = c\<lparr>cb_timers := take n (cb_timers c) @ drop (Suc n) (cb_timers c)\<rparr> in
        if readable \<and> cb_text c = t \<and> writable then c'\<lparr>cb_text := ''''\<rparr> else c')"

text \<open>What happens to the clipboard: our copies, our timers, and texts of others.\<close>

datatype ClipEvent = Copies string bool | Fires nat bool bool | OthersCopy string

fun clip_step :: "ClipEvent \<Rightarrow> Clipboard \<Rightarrow> Clipboard" where
  "clip_step (Copies t w) c = snd (copyWithAutoClear t w c)"
| "clip_step (Fires n r w) c = timer_fires n r w c"
| "clip_step (OthersCopy t) c = c\<lparr>cb_text := t\<rparr>"

section \<open>Keys and locking\<close>

definition keys_agree :: "NopassStore \<Rightarrow> bool" where
  "keys_agree s \<longleftrightarrow> (st_vaultEncKey s = None \<longleftrightarrow> st_vaultMacKey s = None) \<and> (st_vaultEncKey s = None \<longleftrightarrow> st_stretchedMasterKey s = None)"

definition no_keys :: "NopassStore \<Rightarrow> bool" where
  "no_keys s \<longleftrightarrow> st_vaultEncKey s = None \<and> st_vaultMacKey s = None \<and> st_stretchedMasterKey s = None"

definition opens_session :: "StoreAction \<Rightarrow> bool" where
  "opens_session a \<longleftrightarrow> (case a of SetSession _ _ _ \<Rightarrow> True | _ \<Rightarrow> False)"

lemmas store_defs = setSession_def lock_def setKeyPair_def upsertItem_def markDeleted_def

lemma step_keys:
  assumes "store_step a (s, ls) = (s', ls')"
  shows "keys_agree s \<Longrightarrow> keys_agree s'" "no_keys s \<Longrightarrow> \<not> opens_session a \<Longrightarrow> no_keys s'"
    "distinct (st_favorites s) \<Longrightarrow> distinct (st_favorites s')"
  using assms by (cases a; auto simp: store_defs keys_agree_def no_keys_def opens_session_def toggled_def Let_def)+

lemma run_keys:
  assumes "fold store_step as (s, ls) = (s', ls')"
  shows "keys_agree s \<Longrightarrow> keys_agree s'" "no_keys s \<Longrightarrow> \<forall>a \<in> set as. \<not> opens_session a \<Longrightarrow> no_keys s'"
proof -
  have "(keys_agree s \<longrightarrow> keys_agree s') \<and> (no_keys s \<longrightarrow> (\<forall>a \<in> set as. \<not> opens_session a) \<longrightarrow> no_keys s')"
    using assms
  proof (induction as arbitrary: s ls)
    case (Cons a as)
    obtain s1 ls1 where "store_step a (s, ls) = (s1, ls1)" by (rule prod.exhaust)
    then show ?case using Cons step_keys by fastforce
  qed auto
  then show "keys_agree s \<Longrightarrow> keys_agree s'" "no_keys s \<Longrightarrow> \<forall>a \<in> set as. \<not> opens_session a \<Longrightarrow> no_keys s'" by blast+
qed

text \<open>
  Locking holds: in every run of the store the three keys are there together or not at all, and after
  a lock, which empties the list of items, none of them comes back until a session is set again.
\<close>

theorem lock_discards_keys:
  assumes "fold store_step before (new_store ls0, ls0) = (s, ls)" "fold store_step later (store_step Lock (s, ls)) = (s', ls')"
    and "\<forall>a \<in> set later. \<not> opens_session a"
  shows "keys_agree s \<and> no_keys s' \<and> \<not> isUnlocked s' \<and> st_items (fst (store_step Lock (s, ls))) = []"
proof -
  have "keys_agree (new_store ls0)" by (simp add: new_store_def keys_agree_def)
  then have "keys_agree s" using run_keys(1) [OF assms(1)] by blast
  moreover have "no_keys (lock s)" by (simp add: lock_def no_keys_def)
  then have "no_keys s'" using run_keys(2) [of later "lock s" ls s' ls'] assms(2,3) by simp
  ultimately show ?thesis by (simp add: no_keys_def isUnlocked_def lock_def)
qed

theorem lock_discards_keys_witness:
  "\<exists>s ls. fold store_step [SetLoading True] (new_store None, None) = (s, ls) \<and> no_keys (fst (store_step Lock (s, ls)))"
proof -
  obtain s ls where r: "fold store_step [SetLoading True] (new_store None, None) = (s, ls)" by (rule prod.exhaust)
  have "fold store_step [] (store_step Lock (s, ls)) = (lock s, ls)" by simp
  from lock_discards_keys [OF r this] show ?thesis using r by (auto simp: no_keys_def)
qed

section \<open>Copied secrets\<close>

lemma remove_nth:
  assumes "n < length xs" "x \<in> set xs" "x \<noteq> xs ! n"
  shows "x \<in> set (take n xs @ drop (Suc n) xs)"
  using assms by (subst (asm) (2) id_take_nth_drop [OF assms(1)]) auto

text \<open>
  A copied secret does not stay: whatever is copied here and by other programs in between, once every
  timer of a secret has gone off with the clipboard readable and writable, the clipboard does not hold the
  secret, unless another program put it there; and a timer never clears a text that is not its own.
\<close>

theorem copied_secret_is_cleared:
  assumes "secret \<noteq> ''''" "cb_text c \<noteq> secret" "secret \<notin> set (cb_timers (fold clip_step es c))"
    and "\<forall>e \<in> set es. case e of Fires n r w \<Rightarrow> r \<and> w | OthersCopy t \<Rightarrow> t \<noteq> secret | Copies t w \<Rightarrow> True"
  shows "cb_text (fold clip_step es c) \<noteq> secret \<and>
    (\<forall>n r w d. cb_text (timer_fires n r w d) \<noteq> cb_text d \<longrightarrow> n < length (cb_timers d) \<and> cb_text d = cb_timers d ! n)"
proof -
  have "cb_text c = secret \<longrightarrow> secret \<in> set (cb_timers c) \<Longrightarrow>
      cb_text (fold clip_step es c) = secret \<longrightarrow> secret \<in> set (cb_timers (fold clip_step es c))"
    using assms(4)
  proof (induction es arbitrary: c)
    case (Cons e es)
    have "cb_text (clip_step e c) = secret \<longrightarrow> secret \<in> set (cb_timers (clip_step e c))"
    proof (cases e)
      case (Fires n r w)
      then show ?thesis
        using Cons.prems assms(1) remove_nth [of n "cb_timers c" secret]
        by (auto simp: timer_fires_def Let_def)
    qed (use Cons.prems in \<open>auto simp: copyWithAutoClear_def\<close>)
    then show ?case using Cons by simp
  qed simp
  then show ?thesis using assms(2,3) by (auto simp: timer_fires_def Let_def split: if_splits)
qed

theorem copied_secret_is_cleared_witness:
  "cb_text (fold clip_step [Copies ''pw'' True, OthersCopy ''hello'', Copies ''pw'' True, Fires 0 True True, Fires 0 True True]
     \<lparr>cb_text = '''', cb_timers = []\<rparr>) \<noteq> ''pw''"
  using copied_secret_is_cleared [of "''pw''" "\<lparr>cb_text = '''', cb_timers = []\<rparr>"
      "[Copies ''pw'' True, OthersCopy ''hello'', Copies ''pw'' True, Fires 0 True True, Fires 0 True True]"]
  by (simp add: copyWithAutoClear_def timer_fires_def)

end
