(* ===== verification/Ui_Handlers.thy ===== *)
theory Ui_Handlers
  imports Prelude Api_Types
begin

text \<open>
  Event handlers of React components: functions on the server's state \<open>'v\<close> and the component's state
  \<open>'p\<close>. A handler reads the state of the render it belongs to and runs to its end before the next one;
  the server is the state an API record works on, and any answer of it is possible.

  \<open>preserves\<close> says that a part of a handler keeps an invariant of the component, whatever the server
  does, and is proved part by part; \<open>ui_component\<close> is the contract of a component whose errors are
  shown to the user.
\<close>

section \<open>Handlers\<close>

text \<open>What is shown to the user: a text of the component, or the message of an exception.\<close>

datatype UiMessage = Words string | MessageOf js_error

type_synonym ('v, 'p, 'a) handler = "('v \<times> 'p, js_error, 'a) io"

definition serve :: "('v, js_error, 'a) io \<Rightarrow> ('v, 'p, 'a) handler" where
  "serve m = (\<lambda>(v, p). case m v of (r, v') \<Rightarrow> (r, (v', p)))"

definition upd :: "('p \<Rightarrow> 'p) \<Rightarrow> ('v, 'p, unit) handler" where
  "upd f = (\<lambda>(v, p). (Inr (), (v, f p)))"

definition run :: "('v \<times> 'p \<Rightarrow> 'v \<times> 'p) \<Rightarrow> ('v, 'p, unit) handler" where
  "run f = (\<lambda>w. (Inr (), f w))"

text \<open>A \<open>try\<close> with a \<open>catch\<close> that changes the component's state and a \<open>finally\<close>.\<close>

definition caught :: "(js_error \<Rightarrow> 'p \<Rightarrow> 'p) \<Rightarrow> ('v, 'p, unit) handler \<Rightarrow> ('p \<Rightarrow> 'p) \<Rightarrow> 'v \<times> 'p \<Rightarrow> 'v \<times> 'p" where
  "caught handle body finally w =
     (case body w of
        (Inr _, (v, p)) \<Rightarrow> (v, finally p)
      | (Inl e, (v, p)) \<Rightarrow> (v, finally (handle e p)))"

text \<open>\<open>Promise.all\<close> of one request for each element: all are made, and the first failure is the result.\<close>

fun all_of :: "('a \<Rightarrow> ('w, 'e, 'b) io) \<Rightarrow> 'a list \<Rightarrow> ('w, 'e, 'b list) io" where
  "all_of f [] w = (Inr [], w)"
| "all_of f (x # xs) w =
     (case f x w of (r, w1) \<Rightarrow>
      case all_of f xs w1 of (rs, w2) \<Rightarrow> (rbind r (\<lambda>y. rbind rs (\<lambda>ys. Inr (y # ys))), w2))"

lemma serve_eq: "serve m w = (r, w') \<longleftrightarrow> m (fst w) = (r, fst w') \<and> snd w' = snd w"
  by (cases w; cases w') (auto simp: serve_def split: prod.splits)

lemma upd_eq: "upd f w = (r, w') \<longleftrightarrow> r = Inr () \<and> w' = (fst w, f (snd w))"
  by (cases w) (auto simp: upd_def)

section \<open>Invariants of a component\<close>

definition preserves :: "('p \<Rightarrow> bool) \<Rightarrow> ('v, 'p, 'a) handler \<Rightarrow> bool" where
  "preserves I m \<longleftrightarrow> (\<forall>v p. I p \<longrightarrow> I (snd (snd (m (v, p)))))"

lemma preservesI: "(\<And>v p. I p \<Longrightarrow> I (snd (snd (m (v, p))))) \<Longrightarrow> preserves I m"
  by (simp add: preserves_def)

lemma preservesD: "preserves I m \<Longrightarrow> I p \<Longrightarrow> m (v, p) = (r, (v', p')) \<Longrightarrow> I p'"
  unfolding preserves_def by (metis snd_conv)

lemma preserves_bind:
  assumes m: "preserves I m" and f: "\<And>x. preserves I (f x)"
  shows "preserves I (io_bind m f)"
proof (rule preservesI)
  fix v and p
  assume p: "I p"
  obtain r v' p' where e: "m (v, p) = (r, (v', p'))" by (metis prod.exhaust)
  show "I (snd (snd (io_bind m f (v, p))))"
    using preservesD [OF m p e] e f by (cases r) (simp_all add: io_bind_def preserves_def)
qed

lemma preserves_bind2:
  "preserves I m \<Longrightarrow> (\<And>x y. preserves I (f x y)) \<Longrightarrow> preserves I (io_bind m (\<lambda>(x, y). f x y))"
  by (rule preserves_bind) auto

lemma preserves_pure: "preserves I (serve m)" "preserves I (io_lift r)" "preserves I (io_return x)"
  by (simp_all add: preserves_def serve_def io_lift_def io_return_def split_beta)

lemma preserves_upd: "(\<And>p. I p \<Longrightarrow> I (f p)) \<Longrightarrow> preserves I (upd f)"
  by (simp add: preserves_def upd_def split_beta)

lemma preserves_run: "(\<And>v p. I p \<Longrightarrow> I (snd (f (v, p)))) \<Longrightarrow> preserves I (run f)"
  by (simp add: preserves_def run_def)

lemma preserves_lift_bind: "(\<And>x. r = Inr x \<Longrightarrow> preserves I (f x)) \<Longrightarrow> preserves I (io_bind (io_lift r) f)"
  by (cases r) (simp_all add: preserves_def io_bind_def io_lift_def)

text \<open>The contract: showing an error does not break the component's invariant.\<close>

locale ui_component =
  fixes I :: "'p \<Rightarrow> bool" and handle :: "js_error \<Rightarrow> 'p \<Rightarrow> 'p"
  assumes error_shown: "I p \<Longrightarrow> I (handle e p)"
begin

lemma caught_preserves:
  assumes "preserves I body" "I p" "\<And>p. I p \<Longrightarrow> I (finally p)"
  shows "I (snd (caught handle body finally (v, p)))"
proof (cases "body (v, p)")
  case (fields r v' p')
  then show ?thesis
    using preservesD [OF assms(1,2) fields] assms(3) error_shown by (cases r) (simp_all add: caught_def)
qed

end

end
