(* ===== verification/Device_Facts.thy ===== *)
theory Device_Facts
  imports Account_Key Ui_Handlers
begin

text \<open>
  What signing in keeps on the device. \<open>stays J m\<close> says that an operation never leads out of the worlds of
  \<open>J\<close>, not even when it throws; it is proved by introduction rules along the program text. Every fact of the
  account state that a device has recorded is kept by every login and unlock against any server.
\<close>

section \<open>Operations that keep a property\<close>

definition stays :: "('w \<Rightarrow> bool) \<Rightarrow> ('w, 'e, 'a) io \<Rightarrow> bool" where
  "stays J m \<longleftrightarrow> (\<forall>w. J w \<longrightarrow> J (snd (m w)))"

named_theorems stays_intros

lemma staysD: "stays J m \<Longrightarrow> J w \<Longrightarrow> m w = (r, w') \<Longrightarrow> J w'"
  unfolding stays_def by (metis snd_conv)

lemma stays_pure [stays_intros]: "stays J (io_lift r)" "stays J (io_return x)" "stays J (io_throw e)"
  by (simp_all add: stays_def io_simps)

lemma stays_bind [stays_intros]: "stays J m \<Longrightarrow> (\<And>x. stays J (f x)) \<Longrightarrow> stays J (io_bind m f)"
  by (simp add: stays_def io_simps split: prod.splits sum.splits) (metis snd_conv)

lemma stays_catch [stays_intros]: "stays J m \<Longrightarrow> (\<And>e. stays J (h e)) \<Longrightarrow> stays J (io_catch m h)"
  by (simp add: stays_def io_simps split: prod.splits sum.splits) (metis snd_conv)

lemma stays_case [stays_intros]:
  "(b \<Longrightarrow> stays J m) \<Longrightarrow> (\<not> b \<Longrightarrow> stays J m') \<Longrightarrow> stays J (if b then m else m')"
  "stays J g \<Longrightarrow> (\<And>y. stays J (f y)) \<Longrightarrow> stays J (case z of None \<Rightarrow> g | Some y \<Rightarrow> f y)"
  "(\<And>a b. stays J (k a b)) \<Longrightarrow> stays J (case x of (a, b) \<Rightarrow> k a b)"
  by (auto split: option.splits prod.splits)

text \<open>What concerns the device only is kept by every request.\<close>

lemma stays_server [stays_intros]: "stays (\<lambda>(v, s). J s) (on_server m)"
  by (auto simp: stays_def on_server_def split: prod.splits)

lemma stays_device: "stays J m \<Longrightarrow> stays (\<lambda>(v, s). J s) (on_device m)"
  by (auto simp: stays_def on_device_def split: prod.splits)

lemma stays_serve [stays_intros]: "stays J m \<Longrightarrow> stays (\<lambda>(w, p). J w) (serve m)"
  by (auto simp: stays_def serve_def split: prod.splits)

lemma stays_upd [stays_intros]: "stays (\<lambda>(w, p). J w) (upd f)"
  by (auto simp: stays_def upd_def split: prod.splits)

section \<open>The account state\<close>

context account_state_store
begin

definition remembers :: "string \<Rightarrow> AccountFlag \<Rightarrow> 'w \<Rightarrow> bool" where
  "remembers h f s \<longleftrightarrow> store_ok s \<and> flag s h f"

text \<open>The patches the operations make.\<close>

definition sign_in_patches :: "AccountState set" where
  "sign_in_patches =
     {\<lparr>as_opaque = Some True, as_accountKey = None\<rparr>, \<lparr>as_opaque = None, as_accountKey = Some True\<rparr>,
      \<lparr>as_opaque = Some True, as_accountKey = Some True\<rparr>}"

definition kept_by_store :: "('w \<Rightarrow> bool) \<Rightarrow> bool" where
  "kept_by_store J \<longleftrightarrow>
     (\<forall>h. stays J (store_get store h)) \<and> (\<forall>h. \<forall>p \<in> sign_in_patches. stays J (store_update store h p))"

lemma store_ok_kept: "kept_by_store store_ok"
  unfolding kept_by_store_def stays_def by (metis get_reads update_flags snd_conv)

lemma remembers_kept: "kept_by_store (remembers h f)"
proof -
  have "stays (remembers h f) (store_update store h' p)" if "p \<in> sign_in_patches" for h' p
  proof -
    have "patch_flag p f \<noteq> Some False" using that by (cases f) (auto simp: sign_in_patches_def)
    then show ?thesis using update_keeps_true by (auto simp: stays_def remembers_def)
  qed
  moreover have "stays (remembers h f) (store_get store h')" for h'
    unfolding stays_def remembers_def by (metis get_reads snd_conv)
  ultimately show ?thesis by (simp add: kept_by_store_def)
qed

lemma kept_patches:
  assumes "kept_by_store J"
  shows "stays J (store_get store h)"
    "stays J (store_update store h \<lparr>as_opaque = Some True, as_accountKey = None\<rparr>)"
    "stays J (store_update store h \<lparr>as_opaque = None, as_accountKey = Some True\<rparr>)"
    "stays J (store_update store h \<lparr>as_opaque = Some True, as_accountKey = Some True\<rparr>)"
  using assms by (simp_all add: kept_by_store_def sign_in_patches_def)

lemma login_stays:
  assumes "kept_by_store J" "plo_accountState opts = store"
  shows "stays (\<lambda>(v, s). J s) (loginWithPassword C oc rnd api opts)"
  unfolding loginWithPassword_def Let_def assms(2)
  by (intro stays_intros stays_device kept_patches [OF assms(1)])

lemma unlock_stays:
  "kept_by_store J \<Longrightarrow> stays (\<lambda>(v, s). J s) (unlockAccount C oc rnd api email pw session store)"
  unfolding unlockAccount_def migrateAccount_def Let_def
  by (intro stays_intros stays_device kept_patches)

text \<open>On a device that remembers an account's wrapped key, unlocking it means opening a wrap.\<close>

lemma unlock_opens_wrap:
  assumes "remembers (computeEmailHash C email) FlagAccountKey s"
    and "unlockAccount C oc rnd api email pw session store (v, s) = (Inr account, w')"
  shows "\<exists>masterKey wrapped a. deriveMasterKey C pw email DEFAULT_KDF_PARAMS = Inr masterKey \<and>
    unwrapAccountKey C wrapped masterKey email = Inr a \<and>
    ak_encKeyBytes account = ak_encKeyBytes a \<and> ak_macKeyBytes account = ak_macKeyBytes a"
proof -
  obtain mk where mk: "deriveMasterKey C pw email DEFAULT_KDF_PARAMS = Inr mk"
    using assms(2) by (auto simp: unlockAccount_def Let_def io_simps split: sum.splits)
  have "\<not> (nonempty_opt (lr_wrappedAccountKey session) = None \<or> nonempty_opt (lr_wrappedAccountKeyIv session) = None)"
  proof
    assume missing: "nonempty_opt (lr_wrappedAccountKey session) = None \<or> nonempty_opt (lr_wrappedAccountKeyIv session) = None"
    from unlock_refuses_missing_wrap [OF _ _ this mk, of s oc rnd api v] assms show False by (simp add: remembers_def)
  qed
  then obtain wk iv where wk: "nonempty_opt (lr_wrappedAccountKey session) = Some wk"
    "nonempty_opt (lr_wrappedAccountKeyIv session) = Some iv" by auto
  let ?w = "\<lparr>wak_wrappedAccountKey = wk, wak_wrappedAccountKeyIv = iv\<rparr>"
  obtain a where a: "unwrapAccountKey C ?w mk email = Inr a"
    "ak_encKeyBytes account = ak_encKeyBytes a" "ak_macKeyBytes account = ak_macKeyBytes a"
    using assms(2) by (auto simp: unlockAccount_def Let_def io_bind_Inr io_run mk wk)
  then show ?thesis using mk by blast
qed

end

end
