(* ===== verification/Cli_Session.thy ===== *)
theory Cli_Session
  imports Device_Facts Local_Trust Account_State
begin

text \<open>
  What the command line client keeps in \<open>~/.nopwd\<close> (apps/cli/src/session.ts): the session, the device id,
  the revisions seen and the account states, and the decryption of a whole vault (apps/cli/src/vault.ts).
  Files are texts under normalised paths, a path being the list of its names, because \<open>join\<close> normalises
  what it joins. The JSON texts are written without the indentation of \<open>JSON.stringify(x, null, 2)\<close>, which
  \<open>JSON.parse\<close> ignores; modes are not kept, and writing does not fail.

  The lemmas show that the revisions and the account states persist across runs of the client, and that a
  vault id chosen by the server can make the client remove its account states.
\<close>

section \<open>Paths and files\<close>

type_synonym path = "string list"
type_synonym cli_files = "path \<Rightarrow> string option"

fun normalize :: "path \<Rightarrow> path \<Rightarrow> path" where
  "normalize acc [] = rev acc"
| "normalize acc (s # ss) =
     (if s = '''' \<or> s = ''.'' then normalize acc ss
      else if s = ''..'' then normalize (tl acc) ss
      else normalize (s # acc) ss)"

text \<open>\<open>join(SESSION_DIR, name)\<close>, with the names of the home directory.\<close>

definition SESSION_DIR :: "path \<Rightarrow> path" where
  "SESSION_DIR home = home @ [''.nopwd'']"

definition session_file :: "path \<Rightarrow> string \<Rightarrow> path" where
  "session_file home name = normalize [] (SESSION_DIR home @ js_split (CHR ''/'') name)"

definition SESSION_PATH :: "path \<Rightarrow> path" where "SESSION_PATH home = session_file home ''session.json''"
definition DEVICE_ID_PATH :: "path \<Rightarrow> path" where "DEVICE_ID_PATH home = session_file home ''device_id''"
definition ACCOUNT_STATE_PATH :: "path \<Rightarrow> path" where "ACCOUNT_STATE_PATH home = session_file home ''account-state.json''"

section \<open>The session\<close>

record Session =
  ss_sessionToken :: string
  ss_email :: string
  ss_userId :: "string option"
  ss_vaultEncKeyB64 :: string
  ss_vaultMacKeyB64 :: string
  ss_defaultVaultId :: string
  ss_apiUrl :: string
  ss_deviceId :: "string option"

definition session_json :: "Session \<Rightarrow> json" where
  "session_json s =
     JObj ([(''sessionToken'', JStr (ss_sessionToken s)), (''email'', JStr (ss_email s))] @
       jopt ''userId'' JStr (ss_userId s) @
       [(''vaultEncKeyB64'', JStr (ss_vaultEncKeyB64 s)), (''vaultMacKeyB64'', JStr (ss_vaultMacKeyB64 s)),
        (''defaultVaultId'', JStr (ss_defaultVaultId s)), (''apiUrl'', JStr (ss_apiUrl s))] @
       jopt ''deviceId'' JStr (ss_deviceId s))"

definition session_of_json :: "json \<Rightarrow> Session option" where
  "session_of_json j =
     (case (jstr j ''sessionToken'', jstr j ''email'', jstr_opt j ''userId'', jstr j ''vaultEncKeyB64'', jstr j ''vaultMacKeyB64'',
            jstr j ''defaultVaultId'', jstr j ''apiUrl'', jstr_opt j ''deviceId'') of
        (Some t, Some e, Some u, Some ek, Some mk, Some v, Some a, Some d) \<Rightarrow>
          Some \<lparr>ss_sessionToken = t, ss_email = e, ss_userId = u, ss_vaultEncKeyB64 = ek, ss_vaultMacKeyB64 = mk,
                ss_defaultVaultId = v, ss_apiUrl = a, ss_deviceId = d\<rparr>
      | _ \<Rightarrow> None)"

definition loadSession :: "path \<Rightarrow> cli_files \<Rightarrow> Session option" where
  "loadSession home files = Option.bind (Option.bind (files (SESSION_PATH home)) json_parse) session_of_json"

definition saveSession :: "path \<Rightarrow> Session \<Rightarrow> cli_files \<Rightarrow> cli_files" where
  "saveSession home s files = files(SESSION_PATH home := Some (json_print (session_json s)))"

definition clearSession :: "path \<Rightarrow> cli_files \<Rightarrow> cli_files" where
  "clearSession home files = files(SESSION_PATH home := None)"

definition loadDeviceId :: "path \<Rightarrow> cli_files \<Rightarrow> string option" where
  "loadDeviceId home files = nonempty_opt (map_option js_trim (files (DEVICE_ID_PATH home)))"

definition saveDeviceId :: "path \<Rightarrow> string \<Rightarrow> cli_files \<Rightarrow> cli_files" where
  "saveDeviceId home deviceId files = files(DEVICE_ID_PATH home := Some deviceId)"

text \<open>The address of the API, and whether the warning about plain HTTP is printed.\<close>

definition getApiUrl :: "string option \<Rightarrow> string \<times> bool" where
  "getApiUrl env =
     (let url = (case env of None \<Rightarrow> ''http://localhost:3001'' | Some u \<Rightarrow> u) in
      (url, startsWith url ''http://'' \<and> \<not> js_includes url ''localhost'' \<and> \<not> js_includes url ''127.0.0.1''))"

section \<open>The revision store\<close>

definition revisions_path :: "path \<Rightarrow> string \<Rightarrow> path" where
  "revisions_path home trustId = session_file home (''item-revisions-v2-'' @ trustId @ ''.json'')"

definition legacy_path :: "path \<Rightarrow> cli_files \<Rightarrow> path option" where
  "legacy_path home files =
     map_option (\<lambda>v. session_file home (''item-revisions-'' @ v @ ''.json''))
       (nonempty_opt (map_option ss_defaultVaultId (loadSession home files)))"

definition file_json :: "cli_files \<Rightarrow> path \<Rightarrow> json option" where
  "file_json files p = Option.bind (files p) json_parse"

definition persisted :: "path \<Rightarrow> string \<Rightarrow> MemoryRevisionStore \<Rightarrow> cli_files \<Rightarrow> cli_files" where
  "persisted home trustId store files =
     (case ms_onChange store of
        [] \<Rightarrow> files
      | snap # _ \<Rightarrow> files(revisions_path home trustId := Some (json_print (snapshot_json snap))))"

text \<open>
  Folding in the records of before the upgrade, which are removed when they could be read: the store and
  the files. \<open>Object.entries(null)\<close> throws and leaves the file.
\<close>

definition fold_legacy :: "path \<Rightarrow> MemoryRevisionStore \<Rightarrow> cli_files \<Rightarrow> MemoryRevisionStore \<times> cli_files" where
  "fold_legacy home store files =
     (case legacy_path home files of
        None \<Rightarrow> (store, files)
      | Some p \<Rightarrow>
          (case file_json files p of
             None \<Rightarrow> (store, files)
           | Some legacy \<Rightarrow>
               if legacy = JNull then (store, files) else (record_legacy [legacy] store, files(p := None))))"

text \<open>
  The store this run starts with and the files its writes are made to; \<open>fetched\<close> is what the marker
  request answered, \<open>None\<close> when none is made.
\<close>

definition openCliRevisionStore ::
  "crypto \<Rightarrow> path \<Rightarrow> CryptoKey \<Rightarrow> string option js option \<Rightarrow> cli_files \<Rightarrow> (MemoryRevisionStore \<times> cli_files) js" where
  "openCliRevisionStore C home vaultMacKey fetched files =
     rbind (trustStateId C vaultMacKey) (\<lambda>trustId.
     let store = stored_revisions (case file_json files (revisions_path home trustId) of None \<Rightarrow> JObj [] | Some j \<Rightarrow> j);
         (store1, files1) = fold_legacy home store files;
         store2 = (case fetched of
                     Some (Inr marker) \<Rightarrow> snd (applyV2OnlyMarker C marker vaultMacKey store1)
                   | _ \<Rightarrow> store1)
     in Inr (store2, files1))"

section \<open>Account states\<close>

definition read_states :: "path \<Rightarrow> cli_files \<Rightarrow> json" where
  "read_states home files = (case file_json files (ACCOUNT_STATE_PATH home) of None \<Rightarrow> JObj [] | Some j \<Rightarrow> j)"

definition file_state :: "path \<Rightarrow> cli_files \<Rightarrow> string \<Rightarrow> json" where
  "file_state home files emailHash =
     (case json_get (read_states home files) emailHash of None \<Rightarrow> JObj [] | Some j \<Rightarrow> j)"

text \<open>A file that holds something else than an object, which no client writes, makes the property access throw.\<close>

definition fileAccountState :: "path \<Rightarrow> cli_files AccountStateStore" where
  "fileAccountState home = \<lparr>
     store_get = (\<lambda>emailHash files.
       (case read_states home files of
          JObj _ \<Rightarrow> (Inr (JObj (js_spread (file_state home files emailHash))), files)
        | _ \<Rightarrow> (Inl TypeError, files))),
     store_update = (\<lambda>emailHash patch files.
       (case read_states home files of
          JObj ms \<Rightarrow>
            (Inr (), files(ACCOUNT_STATE_PATH home :=
               Some (json_print (JObj (js_set emailHash (merge_patch (file_state home files emailHash) patch) (js_map_new ms))))))
        | _ \<Rightarrow> (Inl TypeError, files)))\<rparr>"

section \<open>Reading a whole vault\<close>

record 'v VaultReadApi =
  vr_list :: "('v, js_error, string list) io"
  vr_items :: "string \<Rightarrow> ('v, js_error, EncryptedVaultItem list) io"

fun io_map :: "('a \<Rightarrow> ('w, 'e, 'b) io) \<Rightarrow> 'a list \<Rightarrow> ('w, 'e, 'b list) io" where
  "io_map f [] w = (Inr [], w)"
| "io_map f (x # xs) w = io_bind (f x) (\<lambda>y. io_bind (io_map f xs) (\<lambda>ys. io_return (y # ys))) w"

definition fetch_active :: "'v VaultReadApi \<Rightarrow> ('v, js_error, EncryptedVaultItem list) io" where
  "fetch_active api =
     io_bind (vr_list api) (\<lambda>vaults.
     io_bind (io_map (vr_items api) vaults) (\<lambda>perVault.
     io_return (filter (\<lambda>i. ev_deletedAt i = None) (concat perVault))))"

text \<open>All items are decrypted against one store; the first failure is the result, and the others still leave their marks.\<close>

fun decrypt_all ::
  "crypto \<Rightarrow> VaultKeys \<Rightarrow> EncryptedVaultItem list \<Rightarrow> MemoryRevisionStore \<Rightarrow> json list js \<times> MemoryRevisionStore" where
  "decrypt_all C keys [] s = (Inr [], s)"
| "decrypt_all C keys (i # is) s =
     (case decryptVaultItem C \<lparr>eb_blob = ev_blob i, eb_blobIv = ev_blobIv i, eb_blobMac = ev_blobMac i\<rparr> (bindingForItem i) keys (Some s) of
        (r, s1) \<Rightarrow>
          (case decrypt_all C keys is (case s1 of None \<Rightarrow> s | Some x \<Rightarrow> x) of
             (rs, s2) \<Rightarrow> (rbind r (\<lambda>d. rbind rs (\<lambda>ds. Inr (di_plaintext d # ds))), s2)))"

section \<open>What persists\<close>

lemma session_roundtrip: "session_of_json (session_json s) = Some s"
  by (cases "ss_userId s"; cases "ss_deviceId s")
     (simp_all add: session_of_json_def session_json_def jstr_def jstr_opt_def jfield_def jfield_opt_def json_get_def jopt_def)

lemma loadSession_saveSession: "loadSession home (saveSession home s files) = Some s"
  by (simp add: loadSession_def saveSession_def json_parse_print session_roundtrip)

text \<open>Account states in a file satisfy the contract of the account state store.\<close>

definition states_ok :: "path \<Rightarrow> cli_files \<Rightarrow> bool" where
  "states_ok home files \<longleftrightarrow> (\<exists>ms. read_states home files = JObj ms)"

lemma file_json_write: "file_json (files(p := Some (json_print j))) q = (if q = p then Some j else file_json files q)"
  by (simp add: file_json_def json_parse_print del: json_print.simps)

lemma file_state_update:
  assumes "read_states home files = JObj ms"
  shows "file_state home (files(ACCOUNT_STATE_PATH home := Some (json_print (JObj (js_set h j (js_map_new ms)))))) h' =
    (if h' = h then j else file_state home files h')"
proof -
  have "json_get (JObj (js_set h j (js_map_new ms))) h' = (if h' = h then Some j else json_get (JObj ms) h')"
    by (simp add: json_get_def map_of_rev_distinct)
  then show ?thesis using assms 
    by (simp add: file_state_def read_states_def file_json_write del: json_print.simps)
qed

interpretation file_store: account_state_store "fileAccountState home" "states_ok home" "\<lambda>w h. flag_of (file_state home w h)" for home
proof
  fix w h and p :: AccountState
  assume "states_ok home w"
  then obtain ms where ms: "read_states home w = JObj ms" by (auto simp: states_ok_def)
  then show "\<exists>j. store_get (fileAccountState home) h w = (Inr j, w) \<and> j \<noteq> JNull \<and> (\<forall>f. flag_of j f = flag_of (file_state home w h) f)"
    by (simp add: fileAccountState_def flag_of_spread)
  let ?j = "merge_patch (file_state home w h) p"
  let ?w = "w(ACCOUNT_STATE_PATH home := Some (json_print (JObj (js_set h ?j (js_map_new ms)))))"
  have "states_ok home ?w" 
    by (simp add: states_ok_def read_states_def file_json_write del: json_print.simps)
  moreover have "store_update (fileAccountState home) h p w = (Inr (), ?w)" using ms by (simp add: fileAccountState_def)
  ultimately show "\<exists>w'. store_update (fileAccountState home) h p w = (Inr (), w') \<and> states_ok home w' \<and>
      (\<forall>h' f. flag_of (file_state home w' h') f = (case patch_flag p f of
         Some b \<Rightarrow> if h' = h then b else flag_of (file_state home w h') f | None \<Rightarrow> flag_of (file_state home w h') f))"
    by (intro exI [of _ ?w]) (auto simp: file_state_update [OF ms] flag_of_merge_patch simp del: json_print.simps split: option.splits)
qed

lemma openCliRevisionStore_ok: "trustStateId C k = Inr t \<Longrightarrow> \<exists>s f. openCliRevisionStore C home k fetched files = Inr (s, f)"
  by (simp add: openCliRevisionStore_def Let_def split_beta)

lemma openCliRevisionStore_Inr:
  assumes "openCliRevisionStore C home k fetched files = Inr (s, files1)" "trustStateId C k = Inr t"
  shows "revs_use (stored_revisions (case file_json files (revisions_path home t) of None \<Rightarrow> JObj [] | Some j \<Rightarrow> j)) s \<and>
    (legacy_path home files \<noteq> Some (revisions_path home t) \<longrightarrow> files1 (revisions_path home t) = files (revisions_path home t))"
proof -
  let ?s = "stored_revisions (case file_json files (revisions_path home t) of None \<Rightarrow> JObj [] | Some j \<Rightarrow> j)"
  obtain s1 f1 where f: "fold_legacy home ?s files = (s1, f1)" by (rule prod.exhaust)
  have "revs_use ?s s1" using f
    by (auto simp: fold_legacy_def intro: revs_use.start record_legacy_uses split: option.splits if_splits)
  moreover have "legacy_path home files \<noteq> Some (revisions_path home t) \<longrightarrow> f1 (revisions_path home t) = files (revisions_path home t)"
    using f by (auto simp: fold_legacy_def split: option.splits if_splits)
  ultimately show ?thesis
    using assms f by (auto simp: openCliRevisionStore_def Let_def intro: applyV2OnlyMarker_uses split: option.splits sum.splits)
qed

text \<open>
  Rollback protection survives from one run of the command line client to the next: whatever a run
  did with its revision store, a later run for the same account knows every item at least at that
  revision and is v2-only if the first was, unless the vault id saved with the session names the
  revision file itself.
\<close>

theorem cli_rollback_protection_survives:
  assumes "trustStateId C k = Inr t" "openCliRevisionStore C home k fetched files = Inr (s0, files0)"
    and "legacy_path home files \<noteq> Some (revisions_path home t)" "revs_use s0 s1"
    and "openCliRevisionStore C home k fetched' (persisted home t s1 files0) = Inr (s2, files2)"
  shows "mark_le (revs_get s1 i) (revs_get s2 i) \<and> (revs_v2Only s1 \<longrightarrow> revs_v2Only s2)"
proof -
  let ?j = "\<lambda>fs. case file_json fs (revisions_path home t) of None \<Rightarrow> JObj [] | Some j \<Rightarrow> j"
  have first: "revs_use (stored_revisions (?j files)) s1" and kept: "?j files0 = ?j files"
    using openCliRevisionStore_Inr [OF assms(2,1)] assms(3) revs_use_trans [OF _ assms(4)] by (auto simp: file_json_def)
  have ok: "revs_ok (revs_toJSON (stored_revisions (?j files))) s1" by (rule revs_use_ok [OF first stored_revisions_ok])
  have "revs_toJSON (stored_revisions (?j (persisted home t s1 files0))) = revs_toJSON s1"
  proof (cases "ms_onChange s1")
    case Nil
    then show ?thesis using ok kept by (simp add: persisted_def revs_ok_def revs_persisted_def)
  next
    case (Cons snap log)
    then have snap: "snap = revs_toJSON s1" using ok by (simp add: revs_ok_def revs_persisted_def)
    have "distinct (map fst (sn_revisions snap))" using ok by (simp add: snap revs_ok_def revs_toJSON_def)
    then show ?thesis using Cons snap stored_revisions_snapshot 
      by (simp add: persisted_def file_json_write del: json_print.simps)
  qed
  then have same: "revs_get (stored_revisions (?j (persisted home t s1 files0))) i = revs_get s1 i"
    "revs_v2Only (stored_revisions (?j (persisted home t s1 files0))) = revs_v2Only s1"
    using revs_toJSON_observed by blast+
  have "revs_use (stored_revisions (?j (persisted home t s1 files0))) s2" using openCliRevisionStore_Inr [OF assms(5,1)] by blast
  from revs_use_mono [OF this, of i] show ?thesis using same by simp
qed


theorem cli_rollback_protection_survives_witness:
  "\<exists>t s0 f0 s2 f2. openCliRevisionStore demo_crypto [''home''] (demo_mac_key 1) None Map.empty = Inr (s0, f0) \<and>
     openCliRevisionStore demo_crypto [''home''] (demo_mac_key 1) None (persisted [''home''] t (revs_record demo_user 7 s0) f0) = Inr (s2, f2) \<and>
     mark_le (revs_get (revs_record demo_user 7 s0) demo_user) (revs_get s2 demo_user)"
proof -
  obtain t where t: "trustStateId demo_crypto (demo_mac_key 1) = Inr t" using demo_trustStateId by blast
  obtain s0 f0 where s0: "openCliRevisionStore demo_crypto [''home''] (demo_mac_key 1) None Map.empty = Inr (s0, f0)"
    using openCliRevisionStore_ok [OF t] by blast
  let ?s1 = "revs_record demo_user 7 s0"
  obtain s2 f2 where s2: "openCliRevisionStore demo_crypto [''home''] (demo_mac_key 1) None (persisted [''home''] t ?s1 f0) = Inr (s2, f2)"
    using openCliRevisionStore_ok [OF t] by blast
  have "legacy_path [''home''] Map.empty \<noteq> Some (revisions_path [''home''] t)"
    by (simp add: legacy_path_def loadSession_def nonempty_opt_def)
  from cli_rollback_protection_survives [OF t s0 this _ s2, of demo_user] show ?thesis
    using s0 s2 by (auto intro: revs_use.intros)
qed

text \<open>
  The vault id of the session is the server's. One with \<open>/../\<close> in it names the file of the account states,
  which is then removed as if it were an old record of revisions: this machine forgets that an account used
  OPAQUE or a wrapped key, and a later downgrade is not refused.
\<close>

lemma normalize_app: "\<forall>s \<in> set ss. s \<noteq> '''' \<and> s \<noteq> ''.'' \<and> s \<noteq> ''..'' \<Longrightarrow> normalize acc (ss @ rest) = normalize (rev ss @ acc) rest"
  by (induction ss arbitrary: acc) auto

lemma crafted_vault_id_removes_account_states:
  assumes "loadSession home files = Some s" "ss_defaultVaultId s = ''x/../account-state''"
    and "\<forall>n \<in> set home. n \<noteq> '''' \<and> n \<noteq> ''.'' \<and> n \<noteq> ''..''"
    and "read_states home files = JObj (m # ms)" "trustStateId C k = Inr t"
    and "openCliRevisionStore C home k fetched files = Inr (s', files')"
  shows "\<forall>h. file_state home files' h = JObj []"
proof -
  have names: "\<forall>n \<in> set (SESSION_DIR home). n \<noteq> '''' \<and> n \<noteq> ''.'' \<and> n \<noteq> ''..''" using assms(3) by (auto simp: SESSION_DIR_def)
  have "js_split (CHR ''/'') ''item-revisions-x/../account-state.json'' = [''item-revisions-x'', ''..'', ''account-state.json'']"
    "js_split (CHR ''/'') ''account-state.json'' = [''account-state.json'']"
    by code_simp+
  then have "legacy_path home files = Some (ACCOUNT_STATE_PATH home)"
    using assms(1,2) by (simp add: legacy_path_def nonempty_opt_def session_file_def ACCOUNT_STATE_PATH_def normalize_app [OF names])
  moreover obtain j where "file_json files (ACCOUNT_STATE_PATH home) = Some j" "j \<noteq> JNull"
    using assms(4) by (auto simp: read_states_def split: option.splits)
  ultimately have "files' = files(ACCOUNT_STATE_PATH home := None)"
    using assms(5,6) by (auto simp: openCliRevisionStore_def fold_legacy_def Let_def)
  then show ?thesis by (simp add: file_state_def read_states_def file_json_def json_get_def)
qed

end
