(* ===== verification/Org_Panel.thy ===== *)
theory Org_Panel
  imports Identity_Migration Vault_Store Ui_Handlers
begin

text \<open>
  The organization panel (packages/ui/src/components/OrgPanel.tsx): its state and its handlers, which put
  the key chains, the pins, the epochs, the ledger and the rotations of the libraries together.

  A handler reads the state of the render it belongs to and runs to its end before the next; the stores of
  the device are shared objects, read when they are used. The server is the operations of \<open>OrgApi\<close> on a
  state of its own, and any answer is possible. An error shown is kept as the exception it comes from, or
  its text. The stores of the device carry their own view of \<open>localStorage\<close>, where each has a name of
  its own.
\<close>

section \<open>What the server serves and is sent\<close>

record OrgSummary =
  os_id :: string
  os_name :: string
  os_role :: OrgRole
  os_memberCount :: int
  os_createdAt :: string

record OrgDetails = OrgSummary +
  od_members :: "OrgMember list"
  od_encryptedOrgKey :: string
  od_wrapChain :: "WrapLink list"

record OrgInvite =
  oi_orgId :: string
  oi_orgName :: string
  oi_role :: OrgRole
  oi_wrapChain :: "WrapLink list"

record CreateOrgRequest =
  co_id :: "string option"
  co_name :: string
  co_publicKey :: string
  co_protectedPrivateKey :: string
  co_protectedPrivateKeyIv :: string
  co_encryptedOrgKey :: string
  co_wrapSignature :: "string option"
  co_keyEpoch :: "int option"

record InviteMemberRequest =
  im_emailHash :: string
  im_role :: OrgRole
  im_encryptedOrgKey :: string
  im_wrapSignature :: string
  im_keyEpoch :: int

record 'v OrgApi = "'v IdentityApi" +
  orgs_list :: "('v, js_error, OrgSummary list) io"
  orgs_invites :: "('v, js_error, OrgInvite list) io"
  orgs_accept :: "string \<Rightarrow> ('v, js_error, unit) io"
  orgs_get :: "string \<Rightarrow> ('v, js_error, OrgDetails) io"
  orgs_items :: "string \<Rightarrow> ('v, js_error, EncryptedVaultItem list) io"
  orgs_rewrap :: "string \<Rightarrow> RewrapWrap list \<Rightarrow> ('v, js_error, unit) io"
  orgs_create :: "CreateOrgRequest \<Rightarrow> ('v, js_error, OrgSummary) io"
  orgs_getPublicKey :: "string \<Rightarrow> ('v, js_error, KeyBundle) io"
  orgs_invite :: "string \<Rightarrow> InviteMemberRequest \<Rightarrow> ('v, js_error, unit) io"
  orgs_rotate :: "string \<Rightarrow> RotateKeyRequest \<Rightarrow> ('v, js_error, unit) io"

section \<open>State\<close>

datatype MemberKeyStatus =
    KeyConfirmed string
  | KeyUnconfirmed string KeyBundle
  | KeyChanged
  | KeyUnverifiable UiMessage

record DeviceTrust =
  dt_trustId :: string
  dt_pins :: PinState
  dt_epochs :: EpochState
  dt_ledger :: LedgerState
  dt_revisions :: MemoryRevisionStore

record ReceivedInvite =
  rv_invite :: OrgInvite
  rv_check :: OrgKeyCheck

record InviteePreview =
  ip_bundle :: KeyBundle
  ip_email :: string
  ip_emailHash :: string
  ip_recipientPublicKey :: string
  ip_safetyNumber :: string
  ip_firstSeen :: bool

datatype RotationIssue =
    Missing "string list" "string list"
  | Undecryptable "string list"
  | OtherIssue js_error

record RotationState =
  rs_removeUserId :: "string option"
  rs_dropItemIds :: "string list"
  rs_acknowledgedGone :: OrgLedgerEntry
  rs_outcome :: "RotationIssue + RotationPlan"

text \<open>\<open>op_vaultKeys\<close> are the calls of \<open>onOrgVaultKeyChange\<close>, and \<open>op_store\<close> is the vault store.\<close>

record OrgPanel =
  op_orgs :: "OrgSummary list"
  op_selectedOrg :: "OrgDetails option"
  op_orgCheck :: "OrgKeyCheck option"
  op_loading :: bool
  op_error :: "UiMessage option"
  op_showCreateForm :: bool
  op_showInviteForm :: bool
  op_newOrgName :: string
  op_inviteEmail :: string
  op_inviteRole :: OrgRole
  op_saving :: bool
  op_memberToRemove :: "OrgMember option"
  op_pendingInvite :: "InviteePreview option"
  op_received :: "ReceivedInvite list"
  op_resignOpen :: bool
  op_rotateOpen :: bool
  op_rotation :: "RotationState option"
  op_trust :: "DeviceTrust option"
  op_pinVersion :: nat
  op_vaultKeys :: "(string \<times> CryptoKey option) list"
  op_store :: NopassStore

definition new_panel :: "NopassStore \<Rightarrow> OrgPanel" where
  "new_panel store =
     \<lparr>op_orgs = [], op_selectedOrg = None, op_orgCheck = None, op_loading = False, op_error = None, op_showCreateForm = False,
      op_showInviteForm = False, op_newOrgName = '''', op_inviteEmail = '''', op_inviteRole = ''member'', op_saving = False,
      op_memberToRemove = None, op_pendingInvite = None, op_received = [], op_resignOpen = False, op_rotateOpen = False,
      op_rotation = None, op_trust = None, op_pinVersion = 0, op_vaultKeys = [], op_store = store\<rparr>"

section \<open>Members' keys\<close>

definition memberBundle :: "OrgMember \<Rightarrow> KeyBundle option" where
  "memberBundle m = map_option (member_bundle m) (nonempty_opt (om_publicKey m))"

definition memberKeyStatus ::
  "crypto \<Rightarrow> OrgMember \<Rightarrow> string option \<Rightarrow> (string \<Rightarrow> string option) option \<Rightarrow> MemberKeyStatus js" where
  "memberKeyStatus C m ownUserId pins =
     (case memberBundle m of
        None \<Rightarrow> Inr (KeyUnverifiable (Words ''no key published yet''))
      | Some bundle \<Rightarrow>
          if Some (om_userId m) = ownUserId \<or> pins = None then
            (case nonempty_opt (om_identityPublicKey m) of
               None \<Rightarrow> Inr (KeyUnverifiable (Words ''no identity key yet''))
             | Some k \<Rightarrow> rbind (safetyNumber C (om_userId m) k) (\<lambda>n. Inr (KeyConfirmed n)))
          else
            (case verifyMemberKey C bundle (the pins) of
               Inr verified \<Rightarrow>
                 Inr (if vk_firstSeen verified then KeyUnconfirmed (vk_safetyNumber verified) bundle
                      else KeyConfirmed (vk_safetyNumber verified))
             | Inl (PinnedKeyChangedError _) \<Rightarrow> Inr KeyChanged
             | Inl e \<Rightarrow> Inr (KeyUnverifiable (MessageOf e))))"


section \<open>Running a handler\<close>

text \<open>\<open>shown\<close> is the \<open>try\<close> of a handler, with the error that is shown and the \<open>finally\<close>.\<close>

type_synonym 'v panel = "'v \<times> OrgPanel"
type_synonym ('v, 'a) panel_io = "('v, OrgPanel, 'a) handler"

definition show_panel_error :: "js_error \<Rightarrow> OrgPanel \<Rightarrow> OrgPanel" where
  "show_panel_error e p = p\<lparr>op_error := Some (MessageOf e)\<rparr>"

definition shown :: "('v, unit) panel_io \<Rightarrow> (OrgPanel \<Rightarrow> OrgPanel) \<Rightarrow> 'v panel \<Rightarrow> 'v panel" where
  "shown = caught show_panel_error"

definition device_pins :: "DeviceTrust \<Rightarrow> string \<Rightarrow> string option" where
  "device_pins t = pins_get (browserPins (pins_key (dt_trustId t))) (dt_pins t)"

definition device_epochs :: "DeviceTrust \<Rightarrow> string \<Rightarrow> int option" where
  "device_epochs t = epochs_get (browserEpochs (epochs_key (dt_trustId t))) (dt_epochs t)"

definition on_ledger :: "(string \<Rightarrow> LedgerState \<Rightarrow> LedgerState) \<Rightarrow> DeviceTrust \<Rightarrow> DeviceTrust" where
  "on_ledger f t = t\<lparr>dt_ledger := f (ledger_key (dt_trustId t)) (dt_ledger t)\<rparr>"

text \<open>What the device's stores are changed to.\<close>

definition on_trust :: "(DeviceTrust \<Rightarrow> DeviceTrust) \<Rightarrow> ('v, unit) panel_io" where
  "on_trust f = upd (\<lambda>p. p\<lparr>op_trust := map_option f (op_trust p)\<rparr>)"

text \<open>\<open>Promise.all\<close> of two requests.\<close>

definition both :: "('v, js_error, 'a) io \<Rightarrow> ('v, js_error, 'b) io \<Rightarrow> ('v, js_error, 'a \<times> 'b) io" where
  "both f g v = (case f v of (r, v1) \<Rightarrow> case g v1 of (q, v2) \<Rightarrow> (rbind r (\<lambda>x. rbind q (\<lambda>y. Inr (x, y))), v2))"

section \<open>Opening the stores\<close>

text \<open>
  \<open>fetched\<close> is what the marker request answers. The four stores are opened one after the other on the
  same \<open>localStorage\<close>.
\<close>

definition openTrust ::
  "crypto \<Rightarrow> CryptoKey \<Rightarrow> AccountIds option \<Rightarrow> string option js option \<Rightarrow> LocalStorage option \<Rightarrow> DeviceTrust js" where
  "openTrust C vaultMacKey accountIds fetched storage =
     rbind (trustStateId C vaultMacKey) (\<lambda>trustId.
     rbind (openKeyPinStore C vaultMacKey accountIds storage) (\<lambda>(_, pins).
     rbind (openOrgEpochStore C vaultMacKey (ps_storage pins)) (\<lambda>(_, epochs).
     rbind (openOrgLedger C vaultMacKey (es_storage epochs)) (\<lambda>(_, ledger).
     rbind (openRevisionStore C vaultMacKey fetched accountIds (lg_storage ledger)) (\<lambda>(revisions, _).
     Inr \<lparr>dt_trustId = trustId, dt_pins = pins, dt_epochs = epochs, dt_ledger = ledger, dt_revisions = revisions\<rparr>)))))"

section \<open>Confirming keys and loading\<close>

fun confirm_keys :: "crypto \<Rightarrow> string \<Rightarrow> KeyBundle list \<Rightarrow> (PinState, js_error, unit) io" where
  "confirm_keys C key [] s = (Inr (), s)"
| "confirm_keys C key (b # bs) s =
     (case confirmKey C (browserPins key) b s of (Inl e, s') \<Rightarrow> (Inl e, s') | (Inr _, s') \<Rightarrow> confirm_keys C key bs s')"

definition confirm :: "crypto \<Rightarrow> KeyBundle list \<Rightarrow> ('v, unit) panel_io" where
  "confirm C bundles = (\<lambda>(v, p).
     case op_trust p of
       None \<Rightarrow> (Inr (), (v, p))
     | Some t \<Rightarrow>
         (case confirm_keys C (pins_key (dt_trustId t)) bundles (dt_pins t) of
            (Inl e, s) \<Rightarrow> (Inl e, (v, p\<lparr>op_trust := Some (t\<lparr>dt_pins := s\<rparr>)\<rparr>))
          | (Inr _, s) \<Rightarrow> (Inr (), (v, p\<lparr>op_trust := Some (t\<lparr>dt_pins := s\<rparr>), op_pinVersion := op_pinVersion p + 1\<rparr>))))"

definition receive :: "crypto \<Rightarrow> string \<Rightarrow> DeviceTrust \<Rightarrow> OrgInvite \<Rightarrow> ReceivedInvite" where
  "receive C userId t invite =
     \<lparr>rv_invite = invite,
      rv_check = checkOrgKey C (oi_orgId invite) (oi_wrapChain invite) userId (oi_role invite) (device_pins t) (device_epochs t)\<rparr>"

definition loadOrgs :: "crypto \<Rightarrow> 'v OrgApi \<Rightarrow> 'v panel \<Rightarrow> 'v panel" where
  "loadOrgs C api = (\<lambda>(v, p).
     shown
       (io_bind (serve (both (orgs_list api) (orgs_invites api))) (\<lambda>(orgs, invites).
        upd (\<lambda>p. p\<lparr>op_orgs := orgs,
          op_received :=
            (case (nonempty_opt (st_userId (op_store p)), op_trust p) of
               (Some userId, Some t) \<Rightarrow> map (receive C userId t) invites
             | _ \<Rightarrow> [])\<rparr>)))
       (\<lambda>p. p\<lparr>op_loading := False\<rparr>)
       (v, p\<lparr>op_loading := True, op_error := None\<rparr>))"

definition acceptInvite :: "crypto \<Rightarrow> 'v OrgApi \<Rightarrow> ReceivedInvite \<Rightarrow> 'v panel \<Rightarrow> 'v panel" where
  "acceptInvite C api invite = (\<lambda>(v, p).
     case (rv_check invite, op_trust p) of
       (CheckOk wrap, Some _) \<Rightarrow>
         shown
           (io_bind (serve (orgs_accept api (oi_orgId (rv_invite invite)))) (\<lambda>_.
            io_bind (on_trust (\<lambda>t. t\<lparr>dt_epochs :=
                epochs_record (browserEpochs (epochs_key (dt_trustId t))) (oi_orgId (rv_invite invite)) (kw_epoch wrap) (dt_epochs t)\<rparr>))
            (\<lambda>_. run (loadOrgs C api))))
           id (v, p\<lparr>op_error := None\<rparr>)
     | _ \<Rightarrow> (v, p))"

section \<open>Selecting an organization\<close>

text \<open>The three parts of the private key, when the account has them.\<close>

definition own_identity :: "NopassStore \<Rightarrow> ResignIdentity option" where
  "own_identity st =
     (case (st_stretchedMasterKey st, nonempty_opt (st_protectedPrivateKey st), nonempty_opt (st_protectedPrivateKeyIv st)) of
        (Some k, Some pk, Some iv) \<Rightarrow>
          Some \<lparr>ri_protectedPrivateKey = pk, ri_protectedPrivateKeyIv = iv, ri_stretchedMasterKey = k\<rparr>
      | _ \<Rightarrow> None)"

definition no_private_key :: string where "no_private_key = ''No private key found. Please re-login.''"

definition decryptOwnOrgKey :: "crypto \<Rightarrow> NopassStore \<Rightarrow> string \<Rightarrow> CryptoKey js" where
  "decryptOwnOrgKey C st encryptedOrgKey =
     (case own_identity st of
        None \<Rightarrow> Inl (JsError no_private_key)
      | Some i \<Rightarrow>
          rbind (decryptUserPrivateKey C (ri_protectedPrivateKey i) (ri_protectedPrivateKeyIv i) (ri_stretchedMasterKey i))
            (decryptOrgKey C encryptedOrgKey))"

definition open_details :: "crypto \<Rightarrow> NopassStore \<Rightarrow> string \<Rightarrow> OrgDetails \<Rightarrow> ('v, OrgKeyCheck \<times> CryptoKey option) panel_io" where
  "open_details C st userId details = (\<lambda>(v, p).
     case op_trust p of
       None \<Rightarrow> (Inl TypeError, (v, p))
     | Some t \<Rightarrow>
         (case openOrgKey C (os_id details) (od_wrapChain details) userId (os_role details) (device_pins t)
                 (browserEpochs (epochs_key (dt_trustId t))) (decryptOwnOrgKey C st) (dt_epochs t) of
            (r, es) \<Rightarrow> (r, (v, p\<lparr>op_trust := Some (t\<lparr>dt_epochs := es\<rparr>)\<rparr>))))"

definition verify_org_items :: "crypto \<Rightarrow> string \<Rightarrow> CryptoKey \<Rightarrow> EncryptedVaultItem list \<Rightarrow> ('v, string list) panel_io" where
  "verify_org_items C orgId orgKey items = (\<lambda>(v, p).
     case op_trust p of
       None \<Rightarrow> (Inl TypeError, (v, p))
     | Some t \<Rightarrow>
         (case recordVerifiedOrgItems C orgId items \<lparr>kr_current = orgKey, kr_retired = []\<rparr>
                 (ledger_remember (ledger_key (dt_trustId t))) (dt_revisions t) (dt_ledger t) of
            ((_, failed), s, l) \<Rightarrow> (Inr failed, (v, p\<lparr>op_trust := Some (t\<lparr>dt_revisions := s, dt_ledger := l\<rparr>)\<rparr>))))"

definition remember_org :: "crypto \<Rightarrow> 'v OrgApi \<Rightarrow> string \<Rightarrow> OrgDetails \<Rightarrow> CryptoKey \<Rightarrow> ('v, unit) panel_io" where
  "remember_org C api orgId details orgKey =
     io_bind (on_trust (on_ledger (\<lambda>key.
       ledger_remember key orgId \<lparr>pl_items = None, pl_members = Some (map om_userId (od_members details))\<rparr>))) (\<lambda>_.
     io_bind (serve (orgs_items api orgId)) (\<lambda>items.
     io_bind (verify_org_items C orgId orgKey items) (\<lambda>failed.
     upd (\<lambda>p. if failed = [] then p
               else p\<lparr>op_error := Some (Words (nat_to_string (length failed) @
                 '' item(s) in this organization could not be verified and are not shown.''))\<rparr>))))"

definition select_body :: "crypto \<Rightarrow> 'v OrgApi \<Rightarrow> NopassStore \<Rightarrow> string \<Rightarrow> string \<Rightarrow> ('v, unit) panel_io" where
  "select_body C api st userId orgId =
     io_bind (serve (orgs_get api orgId)) (\<lambda>details.
     io_bind (open_details C st userId details) (\<lambda>(check, orgKey).
     io_bind (upd (\<lambda>p. p\<lparr>op_selectedOrg := Some details, op_orgCheck := Some check,
                          op_vaultKeys := op_vaultKeys p @ [(orgId, orgKey)]\<rparr>)) (\<lambda>_.
     case (check, orgKey) of
       (CheckOk _, Some k) \<Rightarrow> remember_org C api orgId details k
     | _ \<Rightarrow> io_return ())))"

definition selectOrg :: "crypto \<Rightarrow> 'v OrgApi \<Rightarrow> string \<Rightarrow> 'v panel \<Rightarrow> 'v panel" where
  "selectOrg C api orgId = (\<lambda>(v, p).
     case (op_trust p, nonempty_opt (st_userId (op_store p))) of
       (Some _, Some userId) \<Rightarrow>
         shown (select_body C api (op_store p) userId orgId) (\<lambda>p. p\<lparr>op_loading := False\<rparr>)
           (v, p\<lparr>op_loading := True, op_error := None\<rparr>)
     | _ \<Rightarrow> (v, p))"


section \<open>Re-signing and creating\<close>

definition resignOrg :: "crypto \<Rightarrow> (nat \<Rightarrow> bytes) \<Rightarrow> 'v OrgApi \<Rightarrow> 'v panel \<Rightarrow> 'v panel" where
  "resignOrg C rng api = (\<lambda>(v, p).
     case (op_selectedOrg p, op_trust p, nonempty_opt (st_userId (op_store p)), own_identity (op_store p)) of
       (Some org, Some t, Some userId, Some identity) \<Rightarrow>
         shown
           (io_bind (io_lift (decryptOwnOrgKey C (op_store p) (od_encryptedOrgKey org))) (\<lambda>orgKey.
            io_bind (io_lift (buildResignedWraps C rng
              \<lparr>rin_orgId = os_id org,
               rin_epoch = (case op_orgCheck p of Some (CheckOk wrap) \<Rightarrow> kw_epoch wrap | _ \<Rightarrow> 1),
               rin_ownerUserId = userId, rin_orgKey = orgKey, rin_members = od_members org,
               rin_pins = device_pins t, rin_identity = identity\<rparr>)) (\<lambda>(wraps, skipped).
            io_bind (serve (orgs_rewrap api (os_id org) wraps)) (\<lambda>_.
            io_bind (upd (\<lambda>p. p\<lparr>op_resignOpen := False\<rparr>)) (\<lambda>_.
            io_bind (run (selectOrg C api (os_id org))) (\<lambda>_.
            upd (\<lambda>p. if skipped = [] then p
              else p\<lparr>op_error := Some (Words (nat_to_string (length skipped) @ '' member'' @
                (if length skipped = 1 then '' was'' else ''s were'') @
                '' not re-signed: confirm their safety numbers (or ask them to sign in once), then re-sign again.''))\<rparr>)))))))
           (\<lambda>p. p\<lparr>op_saving := False\<rparr>)
           (v, p\<lparr>op_saving := True, op_error := None\<rparr>)
     | _ \<Rightarrow> (v, p))"

record CreateRandom =
  cr_publicSpki :: bytes
  cr_privatePkcs8 :: bytes
  cr_iv :: bytes
  cr_orgKey :: bytes
  cr_wrap :: bytes
  cr_orgId :: string

text \<open>The account's own key pair, or a new one when it has none.\<close>

definition account_key_pair :: "crypto \<Rightarrow> CreateRandom \<Rightarrow> NopassStore \<Rightarrow> CryptoKey \<Rightarrow> UserKeyPair js" where
  "account_key_pair C rnd st stretched =
     (case own_identity st of
        Some i \<Rightarrow>
          rbind (deriveIdentityKey C (ri_protectedPrivateKey i) (ri_protectedPrivateKeyIv i) stretched) (\<lambda>identity.
          Inr \<lparr>ukp_publicKeyB64 = ik_rsaPublicKeyB64 identity, ukp_protectedPrivateKey = ri_protectedPrivateKey i,
               ukp_protectedPrivateKeyIv = ri_protectedPrivateKeyIv i\<rparr>)
      | None \<Rightarrow> generateUserKeyPair C (cr_publicSpki rnd) (cr_privatePkcs8 rnd) (cr_iv rnd) stretched)"

definition owner_wrap :: "string \<Rightarrow> string \<Rightarrow> string \<Rightarrow> OrgKeyWrap" where
  "owner_wrap orgId userId encryptedOrgKey =
     \<lparr>kw_orgId = orgId, kw_epoch = 1, kw_recipientUserId = userId, kw_signerUserId = userId, kw_role = ''owner'',
      kw_encryptedOrgKey = encryptedOrgKey\<rparr>"

text \<open>The request with which an organization is created, and the key pair in it.\<close>

definition create_request :: "crypto \<Rightarrow> CreateRandom \<Rightarrow> NopassStore \<Rightarrow> CryptoKey \<Rightarrow> string \<Rightarrow> (string \<times> UserKeyPair \<times> CreateOrgRequest) js" where
  "create_request C rnd st stretched name =
     rbind (account_key_pair C rnd st stretched) (\<lambda>keyPair.
     rbind (encryptOrgKeyForMember C (cr_wrap rnd) (generateOrgKey (cr_orgKey rnd)) (ukp_publicKeyB64 keyPair)) (\<lambda>encryptedOrgKey.
     rbind (of_option (JsError ''Sign in again to create an organization.'') (nonempty_opt (st_userId st))) (\<lambda>userId.
     rbind (deriveIdentityKey C (ukp_protectedPrivateKey keyPair) (ukp_protectedPrivateKeyIv keyPair) stretched) (\<lambda>identity.
     rbind (signOrgKeyWrap C (owner_wrap (cr_orgId rnd) userId encryptedOrgKey) (ik_secretKey identity)) (\<lambda>wrapSignature.
     Inr (userId, keyPair,
       \<lparr>co_id = Some (cr_orgId rnd), co_name = js_trim name, co_publicKey = ukp_publicKeyB64 keyPair,
        co_protectedPrivateKey = ukp_protectedPrivateKey keyPair, co_protectedPrivateKeyIv = ukp_protectedPrivateKeyIv keyPair,
        co_encryptedOrgKey = encryptedOrgKey, co_wrapSignature = Some wrapSignature, co_keyEpoch = Some 1\<rparr>))))))"

definition createOrg :: "crypto \<Rightarrow> CreateRandom \<Rightarrow> 'v OrgApi \<Rightarrow> 'v panel \<Rightarrow> 'v panel" where
  "createOrg C rnd api = (\<lambda>(v, p).
     case (js_trim (op_newOrgName p), st_stretchedMasterKey (op_store p)) of
       (_ # _, Some stretched) \<Rightarrow>
         shown
           (io_bind (io_lift (create_request C rnd (op_store p) stretched (op_newOrgName p))) (\<lambda>(userId, keyPair, request).
            io_bind (serve (orgs_create api request)) (\<lambda>created.
            io_bind (upd (\<lambda>p. p\<lparr>op_store :=
                setKeyPair (ukp_protectedPrivateKey keyPair) (ukp_protectedPrivateKeyIv keyPair) (op_store p)\<rparr>)) (\<lambda>_.
            io_bind (serve (ensureIdentityPublished C (IdentityApi.truncate api)
                \<lparr>okm_userId = userId, okm_protectedPrivateKey = ukp_protectedPrivateKey keyPair,
                 okm_protectedPrivateKeyIv = ukp_protectedPrivateKeyIv keyPair, okm_stretchedMasterKey = stretched\<rparr> None)) (\<lambda>_.
            upd (\<lambda>p. p\<lparr>op_orgs := op_orgs p @ [created], op_newOrgName := '''', op_showCreateForm := False\<rparr>))))))
           (\<lambda>p. p\<lparr>op_saving := False\<rparr>)
           (v, p\<lparr>op_saving := True, op_error := None\<rparr>)
     | _ \<Rightarrow> (v, p))"

section \<open>Inviting\<close>

definition lookUpInvitee :: "crypto \<Rightarrow> 'v OrgApi \<Rightarrow> 'v panel \<Rightarrow> 'v panel" where
  "lookUpInvitee C api = (\<lambda>(v, p).
     case (js_trim (op_inviteEmail p), op_trust p) of
       (c # cs, Some t) \<Rightarrow>
         let email = toLowerCase (c # cs); emailHash = computeEmailHash C email in
         shown
           (io_bind (serve (orgs_getPublicKey api emailHash)) (\<lambda>bundle.
            io_bind (io_lift (verifyMemberKey C bundle (device_pins t))) (\<lambda>verified.
            upd (\<lambda>p. p\<lparr>op_pendingInvite := Some
              \<lparr>ip_bundle = bundle, ip_email = email, ip_emailHash = emailHash, ip_recipientPublicKey = vk_rsaPublicKeyB64 verified,
               ip_safetyNumber = vk_safetyNumber verified, ip_firstSeen = vk_firstSeen verified\<rparr>\<rparr>))))
           (\<lambda>p. p\<lparr>op_saving := False\<rparr>)
           (v, p\<lparr>op_saving := True, op_error := None\<rparr>)
     | _ \<Rightarrow> (v, p))"

text \<open>The wrap an invite carries, and its signature.\<close>

definition invite_wrap :: "OrgDetails \<Rightarrow> OrgKeyWrap \<Rightarrow> string \<Rightarrow> OrgRole \<Rightarrow> InviteePreview \<Rightarrow> string \<Rightarrow> OrgKeyWrap" where
  "invite_wrap org checked userId role pending encryptedOrgKey =
     \<lparr>kw_orgId = os_id org, kw_epoch = kw_epoch checked, kw_recipientUserId = kb_userId (ip_bundle pending),
      kw_signerUserId = userId, kw_role = role, kw_encryptedOrgKey = encryptedOrgKey\<rparr>"

definition invite_request ::
  "crypto \<Rightarrow> bytes \<Rightarrow> NopassStore \<Rightarrow> ResignIdentity \<Rightarrow> OrgDetails \<Rightarrow> OrgKeyWrap \<Rightarrow> string \<Rightarrow> OrgRole \<Rightarrow> InviteePreview \<Rightarrow>
   InviteMemberRequest js" where
  "invite_request C rnd st own org checked userId role pending =
     rbind (decryptOwnOrgKey C st (od_encryptedOrgKey org)) (\<lambda>orgKey.
     rbind (encryptOrgKeyForMember C rnd orgKey (ip_recipientPublicKey pending)) (\<lambda>encryptedOrgKey.
     rbind (deriveIdentityKey C (ri_protectedPrivateKey own) (ri_protectedPrivateKeyIv own) (ri_stretchedMasterKey own)) (\<lambda>identity.
     rbind (signOrgKeyWrap C (invite_wrap org checked userId role pending encryptedOrgKey) (ik_secretKey identity)) (\<lambda>wrapSignature.
     Inr \<lparr>im_emailHash = ip_emailHash pending, im_role = role, im_encryptedOrgKey = encryptedOrgKey,
          im_wrapSignature = wrapSignature, im_keyEpoch = kw_epoch checked\<rparr>))))"

definition inviteMember :: "crypto \<Rightarrow> bytes \<Rightarrow> 'v OrgApi \<Rightarrow> 'v panel \<Rightarrow> 'v panel" where
  "inviteMember C rnd api = (\<lambda>(v, p).
     case (op_pendingInvite p, op_selectedOrg p, st_stretchedMasterKey (op_store p), op_trust p, op_orgCheck p) of
       (Some pending, Some org, Some _, Some _, Some (CheckOk checked)) \<Rightarrow>
         (case (own_identity (op_store p), nonempty_opt (st_userId (op_store p))) of
            (Some own, Some userId) \<Rightarrow>
              shown
                (io_bind (confirm C [ip_bundle pending]) (\<lambda>_.
                 io_bind (io_lift (invite_request C rnd (op_store p) own org checked userId (op_inviteRole p) pending)) (\<lambda>request.
                 io_bind (serve (orgs_invite api (os_id org) request)) (\<lambda>_.
                 io_bind (upd (\<lambda>p. p\<lparr>op_inviteEmail := '''', op_pendingInvite := None, op_showInviteForm := False\<rparr>)) (\<lambda>_.
                 run (selectOrg C api (os_id org)))))))
                (\<lambda>p. p\<lparr>op_saving := False\<rparr>)
                (v, p\<lparr>op_saving := True, op_error := None\<rparr>)
          | _ \<Rightarrow> (v, p\<lparr>op_error := Some (Words no_private_key)\<rparr>))
     | _ \<Rightarrow> (v, p))"


section \<open>Rotating\<close>

text \<open>Step one: the plan, or what stands in its way; nothing is sent.\<close>

definition rotation_input ::
  "NopassStore \<Rightarrow> ResignIdentity \<Rightarrow> DeviceTrust \<Rightarrow> OrgDetails \<Rightarrow> OrgKeyWrap \<Rightarrow> string \<Rightarrow> CryptoKey \<Rightarrow> EncryptedVaultItem list \<Rightarrow>
   string option \<Rightarrow> string list \<Rightarrow> OrgLedgerEntry \<Rightarrow> RotationInput" where
  "rotation_input st own t org checked userId oldKey items removeUserId dropItemIds acknowledgedGone =
     \<lparr>ro_orgId = os_id org, ro_ownerUserId = userId, ro_currentEpoch = kw_epoch checked, ro_oldKey = oldKey, ro_items = items,
      ro_members = od_members org, ro_removeUserId = removeUserId, ro_known = fst (ledger_get (os_id org) (dt_ledger t)),
      ro_dropItemIds = dropItemIds, ro_acknowledgedGone = acknowledgedGone, ro_pins = device_pins t, ro_identity = own\<rparr>"

definition build_plan :: "crypto \<Rightarrow> RotationRandom \<Rightarrow> (DeviceTrust \<Rightarrow> RotationInput) \<Rightarrow> string \<Rightarrow> ('v, RotationPlan) panel_io" where
  "build_plan C rnd input orgId = (\<lambda>(v, p).
     case op_trust p of
       None \<Rightarrow> (Inl TypeError, (v, p))
     | Some t \<Rightarrow>
         (case buildRotation C rnd (input t) (dt_revisions t) of
            (r, s) \<Rightarrow> (r, (v, p\<lparr>op_trust := Some (t\<lparr>dt_revisions := s, dt_ledger := snd (ledger_get orgId (dt_ledger t))\<rparr>)\<rparr>))))"

definition issue_of :: "js_error \<Rightarrow> RotationIssue" where
  "issue_of e =
     (case e of
        RotationSetIncompleteError items members \<Rightarrow> Missing items members
      | UndecryptableItemsError ids \<Rightarrow> Undecryptable ids
      | _ \<Rightarrow> OtherIssue e)"

definition prepareRotation ::
  "crypto \<Rightarrow> RotationRandom \<Rightarrow> 'v OrgApi \<Rightarrow> string option \<Rightarrow> string list \<Rightarrow> OrgLedgerEntry \<Rightarrow> 'v panel \<Rightarrow> 'v panel" where
  "prepareRotation C rnd api removeUserId dropItemIds acknowledgedGone = (\<lambda>(v, p).
     case (op_selectedOrg p, op_orgCheck p, op_trust p, nonempty_opt (st_userId (op_store p))) of
       (Some org, Some (CheckOk checked), Some _, Some userId) \<Rightarrow>
         (case own_identity (op_store p) of
            None \<Rightarrow> (v, p\<lparr>op_error := Some (Words no_private_key)\<rparr>)
          | Some own \<Rightarrow>
              (case io_bind (io_lift (decryptOwnOrgKey C (op_store p) (kw_encryptedOrgKey checked))) (\<lambda>oldKey.
                    io_bind (serve (orgs_items api (os_id org))) (\<lambda>items.
                    build_plan C rnd (\<lambda>t. rotation_input (op_store p) own t org checked userId oldKey items removeUserId dropItemIds acknowledgedGone)
                      (os_id org)))
                    (v, p\<lparr>op_saving := True, op_error := None, op_memberToRemove := None, op_rotateOpen := False\<rparr>) of
                 (r, (v', p')) \<Rightarrow>
                   (v', p'\<lparr>op_rotation := Some
                       \<lparr>rs_removeUserId = removeUserId, rs_dropItemIds = dropItemIds, rs_acknowledgedGone = acknowledgedGone,
                        rs_outcome = (case r of Inl e \<Rightarrow> Inl (issue_of e) | Inr plan \<Rightarrow> Inr plan)\<rparr>,
                      op_saving := False\<rparr>)))
     | _ \<Rightarrow> (v, p))"

text \<open>Step two, on the owner's confirmation.\<close>

definition after_rotation :: "string \<Rightarrow> string list \<Rightarrow> RotationPlan \<Rightarrow> DeviceTrust \<Rightarrow> DeviceTrust" where
  "after_rotation orgId dropItemIds plan t =
     on_ledger (\<lambda>key. ledger_remember key orgId
         \<lparr>pl_items = Some (map re_id (rk_items (rp_request plan))), pl_members = Some (rp_keepsAccess plan)\<rparr>)
       (on_ledger (\<lambda>key. ledger_forget key orgId
           \<lparr>pl_items = Some (dropItemIds @ le_items (rp_acknowledgedGone plan)),
            pl_members = Some (rp_losesAccess plan @ le_members (rp_acknowledgedGone plan))\<rparr>)
         (t\<lparr>dt_revisions := fold (\<lambda>(itemId, revision). revs_record itemId revision) (rp_revisions plan) (dt_revisions t)\<rparr>))"

definition rotate_request :: "RotationState \<Rightarrow> RotationPlan \<Rightarrow> RotateKeyRequest" where
  "rotate_request r plan =
     (case nonempty_opt (rs_removeUserId r) of
        None \<Rightarrow> rp_request plan
      | Some u \<Rightarrow> (rp_request plan)\<lparr>rk_removeUserId := Some u\<rparr>)"

definition commitRotation :: "crypto \<Rightarrow> 'v OrgApi \<Rightarrow> 'v panel \<Rightarrow> 'v panel" where
  "commitRotation C api = (\<lambda>(v, p).
     case (op_selectedOrg p, op_trust p, op_rotation p) of
       (Some org, Some _, Some r) \<Rightarrow>
         (case rs_outcome r of
            Inl _ \<Rightarrow> (v, p)
          | Inr plan \<Rightarrow>
              shown
                (io_bind (serve (orgs_rotate api (os_id org) (rotate_request r plan))) (\<lambda>_.
                 io_bind (on_trust (after_rotation (os_id org) (rs_dropItemIds r) plan)) (\<lambda>_.
                 io_bind (upd (\<lambda>p. p\<lparr>op_rotation := None\<rparr>)) (\<lambda>_.
                 run (selectOrg C api (os_id org))))))
                (\<lambda>p. p\<lparr>op_saving := False\<rparr>)
                (v, p\<lparr>op_saving := True, op_error := None\<rparr>))
     | _ \<Rightarrow> (v, p))"

text \<open>The two buttons of a rotation that is blocked, and the button that leaves an organization.\<close>

definition deleteAndContinue :: "crypto \<Rightarrow> RotationRandom \<Rightarrow> 'v OrgApi \<Rightarrow> 'v panel \<Rightarrow> 'v panel" where
  "deleteAndContinue C rnd api = (\<lambda>(v, p).
     case op_rotation p of
       Some r \<Rightarrow>
         (case rs_outcome r of
            Inl (Undecryptable ids) \<Rightarrow>
              prepareRotation C rnd api (rs_removeUserId r) (rs_dropItemIds r @ ids) (rs_acknowledgedGone r) (v, p)
          | _ \<Rightarrow> (v, p))
     | None \<Rightarrow> (v, p))"

definition goneAndContinue :: "crypto \<Rightarrow> RotationRandom \<Rightarrow> 'v OrgApi \<Rightarrow> 'v panel \<Rightarrow> 'v panel" where
  "goneAndContinue C rnd api = (\<lambda>(v, p).
     case (op_rotation p, op_selectedOrg p, op_trust p) of
       (Some r, Some _, Some _) \<Rightarrow>
         (case rs_outcome r of
            Inl (Missing items members) \<Rightarrow>
              prepareRotation C rnd api (rs_removeUserId r) (rs_dropItemIds r)
                \<lparr>le_items = le_items (rs_acknowledgedGone r) @ items, le_members = le_members (rs_acknowledgedGone r) @ members\<rparr> (v, p)
          | _ \<Rightarrow> (v, p))
     | _ \<Rightarrow> (v, p))"

definition leaveOrg :: "'v panel \<Rightarrow> 'v panel" where
  "leaveOrg = (\<lambda>(v, p).
     case op_selectedOrg p of
       None \<Rightarrow> (v, p)
     | Some org \<Rightarrow> (v, p\<lparr>op_selectedOrg := None, op_vaultKeys := op_vaultKeys p @ [(os_id org, None)]\<rparr>))"

text \<open>Confirming the signers of an invite or of the organization shown; a key that cannot be confirmed stops it.\<close>

definition confirm_then :: "crypto \<Rightarrow> OrgKeyCheck option \<Rightarrow> ('v panel \<Rightarrow> 'v panel) \<Rightarrow> 'v panel \<Rightarrow> 'v panel" where
  "confirm_then C check next w =
     (case check of
        Some (CheckConfirm signers) \<Rightarrow> snd (io_bind (confirm C (map fst signers)) (\<lambda>_. run next) w)
      | _ \<Rightarrow> w)"

definition canManage :: "OrgPanel \<Rightarrow> bool" where
  "canManage p \<longleftrightarrow>
     (case (op_selectedOrg p, op_orgCheck p) of
        (Some org, Some (CheckOk _)) \<Rightarrow> os_role org = ''owner'' \<or> os_role org = ''admin''
      | _ \<Rightarrow> False)"

text \<open>What can happen in the panel. Inputs and dialogs only set their fields.\<close>

datatype PanelEvent =
    TrustOpened DeviceTrust
  | Load
  | Accept ReceivedInvite
  | ConfirmInvite ReceivedInvite
  | Select string
  | ConfirmSigners
  | ConfirmMember KeyBundle
  | Leave
  | Create CreateRandom
  | Resign "nat \<Rightarrow> bytes"
  | LookUp
  | Invite bytes
  | Prepare RotationRandom "string option"
  | DeleteAndContinue RotationRandom
  | GoneAndContinue RotationRandom
  | Commit
  | CancelRotation
  | NewOrg
  | Typed string string OrgRole
  | DismissError

text \<open>A new email address withdraws the person looked up.\<close>

definition typed :: "string \<Rightarrow> string \<Rightarrow> OrgRole \<Rightarrow> OrgPanel \<Rightarrow> OrgPanel" where
  "typed name email role p =
     (let p' = p\<lparr>op_newOrgName := name, op_inviteEmail := email, op_inviteRole := role\<rparr> in
      if email = op_inviteEmail p then p' else p'\<lparr>op_pendingInvite := None\<rparr>)"

fun panel_step :: "crypto \<Rightarrow> 'v OrgApi \<Rightarrow> PanelEvent \<Rightarrow> 'v panel \<Rightarrow> 'v panel" where
  "panel_step C api (TrustOpened t) (v, p) =
     (if op_trust p = None then loadOrgs C api (v, p\<lparr>op_trust := Some t\<rparr>) else (v, p))"
| "panel_step C api Load w = loadOrgs C api w"
| "panel_step C api (Accept invite) (v, p) = (if invite \<in> set (op_received p) then acceptInvite C api invite (v, p) else (v, p))"
| "panel_step C api (ConfirmInvite invite) (v, p) =
     (if invite \<in> set (op_received p) \<and> op_trust p \<noteq> None then confirm_then C (Some (rv_check invite)) (loadOrgs C api) (v, p) else (v, p))"
| "panel_step C api (Select orgId) w = selectOrg C api orgId w"
| "panel_step C api ConfirmSigners (v, p) =
     (case op_selectedOrg p of
        None \<Rightarrow> (v, p)
      | Some org \<Rightarrow> confirm_then C (op_orgCheck p) (selectOrg C api (os_id org)) (v, p))"
| "panel_step C api (ConfirmMember bundle) w = snd (confirm C [bundle] w)"
| "panel_step C api Leave w = leaveOrg w"
| "panel_step C api (Create rnd) w = createOrg C rnd api w"
| "panel_step C api (Resign rng) w = resignOrg C rng api w"
| "panel_step C api LookUp w = lookUpInvitee C api w"
| "panel_step C api (Invite rnd) w = inviteMember C rnd api w"
| "panel_step C api (Prepare rnd removeUserId) w =
     prepareRotation C rnd api removeUserId [] \<lparr>le_items = [], le_members = []\<rparr> w"
| "panel_step C api (DeleteAndContinue rnd) w = deleteAndContinue C rnd api w"
| "panel_step C api (GoneAndContinue rnd) w = goneAndContinue C rnd api w"
| "panel_step C api Commit w = commitRotation C api w"
| "panel_step C api CancelRotation (v, p) = (v, p\<lparr>op_rotation := None\<rparr>)"
| "panel_step C api NewOrg (v, p) = (v, p\<lparr>op_showCreateForm := True, op_selectedOrg := None\<rparr>)"
| "panel_step C api (Typed name email role) (v, p) = (v, typed name email role p)"
| "panel_step C api DismissError (v, p) = (v, p\<lparr>op_error := None\<rparr>)"


section \<open>Keys are used only when they are vouched for\<close>

text \<open>A wrap this user may use: their own, and vouched for under the pins.\<close>

definition mine :: "crypto \<Rightarrow> string option \<Rightarrow> (string \<Rightarrow> string option) \<Rightarrow> OrgKeyWrap \<Rightarrow> bool" where
  "mine C me pins w \<longleftrightarrow> me = Some (kw_recipientUserId w) \<and> vouched C pins (kw_orgId w) (kw_epoch w) w"

definition panel_pins :: "OrgPanel \<Rightarrow> string \<Rightarrow> string option" where
  "panel_pins p = (case op_trust p of None \<Rightarrow> Map.empty | Some t \<Rightarrow> device_pins t)"

text \<open>
  The invariant of the panel: keys handed out and checks shown rest on wraps of this user's that are
  vouched for, and whoever is about to be invited has a bundle that verifies.
\<close>

definition panel_ok :: "crypto \<Rightarrow> string option \<Rightarrow> OrgPanel \<Rightarrow> bool" where
  "panel_ok C me p \<longleftrightarrow>
     st_userId (op_store p) = me \<and>
     (\<forall>o' k. (o', Some k) \<in> set (op_vaultKeys p) \<longrightarrow>
        (\<exists>w st. mine C me (panel_pins p) w \<and> decryptOwnOrgKey C st (kw_encryptedOrgKey w) = Inr k)) \<and>
     (\<forall>w. op_orgCheck p = Some (CheckOk w) \<longrightarrow> mine C me (panel_pins p) w \<and>
        (\<forall>org. op_selectedOrg p = Some org \<longrightarrow> os_id org = kw_orgId w)) \<and>
     (\<forall>i. op_pendingInvite p = Some i \<longrightarrow>
        verifyKeyBundle C (ip_bundle i) \<and> ip_recipientPublicKey i = kb_publicKey (ip_bundle i)) \<and>
     (\<forall>i \<in> set (op_received p). \<forall>w. rv_check i = CheckOk w \<longrightarrow> mine C me (panel_pins p) w)"

lemma vouched_mono: "vouched C f orgId e w \<Longrightarrow> f \<subseteq>\<^sub>m g \<Longrightarrow> vouched C g orgId e w"
proof (induction rule: vouched.induct)
  case (owner w)
  then show ?case by (intro vouched.owner) (auto simp: signed_by_pin_def map_le_def dom_def)
next
  case (granted v w)
  then have "signed_by_pin C g w" by (auto simp: signed_by_pin_def map_le_def dom_def)
  with granted show ?case by (intro vouched.granted [of C g orgId e v w]) auto
qed

lemma mine_mono: "mine C me f w \<Longrightarrow> f \<subseteq>\<^sub>m g \<Longrightarrow> mine C me g w"
  by (auto simp: mine_def intro: vouched_mono)

lemma checked_mine:
  assumes "checkOrgKey C orgId chain userId role pins epochs = CheckOk w"
  shows "mine C (Some userId) pins w \<and> kw_orgId w = orgId"
  using checkOrgKey_ok [OF assms] chain_loop_vouches unfolding verifyOrgKeyChain_Inr mine_def by fastforce

text \<open>What changes only the pins, and only adds to them, keeps the invariant.\<close>

lemma panel_ok_pins:
  assumes ok: "panel_ok C me p" and pins: "panel_pins p \<subseteq>\<^sub>m panel_pins p'" and same: "st_userId (op_store p') = st_userId (op_store p)"
    "op_vaultKeys p' = op_vaultKeys p" "op_orgCheck p' = op_orgCheck p" "op_received p' = op_received p"
    and sel: "op_selectedOrg p' = op_selectedOrg p \<or> op_selectedOrg p' = None"
    and pend: "op_pendingInvite p' = op_pendingInvite p \<or> op_pendingInvite p' = None"
  shows "panel_ok C me p'"
proof -
  note mono = mine_mono [OF _ pins]
  have "\<forall>o' k. (o', Some k) \<in> set (op_vaultKeys p) \<longrightarrow>
        (\<exists>w st. mine C me (panel_pins p') w \<and> decryptOwnOrgKey C st (kw_encryptedOrgKey w) = Inr k)"
    using ok mono unfolding panel_ok_def by meson
  moreover have "\<forall>w. op_orgCheck p = Some (CheckOk w) \<longrightarrow> mine C me (panel_pins p') w \<and>
        (\<forall>org. op_selectedOrg p' = Some org \<longrightarrow> os_id org = kw_orgId w)"
    using ok mono sel unfolding panel_ok_def by fastforce
  moreover have "\<forall>i. op_pendingInvite p' = Some i \<longrightarrow>
        verifyKeyBundle C (ip_bundle i) \<and> ip_recipientPublicKey i = kb_publicKey (ip_bundle i)"
    using ok pend unfolding panel_ok_def by fastforce
  moreover have "\<forall>i \<in> set (op_received p). \<forall>w. rv_check i = CheckOk w \<longrightarrow> mine C me (panel_pins p') w"
    using ok mono unfolding panel_ok_def by blast
  ultimately show ?thesis using ok same unfolding panel_ok_def by simp
qed

lemma panel_ok_shallow [simp]:
  "panel_ok C me (p\<lparr>op_error := e\<rparr>) = panel_ok C me p" "panel_ok C me (p\<lparr>op_loading := b\<rparr>) = panel_ok C me p"
  "panel_ok C me (p\<lparr>op_saving := b\<rparr>) = panel_ok C me p" "panel_ok C me (p\<lparr>op_resignOpen := b\<rparr>) = panel_ok C me p"
  "panel_ok C me (p\<lparr>op_rotateOpen := b\<rparr>) = panel_ok C me p" "panel_ok C me (p\<lparr>op_rotation := r\<rparr>) = panel_ok C me p"
  "panel_ok C me (p\<lparr>op_orgs := os\<rparr>) = panel_ok C me p" "panel_ok C me (p\<lparr>op_newOrgName := n\<rparr>) = panel_ok C me p"
  "panel_ok C me (p\<lparr>op_showCreateForm := b\<rparr>) = panel_ok C me p" "panel_ok C me (p\<lparr>op_showInviteForm := b\<rparr>) = panel_ok C me p"
  "panel_ok C me (p\<lparr>op_inviteEmail := n\<rparr>) = panel_ok C me p" "panel_ok C me (p\<lparr>op_inviteRole := n\<rparr>) = panel_ok C me p"
  "panel_ok C me (p\<lparr>op_memberToRemove := m\<rparr>) = panel_ok C me p"
  by (simp_all add: panel_ok_def panel_pins_def)

interpretation org_panel: ui_component "panel_ok C me" show_panel_error for C me
  by unfold_locales (simp add: show_panel_error_def)

lemmas shown_preserves = org_panel.caught_preserves [folded shown_def]


lemma confirm_keys_le:
  "confirm_keys C key bs s = (r, s') \<Longrightarrow> pins_get (browserPins key) s \<subseteq>\<^sub>m pins_get (browserPins key) s'"
proof (induction bs arbitrary: s)
  case (Cons b bs)
  have one: "pins_get (browserPins key) s \<subseteq>\<^sub>m pins_get (browserPins key) (snd (confirmKey C (browserPins key) b s))"
    using browser_pins.confirm_keeps [of key s _ _ C b] by (auto simp: map_le_def dom_def)
  show ?case
  proof (cases "confirmKey C (browserPins key) b s")
    case (Pair q s1)
    with Cons one show ?thesis by (cases q) (auto intro: map_le_trans)
  qed
qed simp

lemma confirm_preserves: "preserves (panel_ok C me) (confirm C bs)"
proof (rule preservesI)
  fix v and p :: OrgPanel
  assume ok: "panel_ok C me p"
  show "panel_ok C me (snd (snd (confirm C bs (v, p))))"
  proof (cases "op_trust p")
    case (Some t)
    obtain r s where c: "confirm_keys C (pins_key (dt_trustId t)) bs (dt_pins t) = (r, s)" by fastforce
    have "panel_pins p \<subseteq>\<^sub>m panel_pins (p\<lparr>op_trust := Some (t\<lparr>dt_pins := s\<rparr>), op_pinVersion := n\<rparr>)" for n
      using confirm_keys_le [OF c] Some by (simp add: panel_pins_def device_pins_def)
    moreover have "panel_pins p \<subseteq>\<^sub>m panel_pins (p\<lparr>op_trust := Some (t\<lparr>dt_pins := s\<rparr>)\<rparr>)"
      using confirm_keys_le [OF c] Some by (simp add: panel_pins_def device_pins_def)
    ultimately show ?thesis using ok Some c by (cases r) (auto simp: confirm_def intro: panel_ok_pins)
  qed (simp add: confirm_def ok)
qed

text \<open>Changes of the other stores.\<close>

lemma panel_ok_trust:
  assumes "panel_ok C me p" "op_trust p = Some t" "device_pins t' = device_pins t"
  shows "panel_ok C me (p\<lparr>op_trust := Some t'\<rparr>)"
  by (rule panel_ok_pins [OF assms(1)]) (simp_all add: panel_pins_def assms(2,3))

lemma on_trust_preserves: "(\<And>t. device_pins (f t) = device_pins t) \<Longrightarrow> preserves (panel_ok C me) (on_trust f)"
  unfolding on_trust_def
proof (rule preserves_upd)
  fix p :: OrgPanel
  assume f: "\<And>t. device_pins (f t) = device_pins t" and ok: "panel_ok C me p"
  show "panel_ok C me (p\<lparr>op_trust := map_option f (op_trust p)\<rparr>)"
    by (rule panel_ok_pins [OF ok]) (cases "op_trust p", simp_all add: panel_pins_def f)+
qed

lemma device_pins_on_ledger [simp]: "device_pins (on_ledger f t) = device_pins t"
  by (simp add: on_ledger_def device_pins_def)

lemma device_pins_other [simp]:
  "device_pins (t\<lparr>dt_epochs := es\<rparr>) = device_pins t" "device_pins (t\<lparr>dt_ledger := l\<rparr>) = device_pins t"
  "device_pins (t\<lparr>dt_revisions := s\<rparr>) = device_pins t"
  by (simp_all add: device_pins_def)

lemma receive_mine:
  assumes "panel_ok C me p" "nonempty_opt (st_userId (op_store p)) = Some u" "op_trust p = Some t"
    "rv_check (receive C u t i) = CheckOk w"
  shows "mine C me (panel_pins p) w"
proof -
  have "mine C (Some u) (device_pins t) w" using checked_mine [of C "oi_orgId i"] assms(4) by (simp add: receive_def)
  moreover have "me = Some u" using assms(1,2) by (simp add: panel_ok_def nonempty_opt_Some)
  ultimately show ?thesis using assms(3) by (simp add: panel_pins_def)
qed

lemma panel_ok_received:
  assumes "panel_ok C me p" "\<And>i w. i \<in> set is \<Longrightarrow> rv_check i = CheckOk w \<Longrightarrow> mine C me (panel_pins p) w"
  shows "panel_ok C me (p\<lparr>op_orgs := orgs, op_received := is\<rparr>)"
  using assms by (simp add: panel_ok_def panel_pins_def)

lemma loadOrgs_ok:
  assumes "panel_ok C me p"
  shows "panel_ok C me (snd (loadOrgs C api (v, p)))"
proof -
  let ?received = "\<lambda>p invites. case (nonempty_opt (st_userId (op_store p)), op_trust p) of
      (Some userId, Some t) \<Rightarrow> map (receive C userId t) invites | _ \<Rightarrow> []"
  have "panel_ok C me (p\<lparr>op_orgs := orgs, op_received := ?received p invites\<rparr>)" if ok: "panel_ok C me p" for p orgs invites
  proof (rule panel_ok_received [OF ok])
    fix i w
    assume i: "i \<in> set (?received p invites)" and c: "rv_check i = CheckOk w"
    from i obtain u t j where "nonempty_opt (st_userId (op_store p)) = Some u" "op_trust p = Some t" "i = receive C u t j"
      by (cases "nonempty_opt (st_userId (op_store p))"; cases "op_trust p") auto
    then show "mine C me (panel_pins p) w" using receive_mine [OF ok] c by simp
  qed
  then have "preserves (panel_ok C me) (io_bind (serve (both (orgs_list api) (orgs_invites api))) (\<lambda>(orgs, invites).
      upd (\<lambda>p. p\<lparr>op_orgs := orgs, op_received := ?received p invites\<rparr>)))"
    by (intro preserves_bind2 preserves_pure preserves_upd)
  from shown_preserves [OF this] show ?thesis using assms by (simp add: loadOrgs_def)
qed

lemma verify_org_items_preserves: "preserves (panel_ok C me) (verify_org_items C orgId k items)"
  by (rule preservesI) (auto simp: verify_org_items_def intro!: panel_ok_trust split: option.splits prod.splits)

lemma remember_org_preserves: "preserves (panel_ok C me) (remember_org C api orgId details k)"
  unfolding remember_org_def
  by (intro preserves_bind on_trust_preserves preserves_pure verify_org_items_preserves preserves_upd) simp_all


lemma openOrgKey_check:
  assumes "openOrgKey C orgId chain userId role pins epochs decrypt s = (Inr (check, key), s')"
  shows "check = checkOrgKey C orgId chain userId role pins (epochs_get epochs s)"
    "key = Some k \<Longrightarrow> \<exists>w. check = CheckOk w \<and> decrypt (kw_encryptedOrgKey w) = Inr k"
proof -
  show "check = checkOrgKey C orgId chain userId role pins (epochs_get epochs s)"
    using assms by (auto simp: openOrgKey_def Let_def split: OrgKeyCheck.splits sum.splits)
  show "\<exists>w. check = CheckOk w \<and> decrypt (kw_encryptedOrgKey w) = Inr k" if "key = Some k"
    using openOrgKey_key [OF assms [unfolded that]] by blast
qed

lemma panel_ok_selected:
  assumes ok: "panel_ok C me p" and t: "op_trust p = Some t" and u: "me = Some userId"
    and o': "openOrgKey C (os_id details) chain userId role (device_pins t) epochs (decryptOwnOrgKey C st) s = (Inr (check, key), s')"
  shows "panel_ok C me (p\<lparr>op_selectedOrg := Some details, op_orgCheck := Some check, op_vaultKeys := op_vaultKeys p @ [(orgId, key)]\<rparr>)"
    (is "panel_ok C me ?p")
proof -
  have m: "mine C me (panel_pins p) w \<and> kw_orgId w = os_id details" if "check = CheckOk w" for w
    using checked_mine [of C "os_id details"] openOrgKey_check(1) [OF o'] that u t by (simp add: panel_pins_def)
  have k: "\<exists>w st. mine C me (panel_pins p) w \<and> decryptOwnOrgKey C st (kw_encryptedOrgKey w) = Inr k" if "key = Some k" for k
    using m openOrgKey_check(2) [OF o' that] by blast
  have pins: "panel_pins ?p = panel_pins p" by (simp add: panel_pins_def)
  show ?thesis
    unfolding panel_ok_def pins
  proof (intro conjI)
    show "\<forall>o' k. (o', Some k) \<in> set (op_vaultKeys ?p) \<longrightarrow>
        (\<exists>w st. mine C me (panel_pins p) w \<and> decryptOwnOrgKey C st (kw_encryptedOrgKey w) = Inr k)"
    proof (intro allI impI)
      fix o' k'
      assume "(o', Some k') \<in> set (op_vaultKeys ?p)"
      then have "(o', Some k') \<in> set (op_vaultKeys p) \<or> key = Some k'" by auto
      then show "\<exists>w st. mine C me (panel_pins p) w \<and> decryptOwnOrgKey C st (kw_encryptedOrgKey w) = Inr k'"
        using ok k unfolding panel_ok_def by blast
    qed
  qed (use ok m in \<open>simp_all add: panel_ok_def\<close>)
qed

lemma select_preserves:
  assumes u: "me = Some userId"
  shows "preserves (panel_ok C me) (select_body C api st userId orgId)"
  unfolding select_body_def
proof (rule preserves_bind [OF preserves_pure(1)], rule preservesI)
  fix details v and p :: OrgPanel
  let ?rest = "\<lambda>(check, orgKey). io_bind (upd (\<lambda>p. p\<lparr>op_selectedOrg := Some details, op_orgCheck := Some check,
      op_vaultKeys := op_vaultKeys p @ [(orgId, orgKey)]\<rparr>)) (\<lambda>_.
     case (check, orgKey) of (CheckOk _, Some k) \<Rightarrow> remember_org C api orgId details k | _ \<Rightarrow> io_return ())"
  assume ok: "panel_ok C me p"
  show "panel_ok C me (snd (snd (io_bind (open_details C st userId details) ?rest (v, p))))"
  proof (cases "op_trust p")
    case None
    then show ?thesis by (simp add: io_bind_def open_details_def ok)
  next
    case (Some t)
    obtain r es where e: "openOrgKey C (os_id details) (od_wrapChain details) userId (os_role details) (device_pins t)
        (browserEpochs (epochs_key (dt_trustId t))) (decryptOwnOrgKey C st) (dt_epochs t) = (r, es)" by fastforce
    let ?t = "t\<lparr>dt_epochs := es\<rparr>" and ?p = "p\<lparr>op_trust := Some (t\<lparr>dt_epochs := es\<rparr>)\<rparr>"
    have ok1: "panel_ok C me ?p" by (rule panel_ok_trust [OF ok Some]) simp
    show ?thesis
    proof (cases r)
      case (Inl err)
      then show ?thesis using e Some ok1 by (simp add: io_bind_def open_details_def)
    next
      case (Inr ck)
      obtain check key where ck: "ck = (check, key)" by (rule prod.exhaust)
      let ?p2 = "?p\<lparr>op_selectedOrg := Some details, op_orgCheck := Some check, op_vaultKeys := op_vaultKeys ?p @ [(orgId, key)]\<rparr>"
      have ok2: "panel_ok C me ?p2"
        using panel_ok_selected [OF ok1 _ u, of ?t details] e by (simp add: Inr ck)
      have "preserves (panel_ok C me) (case (check, key) of (CheckOk _, Some k) \<Rightarrow> remember_org C api orgId details k | _ \<Rightarrow> io_return ())"
        by (cases check; cases key) (simp_all add: remember_org_preserves preserves_pure)
      with ok2 have "panel_ok C me (snd (snd ((case (check, key) of (CheckOk _, Some k) \<Rightarrow> remember_org C api orgId details k | _ \<Rightarrow> io_return ()) (v, ?p2))))"
        unfolding preserves_def by blast
      then show ?thesis using e Some Inr ck by (simp add: io_bind_def open_details_def upd_def)
    qed
  qed
qed

lemma selectOrg_ok:
  assumes ok: "panel_ok C me p"
  shows "panel_ok C me (snd (selectOrg C api orgId (v, p)))"
proof (cases "op_trust p \<noteq> None \<and> nonempty_opt (st_userId (op_store p)) \<noteq> None")
  case True
  then obtain t u where tu: "op_trust p = Some t" "nonempty_opt (st_userId (op_store p)) = Some u" by blast
  have me: "me = Some u" using ok tu(2) by (simp add: panel_ok_def nonempty_opt_Some)
  have "panel_ok C me (snd (shown (select_body C api (op_store p) u orgId) (\<lambda>p. p\<lparr>op_loading := False\<rparr>)
      (v, p\<lparr>op_loading := True, op_error := None\<rparr>)))"
    by (rule shown_preserves [OF select_preserves [OF me]]) (simp_all add: ok)
  then show ?thesis by (simp add: selectOrg_def tu)
qed (auto simp: selectOrg_def ok split: option.splits)


lemma panel_ok_store: "st_userId st' = st_userId (op_store p) \<Longrightarrow> panel_ok C me (p\<lparr>op_store := st'\<rparr>) = panel_ok C me p"
  by (simp add: panel_ok_def panel_pins_def)

lemma panel_ok_leave: "panel_ok C me p \<Longrightarrow> panel_ok C me (p\<lparr>op_selectedOrg := None, op_vaultKeys := op_vaultKeys p @ [(i, None)]\<rparr>)"
  by (simp add: panel_ok_def panel_pins_def)

lemma panel_ok_pending:
  "panel_ok C me p \<Longrightarrow> verifyKeyBundle C (ip_bundle i) \<Longrightarrow> ip_recipientPublicKey i = kb_publicKey (ip_bundle i) \<Longrightarrow>
   panel_ok C me (p\<lparr>op_pendingInvite := Some i\<rparr>)"
  by (simp add: panel_ok_def panel_pins_def)

lemma panel_ok_withdraw: "panel_ok C me p \<Longrightarrow> panel_ok C me (p\<lparr>op_pendingInvite := None\<rparr>)"
  by (simp add: panel_ok_def panel_pins_def)

lemmas preserves_intros = preserves_bind2 preserves_bind preserves_pure preserves_upd preserves_run on_trust_preserves confirm_preserves

lemma acceptInvite_ok:
  assumes "panel_ok C me p"
  shows "panel_ok C me (snd (acceptInvite C api invite (v, p)))"
proof -
  have "preserves (panel_ok C me) (io_bind (serve m) (\<lambda>_. io_bind (on_trust (\<lambda>t. t\<lparr>dt_epochs := f t\<rparr>)) (\<lambda>_. run (loadOrgs C api))))"
    for m :: "('a, js_error, unit) io" and f
    by (intro preserves_intros loadOrgs_ok) simp_all
  from shown_preserves [OF this, of "p\<lparr>op_error := None\<rparr>" id] show ?thesis
    using assms by (auto simp: acceptInvite_def split: OrgKeyCheck.splits option.splits)
qed

lemma resignOrg_ok:
  assumes "panel_ok C me p"
  shows "panel_ok C me (snd (resignOrg C rng api (v, p)))"
proof -
  have "preserves (panel_ok C me) (io_bind (io_lift r) (\<lambda>k. io_bind (io_lift (b k)) (\<lambda>(ws, sk). io_bind (serve (m ws)) (\<lambda>_.
      io_bind (upd (\<lambda>p. p\<lparr>op_resignOpen := False\<rparr>)) (\<lambda>_. io_bind (run (selectOrg C api i)) (\<lambda>_.
      upd (\<lambda>p. if sk = [] then p else p\<lparr>op_error := Some (Words (f sk))\<rparr>)))))))" for i f and r :: "CryptoKey js" and b :: "CryptoKey \<Rightarrow> (RewrapWrap list \<times> string list) js"
      and m :: "RewrapWrap list \<Rightarrow> ('a, js_error, unit) io"
    by (intro preserves_intros selectOrg_ok) simp_all
  from shown_preserves [OF this] show ?thesis
    using assms by (auto simp: resignOrg_def split: option.splits)
qed

lemma createOrg_ok:
  assumes "panel_ok C me p"
  shows "panel_ok C me (snd (createOrg C rnd api (v, p)))"
proof -
  have "preserves (panel_ok C me) (io_bind (io_lift r) (\<lambda>(u, kp, q). io_bind (serve (m q)) (\<lambda>created.
      io_bind (upd (\<lambda>p. p\<lparr>op_store := setKeyPair (ukp_protectedPrivateKey kp) (ukp_protectedPrivateKeyIv kp) (op_store p)\<rparr>)) (\<lambda>_.
      io_bind (serve (n u kp)) (\<lambda>_.
      upd (\<lambda>p. p\<lparr>op_orgs := op_orgs p @ [created], op_newOrgName := '''', op_showCreateForm := False\<rparr>))))))" for r and m :: "CreateOrgRequest \<Rightarrow> ('a, js_error, OrgSummary) io" and n :: "string \<Rightarrow> UserKeyPair \<Rightarrow> ('a, js_error, unit) io"
    by (intro preserves_bind preserves_pure, clarify, intro preserves_intros) (simp_all add: panel_ok_store setKeyPair_def)
  from shown_preserves [OF this] show ?thesis
    using assms by (auto simp: createOrg_def split: option.splits list.splits)
qed

lemma lookUpInvitee_ok:
  assumes "panel_ok C me p"
  shows "panel_ok C me (snd (lookUpInvitee C api (v, p)))"
proof -
  have "preserves (panel_ok C me) (io_bind (serve m) (\<lambda>bundle. io_bind (io_lift (verifyMemberKey C bundle pins)) (\<lambda>verified.
      upd (\<lambda>p. p\<lparr>op_pendingInvite := Some
        \<lparr>ip_bundle = bundle, ip_email = e, ip_emailHash = h, ip_recipientPublicKey = vk_rsaPublicKeyB64 verified,
         ip_safetyNumber = vk_safetyNumber verified, ip_firstSeen = vk_firstSeen verified\<rparr>\<rparr>))))" for m :: "('a, js_error, KeyBundle) io" and pins e h
    by (intro preserves_bind preserves_pure preserves_lift_bind preserves_upd panel_ok_pending) (auto dest: verifyMemberKey_Inr)
  from shown_preserves [OF this] show ?thesis
    using assms by (auto simp: lookUpInvitee_def Let_def split: option.splits list.splits)
qed

lemma inviteMember_ok:
  assumes "panel_ok C me p"
  shows "panel_ok C me (snd (inviteMember C rnd api (v, p)))"
proof -
  have "preserves (panel_ok C me) (io_bind (confirm C bs) (\<lambda>_. io_bind (io_lift r) (\<lambda>q. io_bind (serve (m q)) (\<lambda>_.
      io_bind (upd (\<lambda>p. p\<lparr>op_inviteEmail := '''', op_pendingInvite := None, op_showInviteForm := False\<rparr>)) (\<lambda>_.
      run (selectOrg C api i))))))" for bs r i and m :: "InviteMemberRequest \<Rightarrow> ('a, js_error, unit) io"
    by (intro preserves_intros selectOrg_ok) (simp_all add: panel_ok_withdraw)
  from shown_preserves [OF this] show ?thesis
    using assms by (auto simp: inviteMember_def split: option.splits OrgKeyCheck.splits)
qed

lemma prepareRotation_ok:
  assumes ok: "panel_ok C me p"
  shows "panel_ok C me (snd (prepareRotation C rnd api rem drops gone (v, p)))"
proof -
  have b: "preserves (panel_ok C me) (build_plan C rnd input orgId)" for input orgId
    by (rule preservesI) (auto simp: build_plan_def intro!: panel_ok_trust split: option.splits prod.splits)
  have "preserves (panel_ok C me) (io_bind (io_lift r) (\<lambda>k. io_bind (serve m) (\<lambda>items. build_plan C rnd (input k items) orgId)))"
    for r and m :: "('a, js_error, EncryptedVaultItem list) io" and input orgId
    by (intro preserves_intros b)
  moreover have "panel_ok C me (p\<lparr>op_saving := True, op_error := None, op_memberToRemove := None, op_rotateOpen := False\<rparr>)"
    by (simp add: ok)
  ultimately have "panel_ok C me (snd (snd (io_bind (io_lift r) (\<lambda>k. io_bind (serve m) (\<lambda>items. build_plan C rnd (input k items) orgId))
      (v, p\<lparr>op_saving := True, op_error := None, op_memberToRemove := None, op_rotateOpen := False\<rparr>))))"
    for r and m :: "('a, js_error, EncryptedVaultItem list) io" and input orgId
    unfolding preserves_def by blast
  then show ?thesis using ok
    by (auto simp: prepareRotation_def split_beta split: option.splits OrgKeyCheck.splits)
qed

lemma commitRotation_ok:
  assumes "panel_ok C me p"
  shows "panel_ok C me (snd (commitRotation C api (v, p)))"
proof -
  have "preserves (panel_ok C me) (io_bind (serve m) (\<lambda>_. io_bind (on_trust (after_rotation i drops plan)) (\<lambda>_.
      io_bind (upd (\<lambda>p. p\<lparr>op_rotation := None\<rparr>)) (\<lambda>_. run (selectOrg C api i)))))"
    for m :: "('a, js_error, unit) io" and i drops plan
    by (intro preserves_intros selectOrg_ok) (simp_all add: after_rotation_def)
  from shown_preserves [OF this] show ?thesis
    using assms by (auto simp: commitRotation_def split: option.splits sum.splits)
qed

lemma confirm_then_ok:
  assumes ok: "panel_ok C me p" and f: "\<And>v p. panel_ok C me p \<Longrightarrow> panel_ok C me (snd (f (v, p)))"
  shows "panel_ok C me (snd (confirm_then C check f (v, p)))"
proof -
  have "preserves (panel_ok C me) (io_bind (confirm C bs) (\<lambda>_. run f))" for bs
    by (intro preserves_intros f)
  then show ?thesis using ok by (auto simp: confirm_then_def preserves_def split: option.splits OrgKeyCheck.splits)
qed

lemma panel_pins_le: "op_trust p = None \<Longrightarrow> panel_pins p \<subseteq>\<^sub>m f"
  by (simp add: panel_pins_def)

lemma panel_step_ok:
  assumes ok: "panel_ok C me (snd w)"
  shows "panel_ok C me (snd (panel_step C api e w))"
proof -
  obtain v p where w: "w = (v, p)" by (rule prod.exhaust)
  then have ok: "panel_ok C me p" using ok by simp
  have "panel_ok C me (snd (panel_step C api e (v, p)))"
  proof (cases e)
    case (TrustOpened t)
    have "op_trust p = None \<Longrightarrow> panel_ok C me (p\<lparr>op_trust := Some t\<rparr>)"
      by (rule panel_ok_pins [OF ok panel_pins_le]) simp_all
    then show ?thesis using TrustOpened ok by (auto intro: loadOrgs_ok)
  next
    case (ConfirmMember b)
    then show ?thesis using confirm_preserves [of C me "[b]"] ok by (auto simp: preserves_def)
  next
    case Leave
    then show ?thesis using panel_ok_leave [OF ok] ok by (auto simp: leaveOrg_def split: option.splits)
  next
    case NewOrg
    have "panel_ok C me (p\<lparr>op_showCreateForm := True, op_selectedOrg := None\<rparr>)"
      by (rule panel_ok_pins [OF ok]) (simp_all add: panel_pins_def)
    then show ?thesis using NewOrg by simp
  next
    case (DeleteAndContinue rnd)
    then show ?thesis using ok prepareRotation_ok [OF ok]
      by (auto simp: deleteAndContinue_def split: option.splits sum.splits RotationIssue.splits)
  next
    case (GoneAndContinue rnd)
    then show ?thesis using ok prepareRotation_ok [OF ok]
      by (auto simp: goneAndContinue_def split: option.splits sum.splits RotationIssue.splits)
  next
    case (Typed name email role)
    then show ?thesis using ok panel_ok_withdraw [of C me] by (simp add: typed_def Let_def)
  next
    case (ConfirmInvite i)
    then show ?thesis using ok by (auto intro: confirm_then_ok loadOrgs_ok)
  next
    case ConfirmSigners
    then show ?thesis using ok by (auto intro: confirm_then_ok selectOrg_ok split: option.splits)
  qed (simp_all add: ok loadOrgs_ok acceptInvite_ok selectOrg_ok createOrg_ok resignOrg_ok lookUpInvitee_ok inviteMember_ok
        prepareRotation_ok commitRotation_ok)
  then show ?thesis by (simp add: w)
qed


lemma panel_run_ok:
  "panel_ok C me (snd w) \<Longrightarrow> panel_ok C me (snd (fold (panel_step C api) events w))"
  by (induction events arbitrary: w) (simp_all add: panel_step_ok del: panel_step.simps)


section \<open>A sample panel\<close>

definition demo_panel_store :: NopassStore where
  "demo_panel_store = (new_store None)\<lparr>st_userId := Some demo_user, st_stretchedMasterKey := Some (demo_aes_key 4),
     st_protectedPrivateKey := Some (ri_protectedPrivateKey demo_resign_identity),
     st_protectedPrivateKeyIv := Some (ri_protectedPrivateKeyIv demo_resign_identity)\<rparr>"

definition demo_device :: DeviceTrust where
  "demo_device = \<lparr>dt_trustId = ''t'', dt_pins = \<lparr>ps_pins = [(demo_user, ik_publicKeyB64 demo_derived)], ps_storage = None\<rparr>,
     dt_epochs = \<lparr>es_epochs = [], es_storage = None\<rparr>, dt_ledger = \<lparr>lg_entries = [], lg_storage = None\<rparr>,
     dt_revisions = new_MemoryRevisionStore None None\<rparr>"

definition demo_encrypted_key :: string where "demo_encrypted_key = toBase64 (frame [1, 2, 3] @ replicate 32 6)"

definition demo_details :: "string \<Rightarrow> KeyBundle \<Rightarrow> OrgDetails" where
  "demo_details sg b = \<lparr>os_id = demo_org, os_name = ''o'', os_role = ''owner'', os_memberCount = 1, os_createdAt = '''',
     od_members = [demo_owner_row], od_encryptedOrgKey = demo_encrypted_key,
     od_wrapChain = [\<lparr>wl_recipientUserId = demo_user, wl_role = ''owner'', wl_encryptedOrgKey = demo_encrypted_key,
       wl_wrapSignature = Some sg, wl_keyEpoch = Some 1, wl_signerUserId = demo_user, wl_signer = b\<rparr>]\<rparr>"

definition demo_org_api :: "OrgDetails \<Rightarrow> unit OrgApi" where
  "demo_org_api details =
     \<lparr>keys_me = io_throw (ApiError '''' 404), keys_setIdentity = (\<lambda>_. io_return ()), orgs_list = io_return [], orgs_invites = io_return [],
      orgs_accept = (\<lambda>_. io_return ()), orgs_get = (\<lambda>_. io_return details), orgs_items = (\<lambda>_. io_return []),
      orgs_rewrap = (\<lambda>_ _. io_return ()), orgs_create = (\<lambda>_. io_throw TypeError), orgs_getPublicKey = (\<lambda>_. io_throw (ApiError '''' 404)),
      orgs_invite = (\<lambda>_ _. io_return ()), orgs_rotate = (\<lambda>_ _. io_return ())\<rparr>"

lemma demo_own: "own_identity demo_panel_store = Some demo_resign_identity"
  "nonempty_opt (st_userId demo_panel_store) = Some demo_user" "st_userId demo_panel_store = Some demo_user"
proof -
  have "ri_protectedPrivateKey demo_resign_identity \<noteq> ''''" "ri_protectedPrivateKeyIv demo_resign_identity \<noteq> ''''"
    using demo_derives by (auto simp: demo_resign_identity_def demo_crypto_def)
  then show "own_identity demo_panel_store = Some demo_resign_identity"
    by (simp add: own_identity_def demo_panel_store_def nonempty_opt_def) (simp add: demo_resign_identity_def)
qed (simp_all add: demo_panel_store_def nonempty_opt_def demo_user_def)

lemma demo_own_key: "decryptOwnOrgKey demo_crypto demo_panel_store demo_encrypted_key = Inr (generateOrgKey (replicate 32 6))"
proof -
  let ?priv = "\<lparr>ck_algorithm = RsaOaep, ck_material = [1, 2, 3], ck_extractable = False, ck_usages = [UseDecrypt]\<rparr>"
  have "decryptUserPrivateKey demo_crypto (ri_protectedPrivateKey demo_resign_identity) (ri_protectedPrivateKeyIv demo_resign_identity)
      (ri_stretchedMasterKey demo_resign_identity) = Inr ?priv"
    by (simp add: decryptUserPrivateKey_def demo_resign_identity_def subtle_decrypt_def demo_aes_key_def ck_allows_def
        aead_correctD [OF demo_aead_correct] subtle_importPkcs8_def demo_rsa)
  moreover have "decryptOrgKey demo_crypto demo_encrypted_key ?priv = Inr (generateOrgKey (replicate 32 6))"
    by (rule decryptOrgKey_wrapped [OF demo_rsa_correct demo_rsa(1)]) (simp_all add: demo_encrypted_key_def demo_wraps_key ck_allows_def)
  ultimately show ?thesis by (simp add: decryptOwnOrgKey_def demo_own)
qed

lemma demo_details_open:
  "\<exists>sg b. openOrgKey demo_crypto demo_org (od_wrapChain (demo_details sg b)) demo_user ''owner'' (device_pins demo_device)
     (browserEpochs (epochs_key ''t'')) (decryptOwnOrgKey demo_crypto demo_panel_store) (dt_epochs demo_device) =
   (Inr (CheckOk (owner_wrap demo_org demo_user demo_encrypted_key), Some (generateOrgKey (replicate 32 6))),
    epochs_record (browserEpochs (epochs_key ''t'')) demo_org 1 (dt_epochs demo_device))"
proof -
  let ?w = "owner_wrap demo_org demo_user demo_encrypted_key"
  obtain m where "bundleMessage demo_user (toBase64 [1, 2, 3]) = Inr m" using demo_values by (auto simp: bundleMessage_Inr)
  then have "signKeyBundle demo_crypto demo_user (toBase64 [1, 2, 3]) (ik_secretKey demo_derived) =
      Inr (toBase64 (ed25519_sign demo_crypto m (ik_secretKey demo_derived)))" by (simp add: signKeyBundle_def)
  then obtain b where b: "verifyKeyBundle demo_crypto b" "kb_userId b = demo_user" "kb_identityPublicKey b = Some (ik_publicKeyB64 demo_derived)"
    using signed_bundle_verifies [OF demo_sig] by (fastforce simp: demo_derived_def Let_def)
  obtain sg where sg: "signOrgKeyWrap demo_crypto ?w (ik_secretKey demo_derived) = Inr sg"
    using demo_signs [of demo_user 1 "''owner''"] by (auto simp: owner_wrap_def demo_encrypted_key_def)
  let ?l = "\<lparr>sl_wrap = ?w, sl_signature = Some sg, sl_signer = b\<rparr>"
  have l: "chainFromServer demo_org (od_wrapChain (demo_details sg b)) = [?l]"
    by (simp add: chainFromServer_def link_from_server_def owner_wrap_def demo_details_def)
  have pins: "device_pins demo_device demo_user = Some (ik_publicKeyB64 demo_derived)"
    by (simp add: device_pins_def demo_device_def browserPins_def)
  have "chain_loop demo_crypto (kw_orgId ?w) (kw_epoch ?w) (device_pins demo_device) [] [?l] = Inr []"
    by (rule owner_chain_accepted [OF demo_sig sg b(1)])
       (use b(2,3) pins in \<open>simp_all add: owner_wrap_def demo_derived_def Let_def\<close>)
  then have "verifyOrgKeyChain demo_crypto (chainFromServer demo_org (od_wrapChain (demo_details sg b))) demo_org demo_user
      (device_pins demo_device) (epochs_get (browserEpochs (epochs_key ''t'')) (dt_epochs demo_device)) = Inr ?w"
    by (simp add: l verifyOrgKeyChain_Inr owner_wrap_def browserEpochs_def demo_device_def del: chain_loop.simps)
  then have "checkOrgKey demo_crypto demo_org (od_wrapChain (demo_details sg b)) demo_user ''owner'' (device_pins demo_device)
      (epochs_get (browserEpochs (epochs_key ''t'')) (dt_epochs demo_device)) = CheckOk ?w"
    by (simp add: checkOrgKey_def demo_details_def)
  then show ?thesis using demo_own_key
    by (intro exI [of _ sg] exI [of _ b]) (simp add: openOrgKey_def, simp add: owner_wrap_def)
qed


text \<open>The panel after the stores are opened and the organization is selected.\<close>

lemmas panel_run = shown_def caught_def show_panel_error_def select_body_def serve_def upd_def open_details_def remember_org_def on_trust_def on_ledger_def
  verify_org_items_def recordVerifiedOrgItems_def both_def run_def io_simps

lemma demo_panel_run:
  "\<exists>sg b p t. fold (panel_step demo_crypto (demo_org_api (demo_details sg b))) [TrustOpened demo_device, Select demo_org]
       ((), new_panel demo_panel_store) = ((), p) \<and>
     op_trust p = Some t \<and> op_vaultKeys p = [(demo_org, Some (generateOrgKey (replicate 32 6)))] \<and>
     op_orgCheck p = Some (CheckOk (owner_wrap demo_org demo_user demo_encrypted_key)) \<and>
     op_selectedOrg p = Some (demo_details sg b) \<and> op_rotation p = None \<and> op_store p = demo_panel_store \<and>
     dt_pins t = dt_pins demo_device \<and> dt_revisions t = new_MemoryRevisionStore None None \<and>
     known (dt_ledger t) demo_org = ({}, {demo_user})"
proof -
  obtain sg b where o': "openOrgKey demo_crypto demo_org (od_wrapChain (demo_details sg b)) demo_user ''owner'' (device_pins demo_device)
     (browserEpochs (epochs_key ''t'')) (decryptOwnOrgKey demo_crypto demo_panel_store) (dt_epochs demo_device) =
   (Inr (CheckOk (owner_wrap demo_org demo_user demo_encrypted_key), Some (generateOrgKey (replicate 32 6))),
    epochs_record (browserEpochs (epochs_key ''t'')) demo_org 1 (dt_epochs demo_device))" using demo_details_open by blast
  have d: "os_id (demo_details sg b) = demo_org" "os_role (demo_details sg b) = ''owner''"
    "od_members (demo_details sg b) = [demo_owner_row]" "om_userId demo_owner_row = demo_user"
    by (simp_all add: demo_details_def demo_owner_row_def)
  have i: "dt_trustId demo_device = ''t''" "dt_ledger demo_device = \<lparr>lg_entries = [], lg_storage = None\<rparr>"
    "dt_revisions demo_device = new_MemoryRevisionStore None None" by (simp_all add: demo_device_def)
  have e: "known \<lparr>lg_entries = [], lg_storage = None\<rparr> demo_org = ({}, {})" by (simp add: known_def entry_of_def)
  have u: "nonempty_opt (Some demo_user) = Some demo_user" using demo_own(2,3) by simp
  show ?thesis
    by (intro exI [of _ sg] exI [of _ b])
       (simp add: new_panel_def loadOrgs_def selectOrg_def panel_run demo_org_api_def demo_own u o' d i known_remember seen_sets_def or_empty_def e)
qed


section \<open>Keys that are shared without being checked\<close>

text \<open>
  An invite and a re-signing wrap the key in \<open>encryptedOrgKey\<close> of the server's answer, which no
  signature covers, and not the one of the wrap that was verified. Anybody can encrypt a key of theirs to
  this user, so the server can have its own key signed and passed on as the organization's.
\<close>

lemma invite_shares_served_key:
  assumes "invite_request C rnd st own org checked userId role pending = Inr request"
  shows "\<exists>k. decryptOwnOrgKey C st (od_encryptedOrgKey org) = Inr k \<and>
    encryptOrgKeyForMember C rnd k (ip_recipientPublicKey pending) = Inr (im_encryptedOrgKey request)"
  using assms by (auto simp: invite_request_def rbind_eq_Inr)

lemma swapped_key_is_shared:
  assumes "decryptOwnOrgKey C st (kw_encryptedOrgKey checked) = Inr k" "decryptOwnOrgKey C st swapped = Inr k'"
    and "invite_request C rnd st own (org\<lparr>od_encryptedOrgKey := swapped\<rparr>) checked userId role pending = Inr request"
  shows "encryptOrgKeyForMember C rnd k' (ip_recipientPublicKey pending) = Inr (im_encryptedOrgKey request) \<and>
    im_keyEpoch request = kw_epoch checked \<and>
    (\<exists>sk. signOrgKeyWrap C (invite_wrap org checked userId role pending (im_encryptedOrgKey request)) sk = Inr (im_wrapSignature request))"
  using assms(2,3) by (auto simp: invite_request_def rbind_eq_Inr invite_wrap_def)

section \<open>Rotations\<close>

text \<open>What stands in the panel when a plan is shown.\<close>

lemma prepareRotation_plan:
  assumes "prepareRotation C rnd api rem drops gone (v, p) = (v1, p1)" "op_rotation p = None"
    "op_rotation p1 = Some r" "rs_outcome r = Inr plan"
  obtains org checked t userId own oldKey items s where "op_selectedOrg p = Some org" "op_orgCheck p = Some (CheckOk checked)"
    "op_trust p = Some t" "orgs_items api (os_id org) v = (Inr items, v1)"
    "buildRotation C rnd (rotation_input (op_store p) own t org checked userId oldKey items rem drops gone) (dt_revisions t) = (Inr plan, s)"
    "rs_removeUserId r = rem" "rs_dropItemIds r = drops" "op_selectedOrg p1 = Some org" "op_store p1 = op_store p"
    "op_trust p1 = Some (t\<lparr>dt_revisions := s, dt_ledger := snd (ledger_get (os_id org) (dt_ledger t))\<rparr>)"
proof -
  obtain org checked t userId where sel: "op_selectedOrg p = Some org" "op_orgCheck p = Some (CheckOk checked)" "op_trust p = Some t"
    "nonempty_opt (st_userId (op_store p)) = Some userId"
    using assms(1-3) by (auto simp: prepareRotation_def split: option.splits OrgKeyCheck.splits)
  obtain own where own: "own_identity (op_store p) = Some own"
    using assms(1-3) sel by (auto simp: prepareRotation_def split: option.splits)
  show thesis
    using assms that [OF sel(1-3)] sel own
    by (auto simp: prepareRotation_def io_bind_def io_lift_def serve_def build_plan_def split: prod.splits sum.splits)
qed

text \<open>The memory of the organization after a rotation went through.\<close>

lemma known_after_rotation:
  "known (dt_ledger (after_rotation orgId drops plan t)) orgId =
     (fst (known (dt_ledger t) orgId) - (set drops \<union> set (le_items (rp_acknowledgedGone plan))) \<union> re_id ` set (rk_items (rp_request plan)),
      snd (known (dt_ledger t) orgId) - (set (rp_losesAccess plan) \<union> set (le_members (rp_acknowledgedGone plan))) \<union> set (rp_keepsAccess plan))"
  by (simp add: after_rotation_def on_ledger_def known_remember known_forget seen_sets_def or_empty_def)

lemma rotation_plan_members:
  assumes "buildRotation C rnd input s = (Inr plan, s')"
  shows "rp_keepsAccess plan = map om_userId (remaining_members input)"
    "rp_losesAccess plan = (case nonempty_opt (ro_removeUserId input) of None \<Rightarrow> [] | Some u \<Rightarrow> [u])"
    "rp_acknowledgedGone plan = \<lparr>le_items = gone_items input, le_members = gone_members input\<rparr>"
  using assms by (auto simp: buildRotation_def Let_def split: if_splits sum.splits prod.splits)



lemma demo_panel_plan:
  assumes "op_trust p = Some t" "dt_revisions t = s0" "known (dt_ledger t) demo_org = ({}, {demo_user})"
    and "op_orgCheck p = Some (CheckOk (owner_wrap demo_org demo_user demo_encrypted_key))"
    and "op_selectedOrg p = Some (demo_details sg b)" "op_store p = demo_panel_store"
  shows "\<exists>p1 r plan t1. prepareRotation demo_crypto demo_rotation_rnd (demo_org_api (demo_details sg b)) None [] \<lparr>le_items = [], le_members = []\<rparr>
      ((), p) = ((), p1) \<and> op_rotation p1 = Some r \<and> rs_outcome r = Inr plan \<and> op_trust p1 = Some t1"
proof -
  let ?w = "owner_wrap demo_org demo_user demo_encrypted_key" and ?org = "demo_details sg b"
  let ?in = "rotation_input demo_panel_store demo_resign_identity t ?org ?w demo_user (generateOrgKey (replicate 32 6)) [] None []
      \<lparr>le_items = [], le_members = []\<rparr>"
  let ?re = "\<lparr>rin_orgId = demo_org, rin_epoch = 2, rin_ownerUserId = demo_user, rin_orgKey = generateOrgKey (rnd_newKey demo_rotation_rnd),
      rin_members = [demo_owner_row], rin_pins = device_pins t, rin_identity = demo_resign_identity\<rparr>"
  obtain e l where g: "ledger_get demo_org (dt_ledger t) = (e, l)" by (rule prod.exhaust)
  have e: "le_items e = []" "set (le_members e) = {demo_user}"
    using ledger_get_props(1) [OF g] assms(3) by simp_all
  have d: "os_id ?org = demo_org" "od_members ?org = [demo_owner_row]" "om_userId demo_owner_row = demo_user" "om_role demo_owner_row = ''owner''"
    by (simp_all add: demo_details_def demo_owner_row_def)
  have k: "resign_key demo_crypto ?re demo_derived demo_owner_row = Some (toBase64 [1, 2, 3])"
    by (simp add: resign_key_def demo_owner_row_def demo_derived_def Let_def)
  obtain sg2 where sg2: "signOrgKeyWrap demo_crypto (resign_wrap_for ?re demo_owner_row
      (toBase64 (frame [1, 2, 3] @ rnd_newKey demo_rotation_rnd))) (ik_secretKey demo_derived) = Inr sg2"
    using demo_signs [of demo_user 2 "''owner''"] by (auto simp: resign_wrap_for_def d)
  obtain ws where ws: "buildResignedWraps demo_crypto (rnd_wrap demo_rotation_rnd) ?re = Inr (ws, [])"
    using sg2 k by (simp add: buildResignedWraps_def demo_derives demo_wraps_key)
  have "gone_items ?in = []" "gone_members ?in = []"
    using e by (auto simp: gone_items_def gone_members_def rotation_input_def d g filter_empty_conv)
  moreover have "remaining_members ?in = [demo_owner_row]" "ro_orgId ?in = demo_org" "ro_currentEpoch ?in = 1" "ro_ownerUserId ?in = demo_user"
    "ro_pins ?in = device_pins t" "ro_identity ?in = demo_resign_identity" "ro_items ?in = []"
    by (simp_all add: remaining_members_def rotation_input_def d owner_wrap_def)
  ultimately obtain plan where "buildRotation demo_crypto demo_rotation_rnd ?in (dt_revisions t) = (Inr plan, dt_revisions t)"
    using ws by (simp add: buildRotation_def)
  moreover have "kw_encryptedOrgKey ?w = demo_encrypted_key" by (simp add: owner_wrap_def)
  moreover have "nonempty_opt (st_userId demo_panel_store) = Some demo_user" by (rule demo_own(2))
  ultimately show ?thesis using assms(1,4-6)
    by (simp add: prepareRotation_def demo_own(1) demo_own_key io_bind_def io_lift_def serve_def build_plan_def demo_org_api_def io_return_def)
qed



section \<open>Invites\<close>

text \<open>
  Whoever an invite is sent to has a verified bundle whose identity key is pinned from then on, and what
  is sent is an organization key wrapped for the key in that bundle, under the epoch that was verified.
\<close>

lemma confirm_one:
  assumes "confirm C [b] (v, p) = (Inr (), (v', p'))" "op_trust p = Some t"
  obtains t' where "op_trust p' = Some t'" "v' = v" "verifyKeyBundle C b" "device_pins t' (kb_userId b) = kb_identityPublicKey b"
proof -
  obtain s where s: "confirmKey C (browserPins (pins_key (dt_trustId t))) b (dt_pins t) = (Inr (), s)"
    and p': "op_trust p' = Some (t\<lparr>dt_pins := s\<rparr>)" "v' = v"
    using assms by (auto simp: confirm_def split: prod.splits sum.splits)
  from browser_pins.confirm_result [OF s] that [OF p'] show thesis by (simp add: device_pins_def)
qed

lemma invite_reaches_pinned_member:
  assumes "fold (panel_step C api) events (v0, new_panel store) = (v, p)" "inviteMember C rnd api (v, p) = (v', p')" "v' \<noteq> v"
  shows "\<exists>pending org checked st own userId request. op_pendingInvite p = Some pending \<and> op_selectedOrg p = Some org \<and>
    op_orgCheck p = Some (CheckOk checked) \<and> vouched C (panel_pins p) (os_id org) (kw_epoch checked) checked \<and>
    verifyKeyBundle C (ip_bundle pending) \<and> ip_recipientPublicKey pending = kb_publicKey (ip_bundle pending) \<and>
    panel_pins (snd (snd (confirm C [ip_bundle pending] (v, p)))) (kb_userId (ip_bundle pending)) = kb_identityPublicKey (ip_bundle pending) \<and>
    invite_request C rnd st own org checked userId (op_inviteRole p) pending = Inr request \<and>
    (\<exists>u. nonempty_opt (st_userId (op_store p)) = Some u \<and> userId = u \<and> own_identity (op_store p) = Some own \<and> st = op_store p)"
proof -
  obtain pending org t checked own userId where sel: "op_pendingInvite p = Some pending" "op_selectedOrg p = Some org" "op_trust p = Some t"
      "op_orgCheck p = Some (CheckOk checked)" "own_identity (op_store p) = Some own" "nonempty_opt (st_userId (op_store p)) = Some userId"
    using assms(2,3) by (auto simp: inviteMember_def split: option.splits OrgKeyCheck.splits)
  obtain k where k: "st_stretchedMasterKey (op_store p) = Some k" using sel(5) by (auto simp: own_identity_def split: option.splits)
  have ok: "panel_ok C (st_userId store) p"
    using panel_run_ok [of C "st_userId store" "(v0, new_panel store)" api events] assms(1) by (simp add: panel_ok_def new_panel_def)
  let ?p = "p\<lparr>op_saving := True, op_error := None\<rparr>"
  obtain r v1 p1 where c: "confirm C [ip_bundle pending] (v, ?p) = (r, (v1, p1))" by (metis prod.exhaust)
  have same: "snd (snd (confirm C [ip_bundle pending] (v, p))) = p1\<lparr>op_saving := op_saving p, op_error := op_error p\<rparr>" and v1: "v1 = v"
    using c by (auto simp: confirm_def sel(3) split: prod.splits sum.splits)
  have r: "r = Inr ()"
    using assms(2,3) c v1 by (cases r) (auto simp: inviteMember_def sel k shown_def caught_def show_panel_error_def io_bind_def)
  obtain t' where t': "op_trust p1 = Some t'" "device_pins t' (kb_userId (ip_bundle pending)) = kb_identityPublicKey (ip_bundle pending)"
    by (rule confirm_one [OF c [unfolded r], of t]) (simp_all add: sel(3))
  have "\<exists>request. invite_request C rnd (op_store p) own org checked userId (op_inviteRole p) pending = Inr request"
    using assms(2,3) c r v1 by (cases "invite_request C rnd (op_store p) own org checked userId (op_inviteRole p) pending")
      (auto simp: inviteMember_def sel k shown_def caught_def show_panel_error_def io_bind_def io_lift_def)
  then obtain request where "invite_request C rnd (op_store p) own org checked userId (op_inviteRole p) pending = Inr request" by blast
  moreover have "vouched C (panel_pins p) (os_id org) (kw_epoch checked) checked"
    using ok sel by (simp add: panel_ok_def mine_def)
  moreover have "verifyKeyBundle C (ip_bundle pending) \<and> ip_recipientPublicKey pending = kb_publicKey (ip_bundle pending)"
    using ok sel(1) by (simp add: panel_ok_def)
  moreover have "panel_pins (snd (snd (confirm C [ip_bundle pending] (v, p)))) (kb_userId (ip_bundle pending)) = kb_identityPublicKey (ip_bundle pending)"
    using t' by (simp add: same panel_pins_def)
  ultimately show ?thesis using sel by blast
qed

end
