(* ===== verification/Vault_Context.thy ===== *)
theory Vault_Context
  imports Vault_Model Vault_Store Identity_Migration Ui_Handlers
begin

text \<open>
  The open vault in the browser (apps/web/src/components/vault/vault-context.tsx): loading and decrypting
  the items, filters and selection, editing, and every change that is sent to the server.

  \<open>VaultView\<close> is the state of the component with the store it works on. An effect may run at any time its
  conditions allow. Decrypted items are kept as the JSON values they are; where the code reads a field of
  one, the value is read as an item, and a value that is none has no fields to show. The random bytes of a
  step, the time and the answer about the account's format are arguments, and so are the answers to what
  \<open>localStorage\<close> holds when the revision store is opened.
\<close>

section \<open>What the server serves and is sent\<close>

record VaultInfo =
  vi_id :: string
  vi_nameBlob :: string
  vi_nameIv :: string
  vi_createdAt :: string

record 'v VaultApi = "'v IdentityApi" +
  vault_list :: "('v, js_error, VaultInfo list) io"
  vault_items :: "string \<Rightarrow> ('v, js_error, EncryptedVaultItem list) io"
  vault_create :: "string \<Rightarrow> CreateVaultItemRequest \<Rightarrow> ('v, js_error, EncryptedVaultItem) io"
  vault_update :: "string \<Rightarrow> string \<Rightarrow> UpdateVaultItemRequest \<Rightarrow> ('v, js_error, int \<times> string) io"
  vault_delete :: "string \<Rightarrow> string \<Rightarrow> ('v, js_error, unit) io"
  vault_moveItem :: "string \<Rightarrow> string \<Rightarrow> string \<Rightarrow> ('v, js_error, unit) io"
  vault_createVault :: "string \<Rightarrow> string \<Rightarrow> ('v, js_error, VaultInfo) io"
  keys_setVaultFormat :: "string \<Rightarrow> ('v, js_error, unit) io"

section \<open>State\<close>

record ReviewFilter =
  rf_label :: string
  rf_ids :: "string list"

definition IDLE_LOCK_MS :: int where "IDLE_LOCK_MS = 15 * 60 * 1000"

text \<open>
  \<open>vw_noticeTimer\<close> and \<open>vw_copyTimer\<close> tell whether a timer is running that will take the message away;
  \<open>vw_idleSince\<close> is when the idle timer was started.
\<close>

record VaultView =
  vw_store :: NopassStore
  vw_decrypted :: "(string \<times> json) list"
  vw_revisions :: "MemoryRevisionStore option"
  vw_upgradeStarted :: bool
  vw_vaults :: "VaultInfo list"
  vw_vaultNames :: "(string \<times> string) list"
  vw_activeVaultId :: "string option"
  vw_filter :: Filter
  vw_tag :: "string option"
  vw_search :: string
  vw_sort :: SortKey
  vw_review :: "ReviewFilter option"
  vw_selectedId :: "string option"
  vw_detailOpen :: bool
  vw_creating :: "VaultItemType option"
  vw_editing :: bool
  vw_saving :: bool
  vw_copyStatus :: "string option"
  vw_copyTimer :: bool
  vw_notice :: "string option"
  vw_noticeTimer :: bool
  vw_error :: "UiMessage option"
  vw_shareFor :: "string option"
  vw_pathname :: string
  vw_idleSince :: int

definition new_view :: "NopassStore \<Rightarrow> string \<Rightarrow> int \<Rightarrow> VaultView" where
  "new_view store pathname now =
     \<lparr>vw_store = store, vw_decrypted = [], vw_revisions = None, vw_upgradeStarted = False, vw_vaults = [],
      vw_vaultNames = [], vw_activeVaultId = None, vw_filter = AllItems, vw_tag = None, vw_search = '''',
      vw_sort = ByName, vw_review = None, vw_selectedId = None, vw_detailOpen = False, vw_creating = None,
      vw_editing = False, vw_saving = False, vw_copyStatus = None, vw_copyTimer = False, vw_notice = None,
      vw_noticeTimer = False, vw_error = None, vw_shareFor = None, vw_pathname = pathname, vw_idleSince = now\<rparr>"

type_synonym 'v view = "'v \<times> VaultView"
type_synonym ('v, 'a) view_io = "('v, VaultView, 'a) handler"

definition show_view_error :: "js_error \<Rightarrow> VaultView \<Rightarrow> VaultView" where
  "show_view_error e w = w\<lparr>vw_error := Some (MessageOf e)\<rparr>"

definition on_store :: "(NopassStore \<Rightarrow> NopassStore) \<Rightarrow> VaultView \<Rightarrow> VaultView" where
  "on_store f w = w\<lparr>vw_store := f (vw_store w)\<rparr>"

definition view_keys :: "VaultView \<Rightarrow> VaultKeys option" where
  "view_keys w =
     (case (st_vaultEncKey (vw_store w), st_vaultMacKey (vw_store w)) of
        (Some enc, Some mac) \<Rightarrow> Some \<lparr>vk_vaultEncKey = enc, vk_vaultMacKey = mac\<rparr>
      | _ \<Rightarrow> None)"

definition session :: "VaultView \<Rightarrow> string option" where
  "session w = nonempty_opt (st_sessionToken (vw_store w))"

section \<open>Session guards\<close>

text \<open>
  Locking takes the vault out of memory and leaves the page, which ends the component: its state starts
  anew with the next session.
\<close>

definition leave :: "VaultView \<Rightarrow> VaultView" where
  "leave w = new_view (lock (vw_store w)) ''/login'' (vw_idleSince w)"

definition idle_timer :: "int \<Rightarrow> VaultView \<Rightarrow> VaultView" where
  "idle_timer now w =
     (if isUnlocked (vw_store w) \<and> IDLE_LOCK_MS \<le> now - vw_idleSince w then leave w else w)"

definition active :: "int \<Rightarrow> VaultView \<Rightarrow> VaultView" where
  "active now w = w\<lparr>vw_idleSince := now\<rparr>"

definition check_identity :: "crypto \<Rightarrow> 'v VaultApi \<Rightarrow> 'v view \<Rightarrow> 'v view" where
  "check_identity C api = (\<lambda>(v, w).
     case (session w, nonempty_opt (st_userId (vw_store w)), st_stretchedMasterKey (vw_store w),
           nonempty_opt (st_protectedPrivateKey (vw_store w)), nonempty_opt (st_protectedPrivateKeyIv (vw_store w))) of
       (Some _, Some userId, Some key, Some private, Some iv) \<Rightarrow>
         caught (\<lambda>e w. case e of OwnKeyMismatchError _ \<Rightarrow> show_view_error e w | _ \<Rightarrow> w)
           (serve (ensureIdentityPublished C (IdentityApi.truncate api)
              \<lparr>okm_userId = userId, okm_protectedPrivateKey = private, okm_protectedPrivateKeyIv = iv, okm_stretchedMasterKey = key\<rparr> None))
           id (v, w)
     | _ \<Rightarrow> (v, w))"

section \<open>Loading\<close>

definition load_vault :: "'v VaultApi \<Rightarrow> 'v view \<Rightarrow> 'v view" where
  "load_vault api = (\<lambda>(v, w).
     if \<not> isUnlocked (vw_store w) \<or> session w = None \<or> nonempty_opt (st_defaultVaultId (vw_store w)) = None then (v, w)
     else
       caught show_view_error
         (io_bind (serve (vault_list api)) (\<lambda>vaults.
          io_bind (upd (\<lambda>w. w\<lparr>vw_vaults := vaults\<rparr>)) (\<lambda>_.
          io_bind (serve (all_of (vault_items api) (map vi_id vaults))) (\<lambda>perVault.
          upd (on_store (\<lambda>s. s\<lparr>st_items := concat perVault\<rparr>))))))
         (on_store (\<lambda>s. s\<lparr>st_isLoading := False\<rparr>))
         (v, on_store (\<lambda>s. s\<lparr>st_isLoading := True\<rparr>) w))"

text \<open>
  \<open>decode\<close> is \<open>TextDecoder.decode\<close>, which gives the replacement character, outside the texts modelled,
  for bytes that are no UTF-8.
\<close>

definition vault_name :: "crypto \<Rightarrow> (bytes \<Rightarrow> string) \<Rightarrow> CryptoKey \<Rightarrow> string option \<Rightarrow> VaultInfo \<Rightarrow> string" where
  "vault_name C decode key defaultVaultId v =
     (case decryptBytes C \<lparr>eb_blob = vi_nameBlob v, eb_blobIv = vi_nameIv v, eb_blobMac = ''''\<rparr> key of
        Inr bs \<Rightarrow> decode bs
      | Inl _ \<Rightarrow> if Some (vi_id v) = defaultVaultId then ''Personal'' else ''Vault'')"

definition name_vaults :: "crypto \<Rightarrow> (bytes \<Rightarrow> string) \<Rightarrow> VaultView \<Rightarrow> VaultView" where
  "name_vaults C decode w =
     (case st_vaultEncKey (vw_store w) of
        None \<Rightarrow> w
      | Some key \<Rightarrow>
          if vw_vaults w = [] then w
          else w\<lparr>vw_vaultNames :=
            js_map_new (map (\<lambda>v. (vi_id v, vault_name C decode key (st_defaultVaultId (vw_store w)) v)) (vw_vaults w))\<rparr>)"

text \<open>Every active item is decrypted against the one revision store; what fails is counted and hidden.\<close>

record Decryption =
  dn_shown :: "(string \<times> json) list"
  dn_rolledBack :: nat
  dn_failed :: nat

fun decrypt_items ::
  "crypto \<Rightarrow> VaultKeys \<Rightarrow> EncryptedVaultItem list \<Rightarrow> MemoryRevisionStore \<Rightarrow> Decryption \<times> MemoryRevisionStore" where
  "decrypt_items C keys [] s = (\<lparr>dn_shown = [], dn_rolledBack = 0, dn_failed = 0\<rparr>, s)"
| "decrypt_items C keys (i # items) s =
     (case decryptVaultItem C (ev_encrypted i) (bindingForItem i) keys (Some s) of
        (r, s1) \<Rightarrow>
          (case decrypt_items C keys items (case s1 of None \<Rightarrow> s | Some x \<Rightarrow> x) of
             (d, s2) \<Rightarrow>
               ((case r of
                   Inr x \<Rightarrow> d\<lparr>dn_shown := (ev_id i, di_plaintext x) # dn_shown d\<rparr>
                 | Inl (ItemRollbackError _ _ _) \<Rightarrow> d\<lparr>dn_rolledBack := dn_rolledBack d + 1\<rparr>
                 | Inl (LegacyItemRejectedError _) \<Rightarrow> d\<lparr>dn_rolledBack := dn_rolledBack d + 1\<rparr>
                 | Inl _ \<Rightarrow> d\<lparr>dn_failed := dn_failed d + 1\<rparr>), s2)))"

definition rolled_back_message :: "nat \<Rightarrow> string" where
  "rolled_back_message n =
     nat_to_string n @ '' item'' @ (if n = 1 then '' was'' else ''s were'') @
     '' served in an older version than this device has already seen, so '' @ (if n = 1 then ''it is'' else ''they are'') @
     '' hidden. The server may be replaying old data.''"

definition failed_message :: "nat \<Rightarrow> string" where
  "failed_message n =
     nat_to_string n @ '' item'' @ (if n = 1 then '''' else ''s'') @ '' could not be decrypted and '' @
     (if n = 1 then ''is'' else ''are'') @ '' hidden. '' @ (if n = 1 then ''It'' else ''They'') @
     '' may be damaged or tampered with.''"

definition decrypt_view :: "crypto \<Rightarrow> VaultView \<Rightarrow> VaultView" where
  "decrypt_view C w =
     (case (view_keys w, vw_revisions w) of
        (Some keys, Some s) \<Rightarrow>
          (case decrypt_items C keys (activeItems (vw_store w)) s of
             (d, s') \<Rightarrow>
               let w' = w\<lparr>vw_decrypted := js_map_new (dn_shown d), vw_revisions := Some s'\<rparr> in
               if 0 < dn_rolledBack d then w'\<lparr>vw_error := Some (Words (rolled_back_message (dn_rolledBack d)))\<rparr>
               else if 0 < dn_failed d then w'\<lparr>vw_error := Some (Words (failed_message (dn_failed d)))\<rparr>
               else w')
      | _ \<Rightarrow> w)"

text \<open>
  The revision store is opened once for a session; \<open>fetched\<close> is the answer about the account's format.
\<close>

definition open_revisions :: "crypto \<Rightarrow> string option js \<Rightarrow> LocalStorage option \<Rightarrow> VaultView \<Rightarrow> VaultView" where
  "open_revisions C fetched storage w =
     (case (st_vaultMacKey (vw_store w), session w, vw_revisions w) of
        (Some mac, Some _, None) \<Rightarrow>
          (case openRevisionStore C mac (Some fetched)
                  (Some \<lparr>ai_vaultId = st_defaultVaultId (vw_store w), ai_userId = st_userId (vw_store w)\<rparr>) storage of
             Inl _ \<Rightarrow> w
           | Inr (s, _) \<Rightarrow> w\<lparr>vw_revisions := Some s\<rparr>)
      | _ \<Rightarrow> w)"

definition write_upgraded ::
  "'v VaultApi \<Rightarrow> EncryptedVaultItem \<Rightarrow> EncryptedBlob \<Rightarrow> ('v, unit) view_io" where
  "write_upgraded api item e =
     io_bind (serve (vault_update api (ev_vaultId item) (ev_id item) \<lparr>uv_blob = e, uv_version = ev_version item\<rparr>))
       (\<lambda>(version, updatedAt).
     upd (on_store (upsertItem (item\<lparr>ev_blob := eb_blob e, ev_blobIv := eb_blobIv e, ev_blobMac := eb_blobMac e,
        ev_version := version, ev_updatedAt := updatedAt\<rparr>))))"

definition upgrade_view :: "crypto \<Rightarrow> (nat \<Rightarrow> bytes) \<Rightarrow> 'v VaultApi \<Rightarrow> 'v view \<Rightarrow> 'v view" where
  "upgrade_view C rng api = (\<lambda>(v, w).
     case (session w, view_keys w, vw_revisions w) of
       (Some _, Some keys, Some s) \<Rightarrow>
         if vw_upgradeStarted w \<or> st_isLoading (vw_store w) \<or> revs_v2Only s then (v, w)
         else
           (case upgradeLegacyItems C (st_items (vw_store w)) keys s (write_upgraded api) rng (v, w\<lparr>vw_upgradeStarted := True\<rparr>) of
              (result, s', (v', w')) \<Rightarrow>
                if up_legacyLeft result = 0 then
                  (case publishV2Only C (vk_vaultMacKey keys) (keys_setVaultFormat api) (v', s') of
                     (_, (v2, s2)) \<Rightarrow> (v2, w'\<lparr>vw_revisions := Some s2\<rparr>))
                else (v', w'\<lparr>vw_revisions := Some s'\<rparr>))
     | _ \<Rightarrow> (v, w))"

section \<open>Derived data\<close>

definition plaintexts :: "VaultView \<Rightarrow> (string \<times> VaultItemPlaintext) list" where
  "plaintexts w = List.map_filter (\<lambda>(i, j). map_option (Pair i) (item_of_json j)) (vw_decrypted w)"

definition tags_of :: "(string \<times> VaultItemPlaintext) list \<Rightarrow> EncryptedVaultItem \<Rightarrow> string list" where
  "tags_of ps i = (case Option.bind (map_of ps (ev_id i)) plain_tags of None \<Rightarrow> [] | Some tags \<Rightarrow> tags)"

definition count_tag :: "string \<Rightarrow> (string \<times> nat) list \<Rightarrow> (string \<times> nat) list" where
  "count_tag tag counts = js_set tag ((case map_of counts tag of None \<Rightarrow> 0 | Some n \<Rightarrow> n) + 1) counts"

definition tagCounts :: "VaultView \<Rightarrow> (string \<times> nat) list" where
  "tagCounts w = fold (\<lambda>i. fold count_tag (tags_of (plaintexts w) i)) (activeItems (vw_store w)) []"

definition allTags :: "collation \<Rightarrow> VaultView \<Rightarrow> string list" where
  "allTags L w = js_sort (compareText L) (map fst (tagCounts w))"

definition tagFilter :: "collation \<Rightarrow> VaultView \<Rightarrow> string option" where
  "tagFilter L w =
     (case nonempty_opt (vw_tag w) of
        None \<Rightarrow> None
      | Some tag \<Rightarrow> if list_ex (\<lambda>t. toLowerCase t = toLowerCase tag) (allTags L w) then Some tag else None)"

definition filteredItems :: "web \<Rightarrow> collation \<Rightarrow> VaultView \<Rightarrow> EncryptedVaultItem list" where
  "filteredItems W L w =
     sortItems L
       (filterItems W (activeItems (vw_store w)) (plaintexts w)
          \<lparr>fs_vaultId = vw_activeVaultId w, fs_filter = vw_filter w, fs_tag = tagFilter L w, fs_query = vw_search w,
           fs_reviewIds = map_option rf_ids (vw_review w), fs_favorites = st_favorites (vw_store w)\<rparr>)
       (plaintexts w) (vw_sort w)"

definition selectedEntry :: "VaultView \<Rightarrow> (EncryptedVaultItem \<times> json) option" where
  "selectedEntry w =
     (case nonempty_opt (vw_selectedId w) of
        None \<Rightarrow> None
      | Some i \<Rightarrow>
          (case find (\<lambda>item. ev_id item = i) (activeItems (vw_store w)) of
             None \<Rightarrow> None
           | Some item \<Rightarrow> map_option (Pair item) (map_of (vw_decrypted w) (ev_id item))))"

definition hasActiveFilters :: "collation \<Rightarrow> VaultView \<Rightarrow> bool" where
  "hasActiveFilters L w \<longleftrightarrow>
     vw_filter w \<noteq> AllItems \<or> tagFilter L w \<noteq> None \<or> vw_activeVaultId w \<noteq> None \<or> vw_review w \<noteq> None \<or>
     js_trim (vw_search w) \<noteq> ''''"

definition shareOpen :: "VaultView \<Rightarrow> bool" where
  "shareOpen w \<longleftrightarrow> vw_shareFor w \<noteq> None \<and> vw_shareFor w = vw_selectedId w"

section \<open>Feedback, selection and filters\<close>

definition showNotice :: "string \<Rightarrow> VaultView \<Rightarrow> VaultView" where
  "showNotice message w = w\<lparr>vw_notice := Some message, vw_noticeTimer := True\<rparr>"

definition notice_over :: "VaultView \<Rightarrow> VaultView" where
  "notice_over w = (if vw_noticeTimer w then w\<lparr>vw_notice := None, vw_noticeTimer := False\<rparr> else w)"

definition copyWithStatus :: "string \<Rightarrow> string \<Rightarrow> bool \<Rightarrow> Clipboard \<times> VaultView \<Rightarrow> Clipboard \<times> VaultView" where
  "copyWithStatus copied noun writable = (\<lambda>(c, w).
     case copyWithAutoClear copied writable c of
       (ok, c') \<Rightarrow>
         (c', w\<lparr>vw_copyStatus := Some (if ok then noun @ '' copied.'' else ''Couldn't access the clipboard.''),
                vw_copyTimer := True\<rparr>))"

definition copy_status_over :: "VaultView \<Rightarrow> VaultView" where
  "copy_status_over w = (if vw_copyTimer w then w\<lparr>vw_copyStatus := None, vw_copyTimer := False\<rparr> else w)"

definition goToVault :: "VaultView \<Rightarrow> VaultView" where
  "goToVault w = (if vw_pathname w \<noteq> ''/vault'' then w\<lparr>vw_pathname := ''/vault''\<rparr> else w)"

definition leaveEditing :: "VaultView \<Rightarrow> VaultView" where
  "leaveEditing w = w\<lparr>vw_creating := None, vw_editing := False\<rparr>"

definition openItem :: "string \<Rightarrow> VaultView \<Rightarrow> VaultView" where
  "openItem i w = goToVault ((leaveEditing w)\<lparr>vw_selectedId := Some i, vw_detailOpen := True\<rparr>)"

definition moveCursor :: "string \<Rightarrow> VaultView \<Rightarrow> VaultView" where
  "moveCursor i w = (leaveEditing w)\<lparr>vw_selectedId := Some i\<rparr>"

definition closeDetail :: "VaultView \<Rightarrow> VaultView" where
  "closeDetail w = (leaveEditing w)\<lparr>vw_detailOpen := False\<rparr>"

definition deselect :: "VaultView \<Rightarrow> VaultView" where
  "deselect w = (leaveEditing w)\<lparr>vw_selectedId := None, vw_detailOpen := False\<rparr>"

definition startCreate :: "VaultItemType \<Rightarrow> VaultView \<Rightarrow> VaultView" where
  "startCreate t w = goToVault (w\<lparr>vw_editing := False, vw_creating := Some t, vw_selectedId := None, vw_detailOpen := True\<rparr>)"

definition startEdit :: "VaultView \<Rightarrow> VaultView" where
  "startEdit w = w\<lparr>vw_creating := None, vw_editing := True, vw_detailOpen := True\<rparr>"

definition applyFilter :: "Filter \<Rightarrow> VaultView \<Rightarrow> VaultView" where
  "applyFilter f w = goToVault (w\<lparr>vw_filter := f, vw_tag := None, vw_review := None, vw_detailOpen := False\<rparr>)"

definition clearFilters :: "VaultView \<Rightarrow> VaultView" where
  "clearFilters w = w\<lparr>vw_filter := AllItems, vw_tag := None, vw_activeVaultId := None, vw_review := None, vw_search := ''''\<rparr>"

definition selectTag :: "string option \<Rightarrow> VaultView \<Rightarrow> VaultView" where
  "selectTag tag w =
     (let w' = w\<lparr>vw_tag := tag\<rparr> in if nonempty_opt tag \<noteq> None then goToVault w' else w')"

definition setShareOpen :: "bool \<Rightarrow> VaultView \<Rightarrow> VaultView" where
  "setShareOpen open w = w\<lparr>vw_shareFor := (if open then vw_selectedId w else None)\<rparr>"

section \<open>Mutations\<close>

definition createVault :: "crypto \<Rightarrow> bytes \<Rightarrow> 'v VaultApi \<Rightarrow> string \<Rightarrow> 'v view \<Rightarrow> 'v view" where
  "createVault C iv api name = (\<lambda>(v, w).
     case (session w, st_vaultEncKey (vw_store w), js_trim name) of
       (Some _, Some key, c # cs) \<Rightarrow>
         caught show_view_error
           (io_bind (io_lift (encryptBytes C iv (utf8_encode (c # cs)) key)) (\<lambda>blob.
            io_bind (serve (vault_createVault api (eb_blob blob) (eb_blobIv blob))) (\<lambda>created.
            upd (\<lambda>w. w\<lparr>vw_vaults := vw_vaults w @ [created], vw_activeVaultId := Some (vi_id created)\<rparr>))))
           id (v, w)
     | _ \<Rightarrow> (v, w))"

definition moveItem :: "'v VaultApi \<Rightarrow> EncryptedVaultItem \<Rightarrow> string \<Rightarrow> 'v view \<Rightarrow> 'v view" where
  "moveItem api item toVaultId = (\<lambda>(v, w).
     if session w = None then (v, w)
     else
       caught show_view_error
         (io_bind (serve (vault_moveItem api (ev_vaultId item) (ev_id item) toVaultId)) (\<lambda>_.
          upd (\<lambda>w. showNotice ''Item moved''
            (deselect (on_store (upsertItem (item\<lparr>ev_vaultId := toVaultId, ev_version := ev_version item + 1\<rparr>)) w)))))
         id (v, w))"

definition deleteItem :: "string \<Rightarrow> 'v VaultApi \<Rightarrow> EncryptedVaultItem \<Rightarrow> 'v view \<Rightarrow> 'v view" where
  "deleteItem now api target = (\<lambda>(v, w).
     if session w = None then (v, w)
     else
       caught show_view_error
         (io_bind (serve (vault_delete api (ev_vaultId target) (ev_id target))) (\<lambda>_.
          upd (\<lambda>w. showNotice ''Item deleted'' (deselect (on_store (markDeleted now (ev_id target)) w)))))
         id (v, w))"

text \<open>The revision store is one object that is read and changed where it is used.\<close>

definition reading :: "(VaultView \<Rightarrow> 'a js) \<Rightarrow> ('v, 'a) view_io" where
  "reading f = (\<lambda>(v, w). (f w, (v, w)))"

definition with_revisions ::
  "(MemoryRevisionStore option \<Rightarrow> 'a js \<times> MemoryRevisionStore option) \<Rightarrow> ('v, 'a) view_io" where
  "with_revisions f = (\<lambda>(v, w). case f (vw_revisions w) of (r, rs) \<Rightarrow> (r, (v, w\<lparr>vw_revisions := rs\<rparr>)))"

definition record_revision :: "string \<Rightarrow> int \<Rightarrow> VaultView \<Rightarrow> VaultView" where
  "record_revision i revision w = w\<lparr>vw_revisions := map_option (revs_record i revision) (vw_revisions w)\<rparr>"

text \<open>\<open>rnd_itemId\<close> is the UUID drawn for a new item and \<open>rnd_iv\<close> the iv.\<close>

record SaveRandom =
  rnd_itemId :: string
  rnd_iv :: bytes

definition target_vault :: "string \<Rightarrow> VaultView \<Rightarrow> string" where
  "target_vault defaultVaultId w =
     (case nonempty_opt (vw_activeVaultId w) of
        None \<Rightarrow> defaultVaultId
      | Some a \<Rightarrow> if list_ex (\<lambda>x. vi_id x = a) (vw_vaults w) then a else defaultVaultId)"

definition save_new ::
  "crypto \<Rightarrow> SaveRandom \<Rightarrow> 'v VaultApi \<Rightarrow> VaultItemPlaintext \<Rightarrow> CryptoKey \<Rightarrow> string \<Rightarrow> ('v, unit) view_io" where
  "save_new C rnd api p key targetVault =
     io_bind (reading (\<lambda>w. encryptVaultItem C (rnd_iv rnd) (item_to_json p)
         \<lparr>ib_scope = Personal, ib_itemId = rnd_itemId rnd, ib_itemType = plain_type p\<rparr> key (vw_revisions w) None)) (\<lambda>(encrypted, revision).
     io_bind (serve (vault_create api targetVault
         \<lparr>cv_id = Some (rnd_itemId rnd), cv_itemType = plain_type p, cv_blob = encrypted\<rparr>)) (\<lambda>created.
     upd (\<lambda>w. showNotice ''Item saved''
       ((on_store (upsertItem created) (record_revision (rnd_itemId rnd) revision w))\<lparr>vw_selectedId := Some (ev_id created)\<rparr>))))"

definition replaced :: "EncryptedVaultItem \<Rightarrow> EncryptedBlob \<Rightarrow> EncryptedVaultItem" where
  "replaced item e =
     item\<lparr>ev_blob := eb_blob e, ev_blobIv := eb_blobIv e, ev_blobMac := eb_blobMac e, ev_version := ev_version item + 1\<rparr>"

definition save_edit ::
  "crypto \<Rightarrow> SaveRandom \<Rightarrow> 'v VaultApi \<Rightarrow> VaultItemPlaintext \<Rightarrow> VaultKeys \<Rightarrow> EncryptedVaultItem \<Rightarrow> ('v, unit) view_io" where
  "save_edit C rnd api p keys item =
     io_bind (with_revisions (decryptVaultItem C (ev_encrypted item) (bindingForItem item) keys)) (\<lambda>current.
     io_bind (reading (\<lambda>w. encryptVaultItem C (rnd_iv rnd) (item_to_json p) (bindingForItem item) (vk_vaultEncKey keys)
         (vw_revisions w) (Some (di_revision current)))) (\<lambda>(encrypted, revision).
     io_bind (serve (vault_update api (ev_vaultId item) (ev_id item) \<lparr>uv_blob = encrypted, uv_version = ev_version item\<rparr>)) (\<lambda>_.
     upd (\<lambda>w. showNotice ''Changes saved''
       (on_store (upsertItem (replaced item encrypted)) (record_revision (ev_id item) revision w))))))"

definition conflict_message :: string where
  "conflict_message = ''This item changed somewhere else (another tab or device). Reload before saving.''"

definition show_save_error :: "js_error \<Rightarrow> VaultView \<Rightarrow> VaultView" where
  "show_save_error e w =
     (case e of
        ConflictError _ \<Rightarrow> w\<lparr>vw_error := Some (Words conflict_message)\<rparr>
      | _ \<Rightarrow> show_view_error e w)"

text \<open>Without the MAC key the function returns with the editor open.\<close>

definition save_body :: "crypto \<Rightarrow> SaveRandom \<Rightarrow> 'v VaultApi \<Rightarrow> VaultItemPlaintext \<Rightarrow> CryptoKey \<Rightarrow> string \<Rightarrow> VaultView \<Rightarrow> ('v, unit) view_io" where
  "save_body C rnd api p key defaultVaultId w =
     (if nonempty_opt (vw_creating w) \<noteq> None then
        io_bind (save_new C rnd api p key (target_vault defaultVaultId w)) (\<lambda>_. upd leaveEditing)
      else
        (case (vw_editing w, selectedEntry w) of
           (True, Some (item, _)) \<Rightarrow>
             if plain_type p \<noteq> ev_itemType item then io_throw (JsError ''An item's type cannot change'')
             else
               (case st_vaultMacKey (vw_store w) of
                  None \<Rightarrow> io_return ()
                | Some mac \<Rightarrow>
                    io_bind (save_edit C rnd api p \<lparr>vk_vaultEncKey = key, vk_vaultMacKey = mac\<rparr> item) (\<lambda>_. upd leaveEditing))
         | _ \<Rightarrow> upd leaveEditing))"

definition saveItem :: "crypto \<Rightarrow> SaveRandom \<Rightarrow> 'v VaultApi \<Rightarrow> VaultItemPlaintext \<Rightarrow> 'v view \<Rightarrow> 'v view" where
  "saveItem C rnd api p = (\<lambda>(v, w).
     case (session w, nonempty_opt (st_defaultVaultId (vw_store w)), st_vaultEncKey (vw_store w), vw_revisions w) of
       (Some _, Some defaultVaultId, Some key, Some _) \<Rightarrow>
         caught show_save_error (save_body C rnd api p key defaultVaultId w) (\<lambda>w. w\<lparr>vw_saving := False\<rparr>)
           (v, w\<lparr>vw_saving := True, vw_error := None\<rparr>)
     | _ \<Rightarrow> (v, w))"

section \<open>Events\<close>

text \<open>What can happen while the vault is open. \<open>Inputs\<close> are the fields of the page that only are set.\<close>

datatype ViewEvent =
    Activity int
  | IdleTimer int
  | CheckIdentity
  | LoadVault
  | NameVaults "bytes \<Rightarrow> string"
  | OpenRevisions "string option js" "LocalStorage option"
  | DecryptItems
  | UpgradeItems "nat \<Rightarrow> bytes"
  | Notice string
  | NoticeOver
  | CopyStatusOver
  | OpenItem string
  | MoveCursor string
  | CloseDetail
  | Deselect
  | StartCreate VaultItemType
  | StartEdit
  | CancelEdit
  | ApplyFilter Filter
  | ClearFilters
  | SelectTag "string option"
  | Inputs "string option" string SortKey "ReviewFilter option"
  | ShareOpen bool
  | ToggleFavorites string
  | CreateVault bytes string
  | MoveItem EncryptedVaultItem string
  | SaveItem SaveRandom VaultItemPlaintext
  | DeleteItem string EncryptedVaultItem
  | LockVault

fun view_step :: "crypto \<Rightarrow> 'v VaultApi \<Rightarrow> ViewEvent \<Rightarrow> 'v view \<Rightarrow> 'v view" where
  "view_step C api (Activity now) (v, w) = (v, active now w)"
| "view_step C api (IdleTimer now) (v, w) = (v, idle_timer now w)"
| "view_step C api CheckIdentity w = check_identity C api w"
| "view_step C api LoadVault w = load_vault api w"
| "view_step C api (NameVaults decode) (v, w) = (v, name_vaults C decode w)"
| "view_step C api (OpenRevisions fetched storage) (v, w) = (v, open_revisions C fetched storage w)"
| "view_step C api DecryptItems (v, w) = (v, decrypt_view C w)"
| "view_step C api (UpgradeItems rng) w = upgrade_view C rng api w"
| "view_step C api (Notice message) (v, w) = (v, showNotice message w)"
| "view_step C api NoticeOver (v, w) = (v, notice_over w)"
| "view_step C api CopyStatusOver (v, w) = (v, copy_status_over w)"
| "view_step C api (OpenItem i) (v, w) = (v, openItem i w)"
| "view_step C api (MoveCursor i) (v, w) = (v, moveCursor i w)"
| "view_step C api CloseDetail (v, w) = (v, closeDetail w)"
| "view_step C api Deselect (v, w) = (v, deselect w)"
| "view_step C api (StartCreate t) (v, w) = (v, startCreate t w)"
| "view_step C api StartEdit (v, w) = (v, startEdit w)"
| "view_step C api CancelEdit (v, w) = (v, leaveEditing w)"
| "view_step C api (ApplyFilter f) (v, w) = (v, applyFilter f w)"
| "view_step C api ClearFilters (v, w) = (v, clearFilters w)"
| "view_step C api (SelectTag tag) (v, w) = (v, selectTag tag w)"
| "view_step C api (Inputs vault query order review) (v, w) =
     (v, w\<lparr>vw_activeVaultId := vault, vw_search := query, vw_sort := order, vw_review := review\<rparr>)"
| "view_step C api (ShareOpen open) (v, w) = (v, setShareOpen open w)"
| "view_step C api (ToggleFavorites i) (v, w) = (v, on_store (\<lambda>s. s\<lparr>st_favorites := toggled i (st_favorites s)\<rparr>) w)"
| "view_step C api (CreateVault iv name) w = createVault C iv api name w"
| "view_step C api (MoveItem item toVaultId) w = moveItem api item toVaultId w"
| "view_step C api (SaveItem rnd p) w = saveItem C rnd api p w"
| "view_step C api (DeleteItem now target) w = deleteItem now api target w"
| "view_step C api LockVault (v, w) = (v, leave w)"

section \<open>What is shown is what was sealed\<close>

definition marks_le :: "MemoryRevisionStore \<Rightarrow> MemoryRevisionStore \<Rightarrow> bool" where
  "marks_le s s' \<longleftrightarrow> (\<forall>i. mark_le (revs_get s i) (revs_get s' i))"

lemma marks_le_refl [simp, intro]: "marks_le s s"
  by (simp add: marks_le_def)

lemma marks_le_trans: "marks_le a b \<Longrightarrow> marks_le b c \<Longrightarrow> marks_le a c"
  unfolding marks_le_def by (meson mark_le_trans)

lemma marks_le_record [simp, intro]: "marks_le s (revs_record i r s)"
  unfolding marks_le_def using revs.record_never_lowers by blast

lemma marks_le_markV2 [simp]: "marks_le s (revs_markV2Only s') = marks_le s s'"
  by (simp add: marks_le_def)

text \<open>
  \<open>sealed\<close>: the value is the plaintext of an envelope that opens under the account's keys for this item id
  and for the type it has, at a revision the store has noted.
\<close>

definition sealed :: "crypto \<Rightarrow> VaultKeys \<Rightarrow> MemoryRevisionStore \<Rightarrow> string \<Rightarrow> json \<Rightarrow> bool" where
  "sealed C keys s i j \<longleftrightarrow>
     (\<exists>e b d. decryptEnvelope C e b keys False = Inr d \<and> ib_itemId b = i \<and> di_plaintext d = j \<and>
        json_get j ''type'' = Some (JStr (ib_itemType b)) \<and> mark_le (Some (di_revision d)) (revs_get s i))"

lemma sealed_mono: "sealed C keys s i j \<Longrightarrow> marks_le s s' \<Longrightarrow> sealed C keys s' i j"
  unfolding sealed_def marks_le_def by (blast intro: mark_le_trans)

lemma decryptVaultItem_marks:
  assumes "decryptVaultItem C e b keys (Some s) = (r, rs)"
  obtains s' where "rs = Some s'" "marks_le s s'" "\<And>d. r = Inr d \<Longrightarrow> sealed C keys s' (ib_itemId b) (di_plaintext d)"
proof (cases r)
  case (Inl x)
  with decryptVaultItem_store [OF assms] that [of s] show ?thesis by simp
next
  case (Inr d)
  note st = decryptVaultItem_store [OF assms] 
  let ?s = "revs_record (ib_itemId b) (di_revision d) s"
  have "mark_le (Some (di_revision d)) (revs_get ?s (ib_itemId b))"
    using st Inr decryptEnvelope_revision(1) [of C e b keys "revs_v2Only s" d]
    by (cases "revs_get s (ib_itemId b)") (auto simp: revs_get_record opt_mark_def)
  then have "sealed C keys ?s (ib_itemId b) (di_plaintext d)"
    using st Inr decryptEnvelope_mono [of C e b keys "revs_v2Only s" d] unfolding sealed_def by auto
  with that [of ?s] st Inr show ?thesis by simp
qed

lemma decrypt_items_sealed:
  assumes "decrypt_items C keys items s = (d, s')"
  shows "marks_le s s' \<and> (\<forall>(i, j) \<in> set (dn_shown d). sealed C keys s' i j)"
  using assms
proof (induction items arbitrary: s d s')
  case (Cons x items)
  obtain r rs where r: "decryptVaultItem C (ev_encrypted x) (bindingForItem x) keys (Some s) = (r, rs)" by (metis prod.exhaust)
  obtain s1 where s1: "rs = Some s1" "marks_le s s1"
    and x: "\<And>y. r = Inr y \<Longrightarrow> sealed C keys s1 (ib_itemId (bindingForItem x)) (di_plaintext y)"
    using decryptVaultItem_marks [OF r] by blast
  obtain d1 s2 where d1: "decrypt_items C keys items s1 = (d1, s2)" by (metis prod.exhaust)
  from Cons.IH [OF d1] have IH: "marks_le s1 s2" "\<forall>(i, j) \<in> set (dn_shown d1). sealed C keys s2 i j" by auto
  have s2: "s' = s2" using Cons.prems r s1 d1 by simp
  have id: "ib_itemId (bindingForItem x) = ev_id x" by (simp add: bindingForItem_def)
  have "\<forall>(i, j) \<in> set (dn_shown d). sealed C keys s2 i j"
  proof (cases r)
    case (Inr y)
    with Cons.prems r s1 d1 have "dn_shown d = (ev_id x, di_plaintext y) # dn_shown d1" by auto
    with IH(2) sealed_mono [OF x [OF Inr] IH(1)] id show ?thesis by simp
  next
    case (Inl e)
    with Cons.prems r s1 d1 have "dn_shown d = dn_shown d1" by (cases e) auto
    with IH(2) show ?thesis by simp
  qed
  with s2 marks_le_trans [OF s1(2) IH(1)] show ?case by simp
qed simp

definition view_ok :: "crypto \<Rightarrow> VaultKeys \<Rightarrow> VaultView \<Rightarrow> bool" where
  "view_ok C keys w \<longleftrightarrow>
     (\<forall>k. st_vaultEncKey (vw_store w) = Some k \<longrightarrow> k = vk_vaultEncKey keys) \<and>
     (\<forall>k. st_vaultMacKey (vw_store w) = Some k \<longrightarrow> k = vk_vaultMacKey keys) \<and>
     (\<forall>(i, j) \<in> set (vw_decrypted w). \<exists>s. vw_revisions w = Some s \<and> sealed C keys s i j)"

lemma view_okI:
  assumes "view_ok C keys w" "st_vaultEncKey (vw_store w') = st_vaultEncKey (vw_store w)"
    "st_vaultMacKey (vw_store w') = st_vaultMacKey (vw_store w)" "vw_decrypted w' = vw_decrypted w"
    and m: "\<And>s. vw_revisions w = Some s \<Longrightarrow> \<exists>s'. vw_revisions w' = Some s' \<and> marks_le s s'"
  shows "view_ok C keys w'"
proof -
  have "\<exists>s'. vw_revisions w' = Some s' \<and> sealed C keys s' i j" if "(i, j) \<in> set (vw_decrypted w)" for i j
  proof -
    from assms(1) that obtain s where s: "vw_revisions w = Some s" "sealed C keys s i j" unfolding view_ok_def by blast
    with m [OF s(1)] sealed_mono show ?thesis by blast
  qed
  with assms(1-4) show ?thesis unfolding view_ok_def by auto
qed

lemma view_keys_ok: "view_ok C keys w \<Longrightarrow> view_keys w = Some k \<Longrightarrow> k = keys"
  by (auto simp: view_ok_def view_keys_def split: option.splits)

lemma store_keeps_keys [simp]:
  "st_vaultEncKey (upsertItem i s) = st_vaultEncKey s" "st_vaultMacKey (upsertItem i s) = st_vaultMacKey s"
  "st_vaultEncKey (markDeleted t x s) = st_vaultEncKey s" "st_vaultMacKey (markDeleted t x s) = st_vaultMacKey s"
  by (simp_all add: upsertItem_def markDeleted_def)

lemmas view_defs = showNotice_def notice_over_def copy_status_over_def goToVault_def leaveEditing_def openItem_def moveCursor_def
  closeDetail_def deselect_def startCreate_def startEdit_def applyFilter_def clearFilters_def selectTag_def setShareOpen_def
  active_def name_vaults_def show_view_error_def show_save_error_def on_store_def record_revision_def Let_def

text \<open>What does not touch the keys, the decrypted items or the revisions keeps the invariant.\<close>

lemma view_ok_same:
  assumes "view_ok C keys w" "st_vaultEncKey (vw_store w') = st_vaultEncKey (vw_store w)"
    "st_vaultMacKey (vw_store w') = st_vaultMacKey (vw_store w)" "vw_decrypted w' = vw_decrypted w" "vw_revisions w' = vw_revisions w"
  shows "view_ok C keys w'"
  using assms by (intro view_okI [OF assms(1-4)]) auto

lemma view_ok_pure:
  assumes "view_ok C keys w"
  shows "view_ok C keys (showNotice m w)" "view_ok C keys (notice_over w)" "view_ok C keys (copy_status_over w)"
    "view_ok C keys (leaveEditing w)" "view_ok C keys (openItem i w)" "view_ok C keys (moveCursor i w)"
    "view_ok C keys (closeDetail w)" "view_ok C keys (deselect w)" "view_ok C keys (startCreate t w)"
    "view_ok C keys (startEdit w)" "view_ok C keys (applyFilter f w)" "view_ok C keys (clearFilters w)"
    "view_ok C keys (selectTag tag w)" "view_ok C keys (setShareOpen b w)" "view_ok C keys (active now w)"
    "view_ok C keys (name_vaults C' decode w)" "view_ok C keys (show_view_error e w)" "view_ok C keys (show_save_error e w)"
    "view_ok C keys (on_store (upsertItem item) w)" "view_ok C keys (on_store (markDeleted stamp x) w)"
    "view_ok C keys (on_store (\<lambda>s. s\<lparr>st_items := items\<rparr>) w)" "view_ok C keys (on_store (\<lambda>s. s\<lparr>st_isLoading := b\<rparr>) w)"
    "view_ok C keys (on_store (\<lambda>s. s\<lparr>st_favorites := favs s\<rparr>) w)"
  by (intro view_ok_same [OF assms]; simp add: view_defs split: option.splits js_error.splits)+

lemma view_ok_record: "view_ok C keys w \<Longrightarrow> view_ok C keys (record_revision i r w)"
  by (rule view_okI) (auto simp: record_revision_def)

lemma view_ok_new: "no_keys store \<Longrightarrow> view_ok C keys (new_view store p t)"
  by (simp add: view_ok_def new_view_def no_keys_def)

lemma view_ok_leave: "view_ok C keys (leave w)"
  unfolding leave_def by (rule view_ok_new) (simp add: lock_def no_keys_def)

lemma set_js_set: "set (js_set k v m) \<subseteq> insert (k, v) (set m)"
  by (induction k v m rule: js_set.induct) auto

lemma set_js_map_new: "set (js_map_new kvs) \<subseteq> set kvs"
proof -
  have "set (fold (\<lambda>(k, v). js_set k v) kvs m) \<subseteq> set kvs \<union> set m" for m
    using set_js_set by (induction kvs arbitrary: m) fastforce+
  from this [of "[]"] show ?thesis by (simp add: js_map_new_def)
qed

lemma view_ok_decrypt:
  assumes "view_ok C keys w"
  shows "view_ok C keys (decrypt_view C w)"
proof (cases "view_keys w")
  case (Some k)
  show ?thesis
  proof (cases "vw_revisions w")
    case (Some s)
    obtain d s' where d: "decrypt_items C keys (activeItems (vw_store w)) s = (d, s')" by (metis prod.exhaust)
    have "set (js_map_new (dn_shown d)) \<subseteq> set (dn_shown d)" by (rule set_js_map_new)
    with decrypt_items_sealed [OF d] have "\<forall>(i, j) \<in> set (js_map_new (dn_shown d)). sealed C keys s' i j" by blast
    with assms view_keys_ok [OF assms \<open>view_keys w = Some k\<close>] show ?thesis
      by (simp add: decrypt_view_def \<open>view_keys w = Some k\<close> Some d Let_def view_ok_def)
  qed (use assms in \<open>simp add: decrypt_view_def split: option.splits\<close>)
qed (use assms in \<open>simp add: decrypt_view_def\<close>)

interpretation vault_view: ui_component "view_ok C keys" show_view_error for C keys
  by unfold_locales (rule view_ok_pure)

interpretation vault_editor: ui_component "view_ok C keys" show_save_error for C keys
  by unfold_locales (rule view_ok_pure)

lemma upgradeOne_marks:
  assumes "upgradeOne C keys write iv item s w = (b, s', w')"
  shows "marks_le s s' \<and> (w' = w \<or> (\<exists>e. w' = snd (write item e w)))"
proof -
  obtain r rs where r: "decryptVaultItem C (ev_encrypted item) (bindingForItem item) keys (Some s) = (r, rs)" by (metis prod.exhaust)
  obtain s1 where s1: "rs = Some s1" "marks_le s s1" using decryptVaultItem_marks [OF r] by blast
  show ?thesis
  proof (cases r)
    case (Inl x)
    with assms r s1 show ?thesis by (auto simp: upgradeOne_def)
  next
    case (Inr d)
    show ?thesis
    proof (cases "encryptVaultItem C iv (di_plaintext d) (bindingForItem item) (vk_vaultEncKey keys) (Some s1) (Some (di_revision d))")
      case (Inl x)
      with assms r s1 Inr show ?thesis by (simp add: upgradeOne_def)
    next
      case enc: (Inr er)
      obtain e rev where er: "er = (e, rev)" by (cases er)
      obtain q w1 where q: "write item e w = (q, w1)" by (metis prod.exhaust)
      with assms r s1 Inr enc er have "w' = w1" "s' = s1 \<or> (\<exists>i. s' = revs_record i rev s1)"
        by (auto simp: upgradeOne_def split: sum.splits)
      with q s1 marks_le_trans [OF s1(2) marks_le_record] show ?thesis by (metis snd_conv)
    qed
  qed
qed

lemma upgradeLoop_keeps:
  assumes "\<And>item e w. P w \<Longrightarrow> P (snd (write item e w))" "P w"
    and "upgradeLoop C keys write rng n items s w u f = (c, s', w')"
  shows "P w' \<and> marks_le s s'"
  using assms(2,3)
proof (induction items arbitrary: n s w u f)
  case (Cons item items)
  show ?case
  proof (cases "isLegacyItemBlob (ev_encrypted item)")
    case True
    obtain b s1 w1 where o1: "upgradeOne C keys write (rng n) item s w = (b, s1, w1)" by (metis prod.exhaust)
    have m: "marks_le s s1" "P w1" using upgradeOne_marks [OF o1] assms(1) Cons.prems(1) by auto
    have "\<exists>u f. upgradeLoop C keys write rng (n + 1) items s1 w1 u f = (c, s', w')"
      using Cons.prems(2) True o1 by (cases b) auto
    with Cons.IH [OF m(2)] m(1) marks_le_trans show ?thesis by blast
  qed (use Cons in auto)
qed auto

lemma view_ok_upgrade:
  assumes ok: "view_ok C keys w"
  shows "view_ok C keys (snd (upgrade_view C rng api (v, w)))"
proof (cases "session w = None \<or> view_keys w = None \<or> vw_revisions w = None")
  case False
  then obtain t k s where g: "session w = Some t" "view_keys w = Some k" "vw_revisions w = Some s" by auto
  show ?thesis
  proof (cases "vw_upgradeStarted w \<or> st_isLoading (vw_store w) \<or> revs_v2Only s")
    case False
    let ?w = "w\<lparr>vw_upgradeStarted := True\<rparr>"
    let ?P = "\<lambda>(v, w). view_ok C keys w \<and> vw_revisions w = Some s"
    obtain c s' v' w' where l: "upgradeLoop C k (write_upgraded api) rng 0 (st_items (vw_store w)) s (v, ?w) 0 0 = (c, s', (v', w'))"
      by (metis prod.exhaust)
    have step: "?P (snd (write_upgraded api item e x))" if "?P x" for item e x
      using that view_ok_pure(19)
      by (auto simp: write_upgraded_def io_bind_def serve_def upd_def on_store_def split: prod.splits sum.splits)
    have "?P (v, ?w)" using ok g view_ok_same [OF ok, of ?w] by simp
    from upgradeLoop_keeps [where P = ?P, OF step this l]
    have w': "view_ok C keys w'" "vw_revisions w' = Some s" "marks_le s s'" by simp_all
    have set: "view_ok C keys (w'\<lparr>vw_revisions := Some s2\<rparr>)" if "marks_le s s2" for s2
      using that w' by (intro view_okI [OF w'(1)]) auto
    obtain r v2 s2 where p: "publishV2Only C (vk_vaultMacKey k) (keys_setVaultFormat api) (v', s') = (r, (v2, s2))" by (metis prod.exhaust)
    then have "marks_le s s2"
      using w'(3) by (auto simp: publishV2Only_def split: sum.splits prod.splits)
    with set w'(3) g False l p show ?thesis
      by (cases c) (simp add: upgrade_view_def upgradeLegacyItems_def)
  qed (use ok g in \<open>auto simp: upgrade_view_def\<close>)
qed (use ok in \<open>auto simp: upgrade_view_def split: option.splits\<close>)

lemmas view_intros = preserves_bind2 preserves_bind preserves_pure preserves_upd preserves_lift_bind

lemma reading_preserves: "preserves I (reading f)"
  by (simp add: preserves_def reading_def)

lemma throw_preserves: "preserves I (io_throw e)"
  by (simp add: preserves_def io_throw_def)

lemma decrypt_preserves: "preserves (view_ok C keys) (with_revisions (decryptVaultItem C e b k))"
proof (rule preservesI)
  fix v and w assume ok: "view_ok C keys w"
  obtain r rs where r: "decryptVaultItem C e b k (vw_revisions w) = (r, rs)" by (metis prod.exhaust)
  have "view_ok C keys (w\<lparr>vw_revisions := rs\<rparr>)"
  proof (rule view_okI [OF ok])
    fix s assume "vw_revisions w = Some s"
    with r decryptVaultItem_marks [of C e b k s r rs] show "\<exists>s'. vw_revisions (w\<lparr>vw_revisions := rs\<rparr>) = Some s' \<and> marks_le s s'" by auto
  qed simp_all
  with r show "view_ok C keys (snd (snd (with_revisions (decryptVaultItem C e b k) (v, w))))" by (simp add: with_revisions_def)
qed

lemma view_ok_shallow [simp]:
  "view_ok C keys (w\<lparr>vw_saving := b\<rparr>) = view_ok C keys w" "view_ok C keys (w\<lparr>vw_error := m\<rparr>) = view_ok C keys w"
  "view_ok C keys (w\<lparr>vw_vaults := vs\<rparr>) = view_ok C keys w" "view_ok C keys (w\<lparr>vw_activeVaultId := a\<rparr>) = view_ok C keys w"
  "view_ok C keys (w\<lparr>vw_selectedId := a\<rparr>) = view_ok C keys w" "view_ok C keys (w\<lparr>vw_search := q\<rparr>) = view_ok C keys w"
  "view_ok C keys (w\<lparr>vw_sort := so\<rparr>) = view_ok C keys w" "view_ok C keys (w\<lparr>vw_review := rv\<rparr>) = view_ok C keys w"
  by (simp_all add: view_ok_def)

lemma view_ok_save:
  assumes ok: "view_ok C keys w"
  shows "view_ok C keys (snd (saveItem C rnd api p (v, w)))"
proof -
  have new: "preserves (view_ok C keys) (io_bind (save_new C rnd api p k t) (\<lambda>_. upd leaveEditing))" for k t
    unfolding save_new_def
    by (intro view_intros reading_preserves) (simp_all add: view_ok_pure view_ok_record)
  have edit: "preserves (view_ok C keys) (io_bind (save_edit C rnd api p k item) (\<lambda>_. upd leaveEditing))" for k item
    unfolding save_edit_def
    by (intro view_intros reading_preserves decrypt_preserves) (simp_all add: view_ok_pure view_ok_record)
  have left: "preserves (view_ok C keys) (upd leaveEditing)" by (rule preserves_upd) (rule view_ok_pure)
  have "preserves (view_ok C keys) (save_body C rnd api p k d w0)" for k d w0
    using new edit left throw_preserves [of "view_ok C keys"] preserves_pure(3) [of "view_ok C keys"]
    by (auto simp: save_body_def split: option.splits prod.splits bool.splits)
  from vault_editor.caught_preserves [OF this] ok show ?thesis
    by (auto simp: saveItem_def split: option.splits)
qed

lemma view_step_ok:
  assumes ok: "view_ok C keys w" and step: "view_step C api e (v, w) = (v', w')"
  shows "view_ok C keys w'"
proof -
  have load: "view_ok C keys (snd (load_vault api (v, w)))"
  proof -
    have "preserves (view_ok C keys)
         (io_bind (serve (vault_list api)) (\<lambda>vaults.
          io_bind (upd (\<lambda>w. w\<lparr>vw_vaults := vaults\<rparr>)) (\<lambda>_.
          io_bind (serve (all_of (vault_items api) (map vi_id vaults))) (\<lambda>perVault.
          upd (on_store (\<lambda>s. s\<lparr>st_items := concat perVault\<rparr>))))))"
      by (intro view_intros) (simp_all add: view_ok_pure)
    from vault_view.caught_preserves [OF this] ok show ?thesis
      by (auto simp: load_vault_def view_ok_pure)
  qed
  have identity: "view_ok C keys (snd (check_identity C api (v, w)))"
    using ok view_ok_pure(17)
    by (auto simp: check_identity_def caught_def serve_def split: option.splits prod.splits sum.splits js_error.splits)
  have create: "view_ok C keys (snd (createVault C iv api name (v, w)))" for iv name
  proof -
    have "preserves (view_ok C keys)
           (io_bind (io_lift (encryptBytes C iv m k)) (\<lambda>blob.
            io_bind (serve (vault_createVault api (eb_blob blob) (eb_blobIv blob))) (\<lambda>created.
            upd (\<lambda>w. w\<lparr>vw_vaults := vw_vaults w @ [created], vw_activeVaultId := Some (vi_id created)\<rparr>))))" for m k
      by (intro view_intros) simp_all
    from vault_view.caught_preserves [OF this] ok show ?thesis
      by (auto simp: createVault_def split: option.splits list.splits)
  qed
  have move: "view_ok C keys (snd (moveItem api item t (v, w)))" for item t
    using ok by (auto simp: moveItem_def caught_def io_bind_def serve_def upd_def view_ok_pure split: prod.splits sum.splits)
  have delete: "view_ok C keys (snd (deleteItem t api item (v, w)))" for item t
    using ok by (auto simp: deleteItem_def caught_def io_bind_def serve_def upd_def view_ok_pure split: prod.splits sum.splits)
  have revisions: "view_ok C keys (open_revisions C f st w)" for f st
    by (rule view_okI [OF ok]) (auto simp: open_revisions_def split: option.splits sum.splits prod.splits)
  have idle: "view_ok C keys (idle_timer t w)" for t
    using ok view_ok_leave by (simp add: idle_timer_def)
  have "view_ok C keys (snd (view_step C api e (v, w)))"
    by (cases e) (simp_all add: load identity create move delete revisions idle view_ok_pure [OF ok] view_ok_leave
      view_ok_decrypt [OF ok] view_ok_upgrade [OF ok] view_ok_save [OF ok] ok)
  with step show ?thesis by simp
qed

lemma view_run_ok:
  assumes "view_ok C keys w" "fold (view_step C api) events (v, w) = (v', w')"
  shows "view_ok C keys w'"
  using assms
proof (induction events arbitrary: v w)
  case (Cons e events)
  obtain v1 w1 where "view_step C api e (v, w) = (v1, w1)" by (rule prod.exhaust)
  with Cons view_step_ok show ?case by fastforce
qed simp


section \<open>Saving\<close>

text \<open>All rows of one item id hold the same envelope, at the revision noted: all of them open.\<close>

lemma decrypt_items_current:
  assumes "aead_correct C" "aead_expands C" "aes_key_ok (vk_vaultEncKey keys)"
    and "encryptItemV2 C iv j b r (vk_vaultEncKey keys) = Inr e"
    and "decrypt_items C keys items s = (d, s')" "revs_get s (ib_itemId b) = Some r"
    and "\<forall>x \<in> set items. ev_id x = ib_itemId b \<longrightarrow> ev_encrypted x = e \<and> bindingForItem x = b"
  shows "(\<forall>(k, x) \<in> set (dn_shown d). k = ib_itemId b \<longrightarrow> x = j) \<and> revs_get s' (ib_itemId b) = Some r \<and>
    ((\<exists>x \<in> set items. ev_id x = ib_itemId b) \<longrightarrow> ib_itemId b \<in> fst ` set (dn_shown d))"
  using assms(5-7)
proof (induction items arbitrary: s d s')
  case (Cons x items)
  obtain q rs where q: "decryptVaultItem C (ev_encrypted x) (bindingForItem x) keys (Some s) = (q, rs)" by (metis prod.exhaust)
  obtain s1 where s1: "rs = Some s1" using decryptVaultItem_marks [OF q] by blast
  obtain d1 s2 where d1: "decrypt_items C keys items s1 = (d1, s2)" by (metis prod.exhaust)
  have s2: "s' = s2" using Cons.prems(1) q s1 d1 by simp
  have shown: "dn_shown d = (case q of Inr y \<Rightarrow> [(ev_id x, di_plaintext y)] | Inl _ \<Rightarrow> []) @ dn_shown d1"
    using Cons.prems(1) q s1 d1 by (auto split: sum.splits js_error.splits)
  have id: "ib_itemId (bindingForItem x) = ev_id x" by (simp add: bindingForItem_def)
  show ?case
  proof (cases "ev_id x = ib_itemId b")
    case True
    with Cons.prems(2,3) have "decryptVaultItem C (ev_encrypted x) (bindingForItem x) keys (Some s) =
        (Inr \<lparr>di_plaintext = j, di_revision = r, di_format = 2\<rparr>, Some (revs_record (ib_itemId b) r s))"
      using decryptVaultItem_encryptItemV2(2) [OF assms(1-4)] by simp
    then have q: "q = Inr \<lparr>di_plaintext = j, di_revision = r, di_format = 2\<rparr>" and "s1 = revs_record (ib_itemId b) r s"
      using q s1 by simp_all
    then have "revs_get s1 (ib_itemId b) = Some r" using Cons.prems(2) by (simp add: revs_get_record)
    from Cons.IH [OF d1 this] Cons.prems(3) show ?thesis using True by (simp add: shown q s2)
  next
    case False
    have "revs_get s1 (ib_itemId b) = revs_get s (ib_itemId b)"
      using decryptVaultItem_store [OF q] s1 id False by (cases q) (auto simp: revs_get_record)
    with Cons.IH [OF d1] Cons.prems(2,3) show ?thesis using False by (cases q) (auto simp: shown s2)
  qed
qed simp

lemma activeItems_upsert:
  assumes "x \<in> set (activeItems (upsertItem item s))" "ev_id x = ev_id item"
  shows "x = item"
  using assms by (auto simp: activeItems_def upsertItem_def list_ex_iff split: if_splits)

lemma upsert_active: "ev_deletedAt item = None \<Longrightarrow> item \<in> set (activeItems (upsertItem item s))"
  by (auto simp: activeItems_def upsertItem_def list_ex_iff image_iff)

lemma map_of_js_map_new_only:
  assumes "\<forall>(k, x) \<in> set kvs. k = i \<longrightarrow> x = j" "i \<in> fst ` set kvs"
  shows "map_of (js_map_new kvs) i = Some j"
proof -
  from assms(2) obtain x where x: "map_of (rev kvs) i = Some x" by (cases "map_of (rev kvs) i") (auto simp: map_of_eq_None_iff)
  with assms(1) map_of_SomeD [OF x] show ?thesis by auto
qed

lemma saved_item_shown:
  assumes "aead_correct C" "aead_expands C" "aes_key_ok (vk_vaultEncKey keys)"
    and "encryptItemV2 C iv j (bindingForItem item) r (vk_vaultEncKey keys) = Inr (ev_encrypted item)"
    and "view_keys w = Some keys" "vw_store w = upsertItem item st" "ev_deletedAt item = None"
    and "vw_revisions w = Some s" "revs_get s (ev_id item) = Some r"
  shows "map_of (vw_decrypted (decrypt_view C w)) (ev_id item) = Some j"
proof -
  obtain d s' where d: "decrypt_items C keys (activeItems (vw_store w)) s = (d, s')" by (metis prod.exhaust)
  have id: "ib_itemId (bindingForItem item) = ev_id item" by (simp add: bindingForItem_def)
  have "\<forall>x \<in> set (activeItems (vw_store w)). ev_id x = ib_itemId (bindingForItem item) \<longrightarrow>
      ev_encrypted x = ev_encrypted item \<and> bindingForItem x = bindingForItem item"
    using activeItems_upsert assms(6) id by metis
  from decrypt_items_current [OF assms(1-4) d _ this] assms(6,7,9) id upsert_active [OF assms(7), of st]
  have "\<forall>(k, x) \<in> set (dn_shown d). k = ev_id item \<longrightarrow> x = j" "ev_id item \<in> fst ` set (dn_shown d)"
    by auto
  then have "map_of (js_map_new (dn_shown d)) (ev_id item) = Some j" by (rule map_of_js_map_new_only)
  then show ?thesis
    by (simp add: decrypt_view_def assms(5,8) d Let_def del: map_of_js_map_new map_of_eq_Some_iff)
qed

lemma save_edit_run:
  assumes "caught show_save_error (io_bind (save_edit C rnd api p keys item) (\<lambda>_. upd leaveEditing)) (\<lambda>w. w\<lparr>vw_saving := False\<rparr>)
      (v, w) = (v', w')" "vw_revisions w = Some s" "vw_error w = None"
  shows "(vw_error w' = None \<longrightarrow> (\<exists>e r s1 old q.
      encryptItemV2 C (rnd_iv rnd) (item_to_json p) (bindingForItem item) r (vk_vaultEncKey keys) = Inr e \<and>
      decryptVaultItem C (ev_encrypted item) (bindingForItem item) keys (Some s) = (Inr old, Some s1) \<and> di_revision old < r \<and>
      vault_update api (ev_vaultId item) (ev_id item) \<lparr>uv_blob = e, uv_version = ev_version item\<rparr> v = (Inr q, v') \<and>
      w' = (showNotice ''Changes saved'' (on_store (upsertItem (replaced item e))
              (record_revision (ev_id item) r (w\<lparr>vw_revisions := Some s1\<rparr>))))
            \<lparr>vw_creating := None, vw_editing := False, vw_saving := False\<rparr> \<and>
      (\<forall>h. revs_get s1 (ev_id item) = Some h \<longrightarrow> h < r))) \<and>
    (vw_error w' \<noteq> None \<longrightarrow> vw_store w' = vw_store w \<and> vw_decrypted w' = vw_decrypted w \<and> vw_editing w' = vw_editing w \<and>
      vw_selectedId w' = vw_selectedId w \<and> vw_notice w' = vw_notice w)"
proof -
  obtain q rs where q: "decryptVaultItem C (ev_encrypted item) (bindingForItem item) keys (Some s) = (q, rs)" by (metis prod.exhaust)
  obtain s1 where s1: "rs = Some s1" using decryptVaultItem_marks [OF q] by blast
  have err: "vw_error (show_save_error x y) \<noteq> None" "vw_store (show_save_error x y) = vw_store y"
    "vw_decrypted (show_save_error x y) = vw_decrypted y" "vw_editing (show_save_error x y) = vw_editing y"
    "vw_selectedId (show_save_error x y) = vw_selectedId y" "vw_notice (show_save_error x y) = vw_notice y" for x y
    by (simp_all add: show_save_error_def show_view_error_def split: js_error.splits)
  note run = caught_def io_bind_def save_edit_def with_revisions_def reading_def serve_def upd_def assms(2) q s1
  show ?thesis
  proof (cases q)
    case (Inl x)
    with assms(1) have "v' = v" "w' = (show_save_error x (w\<lparr>vw_revisions := Some s1\<rparr>))\<lparr>vw_saving := False\<rparr>" by (simp_all add: run)
    then show ?thesis by (simp add: err)
  next
    case old: (Inr old)
    let ?E = "encryptVaultItem C (rnd_iv rnd) (item_to_json p) (bindingForItem item) (vk_vaultEncKey keys) (Some s1) (Some (di_revision old))"
    show ?thesis
    proof (cases ?E)
      case (Inl x)
      with assms(1) old have "w' = (show_save_error x (w\<lparr>vw_revisions := Some s1\<rparr>))\<lparr>vw_saving := False\<rparr>" by (simp add: run)
      then show ?thesis by (simp add: err)
    next
      case enc: (Inr er)
      obtain e r where er: "er = (e, r)" by (cases er)
      note en = encryptVaultItem_Inr [OF enc [unfolded er]]
      obtain a v1 where a: "vault_update api (ev_vaultId item) (ev_id item) \<lparr>uv_blob = e, uv_version = ev_version item\<rparr> v = (a, v1)"
        by (metis prod.exhaust)
      show ?thesis
      proof (cases a)
        case (Inl x)
        with assms(1) old enc er a have "w' = (show_save_error x (w\<lparr>vw_revisions := Some s1\<rparr>))\<lparr>vw_saving := False\<rparr>" by (simp add: run)
        then show ?thesis by (simp add: err)
      next
        case (Inr q')
        have id: "ib_itemId (bindingForItem item) = ev_id item" by (simp add: bindingForItem_def)
        from Inr assms(1) old enc er a have w': "v' = v1"
          "w' = (showNotice ''Changes saved'' (on_store (upsertItem (replaced item e))
              (record_revision (ev_id item) r (w\<lparr>vw_revisions := Some s1\<rparr>))))
            \<lparr>vw_creating := None, vw_editing := False, vw_saving := False\<rparr>"
          by (simp_all add: run leaveEditing_def)
        then have "vw_error w' = None" using assms(3) by (simp add: showNotice_def on_store_def record_revision_def)
        moreover have "di_revision old < r" using en(4) by simp
        moreover have "\<forall>h. revs_get s1 (ev_id item) = Some h \<longrightarrow> h < r" using en(3) id by simp
        ultimately show ?thesis using en(1) q old s1 a Inr w' by blast
      qed
    qed
  qed
qed


section \<open>A sample vault\<close>

definition demo_view_item :: EncryptedVaultItem where
  "demo_view_item = replaced demo_legacy_item (demo_envelope 4)"

definition demo_view_store :: NopassStore where
  "demo_view_store = (new_store None)\<lparr>st_sessionToken := Some ''s'', st_defaultVaultId := Some ''v'',
     st_vaultEncKey := Some (vk_vaultEncKey demo_keys), st_vaultMacKey := Some (vk_vaultMacKey demo_keys),
     st_items := [demo_view_item]\<rparr>"

definition demo_vault_api :: "unit VaultApi" where
  "demo_vault_api = \<lparr>keys_me = (\<lambda>v. (Inl (ApiError ''none'' 404), v)), keys_setIdentity = (\<lambda>_ v. (Inr (), v)),
     vault_list = (\<lambda>v. (Inl (ApiError ''busy'' 503), v)), vault_items = (\<lambda>_ v. (Inr [], v)),
     vault_create = (\<lambda>_ _ v. (Inr demo_view_item, v)), vault_update = (\<lambda>_ _ _ v. (Inr (3, ''t''), v)),
     vault_delete = (\<lambda>_ _ v. (Inr (), v)), vault_moveItem = (\<lambda>_ _ _ v. (Inr (), v)),
     vault_createVault = (\<lambda>_ _ v. (Inl (ApiError ''full'' 402), v)), keys_setVaultFormat = (\<lambda>_ v. (Inr (), v))\<rparr>"

lemma demo_view_item [simp]:
  "ev_id demo_view_item = ib_itemId demo_binding" "ev_encrypted demo_view_item = demo_envelope 4"
  "bindingForItem demo_view_item = demo_binding" "ev_deletedAt demo_view_item = None" "ev_itemType demo_view_item = ''note''"
  using demo_legacy_binding
  by (simp_all add: demo_view_item_def replaced_def ev_encrypted_def bindingForItem_def demo_legacy_item_def demo_binding_def)

lemma demo_view_store [simp]:
  "st_vaultEncKey demo_view_store = Some (vk_vaultEncKey demo_keys)" "st_vaultMacKey demo_view_store = Some (vk_vaultMacKey demo_keys)"
  "activeItems demo_view_store = [demo_view_item]" "nonempty_opt (st_sessionToken demo_view_store) = Some ''s''"
  "nonempty_opt (st_defaultVaultId demo_view_store) = Some ''v''" "st_items demo_view_store = [demo_view_item]"
  by (simp_all add: demo_view_store_def activeItems_def nonempty_opt_def)

lemma demo_open_revisions:
  "\<exists>s. openRevisionStore demo_crypto (vk_vaultMacKey demo_keys) (Some (Inr None)) ids None = Inr (s, None) \<and>
     (\<forall>i. revs_get s i = None) \<and> \<not> revs_v2Only s"
proof -
  obtain t where t: "trustStateId demo_crypto (demo_mac_key 2) = Inr t"
    by (simp add: trustStateId_def macLabel_def subtle_sign_def demo_mac_key_def ck_allows_def)
  have "takeLegacyRecords ''nopass:item-revisions:'' t ids None = ([], None)"
    by (simp add: takeLegacyRecords_def)
  with t show ?thesis
    by (simp add: openRevisionStore_def demo_keys_def readJson_def stored_revisions_def applyV2OnlyMarker_def record_legacy_def
        obj_members_def js_map_new_def new_MemoryRevisionStore_def revs_get_def revs_v2Only_def)
qed


definition demo_edit :: VaultItemPlaintext where
  "demo_edit = Note \<lparr>note_name = ''n'', note_tags = None, note_content = ''hi''\<rparr>"

definition demo_edit_view :: VaultView where
  "demo_edit_view = (new_view demo_view_store ''/vault'' 0)\<lparr>vw_decrypted := [(ib_itemId demo_binding, demo_note)],
     vw_revisions := Some demo_store, vw_selectedId := Some (ib_itemId demo_binding), vw_editing := True\<rparr>"

lemma nonempty_opt_simps: "nonempty_opt None = None" "s \<noteq> '''' \<Longrightarrow> nonempty_opt (Some s) = Some s"
  by (simp_all add: nonempty_opt_def)

lemma demo_edit_view:
  "view_keys demo_edit_view = Some demo_keys" "session demo_edit_view = Some ''s''" "vw_store demo_edit_view = demo_view_store"
  "vw_revisions demo_edit_view = Some demo_store" "vw_creating demo_edit_view = None" "vw_editing demo_edit_view"
  "selectedEntry demo_edit_view = Some (demo_view_item, demo_note)"
  by (simp_all add: demo_edit_view_def new_view_def view_keys_def session_def selectedEntry_def nonempty_opt_simps
      demo_binding_def [THEN arg_cong [where f = ib_itemId]])
   
lemma demo_save: "\<exists>w'. saveItem demo_crypto \<lparr>rnd_itemId = '''', rnd_iv = demo_iv\<rparr> demo_vault_api demo_edit ((), demo_edit_view) = ((), w') \<and>
    vw_error w' = None"
proof -
  let ?s = "revs_record (ib_itemId demo_binding) 4 demo_store"
  have d: "decryptVaultItem demo_crypto (demo_envelope 4) demo_binding demo_keys (Some demo_store) =
        (Inr \<lparr>di_plaintext = demo_note, di_revision = 4, di_format = 2\<rparr>, Some ?s)"
    using demo_small demo_store_get by (intro demo_decrypt(2)) simp_all
  have g: "revs_get ?s (ib_itemId demo_binding) = Some 4" by (simp add: revs_get_record demo_store_get opt_mark_def)
  have a: "itemAad demo_binding 5 = Inr (demo_aad 5)" by (rule demo_itemAad) (simp_all add: MAX_SAFE_INTEGER_def)
  have "\<exists>e. encryptItemV2 demo_crypto demo_iv (item_to_json demo_edit) demo_binding 5 (vk_vaultEncKey demo_keys) = Inr e"
    by (simp add: encryptItemV2_Inr a demo_edit_def demo_keys_def demo_aes_key_def ck_allows_def jopt_def json_get_def
        demo_binding_def [THEN arg_cong [where f = ib_itemType]] del: be_bytes.simps)
  then obtain e where e: "encryptVaultItem demo_crypto demo_iv (item_to_json demo_edit) demo_binding (vk_vaultEncKey demo_keys)
      (Some ?s) (Some 4) = Inr (e, 5)" by (auto simp: encryptVaultItem_def g)
  have k: "\<lparr>vk_vaultEncKey = vk_vaultEncKey demo_keys, vk_vaultMacKey = vk_vaultMacKey demo_keys\<rparr> = demo_keys" by simp
  have t: "plain_type demo_edit = ''note''" by (simp add: demo_edit_def)
  have "vault_update demo_vault_api x y z v = (Inr (3, ''t''), v)" for x y z v by (simp add: demo_vault_api_def)
  with d e show ?thesis
    by (simp add: saveItem_def demo_edit_view nonempty_opt_simps save_body_def t k save_edit_def caught_def io_bind_def with_revisions_def
        reading_def serve_def upd_def showNotice_def on_store_def record_revision_def leaveEditing_def)
qed


section \<open>Closing an account to the first format\<close>

text \<open>
  The upgrade looks at the items the store holds. When the list of vaults could not be loaded there are
  none, so nothing is left to upgrade and the account is marked as holding no item of the first format:
  on this device and, through the marker on the server, on every other one, its items of that format are
  refused from then on.
\<close>

lemma failed_load_closes_account:
  assumes "vault_list api v = (Inl e, v1)" "st_items (vw_store w) = []" "view_keys w = Some keys" "session w \<noteq> None"
    and "nonempty_opt (st_defaultVaultId (vw_store w)) \<noteq> None" "vw_revisions w = Some s" "\<not> revs_v2Only s" "\<not> vw_upgradeStarted w"
    and "v2OnlyMarker C (vk_vaultMacKey keys) = Inr marker" "keys_setVaultFormat api marker v1 = (Inr (), v2)"
  shows "\<exists>w2 s2. fold (view_step C api) [LoadVault, UpgradeItems rng] (v, w) = (v2, w2) \<and> vw_revisions w2 = Some s2 \<and>
    (\<forall>x b. isLegacyItemBlob x \<longrightarrow> fst (decryptVaultItem C x b keys (Some s2)) = Inl (LegacyItemRejectedError (ib_itemId b)))"
proof -
  let ?w1 = "on_store (\<lambda>s. s\<lparr>st_isLoading := False\<rparr>) (show_view_error e (on_store (\<lambda>s. s\<lparr>st_isLoading := True\<rparr>) w))"
  have u: "isUnlocked (vw_store w)" using assms(3) by (auto simp: isUnlocked_def view_keys_def split: option.splits)
  have load: "load_vault api (v, w) = (v1, ?w1)"
    using u assms(1,4,5) by (auto simp: load_vault_def caught_def io_bind_def serve_def)
  have "session ?w1 = session w" "view_keys ?w1 = Some keys" "vw_revisions ?w1 = Some s" "\<not> vw_upgradeStarted ?w1"
    "st_items (vw_store ?w1) = []" "\<not> st_isLoading (vw_store ?w1)"
    using assms by (simp_all add: on_store_def show_view_error_def session_def view_keys_def)
  then have "upgrade_view C rng api (v1, ?w1) = (v2, ?w1\<lparr>vw_upgradeStarted := True, vw_revisions := Some (revs_markV2Only s)\<rparr>)"
    using assms(4,7,9,10) by (auto simp: upgrade_view_def upgradeLegacyItems_def publishV2Only_def)
  then show ?thesis using load by (auto simp: decryptVaultItem_def decryptEnvelope_def revs_mark_v2Only)
qed

text \<open>Such an account: nothing could be loaded, and an item that would have opened is refused.\<close>

lemma demo_closed:
  "\<exists>w2 s2. fold (view_step demo_crypto demo_vault_api) [LoadVault, UpgradeItems (\<lambda>_. demo_iv)]
       ((), (new_view (demo_view_store\<lparr>st_items := []\<rparr>) ''/vault'' 0)\<lparr>vw_revisions := Some (new_MemoryRevisionStore None None)\<rparr>) = ((), w2) \<and>
     vw_revisions w2 = Some s2 \<and>
     fst (decryptVaultItem demo_crypto demo_legacy_blob demo_binding demo_keys (Some s2)) = Inl (LegacyItemRejectedError (ib_itemId demo_binding)) \<and>
     (\<exists>d. fst (decryptVaultItem demo_crypto demo_legacy_blob demo_binding demo_keys (Some (new_MemoryRevisionStore None None))) = Inr d)"
proof -
  let ?w = "(new_view (demo_view_store\<lparr>st_items := []\<rparr>) ''/vault'' 0)\<lparr>vw_revisions := Some (new_MemoryRevisionStore None None)\<rparr>"
  obtain marker where m: "v2OnlyMarker demo_crypto (vk_vaultMacKey demo_keys) = Inr marker"
    by (simp add: v2OnlyMarker_def macLabel_def subtle_sign_def demo_keys_def demo_mac_key_def ck_allows_def)
  have w: "view_keys ?w = Some demo_keys" "session ?w \<noteq> None" "nonempty_opt (st_defaultVaultId (vw_store ?w)) \<noteq> None"
    "st_items (vw_store ?w) = []" "vw_revisions ?w = Some (new_MemoryRevisionStore None None)" "\<not> vw_upgradeStarted ?w"
    by (simp_all add: new_view_def view_keys_def session_def)
  have v: "\<not> revs_v2Only (new_MemoryRevisionStore None None)" by (simp add: revs_v2Only_def new_MemoryRevisionStore_def)
  have api: "vault_list demo_vault_api () = (Inl (ApiError ''busy'' 503), ())" "keys_setVaultFormat demo_vault_api marker () = (Inr (), ())"
    by (simp_all add: demo_vault_api_def)
  have leg: "isLegacyItemBlob demo_legacy_blob" "ev_encrypted demo_legacy_item = demo_legacy_blob"
    using demo_legacy by (simp_all add: ev_encrypted_def demo_legacy_item_def)
  have "\<exists>d. fst (decryptVaultItem demo_crypto demo_legacy_blob demo_binding demo_keys (Some (new_MemoryRevisionStore None None))) = Inr d"
    by (rule upgradeOne_True [OF demo_upgradeOne]) (auto simp: leg(2) demo_legacy_binding)
  with failed_load_closes_account [OF api(1) w(4,1,2,3,5) v w(6) m api(2), of "\<lambda>_. demo_iv"] leg(1) show ?thesis by blast
qed

end
