(* ===== verification/Sign_In.thy ===== *)
theory Sign_In
  imports Device_Facts Account_Recovery Identity_Migration Org_Crypto Vault_Store
begin

text \<open>
  The account screens of the web client: signing in and registering
  (packages/ui/src/components/UnlockScreen.tsx with primitives/strength.ts), the recovery page
  (apps/web/src/app/(auth)/recover/page.tsx) and the page that makes a new kit
  (apps/web/src/app/(vault)/vault/recovery/page.tsx).

  What a handler works on is the server and the browser's \<open>localStorage\<close>, where
  \<open>browserAccountState\<close> keeps its facts and the last email is written, next to the component's state. Fresh
  randomness, the strength estimator (zxcvbn) and the texts of the platform's own exceptions are
  parameters. An event whose field or button the current phase does not render changes nothing.
\<close>

section \<open>Password strength\<close>

record ZxcvbnResult =
  zx_score :: nat
  zx_crackTime :: string
  zx_warning :: "string option"
  zx_suggestions :: "string list"

type_synonym zxcvbn = "string \<Rightarrow> string list \<Rightarrow> ZxcvbnResult"

record StrengthResult =
  sr_level :: nat
  sr_label :: "string option"
  sr_crackTime :: string
  sr_suggestion :: "string option"

definition LABELS :: "string list" where
  "LABELS = [''Too weak'', ''Weak'', ''Fair'', ''Good'', ''Strong'']"

definition nth_opt :: "'a list \<Rightarrow> nat \<Rightarrow> 'a option" where
  "nth_opt xs n = (if n < length xs then Some (xs ! n) else None)"

definition estimateStrength :: "zxcvbn \<Rightarrow> string \<Rightarrow> string list \<Rightarrow> StrengthResult" where
  "estimateStrength zx password userInputs =
     (if password = '''' then \<lparr>sr_level = 0, sr_label = Some '''', sr_crackTime = '''', sr_suggestion = None\<rparr>
      else let r = zx password userInputs in
        \<lparr>sr_level = max 1 (zx_score r), sr_label = nth_opt LABELS (zx_score r), sr_crackTime = zx_crackTime r,
         sr_suggestion =
           (case nonempty_opt (zx_warning r) of
              Some w \<Rightarrow> Some w
            | None \<Rightarrow> nonempty_opt (nth_opt (zx_suggestions r) 0))\<rparr>)"

definition MASTER_PASSWORD_MIN_LEVEL :: nat where "MASTER_PASSWORD_MIN_LEVEL = 4"

section \<open>The sign-in form\<close>

record 'v SignInApi =
  sia_auth :: "'v PasswordAuthApi"
  sia_account :: "'v AccountKeyApi"
  sia_registerStart :: "OpaqueRegisterStartRequest \<Rightarrow> ('v, js_error, string) io"
  sia_registerFinish :: "OpaqueRegisterFinishRequest \<Rightarrow> ('v, js_error, unit) io"
  sia_identity :: "string \<Rightarrow> 'v IdentityApi"
  sia_recoverySet :: "SetRecoveryRequest \<Rightarrow> string \<Rightarrow> ('v, js_error, unit) io"

text \<open>What the platform supplies: primitives, the estimator and the messages of its own exceptions.\<close>

record Platform =
  pl_crypto :: crypto
  pl_opaque :: opaque_client
  pl_zxcvbn :: zxcvbn
  pl_text :: "js_error \<Rightarrow> string"

record SignInRandom =
  sir_register :: bytes
  sir_protectedIv :: bytes
  sir_spki :: bytes
  sir_pkcs8 :: bytes
  sir_keyPairIv :: bytes
  sir_login :: LoginRandom
  sir_unlock :: UnlockRandom
  sir_proof :: bytes
  sir_code :: bytes
  sir_kitIv :: bytes

datatype Mode = LoginMode | RegisterMode
datatype Phase = PhaseForm | PhaseKit

text \<open>
  \<open>sf_done\<close> says whether \<open>onSuccess\<close> was called. The session store is the one the whole client uses.
\<close>

record SignInForm =
  sf_email :: string
  sf_password :: string
  sf_confirm :: string
  sf_error :: "string option"
  sf_passwordError :: "string option"
  sf_confirmError :: "string option"
  sf_loading :: bool
  sf_phase :: Phase
  sf_kitCode :: "string option"
  sf_kitSaved :: bool
  sf_kitError :: "string option"
  sf_kitPending :: bool
  sf_pendingKit :: "(UnlockedAccount \<times> string) option"
  sf_store :: NopassStore
  sf_done :: bool

text \<open>The message of an exception, and what the form shows for it.\<close>

fun error_text :: "(js_error \<Rightarrow> string) \<Rightarrow> js_error \<Rightarrow> string" where
  "error_text pl (JsError m) = m"
| "error_text pl (AccountKeyError m) = m"
| "error_text pl WeakKdfParamsError =
     ''The server asked for weaker password hashing than this app allows. Not signing in.''"
| "error_text pl IncorrectPasswordError = ''Incorrect email or master password.''"
| "error_text pl (ApiError m _) = m"
| "error_text pl (ConflictError _) = ''conflict''"
| "error_text pl (UnverifiableKeyError _ reason) = reason"
| "error_text pl (UntrustedOrgKeyError reason) = reason"
| "error_text pl e = pl e"

text \<open>The \<open>status\<close> of the errors that have one.\<close>

fun error_status :: "js_error \<Rightarrow> int option" where
  "error_status (ApiError _ status) = Some status"
| "error_status (ConflictError _) = Some 409"
| "error_status IncorrectPasswordError = Some 401"
| "error_status _ = None"

definition SERVER_UNREACHABLE :: string where
  "SERVER_UNREACHABLE = ''Could not reach the nopwd server. Check your connection and try again.''"
definition INCORRECT :: string where "INCORRECT = ''Incorrect email or master password.''"
definition EXISTS :: string where "EXISTS = ''An account with this email already exists.''"
definition TOO_MANY :: string where "TOO_MANY = ''Too many attempts. Wait a moment and try again.''"

definition or_default :: "string \<Rightarrow> string" where
  "or_default msg = (if msg = '''' then ''Something went wrong. Please try again.'' else msg)"

definition humanizeMessage :: "string \<Rightarrow> string" where
  "humanizeMessage msg =
     (if msg = ''Failed to fetch'' \<or> js_includes msg ''NetworkError'' \<or> js_includes msg ''ERR_FAILED'' then SERVER_UNREACHABLE
      else if js_includes msg ''CORS'' \<or> js_includes msg ''access control'' then SERVER_UNREACHABLE
      else if js_includes (toLowerCase msg) ''unauthorized'' \<or> js_includes msg ''401'' then INCORRECT
      else if js_includes (toLowerCase msg) ''conflict'' \<or> js_includes msg ''409'' then EXISTS
      else if js_includes (toLowerCase msg) ''rate limit'' \<or> js_includes msg ''429'' then TOO_MANY
      else or_default msg)"

definition humanizeError :: "(js_error \<Rightarrow> string) \<Rightarrow> js_error \<Rightarrow> string" where
  "humanizeError pl err =
     (if err = WeakKdfParamsError then error_text pl err
      else if error_status err = Some 401 then INCORRECT
      else if error_status err = Some 409 then EXISTS
      else if error_status err = Some 429 then TOO_MANY
      else humanizeMessage (error_text pl err))"

text \<open>Remembering the email; \<open>accepts\<close> says whether \<open>setItem\<close> takes the value or throws.\<close>

definition LAST_EMAIL_STORAGE_KEY :: string where "LAST_EMAIL_STORAGE_KEY = ''nopass:lastEmail''"

definition readLastEmail :: "storage_world option \<Rightarrow> string" where
  "readLastEmail storage =
     (case storage of None \<Rightarrow> '''' | Some w \<Rightarrow> (case w LAST_EMAIL_STORAGE_KEY of None \<Rightarrow> '''' | Some email \<Rightarrow> email))"

definition writeLastEmail :: "bool \<Rightarrow> string \<Rightarrow> storage_world option \<Rightarrow> storage_world option" where
  "writeLastEmail accepts email storage =
     map_option (\<lambda>w. if accepts then w(LAST_EMAIL_STORAGE_KEY \<mapsto> email) else w) storage"

definition browserAccountState :: "storage_world AccountStateStore" where
  "browserAccountState = keyValueAccountState"


section \<open>Signing in and registering\<close>

type_synonym 'v browser = "'v \<times> storage_world"

definition api_call :: "('v, js_error, 'a) io \<Rightarrow> ('v browser, 'p, 'a) handler" where
  "api_call m = serve (on_server m)"

text \<open>A \<open>catch\<close> that drops the error, and one that replaces it.\<close>

definition ignoring :: "('w, js_error, unit) io \<Rightarrow> ('w, js_error, unit) io" where
  "ignoring m = io_catch m (\<lambda>_. io_return ())"

definition account_raw :: "UnlockedAccount \<Rightarrow> RawSubkeys" where
  "account_raw a = \<lparr>rs_smkBytes = ua_smkBytes a, rs_encKeyBytes = ak_encKeyBytes a, rs_macKeyBytes = ak_macKeyBytes a\<rparr>"

definition signed_in_as :: "PasswordLoginResult \<Rightarrow> UnlockedAccount \<Rightarrow> LoginResponse" where
  "signed_in_as auth account =
     (LoginResponse.truncate auth)
       \<lparr>lr_protectedPrivateKey := ua_protectedPrivateKey account,
        lr_protectedPrivateKeyIv := ua_protectedPrivateKeyIv account\<rparr>"

definition publishIdentity ::
  "Platform \<Rightarrow> 'v SignInApi \<Rightarrow> bytes \<Rightarrow> string \<Rightarrow> string \<Rightarrow> PasswordLoginResult \<Rightarrow> UnlockedAccount \<Rightarrow> DerivedKeys \<Rightarrow>
   ('v, js_error, unit) io" where
  "publishIdentity P api rnd email password auth account keys =
     (case (nonempty_opt (ua_protectedPrivateKey account), nonempty_opt (ua_protectedPrivateKeyIv account)) of
        (Some key, Some iv) \<Rightarrow>
          ignoring (ensureIdentityPublished (pl_crypto P) (sia_identity api (lr_sessionToken auth))
            \<lparr>okm_userId = lr_userId auth, okm_protectedPrivateKey = key, okm_protectedPrivateKeyIv = iv,
             okm_stretchedMasterKey = dk_stretchedMasterKey keys\<rparr>
            (Some (provePassword (pl_crypto P) (pl_opaque P) rnd (aka_proofStart (sia_account api)) email password
                     (lr_sessionToken auth) PurposeIdentityKey)))
      | _ \<Rightarrow> io_return ())"

definition performLogin ::
  "Platform \<Rightarrow> 'v SignInApi \<Rightarrow> SignInRandom \<Rightarrow> string \<Rightarrow> string \<Rightarrow>
   ('v browser, SignInForm, UnlockedAccount \<times> string) handler" where
  "performLogin P api rnd email password =
     (let C = pl_crypto P; oc = pl_opaque P; accountState = browserAccountState in
      io_bind (serve (loginWithPassword C oc (sir_login rnd) (sia_auth api)
                 \<lparr>plo_email = email, plo_password = password, plo_accountState = accountState, plo_deviceId = None\<rparr>)) (\<lambda>auth.
      io_bind (serve (unlockAccount C oc (sir_unlock rnd) (sia_account api) email password auth accountState)) (\<lambda>account.
      io_bind (io_lift (importAccountKeys account)) (\<lambda>keys.
      io_bind (upd (\<lambda>p. p\<lparr>sf_store := setSession (signed_in_as auth account) email keys (sf_store p)\<rparr>)) (\<lambda>_.
      io_bind (api_call (publishIdentity P api (sir_proof rnd) email password auth account keys)) (\<lambda>_.
      io_return (account, lr_sessionToken auth)))))))"

definition handleLogin ::
  "Platform \<Rightarrow> 'v SignInApi \<Rightarrow> SignInRandom \<Rightarrow> string \<Rightarrow> string \<Rightarrow> ('v browser, SignInForm, unit) handler" where
  "handleLogin P api rnd email password = io_bind (performLogin P api rnd email password) (\<lambda>_. io_return ())"

definition register ::
  "Platform \<Rightarrow> 'v SignInApi \<Rightarrow> SignInRandom \<Rightarrow> string \<Rightarrow> string \<Rightarrow> ('v, js_error, unit) io" where
  "register P api rnd email password =
     (let C = pl_crypto P; kdfParams = DEFAULT_KDF_PARAMS; emailHash = computeEmailHash C email in
      io_bind (io_lift (deriveMasterKey C password email kdfParams)) (\<lambda>masterKey.
      io_bind (io_lift (stretchMasterKey C masterKey email)) (\<lambda>keys.
      let (encKeyBytes, _) = stretchMasterKeyRaw C masterKey email in
      io_bind (createOpaqueRegistration (pl_opaque P) (sir_register rnd) password kdfParams (\<lambda>registrationRequest.
                 sia_registerStart api \<lparr>ors_emailHash = emailHash, ors_registrationRequest = registrationRequest\<rparr>)) (\<lambda>registrationRecord.
      io_bind (io_lift (encryptBytes C (sir_protectedIv rnd) encKeyBytes (dk_stretchedMasterKey keys))) (\<lambda>protectedKey.
      io_bind (io_lift (generateUserKeyPair C (sir_spki rnd) (sir_pkcs8 rnd) (sir_keyPairIv rnd)
                 (dk_stretchedMasterKey keys))) (\<lambda>keyPair.
      sia_registerFinish api
        \<lparr>orf_emailHash = emailHash, orf_registrationRecord = registrationRecord, orf_kdfParams = kdfParams,
         orf_protectedSymmetricKey = eb_blob protectedKey, orf_protectedSymmetricKeyIv = eb_blobIv protectedKey,
         orf_publicKey = Some (ukp_publicKeyB64 keyPair),
         orf_protectedPrivateKey = Some (ukp_protectedPrivateKey keyPair),
         orf_protectedPrivateKeyIv = Some (ukp_protectedPrivateKeyIv keyPair)\<rparr>))))))"

definition SIGN_IN_FAILED :: string where
  "SIGN_IN_FAILED = ''Your account was created, but signing in failed. Sign in to finish setting up your recovery kit.''"

text \<open>\<open>kit\<close> says whether the page passed \<open>onDownloadRecoveryKit\<close>.\<close>

definition handleRegister ::
  "Platform \<Rightarrow> 'v SignInApi \<Rightarrow> SignInRandom \<Rightarrow> bool \<Rightarrow> string \<Rightarrow> string \<Rightarrow> ('v browser, SignInForm, unit) handler" where
  "handleRegister P api rnd kit email password =
     io_bind (api_call (register P api rnd email password)) (\<lambda>_.
     io_bind (io_catch (performLogin P api rnd email password) (\<lambda>_. io_throw (JsError SIGN_IN_FAILED))) (\<lambda>unlocked.
     if kit then upd (\<lambda>p. p\<lparr>sf_pendingKit := Some unlocked\<rparr>) else io_return ()))"

text \<open>Wraps the account key under a fresh recovery code and uploads the blob.\<close>

definition makeKit ::
  "Platform \<Rightarrow> 'v SignInApi \<Rightarrow> bytes \<Rightarrow> bytes \<Rightarrow> string \<Rightarrow> UnlockedAccount \<Rightarrow> string \<Rightarrow> ('v, js_error, string) io" where
  "makeKit P api codeBytes iv email account sessionToken =
     (let C = pl_crypto P; code = generateRecoveryCode codeBytes in
      io_bind (io_lift (deriveRecoveryKeys C code email RECOVERY_KDF_PARAMS)) (\<lambda>ks.
      io_bind (io_lift (wrapVaultSubkeys C iv (account_raw account) (rk_wrapKey ks))) (\<lambda>blob.
      io_bind (sia_recoverySet api
        \<lparr>srq_recoveryAuthKey = rk_authKeyB64 ks, srq_recoveryBlob = eb_blob blob, srq_recoveryBlobIv = eb_blobIv blob\<rparr>
        sessionToken) (\<lambda>_.
      io_return code))))"

definition createKit ::
  "Platform \<Rightarrow> 'v SignInApi \<Rightarrow> bytes \<Rightarrow> bytes \<Rightarrow> 'v browser \<times> SignInForm \<Rightarrow> 'v browser \<times> SignInForm" where
  "createKit P api codeBytes iv = (\<lambda>(w, p).
     case sf_pendingKit p of
       None \<Rightarrow> (w, p)
     | Some (account, sessionToken) \<Rightarrow>
         caught (\<lambda>e p. p\<lparr>sf_kitError := Some (humanizeError (pl_text P) e)\<rparr>)
           (io_bind (api_call (makeKit P api codeBytes iv (sf_email p) account sessionToken)) (\<lambda>code.
            upd (\<lambda>p. p\<lparr>sf_pendingKit := None, sf_kitCode := Some code\<rparr>)))
           (\<lambda>p. p\<lparr>sf_kitPending := False\<rparr>)
           (w, p\<lparr>sf_kitError := None, sf_kitPending := True\<rparr>))"

definition handleSubmit ::
  "Platform \<Rightarrow> 'v SignInApi \<Rightarrow> SignInRandom \<Rightarrow> bool \<Rightarrow> Mode \<Rightarrow> bool \<Rightarrow> 'v browser \<times> SignInForm \<Rightarrow> 'v browser \<times> SignInForm" where
  "handleSubmit P api rnd accepts mode kit = (\<lambda>(w, p0).
     let p = p0\<lparr>sf_error := None, sf_passwordError := None, sf_confirmError := None\<rparr>;
         email = sf_email p0; password = sf_password p0 in
     if mode = RegisterMode \<and> sr_level (estimateStrength (pl_zxcvbn P) password [email]) < MASTER_PASSWORD_MIN_LEVEL then
       (w, p\<lparr>sf_passwordError := Some ''Choose a stronger master password. It has to reach Strong.''\<rparr>)
     else if mode = RegisterMode \<and> password \<noteq> sf_confirm p0 then
       (w, p\<lparr>sf_confirmError := Some ''The passwords don't match.''\<rparr>)
     else
       (case (if mode = RegisterMode then handleRegister P api rnd kit email password
              else handleLogin P api rnd email password) (w, p\<lparr>sf_loading := True\<rparr>) of
          (Inl e, (w1, p1)) \<Rightarrow> (w1, p1\<lparr>sf_error := Some (humanizeError (pl_text P) e), sf_loading := False\<rparr>)
        | (Inr _, ((v1, s1), p1)) \<Rightarrow>
            let w2 = (v1, the (writeLastEmail accepts email (Some s1)));
                p2 = p1\<lparr>sf_loading := False\<rparr> in
            if mode = RegisterMode \<and> kit then
              createKit P api (sir_code rnd) (sir_kitIv rnd) (w2, p2\<lparr>sf_phase := PhaseKit\<rparr>)
            else (w2, p2\<lparr>sf_done := True\<rparr>)))"

section \<open>The component\<close>

datatype 'v FormEvent =
    Prefill
  | SetEmail string
  | SetPassword string
  | SetConfirm string
  | Submit "'v SignInApi" SignInRandom bool
  | RetryKit "'v SignInApi" bytes bytes
  | SetSaved bool
  | ContinueToVault
  | Unmount

definition new_form :: "NopassStore \<Rightarrow> SignInForm" where
  "new_form store =
     \<lparr>sf_email = '''', sf_password = '''', sf_confirm = '''', sf_error = None, sf_passwordError = None,
      sf_confirmError = None, sf_loading = False, sf_phase = PhaseForm, sf_kitCode = None, sf_kitSaved = False,
      sf_kitError = None, sf_kitPending = False, sf_pendingKit = None, sf_store = store, sf_done = False\<rparr>"

text \<open>
  The server of each request is an argument of its event: a server may answer one request after another as it
  likes. The fields are rendered in the form phase; the retry button while the kit's error is shown; the
  checkbox and the button that leaves once the code is.
\<close>

fun form_step ::
  "Platform \<Rightarrow> Mode \<Rightarrow> bool \<Rightarrow> 'v FormEvent \<Rightarrow> 'v browser \<times> SignInForm \<Rightarrow> 'v browser \<times> SignInForm" where
  "form_step P mode kit Prefill ((v, s), p) =
     ((v, s), if mode = LoginMode \<and> readLastEmail (Some s) \<noteq> '''' \<and> sf_email p = ''''
              then p\<lparr>sf_email := readLastEmail (Some s)\<rparr> else p)"
| "form_step P mode kit (SetEmail x) (w, p) = (w, if sf_phase p = PhaseForm then p\<lparr>sf_email := x\<rparr> else p)"
| "form_step P mode kit (SetPassword x) (w, p) = (w, if sf_phase p = PhaseForm then p\<lparr>sf_password := x\<rparr> else p)"
| "form_step P mode kit (SetConfirm x) (w, p) = (w, if sf_phase p = PhaseForm then p\<lparr>sf_confirm := x\<rparr> else p)"
| "form_step P mode kit (Submit api rnd accepts) (w, p) =
     (if sf_phase p = PhaseForm then handleSubmit P api rnd accepts mode kit (w, p) else (w, p))"
| "form_step P mode kit (RetryKit api codeBytes iv) (w, p) =
     (if sf_phase p = PhaseKit \<and> sf_kitError p \<noteq> None then createKit P api codeBytes iv (w, p) else (w, p))"
| "form_step P mode kit (SetSaved b) (w, p) =
     (w, if sf_phase p = PhaseKit \<and> sf_kitCode p \<noteq> None then p\<lparr>sf_kitSaved := b\<rparr> else p)"
| "form_step P mode kit ContinueToVault (w, p) =
     (w, if sf_phase p = PhaseKit \<and> sf_kitCode p \<noteq> None \<and> sf_kitSaved p then p\<lparr>sf_done := True\<rparr> else p)"
| "form_step P mode kit Unmount (w, p) = (w, p\<lparr>sf_pendingKit := None\<rparr>)"


section \<open>The device remembers\<close>

lemma last_email_apart: "LAST_EMAIL_STORAGE_KEY \<noteq> kv_key h"
  by (simp add: LAST_EMAIL_STORAGE_KEY_def kv_key_def)

lemma kv_remembers: "keyvalue_store.remembers h f s \<longleftrightarrow> kv_wf s \<and> flag_of (kv_read s h) f"
  by (rule keyvalue_store.remembers_def)

lemma last_email_reads: "kv_read (s(LAST_EMAIL_STORAGE_KEY \<mapsto> email)) h = kv_read s h"
  by (simp add: kv_read_def last_email_apart [symmetric])

lemma remembers_last_email:
  "keyvalue_store.remembers h f s \<Longrightarrow> keyvalue_store.remembers h f (the (writeLastEmail accepts email (Some s)))"
  by (simp add: kv_remembers writeLastEmail_def kv_wf_def last_email_reads last_email_apart [symmetric])

abbreviation device_keeps :: "string \<Rightarrow> AccountFlag \<Rightarrow> ('v browser, SignInForm, 'a) handler \<Rightarrow> bool" where
  "device_keeps h f \<equiv> stays (\<lambda>(w, p). case w of (v, s) \<Rightarrow> keyvalue_store.remembers h f s)"

lemma performLogin_keeps: "device_keeps h f (performLogin P api rnd email password)"
  unfolding performLogin_def Let_def browserAccountState_def api_call_def
  by (intro stays_intros keyvalue_store.login_stays keyvalue_store.unlock_stays keyvalue_store.remembers_kept) simp

lemma handleSubmit_body_keeps:
  "device_keeps h f (handleLogin P api rnd email password)"
  "device_keeps h f (handleRegister P api rnd kit email password)"
  unfolding handleLogin_def handleRegister_def api_call_def
  by (intro stays_intros performLogin_keeps)+

lemma createKit_device: "snd (fst (createKit P api c iv ((v, s), p))) = s"
  by (auto simp: createKit_def caught_def io_simps api_call_def serve_def on_server_def upd_def
      split: option.splits prod.splits sum.splits)

lemma form_step_keeps:
  assumes "keyvalue_store.remembers h f (snd (fst wp))"
  shows "keyvalue_store.remembers h f (snd (fst (form_step P mode kit ev wp)))"
proof (cases ev)
  case (Submit api rnd accepts)
  obtain v s p where wp: "wp = ((v, s), p)" by (metis prod.exhaust)
  let ?m = "if mode = RegisterMode then handleRegister P api rnd kit (sf_email p) (sf_password p)
            else handleLogin P api rnd (sf_email p) (sf_password p)"
  let ?p = "p\<lparr>sf_error := None, sf_passwordError := None, sf_confirmError := None, sf_loading := True\<rparr>"
  obtain r v1 s1 p1 where m: "?m ((v, s), ?p) = (r, ((v1, s1), p1))" by (metis prod.exhaust)
  have "device_keeps h f ?m" by (simp add: handleSubmit_body_keeps)
  from staysD [OF this _ m] assms have s1: "keyvalue_store.remembers h f s1" by (simp add: wp)
  from assms s1 remembers_last_email [OF s1] show ?thesis
    by (auto simp: wp Submit handleSubmit_def Let_def m createKit_device [unfolded fst_conv snd_conv] split: sum.splits)
qed (cases wp; cases "fst wp"; use assms in \<open>auto simp: createKit_device\<close>)+

text \<open>
  A visit of one of the two screens: a fresh component, the events the user causes and what the server
  answers. The storage outlives it; the session store is handed on.
\<close>

definition visit ::
  "Platform \<Rightarrow> Mode \<times> bool \<times> 'v FormEvent list \<Rightarrow> 'v browser \<times> NopassStore \<Rightarrow> 'v browser \<times> NopassStore" where
  "visit P = (\<lambda>(mode, kit, evs) (w, store).
     case fold (form_step P mode kit) evs (w, new_form store) of (w', p) \<Rightarrow> (w', sf_store p))"

lemma fold_keeps:
  "keyvalue_store.remembers h f (snd (fst wp)) \<Longrightarrow>
   keyvalue_store.remembers h f (snd (fst (fold (form_step P mode kit) evs wp)))"
  by (induction evs arbitrary: wp) (simp_all add: form_step_keeps)

lemma visits_keep:
  "keyvalue_store.remembers h f (snd (fst ws)) \<Longrightarrow>
   keyvalue_store.remembers h f (snd (fst (fold (visit P) vs ws)))"
proof (induction vs arbitrary: ws)
  case (Cons x vs)
  obtain mode kit evs where x: "x = (mode, kit, evs)" by (metis prod.exhaust)
  have "keyvalue_store.remembers h f (snd (fst (visit P x ws)))"
    using fold_keeps [of h f "(fst ws, new_form (snd ws))" P mode kit evs] Cons.prems
    by (simp add: visit_def x split_beta)
  from Cons.IH [OF this] show ?case by simp
qed simp


section \<open>The session and the kit\<close>

text \<open>The session store holds exactly the keys of this account.\<close>

definition session_keys :: "NopassStore \<Rightarrow> string \<Rightarrow> UnlockedAccount \<Rightarrow> bool" where
  "session_keys st email account \<longleftrightarrow>
     (case importAccountKeys account of
        Inl _ \<Rightarrow> False
      | Inr keys \<Rightarrow>
          st_email st = Some email \<and> st_vaultEncKey st = Some (dk_vaultEncKey keys) \<and>
          st_vaultMacKey st = Some (dk_vaultMacKey keys) \<and> st_stretchedMasterKey st = Some (dk_stretchedMasterKey keys))"

lemma performLogin_result:
  assumes "performLogin P api rnd email password (w, p) = (r, (w', p'))"
  shows "\<exists>st. p' = p\<lparr>sf_store := st\<rparr> \<and> (\<forall>account token. r = Inr (account, token) \<longrightarrow> session_keys st email account)"
proof -
  have same: "\<exists>st. q = q\<lparr>sf_store := st\<rparr>" for q :: SignInForm by (intro exI [of _ "sf_store q"]) simp
  note run = performLogin_def Let_def io_simps serve_def upd_def api_call_def
  obtain a w1 where a: "loginWithPassword (pl_crypto P) (pl_opaque P) (sir_login rnd) (sia_auth api)
      \<lparr>plo_email = email, plo_password = password, plo_accountState = browserAccountState, plo_deviceId = None\<rparr> w = (a, w1)"
    by (metis prod.exhaust)
  show ?thesis
  proof (cases a)
    case (Inr auth)
    obtain b w2 where b: "unlockAccount (pl_crypto P) (pl_opaque P) (sir_unlock rnd) (sia_account api) email password auth
        browserAccountState w1 = (b, w2)" by (metis prod.exhaust)
    show ?thesis
    proof (cases b)
      case (Inr account)
      obtain c w3 where c: "on_server (publishIdentity P api (sir_proof rnd) email password auth account
          (projr (importAccountKeys account))) w2 = (c, w3)" by (metis prod.exhaust)
      show ?thesis
      proof (cases "importAccountKeys account")
        case (Inr keys)
        have p': "p' = p\<lparr>sf_store := setSession (signed_in_as auth account) email keys (sf_store p)\<rparr>"
          using assms c by (cases c) (simp_all add: run a \<open>a = Inr auth\<close> b \<open>b = Inr account\<close> Inr)
        have "r = Inr (account', token) \<Longrightarrow> account' = account" for account' token
          using assms c by (cases c) (simp_all add: run a \<open>a = Inr auth\<close> b \<open>b = Inr account\<close> Inr)
        then show ?thesis using p' by (auto simp: session_keys_def setSession_def Inr)
      qed (use assms a Inr b \<open>a = Inr auth\<close> in \<open>auto simp: run intro: same\<close>)
    qed (use assms a Inr b in \<open>auto simp: run intro: same\<close>)
  qed (use assms a in \<open>auto simp: run intro: same\<close>)
qed

text \<open>The server accepted a kit of this account made with this code.\<close>

definition kit_request :: "RecoveryKeys \<Rightarrow> EncryptedBlob \<Rightarrow> SetRecoveryRequest" where
  "kit_request ks blob =
     \<lparr>srq_recoveryAuthKey = rk_authKeyB64 ks, srq_recoveryBlob = eb_blob blob, srq_recoveryBlobIv = eb_blobIv blob\<rparr>"

definition kit_uploaded :: "Platform \<Rightarrow> 'v SignInApi set \<Rightarrow> string \<Rightarrow> UnlockedAccount \<Rightarrow> string \<Rightarrow> bool" where
  "kit_uploaded P apis email account code' \<longleftrightarrow>
     (\<exists>codeBytes iv ks blob api token v v'. code' = generateRecoveryCode codeBytes \<and>
        deriveRecoveryKeys (pl_crypto P) code' email RECOVERY_KDF_PARAMS = Inr ks \<and>
        wrapVaultSubkeys (pl_crypto P) iv (account_raw account) (rk_wrapKey ks) = Inr blob \<and>
        api \<in> apis \<and> sia_recoverySet api (kit_request ks blob) token v = (Inr (), v'))"

lemma makeKit_uploads:
  assumes "makeKit P api codeBytes iv email account token v = (Inr c, v')" "api \<in> apis"
  shows "kit_uploaded P apis email account c"
  using assms by (auto simp: makeKit_def Let_def io_bind_Inr io_run kit_uploaded_def kit_request_def) blast

definition kit_state :: "Platform \<Rightarrow> 'v SignInApi set \<Rightarrow> SignInForm \<Rightarrow> bool" where
  "kit_state P apis p \<longleftrightarrow>
     (sf_phase p = PhaseForm \<longrightarrow> sf_kitCode p = None \<and> sf_pendingKit p = None \<and> \<not> sf_done p) \<and>
     (\<forall>account token. sf_pendingKit p = Some (account, token) \<longrightarrow> session_keys (sf_store p) (sf_email p) account) \<and>
     (\<forall>c. sf_kitCode p = Some c \<longrightarrow>
        (\<exists>account. session_keys (sf_store p) (sf_email p) account \<and> kit_uploaded P apis (sf_email p) account c)) \<and>
     (sf_done p \<longrightarrow> sf_kitCode p \<noteq> None)"

lemma createKit_state:
  assumes "kit_state P apis p" "sf_phase p = PhaseKit" "api \<in> apis"
  shows "kit_state P apis (snd (createKit P api codeBytes iv (w, p)))"
proof (cases "sf_pendingKit p")
  case (Some at)
  obtain account token where at: "at = (account, token)" by (cases at)
  have keys: "session_keys (sf_store p) (sf_email p) account" using assms(1) Some at by (auto simp: kit_state_def)
  obtain v s where w: "w = (v, s)" by (cases w)
  obtain r v' where m: "makeKit P api codeBytes iv (sf_email p) account token v = (r, v')" by (metis prod.exhaust)
  show ?thesis
  proof (cases r)
    case (Inr c)
    then show ?thesis
      using assms keys makeKit_uploads [OF m [unfolded Inr] assms(3)]
      by (auto simp: createKit_def Some at w caught_def io_simps api_call_def serve_def on_server_def upd_def m kit_state_def)
  qed (use assms keys in \<open>auto simp: createKit_def Some at w caught_def io_simps api_call_def serve_def on_server_def
        upd_def m kit_state_def\<close>)
qed (use assms in \<open>simp add: createKit_def\<close>)

lemma handleRegister_result:
  assumes "handleRegister P api rnd kit email password (w, p) = (r, (w', p'))"
  shows "\<exists>st pend. p' = p\<lparr>sf_store := st, sf_pendingKit := pend\<rparr> \<and>
    (if r = Inr () \<and> kit then \<exists>account token. pend = Some (account, token) \<and> session_keys st email account
     else pend = sf_pendingKit p)"
proof -
  obtain a w1 where a: "register P api rnd email password (fst w) = (a, w1)" by (metis prod.exhaust)
  have reg: "api_call (register P api rnd email password) (w, p) = (a, ((w1, snd w), p))"
    by (cases w) (use a in \<open>simp add: api_call_def serve_def on_server_def\<close>)
  show ?thesis
  proof (cases a)
    case (Inl e)
    then show ?thesis using assms
      by (intro exI [of _ "sf_store p"] exI [of _ "sf_pendingKit p"]) (auto simp: handleRegister_def io_simps reg)
  next
    case (Inr u)
    obtain b w2 p2 where b: "performLogin P api rnd email password ((w1, snd w), p) = (b, (w2, p2))" by (metis prod.exhaust)
    from performLogin_result [OF b] obtain st where st: "p2 = p\<lparr>sf_store := st\<rparr>"
      "\<And>account token. b = Inr (account, token) \<Longrightarrow> session_keys st email account" by blast
    show ?thesis
    proof (cases b)
      case (Inl e)
      then show ?thesis using assms st(1)
        by (intro exI [of _ st] exI [of _ "sf_pendingKit p"]) (auto simp: handleRegister_def io_simps reg b Inr)
    next
      case (Inr at)
      have run: "p' = (if kit then p2\<lparr>sf_pendingKit := Some at\<rparr> else p2)" "r = Inr ()"
        using assms \<open>a = Inr u\<close> by (cases kit; simp add: handleRegister_def io_simps reg b Inr upd_def)+
      show ?thesis using st(2) [of "fst at" "snd at"]
        by (intro exI [of _ st] exI [of _ "if kit then Some at else sf_pendingKit p2"])
          (cases at; simp add: run st(1) Inr)
    qed
  qed
qed

definition form_accepted :: "Platform \<Rightarrow> SignInForm \<Rightarrow> bool" where
  "form_accepted P p \<longleftrightarrow>
     sr_level (estimateStrength (pl_zxcvbn P) (sf_password p) [sf_email p]) \<ge> MASTER_PASSWORD_MIN_LEVEL \<and>
     sf_password p = sf_confirm p"

lemma handleSubmit_accepted:
  assumes "form_accepted P p"
  shows "handleSubmit P api rnd accepts RegisterMode kit (w, p) =
    (case handleRegister P api rnd kit (sf_email p) (sf_password p)
            (w, p\<lparr>sf_error := None, sf_passwordError := None, sf_confirmError := None, sf_loading := True\<rparr>) of
       (Inl e, (w1, p1)) \<Rightarrow> (w1, p1\<lparr>sf_error := Some (humanizeError (pl_text P) e), sf_loading := False\<rparr>)
     | (Inr _, ((v1, s1), p1)) \<Rightarrow>
         if kit then createKit P api (sir_code rnd) (sir_kitIv rnd)
           ((v1, the (writeLastEmail accepts (sf_email p) (Some s1))), p1\<lparr>sf_loading := False, sf_phase := PhaseKit\<rparr>)
         else ((v1, the (writeLastEmail accepts (sf_email p) (Some s1))), p1\<lparr>sf_loading := False, sf_done := True\<rparr>))"
proof -
  have eq: "sf_password p = sf_confirm p"
    and strong: "\<not> sr_level (estimateStrength (pl_zxcvbn P) (sf_confirm p) [sf_email p]) < MASTER_PASSWORD_MIN_LEVEL"
    using assms by (auto simp: form_accepted_def)
  show ?thesis by (simp add: handleSubmit_def Let_def eq strong split: sum.split prod.split)
qed

lemma handleSubmit_rejected:
  assumes "\<not> form_accepted P p"
  shows "\<exists>pe ce. handleSubmit P api rnd accepts RegisterMode kit (w, p) =
    (w, p\<lparr>sf_error := None, sf_passwordError := pe, sf_confirmError := ce\<rparr>)"
proof (cases "sr_level (estimateStrength (pl_zxcvbn P) (sf_password p) [sf_email p]) < MASTER_PASSWORD_MIN_LEVEL")
  case True
  then show ?thesis by (simp add: handleSubmit_def Let_def) (intro exI, rule SignInForm.equality; simp)
next
  case False
  then show ?thesis using assms
    by (simp add: form_accepted_def handleSubmit_def Let_def) (intro exI, rule SignInForm.equality; simp)
qed

fun event_api :: "'v FormEvent \<Rightarrow> 'v SignInApi option" where
  "event_api (Submit api _ _) = Some api"
| "event_api (RetryKit api _ _) = Some api"
| "event_api _ = None"

lemma form_step_kit:
  assumes "kit_state P apis (snd wp)" "event_api ev \<in> insert None (Some ` apis)"
  shows "kit_state P apis (snd (form_step P RegisterMode True ev wp))"
proof (cases ev)
  case (Submit api rnd accepts)
  obtain w p where wp: "wp = (w, p)" by (cases wp)
  show ?thesis
  proof (cases "sf_phase p")
    case PhaseForm
    let ?p = "p\<lparr>sf_error := None, sf_passwordError := None, sf_confirmError := None, sf_loading := True\<rparr>"
    obtain r v1 s1 p1 where m: "handleRegister P api rnd True (sf_email p) (sf_password p) (w, ?p) = (r, ((v1, s1), p1))"
      by (metis prod.exhaust)
    from handleRegister_result [OF m] obtain st pend where p1: "p1 = ?p\<lparr>sf_store := st, sf_pendingKit := pend\<rparr>"
      "if r = Inr () then \<exists>account token. pend = Some (account, token) \<and> session_keys st (sf_email p) account
       else pend = sf_pendingKit p" by (auto split: if_splits)
    have init: "sf_kitCode p = None" "sf_pendingKit p = None" "\<not> sf_done p"
      using assms(1) PhaseForm by (auto simp: kit_state_def wp)
    have checked: "kit_state P apis (snd (handleSubmit P api rnd accepts RegisterMode True (w, p)))"
      if "form_accepted P p"
    proof (cases r)
      case (Inl e)
      then show ?thesis using p1 init by (simp add: handleSubmit_accepted [OF that] m kit_state_def)
    next
      case (Inr u)
      let ?q = "p1\<lparr>sf_loading := False, sf_phase := PhaseKit\<rparr>"
      have "kit_state P apis ?q" using p1 init Inr by (auto simp: kit_state_def)
      from createKit_state [OF this, of api "sir_code rnd" "sir_kitIv rnd"] show ?thesis
        using assms(2) by (auto simp: Submit handleSubmit_accepted [OF that] m Inr)
    qed
    show ?thesis
    proof (cases "form_accepted P p")
      case False
      then obtain pe ce where "handleSubmit P api rnd accepts RegisterMode True (w, p) =
          (w, p\<lparr>sf_error := None, sf_passwordError := pe, sf_confirmError := ce\<rparr>)"
        using handleSubmit_rejected by blast
      then show ?thesis using init by (simp add: wp Submit PhaseForm kit_state_def)
    qed (use checked in \<open>simp add: wp Submit PhaseForm\<close>)
  qed (use assms Submit wp in simp)
next
  case (RetryKit api codeBytes iv)
  then show ?thesis using assms createKit_state [of P apis "snd wp" api codeBytes iv "fst wp"]
    by (cases wp) auto
qed (cases wp; cases "fst wp"; use assms in \<open>auto simp: kit_state_def\<close>)+


section \<open>Theorems\<close>

lemma performLogin_unlocks:
  assumes "performLogin P api rnd email password ((v, s), p) = (Inr (account, token), ((v', s'), p'))"
  shows "\<exists>auth v1 s1 v2. loginWithPassword (pl_crypto P) (pl_opaque P) (sir_login rnd) (sia_auth api)
      \<lparr>plo_email = email, plo_password = password, plo_accountState = browserAccountState, plo_deviceId = None\<rparr> (v, s) =
        (Inr auth, (v1, s1)) \<and>
    unlockAccount (pl_crypto P) (pl_opaque P) (sir_unlock rnd) (sia_account api) email password auth browserAccountState
      (v1, s1) = (Inr account, (v2, s'))"
  using assms
  by (auto simp: performLogin_def Let_def io_bind_Inr io_run serve_eq upd_eq api_call_def on_server_eq)

lemma performLogin_remembers:
  assumes "kv_wf s" "performLogin P api rnd email password ((v, s), p) = (Inr (account, token), ((v', s'), p'))"
  shows "keyvalue_store.remembers (computeEmailHash (pl_crypto P) email) FlagAccountKey s'"
proof -
  obtain auth v1 s1 v2 where
    l: "loginWithPassword (pl_crypto P) (pl_opaque P) (sir_login rnd) (sia_auth api)
      \<lparr>plo_email = email, plo_password = password, plo_accountState = keyValueAccountState, plo_deviceId = None\<rparr> (v, s) =
        (Inr auth, (v1, s1))"
    and u: "unlockAccount (pl_crypto P) (pl_opaque P) (sir_unlock rnd) (sia_account api) email password auth
      keyValueAccountState (v1, s1) = (Inr account, (v2, s'))"
    using performLogin_unlocks [OF assms(2)] unfolding browserAccountState_def by blast
  have "kv_wf s1"
    using staysD [OF keyvalue_store.login_stays [OF keyvalue_store.store_ok_kept] _ l] assms(1) by simp
  from keyvalue_store.unlock_remembers [OF this u] show ?thesis by (simp add: kv_remembers)
qed



section \<open>A sample account\<close>

text \<open>A server that accepts everything and knows the password \<open>pw\<close>, in two states: before and after the migration.\<close>

definition demo_platform :: Platform where
  "demo_platform = \<lparr>pl_crypto = demo_crypto, pl_opaque = demo_opaque,
     pl_zxcvbn = (\<lambda>_ _. \<lparr>zx_score = 4, zx_crackTime = '''', zx_warning = None, zx_suggestions = []\<rparr>), pl_text = (\<lambda>_. '''')\<rparr>"

definition demo_sign_in_api :: "LoginResponse \<Rightarrow> unit SignInApi" where
  "demo_sign_in_api response = \<lparr>
     sia_auth = demo_auth_api\<lparr>opaqueLoginFinish := (\<lambda>_. io_return response)\<rparr>, sia_account = demo_ak_api,
     sia_registerStart = (\<lambda>_. io_return ''r''), sia_registerFinish = (\<lambda>_. io_return ()),
     sia_identity = (\<lambda>_. \<lparr>keys_me = io_throw DOMException, keys_setIdentity = (\<lambda>_. io_throw DOMException)\<rparr>),
     sia_recoverySet = (\<lambda>_ _. io_return ())\<rparr>"

definition demo_sign_in_rnd :: SignInRandom where
  "demo_sign_in_rnd = \<lparr>sir_register = [1], sir_protectedIv = replicate 12 1, sir_spki = [1, 2], sir_pkcs8 = [1, 2],
     sir_keyPairIv = replicate 12 2, sir_login = demo_rnd, sir_unlock = demo_unlock_rnd, sir_proof = [3],
     sir_code = replicate 20 7, sir_kitIv = replicate 12 4\<rparr>"

definition wrapped_response :: "WrappedAccountKey \<Rightarrow> LoginResponse" where
  "wrapped_response w = demo_login_response
     \<lparr>lr_wrappedAccountKey := Some (wak_wrappedAccountKey w), lr_wrappedAccountKeyIv := Some (wak_wrappedAccountKeyIv w)\<rparr>"

lemma empty_storage_wf: "kv_wf Map.empty"
  by (simp add: kv_wf_def)

lemma nonempty_base64: "bs \<noteq> [] \<Longrightarrow> nonempty_opt (Some (toBase64 bs)) = Some (toBase64 bs)"
  by (cases "toBase64 bs") (auto simp: nonempty_opt_def dest: arg_cong [of _ _ fromBase64])

lemma demo_importAccountKeys:
  assumes "subkeys_ok (account_raw account)"
  shows "\<exists>keys. importAccountKeys account = Inr keys"
  using assms
  by (auto simp: importAccountKeys_def importAes_def subtle_importRawAes_def subtle_importRawHmac_def subkeys_ok_def account_raw_def)


text \<open>The sample server on any device whose account states keep their contract.\<close>

context account_state_store
begin

lemma demo_login_flags:
  assumes "store_ok s"
  shows "\<exists>s'. loginWithPassword demo_crypto demo_opaque rnd (demo_auth_api\<lparr>opaqueLoginFinish := (\<lambda>_. io_return response)\<rparr>)
      \<lparr>plo_email = email, plo_password = ''pw'', plo_accountState = store, plo_deviceId = d\<rparr> ((), s) =
     (Inr (with_method MethodOpaque response), ((), s')) \<and> store_ok s' \<and> (\<forall>h. flag s' h FlagAccountKey = flag s h FlagAccountKey)"
  using update_flags [OF assms, of "computeEmailHash demo_crypto email" "\<lparr>as_opaque = Some True, as_accountKey = None\<rparr>"]
  by (auto simp: loginWithPassword_def Let_def demo_opaque_def demo_auth_api_def io_simps assertKdfFloor_iff default_params_strong)

lemma demo_unlock_any:
  assumes "store_ok s" "\<not> flag s (computeEmailHash demo_crypto ''a@b'') FlagAccountKey"
  shows "\<exists>a s'. unlockAccount demo_crypto demo_opaque demo_unlock_rnd demo_ak_api ''a@b'' ''pw''
      (with_method MethodOpaque demo_login_response) store ((), s) = (Inr a, ((), s')) \<and>
    subkeys_ok (account_raw a) \<and> ua_protectedPrivateKey a = None"
proof -
  let ?C = demo_crypto
  obtain mk where mk: "deriveMasterKey ?C ''pw'' ''a@b'' DEFAULT_KDF_PARAMS = Inr mk" using demo_derive by blast
  let ?l = "stretchMasterKeyAllRaw ?C mk ''a@b''"
  let ?a = "\<lparr>ak_encKeyBytes = rs_encKeyBytes ?l, ak_macKeyBytes = rs_macKeyBytes ?l\<rparr>"
  have ok: "account_ok ?a" by (rule account_ok_legacy [OF demo_lengths(1)])
  obtain w where w: "wrapAccountKey ?C (ul_wrapIv demo_unlock_rnd) ?a mk ''a@b'' = Inr w"
    using wrapAccountKey_succeeds [OF demo_lengths(1) ok] by blast
  obtain smk where smk: "accountSmkBytes ?C ?a = Inr smk" by (simp add: accountSmkBytes_def account_bytes_eq [OF ok])
  obtain j where f: "store_get store (computeEmailHash ?C ''a@b'') s = (Inr j, s)" "read_flag j FlagAccountKey = Inr False"
    using get_reads [OF assms(1), of "computeEmailHash ?C ''a@b''" FlagAccountKey] assms(2) by auto
  have n: "nonempty_opt (lr_wrappedAccountKey demo_login_response) = None"
    "lr_protectedPrivateKey (with_method MethodOpaque demo_login_response) = None"
    by (simp_all add: nonempty_opt_def demo_login_response_def with_method_def LoginResponse.defs)
  have p: "provePassword ?C demo_opaque r (aka_proofStart demo_ak_api) e ''pw'' t PurposeAccountKey () =
      (Inr \<lparr>pp_proofId = ''p'', pp_finishLoginRequest = ''finish''\<rparr>, ())" for r e t
    by (simp add: provePassword_def demo_opaque_def demo_ak_api_def io_simps assertKdfFloor_iff default_params_strong)
  have sk: "aka_setAccountKey demo_ak_api = (\<lambda>_ _. io_return ())" by (simp add: demo_ak_api_def)
  have m: "\<exists>s'. migrateAccount ?C demo_opaque demo_unlock_rnd demo_ak_api ''a@b'' ''pw''
      (with_method MethodOpaque demo_login_response) store mk ((), s) =
      (Inr (unlocked ?a smk None None), ((), s'))"
    using update_flags [OF assms(1), of "computeEmailHash ?C ''a@b''" "\<lparr>as_opaque = None, as_accountKey = Some True\<rparr>"]
    by (auto simp: migrateAccount_def Let_def io_simps smk w p rewrapPrivateKey_def n nonempty_opt_def sk)
  have "subkeys_ok (account_raw (unlocked ?a smk None None))"
    using ok accountSmkBytes_length [OF demo_lengths(1) smk] by (simp add: subkeys_ok_def account_raw_def account_ok_def)
  with m show ?thesis
    by (auto simp: unlockAccount_def Let_def io_simps mk n(1) f)
qed

end

lemma demo_first_sign_in:
  "\<exists>account s'. performLogin demo_platform (demo_sign_in_api demo_login_response) demo_sign_in_rnd ''a@b'' ''pw''
      (((), Map.empty), p) = (Inr (account, ''t''), (((), s'), p\<lparr>sf_store := setSession
        (signed_in_as (with_method MethodOpaque demo_login_response) account) ''a@b''
        (projr (importAccountKeys account)) (sf_store p)\<rparr>)) \<and>
    subkeys_ok (account_raw account)"
proof -
  let ?h = "computeEmailHash demo_crypto ''a@b''"
  obtain s1 where l: "loginWithPassword demo_crypto demo_opaque demo_rnd
      (demo_auth_api\<lparr>opaqueLoginFinish := (\<lambda>_. io_return demo_login_response)\<rparr>)
      \<lparr>plo_email = ''a@b'', plo_password = ''pw'', plo_accountState = keyValueAccountState, plo_deviceId = None\<rparr>
      ((), Map.empty) = (Inr (with_method MethodOpaque demo_login_response), ((), s1))" "kv_wf s1"
    "\<not> flag_of (kv_read s1 ?h) FlagAccountKey"
    using keyvalue_store.demo_login_flags [OF empty_storage_wf, of demo_rnd demo_login_response "''a@b''" None]
    by (auto simp: kv_read_def kv_empty)
  from keyvalue_store.demo_unlock_any [OF l(2,3)] obtain a s2 where
    u: "unlockAccount demo_crypto demo_opaque demo_unlock_rnd demo_ak_api ''a@b'' ''pw''
      (with_method MethodOpaque demo_login_response) keyValueAccountState ((), s1) = (Inr a, ((), s2))"
    and a: "subkeys_ok (account_raw a)" "ua_protectedPrivateKey a = None" by blast
  obtain keys where keys: "importAccountKeys a = Inr keys" using demo_importAccountKeys [OF a(1)] by blast
  have t: "lr_sessionToken demo_login_response = ''t''" by (simp add: demo_login_response_def)
  show ?thesis
    using l(1) u a keys
    by (intro exI [of _ a] exI [of _ s2])
      (simp add: performLogin_def Let_def demo_platform_def demo_sign_in_api_def demo_sign_in_rnd_def io_simps serve_def upd_def
        api_call_def on_server_def publishIdentity_def nonempty_opt_def browserAccountState_def t)
qed


lemma demo_second_sign_in:
  assumes wf: "kv_wf s"
    and mk: "deriveMasterKey demo_crypto ''pw'' ''a@b'' DEFAULT_KDF_PARAMS = Inr mk"
    and w: "wrapAccountKey demo_crypto (replicate 12 9) demo_account mk ''a@b'' = Inr w"
  shows "\<exists>account w3 p3. performLogin demo_platform (demo_sign_in_api (wrapped_response w)) demo_sign_in_rnd ''a@b'' ''pw''
      (((), s), p) = (Inr (account, ''t''), (w3, p3))"
proof -
  have ok: "account_ok demo_account" by (simp add: account_ok_def demo_account_def)
  have u: "unwrapAccountKey demo_crypto w mk ''a@b'' = Inr demo_account"
    by (rule unwrap_wrapAccountKey [OF demo_aead_correct ok w])
  have n: "nonempty_opt (Some (wak_wrappedAccountKey w)) = Some (wak_wrappedAccountKey w)"
    "nonempty_opt (Some (wak_wrappedAccountKeyIv w)) = Some (wak_wrappedAccountKeyIv w)"
    using w by (auto simp: wrapAccountKey_def rbind_eq_Inr subtle_encrypt_def demo_crypto_def frame_def
        split: if_splits intro!: nonempty_base64)
  obtain s1 where l: "loginWithPassword demo_crypto demo_opaque demo_rnd
      (demo_auth_api\<lparr>opaqueLoginFinish := (\<lambda>_. io_return (wrapped_response w))\<rparr>)
      \<lparr>plo_email = ''a@b'', plo_password = ''pw'', plo_accountState = keyValueAccountState, plo_deviceId = None\<rparr>
      ((), s) = (Inr (with_method MethodOpaque (wrapped_response w)), ((), s1))"
    using keyvalue_store.demo_login_flags [OF wf] by blast
  obtain smk where smk: "accountSmkBytes demo_crypto demo_account = Inr smk"
    by (simp add: accountSmkBytes_def account_bytes_eq [OF ok])
  let ?r = "with_method MethodOpaque (wrapped_response w)"
  have f: "lr_wrappedAccountKey (wrapped_response w) = Some (wak_wrappedAccountKey w)" "lr_wrappedAccountKeyIv ?r = Some (wak_wrappedAccountKeyIv w)"
    "lr_protectedPrivateKey ?r = None" "lr_protectedPrivateKeyIv ?r = None" "lr_sessionToken (wrapped_response w) = ''t''"
    by (simp_all add: wrapped_response_def with_method_def demo_login_response_def LoginResponse.defs)
  let ?a = "unlocked demo_account smk None None"
  have a: "\<exists>s2. unlockAccount demo_crypto demo_opaque demo_unlock_rnd demo_ak_api ''a@b'' ''pw'' ?r keyValueAccountState ((), s1) =
      (Inr ?a, ((), s2))"
    by (simp add: unlockAccount_def Let_def io_simps mk f n u smk keyValueAccountState_def)
  have "subkeys_ok (account_raw ?a)"
    using ok accountSmkBytes_length [OF demo_lengths(1) smk] by (simp add: subkeys_ok_def account_raw_def account_ok_def)
  then obtain keys where keys: "importAccountKeys ?a = Inr keys" using demo_importAccountKeys by blast
  from a obtain s2 where a: "unlockAccount demo_crypto demo_opaque demo_unlock_rnd demo_ak_api ''a@b'' ''pw'' ?r
      keyValueAccountState ((), s1) = (Inr ?a, ((), s2))" by blast
  show ?thesis
    using l a keys
    by (simp add: performLogin_def Let_def demo_platform_def demo_sign_in_api_def demo_sign_in_rnd_def io_simps serve_def upd_def
        api_call_def on_server_def publishIdentity_def nonempty_opt_def browserAccountState_def f)
qed


end
