(* ===== verification/Recovery_Pages.thy ===== *)
theory Recovery_Pages
  imports Sign_In
begin

text \<open>
  The recovery page (apps/web/src/app/(auth)/recover/page.tsx), the page that makes or removes a kit
  (apps/web/src/app/(vault)/vault/recovery/page.tsx), the text of a kit (apps/web/src/lib/recovery-kit.ts) and
  the form that changes the master password (packages/ui/src/components/ChangePasswordForm.tsx).
\<close>

section \<open>The recovery page\<close>

record 'v RecoverApi =
  rva_init :: "RecoveryInitRequest \<Rightarrow> ('v, js_error, RecoveryInitResponse) io"
  rva_completion :: "'v RecoveryCompletionApi"

datatype RecoverStep = StepCode | StepNewPassword | StepDone

record RecoverPage =
  rp_step :: RecoverStep
  rp_email :: string
  rp_code :: string
  rp_newPassword :: string
  rp_newPassword2 :: string
  rp_error :: "string option"
  rp_loading :: bool
  rp_progress :: "string option"
  rp_newCode :: "string option"
  rp_savedConfirmed :: bool
  rp_init :: "RecoveryInitResponse option"
  rp_oldSubkeys :: "RawSubkeys option"

definition humanizeRecoverError :: "(js_error \<Rightarrow> string) \<Rightarrow> js_error \<Rightarrow> string" where
  "humanizeRecoverError pl err =
     (let msg = error_text pl err in
      if msg = ''Failed to fetch'' \<or> js_includes msg ''NetworkError'' then SERVER_UNREACHABLE
      else if js_includes (toLowerCase msg) ''invalid recovery'' \<or> js_includes (toLowerCase msg) ''unauthorized'' then
        ''That email and recovery code combination doesn't match.''
      else if js_includes (toLowerCase msg) ''operationerror'' \<or> js_includes (toLowerCase msg) ''decrypt'' then
        ''The recovery code didn't decrypt your vault keys. Double-check it character by character.''
      else if js_includes (toLowerCase msg) ''rate limit'' \<or> js_includes msg ''429'' then TOO_MANY
      else or_default msg)"

text \<open>\<open>setError(humanizeError(err))\<close>, and the \<open>finally\<close> of both handlers.\<close>

definition recover_failed :: "Platform \<Rightarrow> js_error \<Rightarrow> RecoverPage \<Rightarrow> RecoverPage" where
  "recover_failed P e p = p\<lparr>rp_error := Some (humanizeRecoverError (pl_text P) e)\<rparr>"

definition recover_idle :: "RecoverPage \<Rightarrow> RecoverPage" where
  "recover_idle p = p\<lparr>rp_loading := False, rp_progress := None\<rparr>"

definition handleVerifyCode ::
  "Platform \<Rightarrow> 'v RecoverApi \<Rightarrow> 'v \<times> RecoverPage \<Rightarrow> 'v \<times> RecoverPage" where
  "handleVerifyCode P api = (\<lambda>(v, p).
     let C = pl_crypto P; progress = (\<lambda>t. upd (\<lambda>q. q\<lparr>rp_progress := Some t\<rparr>)) in
     caught (recover_failed P)
       (io_bind (progress ''Deriving recovery key...'') (\<lambda>_.
        io_bind (io_lift (deriveRecoveryKeys C (rp_code p) (rp_email p) RECOVERY_KDF_PARAMS)) (\<lambda>ks.
        io_bind (progress ''Verifying with server...'') (\<lambda>_.
        io_bind (serve (rva_init api \<lparr>ri_emailHash = computeEmailHash C (rp_email p), ri_recoveryAuthKey = rk_authKeyB64 ks\<rparr>)) (\<lambda>resp.
        io_bind (progress ''Unlocking vault keys...'') (\<lambda>_.
        io_bind (io_lift (unwrapVaultSubkeys C
                   \<lparr>eb_blob = rr_recoveryBlob resp, eb_blobIv = rr_recoveryBlobIv resp, eb_blobMac = ''''\<rparr> (rk_wrapKey ks))) (\<lambda>subkeys.
        upd (\<lambda>q. q\<lparr>rp_init := Some resp, rp_oldSubkeys := Some subkeys, rp_step := StepNewPassword\<rparr>))))))))
       recover_idle
       (v, p\<lparr>rp_error := None, rp_loading := True\<rparr>))"

definition handleSetPassword ::
  "Platform \<Rightarrow> 'v RecoverApi \<Rightarrow> RecoveryRandom \<Rightarrow> 'v \<times> RecoverPage \<Rightarrow> 'v \<times> RecoverPage" where
  "handleSetPassword P api rnd = (\<lambda>(v, p).
     case (rp_init p, rp_oldSubkeys p) of
       (Some init, Some oldSubkeys) \<Rightarrow>
         if sr_level (estimateStrength (pl_zxcvbn P) (rp_newPassword p) (if rp_email p \<noteq> '''' then [rp_email p] else []))
            < MASTER_PASSWORD_MIN_LEVEL then
           (v, p\<lparr>rp_error := Some ''Choose a stronger master password. It has to reach Strong.''\<rparr>)
         else if rp_newPassword p \<noteq> rp_newPassword2 p then
           (v, p\<lparr>rp_error := Some ''The passwords don't match.''\<rparr>)
         else
           caught (recover_failed P)
             (io_bind (upd (\<lambda>q. q\<lparr>rp_progress := Some ''Deriving new keys (Argon2id)...''\<rparr>)) (\<lambda>_.
              io_bind (serve (completeAccountRecovery (pl_crypto P) (pl_opaque P) rnd (rva_completion api) (rp_email p)
                         (rp_newPassword p) init oldSubkeys)) (\<lambda>replacementCode.
              upd (\<lambda>q. q\<lparr>rp_init := None, rp_oldSubkeys := None, rp_newCode := Some replacementCode,
                         rp_step := StepDone\<rparr>))))
             recover_idle
             (v, p\<lparr>rp_error := None, rp_loading := True\<rparr>)
     | _ \<Rightarrow> (v, p))"

text \<open>The code of a kit opens, on this page, the very account the kit was made of.\<close>

lemma verify_opens_kit:
  assumes "aead_correct (pl_crypto P)" "subkeys_ok (account_raw account)"
    and "deriveRecoveryKeys (pl_crypto P) (rp_code q) (rp_email q) RECOVERY_KDF_PARAMS = Inr ks"
    and "wrapVaultSubkeys (pl_crypto P) iv (account_raw account) (rk_wrapKey ks) = Inr blob"
    and "rva_init api \<lparr>ri_emailHash = computeEmailHash (pl_crypto P) (rp_email q),
           ri_recoveryAuthKey = srq_recoveryAuthKey (kit_request ks blob)\<rparr> v = (Inr resp, v')"
    and "rr_recoveryBlob resp = srq_recoveryBlob (kit_request ks blob)"
      "rr_recoveryBlobIv resp = srq_recoveryBlobIv (kit_request ks blob)"
  shows "rp_oldSubkeys (snd (handleVerifyCode P api (v, q))) = Some (account_raw account) \<and>
    rp_step (snd (handleVerifyCode P api (v, q))) = StepNewPassword"
proof -
  have "ck_allows (rk_wrapKey ks) AesGcm UseDecrypt"
    using deriveRecoveryKeys_wrapKey [OF assms(3)] by (simp add: aes_key_ok_def)
  from unwrap_wrapVaultSubkeys [OF assms(1) this assms(2,4)] show ?thesis
    using assms(3,5-7)
    by (simp add: handleVerifyCode_def Let_def caught_def io_simps upd_def serve_def kit_request_def
        unwrapVaultSubkeys_blob recover_idle_def)
qed

text \<open>Nothing is sent with a new password that is not strong or was not typed twice.\<close>

lemma recovery_password_checked:
  assumes "fst (handleSetPassword P api rnd (v, p)) \<noteq> v"
  shows "sr_level (estimateStrength (pl_zxcvbn P) (rp_newPassword p) (if rp_email p \<noteq> '''' then [rp_email p] else []))
           \<ge> MASTER_PASSWORD_MIN_LEVEL \<and> rp_newPassword p = rp_newPassword2 p"
  using assms by (auto simp: handleSetPassword_def not_le split: option.splits if_splits)

section \<open>Making a new kit\<close>

record 'v KitApi =
  kia_sign_in :: "'v SignInApi"
  kia_status :: "string \<Rightarrow> ('v, js_error, bool \<times> string option) io"
  kia_disable :: "string \<Rightarrow> ('v, js_error, unit) io"
  kia_logout :: "string \<Rightarrow> ('v, js_error, unit) io"

datatype KitPhase = KitIdle | KitConfirm | KitWorking | KitShown

record KitPage =
  kg_session :: "string option"
  kg_email :: "string option"
  kg_enabled :: "bool option"
  kg_updatedAt :: "string option"
  kg_phase :: KitPhase
  kg_password :: string
  kg_code :: "string option"
  kg_saved :: bool
  kg_error :: "UiMessage option"
  kg_disabling :: bool
  kg_confirmDisable :: bool

definition loadKitStatus :: "'v KitApi \<Rightarrow> ('v browser, KitPage, unit) handler" where
  "loadKitStatus api = (\<lambda>(w, p).
     case nonempty_opt (kg_session p) of
       None \<Rightarrow> (Inr (), (w, p))
     | Some token \<Rightarrow>
         io_catch (io_bind (api_call (kia_status api token)) (\<lambda>(enabled, updatedAt).
                   upd (\<lambda>q. q\<lparr>kg_enabled := Some enabled, kg_updatedAt := updatedAt\<rparr>)))
           (\<lambda>e. upd (\<lambda>q. q\<lparr>kg_error := Some (MessageOf e)\<rparr>)) (w, p))"

definition kit_error :: "(js_error \<Rightarrow> string) \<Rightarrow> js_error \<Rightarrow> string" where
  "kit_error pl e =
     (let msg = error_text pl e in
      if js_includes (toLowerCase msg) ''unauthorized'' \<or> js_includes (toLowerCase msg) ''authentication''
      then ''Incorrect master password.'' else msg)"

text \<open>
  Proves the password with a login, opens the account key, closes the extra session and uploads the new kit.
\<close>

definition handleGenerate ::
  "Platform \<Rightarrow> 'v KitApi \<Rightarrow> SignInRandom \<Rightarrow> 'v browser \<times> KitPage \<Rightarrow> 'v browser \<times> KitPage" where
  "handleGenerate P api rnd = (\<lambda>(w, p).
     case (nonempty_opt (kg_session p), nonempty_opt (kg_email p)) of
       (Some sessionToken, Some email) \<Rightarrow>
         let C = pl_crypto P; oc = pl_opaque P; sa = kia_sign_in api in
         caught (\<lambda>e q. q\<lparr>kg_error := Some (Words (kit_error (pl_text P) e)), kg_phase := KitConfirm\<rparr>)
           (io_bind (serve (loginWithPassword C oc (sir_login rnd) (sia_auth sa)
                       \<lparr>plo_email = email, plo_password = kg_password p, plo_accountState = browserAccountState,
                        plo_deviceId = None\<rparr>)) (\<lambda>check.
            io_bind (serve (unlockAccount C oc (sir_unlock rnd) (sia_account sa) email (kg_password p) check
                       browserAccountState)) (\<lambda>subkeys.
            io_bind (api_call (ignoring (kia_logout api (lr_sessionToken check)))) (\<lambda>_.
            io_bind (api_call (makeKit P sa (sir_code rnd) (sir_kitIv rnd) email subkeys sessionToken)) (\<lambda>newCode.
            io_bind (upd (\<lambda>q. q\<lparr>kg_password := '''', kg_code := Some newCode, kg_saved := False, kg_phase := KitShown\<rparr>)) (\<lambda>_.
            loadKitStatus api))))))
           (\<lambda>q. q)
           (w, p\<lparr>kg_error := None, kg_phase := KitWorking\<rparr>)
     | _ \<Rightarrow> (w, p))"

definition handleDisable :: "'v KitApi \<Rightarrow> 'v browser \<times> KitPage \<Rightarrow> 'v browser \<times> KitPage" where
  "handleDisable api = (\<lambda>(w, p).
     case nonempty_opt (kg_session p) of
       None \<Rightarrow> (w, p)
     | Some sessionToken \<Rightarrow>
         caught (\<lambda>e q. q\<lparr>kg_error := Some (MessageOf e)\<rparr>)
           (io_bind (api_call (kia_disable api sessionToken)) (\<lambda>_. loadKitStatus api))
           (\<lambda>q. q\<lparr>kg_disabling := False, kg_confirmDisable := False\<rparr>)
           (w, p\<lparr>kg_disabling := True, kg_error := None\<rparr>))"


section \<open>The kit file\<close>

text \<open>The last argument is the time of \<open>new Date().toISOString()\<close>.\<close>

definition buildRecoveryKitText :: "string \<Rightarrow> string \<Rightarrow> string \<Rightarrow> string" where
  "buildRecoveryKitText email code' isoNow = js_join [chr 10]
     [''nopwd recovery kit'',
      ''=================='',
      '''',
      ''Account:        '' @ email,
      ''Recovery code:  '' @ code',
      '''',
      ''This code is the ONLY way back into your vault if you forget your'',
      ''master password. Anyone holding it (together with your email) can'',
      ''take over the account, so treat it like cash:'',
      '''',
      ''  - print it and keep it somewhere safe, or'',
      ''  - store it in a safe-deposit box or fireproof safe'',
      '''',
      ''Do NOT keep it on this computer or in your email.'',
      '''',
      ''To recover: https://nopwd.dev/recover'',
      ''Generated:   '' @ isoNow,
      '''']"

section \<open>Changing the master password\<close>

record ChangePasswordForm =
  cf_current :: string
  cf_next :: string
  cf_confirm :: string
  cf_progress :: "string option"
  cf_error :: "UiMessage option"
  cf_done :: bool

definition changeError :: "js_error \<Rightarrow> UiMessage" where
  "changeError err =
     (if err = IncorrectPasswordError \<or> error_status err = Some 401 then Words ''Your current master password is incorrect.''
      else if error_status err = Some 403 then
        Words ''For your safety, sign out and back in, then change your password within 15 minutes.''
      else if error_status err = Some 409 then
        Words ''Sign out and back in once so your account can be upgraded, then try again.''
      else if error_status err = Some 429 then Words TOO_MANY
      else MessageOf err)"

definition submitChange ::
  "Platform \<Rightarrow> 'v PasswordChangeApi \<Rightarrow> ChangeRandom \<Rightarrow> NopassStore \<Rightarrow> 'v \<times> ChangePasswordForm \<Rightarrow> 'v \<times> ChangePasswordForm" where
  "submitChange P api rnd store = (\<lambda>(v, p).
     case (nonempty_opt (st_email store), nonempty_opt (st_sessionToken store)) of
       (Some email, Some sessionToken) \<Rightarrow>
         if sr_level (estimateStrength (pl_zxcvbn P) (cf_next p) [email]) < MASTER_PASSWORD_MIN_LEVEL then
           (v, p\<lparr>cf_error := Some (Words ''Choose a stronger master password. It has to reach Strong.'')\<rparr>)
         else if cf_next p \<noteq> cf_confirm p then
           (v, p\<lparr>cf_error := Some (Words ''The new passwords don't match.'')\<rparr>)
         else
           caught (\<lambda>e q. q\<lparr>cf_error := Some (changeError e)\<rparr>)
             (io_bind (serve (changeMasterPassword (pl_crypto P) (pl_opaque P) rnd api
                        \<lparr>pco_email = email, pco_sessionToken = sessionToken, pco_currentPassword = cf_current p,
                         pco_newPassword = cf_next p\<rparr>)) (\<lambda>_.
              upd (\<lambda>q. q\<lparr>cf_next := '''', cf_confirm := '''', cf_done := True\<rparr>)))
             (\<lambda>q. q\<lparr>cf_progress := None, cf_current := ''''\<rparr>)
             (v, p\<lparr>cf_error := None, cf_progress := Some ''Changing password...''\<rparr>)
     | _ \<Rightarrow> (v, p))"

lemma change_password_checked:
  assumes "fst (submitChange P api rnd store (v, p)) \<noteq> v"
  shows "\<exists>email. st_email store = Some email \<and>
    sr_level (estimateStrength (pl_zxcvbn P) (cf_next p) [email]) \<ge> MASTER_PASSWORD_MIN_LEVEL \<and> cf_next p = cf_confirm p"
  using assms by (auto simp: submitChange_def not_le nonempty_opt_def split: option.splits if_splits)

text \<open>
  The form reports success only when the account key of the served wrap is now wrapped under the new
  password and the server took it; the typed current password is gone either way.
\<close>

lemma changed_when_done:
  assumes "submitChange P api rnd store (v, p) = (v', p')" "\<not> cf_done p" "cf_done p'"
  shows "\<exists>email sessionToken. changeMasterPassword (pl_crypto P) (pl_opaque P) rnd api
      \<lparr>pco_email = email, pco_sessionToken = sessionToken, pco_currentPassword = cf_current p,
       pco_newPassword = cf_next p\<rparr> v = (Inr (), v') \<and> cf_current p' = ''''"
  using assms
  by (auto simp: submitChange_def caught_def io_simps serve_def upd_def
      split: option.splits if_splits prod.splits sum.splits)


section \<open>Theorems\<close>


definition weak_platform :: Platform where
  "weak_platform = demo_platform
     \<lparr>pl_zxcvbn := (\<lambda>_ _. \<lparr>zx_score = 3, zx_crackTime = '''', zx_warning = None, zx_suggestions = []\<rparr>)\<rparr>"

text \<open>
  C9. A registration is not finished before the recovery kit works. When the screen lets the user on to
  the vault, it has shown a code, the server has taken the kit made with it, and whoever enters this code and
  the email on the recovery page, with the server returning that kit, holds exactly the three keys of the account
  whose keys the session uses.
\<close>

theorem registration_kit_recovers:
  assumes "aead_correct (pl_crypto P)"
    and "fold (form_step P RegisterMode True) evs (w, new_form store) = (w', p)" "sf_done p"
  shows "\<exists>c account req api token v v'. sf_kitCode p = Some c \<and> session_keys (sf_store p) (sf_email p) account \<and>
    Some api \<in> event_api ` set evs \<and> sia_recoverySet api req token v = (Inr (), v') \<and>
    (subkeys_ok (account_raw account) \<longrightarrow>
      (\<forall>rapi q u resp u'. rp_code q = c \<and> rp_email q = sf_email p \<and>
         rva_init rapi \<lparr>ri_emailHash = computeEmailHash (pl_crypto P) (sf_email p),
           ri_recoveryAuthKey = srq_recoveryAuthKey req\<rparr> u = (Inr resp, u') \<and>
         rr_recoveryBlob resp = srq_recoveryBlob req \<and> rr_recoveryBlobIv resp = srq_recoveryBlobIv req \<longrightarrow>
         rp_oldSubkeys (snd (handleVerifyCode P rapi (u, q))) = Some (account_raw account)))"
proof -
  let ?apis = "{api. Some api \<in> event_api ` set evs}"
  have known: "event_api e \<in> insert None (Some ` ?apis)" if "e \<in> set evs" for e
    using that by (cases "event_api e") (auto simp: image_iff intro: bexI [of _ e])
  have step: "kit_state P ?apis (snd (fold (form_step P RegisterMode True) es wp))"
    if "kit_state P ?apis (snd wp)" "set es \<subseteq> set evs" for es wp
    using that
  proof (induction es arbitrary: wp)
    case (Cons e es)
    then show ?case using form_step_kit [OF Cons.prems(1) known, of e] by simp
  qed simp
  have "kit_state P ?apis (new_form store)" by (simp add: kit_state_def new_form_def)
  with step [of "(w, new_form store)" evs] have "kit_state P ?apis p" using assms(2) by simp
  then obtain c account where c: "sf_kitCode p = Some c" "session_keys (sf_store p) (sf_email p) account"
    "kit_uploaded P ?apis (sf_email p) account c"
    using assms(3) by (auto simp: kit_state_def)
  from c(3) obtain iv ks blob api token v v' where
    ks: "deriveRecoveryKeys (pl_crypto P) c (sf_email p) RECOVERY_KDF_PARAMS = Inr ks"
    and blob: "wrapVaultSubkeys (pl_crypto P) iv (account_raw account) (rk_wrapKey ks) = Inr blob"
    and api: "Some api \<in> event_api ` set evs" "sia_recoverySet api (kit_request ks blob) token v = (Inr (), v')"
    unfolding kit_uploaded_def mem_Collect_eq by blast
  have opens: "rp_oldSubkeys (snd (handleVerifyCode P rapi (u, q))) = Some (account_raw account)"
    if "subkeys_ok (account_raw account)" "rp_code q = c" "rp_email q = sf_email p"
      "rva_init rapi \<lparr>ri_emailHash = computeEmailHash (pl_crypto P) (sf_email p),
         ri_recoveryAuthKey = srq_recoveryAuthKey (kit_request ks blob)\<rparr> u = (Inr resp, u')"
      "rr_recoveryBlob resp = srq_recoveryBlob (kit_request ks blob)"
      "rr_recoveryBlobIv resp = srq_recoveryBlobIv (kit_request ks blob)"
    for rapi q u resp u'
    using verify_opens_kit [OF assms(1) that(1) _ blob, of q rapi u resp u'] that ks by simp
  show ?thesis
    by (rule exI [of _ c], rule exI [of _ account], rule exI [of _ "kit_request ks blob"], rule exI [of _ api],
        rule exI [of _ token], rule exI [of _ v], rule exI [of _ v'])
      (intro conjI c(1,2) api impI allI opens; elim conjE; assumption)
qed



lemma demo_register:
  "register demo_platform (demo_sign_in_api response) demo_sign_in_rnd ''a@b'' ''pw'' () = (Inr (), ())"
proof -
  obtain mk where mk: "deriveMasterKey demo_crypto ''pw'' ''a@b'' DEFAULT_KDF_PARAMS = Inr mk" using demo_derive by blast
  obtain ks where ks: "stretchMasterKey demo_crypto mk ''a@b'' = Inr ks" "aes_key_ok (dk_stretchedMasterKey ks)"
    using stretchMasterKey_keys [OF demo_lengths(1)] by blast
  show ?thesis
    using ks(2)
    by (simp add: register_def Let_def demo_platform_def demo_sign_in_api_def demo_sign_in_rnd_def io_simps mk ks(1)
        createOpaqueRegistration_def demo_opaque_def assertKdfFloor_iff default_params_strong encryptBytes_def
        generateUserKeyPair_def subtle_encrypt_def aes_key_ok_def split_beta)
qed

lemma demo_makeKit:
  assumes "subkeys_ok (account_raw account)"
  shows "makeKit demo_platform (demo_sign_in_api response) codeBytes iv email account token () =
    (Inr (generateRecoveryCode codeBytes), ())"
proof -
  obtain ks where ks: "deriveRecoveryKeys demo_crypto (generateRecoveryCode codeBytes) email RECOVERY_KDF_PARAMS = Inr ks"
    using demo_deriveRecoveryKeys by blast
  have "aes_key_ok (rk_wrapKey ks)" by (rule deriveRecoveryKeys_wrapKey [OF ks])
  then obtain b where "wrapVaultSubkeys demo_crypto iv (account_raw account) (rk_wrapKey ks) = Inr b"
    using wrapVaultSubkeys_eq [OF assms] by (auto simp: encryptBytes_def subtle_encrypt_def aes_key_ok_def)
  then show ?thesis using ks by (simp add: makeKit_def Let_def demo_platform_def demo_sign_in_api_def io_simps)
qed

definition demo_registration :: "unit FormEvent list" where
  "demo_registration =
     [SetEmail ''a@b'', SetPassword ''pw'', SetConfirm ''pw'',
      Submit (demo_sign_in_api demo_login_response) demo_sign_in_rnd True, SetSaved True, ContinueToVault]"

lemma demo_registration_done:
  "\<exists>w' p. fold (form_step demo_platform RegisterMode True) demo_registration (((), Map.empty), new_form (new_store None)) =
     (w', p) \<and> sf_done p"
proof -
  let ?typed = "(new_form (new_store None))\<lparr>sf_email := ''a@b'', sf_password := ''pw'', sf_confirm := ''pw''\<rparr>"
  let ?started = "?typed\<lparr>sf_error := None, sf_passwordError := None, sf_confirmError := None, sf_loading := True\<rparr>"
  have ok: "form_accepted demo_platform ?typed"
    by (simp add: form_accepted_def demo_platform_def estimateStrength_def MASTER_PASSWORD_MIN_LEVEL_def)
  obtain account s' st where l: "performLogin demo_platform (demo_sign_in_api demo_login_response) demo_sign_in_rnd
      ''a@b'' ''pw'' (((), Map.empty), ?started) = (Inr (account, ''t''), (((), s'), ?started\<lparr>sf_store := st\<rparr>))"
    and a: "subkeys_ok (account_raw account)"
    using demo_first_sign_in [of ?started] by blast
  have r: "handleRegister demo_platform (demo_sign_in_api demo_login_response) demo_sign_in_rnd True ''a@b'' ''pw''
      (((), Map.empty), ?started) =
      (Inr (), (((), s'), ?started\<lparr>sf_store := st, sf_pendingKit := Some (account, ''t'')\<rparr>))"
    using l by (simp add: handleRegister_def io_simps api_call_def serve_def on_server_def upd_def demo_register)
  let ?s2 = "the (writeLastEmail True ''a@b'' (Some s'))"
  have submit: "\<exists>p. handleSubmit demo_platform (demo_sign_in_api demo_login_response) demo_sign_in_rnd True RegisterMode True
      (((), Map.empty), ?typed) = (((), ?s2), p) \<and> sf_phase p = PhaseKit \<and> sf_kitCode p \<noteq> None"
    by (subst handleSubmit_accepted [OF ok])
      (use r in \<open>simp add: createKit_def caught_def io_simps api_call_def serve_def on_server_def upd_def demo_makeKit [OF a]\<close>)
  have form: "sf_phase (new_form st0) = PhaseForm" for st0 by (simp add: new_form_def)
  show ?thesis using submit by (auto simp: demo_registration_def form)
qed

theorem registration_kit_recovers_witness:
  "\<exists>w' p c account. fold (form_step demo_platform RegisterMode True) demo_registration
      (((), Map.empty), new_form (new_store None)) = (w', p) \<and>
     sf_kitCode p = Some c \<and> session_keys (sf_store p) (sf_email p) account"
proof -
  obtain w' p where p: "fold (form_step demo_platform RegisterMode True) demo_registration
      (((), Map.empty), new_form (new_store None)) = (w', p)" "sf_done p"
    using demo_registration_done by blast
  have "aead_correct (pl_crypto demo_platform)" by (simp add: demo_platform_def demo_aead_correct)
  from registration_kit_recovers [OF this p] p(1) show ?thesis
    by (elim exE conjE) (intro exI conjI; assumption)
qed

end
