(* ===== verification/Cli_Prompt.thy ===== *)
theory Cli_Prompt
  imports Encoding
begin

text \<open>
  The prompts of the command line client, apps/cli/src/prompt.ts. Line prompts share one reader of standard
  input: lines that come early are kept, prompts that come early wait, and after the end of the input every
  prompt is answered with the empty text. A hidden prompt on a terminal reads the bytes of the keys in raw
  mode.
\<close>

section \<open>Line prompts\<close>

text \<open>
  \<open>pr_waiting\<close> holds the numbers of the prompts that wait, \<open>pr_answers\<close> what each prompt was answered with;
  \<open>pr_asked\<close> counts the prompts. \<open>PEnd\<close> is the \<open>close\<close> event of the reader, which \<open>closePrompt\<close> causes too.
\<close>

record Prompts =
  pr_lineQueue :: "string list"
  pr_waiting :: "nat list"
  pr_stdinEnded :: bool
  pr_asked :: nat
  pr_answers :: "(nat \<times> string) list"

datatype PromptEvent = PLine string | PEnd | PAsk

definition no_prompts :: Prompts where
  "no_prompts = \<lparr>pr_lineQueue = [], pr_waiting = [], pr_stdinEnded = False, pr_asked = 0, pr_answers = []\<rparr>"

definition answered :: "nat \<Rightarrow> string \<Rightarrow> Prompts \<Rightarrow> Prompts" where
  "answered i line p = p\<lparr>pr_answers := pr_answers p @ [(i, line)]\<rparr>"

definition onLine :: "string \<Rightarrow> Prompts \<Rightarrow> Prompts" where
  "onLine line p =
     (case pr_waiting p of
        [] \<Rightarrow> p\<lparr>pr_lineQueue := pr_lineQueue p @ [js_trim line]\<rparr>
      | i # rest \<Rightarrow> answered i (js_trim line) (p\<lparr>pr_waiting := rest\<rparr>))"

fun drain :: "nat list \<Rightarrow> Prompts \<Rightarrow> Prompts" where
  "drain [] p = p\<lparr>pr_waiting := []\<rparr>"
| "drain (i # rest) p = drain rest (answered i '''' p)"

definition onClose :: "Prompts \<Rightarrow> Prompts" where
  "onClose p = drain (pr_waiting p) (p\<lparr>pr_stdinEnded := True\<rparr>)"

definition nextLine :: "Prompts \<Rightarrow> Prompts" where
  "nextLine p =
     (let i = pr_asked p; q = p\<lparr>pr_asked := i + 1\<rparr> in
      case pr_lineQueue p of
        line # rest \<Rightarrow> answered i line (q\<lparr>pr_lineQueue := rest\<rparr>)
      | [] \<Rightarrow> if pr_stdinEnded p then answered i '''' q else q\<lparr>pr_waiting := pr_waiting q @ [i]\<rparr>)"

fun prompt_step :: "PromptEvent \<Rightarrow> Prompts \<Rightarrow> Prompts" where
  "prompt_step (PLine line) p = onLine line p"
| "prompt_step PEnd p = onClose p"
| "prompt_step PAsk p = nextLine p"

section \<open>Hidden prompts\<close>

datatype Hidden = Typing string | Entered string | Interrupted

text \<open>One chunk of bytes: enter, Ctrl-C, backspace, and everything else as one character for each byte.\<close>

fun hidden_chunk :: "string \<Rightarrow> bytes \<Rightarrow> Hidden" where
  "hidden_chunk inp [] = Typing inp"
| "hidden_chunk inp (b # bs) =
     (if b = 0x0d \<or> b = 0x0a then Entered inp
      else if b = 0x03 then Interrupted
      else if b = 0x7f \<or> b = 0x08 then hidden_chunk (butlast inp) bs
      else hidden_chunk (inp @ [char_of_byte b]) bs)"

fun hidden_prompt :: "string \<Rightarrow> bytes list \<Rightarrow> Hidden" where
  "hidden_prompt inp [] = Typing inp"
| "hidden_prompt inp (c # cs) = (case hidden_chunk inp c of Typing inp' \<Rightarrow> hidden_prompt inp' cs | r \<Rightarrow> r)"

section \<open>Every prompt is answered, in order\<close>

fun lines_of :: "PromptEvent list \<Rightarrow> string list" where
  "lines_of [] = []"
| "lines_of (PLine line # es) = js_trim line # lines_of es"
| "lines_of (_ # es) = lines_of es"

definition asks :: "PromptEvent list \<Rightarrow> nat" where
  "asks es = length (filter (\<lambda>e. e = PAsk) es)"

text \<open>The reader sends no line after it was closed.\<close>

fun reader_ok :: "bool \<Rightarrow> PromptEvent list \<Rightarrow> bool" where
  "reader_ok ended [] = True"
| "reader_ok ended (PLine _ # es) = (\<not> ended \<and> reader_ok ended es)"
| "reader_ok ended (PEnd # es) = reader_ok True es"
| "reader_ok ended (PAsk # es) = reader_ok ended es"

text \<open>The line the prompt \<open>i\<close> is answered with when these lines have been read.\<close>

definition line_for :: "string list \<Rightarrow> nat \<Rightarrow> string" where
  "line_for ls i = (if i < length ls then ls ! i else '''')"

definition answers_to :: "string list \<Rightarrow> nat \<Rightarrow> (nat \<times> string) list" where
  "answers_to ls n = map (\<lambda>i. (i, line_for ls i)) [0..<n]"

lemma answers_to_Suc: "answers_to ls (Suc n) = answers_to ls n @ [(n, line_for ls n)]"
  by (simp add: answers_to_def)

lemma answers_to_append: "n \<le> length ls \<Longrightarrow> answers_to (ls @ xs) n = answers_to ls n"
  by (simp add: answers_to_def line_for_def nth_append)

text \<open>
  \<open>ls\<close> are the lines read so far. The first \<open>n\<close> prompts are answered, in order; lines are kept only when no
  prompt waits, and after the end none waits.
\<close>

definition prompts_ok :: "string list \<Rightarrow> nat \<Rightarrow> Prompts \<Rightarrow> bool" where
  "prompts_ok ls n p \<longleftrightarrow>
     pr_answers p = answers_to ls n \<and> pr_waiting p = [n..<pr_asked p] \<and> n \<le> pr_asked p \<and>
     pr_lineQueue p = drop n ls \<and> (n < pr_asked p \<longrightarrow> length ls = n \<and> \<not> pr_stdinEnded p) \<and>
     (\<not> pr_stdinEnded p \<longrightarrow> n \<le> length ls)"

lemma onLine_ok:
  assumes "prompts_ok ls n p" "\<not> pr_stdinEnded p"
  shows "\<exists>m. prompts_ok (ls @ [js_trim line]) m (onLine line p)"
proof (cases "n < pr_asked p")
  case True
  then have "pr_waiting p = n # [Suc n..<pr_asked p]" using assms(1) by (simp add: prompts_ok_def upt_conv_Cons)
  then have o: "onLine line p = answered n (js_trim line) (p\<lparr>pr_waiting := [Suc n..<pr_asked p]\<rparr>)"
    by (simp add: onLine_def)
  have "length ls = n" using assms(1) True by (simp add: prompts_ok_def)
  then have "line_for (ls @ [js_trim line]) n = js_trim line" by (auto simp: line_for_def)
  then have "prompts_ok (ls @ [js_trim line]) (Suc n) (onLine line p)"
    using assms True \<open>length ls = n\<close> by (simp add: o prompts_ok_def answered_def answers_to_Suc answers_to_append)
  then show ?thesis ..
next
  case False
  then have "prompts_ok (ls @ [js_trim line]) n (onLine line p)"
    using assms by (simp add: prompts_ok_def onLine_def answers_to_append)
  then show ?thesis ..
qed

lemma drain_ok:
  assumes "length ls \<le> n"
  shows "drain [n..<k] p = p\<lparr>pr_waiting := [], pr_answers := pr_answers p @ map (\<lambda>i. (i, line_for ls i)) [n..<k]\<rparr>"
  using assms
proof (induction "k - n" arbitrary: n p)
  case (Suc d)
  then have "[n..<k] = n # [Suc n..<k]" by (simp add: upt_conv_Cons)
  then show ?case using Suc.hyps(1) [of "Suc n"] Suc.hyps(2) Suc.prems by (simp add: answered_def line_for_def)
qed simp

lemma onClose_ok:
  assumes "prompts_ok ls n p"
  shows "\<exists>m. prompts_ok ls m (onClose p)"
proof (cases "n < pr_asked p")
  case True
  then have "length ls \<le> n" using assms by (simp add: prompts_ok_def)
  have "[0..<pr_asked p] = [0..<n] @ [n..<pr_asked p]"
    using upt_add_eq_append [of 0 n "pr_asked p - n"] True by simp
  with drain_ok [OF \<open>length ls \<le> n\<close>, of "pr_asked p"] have "prompts_ok ls (pr_asked p) (onClose p)"
    using assms True by (simp add: prompts_ok_def onClose_def answers_to_def)
  then show ?thesis ..
next
  case False
  then have "prompts_ok ls n (onClose p)" using assms by (simp add: prompts_ok_def onClose_def)
  then show ?thesis ..
qed

lemma nextLine_ok:
  assumes "prompts_ok ls n p"
  shows "\<exists>m. prompts_ok ls m (nextLine p)"
proof (cases "pr_lineQueue p")
  case Nil
  show ?thesis
  proof (cases "pr_stdinEnded p")
    case True
    then have "prompts_ok ls (Suc n) (nextLine p)"
      using assms Nil by (simp add: prompts_ok_def nextLine_def answered_def answers_to_Suc line_for_def Let_def)
    then show ?thesis ..
  next
    case False
    then have "prompts_ok ls n (nextLine p)"
      using assms Nil by (simp add: prompts_ok_def nextLine_def Let_def)
    then show ?thesis ..
  qed
next
  case (Cons line rest)
  then have d: "drop n ls = line # rest" using assms by (simp add: prompts_ok_def)
  then have n: "n < length ls" by (metis drop_all linorder_not_le list.distinct(1))
  then have "line = ls ! n" "rest = drop (Suc n) ls" using d Cons_nth_drop_Suc [OF n] by auto
  moreover have "nextLine p = answered (pr_asked p) line (p\<lparr>pr_asked := pr_asked p + 1, pr_lineQueue := rest\<rparr>)"
    by (simp add: nextLine_def Cons Let_def)
  moreover have "pr_asked p = n" using assms n by (auto simp: prompts_ok_def)
  ultimately have "prompts_ok ls (Suc n) (nextLine p)"
    using assms n by (simp add: prompts_ok_def answered_def answers_to_Suc line_for_def)
  then show ?thesis ..
qed


lemma prompt_run_ok:
  assumes "prompts_ok ls n p" "reader_ok (pr_stdinEnded p) es"
  shows "\<exists>m. prompts_ok (ls @ lines_of es) m (fold prompt_step es p) \<and>
    pr_asked (fold prompt_step es p) = pr_asked p + asks es \<and>
    pr_stdinEnded (fold prompt_step es p) = (pr_stdinEnded p \<or> PEnd \<in> set es)"
  using assms
proof (induction es arbitrary: ls n p)
  case Nil
  then show ?case by (auto simp: asks_def)
next
  case (Cons e es)
  have d: "pr_asked (drain ws q) = pr_asked q" "pr_stdinEnded (drain ws q) = pr_stdinEnded q" for ws q
    by (induction ws arbitrary: q) (simp_all add: answered_def)
  have kept: "pr_asked (onLine line p) = pr_asked p" "pr_stdinEnded (onLine line p) = pr_stdinEnded p"
    "pr_asked (onClose p) = pr_asked p" "pr_stdinEnded (onClose p)"
    "pr_asked (nextLine p) = pr_asked p + 1" "pr_stdinEnded (nextLine p) = pr_stdinEnded p" for line
    by (simp_all add: onLine_def onClose_def nextLine_def answered_def d Let_def split: list.split)
  show ?case
  proof (cases e)
    case (PLine line)
    then obtain m where "prompts_ok (ls @ [js_trim line]) m (onLine line p)"
      using onLine_ok [OF Cons.prems(1)] Cons.prems(2) by auto
    from Cons.IH [OF this] show ?thesis using Cons.prems(2) by (auto simp: PLine kept asks_def)
  next
    case PEnd
    obtain m where "prompts_ok ls m (onClose p)" using onClose_ok [OF Cons.prems(1)] by blast
    from Cons.IH [OF this] show ?thesis using Cons.prems(2) by (simp add: PEnd kept asks_def)
  next
    case PAsk
    obtain m where "prompts_ok ls m (nextLine p)" using nextLine_ok [OF Cons.prems(1)] by blast
    from Cons.IH [OF this] show ?thesis using Cons.prems(2) by (simp add: PAsk kept asks_def)
  qed
qed

text \<open>
  Line prompts lose nothing and never hang. However lines and prompts interleave, the answers given so far are
  to the first prompts, in order, and the prompt \<open>i\<close> got the line \<open>i\<close>; a prompt is left waiting only while
  no unread line is there and the input has not ended, and after the end every prompt has its answer, the empty
  text when the lines ran out.
\<close>

theorem every_prompt_answered:
  assumes "reader_ok False es" "fold prompt_step es no_prompts = p"
  shows "\<exists>n \<le> asks es. pr_answers p = map (\<lambda>i. (i, line_for (lines_of es) i)) [0..<n] \<and>
    (n < asks es \<longrightarrow> n = length (lines_of es) \<and> PEnd \<notin> set es)"
proof -
  have "prompts_ok [] 0 no_prompts" by (simp add: prompts_ok_def no_prompts_def answers_to_def)
  from prompt_run_ok [OF this, of es] assms obtain m where
    "prompts_ok (lines_of es) m p" "pr_asked p = asks es" "pr_stdinEnded p = (PEnd \<in> set es)"
    by (auto simp: no_prompts_def)
  then show ?thesis by (auto simp: prompts_ok_def answers_to_def)
qed

definition demo_prompts :: "PromptEvent list" where
  "demo_prompts = [PLine '' a@b '', PAsk, PAsk, PLine ''code'', PAsk, PEnd]"

theorem every_prompt_answered_witness:
  "pr_answers (fold prompt_step demo_prompts no_prompts) = [(0, ''a@b''), (1, ''code''), (2, [])]"
proof -
  have lines: "lines_of demo_prompts = [''a@b'', ''code'']" by code_simp
  have n: "asks demo_prompts = 3" "PEnd \<in> set demo_prompts" by (simp_all add: demo_prompts_def asks_def)
  have "reader_ok False demo_prompts" by (simp add: demo_prompts_def)
  from every_prompt_answered [OF this refl]
  have "pr_answers (fold prompt_step demo_prompts no_prompts) = map (\<lambda>i. (i, line_for [''a@b'', ''code''] i)) [0..<3]"
    unfolding n(1) lines using n(2) by (auto simp: le_less)
  then show ?thesis by (simp add: line_for_def upt_rec)
qed

section \<open>A hidden prompt reads bytes, not characters\<close>

text \<open>A text without control characters, as it is typed.\<close>

definition key_text :: "string \<Rightarrow> bool" where
  "key_text s \<longleftrightarrow> (\<forall>c \<in> set s. 32 \<le> code c \<and> code c \<noteq> 127)"

definition plain_byte :: "byte \<Rightarrow> bool" where
  "plain_byte b \<longleftrightarrow> b \<noteq> 0x0d \<and> b \<noteq> 0x0a \<and> b \<noteq> 0x03 \<and> b \<noteq> 0x7f \<and> b \<noteq> 0x08"

lemma plain_byteI: "32 \<le> unat b \<Longrightarrow> unat b \<noteq> 127 \<Longrightarrow> plain_byte b"
  by (auto simp: plain_byte_def)

lemma utf8_key_text:
  assumes "key_text s"
  shows "list_all plain_byte (utf8_encode s)"
  using assms
proof (induction s)
  case (Cons c s)
  have c: "32 \<le> code c" "code c \<noteq> 127" using Cons.prems by (auto simp: key_text_def)
  have lt: "code c < 256" by (rule code_less)
  have "list_all plain_byte (utf8_char c)"
  proof (cases "code c < 128")
    case True
    then show ?thesis using c by (auto simp: utf8_char_def Let_def unat_of_nat take_bit_nat_def intro!: plain_byteI)
  next
    case False
    have d: "code c div 64 = 2 \<or> code c div 64 = 3" using False lt by linarith
    have "unat (of_nat (192 + code c div 64) :: byte) = 192 + code c div 64"
      "unat (of_nat (128 + code c mod 64) :: byte) = 128 + code c mod 64"
      unfolding unat_of_nat_byte using d by auto
    then show ?thesis using False
      by (auto simp: utf8_char_def Let_def simp del: of_nat_add intro!: plain_byteI)
  qed
  then show ?case using Cons by (simp add: utf8_encode_simps key_text_def)
qed (simp add: utf8_encode_simps)

lemma hidden_chunk_plain:
  "list_all plain_byte bs \<Longrightarrow> hidden_chunk inp (bs @ cs) = hidden_chunk (inp @ map char_of_byte bs) cs"
  by (induction bs arbitrary: inp) (auto simp: plain_byte_def)


lemma hidden_chunk_append:
  "hidden_chunk inp (a @ b) = (case hidden_chunk inp a of Typing inp' \<Rightarrow> hidden_chunk inp' b | r \<Rightarrow> r)"
  by (induction a arbitrary: inp) simp_all

lemma hidden_prompt_concat: "hidden_prompt inp chunks = hidden_chunk inp (concat chunks)"
  by (induction chunks arbitrary: inp) (simp_all add: hidden_chunk_append split: Hidden.split)

lemma utf8_ascii: "\<forall>c \<in> set s. code c < 128 \<Longrightarrow> map char_of_byte (utf8_encode s) = s"
proof (induction s)
  case (Cons c s)
  then have "utf8_char c = [of_nat (code c)]" by (simp add: utf8_char_def Let_def)
  then show ?case using Cons by (simp add: utf8_encode_simps char_of_byte_def unat_of_nat take_bit_nat_def)
qed (simp add: utf8_encode_simps)

lemma utf8_length: "length (utf8_encode s) = length s + length (filter (\<lambda>c. \<not> code c < 128) s)"
  by (induction s) (simp_all add: utf8_encode_simps utf8_char_def Let_def)

text \<open>
  C40. However the terminal cuts the input into chunks, a hidden prompt for a typed text without control
  characters gives one character for each byte of its UTF-8 form. That is the text itself exactly when the text is
  ASCII; a password with any other character, which the other clients take as typed, never matches here.
\<close>

theorem hidden_prompt_reads_bytes:
  assumes "key_text pw" "concat chunks = utf8_encode pw @ [0x0d]"
  shows "hidden_prompt '''' chunks = Entered (map char_of_byte (utf8_encode pw)) \<and>
    (map char_of_byte (utf8_encode pw) = pw \<longleftrightarrow> (\<forall>c \<in> set pw. code c < 128))"
proof
  show "hidden_prompt '''' chunks = Entered (map char_of_byte (utf8_encode pw))"
    unfolding hidden_prompt_concat assms(2) by (simp add: hidden_chunk_plain [OF utf8_key_text [OF assms(1)]])
  show "map char_of_byte (utf8_encode pw) = pw \<longleftrightarrow> (\<forall>c \<in> set pw. code c < 128)"
  proof
    assume "map char_of_byte (utf8_encode pw) = pw"
    then have "length (utf8_encode pw) = length pw" by (metis length_map)
    then show "\<forall>c \<in> set pw. code c < 128" using utf8_length [of pw] by (simp add: filter_empty_conv)
  qed (rule utf8_ascii)
qed

text \<open>A u-umlaut, in two chunks cut inside the character.\<close>

theorem hidden_prompt_reads_bytes_witness:
  "hidden_prompt '''' [[0x70, 0xc3], [0xbc, 0x0d]] = Entered [CHR ''p'', CHR 0xc3, CHR 0xbc] \<and>
   [CHR ''p'', CHR 0xc3, CHR 0xbc] \<noteq> [CHR ''p'', CHR 0xfc]"
proof -
  have k: "key_text [CHR ''p'', CHR 0xfc]" by (simp add: key_text_def)
  have u: "utf8_encode [CHR ''p'', CHR 0xfc] = [0x70, 0xc3, 0xbc]" by code_simp
  have m: "map char_of_byte [0x70, 0xc3, 0xbc] = [CHR ''p'', CHR 0xc3, CHR 0xbc]" by code_simp
  show ?thesis
    using hidden_prompt_reads_bytes [OF k, of "[[0x70, 0xc3], [0xbc, 0x0d]]"] unfolding u m by simp
qed

end
