(* ===== verification/Cli_Account.thy ===== *)
theory Cli_Account
  imports Cli_Session Sign_In
begin

text \<open>
  Accounts on the command line (apps/cli/src): signing in and the keys of a session (\<open>auth.ts\<close>), and the
  commands \<open>login\<close>, \<open>lock\<close>, \<open>passwd\<close> and \<open>recover\<close>. The files in \<open>~/.nopwd\<close> and the server are the state; what
  the prompts returned, the environment and what the machine is called are arguments, and a command gives what it
  wrote and its exit code.
\<close>

section \<open>Signing in\<close>

record RegisterDeviceRequest =
  rd_deviceName :: string
  rd_deviceType :: string
  rd_devicePublicKey :: string

record 'v CliApi =
  cla_auth :: "'v PasswordAuthApi"
  cla_account :: "'v AccountKeyApi"
  cla_register :: "RegisterDeviceRequest \<Rightarrow> string \<Rightarrow> ('v, js_error, string) io"
  cla_logout :: "string \<Rightarrow> ('v, js_error, unit) io"
  cla_change :: "'v PasswordChangeApi"
  cla_recoveryInit :: "RecoveryInitRequest \<Rightarrow> ('v, js_error, RecoveryInitResponse) io"
  cla_recovery :: "'v RecoveryCompletionApi"

text \<open>The machine: where the home directory is, its name, \<open>platform()\<close> and a fresh X25519 public key (SPKI).\<close>

record Machine =
  mc_home :: path
  mc_hostname :: string
  mc_platform :: string
  mc_deviceKey :: bytes

definition deviceType :: "string \<Rightarrow> string" where
  "deviceType platform =
     (if platform = ''darwin'' then ''desktop_mac''
      else if platform = ''win32'' then ''desktop_windows''
      else ''desktop_linux'')"

definition devicePublicKeyB64 :: "Machine \<Rightarrow> string" where
  "devicePublicKeyB64 m = toBase64 (mc_deviceKey m)"

definition read_files :: "(cli_files \<Rightarrow> 'a) \<Rightarrow> ('v \<times> cli_files, js_error, 'a) io" where
  "read_files f = (\<lambda>(v, files). (Inr (f files), (v, files)))"

definition change_files :: "(cli_files \<Rightarrow> cli_files) \<Rightarrow> ('v \<times> cli_files, js_error, unit) io" where
  "change_files f = (\<lambda>(v, files). (Inr (), (v, f files)))"

text \<open>Registers this machine on the first login; a failure is not fatal.\<close>

definition registerDevice ::
  "Machine \<Rightarrow> 'v CliApi \<Rightarrow> string \<Rightarrow> ('v \<times> cli_files, js_error, string option) io" where
  "registerDevice m api sessionToken =
     io_catch
       (io_bind (on_server (cla_register api
          \<lparr>rd_deviceName = mc_hostname m @ '' (CLI)'', rd_deviceType = deviceType (mc_platform m),
           rd_devicePublicKey = devicePublicKeyB64 m\<rparr> sessionToken)) (\<lambda>newId.
        io_bind (change_files (saveDeviceId (mc_home m) newId)) (\<lambda>_.
        io_return (Some newId))))
       (\<lambda>_. io_return None)"

definition loginWithCredentials ::
  "Platform \<Rightarrow> Machine \<Rightarrow> 'v CliApi \<Rightarrow> LoginRandom \<Rightarrow> UnlockRandom \<Rightarrow> string \<Rightarrow> string \<Rightarrow> string \<Rightarrow>
   ('v \<times> cli_files, js_error, unit) io" where
  "loginWithCredentials P m api lrnd urnd email password apiUrl =
     (let C = pl_crypto P; oc = pl_opaque P; home = mc_home m; accountState = fileAccountState home in
      io_bind (read_files (loadDeviceId home)) (\<lambda>existingDeviceId.
      io_bind (loginWithPassword C oc lrnd (cla_auth api)
                 \<lparr>plo_email = email, plo_password = password, plo_accountState = accountState,
                  plo_deviceId = existingDeviceId\<rparr>) (\<lambda>auth.
      io_bind (unlockAccount C oc urnd (cla_account api) email password auth accountState) (\<lambda>account.
      io_bind (case existingDeviceId of
                 Some d \<Rightarrow> io_return (Some d)
               | None \<Rightarrow> registerDevice m api (lr_sessionToken auth)) (\<lambda>deviceId.
      change_files (saveSession home
        \<lparr>ss_sessionToken = lr_sessionToken auth, ss_email = email, ss_userId = Some (lr_userId auth),
         ss_vaultEncKeyB64 = toBase64 (ak_encKeyBytes account), ss_vaultMacKeyB64 = toBase64 (ak_macKeyBytes account),
         ss_defaultVaultId = lr_defaultVaultId auth, ss_apiUrl = apiUrl, ss_deviceId = nonempty_opt deviceId\<rparr>))))))"

text \<open>
  \<open>Buffer.from(s, "base64")\<close>: the URL alphabet is accepted too, other characters are skipped, and reading stops
  at the padding.
\<close>

definition buffer_char :: "char \<Rightarrow> nat option" where
  "buffer_char c = (if c = CHR ''-'' then Some 62 else if c = CHR ''_'' then Some 63 else b64_val c)"

definition bufferFromBase64 :: "string \<Rightarrow> bytes" where
  "bufferFromBase64 s =
     map of_nat (b64_octets (List.map_filter buffer_char (takeWhile (\<lambda>c. c \<noteq> CHR ''='') s)))"

definition importKeys :: "Session \<Rightarrow> bool \<Rightarrow> (CryptoKey \<times> CryptoKey) js" where
  "importKeys session write =
     rbind (subtle_importRawAes (bufferFromBase64 (ss_vaultEncKeyB64 session)) False
              (if write then [UseEncrypt, UseDecrypt] else [UseDecrypt])) (\<lambda>vaultEncKey.
     rbind (subtle_importRawHmac ''SHA-256'' (bufferFromBase64 (ss_vaultMacKeyB64 session)) [UseSign, UseVerify]) (\<lambda>vaultMacKey.
     Inr (vaultEncKey, vaultMacKey)))"

section \<open>Commands\<close>

datatype Written = Stdout string | Stderr string

definition nl :: string where "nl = [chr 10]"

definition exited :: "('v \<times> cli_files, js_error, unit) io \<Rightarrow> Written list \<Rightarrow> Written list \<Rightarrow> (js_error \<Rightarrow> string) \<Rightarrow>
   'v \<times> cli_files \<Rightarrow> (Written list \<times> nat) \<times> ('v \<times> cli_files)" where
  "exited body before after message w =
     (case body w of
        (Inr _, w') \<Rightarrow> ((before @ after, 0), w')
      | (Inl e, w') \<Rightarrow> ((before @ [Stderr (message e @ nl)], 1), w'))"

definition loginCommand ::
  "Platform \<Rightarrow> Machine \<Rightarrow> 'v CliApi \<Rightarrow> LoginRandom \<Rightarrow> UnlockRandom \<Rightarrow> string \<Rightarrow> string \<Rightarrow> string \<Rightarrow>
   'v \<times> cli_files \<Rightarrow> (Written list \<times> nat) \<times> ('v \<times> cli_files)" where
  "loginCommand P m api lrnd urnd email password apiUrl =
     exited (loginWithCredentials P m api lrnd urnd email password apiUrl)
       [Stderr (''Deriving key with Argon2id...'' @ nl)] [Stdout (''Logged in as '' @ email @ nl)]
       (\<lambda>e. case e of ApiError msg _ \<Rightarrow> ''Login failed: '' @ msg | _ \<Rightarrow> ''Error: '' @ error_text (pl_text P) e)"

text \<open>Clears the local session whatever the server answers.\<close>

definition lockCommand ::
  "Machine \<Rightarrow> (string \<Rightarrow> 'v CliApi) \<Rightarrow> 'v \<times> cli_files \<Rightarrow> (Written list \<times> nat) \<times> ('v \<times> cli_files)" where
  "lockCommand m createApiClient = (\<lambda>(v, files).
     let v' = (case loadSession (mc_home m) files of
                 None \<Rightarrow> v
               | Some s \<Rightarrow> snd (cla_logout (createApiClient (ss_apiUrl s)) (ss_sessionToken s) v)) in
     (([Stdout (''Vault locked - session revoked.'' @ nl)], 0), (v', clearSession (mc_home m) files)))"

text \<open>What was typed twice and is long enough; \<open>None\<close> when the command goes on.\<close>

definition new_password_problem :: "string \<Rightarrow> string \<Rightarrow> string option" where
  "new_password_problem newPassword confirm =
     (if newPassword \<noteq> confirm then Some ''Passwords don't match.''
      else if length newPassword < 8 then Some ''Use at least 8 characters.''
      else None)"

definition passwdCommand ::
  "Platform \<Rightarrow> Machine \<Rightarrow> (string \<Rightarrow> 'v CliApi) \<Rightarrow> ChangeRandom \<Rightarrow> string \<Rightarrow> string \<Rightarrow> string \<Rightarrow>
   'v \<times> cli_files \<Rightarrow> (Written list \<times> nat) \<times> ('v \<times> cli_files)" where
  "passwdCommand P m createApiClient rnd currentPassword newPassword confirm = (\<lambda>(v, files).
     case loadSession (mc_home m) files of
       None \<Rightarrow> (([Stderr (''Log in first (`nopwd login`), then run this again.'' @ nl)], 1), (v, files))
     | Some session \<Rightarrow>
         (case new_password_problem newPassword confirm of
            Some problem \<Rightarrow> (([Stderr (problem @ nl)], 1), (v, files))
          | None \<Rightarrow>
              exited
                (on_server (changeMasterPassword (pl_crypto P) (pl_opaque P) rnd (cla_change (createApiClient (ss_apiUrl session)))
                   \<lparr>pco_email = ss_email session, pco_sessionToken = ss_sessionToken session,
                    pco_currentPassword = currentPassword, pco_newPassword = newPassword\<rparr>))
                [Stderr (''Deriving keys (Argon2id)...'' @ nl)]
                [Stdout (''Master password changed. Your other devices are signed out; your recovery kit still works.'' @ nl)]
                (\<lambda>e. case e of
                       IncorrectPasswordError \<Rightarrow> ''Current master password is incorrect.''
                     | ApiError msg status \<Rightarrow>
                         if status = 401 then ''Current master password is incorrect.''
                         else if status = 403 then
                           ''Your session is too old to change the password. Run `nopwd login`, then retry within 15 minutes.''
                         else if status = 409 then ''Log in again first so your account can be upgraded, then retry.''
                         else ''Error: '' @ msg
                     | _ \<Rightarrow> ''Error: '' @ error_text (pl_text P) e)
                (v, files)))"

definition recover_message :: "(js_error \<Rightarrow> string) \<Rightarrow> js_error \<Rightarrow> string" where
  "recover_message pl e =
     (let msg = error_text pl e in
      if js_includes (toLowerCase msg) ''invalid recovery'' \<or> js_includes (toLowerCase msg) ''unauthorized'' then
        ''That email and recovery code combination doesn't match.''
      else if js_includes (toLowerCase msg) ''operation'' then
        ''The recovery code didn't decrypt your vault keys - check it character by character.''
      else ''Recovery failed: '' @ msg)"

text \<open>Opening the kit, before the new password is asked for; and what follows.\<close>

definition openKit ::
  "Platform \<Rightarrow> 'v CliApi \<Rightarrow> string \<Rightarrow> string \<Rightarrow> ('v \<times> cli_files, js_error, RecoveryInitResponse \<times> RawSubkeys) io" where
  "openKit P api email codeText =
     (let C = pl_crypto P in
      io_bind (io_lift (deriveRecoveryKeys C codeText email RECOVERY_KDF_PARAMS)) (\<lambda>ks.
      io_bind (on_server (cla_recoveryInit api
                 \<lparr>ri_emailHash = computeEmailHash C email, ri_recoveryAuthKey = rk_authKeyB64 ks\<rparr>)) (\<lambda>init.
      io_bind (io_lift (unwrapVaultSubkeys C
                 \<lparr>eb_blob = rr_recoveryBlob init, eb_blobIv = rr_recoveryBlobIv init, eb_blobMac = ''''\<rparr> (rk_wrapKey ks))) (\<lambda>old.
      io_return (init, old)))))"

definition recoverCommand ::
  "Platform \<Rightarrow> Machine \<Rightarrow> 'v CliApi \<Rightarrow> RecoveryRandom \<Rightarrow> string \<Rightarrow> string \<Rightarrow> string \<Rightarrow> string \<Rightarrow>
   'v \<times> cli_files \<Rightarrow> (Written list \<times> nat) \<times> ('v \<times> cli_files)" where
  "recoverCommand P m api rnd email codeText newPassword confirm w =
     (let start = [Stderr (''Deriving recovery key (Argon2id)...'' @ nl)];
          failed = (\<lambda>e. Stderr (recover_message (pl_text P) e @ nl)) in
      case openKit P api email codeText w of
        (Inl e, w1) \<Rightarrow> ((start @ [failed e], 1), w1)
      | (Inr (init, old), w1) \<Rightarrow>
          let opened = start @ [Stderr (''Vault keys recovered.'' @ nl)] in
          (case new_password_problem newPassword confirm of
             Some problem \<Rightarrow> ((opened @ [Stderr (problem @ nl)], 1), w1)
           | None \<Rightarrow>
               let deriving = opened @ [Stderr (''Deriving new keys (Argon2id)...'' @ nl)] in
               (case on_server (completeAccountRecovery (pl_crypto P) (pl_opaque P) rnd (cla_recovery api) email newPassword
                        init old) w1 of
                  (Inl e, w2) \<Rightarrow> ((deriving @ [failed e], 1), w2)
                | (Inr replacementCode, (v2, files2)) \<Rightarrow>
                    ((deriving @
                      [Stdout (nl @ ''Account recovered. All other sessions are revoked.'' @ nl @ nl),
                       Stdout (''Your NEW recovery code (the old one is dead) - store it offline now:'' @ nl @ nl),
                       Stdout (''    '' @ replacementCode @ nl @ nl),
                       Stdout (''Sign in with the new password: nopwd login -e '' @ email @ nl)], 0),
                     (v2, clearSession (mc_home m) files2)))))"


section \<open>Lemmas\<close>

lemma b64_char_plain: "n < 64 \<Longrightarrow> b64_char n \<noteq> CHR ''='' \<and> buffer_char (b64_char n) = Some n"
proof -
  assume n: "n < 64"
  then have v: "b64_val (b64_char n) = Some n" by simp
  have "b64_val (CHR ''='') = None" "b64_val (CHR ''-'') = None" "b64_val (CHR ''_'') = None"
    by (simp_all add: b64_val_def Let_def)
  with v have "b64_char n \<noteq> CHR ''=''" "b64_char n \<noteq> CHR ''-''" "b64_char n \<noteq> CHR ''_''" by auto
  then show ?thesis using v by (simp add: buffer_char_def)
qed

lemma buffer_chars: "list_all (\<lambda>n. n < 64) ns \<Longrightarrow>
   takeWhile (\<lambda>c. c \<noteq> CHR ''='') (map b64_char ns @ b64_pad k) = map b64_char ns \<and>
   List.map_filter buffer_char (map b64_char ns) = ns"
proof (induction ns)
  case Nil
  then show ?case by (cases "(3 - k mod 3) mod 3") (simp_all add: b64_pad_def map_filter_simps)
next
  case (Cons n ns)
  then show ?case using b64_char_plain [of n] by (simp add: map_filter_simps)
qed

lemma bufferFromBase64_toBase64 [simp]: "bufferFromBase64 (toBase64 bs) = bs"
proof -
  let ?xs = "map unat bs"
  have x: "list_all (\<lambda>a. a < 256) ?xs"
    by (simp add: list_all_iff)
  have "map code (map char_of_byte bs) = ?xs" by simp
  with buffer_chars [OF b64_sextets_less [OF x]] show ?thesis
    using b64_octets_sextets [OF x] by (simp add: bufferFromBase64_def toBase64_def btoa_def comp_def)
qed

lemma normalize_snoc: "n \<noteq> '''' \<Longrightarrow> n \<noteq> ''.'' \<Longrightarrow> n \<noteq> ''..'' \<Longrightarrow> normalize acc (ss @ [n]) = normalize acc ss @ [n]"
  by (induction ss arbitrary: acc) simp_all

lemma session_paths_distinct:
  "ACCOUNT_STATE_PATH home \<noteq> SESSION_PATH home" "ACCOUNT_STATE_PATH home \<noteq> DEVICE_ID_PATH home"
  "SESSION_PATH home \<noteq> DEVICE_ID_PATH home"
proof -
  have names: "js_split (CHR ''/'') ''session.json'' = [''session.json'']"
    "js_split (CHR ''/'') ''device_id'' = [''device_id'']"
    "js_split (CHR ''/'') ''account-state.json'' = [''account-state.json'']"
    by code_simp+
  show "ACCOUNT_STATE_PATH home \<noteq> SESSION_PATH home" "ACCOUNT_STATE_PATH home \<noteq> DEVICE_ID_PATH home"
    "SESSION_PATH home \<noteq> DEVICE_ID_PATH home"
    by (simp_all add: ACCOUNT_STATE_PATH_def SESSION_PATH_def DEVICE_ID_PATH_def session_file_def names normalize_snoc)
qed

lemma states_kept:
  "read_states home (saveSession home s files) = read_states home files"
  "read_states home (saveDeviceId home d files) = read_states home files"
  "read_states home (clearSession home files) = read_states home files"
  using session_paths_distinct [of home]
  by (simp_all add: read_states_def file_json_def saveSession_def saveDeviceId_def clearSession_def)

lemma remembers_kept_files:
  "file_store.remembers home h f (saveSession home s files) = file_store.remembers home h f files"
  "file_store.remembers home h f (saveDeviceId home d files) = file_store.remembers home h f files"
  unfolding file_store.remembers_def by (simp_all add: states_ok_def file_state_def states_kept)

lemma read_files_eq: "read_files f w = (r, w') \<longleftrightarrow> r = Inr (f (snd w)) \<and> w' = w"
  by (cases w) (auto simp: read_files_def)

lemma change_files_eq: "change_files f w = (r, w') \<longleftrightarrow> r = Inr () \<and> w' = (fst w, f (snd w))"
  by (cases w) (auto simp: change_files_def)

lemma registerDevice_files:
  "registerDevice m api token (v, files) = (r, (v', files')) \<Longrightarrow>
   (\<exists>d. r = Inr d) \<and> (files' = files \<or> (\<exists>d. files' = saveDeviceId (mc_home m) d files))"
  by (auto simp: registerDevice_def io_simps on_server_def change_files_def split: prod.splits sum.splits)

lemma login_stages:
  assumes "loginWithCredentials P m api lrnd urnd email password apiUrl (v, files) = (Inr (), (v', files'))"
  shows "\<exists>auth account v1 files1 v2 files2 files3 deviceId.
    loginWithPassword (pl_crypto P) (pl_opaque P) lrnd (cla_auth api)
      \<lparr>plo_email = email, plo_password = password, plo_accountState = fileAccountState (mc_home m),
       plo_deviceId = loadDeviceId (mc_home m) files\<rparr> (v, files) = (Inr auth, (v1, files1)) \<and>
    unlockAccount (pl_crypto P) (pl_opaque P) urnd (cla_account api) email password auth (fileAccountState (mc_home m))
      (v1, files1) = (Inr account, (v2, files2)) \<and>
    (files3 = files2 \<or> (\<exists>d. files3 = saveDeviceId (mc_home m) d files2)) \<and>
    files' = saveSession (mc_home m)
      \<lparr>ss_sessionToken = lr_sessionToken auth, ss_email = email, ss_userId = Some (lr_userId auth),
       ss_vaultEncKeyB64 = toBase64 (ak_encKeyBytes account), ss_vaultMacKeyB64 = toBase64 (ak_macKeyBytes account),
       ss_defaultVaultId = lr_defaultVaultId auth, ss_apiUrl = apiUrl, ss_deviceId = deviceId\<rparr> files3"
proof -
  obtain auth account w1 w2 w3 deviceId where
    l: "loginWithPassword (pl_crypto P) (pl_opaque P) lrnd (cla_auth api)
      \<lparr>plo_email = email, plo_password = password, plo_accountState = fileAccountState (mc_home m),
       plo_deviceId = loadDeviceId (mc_home m) files\<rparr> (v, files) = (Inr auth, w1)"
    and u: "unlockAccount (pl_crypto P) (pl_opaque P) urnd (cla_account api) email password auth (fileAccountState (mc_home m)) w1 =
      (Inr account, w2)"
    and d: "(case loadDeviceId (mc_home m) files of Some d \<Rightarrow> io_return (Some d)
             | None \<Rightarrow> registerDevice m api (lr_sessionToken auth)) w2 = (Inr deviceId, w3)"
    and f: "files' = saveSession (mc_home m)
      \<lparr>ss_sessionToken = lr_sessionToken auth, ss_email = email, ss_userId = Some (lr_userId auth),
       ss_vaultEncKeyB64 = toBase64 (ak_encKeyBytes account), ss_vaultMacKeyB64 = toBase64 (ak_macKeyBytes account),
       ss_defaultVaultId = lr_defaultVaultId auth, ss_apiUrl = apiUrl, ss_deviceId = nonempty_opt deviceId\<rparr> (snd w3)"
    using assms by (auto simp: loginWithCredentials_def Let_def io_bind_Inr read_files_eq change_files_eq)
  have "snd w3 = snd w2 \<or> (\<exists>d. snd w3 = saveDeviceId (mc_home m) d (snd w2))"
    using d registerDevice_files [of m api "lr_sessionToken auth" "fst w2" "snd w2" _ "fst w3" "snd w3"]
    by (cases "loadDeviceId (mc_home m) files") (auto simp: io_run)
  then show ?thesis
    using l u f by (intro exI [of _ auth] exI [of _ account] exI [of _ "fst w1"] exI [of _ "snd w1"] exI [of _ "fst w2"]
        exI [of _ "snd w2"] exI [of _ "snd w3"] exI [of _ "nonempty_opt deviceId"]) simp
qed

section \<open>Theorems\<close>


text \<open>
  Locking always forgets the session: whatever the server answers, and whether or not there was a session,
  the next command finds none, and what the device remembers of its accounts stays.
\<close>

theorem lock_always_forgets:
  "loadSession (mc_home m) (snd (snd (lockCommand m createApiClient (v, files)))) = None \<and>
   file_state (mc_home m) (snd (snd (lockCommand m createApiClient (v, files)))) h = file_state (mc_home m) files h"
  by (simp add: lockCommand_def loadSession_def clearSession_def file_state_def read_states_def file_json_def
      session_paths_distinct)

text \<open>A recovery ends the session exactly when it succeeds.\<close>

lemma recover_clears_session:
  assumes "recoverCommand P m api rnd email codeText newPassword confirm (v, files) = ((out, status), (v', files'))"
  shows "files' = (if status = 0 then clearSession (mc_home m) files else files)"
proof -
  have k: "files1 = files" if "openKit P api email codeText (v, files) = (r, (v1, files1))" for r v1 files1
    using that by (auto simp: openKit_def Let_def io_simps on_server_def split: prod.splits sum.splits)
  show ?thesis
    using assms k
    by (auto simp: recoverCommand_def Let_def on_server_def split: prod.splits sum.splits option.splits)
qed

text \<open>
  The commands take any new master password of eight characters, whatever the strength estimate says of it; the
  recovery page and the password form of the web client refuse everything below Strong, the former with the comment
  that recovery can't set a weaker master password.
\<close>

lemma command_line_takes_weak_passwords: "8 \<le> length pw \<Longrightarrow> new_password_problem pw pw = None"
  by (simp add: new_password_problem_def)

section \<open>A sample run\<close>

definition demo_machine :: Machine where
  "demo_machine = \<lparr>mc_home = [''home''], mc_hostname = ''host'', mc_platform = ''linux'', mc_deviceKey = [1, 2]\<rparr>"

definition demo_cli_api :: "unit CliApi" where
  "demo_cli_api = \<lparr>cla_auth = demo_auth_api\<lparr>opaqueLoginFinish := (\<lambda>_. io_return demo_login_response)\<rparr>,
     cla_account = demo_ak_api, cla_register = (\<lambda>_ _. io_return ''d1''), cla_logout = (\<lambda>_. io_throw DOMException),
     cla_change = \<lparr>passwordChangeStart = (\<lambda>_ _. io_throw DOMException), passwordChangeFinish = (\<lambda>_ _. io_throw DOMException)\<rparr>,
     cla_recoveryInit = (\<lambda>_. io_throw DOMException),
     cla_recovery = \<lparr>rca_opaqueStart = (\<lambda>_. io_throw DOMException), rca_complete = (\<lambda>_. io_throw DOMException)\<rparr>\<rparr>"

lemma demo_cli_login:
  "\<exists>files'. loginWithCredentials demo_platform demo_machine demo_cli_api demo_rnd demo_unlock_rnd ''a@b'' ''pw'' ''url''
     ((), \<lambda>_. None) = (Inr (), ((), files'))"
proof -
  let ?home = "[''home'']"
  note store = file_store.account_state_store_axioms [of ?home]
  have ok: "states_ok ?home (\<lambda>_. None)" by (simp add: states_ok_def read_states_def file_json_def)
  have fresh: "\<not> flag_of (file_state ?home (\<lambda>_. None) h) FlagAccountKey" for h
    by (simp add: file_state_def read_states_def file_json_def json_get_def)
  obtain f1 where l: "loginWithPassword demo_crypto demo_opaque demo_rnd
      (demo_auth_api\<lparr>opaqueLoginFinish := (\<lambda>_. io_return demo_login_response)\<rparr>)
      \<lparr>plo_email = ''a@b'', plo_password = ''pw'', plo_accountState = fileAccountState ?home, plo_deviceId = None\<rparr>
      ((), \<lambda>_. None) = (Inr (with_method MethodOpaque demo_login_response), ((), f1))" "states_ok ?home f1"
    "\<not> flag_of (file_state ?home f1 (computeEmailHash demo_crypto ''a@b'')) FlagAccountKey"
    using account_state_store.demo_login_flags [OF store, OF ok, of demo_rnd demo_login_response "''a@b''" None] fresh by auto
  from account_state_store.demo_unlock_any [OF store, OF l(2,3)] obtain a f2 where
    u: "unlockAccount demo_crypto demo_opaque demo_unlock_rnd demo_ak_api ''a@b'' ''pw''
      (with_method MethodOpaque demo_login_response) (fileAccountState ?home) ((), f1) = (Inr a, ((), f2))" by blast
  have none: "loadDeviceId ?home (\<lambda>_. None) = None" by (simp add: loadDeviceId_def nonempty_opt_def)
  show ?thesis
    using l(1) u none
    by (simp add: loginWithCredentials_def Let_def demo_platform_def demo_machine_def demo_cli_api_def io_simps read_files_def
        change_files_def registerDevice_def on_server_def)
qed


end
