(* ===== verification/Spec2Isabelle.thy ===== *)
theory Spec2Isabelle
  imports Trust_Index Sync_Engine Recovery Account_Recovery Srp_Client Share_Crypto Identity_Migration Extension_Autolock
    Extension_Ceremonies Extension_Races Totp Cli_Run Import_1Password Vault_Model Vault_Store Cli_Session Org_Panel Vault_Context
    Recovery_Pages Cli_Prompt Cli_Account
begin

text \<open>
  A verification of the client side of nopass (nopwd), an end-to-end encrypted password manager: the
  TypeScript of \<open>packages/crypto\<close>, \<open>packages/types\<close> and \<open>packages/ui\<close>, the service worker of the browser
  extension, the command line client and the vault of the web client. The server is not trusted: it is the
  state \<open>'v\<close> of the functions of an API record, and theorems hold for every such record.

  \<^bold>\<open>How the program fits together.\<close> A login (OPAQUE, or SRP for old accounts) gives a session; the
  account key, wrapped under the password, gives the vault keys; items are sealed in envelopes bound to
  their row, and a device refuses what is older than what it has seen. An organization has a key that is
  wrapped for each member and signed along a chain that ends in its owner; devices pin identity keys and
  remember the epoch, members and items they have seen. The extension's service worker holds the vault for
  web pages and answers passkey requests; the command line client hands secrets to processes; the web
  client shows and edits the vault.

  \<^bold>\<open>Foundations.\<close> \<open>Prelude\<close> (bytes, results with errors as values, the state and error monad \<open>io\<close>, JavaScript
  strings), \<open>Encoding\<close> (UTF-8, hexadecimal, base64), \<open>Json\<close>, \<open>Js_Map\<close> and \<open>Js_Sort\<close> (insertion-ordered maps
  and sets, stable sort), \<open>Js_Date\<close> (\<open>toISOString\<close>), \<open>Web_Crypto\<close> (the primitives as the record \<open>crypto\<close>, what
  is assumed of them as named predicates such as \<open>aead_correct\<close>, and \<open>demo_crypto\<close>, a concrete record that
  satisfies them, on which the witnesses run; also \<open>aes-gcm.ts\<close>), \<open>Vault_Types\<close> and \<open>Api_Types\<close>
  (\<open>packages/types\<close>), \<open>High_Water\<close> (the contract of stores that only grow), \<open>Ui_Handlers\<close> (event handlers of
  components and invariants they keep).

  \<^bold>\<open>Keys and accounts\<close> (\<open>packages/crypto/src\<close>). \<open>Kdf\<close> models \<open>kdf.ts\<close>; \<open>Account_State\<close> models
  \<open>account-state.ts\<close> with its three implementations; \<open>Srp_Client\<close> models \<open>srp-client.ts\<close> and the reference
  server of its tests, which agree on the session key; its \<open>modPow\<close> loop is shown to end within the bits of
  the exponent. \<open>Password_Login\<close>, \<open>Account_Key\<close>, \<open>Password_Change\<close>, \<open>Recovery\<close> and \<open>Account_Recovery\<close> model the files
  of these names: no downgrade to SRP or to keys derived from the password, weak key stretching refused,
  and the account key unchanged by migration, password change and recovery.

  \<^bold>\<open>Items.\<close> \<open>Item_Envelope\<close> models \<open>item-envelope.ts\<close>: round trip, binding to the row, no rollback, the upgrade
  of the first format. \<open>Sync_Engine\<close> models \<open>sync-engine.ts\<close>: the merge does not depend on the order of events.
  \<open>Trust_Index\<close> and \<open>Share_Crypto\<close> model the files of these names.

  \<^bold>\<open>Organizations.\<close> \<open>Identity_Keys\<close> (\<open>identity.ts\<close>), \<open>Org_Crypto\<close> (\<open>org-crypto.ts\<close>), \<open>Org_Trust\<close> (\<open>ui/lib/org-trust.ts\<close>)
  and \<open>Identity_Migration\<close> (\<open>ui/lib/identity-migration.ts\<close>): an accepted chain leads over pinned admins to an
  owner, and a rotation leaves out nothing the device knows of. \<open>Local_Trust\<close> (\<open>ui/lib/local-trust-state.ts\<close>)
  keeps revisions, pins, epochs and the ledger in \<open>localStorage\<close>, over reloads. \<open>Org_Panel\<close>
  (\<open>ui/components/OrgPanel.tsx\<close>) puts them together: its state is the record \<open>OrgPanel\<close>, its handlers are the
  functions of the same names, \<open>panel_step\<close> is one event; in every run a key reaches the vault only if it is
  vouched for.

  \<^bold>\<open>Browser extension\<close> (\<open>apps/extension/src\<close>). \<open>Url_Match\<close> models the origin rules and \<open>Webauthn\<close> the software
  authenticator (CBOR, DER signatures). \<open>Extension_State\<close>, \<open>Extension_Vault\<close>, \<open>Extension_Passkeys\<close> and
  \<open>Extension_Worker\<close> model \<open>background/index.ts\<close> as a state machine over messages, alarms and consents.
  \<open>Extension_Safety\<close>, \<open>Extension_Pages\<close>, \<open>Extension_Ceremonies\<close> and \<open>Extension_Autolock\<close> prove what every run keeps:
  where fills go, what a locked worker answers, what pages learn, that requests are answered and that the
  lock counts down. \<open>Extension_Races\<close> takes the handlers apart at their awaits. \<open>Extension_Demo\<close> is a sample run.

  \<^bold>\<open>Command line\<close> (\<open>apps/cli/src\<close>). \<open>Secret_Refs\<close> (\<open>secret-refs.ts\<close>), \<open>Cli_Adopt\<close> (\<open>adopt.ts\<close>, with the failures of each
  file operation), \<open>Cli_Run\<close> (\<open>run\<close>, \<open>get\<close> and \<open>list\<close>) \<open>Cli_Session\<close> (\<open>session.ts\<close>, the files in \<open>~/.nopwd\<close>),
  \<open>Cli_Prompt\<close> (\<open>prompt.ts\<close>) and \<open>Cli_Account\<close> (\<open>auth.ts\<close> and the commands \<open>login\<close>, \<open>lock\<close>, \<open>passwd\<close> and
  \<open>recover\<close>): a session holds exactly the account's keys, prompts are answered in order.

  \<^bold>\<open>Web client.\<close> \<open>Vault_Store\<close> (\<open>ui/store/vault-store.ts\<close>), \<open>Vault_Model\<close> (\<open>vault-model.ts\<close>), \<open>Vault_Context\<close>
  (\<open>vault-context.tsx\<close>: its state is \<open>VaultView\<close>, an event \<open>view_step\<close>), \<open>Sign_In\<close> (\<open>UnlockScreen.tsx\<close> and
  \<open>strength.ts\<close>: state \<open>SignInForm\<close>, an event \<open>form_step\<close>), \<open>Recovery_Pages\<close> (the recovery and kit pages and
  \<open>ChangePasswordForm.tsx\<close>) on \<open>Device_Facts\<close> (what signing in keeps on the device), \<open>Totp\<close> (\<open>totp.ts\<close>) and \<open>Import_1Password\<close>
  (the importer): what is shown was sealed under the account's keys, a save is whole or not at all, a
  browser that signed in once is not downgraded, a registration ends with a kit that works, an import loses nothing it does not report.

  \<^bold>\<open>Interfaces.\<close> The locale \<open>high_water\<close> is the contract of revision and epoch stores, \<open>key_pin_store\<close> that of pins,
  \<open>account_state_store\<close> that of account states, \<open>ext_relation\<close> and \<open>ext_frame\<close> that of relations the worker's
  handlers keep, \<open>ui_component\<close> that of components that show errors. Each is interpreted on the model of the
  code that provides it, next to that model.

  \<^bold>\<open>Modelling decisions.\<close> A JavaScript string is a list of code points below 256, so every text of the
  program is covered but for dashes, ellipses and bullets of messages, which are written in ASCII; integers
  are \<open>int\<close>, with 32-bit arithmetic as words where the code uses it. Random values, times and the answers of
  files and networks are arguments. Wiping of buffers has no effect in the model. JSON read from a store or
  a server is a \<open>json\<close> value that goes through a typed reader where the code casts it. A JavaScript object
  used as a map is an association list in insertion order; keys that look like array indices, which engines
  move to the front, do not occur as ids here. Handlers run from one event to their end, except in
  \<open>Extension_Races\<close>.

  \<^bold>\<open>Bounds and fuel.\<close> The JSON reader starts with one unit of fuel for each character, and every call uses
  at least one character, so it never runs out on a printed value (\<open>json_parse_print\<close>). The loop of \<open>modPow\<close>
  is also a \<open>while\<close> combinator, shown to end. Revisions are kept below \<open>MAX_SAFE_INTEGER\<close> as in the code. All
  other recursions are structural or come with a measure.

  \<^bold>\<open>What modelling showed.\<close> Lemmas about defects stand beside the models: an account is closed to the first
  item format after a failed load (\<open>failed_load_closes_account\<close>, \<open>Vault_Context\<close>); a key no signature covers is
  shared with an invite (\<open>swapped_key_is_shared\<close>, \<open>Org_Panel\<close>); locks that lose a race (\<open>Extension_Races\<close>); a
  crafted vault id removes the account states (\<open>crafted_vault_id_removes_account_states\<close>, \<open>Cli_Session\<close>); a
  trailing comma selects every item and a broken escape ends the process (\<open>trailing_comma_selects_all\<close>,
  \<open>broken_escape_throws\<close>, \<open>Cli_Run\<close>); an empty item name never resolves and a comment is read as a value
  (\<open>Cli_Adopt\<close>); fields of cards and logins that an import loses or shows (\<open>Import_1Password\<close>); a later
  upsert beats a deletion, against the comment (\<open>Sync_Engine\<close>); a hidden prompt reads bytes, and the command
  line takes weak passwords (\<open>Cli_Prompt\<close>, \<open>Cli_Account\<close>).

  \<^bold>\<open>Not modelled.\<close> The markup of React components and what only lays out or shows state; the content scripts,
  which work on the DOM of pages (what they send to the worker is any message in the model); what is
  written to the terminal while a prompt is open; the desktop application, whose operations are Rust; the
  HTTP transport of the API client, whose calls are fields of the API records. OPAQUE, Argon2id, AES-GCM, HMAC, HKDF, Ed25519,
  RSA-OAEP, ECDSA, \<open>new URL\<close>, the public suffix list, \<open>localeCompare\<close> and \<open>unzip\<close> are libraries or part of the
  platform: parameters with their documented behaviour as hypotheses.
\<close>

end
